(* ===== verification/Prelude.thy ===== *)
theory Prelude
  imports Main "HOL-Library.Word" "HOL-Library.Monad_Syntax" "HOL-Library.Code_Target_Numeral"
begin

text \<open>
  The prelude of the development: the machine integer types of the code, Rust's saturating,
  checked and wrapping arithmetic on them, little-endian byte decoding, and the generic facts on
  lists, options and words that the component theories share.  An unsigned w-bit integer is a
  word of that width.  Plain arithmetic is the wrapping arithmetic of a release build (no Cargo
  profile of the repository turns on overflow checks); where it matters the theories prove that it does
  not wrap.  Signed 64-bit values are integers, with the conversions written out.
\<close>

unbundle bit_operations_syntax

section \<open>Types\<close>

type_synonym u8 = "8 word"
type_synonym u16 = "16 word"
type_synonym u32 = "32 word"
type_synonym u64 = "64 word"
type_synonym u128 = "128 word"
type_synonym i64 = int
type_synonym bytes = "8 word list"

named_theorems rust_arith \<open>values of Rust arithmetic read as natural numbers\<close>
named_theorems model_defs \<open>definitions unfolded when a concrete input is evaluated\<close>

named_theorems ok_iff \<open>when a step of a result computation succeeds\<close>

declare of_nat_unat [simp del]

section \<open>Rust integer operations\<close>

abbreviation u64_max :: u64 where "u64_max \<equiv> - 1"
abbreviation u128_max :: u128 where "u128_max \<equiv> - 1"

definition sat_add :: "'a::len word \<Rightarrow> 'a word \<Rightarrow> 'a word" where
  "sat_add x y = (if unat x + unat y < 2 ^ LENGTH('a) then x + y else - 1)"

definition sat_sub :: "'a::len word \<Rightarrow> 'a word \<Rightarrow> 'a word" where
  "sat_sub x y = (if x < y then 0 else x - y)"

definition sat_mul :: "'a::len word \<Rightarrow> 'a word \<Rightarrow> 'a word" where
  "sat_mul x y = (if unat x * unat y < 2 ^ LENGTH('a) then x * y else - 1)"

definition checked_add :: "'a::len word \<Rightarrow> 'a word \<Rightarrow> 'a word option" where
  "checked_add x y = (if unat x + unat y < 2 ^ LENGTH('a) then Some (x + y) else None)"

definition checked_sub :: "'a::len word \<Rightarrow> 'a word \<Rightarrow> 'a word option" where
  "checked_sub x y = (if x < y then None else Some (x - y))"

definition checked_mul :: "'a::len word \<Rightarrow> 'a word \<Rightarrow> 'a word option" where
  "checked_mul x y = (if unat x * unat y < 2 ^ LENGTH('a) then Some (x * y) else None)"

definition checked_div :: "'a::len word \<Rightarrow> 'a word \<Rightarrow> 'a word option" where
  "checked_div x y = (if y = 0 then None else Some (x div y))"

definition u64_try_from :: "u128 \<Rightarrow> u64 option" where
  "u64_try_from x = (if unat x < 2 ^ 64 then Some (ucast x) else None)"

definition i64_max :: i64 where "i64_max = 2 ^ 63 - 1"
definition i64_min :: i64 where "i64_min = - (2 ^ 63)"

definition i64_ok :: "i64 \<Rightarrow> bool" where
  "i64_ok x \<longleftrightarrow> i64_min \<le> x \<and> x \<le> i64_max"

definition i64_try_from :: "u128 \<Rightarrow> i64 option" where
  "i64_try_from x = (if uint x \<le> i64_max then Some (uint x) else None)"

definition i64_sat :: "int \<Rightarrow> i64" where
  "i64_sat x = max i64_min (min i64_max x)"

lemma unat_max_word: "unat (- 1 :: 'a::len word) = 2 ^ LENGTH('a) - 1"
  by (simp add: unsigned_minus_1_eq_mask mask_eq_exp_minus_1)

lemma unat_sat_add [rust_arith]:
  "unat (sat_add x (y :: 'a::len word)) = min (unat x + unat y) (2 ^ LENGTH('a) - 1)"
  by (auto simp: sat_add_def unat_max_word unat_add_lem [symmetric] unat_word_ariths)

lemma unat_sat_sub [rust_arith]: "unat (sat_sub x y) = unat x - unat y"
  by (auto simp: sat_sub_def word_less_nat_alt unat_sub word_le_nat_alt)

lemma unat_sat_mul [rust_arith]:
  "unat (sat_mul x (y :: 'a::len word)) = min (unat x * unat y) (2 ^ LENGTH('a) - 1)"
  by (auto simp: sat_mul_def unat_max_word unat_word_ariths)

lemma unat_add_small [rust_arith]:
  "unat x + unat (y :: 'a::len word) < 2 ^ LENGTH('a) \<Longrightarrow> unat (x + y) = unat x + unat y"
  by (simp add: unat_word_ariths)

lemma unat_mult_small [rust_arith]:
  "unat x * unat (y :: 'a::len word) < 2 ^ LENGTH('a) \<Longrightarrow> unat (x * y) = unat x * unat y"
  by (simp add: unat_word_ariths)

lemma unat_sub_small [rust_arith]:
  "unat (y :: 'a::len word) \<le> unat x \<Longrightarrow> unat (x - y) = unat x - unat y"
  by (simp add: unat_sub word_le_nat_alt)

lemma unat_u64_u128 [rust_arith, simp]: "unat (ucast (x :: u64) :: u128) = unat x"
  using unsigned_less [of x, where 'a = nat] by (simp add: unsigned_ucast_eq take_bit_nat_eq_self_iff)

lemma unat_u128_u64: "unat (x :: u128) < 2 ^ 64 \<Longrightarrow> unat (ucast x :: u64) = unat x"
  by (simp add: unsigned_ucast_eq take_bit_nat_eq_self_iff)

lemma unat_lt_u64 [simp]: "unat (x :: u64) < 18446744073709551616"
  using unsigned_less [of x, where 'a = nat] by simp

lemma unat_lt_u128 [simp]:
  "unat (x :: u128) < 340282366920938463463374607431768211456"
  using unsigned_less [of x, where 'a = nat] by simp

lemma u64_le_max: "unat (x :: u64) \<le> 18446744073709551615"
  using unat_lt_u64 [of x] by linarith

lemma u128_le_max: "unat (x :: u128) \<le> 340282366920938463463374607431768211455"
  using unat_lt_u128 [of x] by linarith

lemma unat_div_word [rust_arith]: "unat (x div y) = unat x div unat (y :: 'a::len word)"
  by (rule unat_div)

lemma unat_mod_word [rust_arith]: "unat (x mod y) = unat x mod unat (y :: 'a::len word)"
  by (rule unat_mod)

lemma checked_add_Some:
  "checked_add x (y :: 'a::len word) = Some z
     \<longleftrightarrow> unat x + unat y < 2 ^ LENGTH('a) \<and> z = x + y"
  by (auto simp: checked_add_def)

lemma checked_mul_Some:
  "checked_mul x (y :: 'a::len word) = Some z
     \<longleftrightarrow> unat x * unat y < 2 ^ LENGTH('a) \<and> z = x * y"
  by (auto simp: checked_mul_def)

lemma checked_sub_Some:
  "checked_sub x (y :: 'a::len word) = Some z \<longleftrightarrow> y \<le> x \<and> z = x - y"
  by (auto simp: checked_sub_def)

lemma checked_add_unat:
  "checked_add x (y :: 'a::len word) = Some z \<Longrightarrow> unat z = unat x + unat y"
  by (auto simp: checked_add_Some unat_word_ariths)

lemma checked_mul_unat:
  "checked_mul x (y :: 'a::len word) = Some z \<Longrightarrow> unat z = unat x * unat y"
  by (auto simp: checked_mul_Some unat_word_ariths)

lemma checked_sub_unat:
  "checked_sub x (y :: 'a::len word) = Some z \<Longrightarrow> unat z + unat y = unat x"
  by (auto simp: checked_sub_Some unat_sub word_le_nat_alt)

lemma u64_try_from_Some:
  "u64_try_from x = Some y \<longleftrightarrow> unat x < 2 ^ 64 \<and> unat y = unat x"
  by (auto simp: u64_try_from_def unat_u128_u64 word_unat_eq_iff)

lemma i64_sat_ok [simp]: "i64_ok (i64_sat x)"
  by (auto simp: i64_ok_def i64_sat_def i64_min_def i64_max_def)

lemma int_unat_of_int: "0 \<le> i \<Longrightarrow> i < 2 ^ LENGTH('a) \<Longrightarrow> int (unat (of_int i :: 'a::len word)) = i"
  by (simp add: uint_nat [symmetric] unsigned_of_int take_bit_int_eq_self_iff)

section \<open>Bit operations read as numbers\<close>

lemma unat_take_bit [rust_arith]: "unat (take_bit n (x :: 'a::len word)) = unat x mod 2 ^ n"
  by (metis unsigned_take_bit_eq take_bit_eq_mod)

lemma unat_drop_bit [rust_arith]: "unat (drop_bit n (x :: 'a::len word)) = unat x div 2 ^ n"
  by (metis unat_drop_bit_eq drop_bit_eq_div)

lemma unat_push_bit [rust_arith]:
  "unat (push_bit n (x :: 'a::len word)) = unat x * 2 ^ n mod 2 ^ LENGTH('a)"
  by (metis unsigned_push_bit_eq push_bit_eq_mult take_bit_eq_mod)

lemma take_bit_self: "unat (x :: 'a::len word) < 2 ^ n \<Longrightarrow> take_bit n x = x"
  by (simp only: word_unat_eq_iff unat_take_bit mod_less)

lemma or_push_eq_add:
  assumes "unat (x :: 'a::len word) < 2 ^ n"
  shows "x OR push_bit n y = x + push_bit n y"
proof -
  have "\<not> bit x k \<or> \<not> bit (push_bit n y) k" for k
    by (subst take_bit_self [OF assms, symmetric]) (auto simp only: bit_take_bit_iff bit_push_bit_iff)
  then show ?thesis by (rule disjunctive_add [symmetric])
qed

section \<open>Products of 64-bit values in 128 bits\<close>

lemma u64_times_lt: "k \<le> 2 ^ 64 \<Longrightarrow> unat (x :: u64) * k < 2 ^ 128"
proof -
  assume "k \<le> 2 ^ 64"
  have "unat x * k \<le> unat x * 2 ^ 64" using \<open>k \<le> 2 ^ 64\<close> by (rule mult_le_mono2)
  also have "\<dots> < 2 ^ 64 * 2 ^ 64" by (rule mult_strict_right_mono) simp_all
  finally show ?thesis by simp
qed

lemma unat_u64_product [simp]:
  "unat (ucast (x :: u64) * ucast (y :: u64) :: u128) = unat x * unat y"
proof -
  have "unat x * unat y < 2 ^ 128" by (rule u64_times_lt) (simp add: less_imp_le)
  then show ?thesis by (simp add: unat_word_ariths)
qed

lemma unat_u64_scaled [simp]:
  assumes "(numeral k :: nat) \<le> 2 ^ 64"
  shows "unat (ucast (x :: u64) * numeral k :: u128) = unat x * numeral k"
proof -
  have "(numeral k :: nat) < 2 ^ LENGTH(128)" using assms by (rule le_less_trans) simp
  then have "unat (numeral k :: u128) = numeral k" by (simp only: unat_numeral mod_less)
  moreover have "unat x * numeral k < 2 ^ 128" using assms by (rule u64_times_lt)
  ultimately show ?thesis by (simp add: unat_word_ariths)
qed

section \<open>Results\<close>

text \<open>\<open>Result<T, E>\<close> is a sum with the error on the left; \<open>and_then\<close> is the question mark operator.\<close>

definition and_then :: "'e + 'a \<Rightarrow> ('a \<Rightarrow> 'e + 'b) \<Rightarrow> 'e + 'b" where
  "and_then r f = (case r of Inl e \<Rightarrow> Inl e | Inr x \<Rightarrow> f x)"

definition ok_or :: "'e \<Rightarrow> 'a option \<Rightarrow> 'e + 'a" where
  "ok_or e x = (case x of None \<Rightarrow> Inl e | Some v \<Rightarrow> Inr v)"

definition ensure :: "bool \<Rightarrow> 'e \<Rightarrow> 'e + unit" where
  "ensure b e = (if b then Inr () else Inl e)"

definition is_ok :: "'e + 'a \<Rightarrow> bool" where
  "is_ok r = (case r of Inl _ \<Rightarrow> False | Inr _ \<Rightarrow> True)"

fun try_map :: "('a \<Rightarrow> 'e + 'b) \<Rightarrow> 'a list \<Rightarrow> 'e + 'b list" where
  "try_map f [] = Inr []"
| "try_map f (x # xs) = and_then (f x) (\<lambda>y. and_then (try_map f xs) (\<lambda>ys. Inr (y # ys)))"

lemma and_then_Inr [simp]: "and_then (Inr x) f = f x" and and_then_Inl [simp]: "and_then (Inl e) f = Inl e"
  by (simp_all add: and_then_def)

lemma and_then_eq_Inr [ok_iff]: "and_then r f = Inr y \<longleftrightarrow> (\<exists>x. r = Inr x \<and> f x = Inr y)"
  by (cases r) (simp_all add: and_then_def)

lemma ok_or_eq_Inr [simp, ok_iff]: "ok_or e x = Inr v \<longleftrightarrow> x = Some v"
  by (cases x) (simp_all add: ok_or_def)

lemma ensure_eq_Inr [simp, ok_iff]: "ensure b e = Inr u \<longleftrightarrow> b"
  by (simp add: ensure_def)

lemma is_ok_simps [simp]: "is_ok (Inr x)" "\<not> is_ok (Inl e)"
  by (simp_all add: is_ok_def)

lemma try_map_Inr [ok_iff]: "try_map f xs = Inr ys \<longleftrightarrow> list_all2 (\<lambda>x y. f x = Inr y) xs ys"
  by (induction xs arbitrary: ys) (auto simp: and_then_eq_Inr list_all2_Cons1)

section \<open>Little-endian bytes\<close>

fun le_nat :: "bytes \<Rightarrow> nat" where
  "le_nat [] = 0"
| "le_nat (b # bs) = unat b + 256 * le_nat bs"

definition from_le_bytes :: "bytes \<Rightarrow> 'a::len word" where
  "from_le_bytes bs = of_nat (le_nat bs)"

definition to_le_bytes :: "nat \<Rightarrow> 'a::len word \<Rightarrow> bytes" where
  "to_le_bytes n x = map (\<lambda>i. of_nat (unat x div 256 ^ i mod 256)) [0..<n]"

text \<open>\<open>xs.get(a..b)\<close>: the bytes of a range, when the range lies in the data.\<close>

definition get_range :: "nat \<Rightarrow> nat \<Rightarrow> 'a list \<Rightarrow> 'a list option" where
  "get_range a b xs = (if a \<le> b \<and> b \<le> length xs then Some (take (b - a) (drop a xs)) else None)"

definition get_at :: "nat \<Rightarrow> 'a list \<Rightarrow> 'a option" where
  "get_at n xs = (if n < length xs then Some (xs ! n) else None)"

lemma get_at_Some [simp]: "get_at n xs = Some x \<longleftrightarrow> n < length xs \<and> x = xs ! n"
  by (auto simp: get_at_def)

lemma get_range_Some: "get_range a b xs = Some ys \<longleftrightarrow> a \<le> b \<and> b \<le> length xs \<and> ys = take (b - a) (drop a xs)"
  by (auto simp: get_range_def)

lemma get_range_length: "get_range a b xs = Some ys \<Longrightarrow> length ys = b - a"
  by (auto simp: get_range_Some)

lemma le_nat_lt: "le_nat bs < 256 ^ length bs"
proof (induction bs)
  case (Cons b bs)
  have "unat b < 256" using unsigned_less [of b, where 'a = nat] by simp
  with Cons show ?case by simp
qed simp

lemma unat_of_nat_byte: "unat (of_nat (k mod 256) :: u8) = k mod 256"
  by (simp add: unsigned_of_nat take_bit_nat_eq_self_iff)

lemma le_nat_bytes: "le_nat (map (\<lambda>i. of_nat (n div 256 ^ i mod 256)) [0..<k]) = n mod 256 ^ k"
proof (induction k arbitrary: n)
  case (Suc k)
  have "map (\<lambda>i. of_nat (n div 256 ^ i mod 256) :: u8) [0..<Suc k]
      = of_nat (n mod 256) # map (\<lambda>i. of_nat (n div 256 div 256 ^ i mod 256)) [0..<k]"
    by (simp only: map_upt_Suc) (simp add: div_mult2_eq)
  then show ?case
    using Suc.IH [of "n div 256"] by (simp add: unat_of_nat_byte mod_mult2_eq algebra_simps)
qed simp

lemma from_to_le_bytes: "LENGTH('a) \<le> 8 * n \<Longrightarrow> from_le_bytes (to_le_bytes n x) = (x :: 'a::len word)"
proof -
  assume n: "LENGTH('a) \<le> 8 * n"
  have "unat x < 2 ^ LENGTH('a)" by simp
  also have "\<dots> \<le> 2 ^ (8 * n)" using n by (rule power_increasing) simp
  also have "\<dots> = 256 ^ n" by (simp add: power_mult)
  finally have "unat x mod 256 ^ n = unat x" by simp
  then show ?thesis by (simp add: from_le_bytes_def to_le_bytes_def le_nat_bytes word_unat_eq_iff
        unsigned_of_nat take_bit_nat_eq_self_iff)
qed

section \<open>Strings\<close>

text \<open>
  The operations of Rust's \<open>str\<close> the program uses, on ASCII text: white space, trimming, splitting at a
  character, the decimal text of a number and the parser of an unsigned 64-bit integer (an optional plus sign, at least one digit, no overflow).
\<close>

definition is_ws :: "char \<Rightarrow> bool" where
  "is_ws c \<longleftrightarrow> of_char c \<in> {9, 10, 11, 12, 13, 32 :: nat}"

definition trim :: "string \<Rightarrow> string" where
  "trim s = rev (dropWhile is_ws (rev (dropWhile is_ws s)))"

fun split_on :: "char \<Rightarrow> string \<Rightarrow> string list" where
  "split_on c [] = [[]]"
| "split_on c (x # xs) =
     (if x = c then [] # split_on c xs
      else case split_on c xs of [] \<Rightarrow> [[x]] | w # ws \<Rightarrow> (x # w) # ws)"

fun decimal :: "nat \<Rightarrow> string" where
  "decimal n = (if n < 10 then [char_of (48 + n)] else decimal (n div 10) @ [char_of (48 + n mod 10)])"

declare decimal.simps [simp del]

fun parse_digits :: "nat \<Rightarrow> string \<Rightarrow> nat option" where
  "parse_digits acc [] = Some acc"
| "parse_digits acc (c # cs) =
     (let k = (of_char c :: nat)
      in if 48 \<le> k \<and> k \<le> 57 then parse_digits (10 * acc + (k - 48)) cs else None)"

definition parse_u64 :: "string \<Rightarrow> u64 option" where
  "parse_u64 s =
     (let ds = (case s of c # cs \<Rightarrow> if c = CHR ''+'' then cs else s | [] \<Rightarrow> [])
      in if ds = [] then None
         else case parse_digits 0 ds of
                None \<Rightarrow> None
              | Some n \<Rightarrow> if n < 2 ^ 64 then Some (of_nat n) else None)"

end
