(* ===== verification/Mul_Div.thy ===== *)
theory Mul_Div
  imports Prelude
begin

text \<open>
  The 256-bit multiply-and-divide of \<open>solana-sniper/src/strategy.rs\<close> (\<open>mul_div\<close>,
  \<open>mul_div_floor\<close>, \<open>mul_div_ceil\<close>): the schoolbook product of two \<open>u128\<close>
  values as a pair of words, and the 128-step binary long division with its carry bit.  The lemmas show
  that the routine is the exact quotient and remainder of natural-number division, that it
  answers \<open>None\<close> exactly for a zero divisor or a quotient of 129 bits or more, and that no
  intermediate sum wraps.
\<close>

section \<open>The routine\<close>

text \<open>\<open>M\<close> in the source: the low 64 bits of a \<open>u128\<close>.\<close>

definition lo64 :: u128 where
  "lo64 = 18446744073709551615"

definition wide_product :: "u128 \<Rightarrow> u128 \<Rightarrow> u128 \<times> u128" where
  "wide_product a b =
     (let a0 = a AND lo64; a1 = drop_bit 64 a;
          b0 = b AND lo64; b1 = drop_bit 64 b;
          p00 = a0 * b0; p01 = a0 * b1; p10 = a1 * b0; p11 = a1 * b1;
          mid = drop_bit 64 p00 + (p01 AND lo64) + (p10 AND lo64);
          lo = (p00 AND lo64) OR push_bit 64 mid;
          hi = p11 + drop_bit 64 p01 + drop_bit 64 p10 + drop_bit 64 mid
      in (hi, lo))"

definition div_step :: "u128 \<Rightarrow> u128 \<Rightarrow> nat \<Rightarrow> u128 \<times> u128 \<Rightarrow> u128 \<times> u128" where
  "div_step d lo i s =
     (let (rem, q) = s;
          carry = drop_bit 127 rem;
          rem' = push_bit 1 rem OR (drop_bit i lo AND 1);
          q' = push_bit 1 q
      in if carry = 1 \<or> d \<le> rem' then (rem' - d, q' OR 1) else (rem', q'))"

definition mul_div :: "u128 \<Rightarrow> u128 \<Rightarrow> u128 \<Rightarrow> (u128 \<times> u128) option" where
  "mul_div a b d =
     (if d = 0 then None
      else let (hi, lo) = wide_product a b
           in if d \<le> hi then None
              else if hi = 0 then Some (lo div d, lo mod d)
              else let (rem, q) = fold (div_step d lo) (rev [0..<128]) (hi, 0)
                   in Some (q, rem))"

definition mul_div_floor :: "u128 \<Rightarrow> u128 \<Rightarrow> u128 \<Rightarrow> u128 option" where
  "mul_div_floor a b d = map_option fst (mul_div a b d)"

definition mul_div_ceil :: "u128 \<Rightarrow> u128 \<Rightarrow> u128 \<Rightarrow> u128 option" where
  "mul_div_ceil a b d =
     (case mul_div a b d of None \<Rightarrow> None
      | Some (q, r) \<Rightarrow> if r = 0 then Some q else checked_add q 1)"

section \<open>The product\<close>

lemma unat_and_lo64: "unat (x AND lo64) = unat x mod 2 ^ 64"
proof -
  have "lo64 = mask 64" by (simp add: lo64_def mask_eq_exp_minus_1)
  then have "x AND lo64 = take_bit 64 x" by (simp only: take_bit_eq_mask)
  then show ?thesis by (simp only: unat_take_bit)
qed


lemma schoolbook:
  fixes K p00 p01 p10 p11 mid :: nat
  assumes "mid = p00 div K + p01 mod K + p10 mod K"
  shows "(p11 + p01 div K + p10 div K + mid div K) * (K * K) + (p00 mod K + mid mod K * K)
           = p11 * (K * K) + (p01 + p10) * K + p00"
proof -
  have "mid div K * (K * K) + mid mod K * K = mid * K"
    by (metis add_mult_distrib div_mult_mod_eq mult.assoc)
  moreover have "mid * K = p00 div K * K + p01 mod K * K + p10 mod K * K"
    using assms by (simp add: algebra_simps)
  moreover have "p01 div K * (K * K) + p01 mod K * K = p01 * K"
    by (metis add_mult_distrib div_mult_mod_eq mult.assoc)
  moreover have "p10 div K * (K * K) + p10 mod K * K = p10 * K"
    by (metis add_mult_distrib div_mult_mod_eq mult.assoc)
  moreover have "p00 div K * K + p00 mod K = p00" by simp
  ultimately show ?thesis by (simp only: add_mult_distrib)
qed

lemma halves: "unat (x :: u128) = unat (drop_bit 64 x) * 2 ^ 64 + unat (x AND lo64)"
  by (simp only: unat_drop_bit unat_and_lo64 div_mult_mod_eq)

lemma halves_lt: "unat (drop_bit 64 (x :: u128)) < 2 ^ 64" "unat (x AND lo64) < 2 ^ 64"
proof -
  have "unat x < 2 ^ 64 * 2 ^ 64" by simp
  then show "unat (drop_bit 64 x) < 2 ^ 64"
    by (simp only: unat_drop_bit less_mult_imp_div_less)
  show "unat (x AND lo64) < 2 ^ 64" by (simp add: unat_and_lo64)
qed

lemma unat_add4:
  assumes "unat x + unat y + unat z + unat (w :: 'a::len word) < 2 ^ LENGTH('a)"
  shows "unat (x + y + z + w) = unat x + unat y + unat z + unat w"
proof -
  have "unat (x + y) = unat x + unat y" using assms by (intro unat_add_small) linarith
  moreover from this have "unat (x + y + z) = unat x + unat y + unat z"
    using assms by (subst unat_add_small) linarith+
  ultimately show ?thesis using assms by (subst unat_add_small) linarith+
qed

lemma unat_half_product:
  assumes "unat (x :: u128) < 2 ^ 64" "unat (y :: u128) < 2 ^ 64"
  shows "unat (x * y) = unat x * unat y"
proof -
  have "unat x * unat y < 2 ^ 64 * 2 ^ 64"
    using assms by (intro mult_strict_mono) auto
  then show ?thesis by (simp add: unat_word_ariths)
qed

lemma wide_product_exact:
  assumes "wide_product a b = (hi, lo)"
  shows "unat a * unat b = unat hi * 2 ^ 128 + unat lo"
proof -
  define K :: nat where "K = 2 ^ 64"
  define a0 a1 b0 b1 where "a0 = a AND lo64" and "a1 = drop_bit 64 a"
    and "b0 = b AND lo64" and "b1 = drop_bit 64 b"
  note small = halves_lt [of a, folded a0_def a1_def] halves_lt [of b, folded b0_def b1_def]
  define mid where "mid = drop_bit 64 (a0 * b0) + (a0 * b1 AND lo64) + (a1 * b0 AND lo64)"
  define m where "m = unat (a0 * b0) div K + unat (a0 * b1) mod K + unat (a1 * b0) mod K"
  have m: "unat mid = m"
    using halves_lt [of "a0 * b0"] halves_lt(2) [of "a0 * b1"] halves_lt(2) [of "a1 * b0"]
    by (simp add: mid_def m_def K_def unat_and_lo64 unat_add_small unat_drop_bit)
  have lo: "lo = (a0 * b0 AND lo64) OR push_bit 64 mid"
    and hi: "hi = a1 * b1 + drop_bit 64 (a0 * b1) + drop_bit 64 (a1 * b0) + drop_bit 64 mid"
    using assms by (auto simp: wide_product_def Let_def a0_def a1_def b0_def b1_def mid_def)
  have lo_n: "unat lo = unat (a0 * b0) mod K + m mod K * K"
  proof -
    have "m * 2 ^ 64 mod 2 ^ 128 = m mod K * K"
      unfolding K_def using mod_mult_mult2 [of m "2 ^ 64" "2 ^ 64"] by simp
    moreover have "unat (a0 * b0) mod K < K" "m mod K < K" by (simp_all add: K_def)
    moreover have "m mod K * K + K \<le> K * K"
      using \<open>m mod K < K\<close> by (metis Suc_leI add.commute mult_Suc mult_le_mono1)
    ultimately show ?thesis
      unfolding lo using m
      by (subst or_push_eq_add [OF halves_lt(2)])
         (simp add: unat_add_small unat_and_lo64 unat_push_bit K_def)
  qed
  let ?h = "unat (a1 * b1) + unat (a0 * b1) div K + unat (a1 * b0) div K + m div K"
  have total: "?h * (K * K) + unat lo = unat a * unat b"
  proof -
    have "unat a * unat b = (unat a1 * K + unat a0) * (unat b1 * K + unat b0)"
      unfolding K_def a0_def a1_def b0_def b1_def by (simp only: halves [symmetric])
    also have "\<dots> = unat (a1 * b1) * (K * K) + (unat (a0 * b1) + unat (a1 * b0)) * K + unat (a0 * b0)"
      by (simp add: unat_half_product [OF small(1) small(3)] unat_half_product [OF small(1) small(4)]
          unat_half_product [OF small(2) small(3)] unat_half_product [OF small(2) small(4)] algebra_simps)
    finally show ?thesis
      using schoolbook [OF m_def, of "unat (a1 * b1)"] lo_n by simp
  qed
  have "?h < K * K"
  proof (rule ccontr)
    assume "\<not> ?h < K * K"
    then have "K * K * (K * K) \<le> ?h * (K * K)" by (intro mult_le_mono1) (simp only: not_less)
    then have "K * K * (K * K) \<le> unat a * unat b" using total by linarith
    moreover have "unat a * unat b < 2 ^ 128 * 2 ^ 128"
      by (intro mult_strict_mono) auto
    ultimately show False by (simp add: K_def)
  qed
  then have "?h < 2 ^ LENGTH(128)" by (simp add: K_def)
  moreover have "unat (a1 * b1) + unat (drop_bit 64 (a0 * b1)) + unat (drop_bit 64 (a1 * b0))
      + unat (drop_bit 64 mid) = ?h"
    by (simp only: unat_drop_bit K_def m)
  ultimately have "unat hi = ?h"
    unfolding hi by (metis unat_add4)
  with total show ?thesis by (simp add: K_def)
qed

section \<open>The long division\<close>

lemma unat_and_1: "unat ((x :: u128) AND 1) = unat x mod 2"
  by (simp add: and_one_eq unat_mod_word)

lemma unat_shift_in:
  assumes "unat (b :: u128) < 2"
  shows "unat (push_bit 1 x OR b) = (2 * unat x + unat b) mod 2 ^ 128"
proof -
  have len128: "LENGTH(128) = 128" by simp
  have "push_bit 1 x OR b = b + push_bit 1 x"
    using assms by (metis or.commute or_push_eq_add power_one_right)
  moreover have "unat (push_bit 1 x) = unat x * 2 mod 2 ^ 128"
    by (simp only: unat_push_bit power_one_right) simp
  ultimately have "unat (push_bit 1 x OR b) = (unat b + unat x * 2 mod 2 ^ 128) mod 2 ^ LENGTH(128)"
    by (simp only: unat_word_ariths)
  also have "\<dots> = (unat b + unat x * 2) mod 2 ^ 128"
    using len128 by (simp only: mod_add_right_eq)
  finally show ?thesis by (simp only: add.commute mult.commute)
qed

lemma shift_carry: "drop_bit 127 (r :: u128) = 1 \<longleftrightarrow> 2 ^ 127 \<le> unat r"
proof -
  have "unat r < 2 ^ 127 * 2" using unsigned_less [of r, where 'a = nat] by simp
  then have "unat r div 2 ^ 127 < 2" by (simp only: less_mult_imp_div_less mult.commute)
  moreover have "unat r div 2 ^ 127 = 0 \<longleftrightarrow> unat r < 2 ^ 127" by (simp add: div_eq_0_iff)
  ultimately have "unat r div 2 ^ 127 = 1 \<longleftrightarrow> 2 ^ 127 \<le> unat r" by linarith
  then show ?thesis by (simp only: word_unat_eq_iff unat_drop_bit unat_1)
qed

lemma div_step_exact:
  assumes step: "div_step d lo i (r, q) = (r', q')" and "unat r < unat d" "unat q < 2 ^ 127"
  defines "R \<equiv> 2 * unat r + unat lo div 2 ^ i mod 2"
  shows "unat r' = (if unat d \<le> R then R - unat d else R)"
    and "unat q' = 2 * unat q + (if unat d \<le> R then 1 else 0)"
proof -
  let ?w = "push_bit 1 r OR (drop_bit i lo AND 1)"
  have bit: "unat (drop_bit i lo AND 1) = unat lo div 2 ^ i mod 2"
    by (simp only: unat_and_1 unat_drop_bit)
  then have "unat (drop_bit i lo AND 1) < 2" by simp
  from unat_shift_in [OF this, of r] have w: "unat ?w = R mod 2 ^ 128"
    by (simp only: bit R_def)
  have lt: "R < 2 * unat d" using assms(2) by (simp add: R_def)
  have d: "unat d < 2 ^ 128" by simp
  have take: "drop_bit 127 r = 1 \<or> d \<le> ?w \<longleftrightarrow> unat d \<le> R"
  proof (cases "2 ^ 127 \<le> unat r")
    case True
    then have "2 * 2 ^ 127 \<le> R" unfolding R_def by linarith
    moreover have "unat d < 2 * 2 ^ 127" by simp
    ultimately have "unat d \<le> R" by (rule order.trans [OF less_imp_le, rotated])
    with True show ?thesis by (simp add: shift_carry)
  next
    case False
    then have "R < 2 ^ 128" by (simp add: R_def)
    with False w show ?thesis by (simp add: shift_carry word_le_nat_alt)
  qed
  have q: "unat (push_bit 1 q) = 2 * unat q" "unat (push_bit 1 q OR 1) = 2 * unat q + 1"
    using assms(3) unat_shift_in [of 1 q] unat_shift_in [of 0 q] by simp_all
  have sub: "unat (?w - d) = R - unat d" if "unat d \<le> R"
  proof -
    have "R < 2 * 2 ^ 128" using lt d by linarith
    then consider "R < 2 ^ 128" | "2 ^ 128 \<le> R" "R mod 2 ^ 128 = R - 2 ^ 128"
      by (metis le_mod_geq less_diff_conv2 mod_less mult_2 not_less)
    then show ?thesis
    proof cases
      case 1 with w that show ?thesis by (simp add: unat_sub_small)
    next
      case 2
      then show ?thesis using w lt d by (simp add: unat_sub_if_size word_size)
    qed
  qed
  have keep: "unat ?w = R" if "\<not> unat d \<le> R"
    using w that less_trans [OF _ d, of R] by simp
  show "unat r' = (if unat d \<le> R then R - unat d else R)"
    using step take sub keep by (auto simp: div_step_def Let_def split: if_splits)
  show "unat q' = 2 * unat q + (if unat d \<le> R then 1 else 0)"
    using step take q by (auto simp: div_step_def Let_def split: if_splits)
qed

lemma div_step_bound:
  assumes "H < D" "k \<le> 127" "H * 2 ^ (128 - k) + L div 2 ^ k = q * D + (r :: nat)" "L < 2 ^ 128"
  shows "q < 2 ^ (128 - k)"
proof (rule ccontr)
  assume "\<not> ?thesis"
  then have "2 ^ (128 - k) \<le> q" by simp
  then have "D * 2 ^ (128 - k) \<le> D * q" by (rule mult_le_mono2)
  moreover have "L div 2 ^ k < 2 ^ (128 - k)"
    using assms by (simp add: less_mult_imp_div_less flip: power_add)
  moreover have "H * 2 ^ (128 - k) + 2 ^ (128 - k) \<le> D * 2 ^ (128 - k)"
    using assms(1) by (metis Suc_leI add.commute mult_Suc mult_le_mono1)
  ultimately show False using assms(3) unfolding mult.commute [of q D] by linarith
qed

lemma div_loop_exact:
  assumes "k \<le> 128" "H < unat d"
    and "H * 2 ^ (128 - k) + unat lo div 2 ^ k = unat q * unat d + unat r"
    and "unat r < unat d" "k < 128 \<longrightarrow> unat q < 2 ^ (128 - k)" "k = 128 \<longrightarrow> q = 0"
    and "fold (div_step d lo) (rev [0..<k]) (r, q) = (r', q')"
  shows "H * 2 ^ 128 + unat lo = unat q' * unat d + unat r' \<and> unat r' < unat d"
  using assms
proof (induction k arbitrary: r q)
  case 0
  then show ?case by simp
next
  case (Suc k)
  obtain r1 q1 where st: "div_step d lo k (r, q) = (r1, q1)" by fastforce
  have "unat q < 2 ^ 127"
  proof (cases "Suc k = 128")
    case False
    then have "2 ^ (128 - Suc k) \<le> (2 :: nat) ^ 127" by (intro power_increasing) auto
    with Suc.prems False show ?thesis by linarith
  qed (use Suc.prems in simp)
  note ex = div_step_exact [OF st Suc.prems(4) this]
  let ?R = "2 * unat r + unat lo div 2 ^ k mod 2"
  have "unat lo div 2 ^ k = 2 * (unat lo div 2 ^ Suc k) + unat lo div 2 ^ k mod 2"
    by (simp only: power_Suc2 div_mult2_eq mult_div_mod_eq)
  moreover have "128 - k = Suc (128 - Suc k)" using Suc.prems(1) by simp
  ultimately have "H * 2 ^ (128 - k) + unat lo div 2 ^ k
      = 2 * (H * 2 ^ (128 - Suc k) + unat lo div 2 ^ Suc k) + unat lo div 2 ^ k mod 2"
    by simp
  also have "\<dots> = 2 * unat q * unat d + ?R" using Suc.prems(3) by simp
  also have "\<dots> = unat q1 * unat d + unat r1" using ex by (simp add: algebra_simps)
  finally have inv: "H * 2 ^ (128 - k) + unat lo div 2 ^ k = unat q1 * unat d + unat r1" .
  have r1: "unat r1 < unat d" using ex Suc.prems(4) by (auto split: if_splits)
  have "k \<le> 127" using Suc.prems(1) by simp
  from div_step_bound [OF Suc.prems(2) this inv] have "unat q1 < 2 ^ (128 - k)" by simp
  with Suc.IH [of q1 r1] inv r1 Suc.prems st show ?case by simp
qed

section \<open>Exactness\<close>

lemma mul_div_None_iff: "mul_div a b d = None \<longleftrightarrow> d = 0 \<or> 2 ^ 128 \<le> unat a * unat b div unat d"
proof (cases "d = 0")
  case False
  then have d: "0 < unat d" by (simp add: unat_gt_0)
  obtain hi lo where w: "wide_product a b = (hi, lo)" by fastforce
  note ex = wide_product_exact [OF w]
  have "d \<le> hi \<longleftrightarrow> 2 ^ 128 * unat d \<le> unat a * unat b"
  proof
    assume "d \<le> hi"
    then have "2 ^ 128 * unat d \<le> unat hi * 2 ^ 128" by (simp add: word_le_nat_alt)
    with ex show "2 ^ 128 * unat d \<le> unat a * unat b" by linarith
  next
    assume le: "2 ^ 128 * unat d \<le> unat a * unat b"
    have "unat a * unat b < (unat hi + 1) * 2 ^ 128" using ex by simp
    have "unat d < unat hi + 1"
    proof (rule ccontr)
      assume "\<not> unat d < unat hi + 1"
      then have "(unat hi + 1) * 2 ^ 128 \<le> unat d * 2 ^ 128" by (intro mult_le_mono1) simp
      with le \<open>unat a * unat b < (unat hi + 1) * 2 ^ 128\<close> show False
        unfolding mult.commute [of "unat d"] by linarith
    qed
    then show "d \<le> hi" by (simp add: word_le_nat_alt)
  qed
  also have "\<dots> \<longleftrightarrow> 2 ^ 128 \<le> unat a * unat b div unat d"
    using d by (simp add: less_eq_div_iff_mult_less_eq)
  finally show ?thesis
    using False w by (auto simp: mul_div_def split: prod.splits)
qed (simp add: mul_div_def)

lemma mul_div_exact:
  assumes "mul_div a b d = Some (q, r)"
  shows "unat a * unat b = unat q * unat d + unat r" "unat r < unat d"
proof -
  obtain hi lo where w: "wide_product a b = (hi, lo)" by fastforce
  have d: "d \<noteq> 0" "\<not> d \<le> hi" using assms w by (auto simp: mul_div_def split: if_splits)
  have "unat a * unat b = unat q * unat d + unat r \<and> unat r < unat d"
  proof (cases "hi = 0")
    case True
    then have "q = lo div d" "r = lo mod d" using assms w d by (auto simp: mul_div_def)
    then show ?thesis
      using wide_product_exact [OF w] True d
      by (simp add: unat_div_word unat_mod_word unat_gt_0)
  next
    case False
    obtain r' q' where f: "fold (div_step d lo) (rev [0..<128]) (hi, 0) = (r', q')" by fastforce
    then have "q = q'" "r = r'" using assms w d False by (auto simp: mul_div_def)
    with div_loop_exact [OF _ _ _ _ _ _ f, of "unat hi"] wide_product_exact [OF w] d
    show ?thesis by (simp add: word_le_nat_alt not_le)
  qed
  then show "unat a * unat b = unat q * unat d + unat r" "unat r < unat d" by simp_all
qed

lemma mul_div_floor_Some_iff:
  "mul_div_floor a b d = Some q \<longleftrightarrow> d \<noteq> 0 \<and> unat q = unat a * unat b div unat d"
proof (cases "mul_div a b d")
  case None
  then have "d = 0 \<or> 2 ^ 128 \<le> unat a * unat b div unat d" by (simp only: mul_div_None_iff)
  moreover have "unat q < 2 ^ 128" by simp
  ultimately show ?thesis using None by (auto simp only: mul_div_floor_def option.map option.distinct)
next
  case (Some qr)
  obtain q' r where qr: "qr = (q', r)" by fastforce
  note ex = mul_div_exact [OF Some [unfolded qr]]
  have "unat a * unat b div unat d = unat q'" using ex by simp
  moreover have "d \<noteq> 0" using Some by (auto simp: mul_div_def)
  ultimately show ?thesis using Some qr by (auto simp: mul_div_floor_def word_unat_eq_iff)
qed

lemma mul_div_ceil_Some:
  assumes "mul_div_ceil a b d = Some q"
  shows "d \<noteq> 0" "unat q = (unat a * unat b + unat d - 1) div unat d"
proof -
  obtain q0 r where m: "mul_div a b d = Some (q0, r)"
    using assms by (auto simp: mul_div_ceil_def split: option.splits)
  show d: "d \<noteq> 0" using m by (auto simp: mul_div_def)
  note ex = mul_div_exact [OF m]
  show "unat q = (unat a * unat b + unat d - 1) div unat d"
  proof (cases "r = 0")
    case True
    with assms m have "q = q0" by (simp add: mul_div_ceil_def)
    moreover have "(unat d - 1) div unat d = 0" using d by (simp add: unat_gt_0)
    moreover have "unat a * unat b + unat d - 1 = unat q0 * unat d + (unat d - 1)"
      using ex True d by (simp add: unat_gt_0 Suc_leI)
    ultimately show ?thesis using d by (simp add: unat_gt_0)
  next
    case False
    with assms m have "unat q = unat q0 + 1"
      by (auto simp: mul_div_ceil_def dest: checked_add_unat)
    moreover have "unat a * unat b + unat d - 1 = (unat q0 + 1) * unat d + (unat r - 1)"
      using ex False by (simp add: unat_gt_0 Suc_leI)
    moreover have "(unat r - 1) div unat d = 0" using ex by simp
    ultimately show ?thesis using d by (metis div_mult_self3 add.right_neutral unat_0_iff)
  qed
qed

text \<open>A quotient bounded by one of the factors is always returned.\<close>

lemma mul_div_floor_le:
  assumes "d \<noteq> 0" "b \<le> d"
  shows "\<exists>q. mul_div_floor a b d = Some q \<and> q \<le> a"
proof -
  have d: "0 < unat d" "unat b \<le> unat d" using assms by (simp_all add: unat_gt_0 word_le_nat_alt)
  have "unat a * unat b div unat d \<le> unat a * unat d div unat d"
    by (intro div_le_mono mult_le_mono2 d(2))
  then have le: "unat a * unat b div unat d \<le> unat a" using d by simp
  then have "\<not> 2 ^ 128 \<le> unat a * unat b div unat d"
    using le_less_trans [OF le unat_lt_u128] by simp
  then obtain q r where m: "mul_div a b d = Some (q, r)"
    using mul_div_None_iff [of a b d] assms(1) by fastforce
  then have "mul_div_floor a b d = Some q" by (simp add: mul_div_floor_def)
  with le show ?thesis by (auto simp: mul_div_floor_Some_iff word_le_nat_alt)
qed

end
