(* ===== verification/Strategy.thy ===== *)
theory Strategy
  imports Mul_Div
begin

text \<open>
  \<open>solana-sniper/src/strategy.rs\<close>: the configuration with its defaults, the entry filter, the
  exit rules (stop loss, take profit, trailing stop, liquidity drop) on price and value ratios scaled
  by 10^12, and the profit and loss of a ratio.  The lemmas give the thresholds of every exit
  as inequalities between products of integers, bound the loss by the position and show that the
  rounding is never optimistic.
\<close>

section \<open>Configuration and data\<close>

record strategy_config =
  min_liquidity_lamports :: u64
  max_position_lamports :: u64  \<comment> \<open>the field \<open>max_trade_size_lamports\<close>\<close>
  max_slippage_bps :: u64
  stop_loss_bps :: u64
  take_profit_bps :: u64
  trailing_stop_bps :: u64
  trailing_activation_bps :: u64
  max_daily_trades :: u64
  max_market_cap_lamports :: u64

definition default_strategy :: strategy_config where
  "default_strategy =
     \<lparr> min_liquidity_lamports = 1000000000000, max_position_lamports = 10000000,
       max_slippage_bps = 100, stop_loss_bps = 500, take_profit_bps = 1000,
       trailing_stop_bps = 0, trailing_activation_bps = 500, max_daily_trades = 20,
       max_market_cap_lamports = 1000000000000000 \<rparr>"

record token_candidate =
  liquidity_lamports :: u64
  market_cap_lamports :: u64
  holders :: u64
  is_blocklisted :: bool

record entry_signal =
  position_size_lamports :: u64
  slippage_bps :: u64
  entry_sqrt_price :: u128

datatype exit_decision =
    Hold | StopLoss | TakeProfit | MaxHoldTime | LiquidityDrop | TrailingStop

section \<open>Operations\<close>

definition liquidity_drop_exit_bps :: u64 where
  "liquidity_drop_exit_bps = 5000"

definition liquidity_dropped :: "u64 \<Rightarrow> u64 \<Rightarrow> bool" where
  "liquidity_dropped at_entry current =
     (if at_entry = 0 then False
      else ucast current
             \<le> (ucast at_entry * ucast (10000 - liquidity_drop_exit_bps) div 10000 :: u128))"

definition evaluate :: "strategy_config \<Rightarrow> token_candidate \<Rightarrow> u128 \<Rightarrow> entry_signal option" where
  "evaluate cfg cand price =
     (if is_blocklisted cand then None
      else if liquidity_lamports cand < min_liquidity_lamports cfg then None
      else if max_market_cap_lamports cfg < market_cap_lamports cand then None
      else Some \<lparr> position_size_lamports = max_position_lamports cfg,
                  slippage_bps = max_slippage_bps cfg, entry_sqrt_price = price \<rparr>)"

definition ratio_scale :: u128 where
  "ratio_scale = 1000000000000"

definition bps_to_scaled :: "u64 \<Rightarrow> u128" where
  "bps_to_scaled bps = ucast bps * (ratio_scale div 10000)"

definition exit_on_ratio :: "strategy_config \<Rightarrow> u128 \<Rightarrow> exit_decision" where
  "exit_on_ratio cfg ratio =
     (let tp = bps_to_scaled (take_profit_bps cfg);
          sl = bps_to_scaled (stop_loss_bps cfg)
      in if ratio_scale \<le> ratio
         then (if tp \<le> ratio - ratio_scale then TakeProfit else Hold)
         else if sl \<le> ratio_scale - ratio then StopLoss else Hold)"

definition trailing_triggered :: "strategy_config \<Rightarrow> u128 \<Rightarrow> u128 \<Rightarrow> bool" where
  "trailing_triggered cfg ratio peak =
     (let trail = trailing_stop_bps cfg
      in if trail = 0 \<or> 10000 \<le> trail then False
         else if peak < ratio_scale + bps_to_scaled (trailing_activation_bps cfg) then False
         else ratio \<le> (case mul_div_floor peak (ucast (10000 - trail)) 10000 of
                          Some fl \<Rightarrow> fl | None \<Rightarrow> 0))"

definition exit_with_peak :: "strategy_config \<Rightarrow> u128 \<Rightarrow> u128 \<Rightarrow> exit_decision" where
  "exit_with_peak cfg ratio peak =
     (case exit_on_ratio cfg ratio of
        Hold \<Rightarrow> if trailing_triggered cfg ratio peak then TrailingStop else Hold
      | d \<Rightarrow> d)"

definition price_ratio_scaled :: "u128 \<Rightarrow> u128 \<Rightarrow> u128 option" where
  "price_ratio_scaled entry current =
     do { sqrt_ratio \<leftarrow> mul_div_floor current ratio_scale entry;
          mul_div_floor sqrt_ratio sqrt_ratio ratio_scale }"

definition value_ratio_scaled :: "u64 \<Rightarrow> u64 \<Rightarrow> u128 option" where
  "value_ratio_scaled cost current_value = mul_div_floor (ucast current_value) ratio_scale (ucast cost)"

definition should_exit :: "strategy_config \<Rightarrow> u128 \<Rightarrow> u128 \<Rightarrow> exit_decision" where
  "should_exit cfg entry current =
     (case price_ratio_scaled entry current of
        Some ratio \<Rightarrow> exit_on_ratio cfg ratio | None \<Rightarrow> Hold)"

definition should_exit_value :: "strategy_config \<Rightarrow> u64 \<Rightarrow> u64 \<Rightarrow> exit_decision" where
  "should_exit_value cfg cost current_value =
     (case mul_div_floor (ucast current_value) ratio_scale (ucast cost) of
        Some ratio \<Rightarrow> exit_on_ratio cfg ratio | None \<Rightarrow> Hold)"

definition ratio_to_bps :: "u128 \<Rightarrow> i64" where
  "ratio_to_bps ratio =
     (let bp = ratio_scale div 10000
      in if ratio_scale \<le> ratio
         then (case i64_try_from ((ratio - ratio_scale) div bp) of Some x \<Rightarrow> x | None \<Rightarrow> i64_max)
         else - sint (ucast ((ratio_scale - ratio) div bp) :: u64))"

definition pnl_from_ratio :: "u128 \<Rightarrow> u64 \<Rightarrow> i64" where
  "pnl_from_ratio ratio position =
     (let pos = ucast position :: u128
      in if ratio_scale \<le> ratio
         then (let gain = (case mul_div_floor pos (ratio - ratio_scale) ratio_scale of
                             Some g \<Rightarrow> g | None \<Rightarrow> u128_max)
               in case i64_try_from gain of Some x \<Rightarrow> x | None \<Rightarrow> i64_max)
         else (let loss = min (case mul_div_ceil pos (ratio_scale - ratio) ratio_scale of
                                 Some l \<Rightarrow> l | None \<Rightarrow> pos) pos
               in - (case i64_try_from loss of Some x \<Rightarrow> x | None \<Rightarrow> i64_max)))"

datatype size_invariant_error = PositionAboveRiskCap u64 u64

definition validate_position_size_invariant :: "u64 \<Rightarrow> u64 \<Rightarrow> size_invariant_error + unit" where
  "validate_position_size_invariant strategy_size risk_max =
     (if risk_max < strategy_size then Inl (PositionAboveRiskCap strategy_size risk_max)
      else Inr ())"

section \<open>Thresholds\<close>

lemma unat_ratio_scale [simp]: "unat ratio_scale = 1000000000000"
  by (simp add: ratio_scale_def)

lemma unat_bps_to_scaled [simp]: "unat (bps_to_scaled b) = unat b * 100000000"
proof -
  have "ratio_scale div 10000 = (100000000 :: u128)"
    by (simp add: word_unat_eq_iff unat_div_word)
  then show ?thesis by (simp add: bps_to_scaled_def)
qed

lemma exit_on_ratio_eq:
  "exit_on_ratio cfg ratio =
     (if unat ratio_scale + unat (take_profit_bps cfg) * 100000000 \<le> unat ratio then TakeProfit
      else if unat ratio < unat ratio_scale
              \<and> unat ratio + unat (stop_loss_bps cfg) * 100000000 \<le> unat ratio_scale
      then StopLoss else Hold)"
  by (auto simp: exit_on_ratio_def Let_def word_le_nat_alt unat_sub_small)

lemma liquidity_dropped_iff:
  "liquidity_dropped e c \<longleftrightarrow> e \<noteq> 0 \<and> unat c * 2 \<le> unat e"
  by (auto simp: liquidity_dropped_def liquidity_drop_exit_bps_def word_le_nat_alt unat_div_word)

lemma value_ratio_total:
  assumes "c \<noteq> 0"
  shows "\<exists>r. mul_div_floor (ucast (v :: u64)) ratio_scale (ucast (c :: u64)) = Some r
           \<and> unat r = unat v * 1000000000000 div unat c"
proof -
  have c: "(ucast c :: u128) \<noteq> 0" using assms by (simp add: word_unat_eq_iff)
  have "unat v * 1000000000000 div unat c \<le> unat v * 1000000000000" by simp
  also have "\<dots> < 2 ^ 128" by (rule u64_times_lt) simp
  finally have "\<not> 2 ^ 128 \<le> unat v * 1000000000000 div unat c" by simp
  then have "mul_div (ucast v) ratio_scale (ucast c) \<noteq> None"
    using c by (simp only: mul_div_None_iff unat_u64_u128 unat_ratio_scale simp_thms)
  then obtain r where "mul_div_floor (ucast v) ratio_scale (ucast c) = Some r"
    by (auto simp: mul_div_floor_def)
  then show ?thesis by (auto simp: mul_div_floor_Some_iff)
qed

lemma div_ge_iff: "0 < (c :: nat) \<Longrightarrow> N \<le> x div c \<longleftrightarrow> N * c \<le> x"
  by (simp add: less_eq_div_iff_mult_less_eq)

lemma should_exit_value_eq:
  "should_exit_value cfg c v =
     (if c = 0 then Hold
      else if unat c * (10000 + unat (take_profit_bps cfg)) \<le> unat v * 10000 then TakeProfit
      else if v < c \<and> unat v * 1000000000000 div unat c
                         + unat (stop_loss_bps cfg) * 100000000 \<le> 1000000000000
      then StopLoss else Hold)"
proof (cases "c = 0")
  case True
  then show ?thesis by (simp add: should_exit_value_def mul_div_floor_def mul_div_def)
next
  case False
  then have c: "0 < unat c" by (simp add: unat_gt_0)
  obtain r where r: "mul_div_floor (ucast v) ratio_scale (ucast c) = Some r"
    "unat r = unat v * 1000000000000 div unat c"
    using value_ratio_total [OF False] by blast
  have "1000000000000 \<le> unat r \<longleftrightarrow> c \<le> v"
    unfolding r(2) div_ge_iff [OF c] by (auto simp: word_le_nat_alt)
  moreover have "1000000000000 + unat (take_profit_bps cfg) * 100000000 \<le> unat r
      \<longleftrightarrow> unat c * (10000 + unat (take_profit_bps cfg)) \<le> unat v * 10000"
    unfolding r(2) div_ge_iff [OF c] by (auto simp: algebra_simps)
  ultimately show ?thesis
    using False r by (auto simp: should_exit_value_def exit_on_ratio_eq)
qed

lemma stop_loss_fires:
  assumes "0 < stop_loss_bps cfg"
    and "unat v * 10000 + unat c * unat (stop_loss_bps cfg) \<le> unat c * 10000" "c \<noteq> 0"
  shows "should_exit_value cfg c v = StopLoss"
proof -
  let ?s = "unat (stop_loss_bps cfg)"
  have c: "0 < unat c" and s: "0 < ?s"
    using assms by (simp_all add: unat_gt_0 word_gt_0)
  have "0 < unat c * ?s" using c s by simp
  then have vc: "unat v < unat c" using assms(2) by linarith
  have "?s \<le> 10000" using assms(2) c
    by (metis add_leD2 mult_le_cancel1)
  have "unat v * 1000000000000 \<le> unat c * (1000000000000 - ?s * 100000000)"
    using assms(2) by (simp add: diff_mult_distrib2)
  then have "unat v * 1000000000000 div unat c \<le> 1000000000000 - ?s * 100000000"
    using c by (metis div_le_mono nonzero_mult_div_cancel_left not_gr_zero)
  then have "unat v * 1000000000000 div unat c + ?s * 100000000 \<le> 1000000000000"
    using \<open>?s \<le> 10000\<close> by linarith
  moreover have "\<not> unat c * (10000 + unat (take_profit_bps cfg)) \<le> unat v * 10000"
    using vc by (simp add: not_le algebra_simps trans_less_add1)
  ultimately show ?thesis
    using vc assms(3) by (simp add: should_exit_value_eq word_less_nat_alt)
qed

lemma stop_loss_only_below:
  assumes "should_exit_value cfg c v = StopLoss"
  shows "unat v * 1000000000000 + unat c * (unat (stop_loss_bps cfg) * 100000000)
           < unat c * 1000000000001" and "v < c"
proof -
  let ?q = "unat v * 1000000000000 div unat c" and ?s = "unat (stop_loss_bps cfg) * 100000000"
  have c: "0 < unat c" and q: "?q + ?s \<le> 1000000000000" and "v < c"
    using assms by (auto simp: should_exit_value_eq unat_gt_0 split: if_splits)
  then show "v < c" by simp
  have "unat v * 1000000000000 < unat c * (?q + 1)"
    using c by (simp add: dividend_less_times_div)
  moreover have "unat c * (?q + ?s) \<le> unat c * 1000000000000" by (rule mult_le_mono2 [OF q])
  ultimately show "unat v * 1000000000000 + unat c * ?s < unat c * 1000000000001"
    by (simp add: algebra_simps)
qed

text \<open>
  The value exit of a live position (cost \<open>c\<close>, present value \<open>v\<close>) takes profit exactly when
  v >= c * (1 + take_profit_bps / 10000), without rounding; it always stops the loss when the value fell by
  \<open>stop_loss_bps\<close> of the cost or more, and when it does, the value is below the cost and within one part in 10^12
  of that threshold.
\<close>

theorem live_value_exit:
  assumes "c \<noteq> 0" "0 < stop_loss_bps cfg"
  shows "(should_exit_value cfg c v = TakeProfit
            \<longleftrightarrow> unat c * (10000 + unat (take_profit_bps cfg)) \<le> unat v * 10000)
       \<and> (unat v * 10000 + unat c * unat (stop_loss_bps cfg) \<le> unat c * 10000
            \<longrightarrow> should_exit_value cfg c v = StopLoss)
       \<and> (should_exit_value cfg c v = StopLoss
            \<longrightarrow> v < c \<and> unat v * 1000000000000 + unat c * (unat (stop_loss_bps cfg) * 100000000)
                           < unat c * 1000000000001)"
  using assms stop_loss_fires [of cfg v c] stop_loss_only_below [of cfg c v]
  by (auto simp: should_exit_value_eq)

theorem live_value_exit_witness:
  "should_exit_value default_strategy 1000000 950000 = StopLoss
   \<and> should_exit_value default_strategy 1000000 1100000 = TakeProfit"
  using live_value_exit [of 1000000 default_strategy 950000]
    live_value_exit [of 1000000 default_strategy 1100000]
  by (simp add: default_strategy_def)

section \<open>Trailing stop\<close>

lemma trail_floor_total:
  assumes "0 < trail" "trail < (10000 :: u64)"
  shows "\<exists>fl. mul_div_floor peak (ucast (10000 - trail)) 10000 = Some fl
            \<and> unat fl = unat peak * (10000 - unat trail) div 10000"
proof -
  have t: "unat (10000 - trail) = 10000 - unat trail"
    using assms by (simp add: unat_sub_small word_less_nat_alt)
  have "ucast (10000 - trail) \<le> (10000 :: u128)" by (simp add: word_le_nat_alt t)
  from mul_div_floor_le [OF _ this, of peak] obtain fl
    where "mul_div_floor peak (ucast (10000 - trail)) 10000 = Some fl" by auto
  then show ?thesis by (auto simp: mul_div_floor_Some_iff t)
qed

lemma trailing_triggered_eq:
  "trailing_triggered cfg ratio peak \<longleftrightarrow>
     (let t = unat (trailing_stop_bps cfg)
      in 0 < t \<and> t < 10000
         \<and> 1000000000000 + unat (trailing_activation_bps cfg) * 100000000 \<le> unat peak
         \<and> unat ratio \<le> unat peak * (10000 - t) div 10000)"
proof -
  let ?a = "trailing_activation_bps cfg"
  have arm: "unat (ratio_scale + bps_to_scaled ?a) = 1000000000000 + unat ?a * 100000000"
    using u64_le_max [of ?a] by (subst unat_add_small) simp_all
  show ?thesis
  proof (cases "0 < trailing_stop_bps cfg \<and> trailing_stop_bps cfg < 10000")
    case True
    then obtain fl where "mul_div_floor peak (ucast (10000 - trailing_stop_bps cfg)) 10000 = Some fl"
      "unat fl = unat peak * (10000 - unat (trailing_stop_bps cfg)) div 10000"
      using trail_floor_total by blast
    with True arm show ?thesis
      by (auto simp: trailing_triggered_def Let_def word_le_nat_alt word_less_nat_alt)
  next
    case False
    then show ?thesis
      by (auto simp: trailing_triggered_def Let_def word_le_nat_alt word_less_nat_alt unat_0_iff)
  qed
qed

text \<open>
  The exit with a peak (paper and live price exits): stop-loss and take-profit come first; the trailing stop
  fires exactly when it is configured between 1 and 9999 bps, the best ratio reached the activation level and the ratio
  is at or below the floor of peak * (10000 - trail) / 10000.  No other input sells on the trailing stop.
\<close>

theorem exit_with_peak_rule:
  "exit_with_peak cfg ratio peak =
     (let r = unat ratio; p = unat peak; t = unat (trailing_stop_bps cfg)
      in if 1000000000000 + unat (take_profit_bps cfg) * 100000000 \<le> r then TakeProfit
         else if r < 1000000000000 \<and> r + unat (stop_loss_bps cfg) * 100000000 \<le> 1000000000000
         then StopLoss
         else if 0 < t \<and> t < 10000
                 \<and> 1000000000000 + unat (trailing_activation_bps cfg) * 100000000 \<le> p
                 \<and> r \<le> p * (10000 - t) div 10000
         then TrailingStop else Hold)"
  unfolding exit_with_peak_def exit_on_ratio_eq trailing_triggered_eq Let_def by auto

text \<open>A position at its best ratio is never sold by the trailing stop.\<close>

lemma no_trailing_at_peak: "exit_with_peak cfg peak peak \<noteq> TrailingStop"
proof -
  have "\<not> unat peak \<le> unat peak * (10000 - t) div 10000"
    if "0 < t" "1000000000000 \<le> unat peak" for t
  proof -
    have "unat peak * (10000 - t) < unat peak * 10000" using that by simp
    then show ?thesis by (simp add: not_le less_mult_imp_div_less)
  qed
  then show ?thesis
    by (auto simp: exit_with_peak_def exit_on_ratio_eq trailing_triggered_eq Let_def)
qed

section \<open>Profit and loss\<close>

lemma i64_try_from_unat:
  "i64_try_from x = (if unat x \<le> 9223372036854775807 then Some (int (unat x)) else None)"
proof -
  have u: "uint x = int (unat x)" by (simp add: of_nat_unat)
  have "int n \<le> i64_max \<longleftrightarrow> n \<le> 9223372036854775807" for n
    unfolding i64_max_def by auto
  then have "uint x \<le> i64_max \<longleftrightarrow> unat x \<le> 9223372036854775807" by (simp only: u)
  then show ?thesis by (simp add: i64_try_from_def u)
qed

lemma loss_ceil:
  fixes pos :: u64 and d :: u128
  assumes "unat d \<le> 1000000000000"
  shows "\<exists>l. mul_div_ceil (ucast pos) d ratio_scale = Some l
            \<and> unat l = (unat pos * unat d + 999999999999) div 1000000000000 \<and> unat l \<le> unat pos"
proof -
  have "unat pos * unat d \<le> unat pos * 1000000000000" using assms by (rule mult_le_mono2)
  then have le: "(unat pos * unat d + 999999999999) div 1000000000000 \<le> unat pos"
    by linarith
  have small: "unat pos * unat d < 2 ^ 128"
    using assms by (intro u64_times_lt) simp
  have "\<not> 2 ^ 128 \<le> unat (ucast pos :: u128) * unat d div unat ratio_scale"
    using small le_less_trans [OF div_le_dividend small] by (simp add: not_le)
  moreover have rs: "ratio_scale \<noteq> 0" by (simp add: word_unat_eq_iff)
  ultimately obtain q r where m: "mul_div (ucast pos) d ratio_scale = Some (q, r)"
    using mul_div_None_iff [of "ucast pos" d ratio_scale] by fastforce
  have ql: "unat q \<le> unat pos"
    using mul_div_exact(1) [OF m] \<open>unat pos * unat d \<le> _\<close> by simp
  then have "unat q + unat (1 :: u128) < 2 ^ 128" using u64_le_max [of pos] by simp
  with m obtain l where l: "mul_div_ceil (ucast pos) d ratio_scale = Some l"
    by (cases "r = 0") (auto simp: mul_div_ceil_def checked_add_def)
  with mul_div_ceil_Some(2) [OF l] le show ?thesis by (simp add: add.commute)
qed

lemma pnl_loss:
  assumes "unat ratio < 1000000000000"
  shows "pnl_from_ratio ratio pos =
           - min i64_max ((int (unat pos) * (1000000000000 - int (unat ratio)) + 999999999999)
                            div 1000000000000)"
proof -
  have d: "unat (ratio_scale - ratio) = 1000000000000 - unat ratio"
    using assms by (simp add: unat_sub_small)
  then obtain l where l: "mul_div_ceil (ucast pos) (ratio_scale - ratio) ratio_scale = Some l"
    "unat l = (unat pos * (1000000000000 - unat ratio) + 999999999999) div 1000000000000"
    "unat l \<le> unat pos"
    using loss_ceil [of "ratio_scale - ratio" pos] by auto
  have "int (unat l) = (int (unat pos) * (1000000000000 - int (unat ratio)) + 999999999999)
                          div 1000000000000"
    using assms l(2) by (simp add: zdiv_int of_nat_diff)
  then show ?thesis
    using assms l by (auto simp: pnl_from_ratio_def Let_def word_le_nat_alt not_le min_def
        i64_try_from_unat i64_max_def)
qed

lemma pnl_gain:
  assumes "1000000000000 \<le> unat ratio"
  shows "pnl_from_ratio ratio pos =
           min i64_max (int (unat pos) * (int (unat ratio) - 1000000000000) div 1000000000000)"
proof -
  let ?n = "unat pos * (unat ratio - 1000000000000) div 1000000000000"
  have d: "unat (ratio - ratio_scale) = unat ratio - 1000000000000"
    using assms by (simp add: unat_sub_small)
  have n: "int ?n = int (unat pos) * (int (unat ratio) - 1000000000000) div 1000000000000"
    using assms by (simp add: zdiv_int of_nat_diff)
  have rs: "ratio_scale \<noteq> 0" by (simp add: word_unat_eq_iff)
  show ?thesis
  proof (cases "mul_div_floor (ucast pos) (ratio - ratio_scale) ratio_scale")
    case None
    then have "2 ^ 128 \<le> ?n"
      using mul_div_None_iff [of "ucast pos" "ratio - ratio_scale" ratio_scale] rs
      by (simp add: mul_div_floor_def d)
    then have "(9223372036854775807 :: nat) \<le> ?n" by (rule order.trans [rotated]) simp
    then have "int 9223372036854775807 \<le> int ?n" by (simp only: of_nat_le_iff)
    then have "i64_max \<le> int ?n" by (simp only: i64_max_def) simp
    then show ?thesis
      using assms None n by (simp add: pnl_from_ratio_def Let_def word_le_nat_alt
          i64_try_from_unat unat_max_word min_def)
  next
    case (Some g)
    then have "unat g = ?n" by (simp add: mul_div_floor_Some_iff d)
    with assms Some n show ?thesis
      by (auto simp: pnl_from_ratio_def Let_def word_le_nat_alt i64_try_from_unat min_def i64_max_def)
  qed
qed

lemma ceil_div_ge: "0 < (d :: int) \<Longrightarrow> x \<le> (x + d - 1) div d * d"
  by (smt (verit) minus_mod_eq_div_mult pos_mod_bound)

lemma pnl_not_optimistic:
  assumes "unat pos \<le> 9223372036854775807"
  shows "pnl_from_ratio ratio pos * 1000000000000
           \<le> int (unat pos) * (int (unat ratio) - 1000000000000)"
proof (cases "unat ratio < 1000000000000")
  case True
  let ?x = "int (unat pos) * (1000000000000 - int (unat ratio))"
  let ?c = "(?x + 999999999999) div 1000000000000"
  have "?x \<le> int (unat pos) * 1000000000000" by (intro mult_left_mono) auto
  then have "?c \<le> int (unat pos)" by linarith
  then have "?c \<le> i64_max" using assms by (simp add: i64_max_def)
  then have "pnl_from_ratio ratio pos = - ?c" using pnl_loss [OF True, of pos] by simp
  moreover have "?x \<le> ?c * 1000000000000" using ceil_div_ge [of 1000000000000 ?x] by simp
  ultimately show ?thesis by (simp add: algebra_simps)
next
  case False
  let ?x = "int (unat pos) * (int (unat ratio) - 1000000000000)"
  have "pnl_from_ratio ratio pos \<le> ?x div 1000000000000"
    using False pnl_gain [of ratio pos] by simp
  then have "pnl_from_ratio ratio pos * 1000000000000 \<le> ?x div 1000000000000 * 1000000000000"
    by (rule mult_right_mono) simp
  also have "\<dots> \<le> ?x" by (simp add: minus_mod_eq_div_mult [symmetric])
  finally show ?thesis .
qed

lemma pnl_range: "- int (unat pos) \<le> pnl_from_ratio ratio pos" "i64_ok (pnl_from_ratio ratio pos)"
proof -
  have "- int (unat pos) \<le> pnl_from_ratio ratio pos \<and> i64_ok (pnl_from_ratio ratio pos)"
  proof (cases "unat ratio < 1000000000000")
    case True
    let ?x = "int (unat pos) * (1000000000000 - int (unat ratio))"
    have "0 \<le> ?x" using True by (intro mult_nonneg_nonneg) auto
    moreover have "?x \<le> int (unat pos) * 1000000000000" by (intro mult_left_mono) auto
    ultimately have "0 \<le> (?x + 999999999999) div 1000000000000"
      "(?x + 999999999999) div 1000000000000 \<le> int (unat pos)" by simp_all
    then show ?thesis
      unfolding pnl_loss [OF True] by (auto simp: i64_ok_def i64_min_def i64_max_def min_def)
  next
    case False
    then have "0 \<le> int (unat pos) * (int (unat ratio) - 1000000000000) div 1000000000000"
      by (intro pos_imp_zdiv_nonneg_iff [THEN iffD2] mult_nonneg_nonneg) auto
    then show ?thesis
      using False pnl_gain [of ratio pos] by (auto simp: i64_ok_def i64_min_def i64_max_def min_def)
  qed
  then show "- int (unat pos) \<le> pnl_from_ratio ratio pos" "i64_ok (pnl_from_ratio ratio pos)" by auto
qed

text \<open>
  The profit and loss of a ratio is never optimistic: for a position of at most i64::MAX lamports it is at most the
  exact rational profit pos * (ratio - 1), it never loses more than the position, and it fits in an i64.
\<close>

theorem pnl_never_optimistic:
  assumes "unat pos \<le> 9223372036854775807"
  shows "pnl_from_ratio ratio pos * 1000000000000
           \<le> int (unat pos) * (int (unat ratio) - 1000000000000)
       \<and> - int (unat pos) \<le> pnl_from_ratio ratio pos
       \<and> i64_ok (pnl_from_ratio ratio pos)"
  using pnl_not_optimistic [OF assms] pnl_range by blast

theorem pnl_never_optimistic_witness:
  "pnl_from_ratio 999999999999 10 = -1 \<and> - 10 \<le> pnl_from_ratio 999999999999 10"
  using pnl_never_optimistic [of 10 999999999999] by (simp add: pnl_loss i64_max_def)

end
