(* ===== verification/Interfaces.thy ===== *)
theory Interfaces
  imports Prelude
begin

text \<open>
  The interfaces of the program, stated as locales: what a client relies on, and the laws the provider
  promises.  \<open>daily_counter\<close> is a counter that starts again on a new day (the daily trade counter of the risk
  manager, the daily cap of pool discovery); \<open>fifo_memory\<close> is a bounded set that forgets its oldest key (the pools seen by the
  watch list, the pools already announced by the poller); \<open>exposure_gate\<close> is an entry gate with a cap on open positions and on total
  exposure, with a client that asks it before every entry (the risk manager).  Every locale is interpreted on
  the model's own definitions in the theory of the component that provides it.
\<close>

section \<open>Counters that reset with the day\<close>

locale daily_counter =
  fixes day_of :: "'s \<Rightarrow> 'd"
    and raw :: "'s \<Rightarrow> nat"
    and bump :: "'d \<Rightarrow> 's \<Rightarrow> 's"
    and room :: nat
  assumes day_bump: "day_of (bump d s) = d"
    and raw_bump: "raw s + 1 < room \<Longrightarrow> raw (bump d s) = (if day_of s = d then raw s + 1 else 1)"
begin

definition today_count :: "'d \<Rightarrow> 's \<Rightarrow> nat" where
  "today_count d s = (if day_of s = d then raw s else 0)"

lemma today_bump: "raw s + 1 < room \<Longrightarrow> today_count d (bump d s) = today_count d s + 1"
  by (simp add: today_count_def day_bump raw_bump)

lemma bump_other_day: "d' \<noteq> d \<Longrightarrow> today_count d' (bump d s) = 0"
  by (simp add: today_count_def day_bump)

lemma bumps_count:
  "raw s + n < room \<Longrightarrow>
     today_count d ((bump d ^^ n) s) = today_count d s + n \<and> raw ((bump d ^^ n) s) \<le> raw s + n"
proof (induction n)
  case (Suc n)
  then have IH: "today_count d ((bump d ^^ n) s) = today_count d s + n"
    and le: "raw ((bump d ^^ n) s) \<le> raw s + n" by simp_all
  have room: "raw ((bump d ^^ n) s) + 1 < room" using le Suc.prems by linarith
  show ?case
    using today_bump [OF room, of d] raw_bump [OF room, of d] IH le by (simp split: if_splits)
qed simp

end

section \<open>Gates with an exposure cap\<close>

datatype 'e entry_op = Enter 'e u64 | Leave 'e u64

locale exposure_gate =
  fixes allows :: "'s \<Rightarrow> 'e \<Rightarrow> u64 \<Rightarrow> bool"
    and opened :: "'e \<Rightarrow> u64 \<Rightarrow> 's \<Rightarrow> 's"
    and closed :: "'e \<Rightarrow> u64 \<Rightarrow> 's \<Rightarrow> 's"
    and positions :: "'s \<Rightarrow> nat"
    and exposure :: "'s \<Rightarrow> nat"
    and position_cap :: nat
    and exposure_cap :: nat
  assumes allows_positions: "allows s e n \<Longrightarrow> positions s < position_cap"
    and allows_exposure: "allows s e n \<Longrightarrow> exposure s + unat n \<le> exposure_cap"
    and opened_positions: "allows s e n \<Longrightarrow> positions (opened e n s) = positions s + 1"
    and opened_exposure: "allows s e n \<Longrightarrow> exposure (opened e n s) = exposure s + unat n"
    and closed_positions: "positions (closed e n s) \<le> positions s"
    and closed_exposure: "exposure (closed e n s) \<le> exposure s"
begin

text \<open>A client that asks the gate before every entry.\<close>

fun entry_step :: "'e entry_op \<Rightarrow> 's \<Rightarrow> 's" where
  "entry_step (Enter e n) s = (if allows s e n then opened e n s else s)"
| "entry_step (Leave e n) s = closed e n s"

definition within :: "'s \<Rightarrow> bool" where
  "within s \<longleftrightarrow> positions s \<le> position_cap \<and> exposure s \<le> exposure_cap"

lemma entry_step_within: "within s \<Longrightarrow> within (entry_step op s)"
  using allows_positions allows_exposure opened_positions opened_exposure
    closed_positions closed_exposure
  by (cases op) (fastforce simp: within_def intro: order.trans)+

lemma entries_within: "within s \<Longrightarrow> within (fold entry_step ops s)"
  by (induction ops arbitrary: s) (simp_all add: entry_step_within)

end

section \<open>Bounded memories\<close>

locale fifo_memory =
  fixes keys :: "'s \<Rightarrow> 'k set"
    and order :: "'s \<Rightarrow> 'k list"
    and put :: "'k \<Rightarrow> 's \<Rightarrow> bool \<times> 's"
    and cap :: "'s \<Rightarrow> nat"
  assumes put_known: "k \<in> keys s \<Longrightarrow> put k s = (False, s)"
    and put_new: "k \<notin> keys s \<Longrightarrow> fst (put k s)"
    and put_cap: "cap (snd (put k s)) = cap s"
    and put_order: "k \<notin> keys s \<Longrightarrow>
      order (snd (put k s)) = drop (length (order s) + 1 - cap s) (order s @ [k])"
    and put_keys: "k \<notin> keys s \<Longrightarrow>
      keys (snd (put k s)) = insert k (keys s) - set (take (length (order s) + 1 - cap s) (order s @ [k]))"
begin

definition consistent :: "'s \<Rightarrow> bool" where
  "consistent s \<longleftrightarrow> keys s = set (order s) \<and> distinct (order s) \<and> length (order s) \<le> cap s \<and> 0 < cap s"

lemma put_consistent: "consistent s \<Longrightarrow> consistent (snd (put k s))"
proof (cases "k \<in> keys s")
  case False
  assume s: "consistent s"
  let ?n = "length (order s) + 1 - cap s" and ?xs = "order s @ [k]"
  have dist: "distinct ?xs" using s False by (simp add: consistent_def)
  have "insert k (keys s) - set (take ?n ?xs) = set (drop ?n ?xs)"
    using s set_append [of "take ?n ?xs" "drop ?n ?xs"] distinct_append [of "take ?n ?xs" "drop ?n ?xs"] dist
    unfolding append_take_drop_id consistent_def by auto
  moreover have "distinct (drop ?n ?xs)" using dist by (rule distinct_drop)
  moreover have "length (drop ?n ?xs) \<le> cap s" by simp
  ultimately show ?thesis
    using s unfolding consistent_def put_order [OF False] put_keys [OF False] put_cap by blast
qed (simp add: put_known)

text \<open>How often a run of insertions reports the key as new.\<close>

fun news :: "'k \<Rightarrow> 'k list \<Rightarrow> 's \<Rightarrow> nat" where
  "news k [] s = 0"
| "news k (j # js) s = (if k = j \<and> fst (put j s) then 1 else 0) + news k js (snd (put j s))"

lemma puts_consistent: "consistent s \<Longrightarrow> consistent (fold (\<lambda>k s. snd (put k s)) ks s)"
  by (induction ks arbitrary: s) (simp_all add: put_consistent)

lemma recent_not_new:
  "consistent s \<Longrightarrow> order s = xs @ k # ys \<Longrightarrow> length ys + length js < cap s \<Longrightarrow> news k js s = 0"
proof (induction js arbitrary: s xs ys)
  case (Cons j js)
  then have k: "k \<in> keys s" by (simp add: consistent_def)
  show ?case
  proof (cases "j \<in> keys s")
    case True
    then show ?thesis using Cons by (simp add: put_known)
  next
    case False
    have "length (order s) + 1 - cap s \<le> length xs" using Cons.prems(2,3) by simp
    then have "order (snd (put j s)) = drop (length (order s) + 1 - cap s) xs @ k # (ys @ [j])"
      using put_order [OF False] Cons.prems(2) by simp
    then have "news k js (snd (put j s)) = 0"
      using Cons.IH [OF put_consistent [OF Cons.prems(1)]] Cons.prems(3) put_cap by simp
    then show ?thesis using k False by auto
  qed
qed simp

lemma new_at_most_once: "consistent s \<Longrightarrow> length js \<le> cap s \<Longrightarrow> news k js s \<le> 1"
proof (induction js arbitrary: s)
  case (Cons j js)
  have rest: "news k js (snd (put j s)) \<le> 1"
    using Cons.IH [OF put_consistent [OF Cons.prems(1)]] Cons.prems(2) put_cap by simp
  show ?case
  proof (cases "k = j \<and> fst (put j s)")
    case True
    then have new: "j \<notin> keys s" using put_known by fastforce
    have "0 < cap s" using Cons.prems(1) by (simp add: consistent_def)
    then have "length (order s) + 1 - cap s \<le> length (order s)" by arith
    then have "order (snd (put j s)) = drop (length (order s) + 1 - cap s) (order s) @ j # []"
      using put_order [OF new] by simp
    then have "news j js (snd (put j s)) = 0"
      using recent_not_new [OF put_consistent [OF Cons.prems(1)]] Cons.prems(2) put_cap by simp
    then show ?thesis using True by simp
  qed (use rest in auto)
qed simp

end

end
