(* ===== verification/Risk.thy ===== *)
theory Risk
  imports Interfaces
begin

text \<open>
  \<open>solana-sniper/src/risk.rs\<close>: reject reasons, the freshness rule of prices, the risk configuration and its
  validation, and the risk manager as a state machine over its counters, switches and the persisted
  file.  The date of the day, the monotonic clock and the outcome of a write to disk are inputs of the operations.
  Audit records are kept as the list of their events (the code ignores a failure to write them).  The f64
  \<open>RiskFirewall\<close> is in \<open>Advisory\<close>.
\<close>

section \<open>Reject reasons and freshness\<close>

datatype reject_reason =
    StalePrice | SlippageExceeded | MaxSpendExceeded | DailyTradeCap | DailyLossLimit
  | CircuitBreakerOpen | TokenAuthorityRisk | HolderConcentrationExceeded | InsufficientLiquidity
  | HsmUnavailable | KillSwitchActive | LiveNotArmed | OpenPositionCapExceeded | ExposureCapExceeded
  | UnverifiableRestartState | ClockSkew | SybilHolders

fun reject_code :: "reject_reason \<Rightarrow> string" where
  "reject_code StalePrice = ''stale_price''"
| "reject_code SlippageExceeded = ''slippage_exceeded''"
| "reject_code MaxSpendExceeded = ''max_spend_exceeded''"
| "reject_code DailyTradeCap = ''daily_trade_cap''"
| "reject_code DailyLossLimit = ''daily_loss_limit''"
| "reject_code CircuitBreakerOpen = ''circuit_breaker_open''"
| "reject_code TokenAuthorityRisk = ''token_authority_risk''"
| "reject_code HolderConcentrationExceeded = ''holder_concentration_exceeded''"
| "reject_code InsufficientLiquidity = ''insufficient_liquidity''"
| "reject_code HsmUnavailable = ''hsm_unavailable''"
| "reject_code KillSwitchActive = ''kill_switch_active''"
| "reject_code LiveNotArmed = ''live_not_armed''"
| "reject_code OpenPositionCapExceeded = ''open_position_cap_exceeded''"
| "reject_code ExposureCapExceeded = ''exposure_cap_exceeded''"
| "reject_code UnverifiableRestartState = ''unverifiable_restart_state''"
| "reject_code ClockSkew = ''clock_skew''"
| "reject_code SybilHolders = ''sybil_holders''"

lemma reject_code_inj: "inj reject_code"
proof (rule injI)
  fix x y
  assume "reject_code x = reject_code y"
  then show "x = y" by (cases x; cases y; simp)
qed

definition price_freshness :: "u128 \<Rightarrow> u128 \<Rightarrow> u64 \<Rightarrow> reject_reason + unit" where
  "price_freshness ts now max_age =
     (if ts = 0 \<or> now = 0 then Inl StalePrice
      else if now < ts then Inl ClockSkew
      else if ucast max_age < now - ts then Inl StalePrice
      else Inr ())"

section \<open>Configuration\<close>

record risk_config =
  rc_max_trade_size :: u64
  rc_max_slippage_bps :: u64
  rc_daily_loss_limit :: u64
  rc_max_daily_trades :: u64
  rc_breaker_duration :: nat  \<comment> \<open>seconds\<close>
  rc_max_open_positions :: u64
  rc_max_total_exposure :: u64
  rc_price_staleness_ms :: u64

definition devnet_defaults :: risk_config where
  "devnet_defaults =
     \<lparr> rc_max_trade_size = 10000000000, rc_max_slippage_bps = 100, rc_daily_loss_limit = 50000000000,
       rc_max_daily_trades = 20, rc_breaker_duration = 300, rc_max_open_positions = 10,
       rc_max_total_exposure = 10000000000, rc_price_staleness_ms = 5000 \<rparr>"

datatype risk_config_error =
    ZeroTradeSize | BadSlippage | ZeroLossLimit | ZeroDailyTrades | ZeroOpenPositions
  | ZeroExposure | ZeroStaleness | InvalidStalenessEnv

definition risk_validate :: "risk_config \<Rightarrow> risk_config_error + unit" where
  "risk_validate cfg =
     (if rc_max_trade_size cfg = 0 then Inl ZeroTradeSize
      else if rc_max_slippage_bps cfg = 0 \<or> 10000 < rc_max_slippage_bps cfg then Inl BadSlippage
      else if rc_daily_loss_limit cfg = 0 then Inl ZeroLossLimit
      else if rc_max_daily_trades cfg = 0 then Inl ZeroDailyTrades
      else if rc_max_open_positions cfg = 0 then Inl ZeroOpenPositions
      else if rc_max_total_exposure cfg = 0 then Inl ZeroExposure
      else if rc_price_staleness_ms cfg = 0 then Inl ZeroStaleness
      else Inr ())"

text \<open>The environment variable is absent, present but not a u64, or present with its value.\<close>

datatype env_u64 = EnvUnset | EnvInvalid | EnvValue u64

definition production_defaults :: "env_u64 \<Rightarrow> risk_config_error + risk_config" where
  "production_defaults env =
     (case env of
        EnvInvalid \<Rightarrow> Inl InvalidStalenessEnv
      | _ \<Rightarrow>
        let cfg = \<lparr> rc_max_trade_size = 50000000, rc_max_slippage_bps = 200,
                    rc_daily_loss_limit = 200000000, rc_max_daily_trades = 5, rc_breaker_duration = 300,
                    rc_max_open_positions = 1, rc_max_total_exposure = 50000000,
                    rc_price_staleness_ms = (case env of EnvValue v \<Rightarrow> v | _ \<Rightarrow> 5000) \<rparr>
        in case risk_validate cfg of Inl e \<Rightarrow> Inl e | Inr _ \<Rightarrow> Inr cfg)"

section \<open>The risk manager\<close>

record persisted_risk =
  pr_date :: string
  pr_daily_trades :: u64
  pr_daily_loss :: u64
  pr_open_positions :: u64
  pr_open_exposure :: u64

definition empty_persisted :: persisted_risk where
  "empty_persisted = \<lparr> pr_date = [], pr_daily_trades = 0, pr_daily_loss = 0,
                       pr_open_positions = 0, pr_open_exposure = 0 \<rparr>"

datatype risk_file = NoFile | Corrupt | Saved persisted_risk

datatype audit_event =
    RestartStateUnverifiable | LiveArmed | LiveDisarmed | BreakerTripped | StatePersistFailed
  | KillTriggered | KillReleased

record risk_manager =
  rm_loss_date :: string
  rm_loss :: u64
  rm_trades_date :: string
  rm_trades :: u64
  rm_breaker_active :: bool
  rm_last_breaker_reset :: nat
  rm_kill_switch :: bool
  rm_live_armed :: bool
  rm_open_positions :: u64
  rm_open_exposure :: u64
  rm_state_verified :: bool
  rm_persist_failed :: bool
  rm_file :: risk_file
  rm_audit :: "audit_event list"

text \<open>What a write of the state file can do: written, failed after the directory was made, or no directory.\<close>

datatype persist_outcome = Written | WriteFailed | NoDirectory

record risk_env =
  env_today :: string
  env_now :: nat
  env_persist :: persist_outcome

definition write_audit :: "audit_event \<Rightarrow> risk_manager \<Rightarrow> risk_manager" where
  "write_audit e rm = rm\<lparr>rm_audit := rm_audit rm @ [e]\<rparr>"

definition load_state :: "risk_file \<Rightarrow> persisted_risk \<times> bool" where
  "load_state file =
     (case file of NoFile \<Rightarrow> (empty_persisted, True) | Corrupt \<Rightarrow> (empty_persisted, False)
                 | Saved s \<Rightarrow> (s, True))"

definition risk_new :: "nat \<Rightarrow> risk_file \<Rightarrow> audit_event list \<Rightarrow> risk_manager" where
  "risk_new now file log =
     (let (st, verified) = load_state file;
          rm = \<lparr> rm_loss_date = pr_date st, rm_loss = pr_daily_loss st, rm_trades_date = pr_date st,
                 rm_trades = pr_daily_trades st, rm_breaker_active = False,
                 rm_last_breaker_reset = now, rm_kill_switch = False, rm_live_armed = False,
                 rm_open_positions = pr_open_positions st, rm_open_exposure = pr_open_exposure st,
                 rm_state_verified = verified, rm_persist_failed = False,
                 rm_file = file, rm_audit = log \<rparr>
      in if verified then rm else write_audit RestartStateUnverifiable rm)"

definition persist_state :: "risk_env \<Rightarrow> risk_manager \<Rightarrow> risk_manager" where
  "persist_state env rm =
     (case env_persist env of
        Written \<Rightarrow> rm\<lparr>rm_file := Saved \<lparr> pr_date = rm_trades_date rm, pr_daily_trades = rm_trades rm,
                       pr_daily_loss = rm_loss rm, pr_open_positions = rm_open_positions rm,
                       pr_open_exposure = rm_open_exposure rm \<rparr>\<rparr>
      | WriteFailed \<Rightarrow> write_audit StatePersistFailed (rm\<lparr>rm_persist_failed := True\<rparr>)
      | NoDirectory \<Rightarrow> rm\<lparr>rm_persist_failed := True\<rparr>)"

definition is_state_verified :: "risk_manager \<Rightarrow> bool" where
  "is_state_verified rm \<longleftrightarrow> rm_state_verified rm \<and> \<not> rm_persist_failed rm"

definition arm_live :: "risk_manager \<Rightarrow> risk_manager" where
  "arm_live rm = write_audit LiveArmed (rm\<lparr>rm_live_armed := True\<rparr>)"

definition disarm_live :: "risk_manager \<Rightarrow> risk_manager" where
  "disarm_live rm = write_audit LiveDisarmed (rm\<lparr>rm_live_armed := False\<rparr>)"

definition trip_circuit_breaker :: "risk_env \<Rightarrow> risk_manager \<Rightarrow> risk_manager" where
  "trip_circuit_breaker env rm =
     write_audit BreakerTripped
       (rm\<lparr>rm_breaker_active := True, rm_last_breaker_reset := env_now env\<rparr>)"

definition record_position_open :: "risk_env \<Rightarrow> u64 \<Rightarrow> risk_manager \<Rightarrow> risk_manager" where
  "record_position_open env lamports rm =
     persist_state env (rm\<lparr>rm_open_positions := rm_open_positions rm + 1,
                           rm_open_exposure := rm_open_exposure rm + lamports\<rparr>)"

definition record_position_close :: "risk_env \<Rightarrow> u64 \<Rightarrow> risk_manager \<Rightarrow> risk_manager" where
  "record_position_close env lamports rm =
     persist_state env (rm\<lparr>rm_open_positions := sat_sub (rm_open_positions rm) 1,
                           rm_open_exposure := sat_sub (rm_open_exposure rm) lamports\<rparr>)"

definition trigger_kill_switch :: "risk_manager \<Rightarrow> risk_manager" where
  "trigger_kill_switch rm = write_audit KillTriggered (rm\<lparr>rm_kill_switch := True\<rparr>)"

definition release_kill_switch :: "risk_manager \<Rightarrow> risk_manager" where
  "release_kill_switch rm = write_audit KillReleased (rm\<lparr>rm_kill_switch := False\<rparr>)"

definition is_circuit_breaker_active :: "risk_config \<Rightarrow> risk_env \<Rightarrow> risk_manager \<Rightarrow> bool \<times> risk_manager" where
  "is_circuit_breaker_active cfg env rm =
     (if rm_breaker_active rm \<and> rc_breaker_duration cfg < env_now env - rm_last_breaker_reset rm
      then (False, rm\<lparr>rm_breaker_active := False\<rparr>)
      else (rm_breaker_active rm, rm))"

definition pre_trade_check ::
    "risk_config \<Rightarrow> risk_env \<Rightarrow> u64 \<Rightarrow> u64 \<Rightarrow> risk_manager \<Rightarrow> (reject_reason + unit) \<times> risk_manager" where
  "pre_trade_check cfg env amount slippage rm =
     (if \<not> is_state_verified rm then (Inl UnverifiableRestartState, rm)
      else if rm_kill_switch rm then (Inl KillSwitchActive, rm)
      else let (active, rm') = is_circuit_breaker_active cfg env rm
      in (if active then Inl CircuitBreakerOpen
          else if rc_max_trade_size cfg < amount then Inl MaxSpendExceeded
          else if rc_max_slippage_bps cfg < slippage then Inl SlippageExceeded
          else if rc_daily_loss_limit cfg \<le> rm_loss rm' then Inl DailyLossLimit
          else if rc_max_daily_trades cfg \<le> rm_trades rm' then Inl DailyTradeCap
          else if rc_max_open_positions cfg \<le> rm_open_positions rm' then Inl OpenPositionCapExceeded
          else if rc_max_total_exposure cfg < sat_add (rm_open_exposure rm') amount
          then Inl ExposureCapExceeded
          else Inr (), rm'))"

definition record_trade :: "risk_config \<Rightarrow> risk_env \<Rightarrow> risk_manager \<Rightarrow> risk_manager" where
  "record_trade cfg env rm =
     (let rm1 = (if rm_trades_date rm \<noteq> env_today env
                 then rm\<lparr>rm_trades_date := env_today env, rm_trades := 0\<rparr> else rm);
          rm2 = rm1\<lparr>rm_trades := rm_trades rm1 + 1\<rparr>;
          exceeded = rc_max_daily_trades cfg < rm_trades rm2;
          rm3 = persist_state env rm2
      in if exceeded then trigger_kill_switch rm3 else rm3)"

definition current_daily_trades :: "risk_env \<Rightarrow> risk_manager \<Rightarrow> u64" where
  "current_daily_trades env rm = (if rm_trades_date rm \<noteq> env_today env then 0 else rm_trades rm)"

datatype loss_error = LossLimitReached

definition record_loss ::
    "risk_config \<Rightarrow> risk_env \<Rightarrow> u64 \<Rightarrow> risk_manager \<Rightarrow> (loss_error + unit) \<times> risk_manager" where
  "record_loss cfg env lamports rm =
     (let rm1 = (if rm_loss_date rm \<noteq> env_today env
                 then rm\<lparr>rm_loss_date := env_today env, rm_loss := 0\<rparr> else rm);
          rm2 = rm1\<lparr>rm_loss := sat_add (rm_loss rm1) lamports\<rparr>;
          reached = rc_daily_loss_limit cfg \<le> rm_loss rm2;
          rm3 = persist_state env rm2
      in if reached then (Inl LossLimitReached, trigger_kill_switch rm3) else (Inr (), rm3))"

definition current_daily_loss :: "risk_env \<Rightarrow> risk_manager \<Rightarrow> u64" where
  "current_daily_loss env rm = (if rm_loss_date rm \<noteq> env_today env then 0 else rm_loss rm)"

section \<open>Operations as steps\<close>

datatype risk_op =
    OpArm | OpDisarm | OpTrip | OpOpen u64 | OpClose u64 | OpKill | OpRelease
  | OpPollBreaker | OpCheck u64 u64 | OpTrade | OpLoss u64

fun risk_exec :: "risk_config \<Rightarrow> risk_env \<times> risk_op \<Rightarrow> risk_manager \<Rightarrow> risk_manager" where
  "risk_exec cfg (env, OpArm) rm = arm_live rm"
| "risk_exec cfg (env, OpDisarm) rm = disarm_live rm"
| "risk_exec cfg (env, OpTrip) rm = trip_circuit_breaker env rm"
| "risk_exec cfg (env, OpOpen n) rm = record_position_open env n rm"
| "risk_exec cfg (env, OpClose n) rm = record_position_close env n rm"
| "risk_exec cfg (env, OpKill) rm = trigger_kill_switch rm"
| "risk_exec cfg (env, OpRelease) rm = release_kill_switch rm"
| "risk_exec cfg (env, OpPollBreaker) rm = snd (is_circuit_breaker_active cfg env rm)"
| "risk_exec cfg (env, OpCheck n slip) rm = snd (pre_trade_check cfg env n slip rm)"
| "risk_exec cfg (env, OpTrade) rm = record_trade cfg env rm"
| "risk_exec cfg (env, OpLoss n) rm = snd (record_loss cfg env n rm)"

lemmas risk_op_defs = arm_live_def disarm_live_def trip_circuit_breaker_def record_position_open_def
  record_position_close_def trigger_kill_switch_def release_kill_switch_def write_audit_def
  is_circuit_breaker_active_def pre_trade_check_def record_trade_def record_loss_def persist_state_def Let_def

lemma persist_fields [simp]:
  "rm_kill_switch (persist_state env rm) = rm_kill_switch rm"
  "rm_loss (persist_state env rm) = rm_loss rm"
  "rm_loss_date (persist_state env rm) = rm_loss_date rm"
  "rm_trades (persist_state env rm) = rm_trades rm"
  "rm_trades_date (persist_state env rm) = rm_trades_date rm"
  "rm_open_positions (persist_state env rm) = rm_open_positions rm"
  "rm_open_exposure (persist_state env rm) = rm_open_exposure rm"
  "rm_state_verified (persist_state env rm) = rm_state_verified rm"
  "rm_live_armed (persist_state env rm) = rm_live_armed rm"
  "rm_persist_failed (persist_state env rm) \<longleftrightarrow> rm_persist_failed rm \<or> env_persist env \<noteq> Written"
  by (simp_all add: persist_state_def write_audit_def split: persist_outcome.split)

lemma kill_keeps_fields [simp]:
  "rm_kill_switch (trigger_kill_switch rm)"
  "rm_trades (trigger_kill_switch rm) = rm_trades rm"
  "rm_trades_date (trigger_kill_switch rm) = rm_trades_date rm"
  "rm_loss (trigger_kill_switch rm) = rm_loss rm"
  "rm_open_positions (trigger_kill_switch rm) = rm_open_positions rm"
  "rm_open_exposure (trigger_kill_switch rm) = rm_open_exposure rm"
  "rm_persist_failed (trigger_kill_switch rm) = rm_persist_failed rm"
  "rm_state_verified (trigger_kill_switch rm) = rm_state_verified rm"
  by (simp_all add: trigger_kill_switch_def write_audit_def)

lemma exec_unverified: "\<not> is_state_verified rm \<Longrightarrow> \<not> is_state_verified (risk_exec cfg eo rm)"
  by (cases "(cfg, eo, rm)" rule: risk_exec.cases)
     (auto simp: is_state_verified_def risk_op_defs split: if_splits persist_outcome.splits)

lemma exec_killed:
  "rm_kill_switch rm \<Longrightarrow> snd eo \<noteq> OpRelease \<Longrightarrow> rm_kill_switch (risk_exec cfg eo rm)"
  by (cases "(cfg, eo, rm)" rule: risk_exec.cases)
     (auto simp: risk_op_defs split: if_splits persist_outcome.splits)

lemma execs_unverified:
  "\<not> is_state_verified rm \<Longrightarrow> \<not> is_state_verified (fold (risk_exec cfg) eos rm)"
  by (induction eos arbitrary: rm) (simp_all add: exec_unverified)

lemma execs_killed:
  "rm_kill_switch rm \<Longrightarrow> \<forall>eo \<in> set eos. snd eo \<noteq> OpRelease
     \<Longrightarrow> rm_kill_switch (fold (risk_exec cfg) eos rm)"
  by (induction eos arbitrary: rm) (simp_all add: exec_killed)

lemma killed_rejects:
  "rm_kill_switch rm \<Longrightarrow> \<exists>r. fst (pre_trade_check cfg env n slip rm) = Inl r"
  by (simp add: pre_trade_check_def)

section \<open>The gate\<close>

definition breaker_open :: "risk_config \<Rightarrow> risk_env \<Rightarrow> risk_manager \<Rightarrow> bool" where
  "breaker_open cfg env rm \<longleftrightarrow>
     rm_breaker_active rm \<and> env_now env - rm_last_breaker_reset rm \<le> rc_breaker_duration cfg"

lemma breaker_active_eq: "fst (is_circuit_breaker_active cfg env rm) = breaker_open cfg env rm"
  by (auto simp: is_circuit_breaker_active_def breaker_open_def)

lemma breaker_poll_fields [simp]:
  "rm_loss (snd (is_circuit_breaker_active cfg env rm)) = rm_loss rm"
  "rm_trades (snd (is_circuit_breaker_active cfg env rm)) = rm_trades rm"
  "rm_open_positions (snd (is_circuit_breaker_active cfg env rm)) = rm_open_positions rm"
  "rm_open_exposure (snd (is_circuit_breaker_active cfg env rm)) = rm_open_exposure rm"
  by (simp_all add: is_circuit_breaker_active_def)

lemma pre_trade_ok_iff:
  "fst (pre_trade_check cfg env n slip rm) = Inr () \<longleftrightarrow>
     is_state_verified rm \<and> \<not> rm_kill_switch rm \<and> \<not> breaker_open cfg env rm
     \<and> n \<le> rc_max_trade_size cfg \<and> slip \<le> rc_max_slippage_bps cfg
     \<and> rm_loss rm < rc_daily_loss_limit cfg \<and> rm_trades rm < rc_max_daily_trades cfg
     \<and> rm_open_positions rm < rc_max_open_positions cfg
     \<and> min (unat (rm_open_exposure rm) + unat n) (2 ^ 64 - 1) \<le> unat (rc_max_total_exposure cfg)"
proof -
  have "\<not> rc_max_total_exposure cfg < sat_add (rm_open_exposure rm) n
      \<longleftrightarrow> min (unat (rm_open_exposure rm) + unat n) (2 ^ 64 - 1) \<le> unat (rc_max_total_exposure cfg)"
    by (simp add: not_less word_le_nat_alt unat_sat_add)
  moreover obtain act rm' where "is_circuit_breaker_active cfg env rm = (act, rm')" by fastforce
  ultimately show ?thesis
    using breaker_active_eq [of cfg env rm] breaker_poll_fields [of cfg env rm]
    by (auto simp: pre_trade_check_def Let_def not_less not_le)
qed

text \<open>
  C18. Fail-closed persistence: once a write of the risk state failed, or the state found at start could not be parsed,
  no sequence of operations of the risk manager makes a pre-trade check succeed again.
\<close>

theorem unverified_state_blocks_entries:
  assumes "rm_persist_failed rm \<or> \<not> rm_state_verified rm"
  shows "fst (pre_trade_check cfg env n slip (fold (risk_exec cfg) eos rm)) = Inl UnverifiableRestartState"
proof -
  have "\<not> is_state_verified rm" using assms by (auto simp: is_state_verified_def)
  from execs_unverified [OF this] show ?thesis by (simp add: pre_trade_check_def)
qed

theorem unverified_state_blocks_entries_witness:
  "fst (pre_trade_check devnet_defaults \<lparr>env_today = ''d'', env_now = 9, env_persist = Written\<rparr> 1 1
        (fold (risk_exec devnet_defaults)
           [(\<lparr>env_today = ''d'', env_now = 8, env_persist = Written\<rparr>, OpTrade)] (risk_new 0 Corrupt [])))
     = Inl UnverifiableRestartState"
  by (rule unverified_state_blocks_entries)
     (simp add: is_state_verified_def risk_new_def load_state_def write_audit_def)

text \<open>
  C13. Reaching the daily loss limit stops trading: when a recorded loss reaches the limit, the kill switch is on, and
  every later pre-trade check is refused, whatever the other operations, until \<open>release_kill_switch\<close> is
  called.
\<close>

theorem loss_limit_kills_trading:
  assumes "record_loss cfg env lamports rm = (r, rm')" "rc_daily_loss_limit cfg \<le> current_daily_loss env rm'"
    and "\<forall>eo \<in> set eos. snd eo \<noteq> OpRelease"
  shows "r = Inl LossLimitReached \<and> (\<exists>e. fst (pre_trade_check cfg env' n slip (fold (risk_exec cfg) eos rm')) = Inl e)"
proof -
  have "rm_loss_date rm' = env_today env"
    using assms(1) by (auto simp: record_loss_def Let_def trigger_kill_switch_def write_audit_def split: if_splits)
  then have "rc_daily_loss_limit cfg \<le> rm_loss rm'" using assms(2) by (simp add: current_daily_loss_def)
  then have "r = Inl LossLimitReached" and kill: "rm_kill_switch rm'"
    using assms(1) by (auto simp: record_loss_def Let_def trigger_kill_switch_def write_audit_def split: if_splits)
  then show ?thesis using killed_rejects [OF execs_killed [OF kill assms(3)]] by blast
qed

theorem loss_limit_kills_trading_witness:
  "\<exists>r. fst (pre_trade_check devnet_defaults \<lparr>env_today = ''e'', env_now = 9, env_persist = Written\<rparr> 1 1
        (fold (risk_exec devnet_defaults)
           [(\<lparr>env_today = ''e'', env_now = 8, env_persist = Written\<rparr>, OpTrade)]
           (snd (record_loss devnet_defaults \<lparr>env_today = ''d'', env_now = 5, env_persist = Written\<rparr>
                   50000000000 (risk_new 0 NoFile []))))) = Inl r"
  by (rule conjunct2 [OF loss_limit_kills_trading [OF surjective_pairing]])
     (simp_all add: record_loss_def devnet_defaults_def risk_new_def load_state_def empty_persisted_def
       sat_add_def persist_state_def word_le_nat_alt current_daily_loss_def trigger_kill_switch_def write_audit_def)

section \<open>Exposure\<close>

text \<open>
  The entry path asks \<open>pre_trade_check\<close> and then records the open position.  The gate law needs a
  cap below \<open>u64::MAX\<close>: at that value the saturating projection of the code would accept every size.
\<close>

definition gate_allows :: "risk_config \<Rightarrow> risk_manager \<Rightarrow> risk_env \<times> u64 \<Rightarrow> u64 \<Rightarrow> bool" where
  "gate_allows cfg rm e n \<longleftrightarrow> fst (pre_trade_check cfg (fst e) n (snd e) rm) = Inr ()"

lemma risk_gate:
  assumes "rc_max_total_exposure cfg \<noteq> u64_max"
  shows "exposure_gate (gate_allows cfg) (\<lambda>e. record_position_open (fst e)) (\<lambda>e. record_position_close (fst e))
           (\<lambda>rm. unat (rm_open_positions rm)) (\<lambda>rm. unat (rm_open_exposure rm))
           (unat (rc_max_open_positions cfg)) (unat (rc_max_total_exposure cfg))"
proof -
  have cap: "unat (rc_max_total_exposure cfg) < 2 ^ 64 - 1"
    using assms u64_le_max [of "rc_max_total_exposure cfg"]
    by (simp add: word_unat_eq_iff unat_max_word)
  show ?thesis
  proof (unfold_locales, goal_cases)
    case (1 rm e n)
    then show ?case by (simp add: gate_allows_def pre_trade_ok_iff word_less_nat_alt)
  next
    case (2 rm e n)
    then show ?case using cap by (simp add: gate_allows_def pre_trade_ok_iff min_def split: if_splits)
  next
    case (3 rm e n)
    then have "unat (rm_open_positions rm) < unat (rc_max_open_positions cfg)"
      by (simp add: gate_allows_def pre_trade_ok_iff word_less_nat_alt)
    then have "unat (rm_open_positions rm) < 2 ^ 64 - 1" using u64_le_max [of "rc_max_open_positions cfg"] by simp
    then show ?case by (simp add: record_position_open_def unat_add_small)
  next
    case (4 rm e n)
    then have "unat (rm_open_exposure rm) + unat n < 2 ^ 64"
      using cap by (simp add: gate_allows_def pre_trade_ok_iff min_def split: if_splits)
    then show ?case by (simp add: record_position_open_def unat_add_small)
  next
    case 5
    then show ?case by (simp add: record_position_close_def unat_sat_sub)
  next
    case 6
    then show ?case by (simp add: record_position_close_def unat_sat_sub)
  qed
qed

definition production_config :: risk_config where
  "production_config =
     \<lparr> rc_max_trade_size = 50000000, rc_max_slippage_bps = 200, rc_daily_loss_limit = 200000000,
       rc_max_daily_trades = 5, rc_breaker_duration = 300, rc_max_open_positions = 1,
       rc_max_total_exposure = 50000000, rc_price_staleness_ms = 5000 \<rparr>"

lemma production_defaults_unset: "production_defaults EnvUnset = Inr production_config"
  by (simp add: production_defaults_def production_config_def risk_validate_def word_less_nat_alt)

interpretation prod: exposure_gate "gate_allows production_config" "\<lambda>e. record_position_open (fst e)"
    "\<lambda>e. record_position_close (fst e)" "\<lambda>rm. unat (rm_open_positions rm)"
    "\<lambda>rm. unat (rm_open_exposure rm)" "unat (rc_max_open_positions production_config)"
    "unat (rc_max_total_exposure production_config)"
  by (rule risk_gate) (simp add: production_config_def)

fun risk_entry_step :: "risk_config \<Rightarrow> (risk_env \<times> u64) entry_op \<Rightarrow> risk_manager \<Rightarrow> risk_manager" where
  "risk_entry_step cfg (Enter (env, slip) n) rm =
     (if fst (pre_trade_check cfg env n slip rm) = Inr () then record_position_open env n rm else rm)"
| "risk_entry_step cfg (Leave (env, slip) n) rm = record_position_close env n rm"

lemma production_caps:
  "unat (rc_max_open_positions production_config) = 1"
  "unat (rc_max_total_exposure production_config) = 50000000"
  by (simp_all add: production_config_def)

lemma risk_entry_step_prod: "risk_entry_step production_config = prod.entry_step"
proof (intro ext)
  fix op rm
  show "risk_entry_step production_config op rm = prod.entry_step op rm"
    by (cases "(production_config, op, rm)" rule: risk_entry_step.cases) (simp_all add: gate_allows_def)
qed

text \<open>
  C14. With the production limits, a client that opens a position only after a successful pre-trade check never holds more than one
  open position or more than 0.05 SOL of exposure, in any order of checks, entries and closes, from a fresh start,
  whatever the disk, the date and the clock do.
\<close>

theorem production_exposure_bounded:
  "let rm = fold (risk_entry_step production_config) ops (risk_new now NoFile log)
   in unat (rm_open_positions rm) \<le> 1 \<and> unat (rm_open_exposure rm) \<le> 50000000"
proof -
  have "prod.within (risk_new now NoFile log)"
    by (simp add: prod.within_def risk_new_def load_state_def empty_persisted_def)
  from prod.entries_within [OF this, of ops, unfolded prod.within_def] show ?thesis
    by (simp only: Let_def production_caps risk_entry_step_prod simp_thms)
qed

section \<open>Daily counters and restarts\<close>

interpretation trades: daily_counter rm_trades_date "\<lambda>rm. unat (rm_trades rm)"
    "\<lambda>d. record_trade cfg (env\<lparr>env_today := d\<rparr>)" "2 ^ 64" for cfg env
  by unfold_locales (auto simp: record_trade_def Let_def unat_add_small)

lemma current_daily_trades_eq:
  "unat (current_daily_trades env rm) = trades.today_count (env_today env) rm"
  by (simp add: current_daily_trades_def trades.today_count_def)

text \<open>
  The daily trade cap: after any number n of recorded trades on one day the counter of that day has grown by n, and once it exceeds
  \<open>max_daily_trades\<close> the kill switch is on.
\<close>

theorem trade_cap_kills_trading:
  assumes "unat (rm_trades rm) + n < 2 ^ 64" "0 < n"
    and "rm' = (record_trade cfg env ^^ n) rm"
  shows "unat (current_daily_trades env rm') = unat (current_daily_trades env rm) + n
       \<and> (unat (rc_max_daily_trades cfg) < unat (current_daily_trades env rm') \<longrightarrow> rm_kill_switch rm')"
proof
  have env: "env\<lparr>env_today := env_today env\<rparr> = env" by simp
  note counts = trades.bumps_count [OF assms(1), where d = "env_today env", of cfg env, unfolded env]
  then show eq: "unat (current_daily_trades env rm') = unat (current_daily_trades env rm) + n"
    by (simp only: current_daily_trades_eq assms(3))
  from assms(2) obtain k where k: "n = Suc k" by (cases n) auto
  have last: "rm' = record_trade cfg env ((record_trade cfg env ^^ k) rm)" using assms(3) k by simp
  have "rm_trades_date rm' = env_today env" by (simp add: last record_trade_def Let_def)
  then have cur: "current_daily_trades env rm' = rm_trades rm'" by (simp add: current_daily_trades_def)
  show "unat (rc_max_daily_trades cfg) < unat (current_daily_trades env rm') \<longrightarrow> rm_kill_switch rm'"
    unfolding cur unfolding last by (auto simp: record_trade_def Let_def word_less_nat_alt)
qed

theorem trade_cap_kills_trading_witness:
  "let env = \<lparr>env_today = ''d'', env_now = 0, env_persist = Written\<rparr>;
       rm' = (record_trade production_config env ^^ 6) (risk_new 0 NoFile [])
   in unat (current_daily_trades env rm') = 6 \<and> rm_kill_switch rm'"
proof -
  let ?env = "\<lparr>env_today = ''d'', env_now = 0, env_persist = Written\<rparr>"
  have "current_daily_trades ?env (risk_new 0 NoFile []) = 0"
    by (simp add: current_daily_trades_def risk_new_def load_state_def empty_persisted_def)
  then show ?thesis
    using trade_cap_kills_trading [of "risk_new 0 NoFile []" 6 _ production_config ?env, OF _ _ refl]
    by (simp add: risk_new_def load_state_def empty_persisted_def production_config_def Let_def)
qed

text \<open>
  Restart safety of a recorded position: after a successful write, a restart restores the counters, the
  open positions and the exposure, verified, with the live switch off.
\<close>

theorem restart_restores_state:
  assumes "env_persist env = Written"
  shows "let rm' = risk_new now (rm_file (persist_state env rm)) log
         in rm_trades rm' = rm_trades rm \<and> rm_trades_date rm' = rm_trades_date rm
          \<and> rm_loss rm' = rm_loss rm \<and> rm_open_positions rm' = rm_open_positions rm
          \<and> rm_open_exposure rm' = rm_open_exposure rm \<and> is_state_verified rm' \<and> \<not> rm_live_armed rm'"
  using assms by (simp add: persist_state_def risk_new_def load_state_def is_state_verified_def)

theorem restart_restores_state_witness:
  "let rm = (risk_new 0 NoFile [])\<lparr>rm_loss := 7\<rparr>;
       rm' = risk_new 9 (rm_file (persist_state \<lparr>env_today = ''d'', env_now = 0, env_persist = Written\<rparr> rm)) []
   in rm_loss rm' = 7"
  using restart_restores_state [of "\<lparr>env_today = ''d'', env_now = 0, env_persist = Written\<rparr>" 9
      "(risk_new 0 NoFile [])\<lparr>rm_loss := 7\<rparr>" "[]"]
  by (simp add: Let_def)

lemma record_loss_fields:
  assumes "record_loss cfg env n rm = (r, rm')"
  shows "rm_loss rm' = (if rm_loss_date rm = env_today env then sat_add (rm_loss rm) n else n)"
    and "rm_loss_date rm' = env_today env" "rm_trades_date rm' = rm_trades_date rm"
    and "env_persist env = Written \<Longrightarrow> \<exists>p. rm_file rm' = Saved p \<and> pr_date p = rm_trades_date rm
           \<and> pr_daily_loss p = rm_loss rm'"
  using assms by (auto simp: record_loss_def Let_def persist_state_def trigger_kill_switch_def
      write_audit_def sat_add_def split: if_splits persist_outcome.splits)

text \<open>
  The file carries one date, that of the trades.  A loss recorded and written on a day without a trade is stored
  under the old date: before a restart the day's loss reads right, after a restart on the same day it reads zero, and the next
  loss starts the day again.
\<close>

theorem restart_forgets_loss:
  assumes "env_persist env = Written" "rm_trades_date rm \<noteq> env_today env" "rm_loss_date rm \<noteq> env_today env"
    and "record_loss cfg env a rm = (r1, rm1)"
    and "rm2 = risk_new now (rm_file rm1) log"
    and "record_loss cfg env b rm2 = (r2, rm3)"
  shows "current_daily_loss env rm1 = a \<and> current_daily_loss env rm2 = 0 \<and> current_daily_loss env rm3 = b"
proof -
  note one = record_loss_fields [OF assms(4)]
  from one(4) [OF assms(1)] assms(5) have "rm_loss_date rm2 = rm_trades_date rm"
    by (auto simp: risk_new_def load_state_def)
  with assms(2) record_loss_fields(1,2) [OF assms(6)] one(1,2) assms(3) show ?thesis
    by (simp add: current_daily_loss_def)
qed

theorem restart_forgets_loss_witness:
  "let env = \<lparr>env_today = ''2026-01-02'', env_now = 0, env_persist = Written\<rparr>;
       rm1 = snd (record_loss production_config env 150000000 (risk_new 0 NoFile []));
       rm2 = risk_new 0 (rm_file rm1) []
   in current_daily_loss env rm1 = 150000000 \<and> current_daily_loss env rm2 = 0"
  using restart_forgets_loss [of "\<lparr>env_today = ''2026-01-02'', env_now = 0, env_persist = Written\<rparr>"
      "risk_new 0 NoFile []" production_config 150000000 _ _ _ 0 "[]" 1, OF _ _ _ surjective_pairing refl surjective_pairing]
  by (simp add: risk_new_def load_state_def empty_persisted_def Let_def)

section \<open>A spent counter and the next day\<close>

text \<open>One event of a manager: an operation, or a restart that reads the file.\<close>

definition risk_event :: "risk_config \<Rightarrow> risk_env \<times> risk_op option \<Rightarrow> risk_manager \<Rightarrow> risk_manager" where
  "risk_event cfg = (\<lambda>(env, ev) rm.
     case ev of None \<Rightarrow> risk_new (env_now env) (rm_file rm) (rm_audit rm) | Some op \<Rightarrow> risk_exec cfg (env, op) rm)"

definition spent :: "risk_config \<Rightarrow> risk_manager \<Rightarrow> bool" where
  "spent cfg rm \<longleftrightarrow> rc_max_daily_trades cfg \<le> rm_trades rm
     \<and> (case rm_file rm of Saved st \<Rightarrow> rc_max_daily_trades cfg \<le> pr_daily_trades st | _ \<Rightarrow> False)"

lemma persist_spent: "spent cfg rm \<Longrightarrow> rm_trades rm' = rm_trades rm \<Longrightarrow> rm_file rm' = rm_file rm \<Longrightarrow> spent cfg (persist_state env rm')"
  by (auto simp: spent_def persist_state_def write_audit_def split: persist_outcome.split)

lemma exec_spent: "spent cfg rm \<Longrightarrow> op \<noteq> OpTrade \<Longrightarrow> spent cfg (risk_exec cfg (env, op) rm)"
  by (cases op)
     (auto simp: risk_op_defs spent_def split: if_splits persist_outcome.splits risk_file.splits)

lemma event_spent:
  assumes "spent cfg rm" "snd ev \<noteq> Some OpTrade"
  shows "spent cfg (risk_event cfg ev rm)"
proof (cases "snd ev")
  case None
  then show ?thesis
    using assms(1) by (cases ev) (auto simp: risk_event_def spent_def risk_new_def load_state_def split: risk_file.splits)
next
  case (Some op)
  then show ?thesis using exec_spent [OF assms(1), of op "fst ev"] assms(2) by (cases ev) (simp add: risk_event_def)
qed

lemma spent_rejects: "spent cfg rm \<Longrightarrow> \<exists>r. fst (pre_trade_check cfg env amount slip rm) = Inl r"
  by (auto simp: pre_trade_check_def is_circuit_breaker_active_def spent_def Let_def)

text \<open>
  The daily trade cap outlives its day: once a day's counter has reached the cap and was written, the pre-trade check refuses every
  entry from then on, whatever day it is, over any operations and restarts without a recorded trade, and a trade
  is recorded only after an entry.  On a later day the counter itself reads zero.
\<close>

theorem spent_cap_outlives_the_day:
  assumes "spent cfg rm" "\<And>ev. ev \<in> set evs \<Longrightarrow> snd ev \<noteq> Some OpTrade"
  shows "(\<exists>r. fst (pre_trade_check cfg env amount slip (fold (risk_event cfg) evs rm)) = Inl r)
    \<and> (rm_trades_date (fold (risk_event cfg) evs rm) \<noteq> env_today env
         \<longrightarrow> current_daily_trades env (fold (risk_event cfg) evs rm) = 0)"
proof -
  have "spent cfg (fold (risk_event cfg) evs rm)"
    using assms by (induction evs arbitrary: rm) (simp_all add: event_spent)
  then show ?thesis using spent_rejects by (simp add: current_daily_trades_def)
qed

theorem spent_cap_outlives_the_day_witness:
  "let yesterday = Saved \<lparr> pr_date = ''2026-01-01'', pr_daily_trades = 5, pr_daily_loss = 0, pr_open_positions = 0, pr_open_exposure = 0 \<rparr>;
       env = \<lparr>env_today = ''2026-01-02'', env_now = 0, env_persist = Written\<rparr>;
       rm = fold (risk_event production_config) [(env, Some (OpClose 9)), (env, None)] (risk_new 0 yesterday [])
   in \<exists>r. fst (pre_trade_check production_config env 1 50 rm) = Inl r"
  unfolding Let_def
  by (rule conjunct1 [OF spent_cap_outlives_the_day])
     (auto simp: spent_def risk_new_def load_state_def production_config_def word_le_nat_alt)

end
