(* ===== verification/Hsm_Policy.thy ===== *)
theory Hsm_Policy
  imports Prelude
begin

text \<open>
  \<open>tools/hsm_server/policy.rs\<close>: the signing policy of the HSM server.  A message is its account keys, its number of
  required signatures and its compiled instructions.  Public keys are an abstract type; the decoding of a
  base58 constant and the derivation of an associated token account belong to the Solana SDK and are the
  fields of a record the definitions take.  The main theorem bounds what a signed message can do with the
  funds of the wallet.
\<close>

section \<open>Constants and data\<close>

record 'k sdk =
  pk :: "string \<Rightarrow> 'k"
  find_ata :: "'k \<Rightarrow> 'k \<Rightarrow> 'k \<Rightarrow> 'k"  \<comment> \<open>owner, mint, token program\<close>

definition SYSTEM_PROGRAM :: string where
  "SYSTEM_PROGRAM = ''11111111111111111111111111111111''"
definition COMPUTE_BUDGET_PROGRAM :: string where
  "COMPUTE_BUDGET_PROGRAM = ''ComputeBudget111111111111111111111111111111''"
definition TOKEN_PROGRAM :: string where
  "TOKEN_PROGRAM = ''TokenkegQfeZyiNwAJbNbGKPFXCWuBvf9Ss623VQ5DA''"
definition ATA_PROGRAM :: string where
  "ATA_PROGRAM = ''ATokenGPvbdGVxr1b2hvZbsiqW5xWH25efTNsLJA8knL''"
definition CLMM_PROGRAMS :: "string list" where
  "CLMM_PROGRAMS = [''CAMMCzo5YL8w4VFF8KVHrK22GGUsp5VTaW7grrKgrWqK'',
                    ''DRayAUgENGQBKVaX8owNhgzkEDyoHTGVEGHVJT1E9pfH'']"
definition CLMM_SWAP_DISCRIMINATOR :: bytes where
  "CLMM_SWAP_DISCRIMINATOR = [248, 198, 158, 145, 225, 117, 135, 200]"
definition JITO_TIP_ACCOUNTS :: "string list" where
  "JITO_TIP_ACCOUNTS =
     [''96gYZGLnJYVFmbjzopPSU6QiEV5fGqZNyN9nmNhvrZU5'', ''HFqU5x63VTqvQss8hp11i4wVV8bD44PvwucfZ2bU7gRe'',
      ''Cw8CFyM9FkoMi7K7Crf6HNQqf4uEMzpKw6QNghXLvLkY'', ''ADaUMid9yfUytqMBgopwjb2DTLSokTSzL1zt6iGPaS49'',
      ''DfXygSm4jCyNCybVYYK6DwvWqjKee8pbDmJGcLWNDXjh'', ''ADuUkR4vqLUMWXxW9gh6D6L8pMSawimctcNZ5pGwDcEt'',
      ''DttWaMuVvTiduZRnguLF7jNxTgiMBZ1hyAumKUiL2KRL'', ''3AVi9Tg9Uo68tJfuvoKvqKNWKkC5wPdSSdeBnizKZ6jT'']"

record 'k policy =
  max_transfer_lamports :: u64
  max_cu_price_micro_lamports :: u64
  extra_destinations :: "'k set"

definition default_policy :: "'k policy" where
  "default_policy = \<lparr> max_transfer_lamports = 60000000, max_cu_price_micro_lamports = 5000000,
                      extra_destinations = {} \<rparr>"

datatype policy_env_error = BadTransferCap | BadCuPriceCap | BadDestination string

text \<open>
  \<open>Policy::from_env\<close>: the three variables (\<open>None\<close> when unset), with the SDK's fallible parser of a key.
\<close>

definition env_limit ::
    "policy_env_error \<Rightarrow> string option \<Rightarrow> u64 \<Rightarrow> policy_env_error + u64" where
  "env_limit e var dflt =
     (case var of None \<Rightarrow> Inr dflt
      | Some v \<Rightarrow> if trim v = [] then Inr dflt else ok_or e (parse_u64 (trim v)))"

definition env_destinations ::
    "(string \<Rightarrow> 'k option) \<Rightarrow> string option \<Rightarrow> policy_env_error + 'k list" where
  "env_destinations from_str var =
     (case var of None \<Rightarrow> Inr []
      | Some v \<Rightarrow> try_map (\<lambda>s. ok_or (BadDestination s) (from_str s))
                    (filter (\<lambda>s. s \<noteq> []) (map trim (split_on (CHR '','') v))))"

definition policy_from_env ::
    "(string \<Rightarrow> 'k option) \<Rightarrow> string option \<Rightarrow> string option \<Rightarrow> string option
       \<Rightarrow> policy_env_error + 'k policy" where
  "policy_from_env from_str cap_var cu_var dest_var =
     and_then (env_limit BadTransferCap cap_var 60000000) (\<lambda>cap.
     and_then (env_limit BadCuPriceCap cu_var 5000000) (\<lambda>cu.
     and_then (env_destinations from_str dest_var) (\<lambda>dests.
     Inr \<lparr> max_transfer_lamports = cap, max_cu_price_micro_lamports = cu,
           extra_destinations = set dests \<rparr>)))"

lemma policy_from_empty_env: "policy_from_env from_str None None None = Inr default_policy"
  by (simp add: policy_from_env_def env_limit_def env_destinations_def default_policy_def)

record compiled_ix =
  program_id_index :: u8
  ix_accounts :: "u8 list"
  ix_data :: bytes

record 'k message =
  account_keys :: "'k list"
  num_required_signatures :: u8
  instructions :: "compiled_ix list"

datatype policy_error =
    FeePayerNotSigner | WrongSignatureCount u8 | AccountIndexOutOfRange | MissingInstructionAccount
  | AtaNotCreate | AtaMissingAccounts | AtaPayerOwner | AtaTokenProgram | AtaNotAssociated
  | CuMalformedPrice | CuPriceAboveCap u64 | CuUnknown
  | SystemNotTransfer | SystemSource | SystemDestination
  | SyncNotOwnAta | CloseNotOwnAta | TokenOther
  | ClmmNotSwap | ClmmPayer | ClmmAccounts | ProgramNotAllowed
  | TransfersAboveCap u64

definition ata_of :: "'k sdk \<Rightarrow> 'k \<Rightarrow> 'k \<Rightarrow> 'k \<Rightarrow> 'k" where
  "ata_of sdk owner mint token_program = find_ata sdk owner mint token_program"

text \<open>\<open>key\<close>: the account key of an index; \<open>acc\<close>: the key of the n-th account of an instruction.\<close>

definition key_at :: "'k list \<Rightarrow> u8 \<Rightarrow> policy_error + 'k" where
  "key_at keys i = ok_or AccountIndexOutOfRange (get_at (unat i) keys)"

definition acc_at :: "'k list \<Rightarrow> compiled_ix \<Rightarrow> nat \<Rightarrow> policy_error + 'k" where
  "acc_at keys ix n =
     and_then (ok_or MissingInstructionAccount (get_at n (ix_accounts ix))) (key_at keys)"

section \<open>Pass 1: the associated token accounts of the signer\<close>

definition ata_create :: "'k sdk \<Rightarrow> 'k list \<Rightarrow> 'k \<Rightarrow> compiled_ix \<Rightarrow> policy_error + 'k" where
  "ata_create sdk keys signer ix =
     and_then (ensure (ix_data ix = [] \<or> ix_data ix = [0] \<or> ix_data ix = [1]) AtaNotCreate) (\<lambda>_.
     and_then (try_map (key_at keys) (ix_accounts ix)) (\<lambda>a.
     and_then (ensure (6 \<le> length a) AtaMissingAccounts) (\<lambda>_.
     and_then (ensure (a ! 0 = signer \<and> a ! 2 = signer) AtaPayerOwner) (\<lambda>_.
     and_then (ensure (a ! 5 = pk sdk TOKEN_PROGRAM) AtaTokenProgram) (\<lambda>_.
     and_then (ensure (a ! 1 = ata_of sdk signer (a ! 3) (a ! 5)) AtaNotAssociated) (\<lambda>_.
     Inr (a ! 1)))))))"

fun own_ata_pass ::
    "'k sdk \<Rightarrow> 'k list \<Rightarrow> 'k \<Rightarrow> compiled_ix list \<Rightarrow> 'k set \<Rightarrow> policy_error + 'k set" where
  "own_ata_pass sdk keys signer [] own = Inr own"
| "own_ata_pass sdk keys signer (ix # ixs) own =
     and_then (key_at keys (program_id_index ix)) (\<lambda>program.
       if program \<noteq> pk sdk ATA_PROGRAM then own_ata_pass sdk keys signer ixs own
       else and_then (ata_create sdk keys signer ix) (\<lambda>ata.
              own_ata_pass sdk keys signer ixs (insert ata own)))"

section \<open>Pass 2: every instruction\<close>

definition check_compute :: "'k policy \<Rightarrow> compiled_ix \<Rightarrow> policy_error + unit" where
  "check_compute policy ix =
     (case ix_data ix of
        [] \<Rightarrow> Inl CuUnknown
      | tag # _ \<Rightarrow>
          if tag = 3
          then and_then (ok_or CuMalformedPrice (get_range 1 9 (ix_data ix))) (\<lambda>b.
                 let price = from_le_bytes b
                 in ensure (price \<le> max_cu_price_micro_lamports policy) (CuPriceAboveCap price))
          else ensure (tag = 1 \<or> tag = 2 \<or> tag = 4) CuUnknown)"

text \<open>The lamports a System instruction adds to the total leaving the wallet.\<close>

definition check_system ::
    "'k sdk \<Rightarrow> 'k policy \<Rightarrow> 'k list \<Rightarrow> 'k \<Rightarrow> 'k set \<Rightarrow> compiled_ix \<Rightarrow> policy_error + u64" where
  "check_system sdk policy keys signer own ix =
     and_then (ensure (length (ix_data ix) = 12 \<and> take 4 (ix_data ix) = [2, 0, 0, 0]) SystemNotTransfer) (\<lambda>_.
     let lamports = from_le_bytes (drop 4 (ix_data ix)) in
     and_then (acc_at keys ix 0) (\<lambda>src. and_then (acc_at keys ix 1) (\<lambda>dst.
     and_then (ensure (src = signer) SystemSource) (\<lambda>_.
     if dst = signer then Inr 0
     else and_then (ensure (dst \<in> own \<or> dst \<in> pk sdk ` set JITO_TIP_ACCOUNTS
                             \<or> dst \<in> extra_destinations policy) SystemDestination) (\<lambda>_.
     Inr lamports)))))"

definition check_token ::
    "'k list \<Rightarrow> 'k \<Rightarrow> 'k set \<Rightarrow> compiled_ix \<Rightarrow> policy_error + unit" where
  "check_token keys signer own ix =
     (if ix_data ix = [17]
      then and_then (acc_at keys ix 0) (\<lambda>a. ensure (a \<in> own) SyncNotOwnAta)
      else if ix_data ix = [9]
      then and_then (acc_at keys ix 0) (\<lambda>a.
             if a \<notin> own then Inl CloseNotOwnAta
             else and_then (acc_at keys ix 1) (\<lambda>dest.
             if dest \<noteq> signer then Inl CloseNotOwnAta
             else and_then (acc_at keys ix 2) (\<lambda>auth. ensure (auth = signer) CloseNotOwnAta)))
      else Inl TokenOther)"

definition check_clmm ::
    "'k list \<Rightarrow> 'k \<Rightarrow> 'k set \<Rightarrow> compiled_ix \<Rightarrow> policy_error + unit" where
  "check_clmm keys signer own ix =
     and_then (ensure (get_range 0 8 (ix_data ix) = Some CLMM_SWAP_DISCRIMINATOR) ClmmNotSwap) (\<lambda>_.
     and_then (acc_at keys ix 0) (\<lambda>payer.
     and_then (ensure (payer = signer) ClmmPayer) (\<lambda>_.
     and_then (acc_at keys ix 3) (\<lambda>input.
     if input \<notin> own then Inl ClmmAccounts
     else and_then (acc_at keys ix 4) (\<lambda>output. ensure (output \<in> own) ClmmAccounts)))))"

definition check_ix ::
    "'k sdk \<Rightarrow> 'k policy \<Rightarrow> 'k list \<Rightarrow> 'k \<Rightarrow> 'k set \<Rightarrow> compiled_ix \<Rightarrow> policy_error + u64" where
  "check_ix sdk policy keys signer own ix =
     and_then (key_at keys (program_id_index ix)) (\<lambda>program.
       if program = pk sdk COMPUTE_BUDGET_PROGRAM
       then and_then (check_compute policy ix) (\<lambda>_. Inr 0)
       else if program = pk sdk ATA_PROGRAM then Inr 0
       else if program = pk sdk SYSTEM_PROGRAM then check_system sdk policy keys signer own ix
       else if program = pk sdk TOKEN_PROGRAM
       then and_then (check_token keys signer own ix) (\<lambda>_. Inr 0)
       else if program \<in> pk sdk ` set CLMM_PROGRAMS
       then and_then (check_clmm keys signer own ix) (\<lambda>_. Inr 0)
       else Inl ProgramNotAllowed)"

fun check_ixs ::
    "'k sdk \<Rightarrow> 'k policy \<Rightarrow> 'k list \<Rightarrow> 'k \<Rightarrow> 'k set \<Rightarrow> compiled_ix list \<Rightarrow> u64 \<Rightarrow> policy_error + u64" where
  "check_ixs sdk policy keys signer own [] moved_out = Inr moved_out"
| "check_ixs sdk policy keys signer own (ix # ixs) moved_out =
     and_then (check_ix sdk policy keys signer own ix) (\<lambda>n.
       check_ixs sdk policy keys signer own ixs (sat_add moved_out n))"

definition policy_check :: "'k sdk \<Rightarrow> 'k message \<Rightarrow> 'k \<Rightarrow> 'k policy \<Rightarrow> policy_error + unit" where
  "policy_check sdk msg signer policy =
     (let keys = account_keys msg in
      and_then (ensure (get_at 0 keys = Some signer) FeePayerNotSigner) (\<lambda>_.
      and_then (ensure (num_required_signatures msg = 1)
                  (WrongSignatureCount (num_required_signatures msg))) (\<lambda>_.
      and_then (own_ata_pass sdk keys signer (instructions msg) {}) (\<lambda>own.
      and_then (check_ixs sdk policy keys signer own (instructions msg) 0) (\<lambda>moved_out.
      ensure (moved_out \<le> max_transfer_lamports policy) (TransfersAboveCap moved_out))))))"

section \<open>What a signed message can move\<close>

text \<open>
  The documented effect of the System program's transfer on the lamport balances: 12 bytes of data, tag 2, the
  amount in bytes 4 to 11, from the first account to the second.
\<close>

definition system_transfer :: "'k sdk \<Rightarrow> 'k list \<Rightarrow> compiled_ix \<Rightarrow> ('k \<times> 'k \<times> u64) option" where
  "system_transfer sdk keys ix =
     (case (key_at keys (program_id_index ix), acc_at keys ix 0, acc_at keys ix 1) of
        (Inr program, Inr src, Inr dst) \<Rightarrow>
          if program = pk sdk SYSTEM_PROGRAM \<and> length (ix_data ix) = 12 \<and> take 4 (ix_data ix) = [2, 0, 0, 0]
          then Some (src, dst, from_le_bytes (drop 4 (ix_data ix))) else None
      | _ \<Rightarrow> None)"

definition move_lamports :: "('k \<times> 'k \<times> u64) option \<Rightarrow> ('k \<Rightarrow> int) \<Rightarrow> 'k \<Rightarrow> int" where
  "move_lamports t bal =
     (case t of None \<Rightarrow> bal
      | Some (src, dst, n) \<Rightarrow>
          let bal' = bal(src := bal src - int (unat n)) in bal'(dst := bal' dst + int (unat n)))"

definition run_transfers :: "'k sdk \<Rightarrow> 'k list \<Rightarrow> compiled_ix list \<Rightarrow> ('k \<Rightarrow> int) \<Rightarrow> 'k \<Rightarrow> int" where
  "run_transfers sdk keys ixs bal = fold (\<lambda>ix. move_lamports (system_transfer sdk keys ix)) ixs bal"

definition program_ids :: "string set" where
  "program_ids = {SYSTEM_PROGRAM, COMPUTE_BUDGET_PROGRAM, TOKEN_PROGRAM, ATA_PROGRAM} \<union> set CLMM_PROGRAMS"

definition approved :: "'k sdk \<Rightarrow> 'k policy \<Rightarrow> 'k \<Rightarrow> 'k set" where
  "approved sdk policy signer =
     {find_ata sdk signer mint (pk sdk TOKEN_PROGRAM) | mint. True}
     \<union> pk sdk ` set JITO_TIP_ACCOUNTS \<union> extra_destinations policy"

lemmas program_names = SYSTEM_PROGRAM_def COMPUTE_BUDGET_PROGRAM_def TOKEN_PROGRAM_def ATA_PROGRAM_def
  CLMM_PROGRAMS_def

lemma system_distinct:
  assumes "inj_on (pk sdk) program_ids"
  shows "pk sdk SYSTEM_PROGRAM \<noteq> pk sdk COMPUTE_BUDGET_PROGRAM"
    "pk sdk SYSTEM_PROGRAM \<noteq> pk sdk ATA_PROGRAM"
  using assms by (auto simp: inj_on_eq_iff program_ids_def program_names)

lemma ata_create_own:
  "ata_create sdk keys signer ix = Inr ata \<Longrightarrow>
     \<exists>mint. ata = find_ata sdk signer mint (pk sdk TOKEN_PROGRAM)"
  by (auto simp: ata_create_def and_then_eq_Inr ata_of_def)

lemma own_ata_pass_own:
  "own_ata_pass sdk keys signer ixs own = Inr own' \<Longrightarrow>
     own' \<subseteq> own \<union> {find_ata sdk signer mint (pk sdk TOKEN_PROGRAM) | mint. True}"
  by (induction ixs arbitrary: own)
     (auto simp: and_then_eq_Inr split: if_splits dest!: ata_create_own; blast)+

lemma check_ix_moves:
  assumes "check_ix sdk policy keys signer own ix = Inr n" "inj_on (pk sdk) program_ids"
    and "own \<subseteq> {find_ata sdk signer mint (pk sdk TOKEN_PROGRAM) | mint. True}"
  shows "case system_transfer sdk keys ix of
           None \<Rightarrow> n = 0
         | Some (src, dst, a) \<Rightarrow> src = signer
             \<and> (if dst = signer then n = 0 else dst \<in> approved sdk policy signer \<and> n = a)"
proof -
  obtain program where prog: "key_at keys (program_id_index ix) = Inr program"
    using assms(1) by (auto simp: check_ix_def and_then_eq_Inr)
  show ?thesis
  proof (cases "program = pk sdk SYSTEM_PROGRAM")
    case True
    then have "check_system sdk policy keys signer own ix = Inr n"
      using assms(1) prog system_distinct [OF assms(2)] by (simp add: check_ix_def)
    then show ?thesis
      using True prog assms(3)
      by (auto simp: check_system_def system_transfer_def and_then_eq_Inr Let_def approved_def
          split: if_splits)
  next
    case False
    then show ?thesis
      using assms(1) prog
      by (auto simp: check_ix_def system_transfer_def and_then_eq_Inr split: if_splits sum.split)
  qed
qed

lemma check_ixs_moves:
  assumes "check_ixs sdk policy keys signer own ixs m = Inr m'" "inj_on (pk sdk) program_ids"
    and "own \<subseteq> {find_ata sdk signer mint (pk sdk TOKEN_PROGRAM) | mint. True}" "m' \<noteq> u64_max"
  shows "bal signer - run_transfers sdk keys ixs bal signer = int (unat m') - int (unat m)"
    and "k \<noteq> signer \<Longrightarrow> k \<notin> approved sdk policy signer
           \<Longrightarrow> run_transfers sdk keys ixs bal k = bal k"
    and "unat m \<le> unat m'"
proof -
  have lt: "unat m' < 2 ^ 64 - 1"
    using assms(4) u64_le_max [of m'] by (simp add: word_unat_eq_iff unat_max_word)
  have "bal signer - run_transfers sdk keys ixs bal signer = int (unat m') - int (unat m)
      \<and> (k \<noteq> signer \<longrightarrow> k \<notin> approved sdk policy signer \<longrightarrow> run_transfers sdk keys ixs bal k = bal k)
      \<and> unat m \<le> unat m'"
    using assms(1)
  proof (induction ixs arbitrary: m bal)
    case (Cons ix ixs)
    then obtain n where n: "check_ix sdk policy keys signer own ix = Inr n"
      and rest: "check_ixs sdk policy keys signer own ixs (sat_add m n) = Inr m'"
      by (auto simp: and_then_eq_Inr)
    let ?bal = "move_lamports (system_transfer sdk keys ix) bal"
    note IH = Cons.IH [OF rest, of ?bal]
    have "unat (sat_add m n) < 2 ^ 64 - 1" using IH lt by linarith
    then have sum: "unat (sat_add m n) = unat m + unat n" by (simp add: unat_sat_add min_def split: if_splits)
    have "bal signer - ?bal signer = int (unat n)
        \<and> (k \<noteq> signer \<longrightarrow> k \<notin> approved sdk policy signer \<longrightarrow> ?bal k = bal k)"
      using check_ix_moves [OF n assms(2,3)]
      by (auto simp: move_lamports_def Let_def split: option.splits if_splits)
    then show ?case
      using IH sum by (simp add: run_transfers_def)
  qed (simp add: run_transfers_def)
  then show "bal signer - run_transfers sdk keys ixs bal signer = int (unat m') - int (unat m)"
    "k \<noteq> signer \<Longrightarrow> k \<notin> approved sdk policy signer \<Longrightarrow> run_transfers sdk keys ixs bal k = bal k"
    "unat m \<le> unat m'" by blast+
qed

lemma policy_check_bounds:
  assumes "policy_check sdk msg signer policy = Inr ()" "inj_on (pk sdk) program_ids"
    and "max_transfer_lamports policy \<noteq> u64_max"
  shows "bal signer - run_transfers sdk (account_keys msg) (instructions msg) bal signer
           \<le> int (unat (max_transfer_lamports policy))
       \<and> (\<forall>k. run_transfers sdk (account_keys msg) (instructions msg) bal k \<noteq> bal k
              \<longrightarrow> k = signer \<or> k \<in> approved sdk policy signer)"
proof -
  obtain own m where own: "own_ata_pass sdk (account_keys msg) signer (instructions msg) {} = Inr own"
    and ixs: "check_ixs sdk policy (account_keys msg) signer own (instructions msg) 0 = Inr m"
    and cap: "m \<le> max_transfer_lamports policy"
    using assms(1) by (auto simp: policy_check_def and_then_eq_Inr Let_def)
  have "m \<noteq> u64_max" using cap assms(3) word_order.extremum_uniqueI by blast
  note moves = check_ixs_moves(1,2) [where bal = bal, OF ixs assms(2) _ this]
  show ?thesis
    using moves own_ata_pass_own [OF own] cap by (auto simp: word_le_nat_alt)
qed

text \<open>
  C1. A message the policy accepts cannot drain the wallet: executing its System transfers takes at most
  \<open>max_transfer_lamports\<close> from the signer, and changes the balance of no other account than an
  associated token account of the signer, a Jito tip account or an operator-approved destination.
  (A cap of \<open>u64::MAX\<close> is excluded: the saturating total never exceeds it.)
\<close>

theorem accepted_message_keeps_funds:
  assumes "policy_check sdk msg signer policy = Inr ()" "inj_on (pk sdk) program_ids"
    and "max_transfer_lamports policy \<noteq> u64_max"
  shows "bal signer - run_transfers sdk (account_keys msg) (instructions msg) bal signer
           \<le> int (unat (max_transfer_lamports policy))
       \<and> (\<forall>k. run_transfers sdk (account_keys msg) (instructions msg) bal k \<noteq> bal k
              \<longrightarrow> k = signer \<or> k \<in> approved sdk policy signer)"
  using policy_check_bounds [OF assms] .

text \<open>A concrete SDK on strings, for the witnesses: keys are names, an associated account is the joined name.\<close>

definition example_sdk :: "string sdk" where
  "example_sdk = \<lparr> pk = (\<lambda>s. s), find_ata = (\<lambda>owner mint prog. owner @ mint @ prog) \<rparr>"

definition example_msg :: "string message" where
  "example_msg = \<lparr> account_keys = [''me'', SYSTEM_PROGRAM, hd JITO_TIP_ACCOUNTS], num_required_signatures = 1,
     instructions = [\<lparr> program_id_index = 1, ix_accounts = [0, 2],
                       ix_data = [2, 0, 0, 0, 10, 0, 0, 0, 0, 0, 0, 0] \<rparr>] \<rparr>"

lemma example_inj: "inj_on (pk example_sdk) program_ids"
  by (simp add: example_sdk_def inj_on_def)

lemma example_accepted: "policy_check example_sdk example_msg ''me'' default_policy = Inr ()"
  by (simp add: policy_check_def example_sdk_def example_msg_def default_policy_def key_at_def get_at_def
      ok_or_def ensure_def check_ix_def check_system_def acc_at_def Let_def program_names JITO_TIP_ACCOUNTS_def
      from_le_bytes_def sat_add_def)

theorem accepted_message_keeps_funds_witness:
  "run_transfers example_sdk (account_keys example_msg) (instructions example_msg) (\<lambda>_. 100) ''me'' \<ge> 100 - 60000000
   \<and> run_transfers example_sdk (account_keys example_msg) (instructions example_msg) (\<lambda>_. 100) ''thief'' = 100"
proof -
  have thief: "''thief'' \<notin> approved example_sdk default_policy ''me''"
    by (auto simp: approved_def example_sdk_def default_policy_def JITO_TIP_ACCOUNTS_def)
  have cap: "max_transfer_lamports default_policy \<noteq> u64_max"
    and val: "int (unat (max_transfer_lamports default_policy)) = 60000000"
    by (simp_all add: default_policy_def word_unat_eq_iff unat_max_word)
  note th = accepted_message_keeps_funds [OF example_accepted example_inj cap, of "\<lambda>_. 100", unfolded val]
  from th [THEN conjunct2, rule_format, of "''thief''"] thief
  have "run_transfers example_sdk (account_keys example_msg) (instructions example_msg) (\<lambda>_. 100) ''thief'' = 100"
    by auto
  with th [THEN conjunct1] show ?thesis by linarith
qed

section \<open>The shape of an accepted message\<close>

text \<open>What each instruction of an accepted message is, by its program.\<close>

definition allowed_shape :: "'k sdk \<Rightarrow> 'k policy \<Rightarrow> 'k list \<Rightarrow> 'k \<Rightarrow> compiled_ix \<Rightarrow> bool" where
  "allowed_shape sdk policy keys signer ix \<longleftrightarrow>
     (\<exists>program. key_at keys (program_id_index ix) = Inr program
       \<and> program \<in> pk sdk ` program_ids
       \<and> (program = pk sdk TOKEN_PROGRAM \<longrightarrow>
             ix_data ix = [17] \<or> ix_data ix = [9] \<and> acc_at keys ix 1 = Inr signer \<and> acc_at keys ix 2 = Inr signer)
       \<and> (program \<in> pk sdk ` set CLMM_PROGRAMS \<longrightarrow>
             take 8 (ix_data ix) = CLMM_SWAP_DISCRIMINATOR \<and> acc_at keys ix 0 = Inr signer
             \<and> (\<exists>m1 m2. acc_at keys ix 3 = Inr (find_ata sdk signer m1 (pk sdk TOKEN_PROGRAM))
                       \<and> acc_at keys ix 4 = Inr (find_ata sdk signer m2 (pk sdk TOKEN_PROGRAM)))))"

lemma check_ix_shape:
  assumes "check_ix sdk policy keys signer own ix = Inr n" "inj_on (pk sdk) program_ids"
    and own: "own \<subseteq> {find_ata sdk signer mint (pk sdk TOKEN_PROGRAM) | mint. True}"
  shows "allowed_shape sdk policy keys signer ix"
proof -
  obtain program where prog: "key_at keys (program_id_index ix) = Inr program"
    using assms(1) by (auto simp: check_ix_def and_then_eq_Inr)
  have names: "pk sdk ` program_ids = {pk sdk SYSTEM_PROGRAM, pk sdk COMPUTE_BUDGET_PROGRAM,
      pk sdk TOKEN_PROGRAM, pk sdk ATA_PROGRAM} \<union> pk sdk ` set CLMM_PROGRAMS"
    by (auto simp: program_ids_def)
  then have mem: "program \<in> pk sdk ` program_ids"
    using assms(1) prog by (auto simp: check_ix_def split: if_splits)
  have tok: "check_token keys signer own ix = Inr ()" if "program = pk sdk TOKEN_PROGRAM"
  proof -
    have "pk sdk TOKEN_PROGRAM \<notin> {pk sdk SYSTEM_PROGRAM, pk sdk COMPUTE_BUDGET_PROGRAM, pk sdk ATA_PROGRAM}"
      using assms(2) by (auto simp: inj_on_eq_iff program_ids_def program_names)
    then show ?thesis using that assms(1) prog by (auto simp: check_ix_def and_then_eq_Inr)
  qed
  have clmm: "check_clmm keys signer own ix = Inr ()" if "program \<in> pk sdk ` set CLMM_PROGRAMS"
  proof -
    have "pk sdk c \<notin> {pk sdk SYSTEM_PROGRAM, pk sdk COMPUTE_BUDGET_PROGRAM, pk sdk ATA_PROGRAM,
        pk sdk TOKEN_PROGRAM}" if "c \<in> set CLMM_PROGRAMS" for c
      using assms(2) that by (auto simp: inj_on_eq_iff program_ids_def program_names)
    then show ?thesis using that assms(1) prog by (auto simp: check_ix_def and_then_eq_Inr)
  qed
  have ownD: "\<exists>m. a = find_ata sdk signer m (pk sdk TOKEN_PROGRAM)" if "a \<in> own" for a
    using own that by blast
  have token_shape: "ix_data ix = [17]
      \<or> ix_data ix = [9] \<and> acc_at keys ix 1 = Inr signer \<and> acc_at keys ix 2 = Inr signer"
    if "program = pk sdk TOKEN_PROGRAM"
    using tok [OF that] by (auto simp: check_token_def and_then_eq_Inr split: if_splits)
  have clmm_shape: "take 8 (ix_data ix) = CLMM_SWAP_DISCRIMINATOR \<and> acc_at keys ix 0 = Inr signer
      \<and> (\<exists>m1 m2. acc_at keys ix 3 = Inr (find_ata sdk signer m1 (pk sdk TOKEN_PROGRAM))
                \<and> acc_at keys ix 4 = Inr (find_ata sdk signer m2 (pk sdk TOKEN_PROGRAM)))"
    if "program \<in> pk sdk ` set CLMM_PROGRAMS"
  proof -
    note swap = clmm [OF that]
    obtain a b where ab: "acc_at keys ix 3 = Inr a" "a \<in> own" "acc_at keys ix 4 = Inr b" "b \<in> own"
      and rest: "take 8 (ix_data ix) = CLMM_SWAP_DISCRIMINATOR" "acc_at keys ix 0 = Inr signer"
      using swap by (auto simp: check_clmm_def and_then_eq_Inr get_range_Some split: if_splits)
    from ownD [OF ab(2)] ownD [OF ab(4)] ab(1,3) rest show ?thesis by auto
  qed
  show ?thesis
    unfolding allowed_shape_def
    by (rule exI [of _ program], intro conjI impI, rule prog, rule mem, erule token_shape)
       (drule clmm_shape, simp)+
qed

lemma check_ixs_all:
  "check_ixs sdk policy keys signer own ixs m = Inr m' \<Longrightarrow>
     \<forall>ix \<in> set ixs. \<exists>n. check_ix sdk policy keys signer own ix = Inr n"
  by (induction ixs arbitrary: m) (auto simp: and_then_eq_Inr)

text \<open>
  Every message the policy accepts is paid and signed by the HSM key alone, and each instruction is of an allowed
  program: a token instruction is SyncNative or a CloseAccount back to the signer (no transfer, approval or
  authority change), a CLMM instruction is a swap paid by the signer between two of its associated token
  accounts.
\<close>

theorem accepted_message_shape:
  assumes "policy_check sdk msg signer policy = Inr ()" "inj_on (pk sdk) program_ids"
  shows "get_at 0 (account_keys msg) = Some signer \<and> num_required_signatures msg = 1
       \<and> (\<forall>ix \<in> set (instructions msg). allowed_shape sdk policy (account_keys msg) signer ix)"
proof -
  obtain own m where own: "own_ata_pass sdk (account_keys msg) signer (instructions msg) {} = Inr own"
    and ixs: "check_ixs sdk policy (account_keys msg) signer own (instructions msg) 0 = Inr m"
    and head: "get_at 0 (account_keys msg) = Some signer" "num_required_signatures msg = 1"
    using assms(1) by (auto simp: policy_check_def and_then_eq_Inr Let_def)
  have "own \<subseteq> {find_ata sdk signer mint (pk sdk TOKEN_PROGRAM) | mint. True}"
    using own_ata_pass_own [OF own] by simp
  with check_ixs_all [OF ixs] check_ix_shape [OF _ assms(2)] head show ?thesis by blast
qed

theorem accepted_message_shape_witness:
  "list_all (allowed_shape example_sdk default_policy (account_keys example_msg) ''me'') (instructions example_msg)"
  unfolding list_all_iff using accepted_message_shape [OF example_accepted example_inj] by blast

end
