(* ===== verification/Hsm_Server.thy ===== *)
theory Hsm_Server
  imports Hsm_Policy
begin

text \<open>
  \<open>tools/hsm_server/main.rs\<close>: the key at start-up, the signing of one request, the answer of the
  \<open>/sign\<close> handler with its audit record, and the command line.  Base64, bincode, the Ed25519 key pair
  and its signature are parameters; the server is its routes over a counter and an audit file, and TLS is outside.
\<close>

record ('kp, 'k) signer_sdk =
  b64_decode :: "string \<Rightarrow> bytes option"
  b64_encode :: "bytes \<Rightarrow> string"
  keypair_of :: "bytes \<Rightarrow> 'kp option"
  pubkey_of :: "'kp \<Rightarrow> 'k"
  sign_with :: "'kp \<Rightarrow> bytes \<Rightarrow> bytes"
  tx_message :: "bytes \<Rightarrow> 'k message option"  \<comment> \<open>bincode, then the message\<close>
  message_bytes :: "'k message \<Rightarrow> bytes"

datatype key_error = KeyMissing | KeyInvalid

definition parse_key :: "('kp, 'k) signer_sdk \<Rightarrow> string \<Rightarrow> 'kp option" where
  "parse_key ssdk key_b64 =
     do { b \<leftarrow> b64_decode ssdk (trim key_b64);
          if length b = 64 then keypair_of ssdk b else None }"

definition signer_from_env_value :: "('kp, 'k) signer_sdk \<Rightarrow> string option \<Rightarrow> key_error + 'kp" where
  "signer_from_env_value ssdk var =
     and_then (ok_or KeyMissing (case var of None \<Rightarrow> None | Some v \<Rightarrow> if trim v = [] then None else Some v)) (\<lambda>v.
     ok_or KeyInvalid (parse_key ssdk v))"

datatype sign_error = InvalidBase64 | InvalidBincode | PolicyError policy_error

definition sign_tx_result ::
    "('kp, 'k) signer_sdk \<Rightarrow> 'k sdk \<Rightarrow> string \<Rightarrow> 'kp \<Rightarrow> 'k policy \<Rightarrow> sign_error + string" where
  "sign_tx_result ssdk sdk tx_b64 kp policy =
     and_then (ok_or InvalidBase64 (b64_decode ssdk tx_b64)) (\<lambda>b.
     and_then (ok_or InvalidBincode (tx_message ssdk b)) (\<lambda>msg.
     case policy_check sdk msg (pubkey_of ssdk kp) policy of
       Inl e \<Rightarrow> Inl (PolicyError e)
     | Inr _ \<Rightarrow> Inr (b64_encode ssdk (sign_with ssdk kp (message_bytes ssdk msg)))))"

record audit_line =
  al_time :: u128
  al_request :: string
  al_signature :: string
  al_status :: string
  al_error :: "sign_error option"

definition build_audit_line ::
    "u128 \<Rightarrow> string \<Rightarrow> string \<Rightarrow> string \<Rightarrow> sign_error option \<Rightarrow> audit_line" where
  "build_audit_line now rid sig status err =
     \<lparr> al_time = now, al_request = rid, al_signature = sig, al_status = status, al_error = err \<rparr>"

text \<open>One \<open>POST /sign\<close>: the HTTP status, the signature of the reply and the audit line.\<close>

definition sign_handler ::
    "('kp, 'k) signer_sdk \<Rightarrow> 'k sdk \<Rightarrow> 'kp \<Rightarrow> 'k policy \<Rightarrow> u128 \<Rightarrow> string \<Rightarrow> string
       \<Rightarrow> nat \<times> string \<times> audit_line" where
  "sign_handler ssdk sdk kp policy now rid tx_b64 =
     (let fallback = b64_encode ssdk (replicate 64 0);
          (signature, status, err) =
            (case sign_tx_result ssdk sdk tx_b64 kp policy of
               Inr sig \<Rightarrow> (sig, ''signed'', None)
             | Inl e \<Rightarrow> (fallback, ''failed'', Some e));
          code = (if err \<noteq> None then 400 else 200)
      in (code, signature, build_audit_line now rid signature status err))"

datatype args_error = UnknownArgument string

fun parse_args_loop ::
    "string list \<Rightarrow> string \<Rightarrow> string option \<Rightarrow> args_error + (string \<times> string option)" where
  "parse_args_loop [] certs log = Inr (certs, log)"
| "parse_args_loop (a # rest) certs log =
     (if a = ''--certs''
      then (case rest of [] \<Rightarrow> Inr (certs, log) | d # rest' \<Rightarrow> parse_args_loop rest' d log)
      else if a = ''--log-file''
      then (case rest of [] \<Rightarrow> Inr (certs, log) | d # rest' \<Rightarrow> parse_args_loop rest' certs (Some d))
      else Inl (UnknownArgument a))"

definition parse_args_from :: "string list \<Rightarrow> args_error + (string \<times> string option)" where
  "parse_args_from args = parse_args_loop (drop 1 args) ''certs'' None"

section \<open>The server\<close>

text \<open>The counter of the process, and the audit file when one is open.\<close>

record server_state =
  hs_seq :: u64
  hs_audit :: "audit_line list option"

definition request_id :: "u128 \<Rightarrow> u64 \<Rightarrow> string" where
  "request_id now seq = decimal (unat now) @ ''-'' @ decimal (unat seq)"

text \<open>The file keeps what it held; a path that cannot be opened leaves the server without an audit file.\<close>

definition audit_new :: "string option \<Rightarrow> (string \<Rightarrow> audit_line list option) \<Rightarrow> audit_line list option" where
  "audit_new path file_at = Option.bind path file_at"

definition audit_log :: "bool \<Rightarrow> audit_line \<Rightarrow> audit_line list option \<Rightarrow> audit_line list option" where
  "audit_log wrote line file = map_option (\<lambda>lines. if wrote then lines @ [line] else lines) file"

record sign_request =
  sq_tx :: string
  sq_now :: u128        \<comment> \<open>of the audit line\<close>
  sq_id_now :: u128     \<comment> \<open>of the request identifier\<close>
  sq_wrote :: bool      \<comment> \<open>whether the line could be written\<close>

definition sign_route ::
    "('kp, 'k) signer_sdk \<Rightarrow> 'k sdk \<Rightarrow> 'kp \<Rightarrow> 'k policy \<Rightarrow> sign_request \<Rightarrow> server_state \<Rightarrow> (nat \<times> string) \<times> server_state" where
  "sign_route ssdk sdk kp policy q s =
     (case sign_handler ssdk sdk kp policy (sq_now q) (request_id (sq_id_now q) (hs_seq s)) (sq_tx q) of
        (code, sig, line) \<Rightarrow>
          ((code, sig), s\<lparr>hs_seq := hs_seq s + 1, hs_audit := audit_log (sq_wrote q) line (hs_audit s)\<rparr>))"

definition pubkey_route :: "('kp, 'k) signer_sdk \<Rightarrow> ('k \<Rightarrow> string) \<Rightarrow> 'kp \<Rightarrow> string" where
  "pubkey_route ssdk show_key kp = show_key (pubkey_of ssdk kp)"

fun serve ::
    "('kp, 'k) signer_sdk \<Rightarrow> 'k sdk \<Rightarrow> 'kp \<Rightarrow> 'k policy \<Rightarrow> sign_request list \<Rightarrow> server_state
       \<Rightarrow> (nat \<times> string) list \<times> server_state" where
  "serve ssdk sdk kp policy [] s = ([], s)"
| "serve ssdk sdk kp policy (q # qs) s =
     (case sign_route ssdk sdk kp policy q s of (r, s) \<Rightarrow>
        case serve ssdk sdk kp policy qs s of (rs, s) \<Rightarrow> (r # rs, s))"

text \<open>The start: the arguments, the key, the policy, the audit file and, last, the three files of mutual TLS.\<close>

datatype start_failure = BadArguments args_error | BadKey key_error | BadPolicy | NoCertificates

definition TLS_FILES :: "string list" where "TLS_FILES = [''server.pem'', ''server.key'', ''ca.pem'']"

definition hsm_start ::
    "('kp, 'k) signer_sdk \<Rightarrow> string list \<Rightarrow> string option \<Rightarrow> 'k policy option \<Rightarrow> (string \<Rightarrow> audit_line list option)
       \<Rightarrow> (string \<Rightarrow> string \<Rightarrow> bool) \<Rightarrow> start_failure + 'kp \<times> 'k policy \<times> server_state" where
  "hsm_start ssdk argv key_var policy file_at exists_in =
     (case parse_args_from argv of Inl e \<Rightarrow> Inl (BadArguments e) | Inr (certs, log) \<Rightarrow>
      case signer_from_env_value ssdk key_var of Inl e \<Rightarrow> Inl (BadKey e) | Inr kp \<Rightarrow>
      case policy of None \<Rightarrow> Inl BadPolicy | Some p \<Rightarrow>
      let s = \<lparr> hs_seq = 0, hs_audit = audit_new log file_at \<rparr>
      in if list_all (exists_in certs) TLS_FILES then Inr (kp, p, s) else Inl NoCertificates)"

section \<open>Properties\<close>

lemma sign_tx_result_ok:
  "sign_tx_result ssdk sdk tx kp policy = Inr sig \<longleftrightarrow>
     (\<exists>b msg. b64_decode ssdk tx = Some b \<and> tx_message ssdk b = Some msg
        \<and> policy_check sdk msg (pubkey_of ssdk kp) policy = Inr ()
        \<and> sig = b64_encode ssdk (sign_with ssdk kp (message_bytes ssdk msg)))"
proof (cases "b64_decode ssdk tx")
  case (Some b)
  show ?thesis
  proof (cases "tx_message ssdk b")
    case (Some msg)
    with \<open>b64_decode ssdk tx = Some b\<close> show ?thesis
      by (cases "policy_check sdk msg (pubkey_of ssdk kp) policy")
         (auto simp: sign_tx_result_def ok_or_def)
  qed (simp add: sign_tx_result_def ok_or_def Some)
qed (simp add: sign_tx_result_def ok_or_def)

lemma handler_200_iff:
  assumes "sign_handler ssdk sdk kp policy now rid tx = (code, sig, line)"
  shows "code = 200 \<longleftrightarrow> sign_tx_result ssdk sdk tx kp policy = Inr sig"
    and "code \<noteq> 200 \<Longrightarrow> code = 400 \<and> sig = b64_encode ssdk (replicate 64 0) \<and> al_error line \<noteq> None"
  using assms by (auto simp: sign_handler_def build_audit_line_def Let_def split: sum.splits prod.splits)

text \<open>
  C15. End to end, a signature of the server is worth at most the cap: a reply other than 400 with the all-zero placeholder and
  a recorded error carries a signature over a message whose System transfers, once executed, take at most
  \<open>max_transfer_lamports\<close> from the wallet and touch only approved accounts.
\<close>

theorem signed_reply_bounded:
  assumes "sign_handler ssdk sdk kp policy now rid tx = (code, sig, line)" "inj_on (pk sdk) program_ids"
    and "max_transfer_lamports policy \<noteq> u64_max"
  shows "code = 400 \<and> sig = b64_encode ssdk (replicate 64 0) \<and> al_error line \<noteq> None
       \<or> code = 200 \<and> (\<exists>msg. sig = b64_encode ssdk (sign_with ssdk kp (message_bytes ssdk msg))
            \<and> get_at 0 (account_keys msg) = Some (pubkey_of ssdk kp)
            \<and> (\<forall>bal. let bal' = run_transfers sdk (account_keys msg) (instructions msg) bal in
                  bal (pubkey_of ssdk kp) - bal' (pubkey_of ssdk kp)
                      \<le> int (unat (max_transfer_lamports policy))
                  \<and> (\<forall>k. bal' k \<noteq> bal k
                         \<longrightarrow> k = pubkey_of ssdk kp \<or> k \<in> approved sdk policy (pubkey_of ssdk kp))))"
proof (cases "code = 200")
  case True
  then obtain msg where msg: "policy_check sdk msg (pubkey_of ssdk kp) policy = Inr ()"
    "sig = b64_encode ssdk (sign_with ssdk kp (message_bytes ssdk msg))"
    using handler_200_iff(1) [OF assms(1)] sign_tx_result_ok by metis
  have "get_at 0 (account_keys msg) = Some (pubkey_of ssdk kp)"
    using msg(1) by (auto simp: policy_check_def and_then_eq_Inr Let_def)
  with True msg policy_check_bounds [OF msg(1) assms(2,3)] show ?thesis
    by (auto simp: Let_def)
qed (use handler_200_iff(2) [OF assms(1)] in blast)

definition example_ssdk :: "(string, string) signer_sdk" where
  "example_ssdk = \<lparr> b64_decode = (\<lambda>s. Some []), b64_encode = map (\<lambda>b. char_of (unat b)), keypair_of = (\<lambda>b. Some ''key''),
     pubkey_of = (\<lambda>kp. ''me''), sign_with = (\<lambda>kp b. [7]), tx_message = (\<lambda>b. Some example_msg),
     message_bytes = (\<lambda>m. []) \<rparr>"

theorem signed_reply_bounded_witness:
  "\<exists>sig line. sign_handler example_ssdk example_sdk ''key'' default_policy 0 ''id'' ''tx'' = (200, sig, line)
     \<and> (\<exists>msg. get_at 0 (account_keys msg) = Some ''me''
          \<and> sig = b64_encode example_ssdk (sign_with example_ssdk ''key'' (message_bytes example_ssdk msg)))"
proof -
  have "sign_tx_result example_ssdk example_sdk ''tx'' ''key'' default_policy = Inr (map (\<lambda>b. char_of (unat b)) [7 :: u8])"
    using example_accepted by (simp add: sign_tx_result_def example_ssdk_def ok_or_def)
  then obtain line where h: "sign_handler example_ssdk example_sdk ''key'' default_policy 0 ''id'' ''tx''
      = (200, map (\<lambda>b. char_of (unat b)) [7 :: u8], line)"
    by (simp add: sign_handler_def Let_def)
  have cap: "max_transfer_lamports default_policy \<noteq> u64_max"
    by (simp add: default_policy_def word_unat_eq_iff unat_max_word)
  from signed_reply_bounded [OF h example_inj cap] h show ?thesis
    by (auto simp: example_ssdk_def)
qed

lemma no_key_no_start: "is_ok (signer_from_env_value ssdk var) \<Longrightarrow> \<exists>v b. var = Some v \<and> trim v \<noteq> []
    \<and> b64_decode ssdk (trim v) = Some b \<and> length b = 64"
  by (auto simp: signer_from_env_value_def parse_key_def is_ok_def and_then_def ok_or_def
      split: option.splits sum.splits if_splits bind_splits)

lemma unknown_argument_refused:
  "a \<notin> {''--certs'', ''--log-file''} \<Longrightarrow> parse_args_from [p, a] = Inl (UnknownArgument a)"
  by (auto simp: parse_args_from_def)

text \<open>The server serves nothing without its key, its policy and mutual TLS.\<close>

lemma start_guarded:
  "hsm_start ssdk argv key_var policy file_at exists_in = Inr (kp, p, s) \<Longrightarrow>
     \<exists>certs log. parse_args_from argv = Inr (certs, log) \<and> signer_from_env_value ssdk key_var = Inr kp \<and> policy = Some p
       \<and> exists_in certs ''server.pem'' \<and> exists_in certs ''server.key'' \<and> exists_in certs ''ca.pem''"
  by (auto simp: hsm_start_def TLS_FILES_def Let_def split: sum.splits option.splits if_splits prod.splits)

text \<open>The audit file keeps its lines and gains, in the order of the requests, the line of every reply that could be written.\<close>

lemma serve_audits:
  assumes "serve ssdk sdk kp policy qs s = (rs, s')" "hs_audit s = Some old"
  shows "\<exists>lines. hs_audit s' = Some (old @ lines) \<and> length rs = length qs
    \<and> list_all2 (\<lambda>(q, code, sig) line. al_signature line = sig \<and> al_time line = sq_now q
        \<and> al_status line = (if code = 200 then ''signed'' else ''failed'') \<and> (al_error line = None) = (code = 200))
        (filter (\<lambda>(q, r). sq_wrote q) (zip qs rs)) lines"
  using assms
proof (induction qs arbitrary: s rs old)
  case (Cons q qs)
  obtain code sig line where h: "sign_handler ssdk sdk kp policy (sq_now q) (request_id (sq_id_now q) (hs_seq s)) (sq_tx q)
      = (code, sig, line)" by (cases "sign_handler ssdk sdk kp policy (sq_now q) (request_id (sq_id_now q) (hs_seq s)) (sq_tx q)")
  let ?s1 = "s\<lparr>hs_seq := hs_seq s + 1, hs_audit := audit_log (sq_wrote q) line (hs_audit s)\<rparr>"
  obtain rs1 where rs: "rs = (code, sig) # rs1" "serve ssdk sdk kp policy qs ?s1 = (rs1, s')"
    using Cons.prems(1) h by (auto simp: sign_route_def split: prod.splits)
  have line: "al_signature line = sig \<and> al_time line = sq_now q
      \<and> al_status line = (if code = 200 then ''signed'' else ''failed'') \<and> (al_error line = None) = (code = 200)"
    using h by (auto simp: sign_handler_def build_audit_line_def Let_def split: sum.splits)
  have "hs_audit ?s1 = Some (if sq_wrote q then old @ [line] else old)" using Cons.prems(2) by (simp add: audit_log_def)
  from Cons.IH [OF rs(2) this] show ?case using line rs(1) by (auto split: if_splits)
qed simp

end
