(* ===== verification/Md_Event.thy ===== *)
theory Md_Event
  imports Prelude
begin

text \<open>
  \<open>crates/hft-marketdata/src/event.rs\<close> and \<open>source.rs\<close>: the normalised market event with its latency and
  staleness, the ordered wrapper, the polling interface of a source and the simulated source.  The locale
  \<open>finite_source\<close> is what the pipeline relies on: every event polled leaves fewer events to come.
\<close>

section \<open>Events\<close>

datatype market_event_kind =
    SlotProgress u64
  | AccountUpdate u64 bytes
  | TransactionUpdate u64 string
  | OrderBookSnapshot u64
  | TradeEvent u64
  | SystemEvent u32 string

fun kind_slot :: "market_event_kind \<Rightarrow> u64 option" where
  "kind_slot (SlotProgress s) = Some s"
| "kind_slot (AccountUpdate s _) = Some s"
| "kind_slot (TransactionUpdate s _) = Some s"
| "kind_slot (OrderBookSnapshot s) = Some s"
| "kind_slot (TradeEvent s) = Some s"
| "kind_slot (SystemEvent _ _) = None"

record market_event =
  market_id :: u64
  ev_slot :: u64
  ev_seq :: u64
  publish_ts_ns :: u64
  ingest_ts_ns :: u64
  ev_kind :: market_event_kind

definition latency_ns :: "market_event \<Rightarrow> u64" where
  "latency_ns e = sat_sub (ingest_ts_ns e) (publish_ts_ns e)"

definition event_is_stale :: "market_event \<Rightarrow> u64 \<Rightarrow> bool" where
  "event_is_stale e max_age = (max_age < latency_ns e)"

record ordered_event =
  oe_event :: market_event
  order_key :: u64

definition ordered_cmp :: "ordered_event \<Rightarrow> ordered_event \<Rightarrow> bool" where
  "ordered_cmp a b = (order_key a \<le> order_key b)"

lemma ordered_cmp_total_preorder:
  "ordered_cmp a a" "ordered_cmp a b \<Longrightarrow> ordered_cmp b c \<Longrightarrow> ordered_cmp a c" "ordered_cmp a b \<or> ordered_cmp b a"
  by (auto simp: ordered_cmp_def)

lemma event_is_stale_iff:
  "event_is_stale e m \<longleftrightarrow> unat (publish_ts_ns e) + unat m < unat (ingest_ts_ns e)"
  by (auto simp: event_is_stale_def latency_ns_def word_less_nat_alt unat_sat_sub)

section \<open>Sources\<close>

datatype source_poll = Idle | Polled market_event | Closed

locale finite_source =
  fixes poll :: "'s \<Rightarrow> source_poll \<times> 's"
    and remaining :: "'s \<Rightarrow> nat"
  assumes poll_event: "poll s = (Polled e, s') \<Longrightarrow> remaining s' < remaining s"
    and poll_never_idle: "fst (poll s) \<noteq> Idle"

record simulated_source =
  ss_events :: "market_event list"  \<comment> \<open>reversed: the next event is the last one\<close>
  ss_closed :: bool

definition simulated_new :: "market_event list \<Rightarrow> simulated_source" where
  "simulated_new events = \<lparr> ss_events = rev events, ss_closed = False \<rparr>"

definition simulated_push :: "market_event \<Rightarrow> simulated_source \<Rightarrow> simulated_source" where
  "simulated_push e s = s\<lparr>ss_events := e # ss_events s\<rparr>"

definition simulated_remaining :: "simulated_source \<Rightarrow> nat" where
  "simulated_remaining s = length (ss_events s)"

definition simulated_poll :: "simulated_source \<Rightarrow> source_poll \<times> simulated_source" where
  "simulated_poll s =
     (if ss_closed s then (Closed, s)
      else if ss_events s = [] then (Closed, s\<lparr>ss_closed := True\<rparr>)
      else (Polled (last (ss_events s)), s\<lparr>ss_events := butlast (ss_events s)\<rparr>))"

text \<open>\<open>utils::drain_source\<close>, with fuel for the loop over \<open>poll\<close>.\<close>

fun drain_source ::
    "nat \<Rightarrow> ('s \<Rightarrow> source_poll \<times> 's) \<Rightarrow> 's \<Rightarrow> market_event list \<Rightarrow> (market_event list \<times> 's) option" where
  "drain_source 0 poll s acc = None"
| "drain_source (Suc n) poll s acc =
     (case poll s of
        (Polled e, s') \<Rightarrow> drain_source n poll s' (acc @ [e])
      | (Idle, s') \<Rightarrow> drain_source n poll s' acc
      | (Closed, s') \<Rightarrow> Some (acc, s'))"

context finite_source
begin

lemma drain_returns: "remaining s < n \<Longrightarrow> \<exists>es s'. drain_source n poll s acc = Some (acc @ es, s')"
proof (induction n arbitrary: s acc)
  case (Suc n)
  show ?case
  proof (cases "poll s")
    case (Pair p s')
    show ?thesis
    proof (cases p)
      case (Polled e)
      then have "remaining s' < n" using poll_event [of s e s'] Pair Suc.prems by simp
      from Suc.IH [OF this, of "acc @ [e]"] show ?thesis using Pair Polled by auto
    qed (use Pair poll_never_idle [of s] in auto)
  qed
qed simp

end

interpretation sim: finite_source simulated_poll simulated_remaining
proof (unfold_locales, goal_cases)
  case (1 s e s')
  then show ?case
    by (cases "ss_events s" rule: rev_cases)
       (auto simp: simulated_poll_def simulated_remaining_def split: if_splits)
qed (simp add: simulated_poll_def)

lemma simulated_poll_new:
  "simulated_poll (simulated_new (e # es)) = (Polled e, simulated_new es)"
  "simulated_poll (simulated_new []) = (Closed, (simulated_new [])\<lparr>ss_closed := True\<rparr>)"
  by (simp_all add: simulated_poll_def simulated_new_def)

lemma drain_simulated:
  "length es < n \<Longrightarrow> drain_source n simulated_poll (simulated_new es) acc
     = Some (acc @ es, (simulated_new [])\<lparr>ss_closed := True\<rparr>)"
proof (induction n arbitrary: es acc)
  case (Suc n)
  then show ?case by (cases es) (simp_all add: simulated_poll_new)
qed simp

end
