(* ===== verification/Dedup.thy ===== *)
theory Dedup
  imports Md_Event
begin

text \<open>
  \<open>crates/hft-marketdata/src/dedup.rs\<close>: the deduplicator, a map from market to the last accepted slot
  and sequence number.  The pair is ordered lexicographically (an instance of \<open>linorder\<close>); an event is new
  exactly when its pair is above the one of its market, so the accepted events of a market strictly increase.
\<close>

datatype market_state = MarketState (last_slot: u64) (last_seq: u64)

instantiation market_state :: linorder
begin

definition less_eq_market_state :: "market_state \<Rightarrow> market_state \<Rightarrow> bool" where
  "a \<le> b \<longleftrightarrow> last_slot a < last_slot b \<or> last_slot a = last_slot b \<and> last_seq a \<le> last_seq b"

definition less_market_state :: "market_state \<Rightarrow> market_state \<Rightarrow> bool" where
  "a < b \<longleftrightarrow> last_slot a < last_slot b \<or> last_slot a = last_slot b \<and> last_seq a < last_seq b"

instance
  by standard (auto simp: less_eq_market_state_def less_market_state_def market_state.expand)

end

record deduplicator =
  dd_state :: "u64 \<rightharpoonup> market_state"
  filtered_count :: u64

definition dedup_new :: deduplicator where
  "dedup_new = \<lparr> dd_state = Map.empty, filtered_count = 0 \<rparr>"

definition is_new :: "market_event \<Rightarrow> deduplicator \<Rightarrow> bool \<times> deduplicator" where
  "is_new e d =
     (let key = market_id e; st = MarketState (ev_slot e) (ev_seq e) in
      case dd_state d key of
        Some m \<Rightarrow>
          if last_slot m < ev_slot e then (True, d\<lparr>dd_state := (dd_state d)(key \<mapsto> st)\<rparr>)
          else if ev_slot e = last_slot m \<and> last_seq m < ev_seq e
          then (True, d\<lparr>dd_state := (dd_state d)(key \<mapsto> st)\<rparr>)
          else (False, d\<lparr>filtered_count := filtered_count d + 1\<rparr>)
      | None \<Rightarrow> (True, d\<lparr>dd_state := (dd_state d)(key \<mapsto> st)\<rparr>))"

definition is_new_with_force :: "market_event \<Rightarrow> bool \<Rightarrow> deduplicator \<Rightarrow> bool \<times> deduplicator" where
  "is_new_with_force e force d =
     (if force
      then (True, d\<lparr>dd_state := (dd_state d)(market_id e \<mapsto> MarketState (ev_slot e) (ev_seq e))\<rparr>)
      else is_new e d)"

definition reset_market :: "u64 \<Rightarrow> deduplicator \<Rightarrow> deduplicator" where
  "reset_market m d = d\<lparr>dd_state := (dd_state d)(m := None)\<rparr>"

definition reset_all :: "deduplicator \<Rightarrow> deduplicator" where
  "reset_all d = \<lparr> dd_state = Map.empty, filtered_count = 0 \<rparr>"

section \<open>Accepted events\<close>

definition event_key :: "market_event \<Rightarrow> market_state" where
  "event_key e = MarketState (ev_slot e) (ev_seq e)"

definition fresh :: "market_event \<Rightarrow> deduplicator \<Rightarrow> bool" where
  "fresh e d \<longleftrightarrow> (case dd_state d (market_id e) of None \<Rightarrow> True | Some m \<Rightarrow> m < event_key e)"

lemma is_new_eq:
  "is_new e d =
     (if fresh e d then (True, d\<lparr>dd_state := (dd_state d)(market_id e \<mapsto> event_key e)\<rparr>)
      else (False, d\<lparr>filtered_count := filtered_count d + 1\<rparr>))"
  by (auto simp: is_new_def fresh_def event_key_def less_market_state_def Let_def split: option.split)

text \<open>The events a sequence of calls of \<open>is_new\<close> accepts.\<close>

fun accepted :: "market_event list \<Rightarrow> deduplicator \<Rightarrow> market_event list" where
  "accepted [] d = []"
| "accepted (e # es) d =
     (let (new, d') = is_new e d in (if new then e # accepted es d' else accepted es d'))"

lemma accepted_above:
  "dd_state d m = Some k \<Longrightarrow> \<forall>e \<in> set (accepted es d). market_id e = m \<longrightarrow> k < event_key e"
proof (induction es arbitrary: d k)
  case (Cons e es)
  show ?case
  proof (cases "fresh e d")
    case True
    let ?d = "d\<lparr>dd_state := (dd_state d)(market_id e \<mapsto> event_key e)\<rparr>"
    show ?thesis
    proof (cases "market_id e = m")
      case m: True
      with True Cons.prems have "k < event_key e" by (auto simp: fresh_def)
      moreover have "dd_state ?d m = Some (event_key e)" using m by simp
      from Cons.IH [OF this] have "\<forall>x \<in> set (accepted es ?d). market_id x = m \<longrightarrow> event_key e < event_key x" .
      ultimately show ?thesis using True m by (auto simp: is_new_eq)
    next
      case False
      then have "dd_state ?d m = Some k" using Cons.prems by simp
      from Cons.IH [OF this] show ?thesis using True False by (auto simp: is_new_eq)
    qed
  next
    case False
    have "dd_state (d\<lparr>filtered_count := filtered_count d + 1\<rparr>) m = Some k" using Cons.prems by simp
    from Cons.IH [OF this] show ?thesis using False by (simp add: is_new_eq)
  qed
qed simp

text \<open>
  The events of one market that the deduplicator accepts come in strictly increasing order of (slot, sequence number), from
  any starting state: no event is accepted twice and none after a later one of its market.
\<close>

theorem dedup_strictly_increasing:
  "sorted_wrt (<) (map event_key (filter (\<lambda>e. market_id e = m) (accepted es d)))"
proof (induction es arbitrary: d)
  case (Cons e es)
  let ?d = "d\<lparr>dd_state := (dd_state d)(market_id e \<mapsto> event_key e)\<rparr>"
  have "dd_state ?d (market_id e) = Some (event_key e)" by simp
  from accepted_above [OF this, of es] show ?case
    using Cons.IH by (auto simp: is_new_eq)
qed simp

lemma fresh_none: "dd_state d (market_id e) = None \<Longrightarrow> fresh e d"
  by (simp add: fresh_def)

lemma force_accepts: "fst (is_new_with_force e True d)"
  by (simp add: is_new_with_force_def)

lemma reset_market_accepts: "fst (is_new e (reset_market (market_id e) d))"
  by (simp add: is_new_eq fresh_def reset_market_def)

end
