(* ===== verification/Slot_Ring.thy ===== *)
theory Slot_Ring
  imports Md_Event "HOL-Library.Multiset"
begin

text \<open>
  \<open>crates/hft-marketdata/src/ring.rs\<close>: the slot ring buffer that reorders events.  The buffer is a list of
  options of length \<open>capacity\<close>; \<open>pop_ready\<close> is a loop of at most \<open>capacity\<close> rounds, a recursion on the rounds
  left.  The lemmas: the slots released by any sequence of pushes and pops strictly increase, an event that waits
  in a buffer without stale entries is released once the watermark reaches it, a release never comes from an
  empty buffer, and \<open>drain\<close> returns exactly what is left, sorted.
\<close>

record slot_ring =
  ring_slots :: "market_event option list"
  next_expected :: u64
  released :: u64

definition ring_capacity :: "slot_ring \<Rightarrow> nat" where
  "ring_capacity r = length (ring_slots r)"

text \<open>\<open>usize::next_power_of_two\<close>: the first power of two, from p on, that is at least n.\<close>

function pow2_from :: "nat \<Rightarrow> nat \<Rightarrow> nat" where
  "pow2_from p n = (if n \<le> p \<or> p = 0 then p else pow2_from (2 * p) n)"
  by auto
termination by (relation "measure (\<lambda>(p, n). n - p)") auto

declare pow2_from.simps [simp del]

definition ring_new :: "nat \<Rightarrow> slot_ring" where
  "ring_new capacity =
     \<lparr> ring_slots = replicate (pow2_from 1 (max capacity 2)) None, next_expected = 0, released = 0 \<rparr>"

definition ring_idx :: "slot_ring \<Rightarrow> u64 \<Rightarrow> nat" where
  "ring_idx r slot = unat slot mod ring_capacity r"

definition ring_push :: "market_event \<Rightarrow> slot_ring \<Rightarrow> slot_ring" where
  "ring_push e r =
     (if 0 < next_expected r \<and> ev_slot e + of_nat (ring_capacity r) \<le> next_expected r then r
      else r\<lparr>ring_slots := (ring_slots r)[ring_idx r (ev_slot e) := Some e]\<rparr>)"

fun pop_loop :: "nat \<Rightarrow> u64 \<Rightarrow> slot_ring \<Rightarrow> market_event option \<times> slot_ring" where
  "pop_loop 0 watermark r = (None, r)"
| "pop_loop (Suc n) watermark r =
     (if next_expected r \<le> watermark
      then let idx = ring_idx r (next_expected r) in
           case ring_slots r ! idx of
             Some e \<Rightarrow>
               let r' = r\<lparr>ring_slots := (ring_slots r)[idx := None]\<rparr> in
               if ev_slot e < next_expected r then pop_loop n watermark r'
               else (Some e, r'\<lparr>next_expected := max (next_expected r) (ev_slot e) + 1,
                               released := released r + 1\<rparr>)
           | None \<Rightarrow> pop_loop n watermark (r\<lparr>next_expected := next_expected r + 1\<rparr>)
      else (None, r))"

definition pop_ready :: "u64 \<Rightarrow> slot_ring \<Rightarrow> market_event option \<times> slot_ring" where
  "pop_ready watermark r = pop_loop (ring_capacity r) watermark r"

definition ring_drain :: "slot_ring \<Rightarrow> market_event list \<times> slot_ring" where
  "ring_drain r =
     (let es = map the (filter (\<lambda>x. x \<noteq> None) (ring_slots r))
      in (sort_key ev_slot es,
          r\<lparr>ring_slots := replicate (ring_capacity r) None, released := released r + of_nat (length es)\<rparr>))"

definition ring_reset :: "slot_ring \<Rightarrow> slot_ring" where
  "ring_reset r = \<lparr> ring_slots = replicate (ring_capacity r) None, next_expected = 0, released = 0 \<rparr>"

section \<open>Capacity\<close>

lemma pow2_from_power: "0 < p \<Longrightarrow> n \<le> pow2_from p n \<and> (\<exists>k. pow2_from p n = p * 2 ^ k)"
proof (induction p n rule: pow2_from.induct)
  case (1 p n)
  show ?case
  proof (cases "n \<le> p \<or> p = 0")
    case True
    then have "pow2_from p n = p * 2 ^ 0" by (subst pow2_from.simps) simp
    with True 1(2) show ?thesis by (metis mult_1_right neq0_conv power_0)
  next
    case False
    then obtain k where "n \<le> pow2_from (2 * p) n" "pow2_from (2 * p) n = 2 * p * 2 ^ k"
      using 1 by auto
    moreover have "pow2_from p n = pow2_from (2 * p) n" using False by (subst pow2_from.simps) simp
    ultimately show ?thesis by (metis mult.assoc mult.commute power_Suc)
  qed
qed

lemma ring_new_capacity: "capacity \<le> ring_capacity (ring_new capacity)" "2 \<le> ring_capacity (ring_new capacity)"
  "\<exists>k. ring_capacity (ring_new capacity) = 2 ^ k"
  using pow2_from_power [of 1 "max capacity 2"] by (auto simp: ring_capacity_def ring_new_def)

lemma pop_loop_capacity: "ring_capacity (snd (pop_loop n w r)) = ring_capacity r"
proof (induction n w r rule: pop_loop.induct)
  case (2 n w r)
  then show ?case
    by (cases "ring_slots r ! ring_idx r (next_expected r)")
       (auto simp: Let_def ring_capacity_def)
qed simp

lemma ring_capacity_ops [simp]:
  "ring_capacity (ring_push e r) = ring_capacity r"
  "ring_capacity (snd (pop_ready w r)) = ring_capacity r"
  "ring_capacity (snd (ring_drain r)) = ring_capacity r"
  "ring_capacity (ring_reset r) = ring_capacity r"
  by (simp_all add: ring_push_def pop_ready_def pop_loop_capacity ring_drain_def ring_reset_def Let_def)
     (simp_all add: ring_capacity_def)

section \<open>Release order\<close>

definition events_in :: "slot_ring \<Rightarrow> market_event set" where
  "events_in r = {e. Some e \<in> set (ring_slots r)}"

lemma events_in_clear:
  "events_in (r\<lparr>ring_slots := (ring_slots r)[i := None]\<rparr>) \<subseteq> events_in r"
  by (auto simp: events_in_def dest: set_update_subset_insert [THEN subsetD])

lemma events_in_push: "events_in (ring_push e r) \<subseteq> insert e (events_in r)"
  by (auto simp: events_in_def ring_push_def dest: set_update_subset_insert [THEN subsetD])

lemma word_inc:
  assumes "(x :: u64) < y"
  shows "unat (x + 1) = unat x + 1" "x < x + 1" "x + 1 \<le> y"
proof -
  have "unat x < unat y" using assms by (simp add: word_less_nat_alt)
  then show "unat (x + 1) = unat x + 1"
    using u64_le_max [of y] by (subst unat_add_small) simp_all
  then show "x < x + 1" "x + 1 \<le> y"
    using \<open>unat x < unat y\<close> by (simp_all add: word_less_nat_alt word_le_nat_alt)
qed

lemma le_max_less: "(w :: u64) \<noteq> u64_max \<Longrightarrow> w < u64_max"
  using word_order.not_eq_extremum by blast

definition slots_ok :: "slot_ring \<Rightarrow> bool" where
  "slots_ok r \<longleftrightarrow> (\<forall>e \<in> events_in r. ev_slot e \<noteq> u64_max)"

lemma pop_loop_spec:
  assumes "pop_loop n w r = (res, r')" "w \<noteq> u64_max" "slots_ok r" "0 < ring_capacity r"
  shows "next_expected r \<le> next_expected r' \<and> events_in r' \<subseteq> events_in r
       \<and> (\<forall>e. res = Some e \<longrightarrow> e \<in> events_in r \<and> next_expected r \<le> ev_slot e
                 \<and> next_expected r' = ev_slot e + 1 \<and> released r' = released r + 1)"
  using assms
proof (induction n w r rule: pop_loop.induct)
  case (2 n w r)
  let ?idx = "ring_idx r (next_expected r)"
  have idx: "?idx < length (ring_slots r)" using 2(6) by (simp add: ring_idx_def ring_capacity_def)
  show ?case
  proof (cases "next_expected r \<le> w")
    case le: True
    show ?thesis
    proof (cases "ring_slots r ! ?idx")
      case None
      let ?r = "r\<lparr>next_expected := next_expected r + 1\<rparr>"
      have "pop_loop n w ?r = (res, r')" using 2(3) le None by (simp add: Let_def)
      moreover have "slots_ok ?r" "0 < ring_capacity ?r" and ev: "events_in ?r = events_in r"
        using 2(5,6) by (simp_all add: slots_ok_def events_in_def ring_capacity_def)
      ultimately have "next_expected ?r \<le> next_expected r' \<and> events_in r' \<subseteq> events_in ?r
          \<and> (\<forall>e. res = Some e \<longrightarrow> e \<in> events_in ?r \<and> next_expected ?r \<le> ev_slot e
                \<and> next_expected r' = ev_slot e + 1 \<and> released r' = released ?r + 1)"
        using 2(1) [OF le refl None] 2(4) by blast
      moreover have "next_expected r < next_expected r + 1"
        using le le_max_less [OF 2(4)] by (intro word_inc(2)) (rule order.strict_trans1)
      ultimately show ?thesis using ev by fastforce
    next
      case (Some e)
      let ?r = "r\<lparr>ring_slots := (ring_slots r)[?idx := None]\<rparr>"
      have e: "e \<in> events_in r" using Some idx by (auto simp: events_in_def in_set_conv_nth)
      have ok: "slots_ok ?r" "0 < ring_capacity ?r"
        using 2(5,6) events_in_clear [of r ?idx] by (auto simp: slots_ok_def ring_capacity_def)
      show ?thesis
      proof (cases "ev_slot e < next_expected r")
        case True
        then have "pop_loop n w ?r = (res, r')" using 2(3) le Some by (simp add: Let_def)
        from 2(2) [OF le refl Some refl True this 2(4) ok] events_in_clear [of r ?idx]
        show ?thesis by auto
      next
        case False
        have "next_expected r < ev_slot e + 1"
          using False word_inc(2) [OF le_max_less, of "ev_slot e"] 2(5) e
          by (auto simp: slots_ok_def not_less intro: order.strict_trans1)
        moreover have "res = Some e" "r' = ?r\<lparr>next_expected := max (next_expected r) (ev_slot e) + 1,
            released := released r + 1\<rparr>"
          using 2(3) le Some False by (simp_all add: Let_def)
        moreover have "events_in (?r\<lparr>next_expected := x, released := y\<rparr>) = events_in ?r" for x y
          by (simp add: events_in_def)
        ultimately show ?thesis
          using False e events_in_clear [of r ?idx] by (auto simp: max_def not_less)
      qed
    qed
  qed (use 2(3) in auto)
qed auto

text \<open>One step of a client: a push, or a pop with the event it releases, if any.\<close>

inductive ring_step :: "slot_ring \<Rightarrow> market_event option \<Rightarrow> slot_ring \<Rightarrow> bool" where
  push: "ev_slot e \<noteq> u64_max \<Longrightarrow> ring_step r None (ring_push e r)"
| pop: "w \<noteq> u64_max \<Longrightarrow> pop_ready w r = (res, r') \<Longrightarrow> ring_step r res r'"

inductive ring_trace :: "slot_ring \<Rightarrow> market_event list \<Rightarrow> slot_ring \<Rightarrow> bool" where
  stop: "ring_trace r [] r"
| silent: "ring_step r None r' \<Longrightarrow> ring_trace r' es r'' \<Longrightarrow> ring_trace r es r''"
| release: "ring_step r (Some e) r' \<Longrightarrow> ring_trace r' es r'' \<Longrightarrow> ring_trace r (e # es) r''"

inductive_cases ring_release_cases: "ring_step r (Some e) r'"
inductive_cases ring_silent_cases: "ring_step r None r'"

definition ring_inv :: "slot_ring \<Rightarrow> bool" where
  "ring_inv r \<longleftrightarrow> slots_ok r \<and> 0 < ring_capacity r"

lemma ring_inv_new: "ring_inv (ring_new c)"
  using ring_new_capacity(2) [of c]
  by (auto simp: ring_inv_def slots_ok_def events_in_def ring_new_def)

lemma ring_step_inv:
  assumes "ring_step r res r'" "ring_inv r"
  shows "ring_inv r'" "next_expected r \<le> next_expected r'"
proof -
  have "ring_inv r' \<and> next_expected r \<le> next_expected r'"
    using assms
  proof (induction rule: ring_step.induct)
    case (push e r)
    have "next_expected (ring_push e r) = next_expected r" by (simp add: ring_push_def)
    with push events_in_push [of e r] show ?case by (auto simp: ring_inv_def slots_ok_def)
  next
    case (pop w r res r')
    have "ring_capacity r' = ring_capacity r" using pop(2) by (metis ring_capacity_ops(2) snd_conv)
    with pop pop_loop_spec [of "ring_capacity r" w r res r'] show ?case
      by (auto simp: ring_inv_def slots_ok_def pop_ready_def)
  qed
  then show "ring_inv r'" "next_expected r \<le> next_expected r'" by auto
qed

lemma ring_release:
  assumes "ring_step r (Some e) r'" "ring_inv r"
  shows "next_expected r \<le> ev_slot e" "next_expected r' = ev_slot e + 1" "ev_slot e < next_expected r'"
proof -
  obtain w where "w \<noteq> u64_max" "pop_ready w r = (Some e, r')"
    using assms(1) by (rule ring_release_cases)
  with assms(2) pop_loop_spec [of "ring_capacity r" w r "Some e" r']
  have *: "e \<in> events_in r" "next_expected r \<le> ev_slot e" "next_expected r' = ev_slot e + 1"
    by (auto simp: pop_ready_def ring_inv_def)
  then have "ev_slot e \<noteq> u64_max" using assms(2) by (auto simp: ring_inv_def slots_ok_def)
  with * word_inc(2) [OF le_max_less] show "next_expected r \<le> ev_slot e"
    "next_expected r' = ev_slot e + 1" "ev_slot e < next_expected r'" by auto
qed

lemma ring_trace_sorted:
  "ring_trace r es r' \<Longrightarrow> ring_inv r \<Longrightarrow>
     sorted_wrt (<) (map ev_slot es) \<and> (\<forall>e \<in> set es. next_expected r \<le> ev_slot e)"
proof (induction rule: ring_trace.induct)
  case (silent r r' es r'')
  with ring_step_inv [OF silent(1,4)] show ?case by force
next
  case (release r e r' es r'')
  note st = ring_step_inv [OF release(1,4)] ring_release [OF release(1,4)]
  have "\<forall>x \<in> set es. next_expected r' \<le> ev_slot x" "sorted_wrt (<) (map ev_slot es)"
    using release(3) [OF st(1)] by simp_all
  with st(3,4) st(5) show ?case by (auto intro: order.strict_trans2 order.trans less_imp_le)
qed simp

text \<open>
  C19. From a new ring, whatever the pushes, the watermarks and their interleaving (slots below \<open>u64::MAX\<close>), the slots of
  the events released strictly increase: no slot is released twice and none after a later one.
\<close>

theorem ring_releases_in_order:
  assumes "ring_trace (ring_new capacity) es r"
  shows "sorted_wrt (<) (map ev_slot es)"
  using ring_trace_sorted [OF assms ring_inv_new] by simp

definition slot_event :: "u64 \<Rightarrow> market_event" where
  "slot_event n = \<lparr> market_id = 1, ev_slot = n, ev_seq = 0, publish_ts_ns = 0, ingest_ts_ns = 0,
                    ev_kind = SlotProgress n \<rparr>"

lemma ring_new_2: "ring_new 2 = \<lparr> ring_slots = [None, None], next_expected = 0, released = 0 \<rparr>"
  by (simp add: ring_new_def pow2_from.simps numeral_2_eq_2)

lemma pop_loop_numeral:
  "pop_loop (numeral k) w r = pop_loop (Suc (pred_numeral k)) w r"
  "pop_loop 1 w r = pop_loop (Suc 0) w r"
  by (simp_all add: numeral_eq_Suc)

lemma ring_new_4: "ring_new 4 = \<lparr> ring_slots = [None, None, None, None], next_expected = 0, released = 0 \<rparr>"
  by (simp add: ring_new_def pow2_from.simps eval_nat_numeral)

theorem ring_releases_in_order_witness:
  "\<exists>r. ring_trace (ring_new 4) [slot_event 1, slot_event 2] r \<and> (1 :: u64) < 2"
proof -
  let ?push = "\<lambda>n. ring_push (slot_event n)"
  let ?r = "?push 1 (?push 2 (ring_new 4))"
  have pushes: "ring_step (ring_new 4) None (?push 2 (ring_new 4))" "ring_step (?push 2 (ring_new 4)) None ?r"
    by (rule ring_step.push, simp add: slot_event_def)+
  define r1 r2 where "r1 = snd (pop_ready 2 ?r)" and "r2 = snd (pop_ready 2 r1)"
  have p1: "pop_ready 2 ?r = (Some (slot_event 1), r1)"
    and r1: "r1 = \<lparr> ring_slots = [None, None, Some (slot_event 2), None], next_expected = 2, released = 1 \<rparr>"
    by (simp_all add: r1_def ring_new_4 ring_push_def pop_ready_def ring_capacity_def ring_idx_def
        slot_event_def pop_loop_numeral Let_def)
  have p2: "pop_ready 2 r1 = (Some (slot_event 2), r2)"
    by (simp add: r2_def r1 pop_ready_def ring_capacity_def ring_idx_def slot_event_def
        pop_loop_numeral Let_def)
  have "ring_trace (ring_new 4) [slot_event 1, slot_event 2] r2"
    by (rule silent [OF pushes(1)], rule silent [OF pushes(2)],
        rule release [OF ring_step.pop [OF _ p1]], simp,
        rule release [OF ring_step.pop [OF _ p2]], simp, rule stop)
  moreover from ring_releases_in_order [OF this] have "(1 :: u64) < 2" by (simp add: slot_event_def)
  ultimately show ?thesis by blast
qed

section \<open>Progress\<close>

definition waiting :: "slot_ring \<Rightarrow> u64 \<Rightarrow> market_event \<Rightarrow> bool" where
  "waiting r w e \<longleftrightarrow> ring_slots r ! ring_idx r (ev_slot e) = Some e \<and> next_expected r \<le> ev_slot e
     \<and> ev_slot e \<le> w"

definition placed :: "slot_ring \<Rightarrow> bool" where
  "placed r \<longleftrightarrow> (\<forall>i < ring_capacity r. \<forall>x. ring_slots r ! i = Some x \<longrightarrow> i = ring_idx r (ev_slot x))"

lemma placed_new: "placed (ring_new c)"
  by (simp add: placed_def ring_new_def ring_capacity_def)

lemma list_update_cases: "xs[k := v] ! i = Some x \<Longrightarrow> i < length xs \<Longrightarrow> i = k \<and> v = Some x \<or> xs ! i = Some x"
  by (cases "i = k") auto

lemma placed_push: "placed r \<Longrightarrow> placed (ring_push e r)"
  by (auto simp: placed_def ring_push_def ring_capacity_def ring_idx_def dest!: list_update_cases)

lemma placed_pop_loop: "placed r \<Longrightarrow> placed (snd (pop_loop n w r))"
proof (induction n w r rule: pop_loop.induct)
  case (2 n w r)
  let ?idx = "ring_idx r (next_expected r)"
  have clear: "placed (r\<lparr>ring_slots := (ring_slots r)[?idx := None], next_expected := x, released := y\<rparr>)" for x y
    using 2(3) by (auto simp: placed_def ring_capacity_def ring_idx_def dest!: list_update_cases)
  from clear [of "next_expected r" "released r"]
  have "placed (r\<lparr>ring_slots := (ring_slots r)[?idx := None]\<rparr>)"
    by (simp add: placed_def ring_capacity_def ring_idx_def)
  moreover have "placed (r\<lparr>next_expected := x\<rparr>)" for x
    using 2(3) by (simp add: placed_def ring_capacity_def ring_idx_def)
  ultimately show ?case
    using 2 clear by (cases "ring_slots r ! ?idx") (auto simp: Let_def)
qed simp

lemma placed_pop: "placed r \<Longrightarrow> placed (snd (pop_ready w r))"
  by (simp add: pop_ready_def placed_pop_loop)

lemma pop_loop_progress:
  assumes "waiting r w e" "\<forall>x \<in> events_in r. next_expected r \<le> ev_slot x" "placed r" "0 < ring_capacity r"
    and "unat (ev_slot e) < unat (next_expected r) + n"
  shows "fst (pop_loop n w r) \<noteq> None"
  using assms
proof (induction n w r rule: pop_loop.induct)
  case (1 w r)
  then show ?case by (auto simp: waiting_def word_le_nat_alt)
next
  case (2 n w r)
  let ?idx = "ring_idx r (next_expected r)"
  have le: "next_expected r \<le> w" using 2(3) by (auto simp: waiting_def)
  have idx: "?idx < length (ring_slots r)" using 2(6) by (simp add: ring_idx_def ring_capacity_def)
  show ?case
  proof (cases "ring_slots r ! ?idx")
    case None
    let ?r = "r\<lparr>next_expected := next_expected r + 1\<rparr>"
    have lt: "next_expected r < ev_slot x" if x: "x \<in> events_in r" for x
    proof -
      obtain j where j: "j < ring_capacity r" "ring_slots r ! j = Some x"
        using x unfolding events_in_def ring_capacity_def by (auto simp: in_set_conv_nth)
      then have "j = ring_idx r (ev_slot x)" using 2(5) by (auto simp: placed_def)
      with j None have "ev_slot x \<noteq> next_expected r" by auto
      with 2(4) x show ?thesis by force
    qed
    have "e \<in> events_in r"
    proof -
      have "ring_idx r (ev_slot e) < length (ring_slots r)"
        using 2(6) by (simp add: ring_idx_def ring_capacity_def)
      with 2(3) show ?thesis unfolding events_in_def waiting_def by (auto simp: in_set_conv_nth)
    qed
    note inc = word_inc [OF lt [OF this]]
    have "waiting ?r w e" using 2(3) inc(3) by (simp add: waiting_def ring_idx_def ring_capacity_def)
    moreover have "\<forall>x \<in> events_in ?r. next_expected ?r \<le> ev_slot x"
      using lt word_inc(3) by (auto simp: events_in_def)
    moreover have "placed ?r" "0 < ring_capacity ?r"
      using 2(5,6) by (simp_all add: placed_def ring_capacity_def ring_idx_def)
    moreover have "unat (ev_slot e) < unat (next_expected ?r) + n" using 2(7) inc(1) by simp
    ultimately have "fst (pop_loop n w ?r) \<noteq> None" by (rule 2(1) [OF le refl None])
    then show ?thesis using le None by (simp add: Let_def)
  next
    case (Some x)
    then have "x \<in> events_in r" using idx by (auto simp: events_in_def in_set_conv_nth)
    with 2(4) have "\<not> ev_slot x < next_expected r" by (simp add: not_less)
    then show ?thesis using le Some by (simp add: Let_def)
  qed
qed

text \<open>
  Progress: when a ring holds an event within its window (less than \<open>capacity\<close> slots after the next expected one) at or below the
  watermark, and no stale event, \<open>pop_ready\<close> releases an event.
\<close>

theorem ring_progress:
  assumes "waiting r w e" "placed r" "\<forall>x \<in> events_in r. next_expected r \<le> ev_slot x"
    and "unat (ev_slot e) < unat (next_expected r) + ring_capacity r"
  shows "fst (pop_ready w r) \<noteq> None"
proof (cases "ring_capacity r")
  case 0
  with assms(1,4) show ?thesis by (auto simp: waiting_def word_le_nat_alt)
qed (use pop_loop_progress [OF assms(1,3,2) _ assms(4)] in \<open>simp add: pop_ready_def\<close>)

theorem ring_progress_witness: "fst (pop_ready 1 (ring_push (slot_event 1) (ring_new 2))) \<noteq> None"
proof (rule ring_progress)
  have eq: "ring_push (slot_event 1) (ring_new 2)
      = \<lparr> ring_slots = [None, Some (slot_event 1)], next_expected = 0, released = 0 \<rparr>"
    by (simp add: ring_new_2 ring_push_def ring_idx_def ring_capacity_def slot_event_def)
  show "waiting (ring_push (slot_event 1) (ring_new 2)) 1 (slot_event 1)"
    unfolding eq by (simp add: waiting_def ring_idx_def ring_capacity_def slot_event_def)
  show "placed (ring_push (slot_event 1) (ring_new 2))" by (intro placed_push placed_new)
  show "\<forall>x \<in> events_in (ring_push (slot_event 1) (ring_new 2)).
      next_expected (ring_push (slot_event 1) (ring_new 2)) \<le> ev_slot x"
    unfolding eq by simp
  show "unat (ev_slot (slot_event 1)) < unat (next_expected (ring_push (slot_event 1) (ring_new 2)))
      + ring_capacity (ring_push (slot_event 1) (ring_new 2))"
    unfolding eq by (simp add: slot_event_def ring_capacity_def)
qed

section \<open>Draining\<close>

lemma drain_returns_the_rest:
  "mset (fst (ring_drain r)) = mset (map the (filter (\<lambda>x. x \<noteq> None) (ring_slots r)))"
  "sorted (map ev_slot (fst (ring_drain r)))" "events_in (snd (ring_drain r)) = {}"
  "set (fst (ring_drain r)) = events_in r"
proof -
  show "set (fst (ring_drain r)) = events_in r"
    by (force simp: ring_drain_def events_in_def Let_def image_iff)
qed (auto simp: ring_drain_def Let_def events_in_def)

end
