(* ===== verification/Latency.thy ===== *)
theory Latency
  imports Md_Event
begin

text \<open>
  \<open>crates/hft-marketdata/src/latency.rs\<close>: the latency monitor with its circular window of 1024 values.  The main
  result is a refinement: after any sequence of events the average is that of the last 1024 latencies of
  the sequence, while the minimum and maximum are those of the whole sequence (they are not windowed,
  against the header of the file).
\<close>

definition window_size :: nat where
  "window_size = 1024"

definition default_stale_threshold_ns :: u64 where
  "default_stale_threshold_ns = 1000000000"

record latency_monitor =
  lm_buffer :: "u64 list"
  lm_count :: nat
  lm_index :: nat
  lm_total :: u64
  lm_stale :: u64
  lm_min :: u64
  lm_max :: u64
  lm_sum :: u128
  lm_threshold :: u64

record latency_snapshot =
  min_ns :: u64
  max_ns :: u64
  avg_ns :: u64
  total_events :: u64
  stale_count :: u64

definition with_stale_threshold :: "u64 \<Rightarrow> latency_monitor" where
  "with_stale_threshold threshold =
     \<lparr> lm_buffer = replicate window_size 0, lm_count = 0, lm_index = 0, lm_total = 0, lm_stale = 0,
       lm_min = u64_max, lm_max = 0, lm_sum = 0, lm_threshold = threshold \<rparr>"

definition latency_new :: latency_monitor where
  "latency_new = with_stale_threshold default_stale_threshold_ns"

text \<open>\<open>with_config\<close> ignores its window size.\<close>

definition with_config :: "nat \<Rightarrow> u64 \<Rightarrow> latency_monitor" where
  "with_config window threshold = with_stale_threshold threshold"

definition observe :: "market_event \<Rightarrow> latency_monitor \<Rightarrow> latency_monitor" where
  "observe e m =
     (let latency = latency_ns e;
          total = lm_total m + 1;
          stale = (if lm_threshold m < latency then lm_stale m + 1 else lm_stale m);
          (count, sum) =
            (if lm_count m < window_size then (lm_count m + 1, lm_sum m)
             else (lm_count m, sat_sub (lm_sum m) (ucast (lm_buffer m ! lm_index m))))
      in m\<lparr>lm_total := total, lm_stale := stale, lm_count := count,
           lm_buffer := (lm_buffer m)[lm_index m := latency],
           lm_index := (lm_index m + 1) mod window_size,
           lm_sum := sum + ucast latency,
           lm_min := (if latency < lm_min m then latency else lm_min m),
           lm_max := (if lm_max m < latency then latency else lm_max m)\<rparr>)"

definition latency_is_stale :: "market_event \<Rightarrow> latency_monitor \<Rightarrow> bool" where
  "latency_is_stale e m = (lm_threshold m < latency_ns e)"

definition latency_snap :: "latency_monitor \<Rightarrow> latency_snapshot" where
  "latency_snap m =
     \<lparr> min_ns = (if lm_min m = u64_max then 0 else lm_min m), max_ns = lm_max m,
       avg_ns = (if 0 < lm_count m then ucast (lm_sum m div of_nat (lm_count m)) else 0),
       total_events = lm_total m, stale_count = lm_stale m \<rparr>"

definition set_stale_threshold :: "u64 \<Rightarrow> latency_monitor \<Rightarrow> latency_monitor" where
  "set_stale_threshold t m = m\<lparr>lm_threshold := t\<rparr>"

definition latency_reset :: "latency_monitor \<Rightarrow> latency_monitor" where
  "latency_reset m =
     m\<lparr>lm_buffer := replicate window_size 0, lm_count := 0, lm_index := 0, lm_total := 0,
       lm_stale := 0, lm_min := u64_max, lm_max := 0, lm_sum := 0\<rparr>"

section \<open>The window\<close>

text \<open>The specification: the last values of a list.\<close>

definition last_values :: "nat \<Rightarrow> 'a list \<Rightarrow> 'a list" where
  "last_values w xs = drop (length xs - w) xs"

definition nat_sum :: "u64 list \<Rightarrow> nat" where
  "nat_sum xs = sum_list (map unat xs)"

lemma window_pos: "0 < window_size" by (simp add: window_size_def)

lemma nat_sum_bound: "length xs \<le> n \<Longrightarrow> nat_sum xs \<le> n * (2 ^ 64 - 1)"
proof -
  assume n: "length xs \<le> n"
  have "nat_sum xs \<le> length xs * (2 ^ 64 - 1)"
  proof (induction xs)
    case (Cons x xs)
    then show ?case using u64_le_max [of x] by (simp add: nat_sum_def)
  qed (simp add: nat_sum_def)
  also have "\<dots> \<le> n * (2 ^ 64 - 1)" by (rule mult_le_mono1 [OF n])
  finally show ?thesis .
qed

definition window_inv :: "u64 list \<Rightarrow> latency_monitor \<Rightarrow> bool" where
  "window_inv ls m \<longleftrightarrow>
     length (lm_buffer m) = window_size \<and> lm_index m < window_size
     \<and> lm_count m = min (length ls) window_size
     \<and> (if length ls < window_size then lm_index m = length ls \<and> take (length ls) (lm_buffer m) = ls
        else drop (lm_index m) (lm_buffer m) @ take (lm_index m) (lm_buffer m) = last_values window_size ls)
     \<and> unat (lm_sum m) = nat_sum (last_values window_size ls)"

lemma last_values_snoc_short:
  "length ls < w \<Longrightarrow> last_values w (ls @ [x]) = last_values w ls @ [x] \<and> last_values w ls = ls"
  by (simp add: last_values_def)

lemma last_values_snoc_full:
  "0 < w \<Longrightarrow> w \<le> length ls \<Longrightarrow> last_values w (ls @ [x]) = tl (last_values w ls) @ [x]"
  by (simp add: last_values_def Suc_diff_le tl_drop drop_Suc)

lemma rotate_write:
  assumes "i < length b"
  shows "drop ((i + 1) mod length b) (b[i := x]) @ take ((i + 1) mod length b) (b[i := x])
           = tl (drop i b @ take i b) @ [x]"
proof -
  have tl: "tl (drop i b @ take i b) = drop (Suc i) b @ take i b"
    using assms by (simp add: Cons_nth_drop_Suc [symmetric])
  show ?thesis
  proof (cases "Suc i = length b")
    case True
    then have "b[i := x] = take i b @ [x]" using assms by (simp add: upd_conv_take_nth_drop)
    with True tl show ?thesis by simp
  next
    case False
    then have "Suc i mod length b = Suc i" using assms by simp
    with assms tl show ?thesis by (simp add: take_Suc_conv_app_nth)
  qed
qed

lemma rotate_head: "i < length b \<Longrightarrow> drop i b @ take i b = b ! i # tl (drop i b @ take i b)"
  by (simp add: Cons_nth_drop_Suc [symmetric])

lemma nat_sum_simps [simp]:
  "nat_sum [] = 0" "nat_sum (x # xs) = unat x + nat_sum xs" "nat_sum (xs @ ys) = nat_sum xs + nat_sum ys"
  by (simp_all add: nat_sum_def)

lemma last_values_length: "length (last_values w ls) = min (length ls) w"
  by (simp add: last_values_def)

lemma sum_fits:
  "nat_sum (last_values window_size ls) + unat (x :: u64) < 2 ^ 128"
proof -
  have "nat_sum (last_values window_size ls) \<le> window_size * (2 ^ 64 - 1)"
    by (rule nat_sum_bound) (simp add: last_values_length)
  then show ?thesis using u64_le_max [of x] by (simp add: window_size_def)
qed

lemma window_short:
  assumes "window_inv ls m" "length ls < window_size"
  shows "window_inv (ls @ [latency_ns e]) (observe e m)"
proof -
  let ?l = "latency_ns e"
  have buf: "length (lm_buffer m) = window_size" and idx: "lm_index m = length ls"
    and pre: "take (length ls) (lm_buffer m) = ls" and cnt: "lm_count m = length ls"
    and sm: "unat (lm_sum m) = nat_sum ls"
    using assms by (auto simp: window_inv_def last_values_def)
  note lv = last_values_snoc_short [OF assms(2), of ?l]
  have sum': "unat (lm_sum m + ucast ?l) = nat_sum (last_values window_size (ls @ [?l]))"
    using sum_fits [of ls ?l] lv sm by (simp add: unat_add_small)
  have wr: "take (Suc (length ls)) ((lm_buffer m)[length ls := ?l]) = ls @ [?l]"
    using buf assms(2) pre by (simp add: take_Suc_conv_app_nth)
  show ?thesis
  proof (cases "Suc (length ls) = window_size")
    case True
    then have "(lm_buffer m)[length ls := ?l] = ls @ [?l]" using wr buf by (metis length_list_update order_refl take_all)
    with True lv buf idx cnt sum' show ?thesis
      by (auto simp: window_inv_def observe_def Let_def window_pos)
  next
    case False
    with lv buf idx cnt sum' wr assms(2) show ?thesis
      by (auto simp: window_inv_def observe_def Let_def)
  qed
qed

lemma window_full:
  assumes "window_inv ls m" "window_size \<le> length ls"
  shows "window_inv (ls @ [latency_ns e]) (observe e m)"
proof -
  let ?l = "latency_ns e" and ?i = "lm_index m" and ?b = "lm_buffer m"
  let ?w = "last_values window_size ls"
  have buf: "length ?b = window_size" and idx: "?i < window_size" and cnt: "lm_count m = window_size"
    and rot: "drop ?i ?b @ take ?i ?b = ?w" and sm: "unat (lm_sum m) = nat_sum ?w"
    using assms by (auto simp: window_inv_def)
  have i: "?i < length ?b" using buf idx by simp
  have hd: "?w = ?b ! ?i # tl ?w" using rotate_head [OF i] rot by simp
  note lv = last_values_snoc_full [OF window_pos assms(2), of ?l]
  have rot': "drop ((?i + 1) mod window_size) (?b[?i := ?l]) @ take ((?i + 1) mod window_size) (?b[?i := ?l])
      = last_values window_size (ls @ [?l])"
    using rotate_write [OF i, of ?l] rot lv buf by simp
  have split: "nat_sum ?w = unat (?b ! ?i) + nat_sum (tl ?w)" by (subst hd) simp
  have sub: "unat (sat_sub (lm_sum m) (ucast (?b ! ?i))) = nat_sum (tl ?w)"
    using split sm by (simp add: unat_sat_sub)
  then have "unat (sat_sub (lm_sum m) (ucast (?b ! ?i)) + ucast ?l) = nat_sum (tl ?w) + unat ?l"
    using sum_fits [of ls ?l] split by (subst unat_add_small) simp_all
  with rot' lv buf idx cnt assms(2) show ?thesis
    by (auto simp: window_inv_def observe_def Let_def window_pos)
qed

lemma window_observe: "window_inv ls m \<Longrightarrow> window_inv (ls @ [latency_ns e]) (observe e m)"
  by (cases "length ls < window_size") (auto intro: window_short window_full simp: not_less)

lemma window_new: "window_inv [] (with_stale_threshold t)"
  by (simp add: window_inv_def with_stale_threshold_def window_pos last_values_def)

lemma window_fold: "window_inv ls m \<Longrightarrow> window_inv (ls @ map latency_ns es) (fold observe es m)"
proof (induction es arbitrary: ls m)
  case (Cons e es)
  from Cons.IH [OF window_observe [OF Cons.prems, of e]] show ?case by simp
qed simp

lemma extremes_fold:
  "lm_max (fold observe es m) = fold max (map latency_ns es) (lm_max m)
   \<and> lm_min (fold observe es m) = fold min (map latency_ns es) (lm_min m)"
proof (induction es arbitrary: m)
  case (Cons e es)
  have "lm_max (observe e m) = max (latency_ns e) (lm_max m)" "lm_min (observe e m) = min (latency_ns e) (lm_min m)"
    by (auto simp: observe_def Let_def max_def min_def split: prod.split)
  with Cons [of "observe e m"] show ?case by simp
qed simp

lemma average_eq:
  assumes "window_inv ls m" "ls \<noteq> []"
  shows "unat (avg_ns (latency_snap m)) = nat_sum (last_values window_size ls) div min (length ls) window_size"
proof -
  let ?c = "min (length ls) window_size" and ?s = "nat_sum (last_values window_size ls)"
  have c: "lm_count m = ?c" "0 < ?c" "?c \<le> 1024" and sm: "unat (lm_sum m) = ?s"
    using assms window_pos by (auto simp: window_inv_def window_size_def)
  have "unat (of_nat ?c :: u128) = ?c" using c(3) by (simp add: unsigned_of_nat take_bit_nat_eq_self_iff)
  then have q: "unat (lm_sum m div of_nat (lm_count m)) = ?s div ?c" using c sm by (simp add: unat_div_word)
  have "?s \<le> ?c * (2 ^ 64 - 1)" by (rule nat_sum_bound) (simp add: last_values_length)
  then have "?s div ?c \<le> 2 ^ 64 - 1" using c(2)
    by (metis div_le_mono nonzero_mult_div_cancel_left not_gr_zero)
  with q have "unat (ucast (lm_sum m div of_nat (lm_count m)) :: u64) = ?s div ?c"
    by (subst unat_u128_u64) simp_all
  with c show ?thesis by (simp add: latency_snap_def)
qed

text \<open>
  Refinement of the circular buffer: after observing any non-empty sequence of events, the reported average is the floor of the
  mean of the last 1024 latencies of the sequence (all of them when there are fewer), and the reported maximum is
  that of the whole sequence.
\<close>

theorem latency_window_average:
  assumes "es \<noteq> []"
  shows "let ls = map latency_ns es; snap = latency_snap (fold observe es (with_stale_threshold t)) in
         unat (avg_ns snap) = nat_sum (last_values 1024 ls) div min (length ls) 1024
         \<and> max_ns snap = fold max ls 0"
proof -
  have "window_inv (map latency_ns es) (fold observe es (with_stale_threshold t))"
    using window_fold [OF window_new, of es t] by simp
  from average_eq [OF this] assms extremes_fold [of es "with_stale_threshold t"] show ?thesis
    by (simp add: Let_def window_size_def latency_snap_def with_stale_threshold_def)
qed

lemma div_2_eq: "61 div Suc (Suc 0) = (30 :: nat)"
  by (simp flip: numeral_2_eq_2)

theorem latency_window_average_witness:
  "unat (avg_ns (latency_snap (fold observe
      [\<lparr> market_id = 1, ev_slot = 1, ev_seq = 0, publish_ts_ns = 10, ingest_ts_ns = 30, ev_kind = SlotProgress 1 \<rparr>,
       \<lparr> market_id = 1, ev_slot = 2, ev_seq = 0, publish_ts_ns = 10, ingest_ts_ns = 51, ev_kind = SlotProgress 2 \<rparr>]
      (with_stale_threshold 5)))) = 30"
  using latency_window_average [of "[\<lparr> market_id = 1, ev_slot = 1, ev_seq = 0, publish_ts_ns = 10,
      ingest_ts_ns = 30, ev_kind = SlotProgress 1 \<rparr>, \<lparr> market_id = 1, ev_slot = 2, ev_seq = 0,
      publish_ts_ns = 10, ingest_ts_ns = 51, ev_kind = SlotProgress 2 \<rparr>]" 5]
    div_2_eq
  by (simp add: Let_def last_values_def latency_ns_def sat_sub_def)

end
