(* ===== verification/Md_Pipeline.thy ===== *)
theory Md_Pipeline
  imports Dedup Slot_Ring Latency
begin

text \<open>
  \<open>crates/hft-marketdata/src/pipeline.rs\<close>: source, deduplicator, slot ring and latency monitor composed.  The loops over the
  source carry fuel; for a source that never idles (the locale \<open>finite_source\<close>, interpreted by the simulated source) one more round than
  the events left is enough.  The lemmas count what goes in and out, show that what is released was
  polled, and exhibit the event of a second market that \<open>next\<close> never delivers.
\<close>

record pipeline_config =
  ring_buffer_slots :: nat
  stale_threshold_ns :: u64
  max_markets :: nat

definition default_pipeline_config :: pipeline_config where
  "default_pipeline_config =
     \<lparr> ring_buffer_slots = 64, stale_threshold_ns = 1000000000, max_markets = 256 \<rparr>"

record md_pipeline =
  pl_dedup :: deduplicator
  pl_ring :: slot_ring
  pl_latency :: latency_monitor
  pl_config :: pipeline_config
  pl_polled :: u64
  pl_consumed :: u64

record pipeline_stats =
  ps_total_polled :: u64
  ps_dedup_filtered :: u64
  ps_released :: u64
  ps_consumed :: u64
  ps_stale_count :: u64
  ps_latency :: latency_snapshot

definition pipeline_new :: "pipeline_config \<Rightarrow> md_pipeline" where
  "pipeline_new cfg =
     \<lparr> pl_dedup = dedup_new, pl_ring = ring_new (ring_buffer_slots cfg),
       pl_latency = with_stale_threshold (stale_threshold_ns cfg), pl_config = cfg,
       pl_polled = 0, pl_consumed = 0 \<rparr>"

text \<open>The consumer side of one released event.\<close>

definition deliver :: "market_event \<Rightarrow> md_pipeline \<Rightarrow> md_pipeline" where
  "deliver e p = p\<lparr>pl_latency := observe e (pl_latency p), pl_consumed := pl_consumed p + 1\<rparr>"

text \<open>One event of the source, up to the ring: counted, deduplicated, pushed.  The flag tells whether it was new.\<close>

definition ingest :: "market_event \<Rightarrow> md_pipeline \<Rightarrow> bool \<times> md_pipeline" where
  "ingest e p =
     (let p1 = p\<lparr>pl_polled := pl_polled p + 1\<rparr>;
          (new, dd) = is_new e (pl_dedup p1);
          p2 = p1\<lparr>pl_dedup := dd\<rparr>
      in if new then (True, p2\<lparr>pl_ring := ring_push e (pl_ring p2)\<rparr>) else (False, p2))"

definition take_ready :: "u64 \<Rightarrow> md_pipeline \<Rightarrow> market_event option \<times> md_pipeline" where
  "take_ready watermark p =
     (let (res, ring) = pop_ready watermark (pl_ring p); p' = p\<lparr>pl_ring := ring\<rparr>
      in case res of None \<Rightarrow> (None, p') | Some e \<Rightarrow> (Some e, deliver e p'))"

fun pipeline_next ::
    "nat \<Rightarrow> ('s \<Rightarrow> source_poll \<times> 's) \<Rightarrow> 's \<Rightarrow> md_pipeline \<Rightarrow> (market_event option \<times> 's \<times> md_pipeline) option" where
  "pipeline_next 0 poll s p = None"
| "pipeline_next (Suc n) poll s p =
     (case poll s of
        (Idle, s') \<Rightarrow> Some (None, s', p)
      | (Closed, s') \<Rightarrow> Some (None, s', p)
      | (Polled e, s') \<Rightarrow>
          (case ingest e p of
             (False, p') \<Rightarrow> pipeline_next n poll s' p'
           | (True, p') \<Rightarrow>
               (case take_ready (ev_slot e) p' of
                  (Some ordered, p'') \<Rightarrow> Some (Some ordered, s', p'')
                | (None, p'') \<Rightarrow> pipeline_next n poll s' p'')))"

text \<open>The inner loop of \<open>run_to_completion\<close>: each round empties one cell of the ring, so its capacity bounds the rounds.\<close>

fun release_all :: "nat \<Rightarrow> u64 \<Rightarrow> md_pipeline \<Rightarrow> market_event list \<times> md_pipeline" where
  "release_all 0 watermark p = ([], p)"
| "release_all (Suc n) watermark p =
     (case take_ready watermark p of
        (None, p') \<Rightarrow> ([], p')
      | (Some e, p') \<Rightarrow> (let (es, p'') = release_all n watermark p' in (e # es, p'')))"

definition finish :: "md_pipeline \<Rightarrow> market_event list \<times> md_pipeline" where
  "finish p = (let (es, ring) = ring_drain (pl_ring p) in (es, fold deliver es (p\<lparr>pl_ring := ring\<rparr>)))"

fun run_to_completion ::
    "nat \<Rightarrow> ('s \<Rightarrow> source_poll \<times> 's) \<Rightarrow> 's \<Rightarrow> md_pipeline \<Rightarrow> (market_event list \<times> 's \<times> md_pipeline) option" where
  "run_to_completion 0 poll s p = None"
| "run_to_completion (Suc n) poll s p =
     (case poll s of
        (Idle, s') \<Rightarrow> run_to_completion n poll s' p
      | (Closed, s') \<Rightarrow> (let (es, p') = finish p in Some (es, s', p'))
      | (Polled e, s') \<Rightarrow>
          (case ingest e p of
             (False, p') \<Rightarrow> run_to_completion n poll s' p'
           | (True, p') \<Rightarrow>
               (let (es, p'') = release_all (Suc (ring_capacity (pl_ring p'))) (ev_slot e) p' in
                map_option (\<lambda>(rest, s'', q). (es @ rest, s'', q)) (run_to_completion n poll s' p''))))"

definition pipeline_stats_of :: "md_pipeline \<Rightarrow> pipeline_stats" where
  "pipeline_stats_of p =
     \<lparr> ps_total_polled = pl_polled p, ps_dedup_filtered = filtered_count (pl_dedup p),
       ps_released = released (pl_ring p), ps_consumed = pl_consumed p,
       ps_stale_count = stale_count (latency_snap (pl_latency p)), ps_latency = latency_snap (pl_latency p) \<rparr>"

section \<open>Termination\<close>

context finite_source
begin

lemma next_returns: "remaining s < n \<Longrightarrow> pipeline_next n poll s p \<noteq> None"
proof (induction n arbitrary: s p)
  case (Suc n)
  obtain q s' where q: "poll s = (q, s')" by fastforce
  show ?case
  proof (cases q)
    case (Polled e)
    then have "remaining s' < n" using poll_event [of s e s'] q Suc.prems by simp
    from Suc.IH [OF this] show ?thesis
      using q Polled by (auto split: prod.splits bool.splits option.splits)
  qed (use q in auto)
qed simp

lemma run_returns: "remaining s < n \<Longrightarrow> run_to_completion n poll s p \<noteq> None"
proof (induction n arbitrary: s p)
  case (Suc n)
  obtain q s' where q: "poll s = (q, s')" by fastforce
  show ?case
  proof (cases q)
    case (Polled e)
    then have "remaining s' < n" using poll_event [of s e s'] q Suc.prems by simp
    then have "\<forall>p. \<exists>r. run_to_completion n poll s' p = Some r" using Suc.IH by blast
    then obtain f where "\<And>p. run_to_completion n poll s' p = Some (f p)" by metis
    then show ?thesis
      using q Polled by (simp add: case_prod_beta split: bool.split) (metis prod_cases3)
  qed (use q poll_never_idle [of s] in \<open>auto split: prod.split\<close>)
qed simp

end

section \<open>Accounting\<close>

lemma take_ready_events:
  assumes "take_ready w p = (res, p')" "w \<noteq> u64_max" "ring_inv (pl_ring p)"
  shows "events_in (pl_ring p') \<subseteq> events_in (pl_ring p)" "ring_inv (pl_ring p')"
    and "\<And>e. res = Some e \<Longrightarrow> e \<in> events_in (pl_ring p)"
proof -
  obtain ring where pop: "pop_ready w (pl_ring p) = (res, ring)" and r: "pl_ring p' = ring"
    using assms(1) by (auto simp: take_ready_def deliver_def Let_def split: prod.splits option.splits)
  have "ring_capacity ring = ring_capacity (pl_ring p)" using pop by (metis ring_capacity_ops(2) snd_conv)
  with pop_loop_spec [of "ring_capacity (pl_ring p)" w "pl_ring p" res ring] pop r assms(2,3)
  show "events_in (pl_ring p') \<subseteq> events_in (pl_ring p)" "ring_inv (pl_ring p')"
    "\<And>e. res = Some e \<Longrightarrow> e \<in> events_in (pl_ring p)"
    by (auto simp: pop_ready_def ring_inv_def slots_ok_def)
qed

lemma ingest_ring:
  "ingest e p = (new, p') \<Longrightarrow> pl_ring p' = (if new then ring_push e (pl_ring p) else pl_ring p)"
  by (auto simp: ingest_def Let_def split: prod.splits if_splits)

lemma release_all_events:
  assumes "release_all n w p = (es, p')" "w \<noteq> u64_max" "ring_inv (pl_ring p)"
  shows "set es \<subseteq> events_in (pl_ring p) \<and> events_in (pl_ring p') \<subseteq> events_in (pl_ring p) \<and> ring_inv (pl_ring p')"
  using assms
proof (induction n arbitrary: p es)
  case (Suc n)
  obtain res q where t: "take_ready w p = (res, q)" by fastforce
  note tr = take_ready_events [OF t Suc.prems(2,3)]
  show ?case
  proof (cases res)
    case None
    with Suc.prems(1) t tr show ?thesis by auto
  next
    case (Some e)
    then obtain es' where rest: "release_all n w q = (es', p')" "es = e # es'"
      using Suc.prems(1) t by (auto split: prod.splits)
    from Suc.IH [OF rest(1) Suc.prems(2) tr(2)] tr(1,3) Some rest(2) show ?thesis by auto
  qed
qed simp

text \<open>The fuel of \<open>release_all\<close>: every release empties a cell.\<close>

definition cells :: "slot_ring \<Rightarrow> nat" where
  "cells r = length (filter (\<lambda>x. x \<noteq> None) (ring_slots r))"

lemma filter_clear:
  "i < length xs \<Longrightarrow> length (filter (\<lambda>x. x \<noteq> None) (xs[i := None]))
     = (if xs ! i = None then length (filter (\<lambda>x. x \<noteq> None) xs) else length (filter (\<lambda>x. x \<noteq> None) xs) - 1)"
proof (induction xs arbitrary: i)
  case (Cons x xs)
  show ?case
  proof (cases i)
    case (Suc j)
    with Cons have "xs ! j \<noteq> None \<Longrightarrow> 0 < length (filter (\<lambda>x. x \<noteq> None) xs)"
      using Suc Cons.prems nth_mem [of j xs] by (force simp: filter_empty_conv)
    with Suc Cons show ?thesis by auto
  qed auto
qed simp

lemma pop_loop_cells:
  assumes "0 < ring_capacity r"
  shows "cells (snd (pop_loop n w r)) \<le> cells r"
    and "fst (pop_loop n w r) \<noteq> None \<Longrightarrow> cells (snd (pop_loop n w r)) < cells r"
proof -
  have "cells (snd (pop_loop n w r)) \<le> cells r
      \<and> (fst (pop_loop n w r) \<noteq> None \<longrightarrow> cells (snd (pop_loop n w r)) < cells r)"
    using assms
  proof (induction n w r rule: pop_loop.induct)
    case (2 n w r)
    let ?i = "ring_idx r (next_expected r)"
    have i: "?i < length (ring_slots r)" using 2(3) by (simp add: ring_idx_def ring_capacity_def)
    have pos: "0 < cells r" if "ring_slots r ! ?i \<noteq> None"
      using that nth_mem [OF i] by (force simp: cells_def filter_empty_conv)
    show ?case
    proof (cases "next_expected r \<le> w")
      case le: True
      show ?thesis
      proof (cases "ring_slots r ! ?i")
        case None
        have "cells (r\<lparr>next_expected := next_expected r + 1\<rparr>) = cells r" by (simp add: cells_def)
        with 2(1) [OF le refl None] 2(3) le None show ?thesis by (simp add: Let_def ring_capacity_def)
      next
        case (Some e)
        let ?r = "r\<lparr>ring_slots := (ring_slots r)[?i := None]\<rparr>"
        have dec: "cells ?r < cells r" using filter_clear [OF i] Some pos by (simp add: cells_def)
        show ?thesis
        proof (cases "ev_slot e < next_expected r")
          case True
          have "0 < ring_capacity ?r" using 2(3) by (simp add: ring_capacity_def)
          from 2(2) [OF le refl Some refl True this] dec le Some True show ?thesis by (simp add: Let_def)
        next
          case False
          have "cells (?r\<lparr>next_expected := x, released := y\<rparr>) = cells ?r" for x y by (simp add: cells_def)
          with False le Some dec show ?thesis by (simp add: Let_def)
        qed
      qed
    qed simp
  qed simp
  then show "cells (snd (pop_loop n w r)) \<le> cells r"
    "fst (pop_loop n w r) \<noteq> None \<Longrightarrow> cells (snd (pop_loop n w r)) < cells r" by auto
qed

lemma release_all_fuel:
  "cells (pl_ring p) < n \<Longrightarrow> 0 < ring_capacity (pl_ring p) \<Longrightarrow> release_all (Suc n) w p = release_all n w p"
proof (induction n arbitrary: p)
  case (Suc n)
  obtain res q where t: "take_ready w p = (res, q)" by fastforce
  show ?case
  proof (cases res)
    case (Some e)
    have ring: "pl_ring q = snd (pop_ready w (pl_ring p))" "fst (pop_ready w (pl_ring p)) \<noteq> None"
      using t Some by (auto simp: take_ready_def deliver_def Let_def split: prod.splits option.splits)
    then have "cells (pl_ring q) < n" "0 < ring_capacity (pl_ring q)"
      using pop_loop_cells(2) [OF Suc.prems(2), of "ring_capacity (pl_ring p)" w] Suc.prems
      by (auto simp: pop_ready_def pop_loop_capacity)
    with Suc.IH [of q] t Some show ?thesis by simp
  qed (use t in simp)
qed simp

lemma cells_le_capacity: "cells r \<le> ring_capacity r"
  by (simp add: cells_def ring_capacity_def)

section \<open>Conservation of events\<close>

definition cell_mset :: "market_event option list \<Rightarrow> market_event multiset" where
  "cell_mset xs = mset (map the (filter (\<lambda>x. x \<noteq> None) xs))"

abbreviation ring_mset :: "slot_ring \<Rightarrow> market_event multiset" where
  "ring_mset r \<equiv> cell_mset (ring_slots r)"

lemma cell_mset_clear:
  "i < length xs \<Longrightarrow> xs ! i = Some e \<Longrightarrow> cell_mset xs = add_mset e (cell_mset (xs[i := None]))"
proof (induction xs arbitrary: i)
  case (Cons x xs)
  then show ?case by (cases i) (auto simp: cell_mset_def)
qed simp

lemma cell_mset_write: "cell_mset (xs[i := Some e]) \<subseteq># add_mset e (cell_mset xs)"
proof (induction xs arbitrary: i)
  case (Cons x xs)
  show ?case
  proof (cases i)
    case 0
    then show ?thesis by (cases x) (auto simp: cell_mset_def)
  next
    case (Suc j)
    then show ?thesis using Cons [of j] by (cases x) (auto simp: cell_mset_def add_mset_commute)
  qed
qed (simp add: cell_mset_def)

lemma ring_mset_push: "ring_mset (ring_push e r) \<subseteq># add_mset e (ring_mset r)"
  using cell_mset_write by (auto simp: ring_push_def)

lemma ring_mset_pop_loop:
  assumes "0 < ring_capacity r"
  shows "(case fst (pop_loop n w r) of None \<Rightarrow> {#} | Some e \<Rightarrow> {#e#}) + ring_mset (snd (pop_loop n w r))
           \<subseteq># ring_mset r"
  using assms
proof (induction n w r rule: pop_loop.induct)
  case (2 n w r)
  let ?i = "ring_idx r (next_expected r)"
  have i: "?i < length (ring_slots r)" using 2(3) by (simp add: ring_idx_def ring_capacity_def)
  show ?case
  proof (cases "next_expected r \<le> w")
    case le: True
    show ?thesis
    proof (cases "ring_slots r ! ?i")
      case None
      with 2(1) [OF le refl None] 2(3) le show ?thesis by (simp add: Let_def ring_capacity_def)
    next
      case (Some e)
      let ?r = "r\<lparr>ring_slots := (ring_slots r)[?i := None]\<rparr>"
      note clear = cell_mset_clear [OF i Some]
      show ?thesis
      proof (cases "ev_slot e < next_expected r")
        case True
        have "0 < ring_capacity ?r" using 2(3) by (simp add: ring_capacity_def)
        from 2(2) [OF le refl Some refl True this] le Some True clear show ?thesis
          by (auto simp: Let_def intro: subset_mset.trans)
      qed (use le Some clear in \<open>simp add: Let_def\<close>)
    qed
  qed simp
qed simp

lemma take_ready_mset:
  assumes "take_ready w p = (res, p')" "0 < ring_capacity (pl_ring p)"
  shows "(case res of None \<Rightarrow> {#} | Some e \<Rightarrow> {#e#}) + ring_mset (pl_ring p') \<subseteq># ring_mset (pl_ring p)"
    and "ring_capacity (pl_ring p') = ring_capacity (pl_ring p)"
    and "pl_polled p' = pl_polled p"
    and "pl_consumed p' = pl_consumed p + (if res = None then 0 else 1)"
  using assms ring_mset_pop_loop [OF assms(2), of "ring_capacity (pl_ring p)" w]
    pop_loop_capacity [of "ring_capacity (pl_ring p)" w "pl_ring p"]
  by (auto simp: take_ready_def deliver_def pop_ready_def Let_def split: prod.splits option.splits)

lemma release_all_mset:
  assumes "release_all n w p = (es, p')" "0 < ring_capacity (pl_ring p)"
  shows "mset es + ring_mset (pl_ring p') \<subseteq># ring_mset (pl_ring p)
       \<and> ring_capacity (pl_ring p') = ring_capacity (pl_ring p)
       \<and> pl_polled p' = pl_polled p \<and> pl_consumed p' = pl_consumed p + of_nat (length es)"
  using assms
proof (induction n arbitrary: p es)
  case (Suc n)
  obtain res q where t: "take_ready w p = (res, q)" by fastforce
  note tr = take_ready_mset [OF t Suc.prems(2)]
  show ?case
  proof (cases res)
    case None
    with Suc.prems(1) t tr show ?thesis by simp
  next
    case (Some e)
    then obtain es' where rest: "release_all n w q = (es', p')" "es = e # es'"
      using Suc.prems(1) t by (auto split: prod.splits)
    have "0 < ring_capacity (pl_ring q)" using tr(2) Suc.prems(2) by simp
    note IH = Suc.IH [OF rest(1) this]
    then have "add_mset e (mset es' + ring_mset (pl_ring p')) \<subseteq># add_mset e (ring_mset (pl_ring q))"
      by simp
    also have "\<dots> \<subseteq># ring_mset (pl_ring p)" using tr(1) Some by simp
    finally show ?thesis using IH tr Some rest(2) by simp
  qed
qed simp

lemma deliver_fold:
  "pl_ring (fold deliver es p) = pl_ring p" "pl_polled (fold deliver es p) = pl_polled p"
  "pl_consumed (fold deliver es p) = pl_consumed p + of_nat (length es)"
  by (induction es arbitrary: p) (simp_all add: deliver_def)

lemma run_conserves:
  assumes "length evs < n" "0 < ring_capacity (pl_ring p)"
  shows "\<exists>es s q. run_to_completion n simulated_poll (simulated_new evs) p = Some (es, s, q)
           \<and> mset es \<subseteq># ring_mset (pl_ring p) + mset evs
           \<and> pl_polled q = pl_polled p + of_nat (length evs)
           \<and> pl_consumed q = pl_consumed p + of_nat (length es)"
  using assms
proof (induction n arbitrary: evs p)
  case (Suc n)
  show ?case
  proof (cases evs)
    case Nil
    have "mset (fst (ring_drain (pl_ring p))) = ring_mset (pl_ring p)"
      by (simp add: drain_returns_the_rest(1) cell_mset_def)
    with Nil show ?thesis
      by (auto simp: simulated_poll_new finish_def deliver_fold split: prod.splits)
  next
    case (Cons e rest)
    obtain new p1 where ing: "ingest e p = (new, p1)" by fastforce
    have ring1: "pl_ring p1 = (if new then ring_push e (pl_ring p) else pl_ring p)"
      and pol1: "pl_polled p1 = pl_polled p + 1" "pl_consumed p1 = pl_consumed p"
      using ing by (auto simp: ingest_def Let_def split: prod.splits if_splits)
    define es p2 where "es = fst (if new then release_all (Suc (ring_capacity (pl_ring p1))) (ev_slot e) p1 else ([], p1))"
      and "p2 = snd (if new then release_all (Suc (ring_capacity (pl_ring p1))) (ev_slot e) p1 else ([], p1))"
    have cap1: "0 < ring_capacity (pl_ring p1)" using ring1 Suc.prems(2) by simp
    have rel: "mset es + ring_mset (pl_ring p2) \<subseteq># ring_mset (pl_ring p1)
        \<and> ring_capacity (pl_ring p2) = ring_capacity (pl_ring p1)
        \<and> pl_polled p2 = pl_polled p1 \<and> pl_consumed p2 = pl_consumed p1 + of_nat (length es)"
      using release_all_mset [OF surjective_pairing cap1, of "Suc (ring_capacity (pl_ring p1))" "ev_slot e"]
      by (cases new) (simp_all add: es_def p2_def del: release_all.simps)
    have push: "ring_mset (pl_ring p1) \<subseteq># add_mset e (ring_mset (pl_ring p))"
      using ring1 ring_mset_push by simp
    have "length rest < n" "0 < ring_capacity (pl_ring p2)" using Suc.prems(1) Cons rel cap1 by auto
    from Suc.IH [OF this] obtain es' s q where
      run: "run_to_completion n simulated_poll (simulated_new rest) p2 = Some (es', s, q)"
      and sub: "mset es' \<subseteq># ring_mset (pl_ring p2) + mset rest"
      and cnt: "pl_polled q = pl_polled p2 + of_nat (length rest)"
        "pl_consumed q = pl_consumed p2 + of_nat (length es')" by blast
    have eq: "run_to_completion (Suc n) simulated_poll (simulated_new evs) p = Some (es @ es', s, q)"
      using Cons ing run
      by (cases new) (simp_all add: simulated_poll_new es_def p2_def case_prod_beta del: release_all.simps)
    have "mset es + mset es' \<subseteq># mset es + ring_mset (pl_ring p2) + mset rest"
      using sub by (simp add: add.assoc)
    also have "\<dots> \<subseteq># ring_mset (pl_ring p1) + mset rest" using rel by simp
    also have "\<dots> \<subseteq># ring_mset (pl_ring p) + mset evs" using push Cons by simp
    finally have "mset (es @ es') \<subseteq># ring_mset (pl_ring p) + mset evs" by simp
    with eq cnt rel pol1 Cons show ?thesis
      by (intro exI [of _ "es @ es'"] exI [of _ s] exI [of _ q]) simp
  qed
qed simp

text \<open>
  C20. \<open>run_to_completion\<close> over any list of events ends, and the events it delivers form a sub-multiset of the
  events of the source: none is invented and none delivered more often than it was polled.  The counters
  agree: one poll per event of the source, one consumption per event delivered.
\<close>

theorem pipeline_conserves_events:
  "\<exists>es s q. run_to_completion (length evs + 1) simulated_poll (simulated_new evs) (pipeline_new cfg) = Some (es, s, q)
     \<and> mset es \<subseteq># mset evs
     \<and> pl_polled q = of_nat (length evs) \<and> pl_consumed q = of_nat (length es)"
proof -
  have "0 < ring_capacity (pl_ring (pipeline_new cfg))"
    using ring_new_capacity(2) [of "ring_buffer_slots cfg"] by (simp add: pipeline_new_def)
  from run_conserves [OF _ this, of evs "length evs + 1"] show ?thesis
    by (simp add: pipeline_new_def ring_new_def cell_mset_def)
qed

text \<open>
  \<open>next\<close> always returns on the simulated source: one more round than the events left suffices.
\<close>

theorem pipeline_next_returns:
  "pipeline_next (simulated_remaining s + 1) simulated_poll s p \<noteq> None"
  by (rule sim.next_returns) simp

section \<open>A second market in the same slot\<close>

definition same_slot_events :: "market_event list" where
  "same_slot_events =
     [\<lparr> market_id = 1, ev_slot = 1, ev_seq = 0, publish_ts_ns = 0, ingest_ts_ns = 0, ev_kind = TradeEvent 1 \<rparr>,
      \<lparr> market_id = 2, ev_slot = 1, ev_seq = 0, publish_ts_ns = 0, ingest_ts_ns = 0, ev_kind = TradeEvent 1 \<rparr>,
      \<lparr> market_id = 1, ev_slot = 2, ev_seq = 1, publish_ts_ns = 0, ingest_ts_ns = 0, ev_kind = TradeEvent 2 \<rparr>]"

definition small_config :: pipeline_config where
  "small_config = default_pipeline_config\<lparr>ring_buffer_slots := 4\<rparr>"

fun next_calls ::
    "nat \<Rightarrow> simulated_source \<Rightarrow> md_pipeline \<Rightarrow> market_event option list \<times> md_pipeline" where
  "next_calls 0 s p = ([], p)"
| "next_calls (Suc k) s p =
     (case pipeline_next (simulated_remaining s + 1) simulated_poll s p of
        None \<Rightarrow> ([], p)
      | Some (res, s', p') \<Rightarrow> (let (rs, q) = next_calls k s' p' in (res # rs, q)))"

lemma small_pipeline:
  "pipeline_new small_config = \<lparr> pl_dedup = dedup_new,
     pl_ring = \<lparr> ring_slots = [None, None, None, None], next_expected = 0, released = 0 \<rparr>,
     pl_latency = with_stale_threshold 1000000000, pl_config = small_config, pl_polled = 0, pl_consumed = 0 \<rparr>"
proof -
  have "ring_new 4 = \<lparr> ring_slots = [None, None, None, None], next_expected = 0, released = 0 \<rparr>" by code_simp
  then show ?thesis by (simp add: pipeline_new_def small_config_def default_pipeline_config_def)
qed

lemma small_ring:
  "ring_idx \<lparr> ring_slots = [a, b, c, d], next_expected = n, released = k \<rparr> slot = unat slot mod 4"
  "pop_ready w \<lparr> ring_slots = [a, b, c, d], next_expected = n, released = k \<rparr>
     = pop_loop (Suc (Suc (Suc (Suc 0)))) w \<lparr> ring_slots = [a, b, c, d], next_expected = n, released = k \<rparr>"
  "ring_push e \<lparr> ring_slots = [a, b, c, d], next_expected = n, released = k \<rparr>
     = (if 0 < n \<and> ev_slot e + 4 \<le> n then \<lparr> ring_slots = [a, b, c, d], next_expected = n, released = k \<rparr>
        else \<lparr> ring_slots = [a, b, c, d][unat (ev_slot e) mod 4 := Some e], next_expected = n, released = k \<rparr>)"
  by (simp_all add: ring_idx_def pop_ready_def ring_push_def ring_capacity_def)

lemma remaining_new: "simulated_remaining (simulated_new es) = length es"
  by (simp add: simulated_remaining_def simulated_new_def)

lemma same_slot_run:
  assumes "ev_slot e1 = 1" "ev_slot e2 = 1" "ev_slot e3 = 2" "market_id e1 = 1" "market_id e2 = 2" "market_id e3 = 1"
    and "ev_seq e1 = 0" "ev_seq e3 = 1"
  shows "case next_calls (Suc (Suc (Suc 0))) (simulated_new [e1, e2, e3])
       \<lparr> pl_dedup = dedup_new, pl_ring = \<lparr> ring_slots = [None, None, None, None], next_expected = 0, released = 0 \<rparr>,
         pl_latency = l, pl_config = cfg, pl_polled = 0, pl_consumed = 0 \<rparr> of
     (rs, p) \<Rightarrow> rs = [Some e1, Some e3, None] \<and> pl_polled p = 3 \<and> filtered_count (pl_dedup p) = 0 \<and> pl_consumed p = 2"
  using assms
  by (simp add: remaining_new simulated_poll_new ingest_def is_new_def dedup_new_def small_ring take_ready_def deliver_def word_le_nat_alt)

text \<open>
  An event accepted by the deduplicator can be lost to \<open>next\<close>: when two markets publish in the same slot, the event of the second stays in
  the ring behind the next expected slot.  With three events, none filtered, \<open>next\<close> delivers the first and the third
  and then reports an exhausted source.
\<close>

theorem same_slot_event_not_delivered:
  "case next_calls 3 (simulated_new same_slot_events) (pipeline_new small_config) of
     (rs, p) \<Rightarrow> rs = [Some (same_slot_events ! 0), Some (same_slot_events ! 2), None]
        \<and> pl_polled p = 3 \<and> filtered_count (pl_dedup p) = 0 \<and> pl_consumed p = 2"
  unfolding small_pipeline numeral_3_eq_3
  using same_slot_run [of "same_slot_events ! 0" "same_slot_events ! 1" "same_slot_events ! 2"]
  by (simp add: same_slot_events_def)

end
