(* ===== verification/Float64.thy ===== *)
theory Float64
  imports Complex_Main Prelude
begin

text \<open>
  The double precision arithmetic the program uses, on finite values: a value of type \<open>f64\<close> is a rational number, and every
  operation is the exact one followed by rounding to 53 significant bits, ties to even.  Overflow to infinity and the
  subnormal range are left out: the values of the program (prices, shares of a supply, amounts of SOL) stay far inside
  the normal range.  The lemmas bound the relative error of a rounding.
\<close>

type_synonym f64 = rat

section \<open>Rounding\<close>

fun bit_length :: "nat \<Rightarrow> nat" where
  "bit_length n = (if n = 0 then 0 else Suc (bit_length (n div 2)))"

declare bit_length.simps [simp del]

lemma bit_length_bounds: "0 < n \<Longrightarrow> 2 ^ (bit_length n - 1) \<le> n \<and> n < 2 ^ bit_length n \<and> 0 < bit_length n"
proof (induction n rule: bit_length.induct)
  case (1 n)
  show ?case
  proof (cases "n div 2 = 0")
    case True
    then have "n = 1" using 1(2) by linarith
    then show ?thesis by (simp add: bit_length.simps)
  next
    case False
    then have IH: "2 ^ (bit_length (n div 2) - 1) \<le> n div 2" "n div 2 < 2 ^ bit_length (n div 2)"
      "0 < bit_length (n div 2)" using 1 by auto
    have l: "bit_length n = Suc (bit_length (n div 2))" using 1(2) by (subst bit_length.simps) simp
    have "(2 :: nat) ^ bit_length (n div 2) = 2 * 2 ^ (bit_length (n div 2) - 1)"
      using IH(3) by (cases "bit_length (n div 2)") simp_all
    then show ?thesis unfolding l using IH by simp linarith
  qed
qed

definition f64_exp :: "rat \<Rightarrow> int" where
  "f64_exp x =
     (let (n, d) = quotient_of x; k = int (bit_length (nat n)) - int (bit_length (nat d))
      in if 2 powi k \<le> x then k else k - 1)"

definition half_even :: "rat \<Rightarrow> int" where
  "half_even y =
     (let f = \<lfloor>y\<rfloor>; r = y - of_int f
      in if r < 1 / 2 then f else if 1 / 2 < r then f + 1 else if even f then f else f + 1)"

definition f64_round :: "rat \<Rightarrow> f64" where
  "f64_round x =
     (if x = 0 then 0
      else let u = 2 powi (f64_exp \<bar>x\<bar> - 52); m = of_int (half_even (\<bar>x\<bar> / u)) * u
           in if x < 0 then - m else m)"

lemma pow2_nat: "(2 :: rat) powi (int a - int b) = 2 ^ a / 2 ^ b"
  by (simp add: power_int_diff)

lemma pow2_of_int:
  "2 ^ k \<le> n \<Longrightarrow> n < 2 ^ l \<Longrightarrow> (2 :: rat) ^ k \<le> of_nat n \<and> of_nat n < (2 :: rat) ^ l"
  by (metis of_nat_le_iff of_nat_less_iff of_nat_numeral of_nat_power)

lemma f64_exp_bounds:
  assumes "0 < x"
  shows "2 powi f64_exp x \<le> x" "x < 2 powi (f64_exp x + 1)"
proof -
  obtain n d where q: "quotient_of x = (n, d)" by force
  have pos: "0 < d" "0 < n" and x: "x = of_int n / of_int d"
    using quotient_of_denom_pos [OF q] quotient_of_div [OF q] assms by (auto simp: zero_less_divide_iff)
  define a b where "a = bit_length (nat n)" and "b = bit_length (nat d)"
  note bl = bit_length_bounds [of "nat n"] bit_length_bounds [of "nat d"]
  have n: "2 ^ (a - 1) \<le> nat n" "nat n < 2 ^ a" "0 < a" and d: "2 ^ (b - 1) \<le> nat d" "nat d < 2 ^ b" "0 < b"
    using bl pos by (simp_all add: a_def b_def)
  have rn: "(2 :: rat) ^ (a - 1) \<le> of_int n" "of_int n < (2 :: rat) ^ a"
    using pow2_of_int [of "nat n" "a - 1" a] n pos by simp_all
  have rd: "(2 :: rat) ^ (b - 1) \<le> of_int d" "of_int d < (2 :: rat) ^ b"
    using pow2_of_int [of "nat d" "b - 1" b] d pos by simp_all
  have hi: "x < 2 powi (int a - int b + 1)"
  proof -
    have "x < 2 ^ a / 2 ^ (b - 1)"
      unfolding x using rn rd pos by (intro frac_less) simp_all
    also have "\<dots> = 2 powi (int a - int b + 1)"
      using d(3) pow2_nat [of a "b - 1"] by (simp add: algebra_simps)
    finally show ?thesis .
  qed
  have lo: "2 powi (int a - int b - 1) \<le> x"
  proof -
    have "2 powi (int a - int b - 1) = 2 ^ (a - 1) / (2 :: rat) ^ b"
      using n(3) pow2_nat [of "a - 1" b] by (simp add: algebra_simps)
    also have "\<dots> \<le> x" unfolding x using rn rd pos by (intro frac_le) simp_all
    finally show ?thesis .
  qed
  show "2 powi f64_exp x \<le> x" "x < 2 powi (f64_exp x + 1)"
    using hi lo q by (auto simp: f64_exp_def a_def b_def Let_def)
qed

lemma half_even_of_int: "half_even (of_int i) = i"
  by (simp add: half_even_def)

lemma half_even_error: "\<bar>of_int (half_even y) - y\<bar> \<le> 1 / 2"
proof -
  have "of_int \<lfloor>y\<rfloor> \<le> y" "y < of_int \<lfloor>y\<rfloor> + 1" by linarith+
  then show ?thesis by (auto simp: half_even_def Let_def)
qed

definition f64_eps :: rat where "f64_eps = 1 / 2 ^ 53"

lemma f64_round_pos_error:
  assumes "0 < x"
  shows "\<bar>f64_round x - x\<bar> \<le> f64_eps * x"
proof -
  define u where "u = (2 :: rat) powi (f64_exp x - 52)"
  have u: "0 < u" by (simp add: u_def)
  have "f64_round x = of_int (half_even (x / u)) * u"
    using assms by (simp add: f64_round_def u_def Let_def)
  then have "f64_round x - x = (of_int (half_even (x / u)) - x / u) * u" using u by (simp add: field_simps)
  then have "\<bar>f64_round x - x\<bar> = \<bar>of_int (half_even (x / u)) - x / u\<bar> * u" using u by (simp add: abs_mult)
  also have "\<dots> \<le> 1 / 2 * u" using half_even_error u by (intro mult_right_mono) simp_all
  also have "u = 2 powi f64_exp x / 2 ^ 52" by (simp add: u_def power_int_diff)
  also have "1 / 2 * (2 powi f64_exp x / 2 ^ 52) = f64_eps * 2 powi f64_exp x" by (simp add: f64_eps_def)
  also have "\<dots> \<le> f64_eps * x"
    using f64_exp_bounds(1) [OF assms] by (intro mult_left_mono) (simp_all add: f64_eps_def)
  finally show ?thesis .
qed

lemma f64_round_bounds:
  assumes "0 \<le> x"
  shows "x * (1 - f64_eps) \<le> f64_round x" "f64_round x \<le> x * (1 + f64_eps)"
proof -
  have "\<bar>f64_round x - x\<bar> \<le> f64_eps * x"
  proof (cases "x = 0")
    case True
    then show ?thesis by (simp add: f64_round_def)
  next
    case False
    then show ?thesis using assms f64_round_pos_error [of x] by simp
  qed
  then show "x * (1 - f64_eps) \<le> f64_round x" "f64_round x \<le> x * (1 + f64_eps)"
    by (simp_all add: abs_le_iff algebra_simps)
qed

lemma f64_round_nonneg: "0 \<le> x \<Longrightarrow> 0 \<le> f64_round x"
  using f64_round_bounds(1) [of x] mult_nonneg_nonneg [of x "1 - f64_eps"] by (simp add: f64_eps_def)

text \<open>A value with at most 53 significant bits is exact.\<close>

lemma f64_round_exact:
  assumes "0 < m" "m < 2 ^ 53"
  shows "f64_round (of_int m * 2 powi k) = of_int m * 2 powi k"
proof -
  define x where "x = of_int m * (2 :: rat) powi k"
  have x: "0 < x" using assms(1) by (simp add: x_def)
  have "2 powi f64_exp x \<le> x" by (rule f64_exp_bounds [OF x])
  also have "x < 2 ^ 53 * 2 powi k"
    using assms(2) unfolding x_def by (intro mult_strict_right_mono) (simp_all flip: of_int_less_iff)
  also have "\<dots> = 2 powi (53 + k)" by (simp add: power_int_add)
  finally have "f64_exp x < 53 + k"
    using power_int_increasing [of "53 + k" "f64_exp x" "2 :: rat"] by (simp add: not_less [symmetric])
      (metis not_less)
  then have e: "f64_exp x - 52 \<le> k" by simp
  then obtain j where j: "k = f64_exp x - 52 + int j" using zle_iff_zadd by blast
  define u where "u = (2 :: rat) powi (f64_exp x - 52)"
  have u: "0 < u" by (simp add: u_def)
  have "(2 :: rat) powi k = u * 2 ^ j" unfolding u_def by (subst j) (simp add: power_int_add)
  then have xu: "x = of_int (m * 2 ^ j) * u" by (simp add: x_def)
  then have "x / u = of_int (m * 2 ^ j)" using u by simp
  then have "half_even (x / u) = m * 2 ^ j" by (simp only: half_even_of_int)
  then have "f64_round x = of_int (m * 2 ^ j) * u"
    using x by (simp add: f64_round_def Let_def u_def)
  then have "f64_round x = x" using xu by (simp only:)
  then show ?thesis by (simp only: x_def)
qed

lemma f64_round_numeral: "(numeral n :: int) < 2 ^ 53 \<Longrightarrow> f64_round (numeral n) = numeral n"
  using f64_round_exact [of "numeral n" 0] by simp

lemma f64_round_0 [simp]: "f64_round 0 = 0" and f64_round_1 [simp]: "f64_round 1 = 1"
  using f64_round_exact [of 1 0] by (simp_all add: f64_round_def)

lemma f64_round_dyadic: "(numeral n :: int) < 2 ^ 53 \<Longrightarrow> f64_round (numeral n / 2 ^ k) = numeral n / 2 ^ k"
  using f64_round_exact [of "numeral n" "- int k"] by (simp add: power_int_minus field_simps)

text \<open>Rounding is monotone.\<close>

lemma half_even_mono: "y \<le> z \<Longrightarrow> half_even y \<le> half_even z"
proof -
  assume yz: "y \<le> z"
  then have fl: "\<lfloor>y\<rfloor> \<le> \<lfloor>z\<rfloor>" by (rule floor_mono)
  have bounds: "\<lfloor>v\<rfloor> \<le> half_even v" "half_even v \<le> \<lfloor>v\<rfloor> + 1" for v by (simp_all add: half_even_def Let_def)
  show ?thesis
  proof (cases "\<lfloor>y\<rfloor> = \<lfloor>z\<rfloor>")
    case True
    then show ?thesis using yz by (auto simp: half_even_def Let_def)
  next
    case False
    then have "\<lfloor>y\<rfloor> + 1 \<le> \<lfloor>z\<rfloor>" using fl by simp
    then show ?thesis using bounds [of y] bounds [of z] by linarith
  qed
qed

lemma f64_round_pos: "0 < x \<Longrightarrow> f64_round x = of_int (half_even (x / 2 powi (f64_exp x - 52))) * 2 powi (f64_exp x - 52)"
  by (simp add: f64_round_def Let_def)

lemma f64_exp_mono: "0 < x \<Longrightarrow> x \<le> y \<Longrightarrow> f64_exp x \<le> f64_exp y"
proof (rule ccontr)
  assume a: "0 < x" "x \<le> y" "\<not> f64_exp x \<le> f64_exp y"
  then have "(2 :: rat) powi (f64_exp y + 1) \<le> 2 powi f64_exp x" by (intro power_int_increasing) simp_all
  then show False using a f64_exp_bounds [of x] f64_exp_bounds [of y] by linarith
qed

lemma f64_round_mono_pos:
  assumes "0 < x" "x \<le> y"
  shows "f64_round x \<le> f64_round y"
proof -
  define u v where "u = (2 :: rat) powi (f64_exp x - 52)" and "v = (2 :: rat) powi (f64_exp y - 52)"
  have u: "0 < u" and v: "0 < v" by (simp_all add: u_def v_def)
  have y: "0 < y" using assms by linarith
  have rx: "f64_round x = of_int (half_even (x / u)) * u" and ry: "f64_round y = of_int (half_even (y / v)) * v"
    using f64_round_pos [OF assms(1)] f64_round_pos [OF y] by (simp_all add: u_def v_def)
  show ?thesis
  proof (cases "f64_exp x = f64_exp y")
    case True
    then have "u = v" by (simp add: u_def v_def)
    moreover have "half_even (x / v) \<le> half_even (y / v)" using assms(2) v by (intro half_even_mono divide_right_mono) simp_all
    ultimately show ?thesis unfolding rx ry using v by simp
  next
    case False
    then have e: "f64_exp x + 1 \<le> f64_exp y" using f64_exp_mono [OF assms] by simp
    have pu: "(2 :: rat) powi (f64_exp x + 1) = of_int (2 ^ 53) * u"
      using power_int_add [of "2 :: rat" 53 "f64_exp x - 52"] by (simp add: u_def algebra_simps)
    have pv: "(2 :: rat) powi f64_exp y = of_int (2 ^ 52) * v"
      using power_int_add [of "2 :: rat" 52 "f64_exp y - 52"] by (simp add: v_def algebra_simps)
    have "x \<le> of_int (2 ^ 53) * u" using f64_exp_bounds(2) [OF assms(1)] pu by linarith
    then have "x / u \<le> of_int (2 ^ 53)" using u by (simp add: pos_divide_le_eq)
    then have "half_even (x / u) \<le> 2 ^ 53" using half_even_mono [of "x / u" "of_int (2 ^ 53)"] by (simp only: half_even_of_int)
    then have "of_int (half_even (x / u)) \<le> (of_int (2 ^ 53) :: rat)" by (simp only: of_int_le_iff)
    then have "f64_round x \<le> of_int (2 ^ 53) * u" unfolding rx using u by (intro mult_right_mono) simp_all
    also have "\<dots> \<le> 2 powi f64_exp y" unfolding pu [symmetric] using e by (intro power_int_increasing) simp_all
    also have "\<dots> \<le> f64_round y"
    proof -
      have "of_int (2 ^ 52) * v \<le> y" using f64_exp_bounds(1) [OF y] pv by simp
      then have "of_int (2 ^ 52) \<le> y / v" using v by (simp add: pos_le_divide_eq)
      then have "2 ^ 52 \<le> half_even (y / v)" using half_even_mono [of "of_int (2 ^ 52)" "y / v"] by (simp only: half_even_of_int)
      then have "(of_int (2 ^ 52) :: rat) \<le> of_int (half_even (y / v))" by (simp only: of_int_le_iff)
      then show ?thesis unfolding ry pv using v by (intro mult_right_mono) simp_all
    qed
    finally show ?thesis .
  qed
qed

lemma f64_round_minus: "f64_round (- x) = - f64_round x"
  by (simp add: f64_round_def Let_def)

lemma f64_round_mono: "x \<le> y \<Longrightarrow> f64_round x \<le> f64_round y"
proof -
  assume xy: "x \<le> y"
  consider "0 < x" | "x \<le> 0" "0 \<le> y" | "y < 0" by linarith
  then show ?thesis
  proof cases
    case 1
    then show ?thesis using xy by (rule f64_round_mono_pos)
  next
    case 2
    then show ?thesis using f64_round_nonneg [of "- x"] f64_round_nonneg [of y] by (simp add: f64_round_minus)
  next
    case 3
    then show ?thesis using f64_round_mono_pos [of "- y" "- x"] xy by (simp add: f64_round_minus)
  qed
qed

section \<open>Operations\<close>

definition f64_of_nat :: "nat \<Rightarrow> f64" where "f64_of_nat n = f64_round (of_nat n)"
definition f64_add :: "f64 \<Rightarrow> f64 \<Rightarrow> f64" where "f64_add x y = f64_round (x + y)"
definition f64_sub :: "f64 \<Rightarrow> f64 \<Rightarrow> f64" where "f64_sub x y = f64_round (x - y)"
definition f64_mul :: "f64 \<Rightarrow> f64 \<Rightarrow> f64" where "f64_mul x y = f64_round (x * y)"
definition f64_div :: "f64 \<Rightarrow> f64 \<Rightarrow> f64" where "f64_div x y = f64_round (x / y)"

text \<open>\<open>f64::round\<close> (half away from zero) and the saturating cast to an unsigned integer (toward zero).\<close>

definition f64_round_int :: "f64 \<Rightarrow> f64" where
  "f64_round_int x = (if 0 \<le> x then of_int \<lfloor>x + 1 / 2\<rfloor> else - of_int \<lfloor>- x + 1 / 2\<rfloor>)"

definition f64_to_u64 :: "f64 \<Rightarrow> u64" where
  "f64_to_u64 x = (if x \<le> 0 then 0 else if 2 ^ 64 \<le> x then - 1 else of_int \<lfloor>x\<rfloor>)"

lemmas f64_ops = f64_of_nat_def f64_add_def f64_sub_def f64_mul_def f64_div_def

end
