(* ===== verification/Order_Book.thy ===== *)
theory Order_Book
  imports Float64
begin

text \<open>
  \<open>crates/hft-core/src/market.rs\<close>: fixed-point prices and quantities, the bounded order book and trades, with the
  conversions of a price from and to a double.  A price is ordered by its raw value (an instance of
  \<open>linorder\<close>); the mid price lies between the best bid and the best ask and its 128-bit sum never wraps.
\<close>

definition PRICE_SCALE :: u64 where
  "PRICE_SCALE = 1000000000"

datatype price = Price (raw_price: u64)

instantiation price :: linorder
begin

definition less_eq_price :: "price \<Rightarrow> price \<Rightarrow> bool" where
  "p \<le> q \<longleftrightarrow> raw_price p \<le> raw_price q"

definition less_price :: "price \<Rightarrow> price \<Rightarrow> bool" where
  "p < q \<longleftrightarrow> raw_price p < raw_price q"

instance
  by standard (auto simp: less_eq_price_def less_price_def price.expand)

end

datatype quantity = Quantity (raw_quantity: u64)

definition abs_diff :: "price \<Rightarrow> price \<Rightarrow> u64" where
  "abs_diff p q = (if raw_price p < raw_price q then raw_price q - raw_price p else raw_price p - raw_price q)"

text \<open>The conversions of a price; the debug assertion on negative values is left out.\<close>

definition price_from_f64 :: "f64 \<Rightarrow> price" where
  "price_from_f64 v = Price (f64_to_u64 (f64_round_int (f64_mul v (f64_of_nat (unat PRICE_SCALE)))))"

definition price_as_f64 :: "price \<Rightarrow> f64" where
  "price_as_f64 p = f64_div (f64_of_nat (unat (raw_price p))) (f64_of_nat (unat PRICE_SCALE))"

datatype side = Bid | Ask

fun opposite :: "side \<Rightarrow> side" where
  "opposite Bid = Ask"
| "opposite Ask = Bid"

record price_level =
  pl_price :: price
  pl_quantity :: quantity

definition MAX_DEPTH :: nat where
  "MAX_DEPTH = 16"

record order_book =
  ob_market_id :: u64
  ob_bids :: "price_level list"
  ob_asks :: "price_level list"
  ob_bid_len :: u8
  ob_ask_len :: u8
  ob_sequence :: u64
  ob_timestamp_ns :: u64

definition order_book_empty :: "u64 \<Rightarrow> order_book" where
  "order_book_empty m =
     (let level = \<lparr> pl_price = Price 0, pl_quantity = Quantity 0 \<rparr>
      in \<lparr> ob_market_id = m, ob_bids = replicate MAX_DEPTH level, ob_asks = replicate MAX_DEPTH level,
           ob_bid_len = 0, ob_ask_len = 0, ob_sequence = 0, ob_timestamp_ns = 0 \<rparr>)"

definition best_bid :: "order_book \<Rightarrow> price_level option" where
  "best_bid b = (if 0 < ob_bid_len b then Some (ob_bids b ! 0) else None)"

definition best_ask :: "order_book \<Rightarrow> price_level option" where
  "best_ask b = (if 0 < ob_ask_len b then Some (ob_asks b ! 0) else None)"

definition spread :: "order_book \<Rightarrow> u64 option" where
  "spread b =
     (case (best_bid b, best_ask b) of
        (Some bid, Some ask) \<Rightarrow> Some (sat_sub (raw_price (pl_price ask)) (raw_price (pl_price bid)))
      | _ \<Rightarrow> None)"

definition mid_price :: "order_book \<Rightarrow> price option" where
  "mid_price b =
     (case (best_bid b, best_ask b) of
        (Some bid, Some ask) \<Rightarrow>
          Some (Price (ucast ((ucast (raw_price (pl_price bid)) + ucast (raw_price (pl_price ask)) :: u128) div 2)))
      | _ \<Rightarrow> None)"

record trade =
  tr_market_id :: u64
  tr_price :: price
  tr_quantity :: quantity
  tr_side :: side
  tr_timestamp_ns :: u64
  tr_sequence :: u64

definition notional :: "trade \<Rightarrow> u128" where
  "notional t = ucast (raw_price (tr_price t)) * ucast (raw_quantity (tr_quantity t)) div ucast PRICE_SCALE"

section \<open>Properties\<close>

lemma opposite_involutive: "opposite (opposite s) = s"
  by (cases s) simp_all

lemma notional_exact:
  "unat (notional t) = unat (raw_price (tr_price t)) * unat (raw_quantity (tr_quantity t)) div 1000000000"
  by (simp add: notional_def unat_div_word PRICE_SCALE_def)

lemma unat_mid:
  "unat (ucast ((ucast (a :: u64) + ucast (b :: u64) :: u128) div 2) :: u64) = (unat a + unat b) div 2"
proof -
  have "unat a + unat b < 2 ^ 128" using u64_le_max [of a] u64_le_max [of b] by simp
  then have q: "unat ((ucast a + ucast b :: u128) div 2) = (unat a + unat b) div 2"
    by (simp add: unat_div_word unat_add_small)
  have "(unat a + unat b) div 2 < 2 ^ 64" using u64_le_max [of a] u64_le_max [of b] by simp
  with q show ?thesis by (simp add: unat_u128_u64)
qed

text \<open>
  The mid price of a book with both sides is the exact floor of the mean of the best bid and the best ask, so it lies between them, and the
  spread of an uncrossed book is their distance; an empty side gives neither.
\<close>

theorem mid_price_between:
  assumes "best_bid b = Some bid" "best_ask b = Some ask" "pl_price bid \<le> pl_price ask"
  shows "\<exists>mid. mid_price b = Some mid \<and> pl_price bid \<le> mid \<and> mid \<le> pl_price ask
           \<and> unat (raw_price mid) = (unat (raw_price (pl_price bid)) + unat (raw_price (pl_price ask))) div 2
           \<and> spread b = Some (abs_diff (pl_price bid) (pl_price ask))"
proof -
  let ?l = "raw_price (pl_price bid)" and ?h = "raw_price (pl_price ask)"
  have le: "unat ?l \<le> unat ?h" using assms(3) by (simp add: less_eq_price_def word_le_nat_alt)
  then have "unat ?l \<le> (unat ?l + unat ?h) div 2" "(unat ?l + unat ?h) div 2 \<le> unat ?h" by simp_all
  moreover have "sat_sub ?h ?l = abs_diff (pl_price bid) (pl_price ask)"
    using le word_unat_eq_iff [of ?l ?h]
    by (cases "?l = ?h") (auto simp: sat_sub_def abs_diff_def word_less_nat_alt)
  ultimately show ?thesis
    using assms by (simp add: mid_price_def spread_def less_eq_price_def word_le_nat_alt unat_mid)
qed

definition example_book :: order_book where
  "example_book = (order_book_empty 1)\<lparr>ob_bids := [\<lparr>pl_price = Price 10, pl_quantity = Quantity 1\<rparr>],
     ob_asks := [\<lparr>pl_price = Price 13, pl_quantity = Quantity 1\<rparr>], ob_bid_len := 1, ob_ask_len := 1\<rparr>"

theorem mid_price_between_witness:
  "\<exists>mid. mid_price example_book = Some mid \<and> unat (raw_price mid) = 11 \<and> spread example_book = Some 3"
  using mid_price_between [of example_book "\<lparr>pl_price = Price 10, pl_quantity = Quantity 1\<rparr>"
      "\<lparr>pl_price = Price 13, pl_quantity = Quantity 1\<rparr>"]
  by (auto simp: example_book_def best_bid_def best_ask_def less_eq_price_def abs_diff_def)

lemma empty_book_has_no_price: "mid_price (order_book_empty m) = None" "spread (order_book_empty m) = None"
  by (simp_all add: mid_price_def spread_def best_bid_def best_ask_def order_book_empty_def Let_def)

section \<open>Prices as doubles\<close>

lemma f64_of_small:
  assumes "n < 2 ^ 53"
  shows "f64_of_nat n = of_nat n"
proof (cases "n = 0")
  case False
  have "int n < int (2 ^ 53)" using assms by (simp only: of_nat_less_iff)
  then show ?thesis using f64_round_exact [of "int n" 0] False by (simp add: f64_of_nat_def)
qed (simp add: f64_of_nat_def)

lemma scale_f64: "f64_of_nat (unat PRICE_SCALE) = 1000000000"
proof -
  have "unat PRICE_SCALE = 1000000000" by (simp add: PRICE_SCALE_def)
  then show ?thesis by (simp add: f64_of_small)
qed

lemma f64_to_u64_of_nat: "f64_to_u64 (of_nat (unat w)) = w"
proof -
  have "unat w < 2 ^ 64" using unsigned_less [of w] by simp
  then have "rat_of_nat (unat w) < rat_of_nat (2 ^ 64)" by (simp only: of_nat_less_iff)
  then have "\<not> 2 ^ 64 \<le> rat_of_nat (unat w)" by (simp add: not_le)
  moreover have "of_nat (unat w) = w" by transfer simp
  ultimately show ?thesis by (simp add: f64_to_u64_def unat_eq_0)
qed

text \<open>Two roundings, a quotient and the product back, stay within a half of a number below \<open>2 ^ 50\<close>.\<close>

lemma two_roundings_near:
  fixes n :: rat
  assumes "0 \<le> n" "n \<le> 2 ^ 50" "0 < s"
  shows "\<bar>f64_round (f64_round (n / s) * s) - n\<bar> < 1 / 2"
proof -
  define q r where "q = f64_round (n / s) * s" and "r = f64_round q"
  have e: "0 < f64_eps" "f64_eps < 1" by (simp_all add: f64_eps_def)
  have q0: "0 \<le> q" using f64_round_nonneg [of "n / s"] assms by (simp add: q_def)
  have q: "n * (1 - f64_eps) \<le> q" "q \<le> n * (1 + f64_eps)"
    using mult_right_mono [OF f64_round_bounds(1) [of "n / s"], of s]
      mult_right_mono [OF f64_round_bounds(2) [of "n / s"], of s] assms by (simp_all add: q_def)
  have r: "q * (1 - f64_eps) \<le> r" "r \<le> q * (1 + f64_eps)" using f64_round_bounds [OF q0] by (simp_all add: r_def)
  have d: "\<bar>q - n\<bar> \<le> n * f64_eps" "\<bar>r - q\<bar> \<le> q * f64_eps" using q r by (simp_all add: abs_le_iff algebra_simps)
  have "n * f64_eps \<le> 2 ^ 50 * f64_eps" using assms(2) e(1) by (intro mult_right_mono) simp_all
  then have ne: "n * f64_eps \<le> 1 / 8" by (simp add: f64_eps_def)
  have "q \<le> 2 * n" using q(2) mult_left_mono [of "1 + f64_eps" 2 n] e(2) assms(1) by simp
  then have "q * f64_eps \<le> 2 * n * f64_eps" using e(1) by (intro mult_right_mono) simp_all
  then have qe: "q * f64_eps \<le> 2 * (n * f64_eps)" by simp
  have "\<bar>r - n\<bar> \<le> \<bar>r - q\<bar> + \<bar>q - n\<bar>" by arith
  then have "\<bar>r - n\<bar> < 1 / 2" using d qe ne by linarith
  then show ?thesis by (simp only: r_def q_def)
qed

text \<open>
  C40. A price survives the way through a double: for raw values below \<open>2 ^ 50\<close> (a million units and more at nine decimals) writing it as a
  double and reading it back gives the same price, although both conversions round.
\<close>

theorem price_survives_f64:
  assumes "unat (raw_price p) < 2 ^ 50"
  shows "price_from_f64 (price_as_f64 p) = p"
proof -
  define n where "n = unat (raw_price p)"
  define r where "r = f64_round (f64_round (rat_of_nat n / 1000000000) * 1000000000)"
  have "rat_of_nat n < rat_of_nat (2 ^ 50)" using assms by (simp only: n_def of_nat_less_iff)
  then have near: "\<bar>r - rat_of_nat n\<bar> < 1 / 2" unfolding r_def by (intro two_roundings_near) simp_all
  have "0 \<le> r" unfolding r_def by (intro f64_round_nonneg mult_nonneg_nonneg) simp_all
  moreover have "\<lfloor>r + 1 / 2\<rfloor> = int n" using near by (intro floor_unique) (simp_all only: of_int_of_nat_eq abs_less_iff, linarith+)
  ultimately have "f64_round_int r = rat_of_nat n" by (simp add: f64_round_int_def)
  moreover have "f64_of_nat n = rat_of_nat n" using assms by (intro f64_of_small) (simp add: n_def)
  then have "f64_mul (price_as_f64 p) 1000000000 = r"
    by (simp add: price_as_f64_def scale_f64 f64_div_def f64_mul_def r_def flip: n_def)
  ultimately show ?thesis using f64_to_u64_of_nat [of "raw_price p"] by (simp add: price_from_f64_def scale_f64 n_def)
qed

theorem price_survives_f64_witness: "price_from_f64 (price_as_f64 (Price 1500000001)) = Price 1500000001"
  using price_survives_f64 [of "Price 1500000001"] by simp

end
