(* ===== verification/Sim_Quote.thy ===== *)
theory Sim_Quote
  imports Prelude "HOL-Library.Signed_Division"
begin

text \<open>
  \<open>solana-sniper/src/sim_quote.rs\<close>: the reading of a simulated swap, the minimum output of a quote, price impact, the
  round-trip edge and the paper cost model.  The answer of the RPC node is an argument.  Values of type
  i128 are integers with their saturation written out; the lemmas show that nothing else leaves
  that range.
\<close>

section \<open>Reading a simulation\<close>

record sim_quote =
  sq_amount_out :: u64
  sq_compute_units :: "u64 option"

text \<open>
  The node's answer: its error flag, the post-state of the requested accounts (absent; or per account absent,
  undecodable or the bytes of its data) and the units consumed.
\<close>

datatype sim_account = NoAccount | Undecodable | AccountData bytes

record sim_response =
  sr_failed :: bool
  sr_accounts :: "sim_account list option"
  sr_units :: "u64 option"

datatype sim_error =
    RpcFailed | SimRejected | NoOutputState | UndecodableData | NotTokenAccount | NoOutputTokens
  | NoStates | WrongStateCount

definition token_amount :: "bytes \<Rightarrow> u64 option" where
  "token_amount data = map_option from_le_bytes (get_range 64 72 data)"

definition simulate_swap_output :: "sim_response option \<Rightarrow> u64 \<Rightarrow> sim_error + sim_quote" where
  "simulate_swap_output resp pre_balance =
     and_then (ok_or RpcFailed resp) (\<lambda>v.
     and_then (ensure (\<not> sr_failed v) SimRejected) (\<lambda>_.
     and_then (case sr_accounts v of
                 Some (AccountData d # _) \<Rightarrow> Inr d
               | Some (Undecodable # _) \<Rightarrow> Inl UndecodableData
               | _ \<Rightarrow> Inl NoOutputState) (\<lambda>data.
     and_then (ok_or NotTokenAccount (token_amount data)) (\<lambda>post.
     and_then (ok_or NoOutputTokens
                 (case checked_sub post pre_balance of
                    Some d \<Rightarrow> if 0 < d then Some d else None | None \<Rightarrow> None)) (\<lambda>out.
     Inr \<lparr> sq_amount_out = out, sq_compute_units = sr_units v \<rparr>)))))"

fun state_amount :: "sim_account \<Rightarrow> sim_error + u64 option" where
  "state_amount NoAccount = Inr None"
| "state_amount Undecodable = Inl UndecodableData"
| "state_amount (AccountData d) =
     (case token_amount d of None \<Rightarrow> Inl NotTokenAccount | Some n \<Rightarrow> Inr (Some n))"

definition simulate_token_accounts ::
    "sim_response option \<Rightarrow> nat \<Rightarrow> sim_error + (u64 option list \<times> u64 option)" where
  "simulate_token_accounts resp n_accounts =
     and_then (ok_or RpcFailed resp) (\<lambda>v.
     and_then (ensure (\<not> sr_failed v) SimRejected) (\<lambda>_.
     and_then (ok_or NoStates (sr_accounts v)) (\<lambda>states.
     and_then (ensure (length states = n_accounts) WrongStateCount) (\<lambda>_.
     and_then (try_map state_amount states) (\<lambda>amounts.
     Inr (amounts, sr_units v))))))"

section \<open>Quotes\<close>

definition min_out :: "u64 \<Rightarrow> u64 \<Rightarrow> u64" where
  "min_out exact_out slippage_bps =
     (let keep = sat_sub 10000 (ucast (min slippage_bps 10000)) :: u128
      in max (ucast (ucast exact_out * keep div 10000)) 1)"

definition price_impact_bps :: "u64 \<Rightarrow> u64 \<Rightarrow> u64" where
  "price_impact_bps spot_out exact_out =
     (if spot_out = 0 then 10000
      else if spot_out \<le> exact_out then 0
      else ucast ((ucast (spot_out - exact_out) * 10000 :: u128) div ucast spot_out))"

definition position_liquidity_bps :: "u64 \<Rightarrow> u64 \<Rightarrow> u64 option" where
  "position_liquidity_bps position liquidity =
     (if liquidity = 0 then None
      else let r = (ucast position * 10000 :: u128) div ucast liquidity
           in Some (ucast (min r (ucast u64_max))))"

definition deviation_bps :: "u64 \<Rightarrow> u64 \<Rightarrow> i64 option" where
  "deviation_bps model actual =
     (if model = 0 then None
      else let d = ((int (unat actual) - int (unat model)) * 10000) sdiv int (unat model)
           in if i64_ok d then Some d else None)"

section \<open>The round-trip edge\<close>

record edge_inputs =
  ei_take_profit_bps :: u64
  ei_fee_rate_ppm :: u64
  ei_entry_impact_bps :: u64
  ei_exit_impact_pct :: u64
  ei_network_cost_per_tx :: u64
  ei_failed_tx_reserve :: u64
  ei_exit_slippage_bps :: u64
  ei_position_lamports :: u64

record edge_breakdown_t =
  eb_expected_return_bps :: i64
  eb_fee_cost_bps :: i64
  eb_entry_impact_bps :: i64
  eb_exit_impact_bps :: i64
  eb_network_cost_bps :: i64
  eb_failed_tx_reserve_bps :: i64
  eb_exit_cost_bps :: i64
  eb_net_edge_bps :: i64
  eb_worst_case_edge_bps :: i64

definition i128_max :: int where "i128_max = 2 ^ 127 - 1"

definition i128_sat_mul :: "int \<Rightarrow> int \<Rightarrow> int" where
  "i128_sat_mul a b = max (- (2 ^ 127)) (min i128_max (a * b))"

definition bps_of :: "u128 \<Rightarrow> u128 \<Rightarrow> int" where
  "bps_of lamports position = int (unat (min (sat_mul lamports 10000 div position) (ucast (9223372036854775807 :: u64))))"

definition clamp_half :: "int \<Rightarrow> i64" where
  "clamp_half v = max (- (2 ^ 62)) (min 4611686018427387903 v)"

definition edge_breakdown :: "edge_inputs \<Rightarrow> edge_breakdown_t option" where
  "edge_breakdown i =
     (if ei_position_lamports i = 0 then None
      else let pos = ucast (ei_position_lamports i) :: u128;
               fee_leg = int (unat (ei_fee_rate_ppm i div 100));
               entry_impact = int (unat (ei_entry_impact_bps i));
               exit_impact = i128_sat_mul entry_impact (int (unat (max (ei_exit_impact_pct i) 100))) div 100;
               net_leg = bps_of (ucast (ei_network_cost_per_tx i)) pos;
               reserve = bps_of (sat_mul (ucast (ei_network_cost_per_tx i)) (ucast (ei_failed_tx_reserve i))) pos;
               expected = int (unat (ei_take_profit_bps i));
               exit_cost = fee_leg + exit_impact + net_leg + reserve;
               net = expected - (fee_leg + entry_impact + net_leg) - exit_cost;
               worst = net - int (unat (ei_exit_slippage_bps i))
           in Some \<lparr> eb_expected_return_bps = clamp_half expected, eb_fee_cost_bps = clamp_half (2 * fee_leg),
                eb_entry_impact_bps = clamp_half entry_impact, eb_exit_impact_bps = clamp_half exit_impact,
                eb_network_cost_bps = clamp_half (2 * net_leg), eb_failed_tx_reserve_bps = clamp_half reserve,
                eb_exit_cost_bps = clamp_half exit_cost, eb_net_edge_bps = clamp_half net,
                eb_worst_case_edge_bps = clamp_half worst \<rparr>)"

section \<open>Paper costs\<close>

record paper_cost =
  pc_fee :: u64
  pc_entry_impact :: u64
  pc_exit_impact :: u64
  pc_latency :: u64
  pc_network :: u64
  pc_total :: u64

record paper_cost_model =
  pm_fee_rate_ppm :: u64
  pm_exit_impact_pct :: u64
  pm_latency_bps_per_leg :: u64
  pm_network_cost_per_tx :: u64

definition cp_impact_lamports :: "u64 \<Rightarrow> u64 \<Rightarrow> u64" where
  "cp_impact_lamports amount liquidity =
     (if liquidity = 0 then amount
      else let a = ucast amount :: u128 in ucast (a * a div (ucast liquidity + a)))"

definition sat_u64 :: "u128 \<Rightarrow> u64" where
  "sat_u64 v = ucast (min v (ucast u64_max))"

definition paper_round_trip_cost :: "paper_cost_model \<Rightarrow> u64 \<Rightarrow> u64 \<Rightarrow> u64 \<Rightarrow> paper_cost" where
  "paper_round_trip_cost m position entry_liq exit_liq =
     (let pos = ucast position :: u128;
          fee = 2 * pos * ucast (min (pm_fee_rate_ppm m) 1000000) div 1000000;
          entry_impact = ucast (cp_impact_lamports position entry_liq) :: u128;
          exit_impact = ucast (cp_impact_lamports position exit_liq)
                          * ucast (max 100 (min (pm_exit_impact_pct m) 10000)) div 100;
          latency = 2 * pos * ucast (min (pm_latency_bps_per_leg m) 10000) div 10000;
          network = 2 * ucast (pm_network_cost_per_tx m)
      in \<lparr> pc_fee = sat_u64 fee, pc_entry_impact = sat_u64 entry_impact, pc_exit_impact = sat_u64 exit_impact,
           pc_latency = sat_u64 latency, pc_network = sat_u64 network,
           pc_total = sat_u64 (fee + entry_impact + exit_impact + latency + network) \<rparr>)"

definition tx_network_cost_lamports :: "u32 \<Rightarrow> u64 \<Rightarrow> u64" where
  "tx_network_cost_lamports cu_limit cu_price =
     (let priority = ucast cu_limit * ucast cu_price div 1000000 :: u128
      in sat_u64 (5000 + priority))"

section \<open>Properties\<close>

lemma unat_min_word: "unat (min x y) = min (unat x) (unat (y :: 'a::len word))"
  by (simp add: min_def word_le_nat_alt)

lemma unat_max_of_word: "unat (max x y) = max (unat x) (unat (y :: 'a::len word))"
  by (simp add: max_def word_le_nat_alt)

lemma unat_sat_u64: "unat (sat_u64 v) = min (unat v) (2 ^ 64 - 1)"
proof -
  have "unat (min v (ucast u64_max)) = min (unat v) (2 ^ 64 - 1)"
    by (simp add: unat_min_word unat_max_word)
  then show ?thesis unfolding sat_u64_def by (subst unat_u128_u64) simp_all
qed

text \<open>
  The minimum output of a quote is the floor of exact * (1 - slippage), never below 1 and never above the exact
  output of a non-zero quote, for every slippage; a tolerance of 100 percent or more asks for 1.
\<close>

theorem min_out_exact:
  "unat (min_out e s) = max 1 (unat e * (10000 - unat s) div 10000)
   \<and> 1 \<le> min_out e s \<and> min_out e s \<le> max 1 e"
proof -
  let ?k = "sat_sub 10000 (ucast (min s 10000)) :: u128"
  have k: "unat ?k = 10000 - unat s" by (simp add: unat_sat_sub unat_min_word)
  have "unat e * (10000 - unat s) < 2 ^ 128" by (rule u64_times_lt) simp
  then have p: "unat (ucast e * ?k div 10000) = unat e * (10000 - unat s) div 10000"
    by (simp add: unat_div_word unat_mult_small k)
  have le: "unat e * (10000 - unat s) div 10000 \<le> unat e"
    by (rule order.trans [OF div_le_mono [of _ "unat e * 10000"]]) simp_all
  then have "unat (ucast (ucast e * ?k div 10000) :: u64) = unat e * (10000 - unat s) div 10000"
    using p u64_le_max [of e] by (subst unat_u128_u64) simp_all
  then have eq: "unat (min_out e s) = max 1 (unat e * (10000 - unat s) div 10000)"
    by (simp add: min_out_def Let_def unat_max_of_word max.commute)
  moreover have "unat (min_out e s) \<le> max 1 (unat e)"
    using eq le by simp
  ultimately show ?thesis by (auto simp: word_le_nat_alt unat_max_of_word)
qed

lemma clamp_half_mono: "x \<le> y \<Longrightarrow> clamp_half x \<le> clamp_half y"
  by (auto simp: clamp_half_def)

lemma bps_of_nonneg: "0 \<le> bps_of a b"
  by (simp add: bps_of_def)

lemma exit_impact_ge:
  "int (unat (e :: u64)) \<le> i128_sat_mul (int (unat e)) (int (unat (max (p :: u64) 100))) div 100"
proof -
  have "int (unat e) * 100 \<le> int (unat e) * int (unat (max p 100))"
    by (intro mult_left_mono) (simp_all add: unat_max_of_word)
  moreover have "int (unat e) * 100 \<le> i128_max"
    using u64_le_max [of e] by (simp add: i128_max_def)
  ultimately have "int (unat e) * 100 \<le> i128_sat_mul (int (unat e)) (int (unat (max p 100)))"
    by (simp add: i128_sat_mul_def)
  then show ?thesis by (simp add: zdiv_mono1)
qed

lemma edge_fields:
  shows "edge_breakdown i = None \<longleftrightarrow> ei_position_lamports i = 0"
    and "edge_breakdown i = Some b \<Longrightarrow>
        eb_entry_impact_bps b \<le> eb_exit_impact_bps b
        \<and> eb_worst_case_edge_bps b \<le> eb_net_edge_bps b
        \<and> eb_net_edge_bps b
            \<le> clamp_half (int (unat (ei_take_profit_bps i)) - 2 * int (unat (ei_entry_impact_bps i)))
        \<and> eb_net_edge_bps b \<le> eb_expected_return_bps b"
proof -
  show "edge_breakdown i = None \<longleftrightarrow> ei_position_lamports i = 0" by (simp add: edge_breakdown_def Let_def)
  assume b: "edge_breakdown i = Some b"
  note fields = b [unfolded edge_breakdown_def Let_def]
  note impact = exit_impact_ge [of "ei_entry_impact_bps i" "ei_exit_impact_pct i"]
  note nn = bps_of_nonneg
  have "eb_entry_impact_bps b \<le> eb_exit_impact_bps b"
    using fields impact by (auto split: if_splits intro!: clamp_half_mono)
  moreover have "eb_worst_case_edge_bps b \<le> eb_net_edge_bps b"
    using fields by (auto split: if_splits intro!: clamp_half_mono)
  moreover have "eb_net_edge_bps b \<le> clamp_half (int (unat (ei_take_profit_bps i)) - 2 * int (unat (ei_entry_impact_bps i)))"
    using fields impact nn [of "ucast (ei_network_cost_per_tx i)" "ucast (ei_position_lamports i)"]
      nn [of "sat_mul (ucast (ei_network_cost_per_tx i)) (ucast (ei_failed_tx_reserve i))" "ucast (ei_position_lamports i)"]
    by (auto split: if_splits intro!: clamp_half_mono)
  moreover have "eb_net_edge_bps b \<le> eb_expected_return_bps b"
    using fields impact nn [of "ucast (ei_network_cost_per_tx i)" "ucast (ei_position_lamports i)"]
      nn [of "sat_mul (ucast (ei_network_cost_per_tx i)) (ucast (ei_failed_tx_reserve i))" "ucast (ei_position_lamports i)"]
    by (auto split: if_splits intro!: clamp_half_mono)
  ultimately show "eb_entry_impact_bps b \<le> eb_exit_impact_bps b
      \<and> eb_worst_case_edge_bps b \<le> eb_net_edge_bps b
      \<and> eb_net_edge_bps b
          \<le> clamp_half (int (unat (ei_take_profit_bps i)) - 2 * int (unat (ei_entry_impact_bps i)))
      \<and> eb_net_edge_bps b \<le> eb_expected_return_bps b" by blast
qed

text \<open>
  The edge estimate is conservative: the exit is never assumed cheaper in impact than the entry, the worst case is at most the net edge,
  and the net edge at most the targeted return less the impacts of both legs; only a zero position has no estimate.
\<close>

theorem edge_is_conservative:
  "case edge_breakdown i of
     None \<Rightarrow> ei_position_lamports i = 0
   | Some b \<Rightarrow>
        ei_position_lamports i \<noteq> 0 \<and> eb_entry_impact_bps b \<le> eb_exit_impact_bps b
        \<and> eb_worst_case_edge_bps b \<le> eb_net_edge_bps b
        \<and> eb_net_edge_bps b
            \<le> clamp_half (int (unat (ei_take_profit_bps i)) - 2 * int (unat (ei_entry_impact_bps i)))
        \<and> eb_net_edge_bps b \<le> eb_expected_return_bps b"
  using edge_fields [of i] by (auto split: option.split)

section \<open>The paper cost estimate\<close>

lemma cp_impact_unat:
  "unat (cp_impact_lamports a l) =
     (if l = 0 then unat a else unat a * unat a div (unat l + unat a))"
proof (cases "l = 0")
  case False
  have "unat l + unat a < 2 ^ 128" using u64_le_max [of l] u64_le_max [of a] by simp
  then have q: "unat ((ucast a * ucast a :: u128) div (ucast l + ucast a)) = unat a * unat a div (unat l + unat a)"
    by (simp add: unat_div_word unat_add_small)
  have "unat a * unat a \<le> unat a * (unat l + unat a)" by simp
  then have "unat a * unat a div (unat l + unat a) \<le> unat a"
    using False by (metis add_is_0 div_le_mono mult.commute nonzero_mult_div_cancel_left unat_0_iff)
  with q u64_le_max [of a] have "unat (ucast ((ucast a * ucast a :: u128) div (ucast l + ucast a)) :: u64)
      = unat a * unat a div (unat l + unat a)"
    by (subst unat_u128_u64) simp_all
  with False show ?thesis by (simp add: cp_impact_lamports_def Let_def)
qed (simp add: cp_impact_lamports_def)

lemma cp_impact_le: "cp_impact_lamports a l \<le> a"
proof (cases "l = 0")
  case False
  then have "unat a * unat a div (unat l + unat a) \<le> unat a"
    by (metis add_is_0 div_le_mono mult.commute nonzero_mult_div_cancel_left unat_0_iff
        le_add2 mult_le_mono1)
  with False show ?thesis by (simp add: word_le_nat_alt cp_impact_unat)
qed (simp add: word_le_nat_alt cp_impact_unat)

lemma two_pos_scaled:
  assumes "unat m \<le> (2 :: nat) ^ 32"
  shows "unat (2 * ucast (p :: u64) * ucast (m :: u64) :: u128) = 2 * unat p * unat m"
proof -
  have p2: "unat (2 * ucast p :: u128) = 2 * unat p"
    using u64_le_max [of p] by (subst unat_mult_small) simp_all
  have "2 * unat p * unat m \<le> 2 * 2 ^ 64 * 2 ^ 32"
    using u64_le_max [of p] assms by (intro mult_le_mono) simp_all
  then show ?thesis using p2 by (subst unat_mult_small) simp_all
qed

definition paper_parts :: "paper_cost_model \<Rightarrow> u64 \<Rightarrow> u64 \<Rightarrow> u64 \<Rightarrow> nat list" where
  "paper_parts m position entry_liq exit_liq =
     [2 * unat position * min (unat (pm_fee_rate_ppm m)) 1000000 div 1000000,
      unat (cp_impact_lamports position entry_liq),
      unat (cp_impact_lamports position exit_liq) * max 100 (min (unat (pm_exit_impact_pct m)) 10000) div 100,
      2 * unat position * min (unat (pm_latency_bps_per_leg m)) 10000 div 10000,
      2 * unat (pm_network_cost_per_tx m)]"

lemma unat_add5:
  assumes "unat a + unat b + unat c + unat d + unat (e :: u128) < 2 ^ 128"
  shows "unat (a + b + c + d + e) = unat a + unat b + unat c + unat d + unat e"
proof -
  have "unat (a + b + c + d) = unat a + unat b + unat c + unat d"
    using assms by (simp add: unat_add_small)
  with assms show ?thesis by (subst unat_add_small) simp_all
qed

text \<open>
  The paper round-trip cost is exact and saturating: each component is the exact integer formula, cut at \<open>u64::MAX\<close>, the total is
  the cut sum of the exact components (no 128-bit operation wraps), and an unknown exit liquidity costs at least the whole
  position.
\<close>

theorem paper_cost_exact:
  "let c = paper_round_trip_cost m pos el xl; parts = paper_parts m pos el xl; cut = min (2 ^ 64 - 1)
   in [unat (pc_fee c), unat (pc_entry_impact c), unat (pc_exit_impact c), unat (pc_latency c), unat (pc_network c)]
        = map cut parts
      \<and> unat (pc_total c) = cut (sum_list parts)
      \<and> pos \<le> pc_total (paper_round_trip_cost m pos el 0)"
proof -
  let ?fee = "2 * ucast pos * ucast (min (pm_fee_rate_ppm m) 1000000) div 1000000 :: u128"
  let ?lat = "2 * ucast pos * ucast (min (pm_latency_bps_per_leg m) 10000) div 10000 :: u128"
  let ?net = "2 * ucast (pm_network_cost_per_tx m) :: u128"
  let ?pct = "max 100 (min (pm_exit_impact_pct m) 10000)"
  let ?ent = "ucast (cp_impact_lamports pos el) :: u128"
  let ?ex = "\<lambda>xl. ucast (cp_impact_lamports pos xl) * ucast ?pct div 100 :: u128"
  have fee: "unat ?fee = 2 * unat pos * min (unat (pm_fee_rate_ppm m)) 1000000 div 1000000"
    by (subst unat_div_word, subst two_pos_scaled) (simp_all add: unat_min_word)
  have lat: "unat ?lat = 2 * unat pos * min (unat (pm_latency_bps_per_leg m)) 10000 div 10000"
    by (subst unat_div_word, subst two_pos_scaled) (simp_all add: unat_min_word)
  have net: "unat ?net = 2 * unat (pm_network_cost_per_tx m)"
    using u64_le_max [of "pm_network_cost_per_tx m"] by (subst unat_mult_small) simp_all
  have ex: "unat (?ex xl) = unat (cp_impact_lamports pos xl)
      * max 100 (min (unat (pm_exit_impact_pct m)) 10000) div 100" for xl
    by (simp add: unat_div_word unat_max_of_word unat_min_word)
  have bounds: "unat ?fee \<le> 2 * 2 ^ 64" "unat ?lat \<le> 2 * 2 ^ 64" "unat ?net \<le> 2 * 2 ^ 64"
    "unat ?ent \<le> 2 ^ 64" "unat (?ex xl) \<le> 2 ^ 64 * 10000" for xl
  proof -
    have g: "2 * unat pos * k div n \<le> 2 * 2 ^ 64" if "k \<le> n" "0 < n" for k n
    proof -
      have "2 * unat pos * k div n \<le> 2 * unat pos * n div n" using that by (intro div_le_mono) simp
      then show ?thesis using u64_le_max [of pos] that by simp
    qed
    show "unat ?fee \<le> 2 * 2 ^ 64" unfolding fee by (rule g) simp_all
    show "unat ?lat \<le> 2 * 2 ^ 64" unfolding lat by (rule g) simp_all
    show "unat ?net \<le> 2 * 2 ^ 64" unfolding net using u64_le_max [of "pm_network_cost_per_tx m"] by simp
    show "unat ?ent \<le> 2 ^ 64" using u64_le_max [of "cp_impact_lamports pos el"] by simp
    have "unat (cp_impact_lamports pos xl) * max 100 (min (unat (pm_exit_impact_pct m)) 10000) \<le> 2 ^ 64 * 10000"
      using u64_le_max [of "cp_impact_lamports pos xl"] by (intro mult_le_mono) simp_all
    then show "unat (?ex xl) \<le> 2 ^ 64 * 10000" unfolding ex by (rule order.trans [OF div_le_dividend])
  qed
  have sum: "unat (?fee + ?ent + ?ex xl + ?lat + ?net)
      = unat ?fee + unat ?ent + unat (?ex xl) + unat ?lat + unat ?net" for xl
    using bounds(1-4) bounds(5) [of xl] by (intro unat_add5) simp
  have whole: "pos \<le> pc_total (paper_round_trip_cost m pos el 0)"
  proof -
    have "unat pos * 100 \<le> unat pos * max 100 (min (unat (pm_exit_impact_pct m)) 10000)" by simp
    then have "unat pos * 100 div 100 \<le> unat pos * max 100 (min (unat (pm_exit_impact_pct m)) 10000) div 100"
      by (rule div_le_mono)
    then have "unat pos \<le> unat (?ex 0)" unfolding ex cp_impact_unat by simp
    then have "unat pos \<le> unat (?fee + ?ent + ?ex 0 + ?lat + ?net)" unfolding sum by simp
    then show ?thesis
      using u64_le_max [of pos] by (simp add: paper_round_trip_cost_def Let_def word_le_nat_alt unat_sat_u64)
  qed
  have total: "unat (pc_total (paper_round_trip_cost m pos el xl))
      = min (2 ^ 64 - 1) (unat ?fee + unat ?ent + unat (?ex xl) + unat ?lat + unat ?net)"
    unfolding sum [symmetric] by (simp only: paper_round_trip_cost_def Let_def paper_cost.simps unat_sat_u64 min.commute)
  show ?thesis
    using whole total
    by (simp only: Let_def paper_parts_def list.map sum_list.Cons sum_list.Nil fee lat net ex
        paper_round_trip_cost_def paper_cost.simps unat_sat_u64 unat_u64_u128 min.commute simp_thms add.assoc add_0_right)
qed

lemma price_impact_le: "price_impact_bps s e \<le> 10000"
proof (cases "s = 0 \<or> s \<le> e")
  case False
  then have d: "unat (s - e) \<le> unat s" "0 < unat s"
    by (auto simp: unat_sub_small word_le_nat_alt unat_gt_0)
  have "unat (s - e) * 10000 div unat s \<le> unat s * 10000 div unat s" by (intro div_le_mono mult_le_mono1 d(1))
  then have "unat (s - e) * 10000 div unat s \<le> 10000" using d(2) by simp
  with False show ?thesis
    by (simp add: price_impact_bps_def word_le_nat_alt unat_u128_u64 unat_div_word)
qed (auto simp: price_impact_bps_def)

text \<open>A simulated quote is the positive gain of the output account.\<close>

lemma positive_gain:
  "(case checked_sub post pre of Some d \<Rightarrow> if 0 < d then Some d else None | None \<Rightarrow> None) = Some out
     \<Longrightarrow> unat out + unat pre = unat post \<and> 0 < out"
  by (cases "checked_sub post pre") (simp_all add: checked_sub_unat split: if_splits)

lemma simulated_output:
  assumes "simulate_swap_output resp pre = Inr q"
  shows "\<exists>v d post. resp = Some v \<and> \<not> sr_failed v \<and> token_amount d = Some post
           \<and> unat (sq_amount_out q) + unat pre = unat post \<and> 0 < sq_amount_out q"
proof -
  obtain v d post out where "resp = Some v" "\<not> sr_failed v" "token_amount d = Some post" "sq_amount_out q = out"
    "(case checked_sub post pre of Some d \<Rightarrow> if 0 < d then Some d else None | None \<Rightarrow> None) = Some out"
    using assms unfolding simulate_swap_output_def and_then_eq_Inr ok_or_eq_Inr ensure_eq_Inr
    by (elim exE conjE) (simp only: sum.inject; hypsubst; simp)
  then show ?thesis using positive_gain by blast
qed

end
