(* ===== verification/Solana.thy ===== *)
theory Solana
  imports Prelude
begin

text \<open>
  What the pool and token components share about Solana: public keys as their bytes, accounts as an owner with data, the
  fields read at fixed offsets, and the functions of the Solana SDK the program calls (the parser of a
  base58 key and the derivation of program addresses), which are the fields of a record the definitions take.
\<close>

type_synonym pubkey = bytes

record solana_sdk =
  key_of :: "string \<Rightarrow> pubkey"                   \<comment> \<open>\<open>Pubkey::from_str(..).unwrap()\<close>\<close>
  find_pda :: "bytes list \<Rightarrow> pubkey \<Rightarrow> pubkey"     \<comment> \<open>\<open>Pubkey::find_program_address(..).0\<close>\<close>

type_synonym raw_account = "pubkey \<times> bytes"

definition default_key :: pubkey where
  "default_key = replicate 32 0"

definition pubkey_at :: "bytes \<Rightarrow> nat \<Rightarrow> pubkey" where
  "pubkey_at d off = take 32 (drop off d)"

definition u16_at :: "bytes \<Rightarrow> nat \<Rightarrow> u16" where
  "u16_at d off = from_le_bytes (take 2 (drop off d))"

definition u32_at :: "bytes \<Rightarrow> nat \<Rightarrow> u32" where
  "u32_at d off = from_le_bytes (take 4 (drop off d))"

definition u64_at :: "bytes \<Rightarrow> nat \<Rightarrow> u64" where
  "u64_at d off = from_le_bytes (take 8 (drop off d))"

definition u128_at :: "bytes \<Rightarrow> nat \<Rightarrow> u128" where
  "u128_at d off = from_le_bytes (take 16 (drop off d))"

text \<open>Instructions as the SDK builds them.\<close>

record account_meta =
  am_key :: pubkey
  am_signer :: bool
  am_writable :: bool

record instr =
  ix_program :: pubkey
  ix_metas :: "account_meta list"
  ix_bytes :: bytes

definition meta_new :: "pubkey \<Rightarrow> bool \<Rightarrow> account_meta" where
  "meta_new k signer = \<lparr> am_key = k, am_signer = signer, am_writable = True \<rparr>"

definition meta_readonly :: "pubkey \<Rightarrow> bool \<Rightarrow> account_meta" where
  "meta_readonly k signer = \<lparr> am_key = k, am_signer = signer, am_writable = False \<rparr>"

text \<open>The keys that must sign an instruction.\<close>

definition signers :: "instr \<Rightarrow> pubkey list" where
  "signers ix = map am_key (filter am_signer (ix_metas ix))"

lemma meta_simps [simp]:
  "am_key (meta_new k s) = k" "am_signer (meta_new k s) = s" "am_writable (meta_new k s)"
  "am_key (meta_readonly k s) = k" "am_signer (meta_readonly k s) = s" "\<not> am_writable (meta_readonly k s)"
  by (simp_all add: meta_new_def meta_readonly_def)

text \<open>A concrete SDK, on which the theorems about accounts are evaluated.\<close>

definition demo_sdk :: solana_sdk where
  "demo_sdk = \<lparr> key_of = (\<lambda>s. take 32 (map of_char s @ replicate 32 0)),
                find_pda = (\<lambda>seeds program. take 32 (rev (concat seeds) @ program @ replicate 32 0)) \<rparr>"

section \<open>Layouts\<close>

text \<open>A field of a serialized layout starts where the fields before it end.\<close>

lemma field_at: "n = length pre \<Longrightarrow> k = length f \<Longrightarrow> take k (drop n (pre @ f @ rest)) = f"
  by simp

lemma pubkey_at_key [simp]: "length k = 32 \<Longrightarrow> pubkey_at (k @ rest) 0 = k"
  by (simp add: pubkey_at_def)

lemma length_to_le_bytes [simp]: "length (to_le_bytes n x) = n"
  by (simp add: to_le_bytes_def)

lemma u64_at_bytes [simp]: "u64_at (to_le_bytes 8 x @ rest) 0 = x"
  by (simp add: u64_at_def from_to_le_bytes)

lemma u128_at_bytes [simp]: "u128_at (to_le_bytes 16 x @ rest) 0 = x"
  by (simp add: u128_at_def from_to_le_bytes)

lemma u32_at_bytes [simp]: "u32_at (to_le_bytes 4 x @ rest) 0 = x"
  by (simp add: u32_at_def from_to_le_bytes)

lemma at_skip:
  "length f \<le> n \<Longrightarrow> pubkey_at (f @ rest) n = pubkey_at rest (n - length f)"
  "length f \<le> n \<Longrightarrow> u16_at (f @ rest) n = u16_at rest (n - length f)"
  "length f \<le> n \<Longrightarrow> u32_at (f @ rest) n = u32_at rest (n - length f)"
  "length f \<le> n \<Longrightarrow> u64_at (f @ rest) n = u64_at rest (n - length f)"
  "length f \<le> n \<Longrightarrow> u128_at (f @ rest) n = u128_at rest (n - length f)"
  by (simp_all add: pubkey_at_def u16_at_def u32_at_def u64_at_def u128_at_def)

lemma at_skip_Cons:
  "0 < n \<Longrightarrow> pubkey_at (b # rest) n = pubkey_at rest (n - 1)"
  "0 < n \<Longrightarrow> u16_at (b # rest) n = u16_at rest (n - 1)"
  "0 < n \<Longrightarrow> u32_at (b # rest) n = u32_at rest (n - 1)"
  "0 < n \<Longrightarrow> u64_at (b # rest) n = u64_at rest (n - 1)"
  "0 < n \<Longrightarrow> u128_at (b # rest) n = u128_at rest (n - 1)"
  by (simp_all add: pubkey_at_def u16_at_def u32_at_def u64_at_def u128_at_def drop_Cons')

lemma at_end [simp]:
  "length k = 32 \<Longrightarrow> pubkey_at k 0 = k" "u64_at (to_le_bytes 8 x) 0 = x" "u32_at (to_le_bytes 4 y) 0 = y"
  using pubkey_at_key [of k "[]"] u64_at_bytes [of x "[]"] u32_at_bytes [of y "[]"] by simp_all

section \<open>Integer square root\<close>

text \<open>\<open>u128::isqrt\<close>: the floor of the square root, two bits at a time.\<close>

fun nat_sqrt :: "nat \<Rightarrow> nat" where
  "nat_sqrt n =
     (if n = 0 then 0
      else let r = 2 * nat_sqrt (n div 4) in if (r + 1) * (r + 1) \<le> n then r + 1 else r)"

declare nat_sqrt.simps [simp del]

lemma nat_sqrt_bounds: "nat_sqrt n * nat_sqrt n \<le> n \<and> n < (nat_sqrt n + 1) * (nat_sqrt n + 1)"
proof (induction n rule: nat_sqrt.induct)
  case (1 n)
  show ?case
  proof (cases "n = 0")
    case True
    then show ?thesis by (simp add: nat_sqrt.simps)
  next
    case False
    define s where "s = nat_sqrt (n div 4)"
    have IH: "s * s \<le> n div 4" "n div 4 < (s + 1) * (s + 1)" using 1 False by (simp_all add: s_def)
    have lo: "(2 * s) * (2 * s) \<le> n" using IH(1) by (simp add: algebra_simps)
    have "n < 4 * ((s + 1) * (s + 1))" using IH(2) by linarith
    then have hi: "n < (2 * s + 2) * (2 * s + 2)" by (simp add: algebra_simps)
    have sq: "nat_sqrt n = (if (2 * s + 1) * (2 * s + 1) \<le> n then 2 * s + 1 else 2 * s)"
      using False by (subst nat_sqrt.simps) (simp add: Let_def s_def)
    show ?thesis using lo hi unfolding sq by simp
  qed
qed

definition isqrt :: "u128 \<Rightarrow> u128" where
  "isqrt x = of_nat (nat_sqrt (unat x))"

lemma unat_isqrt: "unat (isqrt x) = nat_sqrt (unat x)"
proof -
  have "nat_sqrt (unat x) \<le> nat_sqrt (unat x) * nat_sqrt (unat x)" by simp
  then have "nat_sqrt (unat x) \<le> unat x" using nat_sqrt_bounds [of "unat x"] by linarith
  then have "nat_sqrt (unat x) < 2 ^ 128" using u128_le_max [of x] by simp
  then show ?thesis by (simp add: isqrt_def unsigned_of_nat take_bit_nat_eq_self_iff)
qed

lemma isqrt_small: "unat (isqrt x) < 2 ^ 64"
proof (rule ccontr)
  assume "\<not> unat (isqrt x) < 2 ^ 64"
  then have "2 ^ 64 * 2 ^ 64 \<le> unat (isqrt x) * unat (isqrt x)" by (intro mult_le_mono) simp_all
  then have "2 ^ 128 \<le> unat x"
    using nat_sqrt_bounds [of "unat x"] by (simp add: unat_isqrt)
  then show False using u128_le_max [of x] by simp
qed

end
