(* ===== verification/Rpc_Batch.thy ===== *)
theory Rpc_Batch
  imports Prelude "HOL-Library.Sublist"
begin

text \<open>
  \<open>solana-sniper/src/rpc_util.rs\<close>: the batching of \<open>getMultipleAccounts\<close>.  The fetcher is an argument that threads
  its own state (the RPC node may answer each call differently); the learned batch size is state that outlives the
  call.
\<close>

fun contains :: "string \<Rightarrow> string \<Rightarrow> bool" where
  "contains p [] \<longleftrightarrow> p = []"
| "contains p (c # cs) \<longleftrightarrow> prefix p (c # cs) \<or> contains p cs"

definition MAX_MULTIPLE_ACCOUNTS :: nat where
  "MAX_MULTIPLE_ACCOUNTS = 100"

definition is_too_large :: "string \<Rightarrow> bool" where
  "is_too_large err \<longleftrightarrow> contains ''413'' err"

datatype batch_error = WrongEntryCount nat nat | FetchError string

definition batch_size :: "nat \<Rightarrow> nat \<Rightarrow> nat" where
  "batch_size learned left = min (max 1 (min MAX_MULTIPLE_ACCOUNTS learned)) left"

text \<open>
  \<open>fetch_in_batches\<close>: \<open>keys\<close> are the keys from position \<open>i\<close> on, \<open>out\<close> the entries so far.  The result comes with the
  learned size and the state of the fetcher.
\<close>

function fetch_in_batches ::
    "('s \<Rightarrow> 'k list \<Rightarrow> (string + 'a option list) \<times> 's) \<Rightarrow> 's \<Rightarrow> nat \<Rightarrow> 'k list \<Rightarrow> 'a option list
       \<Rightarrow> (batch_error + 'a option list) \<times> nat \<times> 's" where
  "fetch_in_batches fetch s learned keys out =
     (if keys = [] then (Inr out, learned, s)
      else
        let size = batch_size learned (length keys);
            chunk = take size keys
        in case fetch s chunk of
             (Inr v, s') \<Rightarrow>
               if length v = length chunk
               then fetch_in_batches fetch s' learned (drop size keys) (out @ v)
               else (Inl (WrongEntryCount (length v) (length chunk)), learned, s')
           | (Inl e, s') \<Rightarrow>
               if is_too_large e \<and> 1 < size
               then fetch_in_batches fetch s' (size div 2) keys out
               else (Inl (FetchError e), learned, s'))"
  by pat_completeness auto

lemma batch_size_pos: "keys \<noteq> [] \<Longrightarrow> 0 < batch_size learned (length keys)"
  by (simp add: batch_size_def)

lemma batch_size_halves: "Suc 0 < batch_size learned n \<Longrightarrow> batch_size learned n div 2 < learned"
  by (auto simp: batch_size_def split: if_splits)

lemma batch_size_le: "batch_size learned (length keys) \<le> length keys"
  by (simp add: batch_size_def)

termination fetch_in_batches
proof (relation "measure (\<lambda>(_, _, learned, keys, _). learned + length keys)", goal_cases)
  case (2 fetch s learned keys out size chunk)
  then show ?case using batch_size_halves [of learned "length keys"] by simp
next
  case (3 fetch s learned keys out size chunk)
  then show ?case using batch_size_pos [of keys learned] batch_size_le [of learned keys] by simp
qed simp

declare fetch_in_batches.simps [simp del]

section \<open>Nothing is guessed\<close>

lemma batches_prefix:
  assumes "\<And>s ks v s'. fetch s ks = (Inr v, s') \<Longrightarrow> length v = length ks \<Longrightarrow> v = map g ks"
  shows "fst (fetch_in_batches fetch s learned keys out) = Inr res \<Longrightarrow> res = out @ map g keys"
proof (induction "length keys + learned" arbitrary: s learned keys out rule: less_induct)
  case less
  let ?size = "batch_size learned (length keys)"
  show ?case
  proof (cases "keys = []")
    case True
    with less.prems show ?thesis by (simp add: fetch_in_batches.simps)
  next
    case False
    obtain r s' where f: "fetch s (take ?size keys) = (r, s')" by fastforce
    show ?thesis
    proof (cases r)
      case (Inr v)
      with f less.prems False have l: "length v = length (take ?size keys)"
        by (subst (asm) fetch_in_batches.simps) (simp add: Let_def split: if_splits)
      have v: "v = map g (take ?size keys)" using f Inr l by (intro assms) auto
      have "fst (fetch_in_batches fetch s' learned (drop ?size keys) (out @ v)) = Inr res"
        using less.prems False f Inr l by (subst (asm) fetch_in_batches.simps) (simp add: Let_def)
      moreover have "length (drop ?size keys) + learned < length keys + learned"
        using False batch_size_pos [of keys learned] by simp
      ultimately have "res = (out @ v) @ map g (drop ?size keys)" by (intro less.hyps)
      then show ?thesis by (simp add: v flip: map_append)
    next
      case (Inl e)
      then have h: "Suc 0 < ?size" "fst (fetch_in_batches fetch s' (?size div 2) keys out) = Inr res"
        using less.prems False f by (subst (asm) fetch_in_batches.simps; simp add: Let_def split: if_splits)+
      then show ?thesis using batch_size_halves by (intro less.hyps) auto
    qed
  qed
qed

text \<open>
  Batching is transparent: if every answer of the fetcher with an entry per key holds the entries \<open>g\<close> of those keys,
  a successful call returns exactly the entries of all keys, in order, whatever was refused on the way.
\<close>

theorem batches_in_order:
  assumes "\<forall>s ks v s'. fetch s ks = (Inr v, s') \<and> length v = length ks \<longrightarrow> v = map g ks"
    and "fst (fetch_in_batches fetch s learned keys []) = Inr res"
  shows "res = map g keys"
  using batches_prefix [of fetch g s learned keys "[]" res] assms by simp

definition limited_node :: "nat \<Rightarrow> nat list \<Rightarrow> nat list \<Rightarrow> (string + nat option list) \<times> nat list" where
  "limited_node m sizes ks =
     (if length ks \<le> m then Inr (map Some ks) else Inl ''HTTP 413'', sizes @ [length ks])"

theorem batches_in_order_witness:
  "(let res = [Some 0, Some 1, Some 2, Some 3, Some 4, Some 5, Some 6]
    in fetch_in_batches (limited_node 2) [] 100 [0..<7] [] = (Inr res, 1, [7, 3, 1, 1, 1, 1, 1, 1, 1])
       \<and> res = map Some [0..<7])"
proof -
  have "fst (fetch_in_batches (limited_node 2) [] 100 [0..<7] [])
      = Inr [Some 0, Some 1, Some 2, Some 3, Some 4, Some 5, Some 6]" by code_simp
  then have "[Some 0, Some 1, Some 2, Some 3, Some 4, Some 5, Some 6] = map Some [0..<7]"
    by (rule batches_in_order [rotated]) (auto simp: limited_node_def split: if_splits)
  moreover have "fetch_in_batches (limited_node 2) [] 100 [0..<7] []
      = (Inr [Some 0, Some 1, Some 2, Some 3, Some 4, Some 5, Some 6], 1, [7, 3, 1, 1, 1, 1, 1, 1, 1])" by code_simp
  ultimately show ?thesis by simp
qed

lemma limited_batches:
  assumes "0 < m"
    and small: "\<And>s ks. length ks \<le> m \<Longrightarrow> \<exists>s'. fetch s ks = (Inr (map g ks), s')"
    and large: "\<And>s ks. m < length ks \<Longrightarrow> \<exists>e s'. fetch s ks = (Inl e, s') \<and> is_too_large e"
  shows "\<exists>l s'. fetch_in_batches fetch s learned keys out = (Inr (out @ map g keys), l, s') \<and> (0 < learned \<longrightarrow> 0 < l)"
proof (induction "length keys + learned" arbitrary: s learned keys out rule: less_induct)
  case less
  let ?size = "batch_size learned (length keys)"
  show ?case
  proof (cases "keys = []")
    case True
    then show ?thesis by (simp add: fetch_in_batches.simps)
  next
    case ne: False
    have len: "length (take ?size keys) = ?size" using batch_size_le [of learned keys] by simp
    show ?thesis
    proof (cases "?size \<le> m")
      case True
      then obtain s' where f: "fetch s (take ?size keys) = (Inr (map g (take ?size keys)), s')"
        using small len by metis
      have "\<exists>l s''. fetch_in_batches fetch s' learned (drop ?size keys) (out @ map g (take ?size keys))
          = (Inr ((out @ map g (take ?size keys)) @ map g (drop ?size keys)), l, s'') \<and> (0 < learned \<longrightarrow> 0 < l)"
        using ne batch_size_pos [of keys learned] by (intro less.hyps) simp
      then show ?thesis using ne f by (subst fetch_in_batches.simps) (simp add: Let_def flip: map_append)
    next
      case False
      then obtain e s' where f: "fetch s (take ?size keys) = (Inl e, s')" "is_too_large e"
        using large len by (metis not_le)
      have two: "Suc 0 < ?size" using False \<open>0 < m\<close> by linarith
      then have "\<exists>l s''. fetch_in_batches fetch s' (?size div 2) keys out = (Inr (out @ map g keys), l, s'')
          \<and> (0 < ?size div 2 \<longrightarrow> 0 < l)"
        using batch_size_halves by (intro less.hyps) simp
      then show ?thesis using ne f two by (subst fetch_in_batches.simps) (simp add: Let_def, force)
    qed
  qed
qed

text \<open>
  A node that answers batches of at most \<open>m\<close> keys and refuses larger ones as too large never makes a read fail: the call
  returns every entry, and the learned size stays positive.
\<close>

theorem batches_succeed:
  assumes "0 < m" "0 < learned"
    and "\<forall>s ks. length ks \<le> m \<longrightarrow> (\<exists>s'. fetch s ks = (Inr (map g ks), s'))"
    and "\<forall>s ks. m < length ks \<longrightarrow> (\<exists>e s'. fetch s ks = (Inl e, s') \<and> is_too_large e)"
  shows "\<exists>l s'. fetch_in_batches fetch s learned keys [] = (Inr (map g keys), l, s') \<and> 0 < l"
  using limited_batches [of m fetch g s learned keys "[]"] assms by simp

theorem batches_succeed_witness:
  "\<exists>l s'. fetch_in_batches (limited_node 5) [] 100 [0..<20] [] = (Inr (map Some [0..<20]), l, s') \<and> 0 < l"
  by (rule batches_succeed [of 5]) (auto simp: limited_node_def is_too_large_def)

end
