(* ===== verification/Pumpswap.thy ===== *)
theory Pumpswap
  imports Solana Rpc_Batch "HOL-Library.AList"
begin

text \<open>
  \<open>solana-sniper/src/amm/pumpswap.rs\<close>, first part: the decoding of PumpSwap pools, fee configurations, vaults and mints, the
  choice of the fee rates and the consistent snapshot of a pool.  \<open>Pumpswap_Quote\<close> holds the quotes.
\<close>

section \<open>Constants and data\<close>

definition PUMP_AMM_PROGRAM :: string where "PUMP_AMM_PROGRAM = ''pAMMBay6oceH9fJKBRHGP5D4bD4sWpmSwMn52FMfXEA''"
definition PUMP_PROGRAM :: string where "PUMP_PROGRAM = ''6EF8rrecthR5Dkzon8Nwu78hRvfCKubJ14M5uBEwF6P''"
definition PUMP_FEE_PROGRAM :: string where "PUMP_FEE_PROGRAM = ''pfeeUxB6jkeY1Hxd7CsFCAjcbHA9rWtchMGdZ6VojVZ''"
definition WSOL_MINT :: string where "WSOL_MINT = ''So11111111111111111111111111111111111111112''"
definition TOKEN_PROGRAMS :: "string list" where
  "TOKEN_PROGRAMS = [''TokenkegQfeZyiNwAJbNbGKPFXCWuBvf9Ss623VQ5DA'', ''TokenzQdBNbLqP5VEhdkAS6EPFLC1PHnBqCXEpPxuEb'']"

definition POOL_DISCRIMINATOR :: bytes where "POOL_DISCRIMINATOR = [241, 154, 109, 4, 17, 177, 109, 188]"
definition FEE_CONFIG_DISCRIMINATOR :: bytes where "FEE_CONFIG_DISCRIMINATOR = [143, 52, 146, 187, 219, 123, 76, 155]"

definition POOL_MIN_LEN :: nat where "POOL_MIN_LEN = 211"
definition POOL_LEN :: nat where "POOL_LEN = 287"
definition FEE_CONFIG_LEN_PRE_STABLE :: nat where "FEE_CONFIG_LEN_PRE_STABLE = 2512"
definition FEE_CONFIG_LEN_POST_STABLE :: nat where "FEE_CONFIG_LEN_POST_STABLE = 4073"
definition FEE_CONFIG_LEN_POST_EXOTIC :: nat where "FEE_CONFIG_LEN_POST_EXOTIC = 4097"
definition FEE_TIERS_OFFSET :: nat where "FEE_TIERS_OFFSET = 8 + 1 + 32 + 24"
definition FEE_TIER_LEN :: nat where "FEE_TIER_LEN = 16 + 24"
definition BPS :: u128 where "BPS = 10000"

lemmas pump_constants = POOL_MIN_LEN_def POOL_LEN_def FEE_CONFIG_LEN_PRE_STABLE_def FEE_CONFIG_LEN_POST_STABLE_def
  FEE_CONFIG_LEN_POST_EXOTIC_def FEE_TIERS_OFFSET_def FEE_TIER_LEN_def BPS_def

record pump_pool =
  pp_creator :: pubkey
  pp_base_mint :: pubkey
  pp_quote_mint :: pubkey
  pp_base_account :: pubkey
  pp_quote_account :: pubkey
  pp_coin_creator :: pubkey
  pp_is_mayhem_mode :: bool
  pp_is_cashback_coin :: bool
  pp_virtual_quote :: int
  pp_creator_fee_bps :: u64
  pp_protocol_fees :: u64
  pp_creator_fees :: u64

record fees =
  lp_bps :: u64
  protocol_bps :: u64
  creator_bps :: u64

record fee_tier_t =
  tier_threshold :: u128
  tier_fees :: fees

record fee_config =
  fc_flat_fees :: fees
  fc_fee_tiers :: "fee_tier_t list"
  fc_stable_fee_tiers :: "fee_tier_t list"
  fc_exotic_flat_fees :: fees

datatype pump_error =
    PoolOwner pubkey | PoolTooShort nat | PoolDiscriminator | InvalidBool u8 nat
  | FeeConfigOwner pubkey | FeeConfigTooShort nat | FeeConfigDiscriminator
  | TierLengthPastEnd nat | TierVectorPastEnd nat | ExoticPastEnd | NoFeeTiers
  | EffectiveOutOfRange | QuoteNotWsol pubkey | MayhemMode | NoBaseReserve | MarketCapOverflow | FeesNotValid nat
  | VaultProgram pubkey | VaultSize | VaultMint | VaultAuthority | VaultState
  | MintProgram pubkey | MintNotInitialized
  | NotCanonicalQuote pubkey | NotCanonicalCreator pubkey | WaitingFeesExceedVault
  | ZeroReserves | FeesNotCovered | BaseOutRange | DivideByZero | FeesExceedOutput | BucketsExceedVault
  | InsufficientReal | QuoteOutRange
  | FetchPool | FetchAccounts | AccountMissing pubkey | AccountsChanged

section \<open>Pools\<close>

definition bool_at :: "bytes \<Rightarrow> nat \<Rightarrow> pump_error + bool" where
  "bool_at d off =
     (if d ! off = 0 then Inr False else if d ! off = 1 then Inr True else Inl (InvalidBool (d ! off) off))"

text \<open>\<open>d.resize(POOL_LEN, 0)\<close> for a shorter account.\<close>

definition pad_pool :: "bytes \<Rightarrow> bytes" where
  "pad_pool data = (if length data < POOL_LEN then data @ replicate (POOL_LEN - length data) 0 else data)"

definition parse_pool :: "solana_sdk \<Rightarrow> pubkey \<Rightarrow> bytes \<Rightarrow> pump_error + pump_pool" where
  "parse_pool sdk owner data =
     (if owner \<noteq> key_of sdk PUMP_AMM_PROGRAM then Inl (PoolOwner owner)
      else if length data < POOL_MIN_LEN then Inl (PoolTooShort (length data))
      else if take 8 data \<noteq> POOL_DISCRIMINATOR then Inl PoolDiscriminator
      else
        let d = pad_pool data
        in and_then (bool_at d 243) (\<lambda>mayhem.
           and_then (bool_at d 244) (\<lambda>cashback.
           Inr \<lparr> pp_creator = pubkey_at d 11, pp_base_mint = pubkey_at d 43, pp_quote_mint = pubkey_at d 75,
                 pp_base_account = pubkey_at d 139, pp_quote_account = pubkey_at d 171,
                 pp_coin_creator = pubkey_at d 211, pp_is_mayhem_mode = mayhem, pp_is_cashback_coin = cashback,
                 pp_virtual_quote = sint (u128_at d 245), pp_creator_fee_bps = u64_at d 261,
                 pp_protocol_fees = u64_at d 271, pp_creator_fees = u64_at d 279 \<rparr>)))"

section \<open>Fee configurations\<close>

definition fees_read :: "bytes \<Rightarrow> nat \<Rightarrow> fees" where
  "fees_read d off =
     \<lparr> lp_bps = u64_at d off, protocol_bps = u64_at d (off + 8), creator_bps = u64_at d (off + 16) \<rparr>"

definition no_fees :: fees where
  "no_fees = \<lparr> lp_bps = 0, protocol_bps = 0, creator_bps = 0 \<rparr>"

definition read_tier :: "bytes \<Rightarrow> nat \<Rightarrow> fee_tier_t" where
  "read_tier d o1 = \<lparr> tier_threshold = u128_at d o1, tier_fees = fees_read d (o1 + 16) \<rparr>"

definition read_tiers :: "bytes \<Rightarrow> nat \<Rightarrow> pump_error + fee_tier_t list \<times> nat" where
  "read_tiers d off =
     (if length d < off + 4 then Inl (TierLengthPastEnd off)
      else
        let n = unat (u32_at d off); e = n * FEE_TIER_LEN + (off + 4)
        in if e \<le> length d then Inr (map (\<lambda>i. read_tier d (off + 4 + i * FEE_TIER_LEN)) [0..<n], e)
           else Inl (TierVectorPastEnd off))"

definition parse_fee_config :: "solana_sdk \<Rightarrow> pubkey \<Rightarrow> bytes \<Rightarrow> pump_error + fee_config" where
  "parse_fee_config sdk owner data =
     (if owner \<noteq> key_of sdk PUMP_FEE_PROGRAM then Inl (FeeConfigOwner owner)
      else if length data < FEE_CONFIG_LEN_PRE_STABLE then Inl (FeeConfigTooShort (length data))
      else if take 8 data \<noteq> FEE_CONFIG_DISCRIMINATOR then Inl FeeConfigDiscriminator
      else
        and_then (read_tiers data FEE_TIERS_OFFSET) (\<lambda>(tiers, e).
        and_then
          (if FEE_CONFIG_LEN_POST_STABLE \<le> length data
           then and_then (read_tiers data e) (\<lambda>(stable, e2).
                  if FEE_CONFIG_LEN_POST_EXOTIC \<le> length data
                  then if length data < e2 + 24 then Inl ExoticPastEnd else Inr (stable, fees_read data e2)
                  else Inr (stable, no_fees))
           else Inr ([], no_fees)) (\<lambda>(stable, exotic).
        if tiers = [] then Inl NoFeeTiers
        else Inr \<lparr> fc_flat_fees = fees_read data (8 + 1 + 32), fc_fee_tiers = tiers,
                   fc_stable_fee_tiers = stable, fc_exotic_flat_fees = exotic \<rparr>)))"

definition fee_config_address :: "solana_sdk \<Rightarrow> pubkey" where
  "fee_config_address sdk =
     find_pda sdk [map of_char ''fee_config'', key_of sdk PUMP_AMM_PROGRAM] (key_of sdk PUMP_FEE_PROGRAM)"

definition pump_pool_authority :: "solana_sdk \<Rightarrow> pubkey \<Rightarrow> pubkey" where
  "pump_pool_authority sdk base_mint =
     find_pda sdk [map of_char ''pool-authority'', base_mint] (key_of sdk PUMP_PROGRAM)"

section \<open>Fee rates\<close>

definition fee_tier :: "fee_tier_t list \<Rightarrow> u128 \<Rightarrow> fees option" where
  "fee_tier tiers market_cap =
     (case tiers of
        [] \<Rightarrow> None
      | first # _ \<Rightarrow>
          if market_cap < tier_threshold first then Some (tier_fees first)
          else Some (tier_fees (case find (\<lambda>t. tier_threshold t \<le> market_cap) (rev tiers) of
                                  Some t \<Rightarrow> t | None \<Rightarrow> first)))"

definition effective_quote_reserves :: "u64 \<Rightarrow> int \<Rightarrow> pump_error + u64" where
  "effective_quote_reserves vault virtual_quote =
     (let v = int (unat vault) + virtual_quote
      in if v \<le> 2 ^ 127 - 1 \<and> - (2 ^ 127) \<le> v \<and> 0 \<le> v \<and> v < 2 ^ 64 then Inr (of_int v)
         else Inl EffectiveOutOfRange)"

definition total_bps :: "fees \<Rightarrow> u128" where
  "total_bps f = ucast (lp_bps f) + ucast (protocol_bps f) + ucast (creator_bps f)"

definition pool_fees ::
    "solana_sdk \<Rightarrow> pump_pool \<Rightarrow> fee_config \<Rightarrow> u64 \<Rightarrow> u64 \<Rightarrow> u64 \<Rightarrow> pump_error + fees" where
  "pool_fees sdk pool config base_supply base_reserve effective_quote =
     (if pp_quote_mint pool \<noteq> key_of sdk WSOL_MINT then Inl (QuoteNotWsol (pp_quote_mint pool))
      else if pp_is_mayhem_mode pool then Inl MayhemMode
      else if base_reserve = 0 then Inl NoBaseReserve
      else
        and_then
          (if pp_creator pool = pump_pool_authority sdk (pp_base_mint pool)
           then and_then (ok_or MarketCapOverflow (checked_mul (ucast effective_quote) (ucast base_supply) :: u128 option)) (\<lambda>cap.
                ok_or NoFeeTiers (fee_tier (fc_fee_tiers config) (cap div ucast base_reserve)))
           else Inr (fc_flat_fees config)) (\<lambda>fees0.
        let fees1 = (if 0 < pp_creator_fee_bps pool
                     then fees0\<lparr>creator_bps := max (creator_bps fees0) (pp_creator_fee_bps pool)\<rparr> else fees0);
            fees = (if pp_coin_creator pool = default_key then fees1\<lparr>creator_bps := 0\<rparr> else fees1)
        in if BPS \<le> total_bps fees then Inl (FeesNotValid (unat (total_bps fees))) else Inr fees))"

section \<open>Vaults, mints and snapshots\<close>

definition is_token_program :: "solana_sdk \<Rightarrow> pubkey \<Rightarrow> bool" where
  "is_token_program sdk owner \<longleftrightarrow> list_ex (\<lambda>p. key_of sdk p = owner) TOKEN_PROGRAMS"

definition vault_balance ::
    "solana_sdk \<Rightarrow> pubkey \<Rightarrow> bytes \<Rightarrow> pubkey \<Rightarrow> pubkey \<Rightarrow> pump_error + u64" where
  "vault_balance sdk program_owner data mint authority =
     (if \<not> is_token_program sdk program_owner then Inl (VaultProgram program_owner)
      else if length data < 165 then Inl VaultSize
      else if pubkey_at data 0 \<noteq> mint then Inl VaultMint
      else if pubkey_at data 32 \<noteq> authority then Inl VaultAuthority
      else if data ! 108 \<noteq> 1 then Inl VaultState
      else Inr (u64_at data 64))"

definition mint_supply :: "solana_sdk \<Rightarrow> pubkey \<Rightarrow> bytes \<Rightarrow> pump_error + u64" where
  "mint_supply sdk program_owner data =
     (if \<not> is_token_program sdk program_owner then Inl (MintProgram program_owner)
      else if length data < 82 \<or> data ! 45 \<noteq> 1 then Inl MintNotInitialized
      else Inr (u64_at data 36))"

definition sqrt_price_x64 :: "u64 \<Rightarrow> u64 \<Rightarrow> u128 option" where
  "sqrt_price_x64 base_reserve effective_quote =
     (if base_reserve = 0 \<or> effective_quote = 0 then None
      else let r = push_bit 64 (ucast effective_quote :: u128) div ucast base_reserve
           in if 0 < r then Some (push_bit 32 (isqrt r)) else None)"

record pump_snapshot =
  ps_pool :: pump_pool
  ps_base_reserve :: u64
  ps_quote_vault :: u64
  ps_effective_quote :: u64
  ps_real_quote :: u64
  ps_base_supply :: u64
  ps_fees :: fees
  ps_base_token_program :: pubkey
  ps_pool_data_len :: nat

definition require_canonical :: "solana_sdk \<Rightarrow> pump_pool \<Rightarrow> pump_error + unit" where
  "require_canonical sdk p =
     (if pp_quote_mint p \<noteq> key_of sdk WSOL_MINT then Inl (NotCanonicalQuote (pp_quote_mint p))
      else if pp_creator p \<noteq> pump_pool_authority sdk (pp_base_mint p) then Inl (NotCanonicalCreator (pp_creator p))
      else Inr ())"

text \<open>The texts the code tests by prefix are the three errors of a failed read.\<close>

fun transient_read_error :: "pump_error \<Rightarrow> bool" where
  "transient_read_error FetchPool = True"
| "transient_read_error FetchAccounts = True"
| "transient_read_error (AccountMissing k) = True"
| "transient_read_error _ = False"

definition build_snapshot ::
    "solana_sdk \<Rightarrow> pubkey \<Rightarrow> raw_account \<Rightarrow> raw_account \<Rightarrow> raw_account \<Rightarrow> raw_account \<Rightarrow> raw_account
       \<Rightarrow> pump_error + pump_snapshot" where
  "build_snapshot sdk pool_id pool base_vault quote_vault base_mint fee_cfg =
     and_then (parse_pool sdk (fst pool) (snd pool)) (\<lambda>p.
     and_then (require_canonical sdk p) (\<lambda>_.
     and_then (vault_balance sdk (fst base_vault) (snd base_vault) (pp_base_mint p) pool_id) (\<lambda>base_reserve.
     and_then (vault_balance sdk (fst quote_vault) (snd quote_vault) (pp_quote_mint p) pool_id) (\<lambda>quote_amount.
     and_then (mint_supply sdk (fst base_mint) (snd base_mint)) (\<lambda>base_supply.
     and_then (parse_fee_config sdk (fst fee_cfg) (snd fee_cfg)) (\<lambda>config.
     and_then (effective_quote_reserves quote_amount (pp_virtual_quote p)) (\<lambda>effective_quote.
     and_then (ok_or WaitingFeesExceedVault
                 (checked_sub quote_amount (sat_add (pp_protocol_fees p) (pp_creator_fees p)))) (\<lambda>real_quote.
     and_then (pool_fees sdk p config base_supply base_reserve effective_quote) (\<lambda>fees.
     Inr \<lparr> ps_pool = p, ps_base_reserve = base_reserve, ps_quote_vault = quote_amount,
           ps_effective_quote = effective_quote, ps_real_quote = real_quote, ps_base_supply = base_supply,
           ps_fees = fees, ps_base_token_program = fst base_mint,
           ps_pool_data_len = length (snd pool) \<rparr>)))))))))"

text \<open>
  \<open>fetch_snapshot\<close>: the cache is an association list from a pool to its two vaults and its base mint.  The node is two
  arguments: the account of a key, and the batched read (\<open>fetch_in_batches\<close> over the node), each \<open>None\<close> when the
  call fails.
\<close>

type_synonym vault_cache = "(pubkey \<times> pubkey \<times> pubkey \<times> pubkey) list"

definition pool_keys :: "pump_pool \<Rightarrow> pubkey \<times> pubkey \<times> pubkey" where
  "pool_keys p = (pp_base_account p, pp_quote_account p, pp_base_mint p)"

definition cache_insert :: "pubkey \<Rightarrow> pubkey \<times> pubkey \<times> pubkey \<Rightarrow> vault_cache \<Rightarrow> vault_cache" where
  "cache_insert k v cache = AList.update k v (if 10000 \<le> length cache then [] else cache)"

definition learn_vaults ::
    "solana_sdk \<Rightarrow> (pubkey \<Rightarrow> raw_account option) \<Rightarrow> pubkey \<Rightarrow> vault_cache
       \<Rightarrow> pump_error + ((pubkey \<times> pubkey \<times> pubkey) \<times> vault_cache)" where
  "learn_vaults sdk get_account pool_id cache =
     (case map_of cache pool_id of
        Some v \<Rightarrow> Inr (v, cache)
      | None \<Rightarrow>
          and_then (ok_or FetchPool (get_account pool_id)) (\<lambda>(owner, data).
          and_then (parse_pool sdk owner data) (\<lambda>p.
          and_then (require_canonical sdk p) (\<lambda>_.
          Inr (pool_keys p, cache_insert pool_id (pool_keys p) cache)))))"

definition fetch_snapshot ::
    "solana_sdk \<Rightarrow> (pubkey \<Rightarrow> raw_account option) \<Rightarrow> (pubkey list \<Rightarrow> raw_account option list option)
       \<Rightarrow> pubkey \<Rightarrow> vault_cache \<Rightarrow> (pump_error + pump_snapshot) \<times> vault_cache" where
  "fetch_snapshot sdk get_account get_multiple pool_id cache =
     (case learn_vaults sdk get_account pool_id cache of
        Inl e \<Rightarrow> (Inl e, cache)
      | Inr ((base_vault, quote_vault, base_mint), cache1) \<Rightarrow>
          let keys = [pool_id, base_vault, quote_vault, base_mint, fee_config_address sdk];
              snap =
                and_then (ok_or FetchAccounts (get_multiple keys)) (\<lambda>accs.
                and_then (try_map (\<lambda>i. ok_or (AccountMissing (keys ! i)) (accs ! i)) [0..<5]) (\<lambda>a.
                build_snapshot sdk pool_id (a ! 0) (a ! 1) (a ! 2) (a ! 3) (a ! 4)))
          in case snap of
               Inl e \<Rightarrow> (Inl e, cache1)
             | Inr s \<Rightarrow>
                 if pool_keys (ps_pool s) \<noteq> (base_vault, quote_vault, base_mint)
                 then (Inl AccountsChanged, AList.delete pool_id cache1)
                 else (Inr s, cache1))"

section \<open>Decoding\<close>

text \<open>An older, shorter layout decodes as its zero-padded form, and bytes past the current layout do not matter.\<close>

lemma length_pad_pool: "length (pad_pool data) = max POOL_LEN (length data)"
  by (simp add: pad_pool_def)

lemma pad_pool_prefix: "POOL_MIN_LEN \<le> length data \<Longrightarrow> take 8 (pad_pool data) = take 8 data"
  by (simp add: pad_pool_def pump_constants)

lemma parse_pool_padded:
  "POOL_MIN_LEN \<le> length data \<Longrightarrow> parse_pool sdk owner (pad_pool data) = parse_pool sdk owner data"
proof -
  assume "POOL_MIN_LEN \<le> length data"
  moreover have "pad_pool (pad_pool data) = pad_pool data" by (simp add: pad_pool_def)
  ultimately show ?thesis
    using pad_pool_prefix [of data] length_pad_pool [of data] unfolding parse_pool_def by (simp add: pump_constants)
qed

lemma parse_pool_extension:
  assumes "POOL_LEN \<le> length data"
  shows "parse_pool sdk owner (data @ newer) = parse_pool sdk owner data"
  using assms
  by (simp add: parse_pool_def pad_pool_def pump_constants pubkey_at_def u64_at_def u128_at_def bool_at_def nth_append
      cong: if_cong)

text \<open>The bytes of a pool in the current layout, and the decoding of them.\<close>

definition pool_bytes :: "bytes \<Rightarrow> bytes \<Rightarrow> bytes \<Rightarrow> bytes \<Rightarrow> pump_pool \<Rightarrow> bytes" where
  "pool_bytes head lp_mint lp_supply gap p =
     POOL_DISCRIMINATOR @ head @ pp_creator p @ pp_base_mint p @ pp_quote_mint p @ lp_mint @ pp_base_account p
       @ pp_quote_account p @ lp_supply @ pp_coin_creator p @ [of_bool (pp_is_mayhem_mode p)]
       @ [of_bool (pp_is_cashback_coin p)] @ to_le_bytes 16 (of_int (pp_virtual_quote p) :: u128)
       @ to_le_bytes 8 (pp_creator_fee_bps p) @ gap @ to_le_bytes 8 (pp_protocol_fees p)
       @ to_le_bytes 8 (pp_creator_fees p)"

definition pool_ok :: "pump_pool \<Rightarrow> bool" where
  "pool_ok p \<longleftrightarrow> list_all (\<lambda>k. length k = 32)
       [pp_creator p, pp_base_mint p, pp_quote_mint p, pp_base_account p, pp_quote_account p, pp_coin_creator p]
     \<and> - (2 ^ 127) \<le> pp_virtual_quote p \<and> pp_virtual_quote p < 2 ^ 127"

lemma discriminator_lengths [simp]: "length POOL_DISCRIMINATOR = 8" "length FEE_CONFIG_DISCRIMINATOR = 8"
  by (simp_all add: POOL_DISCRIMINATOR_def FEE_CONFIG_DISCRIMINATOR_def)

lemma sint_of_i128:
  assumes "- (2 ^ 127) \<le> v" "v < 2 ^ 127"
  shows "sint (word_of_int v :: u128) = v"
  using assms by (simp add: signed_of_int signed_take_bit_int_eq_self_iff)

lemma parse_pool_bytes:
  assumes "pool_ok p" and "length head = 3" "length lp_mint = 32" "length lp_supply = 8" "length gap = 2"
  shows "parse_pool sdk (key_of sdk PUMP_AMM_PROGRAM) (pool_bytes head lp_mint lp_supply gap p) = Inr p"
proof -
  have len: "length (pool_bytes head lp_mint lp_supply gap p) = POOL_LEN"
    using assms by (simp add: pool_bytes_def pool_ok_def POOL_LEN_def)
  have pad: "pad_pool (pool_bytes head lp_mint lp_supply gap p) = pool_bytes head lp_mint lp_supply gap p"
    by (simp add: pad_pool_def len)
  have disc: "take 8 (pool_bytes head lp_mint lp_supply gap p) = POOL_DISCRIMINATOR"
    by (simp add: pool_bytes_def)
  have bools: "bool_at (pool_bytes head lp_mint lp_supply gap p) 243 = Inr (pp_is_mayhem_mode p)"
    "bool_at (pool_bytes head lp_mint lp_supply gap p) 244 = Inr (pp_is_cashback_coin p)"
    using assms by (simp_all add: bool_at_def pool_bytes_def pool_ok_def nth_append nth_Cons')
  show ?thesis
    using assms unfolding parse_pool_def pad disc len bools Let_def and_then_Inr
    by (simp add: pool_bytes_def pool_ok_def pump_constants at_skip at_skip_Cons sint_of_i128)
qed

text \<open>
  A pool written in the current layout is read back exactly: every field sits at the offset the decoder reads, and the signed
  virtual reserves survive the 128-bit two's complement.
\<close>

theorem pool_roundtrip:
  assumes "pool_ok p" and "length head = 3" "length lp_mint = 32" "length lp_supply = 8" "length gap = 2"
  shows "parse_pool sdk (key_of sdk PUMP_AMM_PROGRAM) (pool_bytes head lp_mint lp_supply gap p) = Inr p"
  by (rule parse_pool_bytes [OF assms])

definition example_pool :: pump_pool where
  "example_pool = \<lparr> pp_creator = pump_pool_authority demo_sdk (replicate 32 7), pp_base_mint = replicate 32 7,
     pp_quote_mint = key_of demo_sdk WSOL_MINT, pp_base_account = replicate 32 8, pp_quote_account = replicate 32 9,
     pp_coin_creator = replicate 32 10, pp_is_mayhem_mode = False, pp_is_cashback_coin = True,
     pp_virtual_quote = - 2000000000, pp_creator_fee_bps = 250, pp_protocol_fees = 1500000000,
     pp_creator_fees = 500000000 \<rparr>"

lemma example_pool_ok: "pool_ok example_pool"
  by code_simp

theorem pool_roundtrip_witness:
  "pool_ok example_pool
     \<and> parse_pool demo_sdk (key_of demo_sdk PUMP_AMM_PROGRAM)
         (pool_bytes [0, 1, 2] (replicate 32 3) (replicate 8 4) [5, 6] example_pool) = Inr example_pool"
  using example_pool_ok by (auto intro!: pool_roundtrip)

section \<open>Fee tiers\<close>

definition tier_bytes :: "fee_tier_t \<Rightarrow> bytes" where
  "tier_bytes t = to_le_bytes 16 (tier_threshold t) @ to_le_bytes 8 (lp_bps (tier_fees t))
     @ to_le_bytes 8 (protocol_bps (tier_fees t)) @ to_le_bytes 8 (creator_bps (tier_fees t))"

lemma length_tier_bytes: "length (tier_bytes t) = FEE_TIER_LEN"
  by (simp add: tier_bytes_def FEE_TIER_LEN_def)

lemma read_tier_here: "read_tier (tier_bytes t @ rest) 0 = t"
  by (simp add: read_tier_def fees_read_def tier_bytes_def at_skip)

lemma read_tier_skip: "length f \<le> n \<Longrightarrow> read_tier (f @ rest) n = read_tier rest (n - length f)"
  by (simp add: read_tier_def fees_read_def at_skip)

lemma read_tier_sequence:
  "map (\<lambda>i. read_tier (concat (map tier_bytes ts) @ rest) (i * FEE_TIER_LEN)) [0..<length ts] = ts"
proof (induction ts)
  case (Cons t ts)
  have "map (\<lambda>i. read_tier (concat (map tier_bytes (t # ts)) @ rest) (i * FEE_TIER_LEN)) [0..<length (t # ts)]
      = read_tier (tier_bytes t @ concat (map tier_bytes ts) @ rest) 0
        # map (\<lambda>i. read_tier (tier_bytes t @ concat (map tier_bytes ts) @ rest) (Suc i * FEE_TIER_LEN)) [0..<length ts]"
    by (simp add: map_upt_Suc del: upt_Suc)
  also have "\<dots> = t # map (\<lambda>i. read_tier (concat (map tier_bytes ts) @ rest) (i * FEE_TIER_LEN)) [0..<length ts]"
    by (simp add: read_tier_here read_tier_skip length_tier_bytes)
  finally show ?case using Cons.IH by simp
qed simp

lemma length_tiers: "length (concat (map tier_bytes ts)) = length ts * FEE_TIER_LEN"
  by (induction ts) (simp_all add: length_tier_bytes)

lemma tiers_roundtrip:
  assumes "length ts < 2 ^ 32"
  shows "read_tiers (pre @ to_le_bytes 4 (of_nat (length ts) :: u32) @ concat (map tier_bytes ts) @ rest) (length pre)
    = Inr (ts, length pre + 4 + length ts * FEE_TIER_LEN)"
proof -
  let ?d = "pre @ to_le_bytes 4 (of_nat (length ts) :: u32) @ concat (map tier_bytes ts) @ rest"
  have n: "unat (u32_at ?d (length pre)) = length ts"
    using assms by (simp add: at_skip unsigned_of_nat take_bit_nat_eq_self_iff)
  have "map (\<lambda>i. read_tier ?d (length pre + 4 + i * FEE_TIER_LEN)) [0..<length ts] = ts"
    by (simp add: read_tier_skip read_tier_sequence)
  then show ?thesis
    unfolding read_tiers_def n Let_def by (simp add: length_tiers)
qed

text \<open>The tier of a market cap: the last threshold reached, else the first tier.\<close>

lemma find_rev_last:
  "find P (rev xs) = Some x \<longleftrightarrow> (\<exists>i < length xs. x = xs ! i \<and> P x \<and> (\<forall>j. i < j \<and> j < length xs \<longrightarrow> \<not> P (xs ! j)))"
proof (induction xs rule: rev_induct)
  case (snoc y ys)
  then show ?case
    by (auto simp: nth_append less_Suc_eq)
qed simp

text \<open>
  The fee tier of a market cap is the last one whose threshold the cap reaches, or the first one when the cap is below its
  threshold; there is none only for an empty schedule.
\<close>

theorem fee_tier_last_reached:
  "case fee_tier tiers cap of
     None \<Rightarrow> tiers = []
   | Some f \<Rightarrow>
       \<exists>i < length tiers. f = tier_fees (tiers ! i)
         \<and> (if cap < tier_threshold (tiers ! 0) then i = 0
            else tier_threshold (tiers ! i) \<le> cap \<and> list_all (\<lambda>t. cap < tier_threshold t) (drop (Suc i) tiers))"
proof (cases tiers)
  case (Cons first rest)
  show ?thesis
  proof (cases "cap < tier_threshold first")
    case False
    have "find (\<lambda>t. tier_threshold t \<le> cap) (rev tiers) \<noteq> None"
      using False Cons by (auto simp: find_None_iff)
    then obtain t where t: "find (\<lambda>t. tier_threshold t \<le> cap) (rev tiers) = Some t" by blast
    then obtain i where i: "i < length tiers" "t = tiers ! i" "tier_threshold t \<le> cap"
      "\<forall>j. i < j \<and> j < length tiers \<longrightarrow> cap < tier_threshold (tiers ! j)"
      by (auto simp: find_rev_last not_le)
    moreover have "list_all (\<lambda>t. cap < tier_threshold t) (drop (Suc i) tiers)"
      using i(4) by (auto simp: list_all_length)
    ultimately have "\<exists>i < length tiers. tier_fees t = tier_fees (tiers ! i) \<and> tier_threshold (tiers ! i) \<le> cap
        \<and> list_all (\<lambda>t. cap < tier_threshold t) (drop (Suc i) tiers)" by blast
    then show ?thesis using t False by (simp add: fee_tier_def Cons)
  qed (auto simp: fee_tier_def Cons)
qed (simp add: fee_tier_def)

text \<open>The bytes of a fee configuration of the first layout version, and the decoding of them.\<close>

definition fees_bytes :: "fees \<Rightarrow> bytes" where
  "fees_bytes f = to_le_bytes 8 (lp_bps f) @ to_le_bytes 8 (protocol_bps f) @ to_le_bytes 8 (creator_bps f)"

definition config_bytes :: "bytes \<Rightarrow> fees \<Rightarrow> fee_tier_t list \<Rightarrow> bytes \<Rightarrow> bytes" where
  "config_bytes head flat ts padding =
     (FEE_CONFIG_DISCRIMINATOR @ head @ fees_bytes flat)
       @ to_le_bytes 4 (of_nat (length ts) :: u32) @ concat (map tier_bytes ts) @ padding"

lemma parse_config_bytes:
  assumes "length head = 33" "ts \<noteq> []" "length ts < 2 ^ 32"
    and "FEE_CONFIG_LEN_PRE_STABLE \<le> length (config_bytes head flat ts padding)"
    and "length (config_bytes head flat ts padding) < FEE_CONFIG_LEN_POST_STABLE"
  shows "parse_fee_config sdk (key_of sdk PUMP_FEE_PROGRAM) (config_bytes head flat ts padding)
    = Inr \<lparr> fc_flat_fees = flat, fc_fee_tiers = ts, fc_stable_fee_tiers = [], fc_exotic_flat_fees = no_fees \<rparr>"
proof -
  have off: "FEE_TIERS_OFFSET = length (FEE_CONFIG_DISCRIMINATOR @ head @ fees_bytes flat)"
    using assms(1) by (simp add: FEE_TIERS_OFFSET_def fees_bytes_def)
  have tiers: "read_tiers (config_bytes head flat ts padding) FEE_TIERS_OFFSET
      = Inr (ts, FEE_TIERS_OFFSET + 4 + length ts * FEE_TIER_LEN)"
    unfolding off config_bytes_def by (rule tiers_roundtrip [OF assms(3)])
  have flat: "fees_read (config_bytes head flat ts padding) (8 + 1 + 32) = flat"
    using assms(1) by (simp add: config_bytes_def fees_read_def fees_bytes_def at_skip)
  have disc: "take 8 (config_bytes head flat ts padding) = FEE_CONFIG_DISCRIMINATOR"
    by (simp add: config_bytes_def)
  show ?thesis
    using assms(2,4,5) unfolding parse_fee_config_def tiers flat disc by simp
qed

text \<open>
  A fee configuration of the first layout version is read back exactly: the flat fees and every tier, for any padding up to the
  length of that version.
\<close>

theorem fee_config_roundtrip:
  assumes "length head = 33" "ts \<noteq> []" "length ts < 2 ^ 32"
    and "FEE_CONFIG_LEN_PRE_STABLE \<le> length (config_bytes head flat ts padding)"
    and "length (config_bytes head flat ts padding) < FEE_CONFIG_LEN_POST_STABLE"
  shows "parse_fee_config sdk (key_of sdk PUMP_FEE_PROGRAM) (config_bytes head flat ts padding)
    = Inr \<lparr> fc_flat_fees = flat, fc_fee_tiers = ts, fc_stable_fee_tiers = [], fc_exotic_flat_fees = no_fees \<rparr>"
  by (rule parse_config_bytes [OF assms])

definition example_fees :: fees where
  "example_fees = \<lparr> lp_bps = 20, protocol_bps = 5, creator_bps = 95 \<rparr>"

definition example_tiers :: "fee_tier_t list" where
  "example_tiers = [\<lparr> tier_threshold = 0, tier_fees = \<lparr> lp_bps = 2, protocol_bps = 93, creator_bps = 30 \<rparr> \<rparr>,
                    \<lparr> tier_threshold = 420000000000, tier_fees = example_fees \<rparr>]"

definition example_config :: bytes where
  "example_config = config_bytes (replicate 33 0) example_fees example_tiers (replicate 2400 0)"

lemma example_config_parsed:
  "length example_tiers = 2" "length example_config = 2549"
  by (simp_all add: example_config_def config_bytes_def fees_bytes_def length_tiers example_tiers_def FEE_TIER_LEN_def
      length_tier_bytes)

theorem fee_config_roundtrip_witness:
  "parse_fee_config demo_sdk (key_of demo_sdk PUMP_FEE_PROGRAM) example_config
    = Inr \<lparr> fc_flat_fees = example_fees, fc_fee_tiers = example_tiers, fc_stable_fee_tiers = [],
            fc_exotic_flat_fees = no_fees \<rparr>"
  using example_config_parsed unfolding example_config_def
  by (intro fee_config_roundtrip) (simp_all add: example_tiers_def pump_constants)

section \<open>Fee rates and snapshots\<close>

lemma unat_total_bps: "unat (total_bps f) = unat (lp_bps f) + unat (protocol_bps f) + unat (creator_bps f)"
  using u64_le_max [of "lp_bps f"] u64_le_max [of "protocol_bps f"] u64_le_max [of "creator_bps f"]
  by (simp add: total_bps_def unat_add_small)

lemma unat_BPS [simp]: "unat BPS = 10000"
  by (simp add: BPS_def)

lemma pool_fees_facts:
  assumes "pool_fees sdk p c supply base eff = Inr f"
  shows "pp_quote_mint p = key_of sdk WSOL_MINT" "\<not> pp_is_mayhem_mode p" "base \<noteq> 0"
    "unat (total_bps f) < 10000"
    "if pp_coin_creator p = default_key then creator_bps f = 0 else pp_creator_fee_bps p \<le> creator_bps f"
proof -
  show "pp_quote_mint p = key_of sdk WSOL_MINT" "\<not> pp_is_mayhem_mode p" "base \<noteq> 0"
    using assms by (auto simp: pool_fees_def split: if_splits)
  then obtain fees0 where f: "f =
      (let fees1 = (if 0 < pp_creator_fee_bps p
                    then fees0\<lparr>creator_bps := max (creator_bps fees0) (pp_creator_fee_bps p)\<rparr> else fees0)
       in if pp_coin_creator p = default_key then fees1\<lparr>creator_bps := 0\<rparr> else fees1)" "\<not> BPS \<le> total_bps f"
    using assms unfolding pool_fees_def by (auto simp: and_then_eq_Inr Let_def split: if_splits)
  show "unat (total_bps f) < 10000" using f(2) by (simp add: word_le_nat_alt)
  show "if pp_coin_creator p = default_key then creator_bps f = 0 else pp_creator_fee_bps p \<le> creator_bps f"
    unfolding f(1) by (simp add: Let_def word_gt_0)
qed

lemma effective_value: "effective_quote_reserves v q = Inr e \<Longrightarrow> int (unat e) = int (unat v) + q"
  using int_unat_of_int [of "int (unat v) + q", where 'a = 64]
  unfolding effective_quote_reserves_def Let_def by (simp only: split: if_splits) auto

lemma vault_balance_facts:
  "vault_balance sdk owner d mint auth = Inr n \<Longrightarrow>
     is_token_program sdk owner \<and> 165 \<le> length d \<and> pubkey_at d 0 = mint \<and> pubkey_at d 32 = auth \<and> n = u64_at d 64"
  by (auto simp: vault_balance_def split: if_splits)

lemma mint_supply_facts: "mint_supply sdk owner d = Inr n \<Longrightarrow> is_token_program sdk owner \<and> n = u64_at d 36"
  by (auto simp: mint_supply_def split: if_splits)

text \<open>
  C22. Whatever the node returns, a snapshot describes a canonical pump.fun pool: created by the pool authority of its base mint and
  quoted in wSOL, with both reserves read from token accounts of the right mint that the pool owns; its price side is the
  vault plus the signed virtual reserves, the SOL a sell can be paid from is the vault less the waiting fees (never more than
  the vault), and the fees stay below 100 percent.
\<close>

theorem snapshot_sound:
  assumes "build_snapshot sdk pool_id pool base_vault quote_vault base_mint fee_cfg = Inr s"
  shows "fst pool = key_of sdk PUMP_AMM_PROGRAM
    \<and> pp_creator (ps_pool s) = pump_pool_authority sdk (pp_base_mint (ps_pool s))
    \<and> pp_quote_mint (ps_pool s) = key_of sdk WSOL_MINT \<and> \<not> pp_is_mayhem_mode (ps_pool s)
    \<and> is_token_program sdk (fst base_vault) \<and> is_token_program sdk (fst quote_vault)
    \<and> pubkey_at (snd base_vault) 0 = pp_base_mint (ps_pool s) \<and> pubkey_at (snd base_vault) 32 = pool_id
    \<and> pubkey_at (snd quote_vault) 0 = key_of sdk WSOL_MINT \<and> pubkey_at (snd quote_vault) 32 = pool_id
    \<and> ps_base_reserve s = u64_at (snd base_vault) 64 \<and> ps_base_reserve s \<noteq> 0
    \<and> ps_quote_vault s = u64_at (snd quote_vault) 64
    \<and> int (unat (ps_effective_quote s)) = int (unat (ps_quote_vault s)) + pp_virtual_quote (ps_pool s)
    \<and> unat (ps_real_quote s)
        + min (unat (pp_protocol_fees (ps_pool s)) + unat (pp_creator_fees (ps_pool s))) (2 ^ 64 - 1)
        = unat (ps_quote_vault s)
    \<and> unat (lp_bps (ps_fees s)) + unat (protocol_bps (ps_fees s)) + unat (creator_bps (ps_fees s)) < 10000"
proof -
  obtain p base quote sup config eff real_q fees where
    parsed: "parse_pool sdk (fst pool) (snd pool) = Inr p" and canon: "require_canonical sdk p = Inr ()"
    and base: "vault_balance sdk (fst base_vault) (snd base_vault) (pp_base_mint p) pool_id = Inr base"
    and quote: "vault_balance sdk (fst quote_vault) (snd quote_vault) (pp_quote_mint p) pool_id = Inr quote"
    and eff: "effective_quote_reserves quote (pp_virtual_quote p) = Inr eff"
    and real_q: "checked_sub quote (sat_add (pp_protocol_fees p) (pp_creator_fees p)) = Some real_q"
    and fees: "pool_fees sdk p config sup base eff = Inr fees"
    and s: "ps_pool s = p" "ps_base_reserve s = base" "ps_quote_vault s = quote" "ps_effective_quote s = eff"
      "ps_real_quote s = real_q" "ps_fees s = fees"
    using assms unfolding build_snapshot_def and_then_eq_Inr ok_or_eq_Inr by (elim exE conjE) (cases s; simp)
  have "fst pool = key_of sdk PUMP_AMM_PROGRAM" using parsed by (simp add: parse_pool_def split: if_splits)
  moreover have "pp_creator p = pump_pool_authority sdk (pp_base_mint p)" "pp_quote_mint p = key_of sdk WSOL_MINT"
    using canon by (simp_all add: require_canonical_def split: if_splits)
  moreover have "unat real_q + min (unat (pp_protocol_fees p) + unat (pp_creator_fees p)) (2 ^ 64 - 1) = unat quote"
    using checked_sub_unat [OF real_q] by (simp add: unat_sat_add)
  ultimately show ?thesis
    using vault_balance_facts [OF base] vault_balance_facts [OF quote] effective_value [OF eff]
      pool_fees_facts [OF fees] by (simp add: s unat_total_bps)
qed

definition token_account_bytes :: "pubkey \<Rightarrow> pubkey \<Rightarrow> u64 \<Rightarrow> bytes" where
  "token_account_bytes mint owner amount =
     mint @ owner @ to_le_bytes 8 amount @ replicate 36 0 @ [1] @ replicate 56 0"

definition mint_bytes :: "u64 \<Rightarrow> bytes" where
  "mint_bytes amount = replicate 36 0 @ to_le_bytes 8 amount @ [6, 1] @ replicate 36 0"

definition example_snapshot_inputs :: "raw_account list" where
  "example_snapshot_inputs =
     [(key_of demo_sdk PUMP_AMM_PROGRAM, pool_bytes [0, 1, 2] (replicate 32 3) (replicate 8 4) [5, 6] example_pool),
      (key_of demo_sdk (TOKEN_PROGRAMS ! 0), token_account_bytes (replicate 32 7) (replicate 32 11) 500000000000000),
      (key_of demo_sdk (TOKEN_PROGRAMS ! 0), token_account_bytes (key_of demo_sdk WSOL_MINT) (replicate 32 11) 52000000000),
      (key_of demo_sdk (TOKEN_PROGRAMS ! 0), mint_bytes 1000000000000000)]"

definition example_snapshot :: pump_snapshot where
  "example_snapshot = \<lparr> ps_pool = example_pool, ps_base_reserve = 500000000000000, ps_quote_vault = 52000000000,
     ps_effective_quote = 50000000000, ps_real_quote = 50000000000, ps_base_supply = 1000000000000000,
     ps_fees = \<lparr> lp_bps = 2, protocol_bps = 93, creator_bps = 250 \<rparr>,
     ps_base_token_program = key_of demo_sdk (TOKEN_PROGRAMS ! 0), ps_pool_data_len = 287 \<rparr>"

lemma vault_balance_bytes:
  assumes "length mint = 32" "length auth = 32" "is_token_program sdk program"
  shows "vault_balance sdk program (token_account_bytes mint auth n) mint auth = Inr n"
  using assms by (simp add: vault_balance_def token_account_bytes_def at_skip nth_append)

lemma mint_supply_bytes: "is_token_program sdk program \<Longrightarrow> mint_supply sdk program (mint_bytes n) = Inr n"
  by (simp add: mint_supply_def mint_bytes_def at_skip nth_append)

lemma example_accounts:
  "require_canonical demo_sdk example_pool = Inr ()"
  "pool_fees demo_sdk example_pool \<lparr> fc_flat_fees = example_fees, fc_fee_tiers = example_tiers, fc_stable_fee_tiers = [],
      fc_exotic_flat_fees = no_fees \<rparr> 1000000000000000 500000000000000 50000000000
     = Inr \<lparr> lp_bps = 2, protocol_bps = 93, creator_bps = 250 \<rparr>"
  "effective_quote_reserves 52000000000 (pp_virtual_quote example_pool) = Inr 50000000000"
  "is_token_program demo_sdk (key_of demo_sdk (TOKEN_PROGRAMS ! 0))" "length (key_of demo_sdk s) = 32"
  by (code_simp, code_simp, code_simp, simp add: is_token_program_def TOKEN_PROGRAMS_def, simp add: demo_sdk_def)

lemma example_built:
  "build_snapshot demo_sdk (replicate 32 11) (example_snapshot_inputs ! 0) (example_snapshot_inputs ! 1)
     (example_snapshot_inputs ! 2) (example_snapshot_inputs ! 3)
     (key_of demo_sdk PUMP_FEE_PROGRAM, example_config) = Inr example_snapshot"
proof -
  have p: "parse_pool demo_sdk (key_of demo_sdk PUMP_AMM_PROGRAM)
      (pool_bytes [0, 1, 2] (replicate 32 3) (replicate 8 4) [5, 6] example_pool) = Inr example_pool"
    using example_pool_ok by (intro parse_pool_bytes) simp_all
  have c: "parse_fee_config demo_sdk (key_of demo_sdk PUMP_FEE_PROGRAM) example_config
      = Inr \<lparr> fc_flat_fees = example_fees, fc_fee_tiers = example_tiers, fc_stable_fee_tiers = [],
              fc_exotic_flat_fees = no_fees \<rparr>"
    using example_config_parsed unfolding example_config_def
    by (intro parse_config_bytes) (simp_all add: example_tiers_def pump_constants)
  have i: "pp_base_mint example_pool = replicate 32 7" "pp_quote_mint example_pool = key_of demo_sdk WSOL_MINT"
    "checked_sub 52000000000 (sat_add (pp_protocol_fees example_pool) (pp_creator_fees example_pool)) = Some 50000000000"
    by (simp_all add: example_pool_def) code_simp
  have "length (pool_bytes [0, 1, 2] (replicate 32 3) (replicate 8 4) [5, 6] example_pool) = 287"
    using example_pool_ok by (simp add: pool_bytes_def pool_ok_def)
  note i = i this
  show ?thesis
    unfolding build_snapshot_def example_snapshot_inputs_def
    by (simp add: p c i example_accounts example_snapshot_def ok_or_def vault_balance_bytes mint_supply_bytes)
qed

theorem snapshot_sound_witness:
  "pp_creator (ps_pool example_snapshot) = pump_pool_authority demo_sdk (pp_base_mint (ps_pool example_snapshot))
    \<and> int (unat (ps_effective_quote example_snapshot))
        = int (unat (ps_quote_vault example_snapshot)) + pp_virtual_quote (ps_pool example_snapshot)"
  using snapshot_sound [OF example_built] by simp

section \<open>The vault cache\<close>

lemma length_alist_update: "length (AList.update k v al) \<le> length al + 1"
  by (induction al) auto

lemma length_alist_delete: "length (AList.delete k al) \<le> length al"
  by (simp add: AList.delete_eq le_SucI)

lemma cache_insert_bounded: "length cache \<le> 10000 \<Longrightarrow> length (cache_insert k v cache) \<le> 10000"
  using length_alist_update [of k v cache] by (auto simp: cache_insert_def)

lemma cache_insert_same: "map_of (cache_insert k v cache) k = Some v"
  by (simp add: cache_insert_def update_conv)

lemma learn_vaults_facts:
  assumes "learn_vaults sdk get_account pool_id cache = Inr (v, cache1)" "length cache \<le> 10000"
  shows "length cache1 \<le> 10000" "map_of cache1 pool_id = Some v"
  using assms
  by (auto simp: learn_vaults_def and_then_eq_Inr cache_insert_same intro!: cache_insert_bounded
      split: option.splits prod.splits)

text \<open>
  The vault cache never grows past 10000 pools, and a successful read of a pool agrees with its cached vaults and mint: the
  addresses the balances were read at are the addresses in the pool that was read with them.
\<close>

lemma fetch_snapshot_cases:
  assumes "length cache \<le> 10000" "fetch_snapshot sdk get_account get_multiple pool_id cache = (r, cache2)"
  shows "length cache2 \<le> 10000
    \<and> (case r of Inl _ \<Rightarrow> True | Inr s \<Rightarrow> map_of cache2 pool_id = Some (pool_keys (ps_pool s)))"
proof (cases "learn_vaults sdk get_account pool_id cache")
  case (Inr r1)
  obtain bv qv bm cache1 where r1: "r1 = ((bv, qv, bm), cache1)" by (cases r1) (metis prod.collapse)
  note facts = learn_vaults_facts [OF Inr [unfolded r1] assms(1)]
  show ?thesis
    using assms(2) facts length_alist_delete [of pool_id cache1] Inr unfolding fetch_snapshot_def r1
    by (simp only: sum.case prod.case Let_def split: sum.splits if_splits) auto
qed (use assms in \<open>auto simp: fetch_snapshot_def\<close>)

section \<open>The square-root price\<close>

lemma unat_price_radicand:
  "base \<noteq> 0 \<Longrightarrow> unat (push_bit 64 (ucast (q :: u64) :: u128) div ucast (base :: u64)) = unat q * 2 ^ 64 div unat base"
  using u64_times_lt [of "2 ^ 64" q] by (simp add: unat_div_word unat_push_bit)

text \<open>
  The square-root price is exact to 32 fractional bits: it is a multiple of \<open>2 ^ 32\<close>, and its integer part \<open>k\<close> is the largest with
  \<open>k * k * base \<le> quote * 2 ^ 64\<close>; the shift never overflows, and there is no price exactly when a reserve is zero.
\<close>

theorem sqrt_price_exact:
  "case sqrt_price_x64 base quote of
     None \<Rightarrow> base = 0 \<or> quote = 0
   | Some p \<Rightarrow>
       \<exists>k. unat p = k * 2 ^ 32 \<and> k * k * unat base \<le> unat quote * 2 ^ 64
         \<and> unat quote * 2 ^ 64 < (k + 1) * (k + 1) * unat base"
proof (cases "base = 0 \<or> quote = 0")
  case False
  let ?r = "push_bit 64 (ucast quote :: u128) div ucast base"
  let ?k = "nat_sqrt (unat ?r)"
  have r: "unat ?r = unat quote * 2 ^ 64 div unat base" using False by (intro unat_price_radicand) simp
  have base: "0 < unat base" "unat base < 2 ^ 64" and "1 \<le> unat quote"
    using False u64_le_max [of base] by (simp_all add: unat_gt_0 Suc_le_eq)
  then have "unat base \<le> unat quote * 2 ^ 64"
    by (intro order.trans [OF less_imp_le [OF base(2)]]) simp
  then have pos: "?r > 0" using base r by (simp add: word_less_nat_alt div_greater_zero_iff)
  have p: "unat (push_bit 32 (isqrt ?r)) = ?k * 2 ^ 32"
    using isqrt_small [of ?r] by (simp add: unat_push_bit unat_isqrt)
  have lo: "?k * ?k * unat base \<le> unat quote * 2 ^ 64"
    using nat_sqrt_bounds [of "unat ?r"] base(1) unfolding r by (simp add: less_eq_div_iff_mult_less_eq)
  have hi: "unat quote * 2 ^ 64 < (?k + 1) * (?k + 1) * unat base"
    using nat_sqrt_bounds [of "unat ?r"] base(1) unfolding r by (simp add: div_less_iff_less_mult)
  have "sqrt_price_x64 base quote = Some (push_bit 32 (isqrt ?r))"
    using False pos by (simp add: sqrt_price_x64_def Let_def)
  then show ?thesis using p lo hi by auto
qed (simp add: sqrt_price_x64_def)

end
