(* ===== verification/Pumpswap_Quote.thy ===== *)
theory Pumpswap_Quote
  imports Pumpswap
begin

text \<open>
  \<open>solana-sniper/src/amm/pumpswap.rs\<close>, second part: the exact-in quotes of a buy and of a sell at their 128-bit width.
  A division by zero panics in the code and is an error here.  The lemmas give the exact integer formulas and the
  range of inputs on which nothing wraps; below four lamports the correction of a buy can wrap.
\<close>

definition fee_of :: "u128 \<Rightarrow> u64 \<Rightarrow> u128" where
  "fee_of amount bps =
     (let x = amount * ucast bps; q = x div BPS in if x mod BPS = 0 then q else q + 1)"

definition buy_exact_quote_in :: "u64 \<Rightarrow> u64 \<Rightarrow> u64 \<Rightarrow> fees \<Rightarrow> pump_error + u64" where
  "buy_exact_quote_in quote_in base_reserve effective_quote fees =
     (if base_reserve = 0 \<or> effective_quote = 0 then Inl ZeroReserves
      else
        let q = ucast quote_in :: u128;
            net0 = q * BPS div (BPS + total_bps fees);
            with_fees = net0 + fee_of net0 (lp_bps fees) + fee_of net0 (protocol_bps fees) + fee_of net0 (creator_bps fees);
            net = (if q < with_fees then net0 - (with_fees - q) else net0)
        in if net = 0 then Inl FeesNotCovered
           else
             let inp = net - 1; den = ucast effective_quote + inp
             in if den = 0 then Inl DivideByZero
                else ok_or BaseOutRange (u64_try_from (ucast base_reserve * inp div den)))"

definition sell_exact_base_in ::
    "u64 \<Rightarrow> u64 \<Rightarrow> u64 \<Rightarrow> int \<Rightarrow> u64 \<Rightarrow> fees \<Rightarrow> pump_error + u64" where
  "sell_exact_base_in base_in base_reserve quote_vault virtual_quote fee_buckets fees =
     (if base_reserve = 0 \<or> quote_vault = 0 then Inl ZeroReserves
      else
        and_then (effective_quote_reserves quote_vault virtual_quote) (\<lambda>eff0.
        let eff = ucast eff0 :: u128; b = ucast base_in;
            gross = eff * b div (ucast base_reserve + b);
            lp = fee_of gross (lp_bps fees)
        in and_then (ok_or FeesExceedOutput (checked_sub gross lp)) (\<lambda>without_lp.
           and_then (ok_or BucketsExceedVault (checked_sub (ucast quote_vault) (ucast fee_buckets) :: u128 option)) (\<lambda>real.
           and_then (ensure (\<not> real < without_lp) InsufficientReal) (\<lambda>_.
           and_then (ok_or FeesExceedOutput
                       (case checked_sub without_lp (fee_of gross (creator_bps fees)) of
                          None \<Rightarrow> None
                        | Some v \<Rightarrow> checked_sub v (fee_of gross (protocol_bps fees)))) (\<lambda>out.
           ok_or QuoteOutRange (u64_try_from out)))))))"

section \<open>Fees\<close>

definition fee_nat :: "nat \<Rightarrow> nat \<Rightarrow> nat" where
  "fee_nat amount bps = (amount * bps + 9999) div 10000"

lemma ceil_div_cases: "(x + 9999) div 10000 = x div 10000 + (if x mod 10000 = 0 then 0 else 1)" for x :: nat
proof (cases "x mod 10000")
  case 0
  then obtain q where "x = 10000 * q" by (metis dvd_def mod_0_imp_dvd)
  then show ?thesis using 0 by (simp add: div_add1_eq)
next
  case (Suc r)
  have "x mod 10000 < 10000" by simp
  then have "x = 10000 * (x div 10000) + Suc r" "r < 9999"
    using Suc div_mult_mod_eq [of x 10000] by (simp_all add: ac_simps)
  then have "(x + 9999) div 10000 = (r + 10000 * (x div 10000 + 1)) div 10000" by simp
  also have "\<dots> = x div 10000 + 1" using \<open>r < 9999\<close> by (subst div_mult_self2) simp_all
  finally show ?thesis using Suc by simp
qed

lemma fee_of_exact:
  assumes "unat amount \<le> 2 ^ 64"
  shows "unat (fee_of amount bps) = fee_nat (unat amount) (unat bps)"
proof -
  have "unat amount * unat bps \<le> 2 ^ 64 * (2 ^ 64 - 1)"
    using assms u64_le_max [of bps] by (intro mult_le_mono) simp_all
  then have le: "unat amount * unat bps < 2 ^ 128" by simp
  then have p: "unat (amount * ucast bps) = unat amount * unat bps" by (simp add: unat_mult_small)
  have "unat (amount * ucast bps) div 10000 + 1 < 2 ^ 128" using le unfolding p by simp
  then have "unat (amount * ucast bps div BPS + 1) = unat (amount * ucast bps) div 10000 + 1"
    by (simp add: unat_add_small unat_div_word)
  moreover have "amount * ucast bps mod BPS = 0 \<longleftrightarrow> unat amount * unat bps mod 10000 = 0"
    using unat_mod_word [of "amount * ucast bps" BPS] unfolding p by (simp add: word_unat_eq_iff)
  moreover have "unat (amount * ucast bps div BPS) = unat amount * unat bps div 10000"
    using unat_div_word [of "amount * ucast bps" BPS] unfolding p by simp
  ultimately show ?thesis by (simp add: fee_of_def Let_def fee_nat_def ceil_div_cases p)
qed

lemma fee_nat_bounds: "amount * bps \<le> 10000 * fee_nat amount bps" "10000 * fee_nat amount bps < amount * bps + 10000"
proof -
  have "amount * bps + 9999 = 10000 * fee_nat amount bps + (amount * bps + 9999) mod 10000"
    "(amount * bps + 9999) mod 10000 < 10000" by (simp_all add: fee_nat_def)
  then show "amount * bps \<le> 10000 * fee_nat amount bps" "10000 * fee_nat amount bps < amount * bps + 10000"
    by linarith+
qed

lemma fee_nat_mono: "a \<le> b \<Longrightarrow> fee_nat a bps \<le> fee_nat b bps"
  unfolding fee_nat_def by (intro div_le_mono add_le_mono1 mult_le_mono1)

text \<open>The three fees of an amount, and the amount with its fees.\<close>

definition fees_nat :: "nat \<Rightarrow> fees \<Rightarrow> nat" where
  "fees_nat amount f =
     fee_nat amount (unat (lp_bps f)) + fee_nat amount (unat (protocol_bps f)) + fee_nat amount (unat (creator_bps f))"

lemma fees_nat_bounds:
  "amount * unat (total_bps f) \<le> 10000 * fees_nat amount f"
  "10000 * fees_nat amount f < amount * unat (total_bps f) + 30000"
  using fee_nat_bounds [of amount "unat (lp_bps f)"] fee_nat_bounds [of amount "unat (protocol_bps f)"]
    fee_nat_bounds [of amount "unat (creator_bps f)"]
  by (simp_all add: fees_nat_def unat_total_bps algebra_simps)

lemma fees_nat_mono: "a \<le> b \<Longrightarrow> fees_nat a f \<le> fees_nat b f"
  unfolding fees_nat_def by (intro add_mono fee_nat_mono)

section \<open>Buys\<close>

lemma net_of_budget:
  fixes q t net0 fee :: nat
  assumes "t < 10000" "4 \<le> q" "net0 = q * 10000 div (10000 + t)" "10000 * fee < net0 * t + 30000"
  shows "2 \<le> net0" "net0 \<le> q" "net0 + fee < q + 3"
proof -
  have "2 * (10000 + t) \<le> q * 10000" using assms(1,2) by simp
  then show "2 \<le> net0" unfolding assms(3) by (simp add: less_eq_div_iff_mult_less_eq)
  have le: "net0 * (10000 + t) \<le> q * 10000" unfolding assms(3) by (rule div_times_less_eq_dividend)
  then show "net0 + fee < q + 3" using assms(4) by (simp add: algebra_simps)
  have "net0 * 10000 \<le> net0 * (10000 + t)" by simp
  with le show "net0 \<le> q" by linarith
qed

text \<open>On a budget of four lamports or more nothing wraps, and the correction brings the amount with its fees back into the budget.\<close>

lemma buy_eq:
  assumes f: "unat (total_bps f) < 10000" and q: "4 \<le> unat q" and res: "base \<noteq> 0" "eff \<noteq> 0"
  shows "\<exists>net. net + fees_nat net f \<le> unat q \<and>
    buy_exact_quote_in q base eff f =
      (if net = 0 then Inl FeesNotCovered
       else Inr (of_nat (unat base * (net - 1) div (unat eff + (net - 1)))))"
proof -
  define net0 where "net0 = ucast q * BPS div (BPS + total_bps f)"
  define wf where "wf = net0 + fee_of net0 (lp_bps f) + fee_of net0 (protocol_bps f) + fee_of net0 (creator_bps f)"
  define net where "net = (if ucast q < wf then net0 - (wf - ucast q) else net0)"
  have n0: "unat net0 = unat q * 10000 div (10000 + unat (total_bps f))"
    using f by (simp add: net0_def unat_div_word unat_add_small BPS_def)
  note budget = net_of_budget [OF f q n0 fees_nat_bounds(2)]
  have small: "unat net0 \<le> 2 ^ 64" using budget(2) u64_le_max [of q] by simp
  have sum: "unat net0 + fees_nat (unat net0) f < 2 ^ 128" using budget(3) u64_le_max [of q] by simp
  then have wf: "unat wf = unat net0 + fees_nat (unat net0) f"
    unfolding wf_def fees_nat_def by (simp add: unat_add_small fee_of_exact [OF small])
  have net: "unat net + fees_nat (unat net) f \<le> unat q"
  proof (cases "ucast q < wf")
    case True
    then have lt: "unat q < unat wf" by (simp add: word_less_nat_alt)
    then have d: "unat (wf - ucast q) = unat wf - unat q" by (simp add: unat_sub_small)
    then have n: "unat net = unat net0 - (unat wf - unat q)"
      using True budget wf by (simp add: net_def unat_sub_small)
    moreover have "fees_nat (unat net) f \<le> fees_nat (unat net0) f" unfolding n by (rule fees_nat_mono) simp
    ultimately show ?thesis using budget wf lt by linarith
  qed (use wf in \<open>simp add: net_def word_less_nat_alt\<close>)
  have eq: "buy_exact_quote_in q base eff f =
      (if unat net = 0 then Inl FeesNotCovered
       else Inr (of_nat (unat base * (unat net - 1) div (unat eff + (unat net - 1)))))"
  proof (cases "net = 0")
    case True
    then show ?thesis
      using res unfolding buy_exact_quote_in_def Let_def net0_def [symmetric] wf_def [symmetric]
        net_def [symmetric] by simp
  next
    case False
    then have i: "unat (net - 1) = unat net - 1" by (simp add: unat_sub_small unat_gt_0 Suc_le_eq)
    have small: "unat net \<le> unat q" using net by linarith
    have den: "unat (ucast eff + (net - 1)) = unat eff + (unat net - 1)"
      using small u64_le_max [of q] u64_le_max [of eff] by (simp add: unat_add_small i)
    have "0 < unat eff" using res by (simp add: unat_gt_0)
    then have den0: "ucast eff + (net - 1) \<noteq> 0" using den by (metis add_is_0 less_irrefl unat_0)
    have "unat base * (unat net - 1) \<le> (2 ^ 64 - 1) * (2 ^ 64 - 1)"
      using small u64_le_max [of base] u64_le_max [of q] by (intro mult_le_mono) simp_all
    then have num: "unat (ucast base * (net - 1)) = unat base * (unat net - 1)"
      by (simp add: unat_mult_small i)
    let ?out = "unat base * (unat net - 1) div (unat eff + (unat net - 1))"
    have "?out \<le> unat base * (unat eff + (unat net - 1)) div (unat eff + (unat net - 1))"
      by (intro div_le_mono mult_le_mono2) simp
    also have "\<dots> = unat base" using \<open>0 < unat eff\<close> by (intro nonzero_mult_div_cancel_right) simp
    finally have small_out: "?out < 2 ^ 64" using u64_le_max [of base] by simp
    have out: "unat (ucast base * (net - 1) div (ucast eff + (net - 1))) = ?out"
      by (simp only: unat_div_word num den)
    then have "u64_try_from (ucast base * (net - 1) div (ucast eff + (net - 1))) = Some (of_nat ?out)"
      using small_out unfolding u64_try_from_Some by (simp only: unsigned_of_nat) (simp add: take_bit_nat_eq_self_iff)
    then show ?thesis
      using res False den0 unfolding buy_exact_quote_in_def Let_def net0_def [symmetric] wf_def [symmetric]
        net_def [symmetric] by (simp only: ok_or_def unat_eq_zero if_False option.case simp_thms)
  qed
  show ?thesis using net eq by blast
qed

section \<open>Sells\<close>

lemma sell_facts:
  assumes "sell_exact_base_in b base vault virt buckets f = Inr out"
  shows "\<exists>eff gross. effective_quote_reserves vault virt = Inr eff
    \<and> gross = unat eff * unat b div (unat base + unat b)
    \<and> unat out + fees_nat gross f = gross
    \<and> gross - fee_nat gross (unat (lp_bps f)) + unat buckets \<le> unat vault"
proof -
  obtain eff where eff: "effective_quote_reserves vault virt = Inr eff" and base: "base \<noteq> 0"
    using assms by (auto simp: sell_exact_base_in_def and_then_eq_Inr split: if_splits)
  define gross where "gross = ucast eff * ucast b div (ucast base + ucast b :: u128)"
  obtain wlp re v o128 where w: "checked_sub gross (fee_of gross (lp_bps f)) = Some wlp"
      "checked_sub (ucast vault) (ucast buckets) = Some (re :: u128)" "wlp \<le> re"
      "checked_sub wlp (fee_of gross (creator_bps f)) = Some v"
      "checked_sub v (fee_of gross (protocol_bps f)) = Some o128" "u64_try_from o128 = Some out"
    using assms eff unfolding sell_exact_base_in_def gross_def [symmetric] Let_def
    by (auto simp: and_then_eq_Inr not_less split: if_splits option.splits simp flip: gross_def)
  have g: "unat gross = unat eff * unat b div (unat base + unat b)"
    using u64_le_max [of base] u64_le_max [of b] by (simp add: gross_def unat_div_word unat_add_small)
  have "unat gross \<le> unat eff * (unat base + unat b) div (unat base + unat b)"
    unfolding g by (intro div_le_mono mult_le_mono2) simp
  also have "\<dots> \<le> unat eff" by simp
  finally have small: "unat gross \<le> 2 ^ 64" using u64_le_max [of eff] by simp
  note subs = w(1,2,4,5) [THEN checked_sub_unat]
  have "unat out = unat o128" using w(6) by (simp add: u64_try_from_Some)
  moreover have "unat wlp \<le> unat re" using w(3) by (simp add: word_le_nat_alt)
  ultimately show ?thesis
    using eff g subs by (intro exI [of _ eff] exI [of _ "unat gross"]) (simp add: fees_nat_def fee_of_exact [OF small])
qed

text \<open>
  A quoted sell is the exact constant-product amount less three fees rounded against the seller, and what leaves the pool is
  covered by the real reserves: with the waiting fees it fits the quote vault.
\<close>

theorem sell_paid_from_real_reserves:
  assumes "sell_exact_base_in b base vault virt buckets f = Inr out"
  shows "\<exists>gross. int gross = (int (unat vault) + virt) * int (unat b) div int (unat base + unat b)
    \<and> unat out + fees_nat gross f = gross \<and> unat out + unat buckets \<le> unat vault"
proof -
  obtain eff gross where g: "effective_quote_reserves vault virt = Inr eff"
    "gross = unat eff * unat b div (unat base + unat b)" "unat out + fees_nat gross f = gross"
    "gross - fee_nat gross (unat (lp_bps f)) + unat buckets \<le> unat vault"
    using sell_facts [OF assms] by blast
  have "unat out \<le> gross - fee_nat gross (unat (lp_bps f))" using g(3) by (simp add: fees_nat_def)
  then show ?thesis
    using g by (intro exI [of _ gross]) (simp add: zdiv_int flip: effective_value [OF g(1)])
qed

lemmas quote_eval = sell_exact_base_in_def buy_exact_quote_in_def effective_quote_reserves_def fee_of_def Let_def BPS_def
  total_bps_def checked_sub_def u64_try_from_def ensure_def ok_or_def

theorem sell_paid_from_real_reserves_witness:
  "sell_exact_base_in 50000 1000000 2000000 0 0 \<lparr> lp_bps = 30, protocol_bps = 20, creator_bps = 0 \<rparr> = Inr 94761
    \<and> unat (94761 :: u64) + unat (0 :: u64) \<le> unat (2000000 :: u64)"
proof -
  have s: "sell_exact_base_in 50000 1000000 2000000 0 0 \<lparr> lp_bps = 30, protocol_bps = 20, creator_bps = 0 \<rparr> = Inr 94761"
    by (simp add: quote_eval)
  show ?thesis using s sell_paid_from_real_reserves [OF s] by blast
qed

section \<open>Round trips\<close>

lemma round_trip_nat:
  fixes base eff n out :: nat
  assumes "0 < eff" "out = base * n div (eff + n)" "0 < base + out"
  shows "eff * out div (base + out) \<le> n"
proof -
  have "out * (eff + n) \<le> base * n" unfolding assms(2) by (rule div_times_less_eq_dividend)
  then have "eff * out \<le> n * (base + out)" by (simp add: algebra_simps)
  then have "eff * out div (base + out) \<le> n * (base + out) div (base + out)" by (rule div_le_mono)
  also have "\<dots> = n" using assms(3) by (intro nonzero_mult_div_cancel_right) simp
  finally show ?thesis .
qed

text \<open>A constant-product amount is below the reserve it is taken from.\<close>

lemma swap_out_below:
  fixes base :: u64 and e n :: nat
  assumes "0 < unat base" "0 < e"
  shows "unat (of_nat (unat base * n div (e + n)) :: u64) = unat base * n div (e + n)
    \<and> of_nat (unat base * n div (e + n)) < base"
proof -
  have "unat base * n < unat base * (e + n)" using assms by simp
  then have lt: "unat base * n div (e + n) < unat base" using assms(2) by (simp add: div_less_iff_less_mult)
  then have "unat base * n div (e + n) < 2 ^ 64" by (rule less_trans) simp
  then have "unat (of_nat (unat base * n div (e + n)) :: u64) = unat base * n div (e + n)"
    by (simp only: unsigned_of_nat) (simp add: take_bit_nat_eq_self_iff)
  then show ?thesis using lt by (simp add: word_less_nat_alt)
qed

text \<open>
  C21. The quotes never promise a free lunch: tokens bought for \<open>q\<close> lamports (four or more) sell on the same snapshot for strictly
  less than \<open>q\<close>, whatever the reserves and the fees below 100 percent.
\<close>

theorem round_trip_loses:
  assumes "unat (lp_bps f) + unat (protocol_bps f) + unat (creator_bps f) < 10000" "4 \<le> q"
    and "effective_quote_reserves vault virt = Inr eff"
    and "buy_exact_quote_in q base eff f = Inr out"
    and "sell_exact_base_in out base vault virt buckets f = Inr back"
  shows "back < q"
proof -
  have res: "base \<noteq> 0" "eff \<noteq> 0"
    using assms(4) by (auto simp: buy_exact_quote_in_def split: if_splits)
  have four: "4 \<le> unat q" using assms(2) by (simp add: word_le_nat_alt)
  obtain net where net: "net + fees_nat net f \<le> unat q" and buy:
    "buy_exact_quote_in q base eff f =
      (if net = 0 then Inl FeesNotCovered
       else Inr (of_nat (unat base * (net - 1) div (unat eff + (net - 1)))))"
    using buy_eq [OF _ four res, of f] assms(1) unat_total_bps [of f] by auto
  have pos: "0 < net" and out: "out = of_nat (unat base * (net - 1) div (unat eff + (net - 1)))"
    using buy assms(4) by (auto split: if_splits)
  have out': "unat out = unat base * (net - 1) div (unat eff + (net - 1))"
    unfolding out using res swap_out_below [of base "unat eff" "net - 1"] by (simp only: unat_gt_0 not_False_eq_True simp_thms)
  obtain gross where g: "gross = unat eff * unat out div (unat base + unat out)" "unat back + fees_nat gross f = gross"
    using sell_facts [OF assms(5)] assms(3) by auto
  have "gross \<le> net - 1"
    unfolding g(1) using res by (intro round_trip_nat [OF _ out']) (simp_all add: unat_gt_0)
  then show ?thesis using g(2) net pos by (simp add: word_less_nat_alt)
qed

theorem round_trip_loses_witness:
  "let f = \<lparr> lp_bps = 30, protocol_bps = 20, creator_bps = 0 \<rparr>
   in buy_exact_quote_in 10000 1000000 2000000 f = Inr 4949
      \<and> sell_exact_base_in 4949 1000000 2000000 0 0 f = Inr 9799 \<and> (9799 :: u64) < 10000"
proof -
  let ?f = "\<lparr> lp_bps = 30, protocol_bps = 20, creator_bps = 0 \<rparr> :: fees"
  have b: "buy_exact_quote_in 10000 1000000 2000000 ?f = Inr 4949"
    and s: "sell_exact_base_in 4949 1000000 2000000 0 0 ?f = Inr 9799"
    and e: "effective_quote_reserves 2000000 0 = Inr 2000000"
    by (simp_all add: quote_eval)
  show ?thesis using b s round_trip_loses [OF _ _ e b s] by (simp add: Let_def)
qed

text \<open>
  A quoted buy stays in its budget: for four lamports or more the amount that trades plus its three rounded-up fees never exceeds
  \<open>q\<close>, the tokens are the exact constant-product amount for one lamport less than that, and they are fewer than the base reserve.
\<close>

theorem buy_within_budget:
  assumes "unat (lp_bps f) + unat (protocol_bps f) + unat (creator_bps f) < 10000" "4 \<le> q"
    and "buy_exact_quote_in q base eff f = Inr out"
  shows "\<exists>net. 0 < net \<and> net + fees_nat net f \<le> unat q
    \<and> unat out = unat base * (net - 1) div (unat eff + (net - 1)) \<and> out < base"
proof -
  have res: "base \<noteq> 0" "eff \<noteq> 0"
    using assms(3) by (auto simp: buy_exact_quote_in_def split: if_splits)
  have four: "4 \<le> unat q" using assms(2) by (simp add: word_le_nat_alt)
  obtain net where net: "net + fees_nat net f \<le> unat q" and buy:
    "buy_exact_quote_in q base eff f =
      (if net = 0 then Inl FeesNotCovered
       else Inr (of_nat (unat base * (net - 1) div (unat eff + (net - 1)))))"
    using buy_eq [OF _ four res, of f] assms(1) unat_total_bps [of f] by auto
  have pos: "0 < net" and out: "out = of_nat (unat base * (net - 1) div (unat eff + (net - 1)))"
    using buy assms(3) by (auto split: if_splits)
  have "unat out = unat base * (net - 1) div (unat eff + (net - 1)) \<and> out < base"
    unfolding out using res by (intro swap_out_below) (simp_all add: unat_gt_0)
  with net pos show ?thesis by blast
qed

theorem buy_within_budget_witness:
  "\<exists>net. 0 < net \<and> net + fees_nat net \<lparr> lp_bps = 30, protocol_bps = 20, creator_bps = 0 \<rparr> \<le> 10000
     \<and> 4949 = 1000000 * (net - 1) div (2000000 + (net - 1))"
  using buy_within_budget [of "\<lparr> lp_bps = 30, protocol_bps = 20, creator_bps = 0 \<rparr>" 10000 1000000 2000000 4949]
  by (simp add: quote_eval)

text \<open>Below four lamports the correction can pass the net amount: the subtraction wraps and the quote is an error.\<close>

lemma tiny_buy_is_an_error:
  "buy_exact_quote_in 2 1000000 2000000 \<lparr> lp_bps = 20, protocol_bps = 5, creator_bps = 95 \<rparr> = Inl BaseOutRange"
  by (simp add: quote_eval)

end
