(* ===== verification/Pumpswap_Ix.thy ===== *)
theory Pumpswap_Ix
  imports Pumpswap
begin

text \<open>
  \<open>solana-sniper/src/amm/pumpswap_ix.rs\<close>: the global configuration of PumpSwap, the instructions of a simulated swap with their
  account lists in order, and the choice of a holder that can stand in as the seller.  The system transfer is built by
  the Solana SDK and is an argument, as is its test that a key lies on the curve.
\<close>

section \<open>Constants\<close>

definition SPL_TOKEN_PROGRAM :: string where "SPL_TOKEN_PROGRAM = ''TokenkegQfeZyiNwAJbNbGKPFXCWuBvf9Ss623VQ5DA''"
definition TOKEN_2022_PROGRAM :: string where "TOKEN_2022_PROGRAM = ''TokenzQdBNbLqP5VEhdkAS6EPFLC1PHnBqCXEpPxuEb''"
definition ASSOCIATED_TOKEN_PROGRAM :: string where
  "ASSOCIATED_TOKEN_PROGRAM = ''ATokenGPvbdGVxr1b2hvZbsiqW5xWH25efTNsLJA8knL''"
definition IX_SYSTEM_PROGRAM :: string where "IX_SYSTEM_PROGRAM = ''11111111111111111111111111111111''"

definition BUY_DISCRIMINATOR :: bytes where "BUY_DISCRIMINATOR = [102, 6, 61, 18, 1, 218, 235, 234]"
definition SELL_DISCRIMINATOR :: bytes where "SELL_DISCRIMINATOR = [51, 230, 133, 164, 1, 127, 131, 173]"
definition EXTEND_ACCOUNT_DISCRIMINATOR :: bytes where
  "EXTEND_ACCOUNT_DISCRIMINATOR = [234, 102, 194, 203, 150, 72, 62, 229]"
definition GLOBAL_CONFIG_DISCRIMINATOR :: bytes where
  "GLOBAL_CONFIG_DISCRIMINATOR = [149, 8, 156, 202, 160, 252, 176, 217]"

definition POOL_ACCOUNT_NEW_SIZE :: nat where "POOL_ACCOUNT_NEW_SIZE = 300"
definition GC_DISABLE_FLAGS :: nat where "GC_DISABLE_FLAGS = 56"
definition GC_PROTOCOL_RECIPIENTS :: nat where "GC_PROTOCOL_RECIPIENTS = 57"
definition GC_BUYBACK_RECIPIENTS :: nat where "GC_BUYBACK_RECIPIENTS = 643"
definition GC_MIN_LEN :: nat where "GC_MIN_LEN = 907"
definition DISABLE_BUY :: u8 where "DISABLE_BUY = push_bit 3 1"
definition DISABLE_SELL :: u8 where "DISABLE_SELL = push_bit 4 1"

section \<open>The global configuration\<close>

record global_config =
  disable_flags :: u8
  protocol_fee_recipient :: pubkey
  buyback_fee_recipient :: pubkey

datatype pix_error =
    GcOwner pubkey | GcTooShort nat | GcDiscriminator | NoProtocolRecipient | NoBuybackRecipient
  | NotTokenProgram pubkey | OnlyWsolQuoted | BuysDisabled | SellsDisabled

definition buy_disabled :: "global_config \<Rightarrow> bool" where
  "buy_disabled gc \<longleftrightarrow> disable_flags gc AND DISABLE_BUY \<noteq> 0"

definition sell_disabled :: "global_config \<Rightarrow> bool" where
  "sell_disabled gc \<longleftrightarrow> disable_flags gc AND DISABLE_SELL \<noteq> 0"

definition first_recipient :: "bytes \<Rightarrow> nat \<Rightarrow> nat \<Rightarrow> pubkey option" where
  "first_recipient d off n = find (\<lambda>k. k \<noteq> default_key) (map (\<lambda>i. pubkey_at d (off + 32 * i)) [0..<n])"

definition parse_global_config :: "solana_sdk \<Rightarrow> pubkey \<Rightarrow> bytes \<Rightarrow> pix_error + global_config" where
  "parse_global_config sdk owner data =
     (if owner \<noteq> key_of sdk PUMP_AMM_PROGRAM then Inl (GcOwner owner)
      else if length data < GC_MIN_LEN then Inl (GcTooShort (length data))
      else if take 8 data \<noteq> GLOBAL_CONFIG_DISCRIMINATOR then Inl GcDiscriminator
      else
        and_then (ok_or NoProtocolRecipient (first_recipient data GC_PROTOCOL_RECIPIENTS 8)) (\<lambda>protocol.
        and_then (ok_or NoBuybackRecipient (first_recipient data GC_BUYBACK_RECIPIENTS 8)) (\<lambda>buyback.
        Inr \<lparr> disable_flags = data ! GC_DISABLE_FLAGS, protocol_fee_recipient = protocol,
              buyback_fee_recipient = buyback \<rparr>)))"

section \<open>Program addresses\<close>

definition str_bytes :: "string \<Rightarrow> bytes" where
  "str_bytes s = map of_char s"

definition amm_pda :: "solana_sdk \<Rightarrow> bytes list \<Rightarrow> pubkey" where
  "amm_pda sdk seeds = find_pda sdk seeds (key_of sdk PUMP_AMM_PROGRAM)"

definition global_config_address :: "solana_sdk \<Rightarrow> pubkey" where
  "global_config_address sdk = amm_pda sdk [str_bytes ''global_config'']"

definition event_authority :: "solana_sdk \<Rightarrow> pubkey" where
  "event_authority sdk = amm_pda sdk [str_bytes ''__event_authority'']"

definition global_volume_accumulator :: "solana_sdk \<Rightarrow> pubkey" where
  "global_volume_accumulator sdk = amm_pda sdk [str_bytes ''global_volume_accumulator'']"

definition user_volume_accumulator :: "solana_sdk \<Rightarrow> pubkey \<Rightarrow> pubkey" where
  "user_volume_accumulator sdk user = amm_pda sdk [str_bytes ''user_volume_accumulator'', user]"

definition coin_creator_vault_authority :: "solana_sdk \<Rightarrow> pubkey \<Rightarrow> pubkey" where
  "coin_creator_vault_authority sdk coin_creator = amm_pda sdk [str_bytes ''creator_vault'', coin_creator]"

definition pool_v2 :: "solana_sdk \<Rightarrow> pubkey \<Rightarrow> pubkey" where
  "pool_v2 sdk base_mint = amm_pda sdk [str_bytes ''pool-v2'', base_mint]"

definition ata :: "solana_sdk \<Rightarrow> pubkey \<Rightarrow> pubkey \<Rightarrow> pubkey \<Rightarrow> pubkey" where
  "ata sdk owner mint token_program =
     find_pda sdk [owner, token_program, mint] (key_of sdk ASSOCIATED_TOKEN_PROGRAM)"

definition check_token_program :: "solana_sdk \<Rightarrow> pubkey \<Rightarrow> pix_error + unit" where
  "check_token_program sdk p =
     (if p = key_of sdk SPL_TOKEN_PROGRAM \<or> p = key_of sdk TOKEN_2022_PROGRAM then Inr ()
      else Inl (NotTokenProgram p))"

section \<open>Instructions\<close>

datatype swap_side = Buy u64 u64 | Sell u64 u64  \<comment> \<open>base out and maximal quote in; base in and minimal quote out\<close>

definition swap_base_metas ::
    "solana_sdk \<Rightarrow> pubkey \<Rightarrow> pump_pool \<Rightarrow> global_config \<Rightarrow> pubkey \<Rightarrow> pubkey \<Rightarrow> account_meta list" where
  "swap_base_metas sdk pool_id pool gc user base_token_program =
     (let wsol = key_of sdk WSOL_MINT; quote_program = key_of sdk SPL_TOKEN_PROGRAM;
          creator_vault = coin_creator_vault_authority sdk (pp_coin_creator pool)
      in [meta_new pool_id False,
          meta_new user True,
          meta_readonly (global_config_address sdk) False,
          meta_readonly (pp_base_mint pool) False,
          meta_readonly (pp_quote_mint pool) False,
          meta_new (ata sdk user (pp_base_mint pool) base_token_program) False,
          meta_new (ata sdk user wsol quote_program) False,
          meta_new (pp_base_account pool) False,
          meta_new (pp_quote_account pool) False,
          meta_readonly (protocol_fee_recipient gc) False,
          meta_new (ata sdk (protocol_fee_recipient gc) wsol quote_program) False,
          meta_readonly base_token_program False,
          meta_readonly quote_program False,
          meta_readonly (key_of sdk IX_SYSTEM_PROGRAM) False,
          meta_readonly (key_of sdk ASSOCIATED_TOKEN_PROGRAM) False,
          meta_readonly (event_authority sdk) False,
          meta_readonly (key_of sdk PUMP_AMM_PROGRAM) False,
          meta_new (ata sdk creator_vault wsol quote_program) False,
          meta_readonly creator_vault False])"

fun side_metas :: "solana_sdk \<Rightarrow> pubkey \<Rightarrow> swap_side \<Rightarrow> account_meta list" where
  "side_metas sdk user (Buy _ _) =
     [meta_readonly (global_volume_accumulator sdk) False, meta_new (user_volume_accumulator sdk user) False]"
| "side_metas sdk user (Sell _ _) = []"

fun side_data :: "swap_side \<Rightarrow> bytes" where
  "side_data (Buy base_out max_quote_in) =
     BUY_DISCRIMINATOR @ to_le_bytes 8 base_out @ to_le_bytes 8 max_quote_in @ [1]"
| "side_data (Sell base_in min_quote_out) =
     SELL_DISCRIMINATOR @ to_le_bytes 8 base_in @ to_le_bytes 8 min_quote_out"

fun is_sell :: "swap_side \<Rightarrow> bool" where
  "is_sell (Sell _ _) = True"
| "is_sell (Buy _ _) = False"

definition remaining_metas ::
    "solana_sdk \<Rightarrow> pump_pool \<Rightarrow> global_config \<Rightarrow> pubkey \<Rightarrow> swap_side \<Rightarrow> account_meta list" where
  "remaining_metas sdk pool gc user side =
     (let wsol = key_of sdk WSOL_MINT; quote_program = key_of sdk SPL_TOKEN_PROGRAM;
          uva = user_volume_accumulator sdk user
      in (if pp_is_cashback_coin pool
          then meta_new (ata sdk uva wsol quote_program) False # (if is_sell side then [meta_new uva False] else [])
          else [])
         @ (if pp_coin_creator pool \<noteq> default_key then [meta_readonly (pool_v2 sdk (pp_base_mint pool)) False] else [])
         @ [meta_readonly (buyback_fee_recipient gc) False,
            meta_new (ata sdk (buyback_fee_recipient gc) wsol quote_program) False])"

definition swap_ix ::
    "solana_sdk \<Rightarrow> pubkey \<Rightarrow> pump_pool \<Rightarrow> global_config \<Rightarrow> pubkey \<Rightarrow> pubkey \<Rightarrow> swap_side \<Rightarrow> pix_error + instr" where
  "swap_ix sdk pool_id pool gc user base_token_program side =
     and_then (check_token_program sdk base_token_program) (\<lambda>_.
     and_then (ensure (pp_quote_mint pool = key_of sdk WSOL_MINT) OnlyWsolQuoted) (\<lambda>_.
     and_then (ensure (is_sell side \<or> \<not> buy_disabled gc) BuysDisabled) (\<lambda>_.
     and_then (ensure (\<not> is_sell side \<or> \<not> sell_disabled gc) SellsDisabled) (\<lambda>_.
     Inr \<lparr> ix_program = key_of sdk PUMP_AMM_PROGRAM,
           ix_metas = swap_base_metas sdk pool_id pool gc user base_token_program @ side_metas sdk user side
             @ [meta_readonly (fee_config_address sdk) False, meta_readonly (key_of sdk PUMP_FEE_PROGRAM) False]
             @ remaining_metas sdk pool gc user side,
           ix_bytes = side_data side \<rparr>))))"

definition extend_pool_ix :: "solana_sdk \<Rightarrow> pubkey \<Rightarrow> pubkey \<Rightarrow> instr" where
  "extend_pool_ix sdk pool_id user =
     \<lparr> ix_program = key_of sdk PUMP_AMM_PROGRAM,
       ix_metas = [meta_new pool_id False, meta_new user True, meta_readonly (key_of sdk IX_SYSTEM_PROGRAM) False,
                   meta_readonly (event_authority sdk) False, meta_readonly (key_of sdk PUMP_AMM_PROGRAM) False],
       ix_bytes = EXTEND_ACCOUNT_DISCRIMINATOR \<rparr>"

definition create_ata_idempotent_ix :: "solana_sdk \<Rightarrow> pubkey \<Rightarrow> pubkey \<Rightarrow> pubkey \<Rightarrow> pubkey \<Rightarrow> instr" where
  "create_ata_idempotent_ix sdk payer owner mint token_program =
     \<lparr> ix_program = key_of sdk ASSOCIATED_TOKEN_PROGRAM,
       ix_metas = [meta_new payer True, meta_new (ata sdk owner mint token_program) False, meta_readonly owner False,
                   meta_readonly mint False, meta_readonly (key_of sdk IX_SYSTEM_PROGRAM) False,
                   meta_readonly token_program False],
       ix_bytes = [1] \<rparr>"

text \<open>\<open>transfer\<close> stands for the SDK's system transfer instruction.\<close>

definition swap_instructions ::
    "solana_sdk \<Rightarrow> (pubkey \<Rightarrow> pubkey \<Rightarrow> u64 \<Rightarrow> instr) \<Rightarrow> pubkey \<Rightarrow> nat \<Rightarrow> pump_pool \<Rightarrow> global_config \<Rightarrow> pubkey \<Rightarrow> pubkey
       \<Rightarrow> swap_side \<Rightarrow> pix_error + instr list" where
  "swap_instructions sdk transfer pool_id pool_data_len pool gc user base_token_program side =
     (let wsol = key_of sdk WSOL_MINT; spl = key_of sdk SPL_TOKEN_PROGRAM; user_wsol = ata sdk user wsol spl
      in and_then (swap_ix sdk pool_id pool gc user base_token_program side) (\<lambda>swap.
         Inr ((if pool_data_len < POOL_ACCOUNT_NEW_SIZE then [extend_pool_ix sdk pool_id user] else [])
              @ [create_ata_idempotent_ix sdk user user wsol spl]
              @ (case side of
                   Buy base_out max_quote_in \<Rightarrow>
                     [transfer user user_wsol max_quote_in,
                      \<lparr> ix_program = spl, ix_metas = [meta_new user_wsol False], ix_bytes = [17] \<rparr>,
                      create_ata_idempotent_ix sdk user user (pp_base_mint pool) base_token_program]
                 | Sell base_in min_quote_out \<Rightarrow> [])
              @ [swap])))"

section \<open>A stand-in seller\<close>

definition holder_of ::
    "solana_sdk \<Rightarrow> (pubkey \<Rightarrow> bool) \<Rightarrow> pubkey \<Rightarrow> pubkey \<Rightarrow> u64 \<Rightarrow> pubkey \<times> bytes option \<Rightarrow> pubkey option" where
  "holder_of sdk on_curve mint token_program min_amount = (\<lambda>(addr, data).
     case data of
       None \<Rightarrow> None
     | Some d \<Rightarrow>
         if length d < 72 then None
         else
           let owner = pubkey_at d 32
           in if on_curve owner \<and> min_amount \<le> u64_at d 64 \<and> addr = ata sdk owner mint token_program
              then Some owner else None)"

fun find_map :: "('a \<Rightarrow> 'b option) \<Rightarrow> 'a list \<Rightarrow> 'b option" where
  "find_map f [] = None"
| "find_map f (x # xs) = (case f x of Some y \<Rightarrow> Some y | None \<Rightarrow> find_map f xs)"

definition pick_holder ::
    "solana_sdk \<Rightarrow> (pubkey \<Rightarrow> bool) \<Rightarrow> pubkey \<Rightarrow> pubkey \<Rightarrow> (pubkey \<times> bytes option) list \<Rightarrow> u64 \<Rightarrow> pubkey option" where
  "pick_holder sdk on_curve mint token_program accounts min_amount =
     find_map (holder_of sdk on_curve mint token_program min_amount) accounts"

section \<open>What a swap contains\<close>

text \<open>The amount and the bound a side carries: for a buy the most it may cost, for a sell the least it must pay.\<close>

fun side_amounts :: "swap_side \<Rightarrow> u64 \<times> u64" where
  "side_amounts (Buy base_out max_quote_in) = (base_out, max_quote_in)"
| "side_amounts (Sell base_in min_quote_out) = (base_in, min_quote_out)"

lemma side_data_amounts: "(u64_at (side_data side) 8, u64_at (side_data side) 16) = side_amounts side"
  by (cases side) (simp_all add: BUY_DISCRIMINATOR_def SELL_DISCRIMINATOR_def at_skip at_skip_Cons)

lemma side_data_length: "length (side_data side) = (if is_sell side then 24 else 25)"
  by (cases side) (simp_all add: BUY_DISCRIMINATOR_def SELL_DISCRIMINATOR_def)

lemma signers_swap: "swap_ix sdk pool_id pool gc user prog side = Inr ix \<Longrightarrow> signers ix = [user]"
  by (cases side)
     (auto simp: swap_ix_def ok_iff signers_def swap_base_metas_def remaining_metas_def Let_def)

lemma signers_setup:
  "signers (extend_pool_ix sdk pool_id user) = [user]"
  "signers (create_ata_idempotent_ix sdk user owner mint prog) = [user]"
  "signers \<lparr> ix_program = p, ix_metas = [meta_new k False], ix_bytes = b \<rparr> = []"
  by (simp_all add: signers_def extend_pool_ix_def create_ata_idempotent_ix_def)

text \<open>The number of accounts the program reads, by direction, cashback and creator.\<close>

lemma swap_account_count:
  assumes "swap_ix sdk pool_id pool gc user prog side = Inr ix"
  shows "length (ix_metas ix) = (if is_sell side then 23 else 25)
    + (if pp_is_cashback_coin pool then if is_sell side then 2 else 1 else 0)
    + (if pp_coin_creator pool = default_key then 0 else 1)"
  using assms by (cases side) (auto simp: swap_ix_def ok_iff swap_base_metas_def remaining_metas_def Let_def)

text \<open>
  C23. A simulated swap asks nothing but the user for a signature, ends with exactly one swap instruction of the PumpSwap program that
  carries the requested amount and bound, names the pool and its two vaults where the program expects them, and a buy wraps no more
  lamports than its bound; a disabled direction, a quote other than wSOL or a foreign token program gives no instruction at all.
\<close>

theorem swap_instructions_sound:
  assumes "swap_instructions sdk transfer pool_id len pool gc user prog side = Inr ixs"
    and "\<forall>payer dest n. signers (transfer payer dest n) = [payer]"
  shows "list_all (\<lambda>ix. set (signers ix) \<subseteq> {user}) ixs
    \<and> ix_program (last ixs) = key_of sdk PUMP_AMM_PROGRAM
    \<and> (u64_at (ix_bytes (last ixs)) 8, u64_at (ix_bytes (last ixs)) 16) = side_amounts side
    \<and> map am_key (take 2 (ix_metas (last ixs))) = [pool_id, user]
    \<and> map am_key (take 2 (drop 7 (ix_metas (last ixs)))) = [pp_base_account pool, pp_quote_account pool]
    \<and> pp_quote_mint pool = key_of sdk WSOL_MINT
    \<and> (case side of
         Buy base bound \<Rightarrow> \<not> buy_disabled gc
           \<and> transfer user (ata sdk user (key_of sdk WSOL_MINT) (key_of sdk SPL_TOKEN_PROGRAM)) bound \<in> set ixs
       | Sell amount bound \<Rightarrow> \<not> sell_disabled gc)"
proof -
  obtain swap where swap: "swap_ix sdk pool_id pool gc user prog side = Inr swap" and last: "last ixs = swap"
    using assms(1) by (auto simp: swap_instructions_def ok_iff Let_def)
  have fields: "ix_program swap = key_of sdk PUMP_AMM_PROGRAM" "ix_bytes swap = side_data side"
    "map am_key (take 2 (ix_metas swap)) = [pool_id, user]"
    "map am_key (take 2 (drop 7 (ix_metas swap))) = [pp_base_account pool, pp_quote_account pool]"
    "pp_quote_mint pool = key_of sdk WSOL_MINT" "is_sell side \<or> \<not> buy_disabled gc" "\<not> is_sell side \<or> \<not> sell_disabled gc"
    using swap by (auto simp: swap_ix_def ok_iff swap_base_metas_def Let_def)
  have "list_all (\<lambda>ix. set (signers ix) \<subseteq> {user}) ixs"
    using assms signers_swap [OF swap] swap
    by (cases side) (auto simp: swap_instructions_def ok_iff Let_def signers_setup)
  moreover have "case side of
         Buy base bound \<Rightarrow> \<not> buy_disabled gc
           \<and> transfer user (ata sdk user (key_of sdk WSOL_MINT) (key_of sdk SPL_TOKEN_PROGRAM)) bound \<in> set ixs
       | Sell amount bound \<Rightarrow> \<not> sell_disabled gc"
    using assms(1) fields(6,7) by (cases side) (auto simp: swap_instructions_def ok_iff Let_def)
  ultimately show ?thesis using fields last by (simp add: side_data_amounts)
qed

definition demo_transfer :: "pubkey \<Rightarrow> pubkey \<Rightarrow> u64 \<Rightarrow> instr" where
  "demo_transfer payer dest n =
     \<lparr> ix_program = replicate 32 0, ix_metas = [meta_new payer True, meta_new dest False],
       ix_bytes = to_le_bytes 4 (2 :: u32) @ to_le_bytes 8 n \<rparr>"

definition demo_gc :: global_config where
  "demo_gc = \<lparr> disable_flags = 7, protocol_fee_recipient = replicate 32 1, buyback_fee_recipient = replicate 32 2 \<rparr>"

theorem swap_instructions_sound_witness:
  "\<exists>ixs. swap_instructions demo_sdk demo_transfer (replicate 32 11) 287 example_pool demo_gc (replicate 32 5)
       (key_of demo_sdk SPL_TOKEN_PROGRAM) (Buy 1000 50) = Inr ixs
     \<and> length ixs = 6 \<and> list_all (\<lambda>ix. set (signers ix) \<subseteq> {replicate 32 5}) ixs
     \<and> (u64_at (ix_bytes (last ixs)) 8, u64_at (ix_bytes (last ixs)) 16) = (1000, 50)"
proof -
  have q: "pp_quote_mint example_pool = key_of demo_sdk WSOL_MINT" by (simp add: example_pool_def)
  have g: "\<not> buy_disabled demo_gc" by (simp add: buy_disabled_def demo_gc_def DISABLE_BUY_def)
  obtain ixs where ixs: "swap_instructions demo_sdk demo_transfer (replicate 32 11) 287 example_pool demo_gc (replicate 32 5)
       (key_of demo_sdk SPL_TOKEN_PROGRAM) (Buy 1000 50) = Inr ixs" "length ixs = 6"
    using q g by (simp add: swap_instructions_def swap_ix_def check_token_program_def ensure_def Let_def
        POOL_ACCOUNT_NEW_SIZE_def)
  show ?thesis
    using swap_instructions_sound [OF ixs(1)] ixs by (simp add: signers_def demo_transfer_def)
qed

text \<open>The wallet that stands in as the seller really holds the tokens, in its own associated account.\<close>

lemma find_map_Some: "find_map f xs = Some y \<Longrightarrow> \<exists>x \<in> set xs. f x = Some y"
  by (induction xs) (auto split: option.splits)

lemma pick_holder_holds:
  "pick_holder sdk on_curve mint prog accounts n = Some owner \<Longrightarrow>
     \<exists>d. (ata sdk owner mint prog, Some d) \<in> set accounts \<and> on_curve owner \<and> pubkey_at d 32 = owner \<and> n \<le> u64_at d 64"
  unfolding pick_holder_def
  by (drule find_map_Some) (auto simp: holder_of_def Let_def split: option.splits if_splits)

text \<open>A parsed configuration has recipients that are set.\<close>

lemma find_Some_P: "find P xs = Some x \<Longrightarrow> P x"
  by (auto simp: find_Some_iff)

lemma parsed_recipients:
  "parse_global_config sdk owner d = Inr gc \<Longrightarrow>
     protocol_fee_recipient gc \<noteq> default_key \<and> buyback_fee_recipient gc \<noteq> default_key"
  by (auto simp: parse_global_config_def ok_iff first_recipient_def dest!: find_Some_P split: if_splits)

end
