(* ===== verification/Tick_Arrays.thy ===== *)
theory Tick_Arrays
  imports Solana "HOL-Library.Signed_Division"
begin

text \<open>
  \<open>solana-sniper/src/amm/account_resolver.rs\<close>, the tick arrays of a Raydium pool: the bitmaps that record which arrays are
  initialized (the pool's own and its extension), the search for initialized arrays in the direction of a swap,
  and the fixed scan around the current tick.  Values of type i32 are integers, wrapped where the code can leave the range;
  an index past the end of a bitmap panics in the code and is a value of its own here.
\<close>

section \<open>Constants\<close>

definition TICK_ARRAY_SIZE :: int where "TICK_ARRAY_SIZE = 60"
definition MIN_TICK :: int where "MIN_TICK = - 443636"
definition MAX_TICK :: int where "MAX_TICK = 443636"
definition EXTENSION_BITMAPS :: nat where "EXTENSION_BITMAPS = 14"
definition DEFAULT_BITMAP_ARRAYS :: int where "DEFAULT_BITMAP_ARRAYS = 512"
definition TICK_ARRAY_BITMAP_OFFSET :: nat where "TICK_ARRAY_BITMAP_OFFSET = 904"
definition MAX_SWAP_TICK_ARRAYS :: nat where "MAX_SWAP_TICK_ARRAYS = 3"
definition TICK_ARRAY_SCAN :: nat where "TICK_ARRAY_SCAN = 10"

lemmas tick_constants = TICK_ARRAY_SIZE_def MIN_TICK_def MAX_TICK_def EXTENSION_BITMAPS_def DEFAULT_BITMAP_ARRAYS_def

definition i32_wrap :: "int \<Rightarrow> int" where
  "i32_wrap x = (x + 2 ^ 31) mod 2 ^ 32 - 2 ^ 31"

lemma i32_wrap_id: "- (2 ^ 31) \<le> x \<Longrightarrow> x < 2 ^ 31 \<Longrightarrow> i32_wrap x = x"
  by (simp add: i32_wrap_def)

section \<open>Bitmaps\<close>

type_synonym ext_bitmaps = "u64 list list \<times> u64 list list"  \<comment> \<open>positive and negative side\<close>

record tick_array_bitmaps =
  tb_default :: "u64 list"
  tb_extension :: "ext_bitmaps option"

definition parse_tick_array_bitmap :: "bytes \<Rightarrow> u64 list option" where
  "parse_tick_array_bitmap data =
     map_option (\<lambda>raw. map (\<lambda>i. u64_at raw (i * 8)) [0..<16])
       (get_range TICK_ARRAY_BITMAP_OFFSET (TICK_ARRAY_BITMAP_OFFSET + 128) data)"

definition parse_bitmap_extension :: "bytes \<Rightarrow> ext_bitmaps option" where
  "parse_bitmap_extension data =
     map_option (\<lambda>body.
         (map (\<lambda>k. map (\<lambda>w. u64_at body ((k * 8 + w) * 8)) [0..<8]) [0..<EXTENSION_BITMAPS],
          map (\<lambda>k. map (\<lambda>w. u64_at body (((EXTENSION_BITMAPS + k) * 8 + w) * 8)) [0..<8]) [0..<EXTENSION_BITMAPS]))
       (get_range 40 (40 + 2 * EXTENSION_BITMAPS * 64) data)"

definition ticks_per_array :: "u16 \<Rightarrow> int" where
  "ticks_per_array tick_spacing = TICK_ARRAY_SIZE * int (max (unat tick_spacing) 1)"

definition in_default_bitmap :: "int \<Rightarrow> u16 \<Rightarrow> bool" where
  "in_default_bitmap start tick_spacing \<longleftrightarrow>
     (let m = DEFAULT_BITMAP_ARRAYS * ticks_per_array tick_spacing in - m \<le> start \<and> start < m)"

datatype bit_lookup = Unloaded | Initialized bool | OutOfBounds

definition bit_set :: "u64 list \<Rightarrow> int \<Rightarrow> bit_lookup" where
  "bit_set words b =
     (if nat (b div 64) < length words
      then Initialized (drop_bit (nat (b mod 64)) (words ! nat (b div 64)) AND 1 = 1)
      else OutOfBounds)"

text \<open>\<open>k < EXTENSION_BITMAPS && bit_set(..)\<close>\<close>

definition ext_bit :: "u64 list list \<Rightarrow> int \<Rightarrow> int \<Rightarrow> bit_lookup" where
  "ext_bit side k b =
     (if 0 \<le> k \<and> nat k < EXTENSION_BITMAPS then bit_set (side ! nat k) b else Initialized False)"

definition is_initialized :: "tick_array_bitmaps \<Rightarrow> int \<Rightarrow> u16 \<Rightarrow> bit_lookup" where
  "is_initialized bm start tick_spacing =
     (let count = ticks_per_array tick_spacing; m = DEFAULT_BITMAP_ARRAYS * count
      in if - m \<le> start \<and> start < m then bit_set (tb_default bm) (start sdiv count + DEFAULT_BITMAP_ARRAYS)
         else
           case tb_extension bm of
             None \<Rightarrow> Unloaded
           | Some (pos, neg) \<Rightarrow>
               let a = i32_wrap \<bar>start\<bar>
               in if 0 < start then ext_bit pos (a sdiv m - 1) ((a smod m) sdiv count)
                  else
                    let k = (if a smod m = 0 then a sdiv m - 1 - 1 else a sdiv m - 1);
                        r = a smod m;
                        b = (if r \<noteq> 0 then DEFAULT_BITMAP_ARRAYS - r sdiv count else 0)
                    in ext_bit neg k b)"

text \<open>The search: \<open>None\<close> is the panic of an index past a bitmap.\<close>

function starts_loop ::
    "tick_array_bitmaps \<Rightarrow> u16 \<Rightarrow> bool \<Rightarrow> nat \<Rightarrow> int \<Rightarrow> int list \<Rightarrow> int list option" where
  "starts_loop bm tick_spacing zero_for_one mx start out =
     (let count = ticks_per_array tick_spacing
      in if (MIN_TICK div count) * count \<le> start \<and> start \<le> (MAX_TICK div count) * count \<and> length out < mx
         then
           case is_initialized bm start tick_spacing of
             Initialized True \<Rightarrow>
               starts_loop bm tick_spacing zero_for_one mx (start + (if zero_for_one then - count else count)) (out @ [start])
           | Initialized False \<Rightarrow>
               starts_loop bm tick_spacing zero_for_one mx (start + (if zero_for_one then - count else count)) out
           | Unloaded \<Rightarrow> Some out
           | OutOfBounds \<Rightarrow> None
         else Some out)"
  by pat_completeness auto

lemma ticks_per_array_pos: "60 \<le> ticks_per_array s" "ticks_per_array s \<le> 60 * 65535"
proof -
  have "unat s < 2 ^ 16" using unsigned_less [of s, where 'a = nat] by simp
  then show "60 \<le> ticks_per_array s" "ticks_per_array s \<le> 60 * 65535"
    by (simp_all add: ticks_per_array_def TICK_ARRAY_SIZE_def)
qed

text \<open>Every step moves the start by one array toward an end of the tick range.\<close>

definition steps_left :: "int \<Rightarrow> bool \<Rightarrow> int \<Rightarrow> nat" where
  "steps_left count zero_for_one start =
     nat (if zero_for_one then start - (MIN_TICK div count) * count + 1 else (MAX_TICK div count) * count - start + 1)"

termination starts_loop
proof (relation "measure (\<lambda>(_, s, z, _, start, _). steps_left (ticks_per_array s) z start)", goal_cases)
  case (2 bm s z mx start out count b)
  then show ?case using ticks_per_array_pos [of s] by (simp add: steps_left_def)
next
  case (3 bm s z mx start out count b)
  then show ?case using ticks_per_array_pos [of s] by (simp add: steps_left_def)
qed simp

declare starts_loop.simps [simp del]

definition initialized_starts :: "tick_array_bitmaps \<Rightarrow> u16 \<Rightarrow> int \<Rightarrow> bool \<Rightarrow> nat \<Rightarrow> int list option" where
  "initialized_starts bm tick_spacing current_start zero_for_one mx =
     starts_loop bm tick_spacing zero_for_one mx current_start []"

definition bitmap_initialized_starts :: "u64 list \<Rightarrow> u16 \<Rightarrow> int \<Rightarrow> bool \<Rightarrow> nat \<Rightarrow> int list option" where
  "bitmap_initialized_starts bitmap tick_spacing current_start zero_for_one mx =
     initialized_starts \<lparr> tb_default = bitmap, tb_extension = None \<rparr> tick_spacing current_start zero_for_one mx"

definition needs_bitmap_extension :: "int \<Rightarrow> u16 \<Rightarrow> nat \<Rightarrow> bool" where
  "needs_bitmap_extension tick_current tick_spacing scan \<longleftrightarrow>
     (let size = TICK_ARRAY_SIZE * int (unat tick_spacing); limit = DEFAULT_BITMAP_ARRAYS * size
      in limit \<le> \<bar>tick_current\<bar> + int (scan + 1) * size)"

section \<open>The bits of one infinite bitmap\<close>

text \<open>
  The reference: the arrays are numbered by \<open>q\<close>, their start divided by the ticks of an array.  Blocks of 512 arrays hold one bitmap
  each: blocks -1 and 0 are the pool's own bitmap, the blocks above and below are the two sides of the extension.
\<close>

definition block_bit :: "tick_array_bitmaps \<Rightarrow> int \<Rightarrow> bit_lookup" where
  "block_bit bm q =
     (let block = q div 512
      in if block = 0 \<or> block = - 1 then bit_set (tb_default bm) (q + 512)
         else
           case tb_extension bm of
             None \<Rightarrow> Unloaded
           | Some (pos, neg) \<Rightarrow>
               if 0 < block then ext_bit pos (block - 1) (q mod 512) else ext_bit neg (- block - 2) (q mod 512))"

lemma sdiv_pos: "0 \<le> (a :: int) \<Longrightarrow> 0 < b \<Longrightarrow> a sdiv b = a div b"
  by (cases "a = 0") (simp_all add: signed_divide_int_def)

lemma smod_pos: "0 \<le> (a :: int) \<Longrightarrow> 0 < b \<Longrightarrow> a smod b = a mod b"
  by (simp add: smod_mod_positive)

lemma sdiv_multiple: "0 < (c :: int) \<Longrightarrow> (q * c) sdiv c = q"
  using smod_sdiv_mult_eq [of "q * c" c] by (simp add: signed_modulo_int_def abs_mult)

lemma block_cases: "- 512 \<le> (q :: int) \<and> q < 512 \<longleftrightarrow> q div 512 = 0 \<or> q div 512 = - 1"
proof -
  have "q = 512 * (q div 512) + q mod 512" "0 \<le> q mod 512" "q mod 512 < 512" by simp_all
  then show ?thesis by linarith
qed

lemma negated_block:
  "(- q :: int) div 512 = (if q mod 512 = 0 then - (q div 512) else - (q div 512) - 1)"
  "(- q :: int) mod 512 = (if q mod 512 = 0 then 0 else 512 - q mod 512)"
  by (simp_all add: zdiv_zminus1_eq_if zmod_zminus1_eq_if)

lemma multiple_div_mod:
  assumes "0 < (c :: int)"
  shows "(x * c) div (512 * c) = x div 512" "(x * c) mod (512 * c) = x mod 512 * c" "x mod 512 * c div c = x mod 512"
  using assms by (simp_all add: div_mult_mult2 mult_mod_left)

lemma is_initialized_aligned:
  assumes "\<bar>q * ticks_per_array s\<bar> < 2 ^ 31"
  shows "is_initialized bm (q * ticks_per_array s) s = block_bit bm q"
proof -
  define c where "c = ticks_per_array s"
  have c: "0 < c" using ticks_per_array_pos [of s] by (simp add: c_def)
  have range: "- (512 * c) \<le> q * c \<and> q * c < 512 * c \<longleftrightarrow> q div 512 = 0 \<or> q div 512 = - 1"
  proof -
    have "- (512 * c) \<le> q * c \<longleftrightarrow> - 512 \<le> q" using c by (metis mult_minus_left mult_le_cancel_right_pos)
    then show ?thesis using c block_cases [of q] by simp
  qed
  have wrap: "i32_wrap \<bar>q * c\<bar> = \<bar>q * c\<bar>" using assms by (intro i32_wrap_id) (simp_all add: c_def)
  have q: "q = 512 * (q div 512) + q mod 512" "0 \<le> q mod 512" "q mod 512 < 512" by simp_all
  consider (default) "q div 512 = 0 \<or> q div 512 = - 1" | (pos) "0 < q div 512" | (neg) "q div 512 < - 1" by linarith
  then have "is_initialized bm (q * c) s = block_bit bm q"
  proof cases
    case default
    then show ?thesis
      using range by (simp add: is_initialized_def block_bit_def Let_def DEFAULT_BITMAP_ARRAYS_def sdiv_multiple c flip: c_def)
  next
    case pos
    then have out: "\<not> (q div 512 = 0 \<or> q div 512 = - 1)" by linarith
    have "0 < q" using q pos by linarith
    then have qc: "0 < q * c" using c by simp
    have a: "i32_wrap \<bar>q * c\<bar> sdiv (512 * c) = q div 512" "i32_wrap \<bar>q * c\<bar> smod (512 * c) = q mod 512 * c"
      "(q mod 512 * c) sdiv c = q mod 512"
      using wrap qc c multiple_div_mod [OF c, of q] by (simp_all add: sdiv_pos smod_pos sdiv_multiple)
    show ?thesis
      unfolding is_initialized_def block_bit_def Let_def DEFAULT_BITMAP_ARRAYS_def c_def [symmetric] range a
      using out pos qc by (cases "tb_extension bm") (simp_all add: split_beta)
  next
    case neg
    then have out: "\<not> (q div 512 = 0 \<or> q div 512 = - 1)" "\<not> 0 < q div 512" by linarith+
    have "q < 0" using q neg by linarith
    then have qc: "\<not> 0 < q * c" "0 \<le> - q * c" "\<bar>q * c\<bar> = - q * c"
      using c mult_neg_pos [of q c] by (simp_all add: abs_if)
    have w: "i32_wrap \<bar>q * c\<bar> = - q * c" using wrap qc(3) by simp
    have a: "i32_wrap \<bar>q * c\<bar> sdiv (512 * c) = (- q) div 512" "i32_wrap \<bar>q * c\<bar> smod (512 * c) = (- q) mod 512 * c"
      "((- q) mod 512 * c) sdiv c = (- q) mod 512" "(- q) mod 512 * c = 0 \<longleftrightarrow> (- q) mod 512 = 0"
      unfolding w using multiple_div_mod [OF c, of "- q"] c sdiv_multiple [OF c, of "(- q) mod 512"]
        sdiv_pos [OF qc(2), of "512 * c"] smod_pos [OF qc(2), of "512 * c"] by simp_all
    have k: "(if (- q) mod 512 = 0 then (- q) div 512 - 1 - 1 else (- q) div 512 - 1) = - (q div 512) - 2"
      "(if (- q) mod 512 \<noteq> 0 then 512 - (- q) mod 512 else 0) = q mod 512"
      using negated_block [of q] by (simp_all split: if_splits)
    show ?thesis
      unfolding is_initialized_def block_bit_def Let_def DEFAULT_BITMAP_ARRAYS_def c_def [symmetric] range a k
      using out qc(1) by (cases "tb_extension bm") (simp_all add: split_beta)
  qed
  then show ?thesis by (simp add: c_def)
qed

text \<open>
  The bit arithmetic of the pool bitmap and of its extension, with Rust's truncated division and the special case for the
  negative side, reads one uniform bitmap: an aligned tick array \<open>q\<close> is looked up at bit \<open>q mod 512\<close> of block \<open>q div 512\<close>.
\<close>

theorem bitmap_lookup_uniform:
  assumes "\<bar>q * ticks_per_array s\<bar> < 2 ^ 31"
  shows "is_initialized bm (q * ticks_per_array s) s = block_bit bm q"
  by (rule is_initialized_aligned [OF assms])

theorem bitmap_lookup_uniform_witness:
  "let bm = \<lparr> tb_default = replicate 16 0, tb_extension = Some (replicate 14 (replicate 8 0), replicate 13 (replicate 8 0) @ [replicate 7 0 @ [4611686018427387904]]) \<rparr>
   in is_initialized bm (- 7170 * 60) 1 = Initialized True \<and> block_bit bm (- 7170) = Initialized True"
proof -
  let ?bm = "\<lparr> tb_default = replicate 16 0, tb_extension = Some (replicate 14 (replicate 8 0), replicate 13 (replicate 8 0) @ [replicate 7 0 @ [4611686018427387904]]) \<rparr>"
  have t: "ticks_per_array 1 = 60" by (simp add: ticks_per_array_def TICK_ARRAY_SIZE_def)
  have "block_bit ?bm (- 7170) = Initialized True" by code_simp
  then show ?thesis using bitmap_lookup_uniform [of "- 7170" 1 ?bm] by (simp add: t)
qed

section \<open>The search for initialized arrays\<close>

definition bitmaps_ok :: "tick_array_bitmaps \<Rightarrow> bool" where
  "bitmaps_ok bm \<longleftrightarrow> length (tb_default bm) = 16
     \<and> (case tb_extension bm of None \<Rightarrow> False
        | Some (pos, neg) \<Rightarrow> length pos = 14 \<and> length neg = 14 \<and> list_all (\<lambda>ws. length ws = 8) (pos @ neg))"

lemma ext_bit_in_bounds:
  "length side = 14 \<Longrightarrow> list_all (\<lambda>ws. length ws = 8) side \<Longrightarrow> 0 \<le> b \<Longrightarrow> b < 512 \<Longrightarrow> \<exists>v. ext_bit side k b = Initialized v"
  by (auto simp: ext_bit_def bit_set_def EXTENSION_BITMAPS_def list_all_length)

lemma block_bit_in_bounds:
  assumes "bitmaps_ok bm"
  shows "\<exists>v. block_bit bm q = Initialized v"
proof (cases "q div 512 = 0 \<or> q div 512 = - 1")
  case True
  then have "- 512 \<le> q" "q < 512" using block_cases [of q] by simp_all
  then have "nat ((q + 512) div 64) < 16" by auto
  then show ?thesis using assms True by (auto simp: block_bit_def Let_def bit_set_def bitmaps_ok_def)
next
  case False
  then show ?thesis
    using assms by (auto simp: block_bit_def Let_def bitmaps_ok_def split: option.splits intro!: ext_bit_in_bounds)
qed

text \<open>The starts of a search: from array \<open>q\<close>, \<open>n\<close> arrays in the direction of the swap.\<close>

definition array_starts :: "int \<Rightarrow> bool \<Rightarrow> int \<Rightarrow> nat \<Rightarrow> int list" where
  "array_starts count zero_for_one q n = map (\<lambda>i. (if zero_for_one then q - int i else q + int i) * count) [0..<n]"

lemma array_starts_Suc:
  "array_starts c z q (Suc n) = q * c # array_starts c z (if z then q - 1 else q + 1) n"
  unfolding array_starts_def map_upt_Suc by (simp add: algebra_simps)

text \<open>The arrays between the current one and the end of the tick range.\<close>

definition arrays_ahead :: "int \<Rightarrow> bool \<Rightarrow> int \<Rightarrow> nat" where
  "arrays_ahead count zero_for_one q =
     nat (if zero_for_one then q - MIN_TICK div count + 1 else MAX_TICK div count - q + 1)"

lemma aligned_start_small:
  assumes "MIN_TICK div ticks_per_array s \<le> q" "q \<le> MAX_TICK div ticks_per_array s"
  shows "\<bar>q * ticks_per_array s\<bar> < 2 ^ 31"
proof -
  define c where "c = ticks_per_array s"
  have c: "0 < c" "c \<le> 60 * 65535" using ticks_per_array_pos [of s] by (simp_all add: c_def)
  have "MIN_TICK = c * (MIN_TICK div c) + MIN_TICK mod c" "MIN_TICK mod c < c" using c by simp_all
  moreover have "c * (MIN_TICK div c) \<le> c * q" using assms(1) c by (intro mult_left_mono) (simp_all add: c_def)
  moreover have "MAX_TICK = c * (MAX_TICK div c) + MAX_TICK mod c" "0 \<le> MAX_TICK mod c" using c by simp_all
  moreover have "c * q \<le> c * (MAX_TICK div c)" using assms(2) c by (intro mult_left_mono) (simp_all add: c_def)
  ultimately have "MIN_TICK - c < c * q" "c * q \<le> MAX_TICK" by linarith+
  then have "- (2 ^ 31) < c * q" "c * q < 2 ^ 31" using c by (simp_all add: MIN_TICK_def MAX_TICK_def)
  then show ?thesis by (simp add: c_def abs_less_iff mult.commute)
qed

lemma starts_loop_filter:
  assumes ok: "bitmaps_ok bm"
  shows "(if z then q \<le> MAX_TICK div ticks_per_array s \<and> int n = q - MIN_TICK div ticks_per_array s + 1
          else MIN_TICK div ticks_per_array s \<le> q \<and> int n = MAX_TICK div ticks_per_array s - q + 1) \<Longrightarrow>
    starts_loop bm s z mx (q * ticks_per_array s) out
      = Some (out @ take (mx - length out) (filter (\<lambda>st. is_initialized bm st s = Initialized True)
          (array_starts (ticks_per_array s) z q n)))"
proof (induction n arbitrary: q out)
  case 0
  then have "\<not> (MIN_TICK div ticks_per_array s \<le> q \<and> q \<le> MAX_TICK div ticks_per_array s)" by (auto split: if_splits)
  then have "\<not> (MIN_TICK div ticks_per_array s * ticks_per_array s \<le> q * ticks_per_array s
      \<and> q * ticks_per_array s \<le> MAX_TICK div ticks_per_array s * ticks_per_array s)"
    using ticks_per_array_pos [of s] by simp
  then show ?case by (subst starts_loop.simps) (auto simp: Let_def array_starts_def)
next
  case (Suc n)
  define c where "c = ticks_per_array s"
  define q' where "q' = (if z then q - 1 else q + 1)"
  have c: "0 < c" using ticks_per_array_pos [of s] by (simp add: c_def)
  have rng: "MIN_TICK div c \<le> q" "q \<le> MAX_TICK div c" using Suc.prems by (auto simp: c_def split: if_splits)
  then have bounds: "MIN_TICK div c * c \<le> q * c \<and> q * c \<le> MAX_TICK div c * c" using c by simp
  have next': "q * c + (if z then - c else c) = q' * c" by (simp add: q'_def algebra_simps)
  have IH: "starts_loop bm s z mx (q' * c) out'
      = Some (out' @ take (mx - length out') (filter (\<lambda>st. is_initialized bm st s = Initialized True) (array_starts c z q' n)))" for out'
    using Suc.prems unfolding c_def q'_def by (intro Suc.IH) (auto split: if_splits)
  obtain v where v: "is_initialized bm (q * c) s = Initialized v"
    using is_initialized_aligned [OF aligned_start_small, of s q bm] rng block_bit_in_bounds [OF ok, of q]
    by (auto simp: c_def)
  have step: "starts_loop bm s z mx (q * c) out =
      (if length out < mx then starts_loop bm s z mx (q' * c) (if v then out @ [q * c] else out) else Some out)"
    using bounds v next' by (subst starts_loop.simps) (simp add: Let_def flip: c_def)
  show ?case
    unfolding c_def [symmetric] step array_starts_Suc q'_def [symmetric] IH
    using v by (auto simp: take_Cons' not_less)
qed

text \<open>
  The search returns exactly the first initialized arrays in the direction of the swap: of all arrays from the current one to
  the end of the tick range, in order, those whose bit is set, at most \<open>mx\<close> of them; it always ends and never reads past a bitmap.
\<close>

theorem search_finds_first_initialized:
  assumes "bitmaps_ok bm" "MIN_TICK div ticks_per_array s \<le> q" "q \<le> MAX_TICK div ticks_per_array s"
  shows "initialized_starts bm s (q * ticks_per_array s) z mx
    = Some (take mx (filter (\<lambda>st. is_initialized bm st s = Initialized True)
        (array_starts (ticks_per_array s) z q (arrays_ahead (ticks_per_array s) z q))))"
  unfolding initialized_starts_def using assms
  by (subst starts_loop_filter [where n = "arrays_ahead (ticks_per_array s) z q"])
    (auto simp: arrays_ahead_def)

theorem search_finds_first_initialized_witness:
  "let bm = \<lparr> tb_default = replicate 8 0 @ [9] @ replicate 7 0,
              tb_extension = Some (replicate 14 (replicate 8 0), replicate 14 (replicate 8 0)) \<rparr>
   in initialized_starts bm 1000 0 False 3 = Some [0, 180000]"
proof -
  let ?bm = "\<lparr> tb_default = replicate 8 0 @ [9] @ replicate 7 0,
               tb_extension = Some (replicate 14 (replicate 8 0), replicate 14 (replicate 8 0)) \<rparr>"
  have ok: "bitmaps_ok ?bm" by code_simp
  have t: "ticks_per_array 1000 = 60000" by (simp add: ticks_per_array_def TICK_ARRAY_SIZE_def)
  have "take 3 (filter (\<lambda>st. is_initialized ?bm st 1000 = Initialized True) (array_starts 60000 False 0 8)) = [0, 180000]"
    by code_simp
  moreover have "arrays_ahead 60000 False 0 = 8" by (simp add: arrays_ahead_def MAX_TICK_def)
  ultimately show ?thesis
    using search_finds_first_initialized [OF ok, of 1000 0 False 3] by (simp add: t MIN_TICK_def MAX_TICK_def)
qed

end
