(* ===== verification/Account_Resolver.thy ===== *)
theory Account_Resolver
  imports Tick_Arrays Pumpswap_Ix
begin

text \<open>
  \<open>solana-sniper/src/amm/account_resolver.rs\<close>, the rest: the decoding of a Raydium pool state and of its fee rate, the
  identity check of a program account, and the resolution of every account of a swap.  The RPC node is two arguments
  (one account, and the numbered batched reads); the hash of the account discriminator is a field of the SDK record.
\<close>

record clmm_sdk = solana_sdk +
  sha256 :: "bytes \<Rightarrow> bytes"

definition RAYDIUM_CLMM_PROGRAM_ID :: string where
  "RAYDIUM_CLMM_PROGRAM_ID = ''CAMMCzo5YL8w4VFF8KVHrK22GGUsp5VTaW7grrKgrWqK''"
definition RAYDIUM_CLMM_PROGRAM_ID_DEVNET :: string where
  "RAYDIUM_CLMM_PROGRAM_ID_DEVNET = ''DRayAUgENGQBKVaX8owNhgzkEDyoHTGVEGHVJT1E9pfH''"
definition TOKEN_PROGRAM_ID :: string where "TOKEN_PROGRAM_ID = ''TokenkegQfeZyiNwAJbNbGKPFXCWuBvf9Ss623VQ5DA''"
definition ASSOCIATED_TOKEN_PROGRAM_ID :: string where
  "ASSOCIATED_TOKEN_PROGRAM_ID = ''ATokenGPvbdGVxr1b2hvZbsiqW5xWH25efTNsLJA8knL''"
definition TICK_ARRAY_SEED :: bytes where "TICK_ARRAY_SEED = str_bytes ''tick_array''"
definition BITMAP_EXTENSION_SEED :: bytes where "BITMAP_EXTENSION_SEED = str_bytes ''pool_tick_array_bitmap_extension''"

section \<open>The pool state\<close>

record resolved_pool =
  rp_pool_id :: pubkey
  rp_amm_config :: pubkey
  rp_owner :: pubkey
  rp_token_mint_0 :: pubkey
  rp_token_mint_1 :: pubkey
  rp_token_vault_0 :: pubkey
  rp_token_vault_1 :: pubkey
  rp_observation_key :: pubkey
  rp_mint_decimals_0 :: u8
  rp_mint_decimals_1 :: u8
  rp_tick_spacing :: u16
  rp_liquidity :: u128
  rp_sqrt_price_x64 :: u128
  rp_tick_current :: int
  rp_trade_fee_rate :: "u32 option"
  rp_tick_array_bitmap :: "u64 list option"

datatype resolve_error =
    PoolStateTooShort nat | AmmConfigTooShort nat | ImplausibleFeeRate u32
  | WrongOwner string pubkey | WrongDiscriminator string
  | PoolFetch | InputMintNotInPool pubkey | HeadFetch | AmmConfigMissing pubkey | TickFetch
  | NoBitmapExtension | NoTickArray | TickSpacingZero | BitmapOutOfBounds

definition parse_pool_state :: "pubkey \<Rightarrow> bytes \<Rightarrow> resolve_error + resolved_pool" where
  "parse_pool_state pool_id d =
     (if length d < 273 then Inl (PoolStateTooShort (length d))
      else Inr \<lparr> rp_pool_id = pool_id, rp_amm_config = pubkey_at d 9, rp_owner = pubkey_at d 41,
                 rp_token_mint_0 = pubkey_at d 73, rp_token_mint_1 = pubkey_at d 105,
                 rp_token_vault_0 = pubkey_at d 137, rp_token_vault_1 = pubkey_at d 169,
                 rp_observation_key = pubkey_at d 201, rp_mint_decimals_0 = d ! 233, rp_mint_decimals_1 = d ! 234,
                 rp_tick_spacing = u16_at d 235, rp_liquidity = u128_at d 237, rp_sqrt_price_x64 = u128_at d 253,
                 rp_tick_current = sint (u32_at d 269), rp_trade_fee_rate = None,
                 rp_tick_array_bitmap = parse_tick_array_bitmap d \<rparr>)"

definition parse_trade_fee_rate :: "bytes \<Rightarrow> resolve_error + u32" where
  "parse_trade_fee_rate data =
     (case get_range 47 51 data of
        None \<Rightarrow> Inl (AmmConfigTooShort (length data))
      | Some b \<Rightarrow>
          let rate = from_le_bytes b
          in if rate = 0 \<or> 100000 < rate then Inl (ImplausibleFeeRate rate) else Inr rate)"

section \<open>Addresses\<close>

text \<open>\<open>i32::to_be_bytes\<close>.\<close>

definition i32_be_bytes :: "int \<Rightarrow> bytes" where
  "i32_be_bytes x = rev (to_le_bytes 4 (of_int x :: u32))"

definition tick_array_start_index :: "resolved_pool \<Rightarrow> resolve_error + int" where
  "tick_array_start_index pool =
     (let n = TICK_ARRAY_SIZE * int (unat (rp_tick_spacing pool))
      in if n = 0 then Inl TickSpacingZero else Inr (i32_wrap (rp_tick_current pool div n * n)))"

definition tick_array_pda_at :: "'a solana_sdk_scheme \<Rightarrow> resolved_pool \<Rightarrow> pubkey \<Rightarrow> int \<Rightarrow> pubkey" where
  "tick_array_pda_at sdk pool program_id start =
     find_pda sdk [TICK_ARRAY_SEED, rp_pool_id pool, i32_be_bytes start] program_id"

definition tick_array_pda :: "'a solana_sdk_scheme \<Rightarrow> resolved_pool \<Rightarrow> pubkey \<Rightarrow> resolve_error + pubkey" where
  "tick_array_pda sdk pool program_id =
     and_then (tick_array_start_index pool) (\<lambda>start. Inr (tick_array_pda_at sdk pool program_id start))"

definition tick_array_candidates ::
    "'a solana_sdk_scheme \<Rightarrow> resolved_pool \<Rightarrow> pubkey \<Rightarrow> bool \<Rightarrow> nat \<Rightarrow> resolve_error + pubkey list" where
  "tick_array_candidates sdk pool program_id zero_for_one count =
     (let size = TICK_ARRAY_SIZE * int (unat (rp_tick_spacing pool))
      in and_then (tick_array_start_index pool) (\<lambda>start.
         let step = (if zero_for_one then - size else size)
         in Inr (map (\<lambda>k. tick_array_pda_at sdk pool program_id (i32_wrap (start + int k * step))) [0..<count])))"

definition bitmap_extension_pda :: "'a solana_sdk_scheme \<Rightarrow> pubkey \<Rightarrow> pubkey \<Rightarrow> pubkey" where
  "bitmap_extension_pda sdk pool_id program_id = find_pda sdk [BITMAP_EXTENSION_SEED, pool_id] program_id"

definition resolve_user_ata :: "'a solana_sdk_scheme \<Rightarrow> pubkey \<Rightarrow> pubkey \<Rightarrow> pubkey" where
  "resolve_user_ata sdk owner mint =
     find_pda sdk [owner, key_of sdk TOKEN_PROGRAM_ID, mint] (key_of sdk ASSOCIATED_TOKEN_PROGRAM_ID)"

definition select_tick_arrays :: "pubkey list \<Rightarrow> pubkey option list \<Rightarrow> pubkey \<Rightarrow> pubkey list" where
  "select_tick_arrays candidates owners program_id =
     take MAX_SWAP_TICK_ARRAYS (map fst (filter (\<lambda>(_, owner). owner = Some program_id) (zip candidates owners)))"

section \<open>Resolution\<close>

definition anchor_account_discriminator :: "'a clmm_sdk_scheme \<Rightarrow> string \<Rightarrow> bytes" where
  "anchor_account_discriminator sdk name = take 8 (sha256 sdk (str_bytes (''account:'' @ name)))"

definition verify_clmm_account ::
    "'a clmm_sdk_scheme \<Rightarrow> string \<Rightarrow> pubkey \<Rightarrow> bytes \<Rightarrow> pubkey \<Rightarrow> resolve_error + unit" where
  "verify_clmm_account sdk kind owner data program_id =
     (if owner \<noteq> program_id then Inl (WrongOwner kind owner)
      else if get_range 0 8 data \<noteq> Some (anchor_account_discriminator sdk kind) then Inl (WrongDiscriminator kind)
      else Inr ())"

definition fetch_pool_state ::
    "'a clmm_sdk_scheme \<Rightarrow> (pubkey \<Rightarrow> raw_account option) \<Rightarrow> pubkey \<Rightarrow> pubkey \<Rightarrow> resolve_error + resolved_pool" where
  "fetch_pool_state sdk get_account pool_id program_id =
     and_then (ok_or PoolFetch (get_account pool_id)) (\<lambda>(owner, data).
     and_then (verify_clmm_account sdk ''PoolState'' owner data program_id) (\<lambda>_.
     parse_pool_state pool_id data))"

record swap_accounts =
  sa_amm_config :: pubkey
  sa_pool_state :: pubkey
  sa_input_token_account :: pubkey
  sa_output_token_account :: pubkey
  sa_input_vault :: pubkey
  sa_output_vault :: pubkey
  sa_observation_state :: pubkey
  sa_tick_array :: pubkey
  sa_extra_tick_arrays :: "pubkey list"
  sa_bitmap_extension :: "pubkey option"

definition pool_vaults :: "resolved_pool \<Rightarrow> pubkey \<Rightarrow> resolve_error + pubkey \<times> pubkey" where
  "pool_vaults pool input_mint =
     (if input_mint = rp_token_mint_0 pool then Inr (rp_token_vault_0 pool, rp_token_vault_1 pool)
      else if input_mint = rp_token_mint_1 pool then Inr (rp_token_vault_1 pool, rp_token_vault_0 pool)
      else Inl (InputMintNotInPool input_mint))"

text \<open>The tick arrays a batched read of candidates confirms; \<open>multi i\<close> is the i-th batched read.\<close>

definition fetch_arrays ::
    "(pubkey list \<Rightarrow> raw_account option list option) \<Rightarrow> pubkey list \<Rightarrow> pubkey \<Rightarrow> resolve_error + pubkey list" where
  "fetch_arrays read candidates program_id =
     and_then (ok_or TickFetch (read candidates)) (\<lambda>accs.
     Inr (select_tick_arrays candidates (map (map_option fst) accs) program_id))"

definition bitmap_starts ::
    "resolved_pool \<Rightarrow> ext_bitmaps option \<Rightarrow> bool \<Rightarrow> resolve_error + int list" where
  "bitmap_starts pool extension zero_for_one =
     (case rp_tick_array_bitmap pool of
        None \<Rightarrow> Inr []
      | Some own \<Rightarrow>
          and_then (tick_array_start_index pool) (\<lambda>start.
          ok_or BitmapOutOfBounds
            (initialized_starts \<lparr> tb_default = own, tb_extension = extension \<rparr>
               (rp_tick_spacing pool) start zero_for_one MAX_SWAP_TICK_ARRAYS)))"

text \<open>The fee rate and the bitmap extension, from the first batched read.\<close>

definition pool_with_config ::
    "'a clmm_sdk_scheme \<Rightarrow> (pubkey list \<Rightarrow> raw_account option list option) \<Rightarrow> resolved_pool \<Rightarrow> pubkey \<Rightarrow> pubkey
       \<Rightarrow> resolve_error + resolved_pool \<times> ext_bitmaps option" where
  "pool_with_config sdk read pool ext_pda program_id =
     and_then (ok_or HeadFetch (read [rp_amm_config pool, ext_pda])) (\<lambda>head.
     and_then (ok_or (AmmConfigMissing (rp_amm_config pool)) (case head of a # _ \<Rightarrow> a | [] \<Rightarrow> None)) (\<lambda>(cfg_owner, cfg_data).
     and_then (verify_clmm_account sdk ''AmmConfig'' cfg_owner cfg_data program_id) (\<lambda>_.
     and_then (parse_trade_fee_rate cfg_data) (\<lambda>rate.
     Inr (pool\<lparr>rp_trade_fee_rate := Some rate\<rparr>,
          case get_at 1 head of
            Some (Some (owner, data)) \<Rightarrow> if owner = program_id then parse_bitmap_extension data else None
          | _ \<Rightarrow> None)))))"

definition swap_candidates ::
    "'a clmm_sdk_scheme \<Rightarrow> resolved_pool \<Rightarrow> pubkey \<Rightarrow> bool \<Rightarrow> int list \<Rightarrow> resolve_error + pubkey list" where
  "swap_candidates sdk pool program_id zero_for_one from_bitmap =
     (if from_bitmap = [] then tick_array_candidates sdk pool program_id zero_for_one TICK_ARRAY_SCAN
      else Inr (map (tick_array_pda_at sdk pool program_id) from_bitmap))"

definition beyond_default :: "resolved_pool \<Rightarrow> int list \<Rightarrow> bool" where
  "beyond_default pool from_bitmap \<longleftrightarrow>
     list_ex (\<lambda>start. \<not> in_default_bitmap start (rp_tick_spacing pool)) from_bitmap
     \<or> needs_bitmap_extension (rp_tick_current pool) (rp_tick_spacing pool) TICK_ARRAY_SCAN"

definition extension_account ::
    "ext_bitmaps option \<Rightarrow> bool \<Rightarrow> pubkey \<Rightarrow> resolve_error + pubkey option" where
  "extension_account extension beyond ext_pda =
     (if extension \<noteq> None then Inr (Some ext_pda) else if \<not> beyond then Inr None else Inl NoBitmapExtension)"

definition confirmed_arrays ::
    "'a clmm_sdk_scheme \<Rightarrow> (nat \<Rightarrow> pubkey list \<Rightarrow> raw_account option list option) \<Rightarrow> resolved_pool \<Rightarrow> pubkey \<Rightarrow> bool
       \<Rightarrow> int list \<Rightarrow> pubkey list \<Rightarrow> resolve_error + pubkey list" where
  "confirmed_arrays sdk multi pool program_id zero_for_one from_bitmap candidates =
     and_then (fetch_arrays (multi 1) candidates program_id) (\<lambda>arrays.
     if arrays = [] \<and> from_bitmap \<noteq> []
     then and_then (tick_array_candidates sdk pool program_id zero_for_one TICK_ARRAY_SCAN) (\<lambda>scan.
          fetch_arrays (multi 2) scan program_id)
     else Inr arrays)"

definition resolve_swap_accounts ::
    "'a clmm_sdk_scheme \<Rightarrow> (pubkey \<Rightarrow> raw_account option) \<Rightarrow> (nat \<Rightarrow> pubkey list \<Rightarrow> raw_account option list option)
       \<Rightarrow> pubkey \<Rightarrow> pubkey \<Rightarrow> pubkey \<Rightarrow> pubkey \<Rightarrow> pubkey \<Rightarrow> resolve_error + swap_accounts \<times> resolved_pool" where
  "resolve_swap_accounts sdk get_account multi pool_id user input_mint output_mint program_id =
     and_then (fetch_pool_state sdk get_account pool_id program_id) (\<lambda>pool0.
     and_then (pool_vaults pool0 input_mint) (\<lambda>(input_vault, output_vault).
     let zero_for_one = (input_mint = rp_token_mint_0 pool0);
         ext_pda = bitmap_extension_pda sdk pool_id program_id
     in
     and_then (pool_with_config sdk (multi 0) pool0 ext_pda program_id) (\<lambda>(pool, extension).
     and_then (bitmap_starts pool extension zero_for_one) (\<lambda>from_bitmap.
     and_then (swap_candidates sdk pool program_id zero_for_one from_bitmap) (\<lambda>candidates.
     and_then (extension_account extension (beyond_default pool from_bitmap) ext_pda) (\<lambda>bitmap_extension.
     and_then (confirmed_arrays sdk multi pool program_id zero_for_one from_bitmap candidates) (\<lambda>arrays.
     case arrays of
       [] \<Rightarrow> Inl NoTickArray
     | tick_array # extra \<Rightarrow>
         Inr (\<lparr> sa_amm_config = rp_amm_config pool, sa_pool_state = pool_id,
                sa_input_token_account = resolve_user_ata sdk user input_mint,
                sa_output_token_account = resolve_user_ata sdk user output_mint,
                sa_input_vault = input_vault, sa_output_vault = output_vault,
                sa_observation_state = rp_observation_key pool, sa_tick_array = tick_array,
                sa_extra_tick_arrays = extra, sa_bitmap_extension = bitmap_extension \<rparr>, pool))))))))"

section \<open>What a resolution guarantees\<close>

lemma parse_trade_fee_rate_bounds: "parse_trade_fee_rate d = Inr rate \<Longrightarrow> 0 < rate \<and> rate \<le> 100000"
  by (auto simp: parse_trade_fee_rate_def Let_def not_less word_gt_0 split: option.splits if_splits)

lemma verify_clmm_account_ok:
  "verify_clmm_account sdk kind owner data program_id = Inr u \<longleftrightarrow>
     owner = program_id \<and> get_range 0 8 data = Some (anchor_account_discriminator sdk kind)"
  by (simp add: verify_clmm_account_def)

text \<open>A selected array is a candidate that the node reported as owned by the program.\<close>

lemma select_tick_arrays_owned:
  assumes "a \<in> set (select_tick_arrays cs owners prog)"
  shows "\<exists>i. i < length cs \<and> i < length owners \<and> cs ! i = a \<and> owners ! i = Some prog"
proof -
  have "(a, Some prog) \<in> set (zip cs owners)"
    using assms by (auto simp: select_tick_arrays_def dest!: in_set_takeD)
  then show ?thesis by (auto simp: set_zip)
qed

text \<open>An array that a batched read confirmed: the node reported an account at its address, owned by the program.\<close>

definition confirmed ::
    "(nat \<Rightarrow> pubkey list \<Rightarrow> raw_account option list option) \<Rightarrow> pubkey \<Rightarrow> pubkey \<Rightarrow> bool" where
  "confirmed multi prog a \<longleftrightarrow>
     (\<exists>r cs accs i data. multi r cs = Some accs \<and> i < length cs \<and> cs ! i = a \<and> get_at i accs = Some (Some (prog, data)))"

lemma fetch_arrays_confirmed:
  assumes "fetch_arrays (multi r) cs prog = Inr arrays"
  shows "list_all (confirmed multi prog) arrays" "length arrays \<le> 3"
proof -
  obtain accs where accs: "multi r cs = Some accs" "arrays = select_tick_arrays cs (map (map_option fst) accs) prog"
    using assms by (auto simp: fetch_arrays_def ok_iff)
  show "length arrays \<le> 3" by (simp add: accs(2) select_tick_arrays_def MAX_SWAP_TICK_ARRAYS_def)
  show "list_all (confirmed multi prog) arrays"
    unfolding list_all_iff
  proof
    fix a assume "a \<in> set arrays"
    then obtain i where i: "i < length cs" "i < length accs" "cs ! i = a" "map_option fst (accs ! i) = Some prog"
      unfolding accs(2) by (drule_tac select_tick_arrays_owned) auto
    then obtain data where "accs ! i = Some (prog, data)" by auto
    then show "confirmed multi prog a" using accs(1) i unfolding confirmed_def by force
  qed
qed

lemma confirmed_arrays_facts:
  assumes "confirmed_arrays sdk multi pool prog z starts cs = Inr arrays"
  shows "list_all (confirmed multi prog) arrays \<and> length arrays \<le> 3"
  using assms fetch_arrays_confirmed [of multi _ _ prog]
  by (auto simp: confirmed_arrays_def ok_iff split: if_splits)

lemma pool_vaults_sides:
  "pool_vaults pool mint = Inr (iv, ov) \<Longrightarrow>
     mint = rp_token_mint_0 pool \<and> iv = rp_token_vault_0 pool \<and> ov = rp_token_vault_1 pool
     \<or> mint = rp_token_mint_1 pool \<and> iv = rp_token_vault_1 pool \<and> ov = rp_token_vault_0 pool"
  by (auto simp: pool_vaults_def split: if_splits)

lemma pool_with_config_facts:
  assumes "pool_with_config sdk read pool0 ext_pda prog = Inr (pool, ext)"
  shows "\<exists>rate. pool = pool0\<lparr>rp_trade_fee_rate := Some rate\<rparr> \<and> 0 < rate \<and> rate \<le> 100000"
  using assms parse_trade_fee_rate_bounds
  by (auto simp: pool_with_config_def ok_iff split: prod.splits)

text \<open>
  C24. Whatever the node answers, a resolved swap names the accounts of a verified pool: the pool state is owned by the program and
  carries its discriminator, the input vault holds the side of the input mint and the output vault the other side, the user's
  accounts are the associated accounts of the wallet, the fee rate is a plausible one read from the configuration, there are
  between one and three tick arrays, each reported on chain as owned by the program, and a pool that trades beyond its own
  bitmap is never traded without the extension account.
\<close>

theorem resolved_accounts_sound:
  assumes "resolve_swap_accounts sdk get_account multi pool_id user input_mint output_mint program_id = Inr (acc, pool)"
  shows "(\<exists>data. get_account pool_id = Some (program_id, data)
        \<and> get_range 0 8 data = Some (anchor_account_discriminator sdk ''PoolState'') \<and> 273 \<le> length data)
    \<and> (input_mint = rp_token_mint_0 pool \<and> sa_input_vault acc = rp_token_vault_0 pool \<and> sa_output_vault acc = rp_token_vault_1 pool
       \<or> input_mint = rp_token_mint_1 pool \<and> sa_input_vault acc = rp_token_vault_1 pool \<and> sa_output_vault acc = rp_token_vault_0 pool)
    \<and> sa_input_token_account acc = resolve_user_ata sdk user input_mint
    \<and> sa_output_token_account acc = resolve_user_ata sdk user output_mint
    \<and> sa_pool_state acc = pool_id \<and> sa_amm_config acc = rp_amm_config pool
    \<and> (\<exists>rate. rp_trade_fee_rate pool = Some rate \<and> 0 < rate \<and> rate \<le> 100000)
    \<and> list_all (confirmed multi program_id) (sa_tick_array acc # sa_extra_tick_arrays acc)
    \<and> length (sa_extra_tick_arrays acc) \<le> 2
    \<and> (sa_bitmap_extension acc = Some (bitmap_extension_pda sdk pool_id program_id)
       \<or> sa_bitmap_extension acc = None \<and> \<not> needs_bitmap_extension (rp_tick_current pool) (rp_tick_spacing pool) TICK_ARRAY_SCAN)"
proof -
  obtain pool0 iv ov ext starts cs bext arr extra where
    fetch: "fetch_pool_state sdk get_account pool_id program_id = Inr pool0"
    and vaults: "pool_vaults pool0 input_mint = Inr (iv, ov)"
    and cfg: "pool_with_config sdk (multi 0) pool0 (bitmap_extension_pda sdk pool_id program_id) program_id = Inr (pool, ext)"
    and bext: "extension_account ext (beyond_default pool starts) (bitmap_extension_pda sdk pool_id program_id) = Inr bext"
    and arrays: "confirmed_arrays sdk multi pool program_id (input_mint = rp_token_mint_0 pool0) starts cs = Inr (arr # extra)"
    and acc: "acc = \<lparr> sa_amm_config = rp_amm_config pool, sa_pool_state = pool_id,
                sa_input_token_account = resolve_user_ata sdk user input_mint,
                sa_output_token_account = resolve_user_ata sdk user output_mint,
                sa_input_vault = iv, sa_output_vault = ov,
                sa_observation_state = rp_observation_key pool, sa_tick_array = arr,
                sa_extra_tick_arrays = extra, sa_bitmap_extension = bext \<rparr>"
    using assms by (auto simp: resolve_swap_accounts_def ok_iff Let_def neq_Nil_conv split: list.splits)
  obtain data where "get_account pool_id = Some (program_id, data)"
    "get_range 0 8 data = Some (anchor_account_discriminator sdk ''PoolState'')" "273 \<le> length data"
    using fetch by (auto simp: fetch_pool_state_def ok_iff verify_clmm_account_ok parse_pool_state_def split: if_splits)
  moreover obtain rate where "pool = pool0\<lparr>rp_trade_fee_rate := Some rate\<rparr>" "0 < rate" "rate \<le> 100000"
    using pool_with_config_facts [OF cfg] by blast
  ultimately show ?thesis
    using pool_vaults_sides [OF vaults] confirmed_arrays_facts [OF arrays] bext
    by (auto simp: acc extension_account_def beyond_default_def split: if_splits)
qed

text \<open>A small node on which a resolution is evaluated.\<close>

definition demo_program :: pubkey where "demo_program = replicate 32 77"

definition demo_clmm :: clmm_sdk where
  "demo_clmm = \<lparr> key_of = (\<lambda>s. if s = RAYDIUM_CLMM_PROGRAM_ID then demo_program else key_of demo_sdk s),
     find_pda = find_pda demo_sdk, sha256 = (\<lambda>b. rev b) \<rparr>"

definition demo_pool_data :: bytes where
  "demo_pool_data = anchor_account_discriminator demo_clmm ''PoolState'' @ [0] @ replicate 32 1 @ replicate 32 2
     @ replicate 32 3 @ replicate 32 4 @ replicate 32 5 @ replicate 32 6 @ replicate 32 8
     @ [9, 6] @ to_le_bytes 2 (10 :: u16) @ to_le_bytes 16 (1000 :: u128) @ to_le_bytes 16 (push_bit 64 1 :: u128)
     @ to_le_bytes 4 (of_int (- 7) :: u32)"

definition demo_config_data :: bytes where
  "demo_config_data = anchor_account_discriminator demo_clmm ''AmmConfig'' @ replicate 39 0 @ to_le_bytes 4 (2500 :: u32)"

definition demo_multi :: "nat \<Rightarrow> pubkey list \<Rightarrow> raw_account option list option" where
  "demo_multi r ks =
     (if r = 0 then Some [Some (demo_program, demo_config_data), None]
      else Some (map (\<lambda>_. Some (demo_program, [])) ks))"

definition demo_get :: "pubkey \<Rightarrow> raw_account option" where
  "demo_get k = Some (demo_program, demo_pool_data)"

definition demo_pool :: resolved_pool where
  "demo_pool = \<lparr> rp_pool_id = replicate 32 9, rp_amm_config = replicate 32 1, rp_owner = replicate 32 2,
     rp_token_mint_0 = replicate 32 3, rp_token_mint_1 = replicate 32 4, rp_token_vault_0 = replicate 32 5,
     rp_token_vault_1 = replicate 32 6, rp_observation_key = replicate 32 8, rp_mint_decimals_0 = 9, rp_mint_decimals_1 = 6,
     rp_tick_spacing = 10, rp_liquidity = 1000, rp_sqrt_price_x64 = push_bit 64 1, rp_tick_current = - 7,
     rp_trade_fee_rate = None, rp_tick_array_bitmap = None \<rparr>"

lemma demo_discriminator: "length (anchor_account_discriminator demo_clmm kind) = 8"
  by (simp add: anchor_account_discriminator_def demo_clmm_def str_bytes_def)

lemma demo_fetch: "fetch_pool_state demo_clmm demo_get (replicate 32 9) demo_program = Inr demo_pool"
proof -
  have len: "length demo_pool_data = 273" by (simp add: demo_pool_data_def demo_discriminator)
  have "parse_pool_state (replicate 32 9) demo_pool_data = Inr demo_pool"
    unfolding parse_pool_state_def len
    by (simp add: demo_pool_data_def demo_discriminator at_skip at_skip_Cons nth_append demo_pool_def
        parse_tick_array_bitmap_def get_range_def TICK_ARRAY_BITMAP_OFFSET_def u16_at_def from_to_le_bytes)
  then show ?thesis
    by (simp add: fetch_pool_state_def demo_get_def ok_or_def verify_clmm_account_def len get_range_def)
      (simp add: demo_pool_data_def demo_discriminator)
qed

lemma demo_resolved:
  "\<exists>acc pool. resolve_swap_accounts demo_clmm demo_get demo_multi (replicate 32 9) (replicate 32 10) (replicate 32 3)
     (replicate 32 4) demo_program = Inr (acc, pool) \<and> sa_input_vault acc = replicate 32 5 \<and> rp_trade_fee_rate pool = Some 2500"
proof -
  have cfg: "pool_with_config demo_clmm (demo_multi 0) demo_pool k demo_program
      = Inr (demo_pool\<lparr>rp_trade_fee_rate := Some 2500\<rparr>, None)" for k
    by (simp add: pool_with_config_def demo_multi_def ok_or_def verify_clmm_account_def get_range_def get_at_def
        demo_config_data_def demo_discriminator parse_trade_fee_rate_def from_to_le_bytes Let_def)
  have fields: "rp_token_mint_0 demo_pool = replicate 32 3" "rp_token_vault_0 demo_pool = replicate 32 5"
    "rp_token_vault_1 demo_pool = replicate 32 6" "rp_tick_spacing demo_pool = 10" "rp_tick_current demo_pool = - 7"
    "rp_tick_array_bitmap demo_pool = None" by (simp_all add: demo_pool_def)
  show ?thesis
    by (simp add: resolve_swap_accounts_def demo_fetch fields pool_vaults_def cfg bitmap_starts_def swap_candidates_def
        extension_account_def beyond_default_def confirmed_arrays_def fetch_arrays_def select_tick_arrays_def
        needs_bitmap_extension_def tick_constants tick_array_candidates_def tick_array_start_index_def Let_def
        demo_multi_def ok_or_def MAX_SWAP_TICK_ARRAYS_def TICK_ARRAY_SCAN_def upt_rec)
qed

theorem resolved_accounts_sound_witness:
  "\<exists>acc pool. resolve_swap_accounts demo_clmm demo_get demo_multi (replicate 32 9) (replicate 32 10) (replicate 32 3)
     (replicate 32 4) demo_program = Inr (acc, pool) \<and> length (sa_extra_tick_arrays acc) \<le> 2"
  using demo_resolved resolved_accounts_sound by blast

end
