(* ===== verification/Raydium.thy ===== *)
theory Raydium
  imports Account_Resolver Float64 Sim_Quote "HOL-Library.Sublist"
begin

text \<open>
  \<open>solana-sniper/src/amm/raydium_v4.rs\<close> and the data of \<open>amm/mod.rs\<close>: the quotes of the Raydium adapter in double precision,
  the swap instruction, and the complete swap transaction.  What the Solana SDK builds (system transfers, compute
  budget instructions, the parser of a key, the compilation of a message) is a field of a record; a transaction is its
  list of instructions with its payer, before compilation.
\<close>

record swap_sdk = clmm_sdk +
  parse_pk :: "string \<Rightarrow> pubkey option"
  sys_transfer :: "pubkey \<Rightarrow> pubkey \<Rightarrow> u64 \<Rightarrow> instr"
  set_cu_limit :: "u32 \<Rightarrow> instr"
  set_cu_price :: "u64 \<Rightarrow> instr"
  system_id :: pubkey

definition NATIVE_MINT :: string where "NATIVE_MINT = ''So11111111111111111111111111111111111111112''"
definition SWAP_DISCRIMINATOR :: bytes where "SWAP_DISCRIMINATOR = [248, 198, 158, 145, 225, 117, 135, 200]"

record quote =
  q_pool_id :: string
  q_input_mint :: pubkey
  q_output_mint :: pubkey
  q_input_amount :: u64
  q_expected_output :: u64
  q_slippage_bps :: u64

record trade_intent =
  ti_quote :: quote
  ti_min_output :: u64
  ti_pool_state_hash :: bytes

record swap_tx_options =
  so_input_mint :: pubkey
  so_output_mint :: pubkey
  so_compute_unit_limit :: u32
  so_priority_fee :: u64
  so_close_input :: bool
  so_jito_tip :: "(pubkey \<times> u64) option"
  so_keep_output_wrapped :: bool

record raydium_adapter =
  ra_pool_id :: string
  ra_program_id :: string
  ra_accounts :: "swap_accounts option"
  ra_pool :: "resolved_pool option"

datatype adapter_error = AccountsNotSet | InvalidProgramId | NoResolvedPool

definition adapter_new :: "string \<Rightarrow> raydium_adapter" where
  "adapter_new pool_id =
     \<lparr> ra_pool_id = pool_id, ra_program_id = RAYDIUM_CLMM_PROGRAM_ID, ra_accounts = None, ra_pool = None \<rparr>"

definition with_swap_accounts :: "swap_accounts \<Rightarrow> raydium_adapter \<Rightarrow> raydium_adapter" where
  "with_swap_accounts accounts a = a\<lparr>ra_accounts := Some accounts\<rparr>"

definition with_program_id :: "string \<Rightarrow> raydium_adapter \<Rightarrow> raydium_adapter" where
  "with_program_id program_id a = a\<lparr>ra_program_id := program_id\<rparr>"

definition with_resolved_pool :: "resolved_pool \<Rightarrow> raydium_adapter \<Rightarrow> raydium_adapter" where
  "with_resolved_pool pool a = a\<lparr>ra_pool := Some pool\<rparr>"

section \<open>Quotes\<close>

definition sqrt_price_to_price :: "u128 \<Rightarrow> f64" where
  "sqrt_price_to_price sqrt_price =
     (let s = f64_div (f64_of_nat (unat sqrt_price)) (2 ^ 64) in f64_mul s s)"

text \<open>\<open>ResolvedPool::price\<close>.\<close>

definition pool_price :: "resolved_pool \<Rightarrow> f64" where
  "pool_price pool = sqrt_price_to_price (rp_sqrt_price_x64 pool)"

text \<open>The fee product is a plain 64-bit multiplication.\<close>

definition less_fee :: "u64 \<Rightarrow> u64 \<Rightarrow> u64" where
  "less_fee gross fee_rate = sat_sub gross (gross * fee_rate div 1000000)"

definition compute_output_amount :: "u64 \<Rightarrow> u128 \<Rightarrow> u64 \<Rightarrow> u64" where
  "compute_output_amount input_amount sqrt_price fee_rate =
     less_fee (f64_to_u64 (f64_mul (f64_of_nat (unat input_amount)) (sqrt_price_to_price sqrt_price))) fee_rate"

definition compute_output_amount_reverse :: "u64 \<Rightarrow> u128 \<Rightarrow> u64 \<Rightarrow> u64" where
  "compute_output_amount_reverse input_amount sqrt_price fee_rate =
     (let price = sqrt_price_to_price sqrt_price
      in if price \<le> 0 then 0
         else less_fee (f64_to_u64 (f64_div (f64_of_nat (unat input_amount)) price)) fee_rate)"

definition input_is_token0 :: "raydium_adapter \<Rightarrow> bool" where
  "input_is_token0 a =
     (case (ra_accounts a, ra_pool a) of
        (Some acc, Some pool) \<Rightarrow> sa_input_vault acc \<noteq> rp_token_vault_1 pool
      | _ \<Rightarrow> True)"

definition trade_fee_ppm :: "raydium_adapter \<Rightarrow> u64" where
  "trade_fee_ppm a =
     (case ra_pool a of
        Some pool \<Rightarrow> (case rp_trade_fee_rate pool of Some r \<Rightarrow> ucast r | None \<Rightarrow> 10000)
      | None \<Rightarrow> 10000)"

definition output_token_account :: "raydium_adapter \<Rightarrow> pubkey option" where
  "output_token_account a = map_option sa_output_token_account (ra_accounts a)"

definition adapter_quote :: "raydium_adapter \<Rightarrow> u64 \<Rightarrow> u64 \<Rightarrow> adapter_error + quote" where
  "adapter_quote a input_amount slippage_bps =
     (case ra_pool a of
        None \<Rightarrow> Inl NoResolvedPool
      | Some pool \<Rightarrow>
          let fee_rate = (case rp_trade_fee_rate pool of Some r \<Rightarrow> ucast r | None \<Rightarrow> 500);
              z = input_is_token0 a;
              expected = (if z then compute_output_amount input_amount (rp_sqrt_price_x64 pool) fee_rate
                          else compute_output_amount_reverse input_amount (rp_sqrt_price_x64 pool) fee_rate)
          in Inr \<lparr> q_pool_id = ra_pool_id a,
                   q_input_mint = (if z then rp_token_mint_0 pool else rp_token_mint_1 pool),
                   q_output_mint = (if z then rp_token_mint_1 pool else rp_token_mint_0 pool),
                   q_input_amount = input_amount, q_expected_output = expected, q_slippage_bps = slippage_bps \<rparr>)"

definition build_intent :: "'a clmm_sdk_scheme \<Rightarrow> raydium_adapter \<Rightarrow> quote \<Rightarrow> trade_intent" where
  "build_intent sdk a q =
     \<lparr> ti_quote = q, ti_min_output = min_out (q_expected_output q) (q_slippage_bps q),
       ti_pool_state_hash = sha256 sdk (str_bytes (ra_pool_id a)) \<rparr>"

section \<open>Instructions\<close>

definition ray_create_ata_ix :: "swap_sdk \<Rightarrow> pubkey \<Rightarrow> pubkey \<Rightarrow> pubkey \<Rightarrow> instr" where
  "ray_create_ata_ix sdk payer account mint =
     \<lparr> ix_program = key_of sdk ASSOCIATED_TOKEN_PROGRAM_ID,
       ix_metas = [meta_new payer True, meta_new account False, meta_readonly payer False, meta_readonly mint False,
                   meta_readonly (system_id sdk) False, meta_readonly (key_of sdk TOKEN_PROGRAM_ID) False],
       ix_bytes = [1] \<rparr>"

definition sync_native_ix :: "swap_sdk \<Rightarrow> pubkey \<Rightarrow> instr" where
  "sync_native_ix sdk account =
     \<lparr> ix_program = key_of sdk TOKEN_PROGRAM_ID, ix_metas = [meta_new account False], ix_bytes = [17] \<rparr>"

definition close_account_ix :: "swap_sdk \<Rightarrow> pubkey \<Rightarrow> pubkey \<Rightarrow> instr" where
  "close_account_ix sdk account owner =
     \<lparr> ix_program = key_of sdk TOKEN_PROGRAM_ID,
       ix_metas = [meta_new account False, meta_new owner False, meta_readonly owner True], ix_bytes = [9] \<rparr>"

definition build_swap_instruction ::
    "swap_sdk \<Rightarrow> raydium_adapter \<Rightarrow> trade_intent \<Rightarrow> pubkey \<Rightarrow> adapter_error + instr" where
  "build_swap_instruction sdk a intent signer =
     and_then (ok_or AccountsNotSet (ra_accounts a)) (\<lambda>acc.
     and_then (ok_or InvalidProgramId (parse_pk sdk (ra_program_id a))) (\<lambda>program_id.
     Inr \<lparr> ix_program = program_id,
           ix_metas = [meta_new signer True, meta_readonly (sa_amm_config acc) False, meta_new (sa_pool_state acc) False,
             meta_new (sa_input_token_account acc) False, meta_new (sa_output_token_account acc) False,
             meta_new (sa_input_vault acc) False, meta_new (sa_output_vault acc) False,
             meta_new (sa_observation_state acc) False, meta_readonly (key_of sdk TOKEN_PROGRAM_ID) False,
             meta_new (sa_tick_array acc) False]
             @ (case sa_bitmap_extension acc of Some ext \<Rightarrow> [meta_readonly ext False] | None \<Rightarrow> [])
             @ map (\<lambda>k. meta_new k False) (sa_extra_tick_arrays acc),
           ix_bytes = SWAP_DISCRIMINATOR @ to_le_bytes 8 (q_input_amount (ti_quote intent))
             @ to_le_bytes 8 (ti_min_output intent) @ to_le_bytes 16 (0 :: u128) @ [1] \<rparr>))"

definition build_swap_transaction ::
    "swap_sdk \<Rightarrow> raydium_adapter \<Rightarrow> trade_intent \<Rightarrow> pubkey \<Rightarrow> swap_tx_options \<Rightarrow> adapter_error + instr list" where
  "build_swap_transaction sdk a intent signer opts =
     and_then (ok_or AccountsNotSet (ra_accounts a)) (\<lambda>acc.
     and_then (build_swap_instruction sdk a intent signer) (\<lambda>swap.
     let native = key_of sdk NATIVE_MINT in
     Inr ((if 0 < so_compute_unit_limit opts then [set_cu_limit sdk (so_compute_unit_limit opts)] else [])
          @ (if 0 < so_priority_fee opts then [set_cu_price sdk (so_priority_fee opts)] else [])
          @ [ray_create_ata_ix sdk signer (sa_input_token_account acc) (so_input_mint opts),
             ray_create_ata_ix sdk signer (sa_output_token_account acc) (so_output_mint opts)]
          @ (if so_input_mint opts = native
             then [sys_transfer sdk signer (sa_input_token_account acc) (q_input_amount (ti_quote intent)),
                   sync_native_ix sdk (sa_input_token_account acc)]
             else [])
          @ [swap]
          @ (if so_input_mint opts = native \<or> so_close_input opts
             then [close_account_ix sdk (sa_input_token_account acc) signer] else [])
          @ (if so_output_mint opts = native \<and> \<not> so_keep_output_wrapped opts
             then [close_account_ix sdk (sa_output_token_account acc) signer] else [])
          @ (case so_jito_tip opts of Some (tip_account, lamports) \<Rightarrow> [sys_transfer sdk signer tip_account lamports]
             | None \<Rightarrow> []))))"

definition build_quote_transaction ::
    "swap_sdk \<Rightarrow> raydium_adapter \<Rightarrow> quote \<Rightarrow> pubkey \<Rightarrow> swap_tx_options \<Rightarrow> adapter_error + instr list" where
  "build_quote_transaction sdk a q signer opts =
     build_swap_transaction sdk a \<lparr> ti_quote = q, ti_min_output = 1, ti_pool_state_hash = [] \<rparr> signer
       (opts\<lparr>so_keep_output_wrapped := True, so_jito_tip := None\<rparr>)"

definition build_transaction :: "swap_sdk \<Rightarrow> raydium_adapter \<Rightarrow> trade_intent \<Rightarrow> pubkey \<Rightarrow> adapter_error + instr list" where
  "build_transaction sdk a intent signer =
     and_then (build_swap_instruction sdk a intent signer) (\<lambda>swap. Inr [swap])"

section \<open>What a swap transaction is\<close>

text \<open>
  Said of the list of instructions alone: one swap signed by the wallet, over its two token accounts, of exactly the given amount for at
  least the given output; before it at most the compute budget, the two token accounts and, when the wallet pays in SOL, one wrap of
  exactly that amount; after it at most the closing of the accounts and the tip.
\<close>

record swap_terms =
  tm_input_mint :: pubkey
  tm_output_mint :: pubkey
  tm_amount :: u64
  tm_min_output :: u64
  tm_close_input :: bool
  tm_tip :: "(pubkey \<times> u64) option"

definition swaps_exactly :: "swap_sdk \<Rightarrow> pubkey \<Rightarrow> swap_accounts \<Rightarrow> swap_terms \<Rightarrow> instr list \<Rightarrow> bool" where
  "swaps_exactly sdk wallet acc terms tx \<longleftrightarrow>
     (\<exists>before swap after limit fee. tx = before @ [swap] @ after
        \<and> ix_bytes swap = [248, 198, 158, 145, 225, 117, 135, 200] @ to_le_bytes 8 (tm_amount terms)
            @ to_le_bytes 8 (tm_min_output terms) @ replicate 16 0 @ [1]
        \<and> 5 \<le> length (ix_metas swap) \<and> ix_metas swap ! 0 = meta_new wallet True
        \<and> am_key (ix_metas swap ! 3) = sa_input_token_account acc \<and> am_key (ix_metas swap ! 4) = sa_output_token_account acc
        \<and> subseq before
            ([set_cu_limit sdk limit, set_cu_price sdk fee,
              ray_create_ata_ix sdk wallet (sa_input_token_account acc) (tm_input_mint terms),
              ray_create_ata_ix sdk wallet (sa_output_token_account acc) (tm_output_mint terms)]
             @ (if tm_input_mint terms = key_of sdk NATIVE_MINT
                then [sys_transfer sdk wallet (sa_input_token_account acc) (tm_amount terms), sync_native_ix sdk (sa_input_token_account acc)]
                else []))
        \<and> subseq after
            ((if tm_input_mint terms = key_of sdk NATIVE_MINT \<or> tm_close_input terms
              then [close_account_ix sdk (sa_input_token_account acc) wallet] else [])
             @ [close_account_ix sdk (sa_output_token_account acc) wallet]
             @ (case tm_tip terms of Some (dest, lamports) \<Rightarrow> [sys_transfer sdk wallet dest lamports] | None \<Rightarrow> [])))"

lemma zero_le_bytes: "to_le_bytes 16 (0 :: u128) = replicate 16 0"
  by (simp add: to_le_bytes_def map_replicate_const flip: replicate_Suc)

lemma built_swaps_exactly:
  assumes "build_swap_transaction sdk a intent wallet opts = Inr tx" "ra_accounts a = Some acc"
  shows "swaps_exactly sdk wallet acc
    \<lparr> tm_input_mint = so_input_mint opts, tm_output_mint = so_output_mint opts, tm_amount = q_input_amount (ti_quote intent),
      tm_min_output = ti_min_output intent, tm_close_input = so_close_input opts, tm_tip = so_jito_tip opts \<rparr> tx"
proof -
  obtain swap where swap: "build_swap_instruction sdk a intent wallet = Inr swap"
    using assms by (auto simp: build_swap_transaction_def ok_iff)
  define before where "before =
    (if 0 < so_compute_unit_limit opts then [set_cu_limit sdk (so_compute_unit_limit opts)] else [])
    @ (if 0 < so_priority_fee opts then [set_cu_price sdk (so_priority_fee opts)] else [])
    @ [ray_create_ata_ix sdk wallet (sa_input_token_account acc) (so_input_mint opts),
       ray_create_ata_ix sdk wallet (sa_output_token_account acc) (so_output_mint opts)]
    @ (if so_input_mint opts = key_of sdk NATIVE_MINT
       then [sys_transfer sdk wallet (sa_input_token_account acc) (q_input_amount (ti_quote intent)),
             sync_native_ix sdk (sa_input_token_account acc)] else [])"
  define after where "after =
    (if so_input_mint opts = key_of sdk NATIVE_MINT \<or> so_close_input opts
     then [close_account_ix sdk (sa_input_token_account acc) wallet] else [])
    @ (if so_output_mint opts = key_of sdk NATIVE_MINT \<and> \<not> so_keep_output_wrapped opts
       then [close_account_ix sdk (sa_output_token_account acc) wallet] else [])
    @ (case so_jito_tip opts of Some (dest, lamports) \<Rightarrow> [sys_transfer sdk wallet dest lamports] | None \<Rightarrow> [])"
  have tx: "tx = before @ [swap] @ after"
    using assms swap by (simp add: build_swap_transaction_def before_def after_def ok_or_def Let_def and_then_def)
  have bytes: "ix_bytes swap = [248, 198, 158, 145, 225, 117, 135, 200] @ to_le_bytes 8 (q_input_amount (ti_quote intent))
      @ to_le_bytes 8 (ti_min_output intent) @ replicate 16 0 @ [1]"
    and metas: "5 \<le> length (ix_metas swap)" "ix_metas swap ! 0 = meta_new wallet True"
      "am_key (ix_metas swap ! 3) = sa_input_token_account acc" "am_key (ix_metas swap ! 4) = sa_output_token_account acc"
    using swap assms(2) by (auto simp: build_swap_instruction_def ok_iff zero_le_bytes SWAP_DISCRIMINATOR_def meta_new_def)
  have "subseq before
      ([set_cu_limit sdk (so_compute_unit_limit opts), set_cu_price sdk (so_priority_fee opts),
        ray_create_ata_ix sdk wallet (sa_input_token_account acc) (so_input_mint opts),
        ray_create_ata_ix sdk wallet (sa_output_token_account acc) (so_output_mint opts)]
       @ (if so_input_mint opts = key_of sdk NATIVE_MINT
          then [sys_transfer sdk wallet (sa_input_token_account acc) (q_input_amount (ti_quote intent)),
                sync_native_ix sdk (sa_input_token_account acc)] else []))"
    unfolding before_def by (auto intro: subseq_Cons')
  moreover have "subseq after
      ((if so_input_mint opts = key_of sdk NATIVE_MINT \<or> so_close_input opts
        then [close_account_ix sdk (sa_input_token_account acc) wallet] else [])
       @ [close_account_ix sdk (sa_output_token_account acc) wallet]
       @ (case so_jito_tip opts of Some (dest, lamports) \<Rightarrow> [sys_transfer sdk wallet dest lamports] | None \<Rightarrow> []))"
    unfolding after_def by (intro list_emb_append_mono) (auto split: option.split)
  ultimately show ?thesis using tx bytes metas unfolding swaps_exactly_def by (auto intro!: exI)
qed

section \<open>The fee of a quote\<close>

lemma less_fee_exact:
  assumes "unat gross * unat fee_rate < 2 ^ 64"
  shows "unat (less_fee gross fee_rate) = unat gross - unat gross * unat fee_rate div 1000000"
  using assms by (simp add: less_fee_def unat_sat_sub unat_div_word unat_mult_small)

lemma unit_price: "sqrt_price_to_price (2 ^ 64) = 1"
proof -
  have u: "unat (2 ^ 64 :: u128) = 2 ^ 64" by simp
  have "f64_of_nat (2 ^ 64) = 2 ^ 64"
    using f64_round_exact [of 1 64] unfolding f64_of_nat_def by simp
  then show ?thesis
    unfolding sqrt_price_to_price_def u by (simp add: f64_div_def f64_mul_def)
qed

lemma f64_ten_to_16: "f64_round 10000000000000000 = 10000000000000000"
  using f64_round_exact [of 152587890625 16] by simp

text \<open>
  The quoted fee is a 64-bit product: for a gross output of \<open>10 ^ 16\<close> base units at the 0.25 percent tier it wraps, and the quote
  charges less than a third of the fee, so that the expected output is too high.
\<close>

theorem quote_fee_wraps:
  "let out = compute_output_amount 10000000000000000 (2 ^ 64) 2500
   in out = 9993446744073710 \<and> unat out > 10000000000000000 - 10000000000000000 * 2500 div 1000000"
proof -
  have "f64_to_u64 (f64_mul (f64_of_nat (unat (10000000000000000 :: u64))) 1) = 10000000000000000"
    by (simp add: f64_mul_def f64_of_nat_def f64_ten_to_16 f64_to_u64_def)
  then have "compute_output_amount 10000000000000000 (2 ^ 64) 2500 = less_fee 10000000000000000 2500"
    unfolding compute_output_amount_def unit_price by simp
  also have "\<dots> = 9993446744073710" by (simp add: less_fee_def sat_sub_def)
  finally show ?thesis by (simp add: Let_def)
qed

end
