(* ===== verification/Swap_Policy.thy ===== *)
theory Swap_Policy
  imports Raydium Hsm_Policy
begin

text \<open>
  The client and the signer together: the swap transactions the Raydium adapter builds, compiled by the SDK, against the
  signing policy of the HSM server.  The two programs state their layouts and program ids separately; the theorem here is that
  they agree, so that a swap within the limits of the policy is never refused.
\<close>

section \<open>Compiled messages\<close>

text \<open>A compiled instruction stands for an instruction when its indices lead to the same keys.\<close>

definition stands_for :: "pubkey list \<Rightarrow> compiled_ix \<Rightarrow> instr \<Rightarrow> bool" where
  "stands_for keys c ix \<longleftrightarrow>
     key_at keys (program_id_index c) = Inr (ix_program ix)
     \<and> try_map (key_at keys) (ix_accounts c) = Inr (map am_key (ix_metas ix)) \<and> ix_data c = ix_bytes ix"

text \<open>What the SDK documents of \<open>Message::new\<close> when the payer is the only signer.\<close>

definition compiled_from :: "pubkey message \<Rightarrow> pubkey \<Rightarrow> instr list \<Rightarrow> bool" where
  "compiled_from msg payer ixs \<longleftrightarrow>
     get_at 0 (account_keys msg) = Some payer
     \<and> num_required_signatures msg = 1
     \<and> list_all2 (stands_for (account_keys msg)) (instructions msg) ixs"

text \<open>The key functions of the signer, from those of the client, and the layouts the SDK documents for what it builds.\<close>

definition signer_sdk_of :: "swap_sdk \<Rightarrow> pubkey sdk" where
  "signer_sdk_of s =
     \<lparr> pk = key_of s, find_ata = (\<lambda>owner mint prog. find_pda s [owner, prog, mint] (key_of s ATA_PROGRAM)) \<rparr>"

definition sdk_layouts :: "swap_sdk \<Rightarrow> bool" where
  "sdk_layouts s \<longleftrightarrow>
     (\<forall>a b n. ix_program (sys_transfer s a b n) = key_of s SYSTEM_PROGRAM
        \<and> map am_key (ix_metas (sys_transfer s a b n)) = [a, b]
        \<and> ix_bytes (sys_transfer s a b n) = [2, 0, 0, 0] @ to_le_bytes 8 n)
     \<and> (\<forall>n. ix_program (set_cu_limit s n) = key_of s COMPUTE_BUDGET_PROGRAM
        \<and> ix_bytes (set_cu_limit s n) = 2 # to_le_bytes 4 n)
     \<and> (\<forall>n. ix_program (set_cu_price s n) = key_of s COMPUTE_BUDGET_PROGRAM
        \<and> ix_bytes (set_cu_price s n) = 3 # to_le_bytes 8 n)
     \<and> inj_on (key_of s) program_ids"

lemma same_names:
  "ASSOCIATED_TOKEN_PROGRAM_ID = ATA_PROGRAM" "TOKEN_PROGRAM_ID = TOKEN_PROGRAM"
  "SWAP_DISCRIMINATOR = CLMM_SWAP_DISCRIMINATOR"
  by (simp_all add: ASSOCIATED_TOKEN_PROGRAM_ID_def ATA_PROGRAM_def TOKEN_PROGRAM_ID_def TOKEN_PROGRAM_def
      SWAP_DISCRIMINATOR_def CLMM_SWAP_DISCRIMINATOR_def)

lemma pk_signer [simp]: "pk (signer_sdk_of s) = key_of s"
  by (simp add: signer_sdk_of_def)

lemma program_keys:
  assumes "sdk_layouts s" "p \<in> program_ids" "q \<in> program_ids"
  shows "key_of s p = key_of s q \<longleftrightarrow> p = q"
  using assms by (auto simp: sdk_layouts_def inj_on_eq_iff)

lemma in_program_ids [simp]:
  "SYSTEM_PROGRAM \<in> program_ids" "COMPUTE_BUDGET_PROGRAM \<in> program_ids" "TOKEN_PROGRAM \<in> program_ids"
  "ATA_PROGRAM \<in> program_ids" "p \<in> set CLMM_PROGRAMS \<Longrightarrow> p \<in> program_ids"
  by (simp_all add: program_ids_def)

lemma name_neqs [simp]:
  "SYSTEM_PROGRAM \<noteq> COMPUTE_BUDGET_PROGRAM" "SYSTEM_PROGRAM \<noteq> TOKEN_PROGRAM" "SYSTEM_PROGRAM \<noteq> ATA_PROGRAM"
  "COMPUTE_BUDGET_PROGRAM \<noteq> TOKEN_PROGRAM" "COMPUTE_BUDGET_PROGRAM \<noteq> ATA_PROGRAM" "TOKEN_PROGRAM \<noteq> ATA_PROGRAM"
  "COMPUTE_BUDGET_PROGRAM \<noteq> SYSTEM_PROGRAM" "TOKEN_PROGRAM \<noteq> SYSTEM_PROGRAM" "ATA_PROGRAM \<noteq> SYSTEM_PROGRAM"
  "TOKEN_PROGRAM \<noteq> COMPUTE_BUDGET_PROGRAM" "ATA_PROGRAM \<noteq> COMPUTE_BUDGET_PROGRAM" "ATA_PROGRAM \<noteq> TOKEN_PROGRAM"
  by (simp_all add: program_names)

lemma clmm_neqs:
  "p \<in> set CLMM_PROGRAMS \<Longrightarrow>
     p \<noteq> SYSTEM_PROGRAM \<and> p \<noteq> COMPUTE_BUDGET_PROGRAM \<and> p \<noteq> TOKEN_PROGRAM \<and> p \<noteq> ATA_PROGRAM"
  by (auto simp: program_names)

lemma acc_at_stands:
  assumes "stands_for keys c ix" "n < length (ix_metas ix)"
  shows "acc_at keys c n = Inr (am_key (ix_metas ix ! n))"
proof -
  have "list_all2 (\<lambda>i k. key_at keys i = Inr k) (ix_accounts c) (map am_key (ix_metas ix))"
    using assms(1) by (simp add: stands_for_def try_map_Inr)
  then show ?thesis
    using assms(2) by (auto simp: acc_at_def list_all2_conv_all_nth ok_or_def get_at_def)
qed

section \<open>Each instruction of a swap\<close>

lemma cu_limit_accepted:
  assumes "sdk_layouts s" "stands_for keys c (set_cu_limit s n)"
  shows "check_ix (signer_sdk_of s) policy keys signer own c = Inr 0"
  using assms by (simp add: check_ix_def stands_for_def sdk_layouts_def check_compute_def ensure_def)

lemma cu_price_accepted:
  assumes "sdk_layouts s" "stands_for keys c (set_cu_price s n)" "n \<le> max_cu_price_micro_lamports policy"
  shows "check_ix (signer_sdk_of s) policy keys signer own c = Inr 0"
  using assms
  by (simp add: check_ix_def stands_for_def sdk_layouts_def check_compute_def ensure_def get_range_def ok_or_def
      from_to_le_bytes Let_def)

lemma transfer_accepted:
  assumes "sdk_layouts s" "stands_for keys c (sys_transfer s signer dest n)"
    and "dest \<in> own \<or> dest \<in> key_of s ` set JITO_TIP_ACCOUNTS \<or> dest \<in> extra_destinations policy"
  shows "\<exists>m. check_ix (signer_sdk_of s) policy keys signer own c = Inr m \<and> m \<le> n"
proof -
  let ?ix = "sys_transfer s signer dest n"
  have lay: "ix_program ?ix = key_of s SYSTEM_PROGRAM" "map am_key (ix_metas ?ix) = [signer, dest]"
    "ix_bytes ?ix = [2, 0, 0, 0] @ to_le_bytes 8 n" using assms(1) by (auto simp: sdk_layouts_def)
  then have len: "length (ix_metas ?ix) = 2" by (metis length_map length_Cons list.size(3) numeral_2_eq_2)
  then have keys: "am_key (ix_metas ?ix ! 0) = signer" "am_key (ix_metas ?ix ! 1) = dest"
    using lay(2) by (auto simp flip: nth_map [where f = am_key])
  have acc: "acc_at keys c 0 = Inr signer" "acc_at keys c 1 = Inr dest"
    using acc_at_stands [OF assms(2)] len keys by simp_all
  have prog: "key_at keys (program_id_index c) = Inr (key_of s SYSTEM_PROGRAM)" "ix_data c = [2, 0, 0, 0] @ to_le_bytes 8 n"
    using assms(2) lay by (simp_all add: stands_for_def)
  show ?thesis
    using assms(1,3) acc prog
    by (simp add: check_ix_def program_keys check_system_def ensure_def Let_def from_to_le_bytes)
qed

lemma create_skipped:
  assumes "sdk_layouts s" "stands_for keys c (ray_create_ata_ix s payer account mint)"
  shows "check_ix (signer_sdk_of s) policy keys signer own c = Inr 0"
  using assms by (simp add: check_ix_def stands_for_def ray_create_ata_ix_def same_names program_keys)

lemma sync_accepted:
  assumes "sdk_layouts s" "stands_for keys c (sync_native_ix s account)" "account \<in> own"
  shows "check_ix (signer_sdk_of s) policy keys signer own c = Inr 0"
  using assms acc_at_stands [OF assms(2), of 0]
  by (simp add: check_ix_def stands_for_def sync_native_ix_def same_names program_keys check_token_def ensure_def)

lemma close_accepted:
  assumes "sdk_layouts s" "stands_for keys c (close_account_ix s account signer)" "account \<in> own"
  shows "check_ix (signer_sdk_of s) policy keys signer own c = Inr 0"
  using assms acc_at_stands [OF assms(2), of 0] acc_at_stands [OF assms(2), of 1] acc_at_stands [OF assms(2), of 2]
  by (simp add: check_ix_def stands_for_def close_account_ix_def same_names program_keys check_token_def ensure_def)

lemma swap_accepted:
  assumes "sdk_layouts s" "stands_for keys c ix"
    and "ix_program ix = key_of s p" "p \<in> set CLMM_PROGRAMS" "get_range 0 8 (ix_bytes ix) = Some CLMM_SWAP_DISCRIMINATOR"
    and "5 \<le> length (ix_metas ix)" "am_key (ix_metas ix ! 0) = signer"
    and "am_key (ix_metas ix ! 3) \<in> own" "am_key (ix_metas ix ! 4) \<in> own"
  shows "check_ix (signer_sdk_of s) policy keys signer own c = Inr 0"
proof -
  have "0 < length (ix_metas ix)" "3 < length (ix_metas ix)" "4 < length (ix_metas ix)" using assms(6) by linarith+
  then have "acc_at keys c 0 = Inr signer" "acc_at keys c 3 = Inr (am_key (ix_metas ix ! 3))"
    "acc_at keys c 4 = Inr (am_key (ix_metas ix ! 4))"
    using acc_at_stands [OF assms(2)] unfolding assms(7) [symmetric] by blast+
  then show ?thesis
    using assms clmm_neqs [OF assms(4)] by (simp add: check_ix_def stands_for_def program_keys check_clmm_def ensure_def)
qed

section \<open>The whole transaction\<close>

lemma create_collected:
  assumes "stands_for keys c (ray_create_ata_ix s signer account mint)" "account = resolve_user_ata s signer mint"
  shows "ata_create (signer_sdk_of s) keys signer c = Inr account"
  using assms
  by (simp add: ata_create_def stands_for_def ray_create_ata_ix_def ensure_def same_names ata_of_def signer_sdk_of_def
      resolve_user_ata_def)

lemma own_pass_collects:
  assumes "list_all2 (stands_for keys) cs ixs"
    and "\<And>ix. ix \<in> set ixs \<Longrightarrow> ix_program ix \<noteq> key_of s ATA_PROGRAM
          \<or> (\<exists>mint. ix = ray_create_ata_ix s signer (resolve_user_ata s signer mint) mint)"
  shows "\<exists>own'. own_ata_pass (signer_sdk_of s) keys signer cs own = Inr own' \<and> own \<subseteq> own'
    \<and> (\<forall>mint. ray_create_ata_ix s signer (resolve_user_ata s signer mint) mint \<in> set ixs
         \<longrightarrow> resolve_user_ata s signer mint \<in> own')"
  using assms
proof (induction arbitrary: own rule: list_all2_induct)
  case (Cons c cs ix ixs)
  have prog: "key_at keys (program_id_index c) = Inr (ix_program ix)" using Cons.hyps(1) by (simp add: stands_for_def)
  show ?case
  proof (cases "ix_program ix = key_of s ATA_PROGRAM")
    case True
    then obtain mint where ix: "ix = ray_create_ata_ix s signer (resolve_user_ata s signer mint) mint"
      using Cons.prems by auto
    have ata: "ata_create (signer_sdk_of s) keys signer c = Inr (resolve_user_ata s signer mint)"
      using Cons.hyps(1) unfolding ix by (rule create_collected) simp
    obtain own' where own': "own_ata_pass (signer_sdk_of s) keys signer cs (insert (resolve_user_ata s signer mint) own) = Inr own'"
      "insert (resolve_user_ata s signer mint) own \<subseteq> own'"
      "\<forall>m. ray_create_ata_ix s signer (resolve_user_ata s signer m) m \<in> set ixs \<longrightarrow> resolve_user_ata s signer m \<in> own'"
      using Cons.IH Cons.prems by (metis list.set_intros(2))
    have "resolve_user_ata s signer m \<in> own'"
      if "ray_create_ata_ix s signer (resolve_user_ata s signer m) m = ix" for m
    proof -
      have "resolve_user_ata s signer m = resolve_user_ata s signer mint"
        using that unfolding ix ray_create_ata_ix_def by (simp add: meta_new_def)
      then show ?thesis using own'(2) by simp
    qed
    then show ?thesis using own' prog ata True by auto
  next
    case False
    obtain own' where "own_ata_pass (signer_sdk_of s) keys signer cs own = Inr own'" "own \<subseteq> own'"
      "\<forall>m. ray_create_ata_ix s signer (resolve_user_ata s signer m) m \<in> set ixs \<longrightarrow> resolve_user_ata s signer m \<in> own'"
      using Cons.IH Cons.prems by (metis list.set_intros(2))
    moreover have "ray_create_ata_ix s signer (resolve_user_ata s signer m) m \<noteq> ix" for m
      using False by (auto simp: ray_create_ata_ix_def same_names)
    ultimately show ?thesis using prog False by auto
  qed
qed simp

lemma check_ixs_within:
  assumes "list_all2 (\<lambda>c n. \<exists>m. check_ix sd policy keys signer own c = Inr m \<and> unat m \<le> n) cs ns"
  shows "\<exists>m'. check_ixs sd policy keys signer own cs m = Inr m' \<and> unat m' \<le> unat m + sum_list ns"
  using assms
proof (induction arbitrary: m rule: list_all2_induct)
  case (Cons c cs n ns)
  then obtain k where k: "check_ix sd policy keys signer own c = Inr k" "unat k \<le> n" by blast
  obtain m' where "check_ixs sd policy keys signer own cs (sat_add m k) = Inr m'"
    "unat m' \<le> unat (sat_add m k) + sum_list ns" using Cons.IH by blast
  then show ?case using k by (auto simp: unat_sat_add)
qed simp

text \<open>The lamports an instruction can move out of the wallet.\<close>

definition spends :: "swap_sdk \<Rightarrow> instr \<Rightarrow> nat" where
  "spends s ix =
     (if ix_program ix = key_of s SYSTEM_PROGRAM then unat (from_le_bytes (drop 4 (ix_bytes ix)) :: u64) else 0)"

lemma spends_transfer: "sdk_layouts s \<Longrightarrow> spends s (sys_transfer s a b n) = unat n"
  by (simp add: spends_def sdk_layouts_def from_to_le_bytes)

lemma spends_others:
  assumes "sdk_layouts s"
  shows "spends s (set_cu_limit s n) = 0" "spends s (set_cu_price s p) = 0" "spends s (sync_native_ix s k) = 0"
    "spends s (ray_create_ata_ix s payer k mint) = 0" "spends s (close_account_ix s k owner) = 0"
  using assms program_keys [OF assms]
  by (simp_all add: spends_def sdk_layouts_def sync_native_ix_def ray_create_ata_ix_def close_account_ix_def same_names)

text \<open>A swap instruction of the adapter.\<close>

lemma built_swap:
  assumes "build_swap_instruction s a intent signer = Inr swap" "ra_accounts a = Some acc"
    and "parse_pk s (ra_program_id a) = Some prog"
  shows "ix_program swap = prog \<and> get_range 0 8 (ix_bytes swap) = Some CLMM_SWAP_DISCRIMINATOR
    \<and> 5 \<le> length (ix_metas swap) \<and> am_key (ix_metas swap ! 0) = signer
    \<and> am_key (ix_metas swap ! 3) = sa_input_token_account acc \<and> am_key (ix_metas swap ! 4) = sa_output_token_account acc"
  using assms
  by (auto simp: build_swap_instruction_def ok_iff get_range_def same_names CLMM_SWAP_DISCRIMINATOR_def)

text \<open>Every instruction of a swap passes the second check, and counts at most the lamports it spends.\<close>

definition harmless :: "swap_sdk \<Rightarrow> pubkey policy \<Rightarrow> pubkey list \<Rightarrow> pubkey \<Rightarrow> pubkey set \<Rightarrow> instr \<Rightarrow> bool" where
  "harmless s policy keys signer own ix \<longleftrightarrow>
     (\<forall>c. stands_for keys c ix
        \<longrightarrow> (\<exists>m. check_ix (signer_sdk_of s) policy keys signer own c = Inr m \<and> unat m \<le> spends s ix))"

lemma harmless_each:
  assumes "sdk_layouts s"
  shows "harmless s policy keys signer own (set_cu_limit s n)"
    "price \<le> max_cu_price_micro_lamports policy \<Longrightarrow> harmless s policy keys signer own (set_cu_price s price)"
    "harmless s policy keys signer own (ray_create_ata_ix s payer account mint)"
    "account \<in> own \<Longrightarrow> harmless s policy keys signer own (sync_native_ix s account)"
    "account \<in> own \<Longrightarrow> harmless s policy keys signer own (close_account_ix s account signer)"
    "dest \<in> own \<or> dest \<in> key_of s ` set JITO_TIP_ACCOUNTS \<Longrightarrow>
       harmless s policy keys signer own (sys_transfer s signer dest n')"
  unfolding harmless_def
  using cu_limit_accepted [OF assms] cu_price_accepted [OF assms] create_skipped [OF assms] sync_accepted [OF assms]
    close_accepted [OF assms]
  by (fastforce, fastforce, fastforce, fastforce, fastforce)
     (metis transfer_accepted [OF assms] spends_transfer [OF assms] word_le_nat_alt)

lemma harmless_all:
  assumes "list_all2 (stands_for keys) cs ixs" "\<And>ix. ix \<in> set ixs \<Longrightarrow> harmless s policy keys signer own ix"
  shows "\<exists>m. check_ixs (signer_sdk_of s) policy keys signer own cs 0 = Inr m \<and> unat m \<le> sum_list (map (spends s) ixs)"
proof -
  have "list_all2 (\<lambda>c n. \<exists>m. check_ix (signer_sdk_of s) policy keys signer own c = Inr m \<and> unat m \<le> n)
      cs (map (spends s) ixs)"
    using assms by (auto simp: list_all2_conv_all_nth harmless_def)
  from check_ixs_within [OF this, of 0] show ?thesis by simp
qed

lemma swap_harmless:
  assumes "sdk_layouts s" "build_swap_instruction s a intent signer = Inr swap" "ra_accounts a = Some acc"
    and "parse_pk s (ra_program_id a) = Some (key_of s p)" "p \<in> set CLMM_PROGRAMS"
    and "sa_input_token_account acc \<in> own" "sa_output_token_account acc \<in> own"
  shows "harmless s policy keys signer own swap \<and> spends s swap = 0"
proof -
  note b = built_swap [OF assms(2,3,4)]
  have "check_ix (signer_sdk_of s) policy keys signer own c = Inr 0" if "stands_for keys c swap" for c
    using swap_accepted [OF assms(1) that _ assms(5)] b assms(6,7) by simp
  moreover have "spends s swap = 0"
    using b program_keys [OF assms(1)] clmm_neqs [OF assms(5)] assms(5) by (simp add: spends_def)
  ultimately show ?thesis by (auto simp: harmless_def)
qed

lemma built_transaction:
  assumes "build_swap_transaction s a intent signer opts = Inr ixs" "ra_accounts a = Some acc"
    and "build_swap_instruction s a intent signer = Inr swap"
  shows "ixs =
     (if 0 < so_compute_unit_limit opts then [set_cu_limit s (so_compute_unit_limit opts)] else [])
     @ (if 0 < so_priority_fee opts then [set_cu_price s (so_priority_fee opts)] else [])
     @ [ray_create_ata_ix s signer (sa_input_token_account acc) (so_input_mint opts),
        ray_create_ata_ix s signer (sa_output_token_account acc) (so_output_mint opts)]
     @ (if so_input_mint opts = key_of s NATIVE_MINT
        then [sys_transfer s signer (sa_input_token_account acc) (q_input_amount (ti_quote intent)),
              sync_native_ix s (sa_input_token_account acc)]
        else [])
     @ [swap]
     @ (if so_input_mint opts = key_of s NATIVE_MINT \<or> so_close_input opts
        then [close_account_ix s (sa_input_token_account acc) signer] else [])
     @ (if so_output_mint opts = key_of s NATIVE_MINT \<and> \<not> so_keep_output_wrapped opts
        then [close_account_ix s (sa_output_token_account acc) signer] else [])
     @ (case so_jito_tip opts of Some (tip_account, lamports) \<Rightarrow> [sys_transfer s signer tip_account lamports] | None \<Rightarrow> [])"
  using assms unfolding build_swap_transaction_def Let_def ok_or_def by simp

definition lamports_out :: "swap_sdk \<Rightarrow> trade_intent \<Rightarrow> swap_tx_options \<Rightarrow> nat" where
  "lamports_out s intent opts =
     (if so_input_mint opts = key_of s NATIVE_MINT then unat (q_input_amount (ti_quote intent)) else 0)
     + (case so_jito_tip opts of Some (_, n) \<Rightarrow> unat n | None \<Rightarrow> 0)"

lemma swap_accepted_by_policy:
  assumes lay: "sdk_layouts s"
    and prog: "parse_pk s (ra_program_id a) = Some (key_of s p)" "p \<in> set CLMM_PROGRAMS"
    and built: "build_swap_transaction s a intent signer opts = Inr ixs"
    and acc: "ra_accounts a = Some acc" "sa_input_token_account acc = resolve_user_ata s signer (so_input_mint opts)"
      "sa_output_token_account acc = resolve_user_ata s signer (so_output_mint opts)"
    and tip: "case so_jito_tip opts of Some (t, n) \<Rightarrow> t \<in> key_of s ` set JITO_TIP_ACCOUNTS | None \<Rightarrow> True"
    and caps: "so_priority_fee opts \<le> max_cu_price_micro_lamports policy"
      "lamports_out s intent opts \<le> unat (max_transfer_lamports policy)"
    and msg: "compiled_from msg signer ixs"
  shows "policy_check (signer_sdk_of s) msg signer policy = Inr ()"
proof -
  let ?in = "sa_input_token_account acc" and ?out = "sa_output_token_account acc"
  obtain swap where swap: "build_swap_instruction s a intent signer = Inr swap"
    using built acc(1) by (auto simp: build_swap_transaction_def ok_iff)
  note ixs = built_transaction [OF built acc(1) swap]
  note b = built_swap [OF swap acc(1) prog(1)]
  have ata: "ix_program ix \<noteq> key_of s ATA_PROGRAM
      \<or> (\<exists>mint. ix = ray_create_ata_ix s signer (resolve_user_ata s signer mint) mint)" if "ix \<in> set ixs" for ix
    using that lay prog(2) clmm_neqs [OF prog(2)] b unfolding ixs
    by (auto simp: acc sdk_layouts_def sync_native_ix_def close_account_ix_def same_names program_keys [OF lay]
        split: if_splits option.splits)
  obtain own where own: "own_ata_pass (signer_sdk_of s) (account_keys msg) signer (instructions msg) {} = Inr own"
    and mem: "\<forall>mint. ray_create_ata_ix s signer (resolve_user_ata s signer mint) mint \<in> set ixs
        \<longrightarrow> resolve_user_ata s signer mint \<in> own"
    using own_pass_collects [of "account_keys msg" "instructions msg" ixs s signer "{}"] ata msg
    unfolding compiled_from_def by blast
  have atas: "?in \<in> own" "?out \<in> own" using mem unfolding ixs by (simp_all add: acc)
  note sh = swap_harmless [OF lay swap acc(1) prog atas, where policy = policy and keys = "account_keys msg"]
  have "harmless s policy (account_keys msg) signer own ix" if "ix \<in> set ixs" for ix
    using that tip caps(1) atas sh unfolding ixs
    by (auto intro!: harmless_each [OF lay] split: if_splits option.splits)
  with harmless_all obtain m where m: "check_ixs (signer_sdk_of s) policy (account_keys msg) signer own (instructions msg) 0 = Inr m"
    "unat m \<le> sum_list (map (spends s) ixs)"
    using msg unfolding compiled_from_def by blast
  have "sum_list (map (spends s) ixs) = lamports_out s intent opts"
    unfolding ixs lamports_out_def
    by (auto simp: spends_others [OF lay] spends_transfer [OF lay] sh split: option.split)
  then have "m \<le> max_transfer_lamports policy" using m(2) caps(2) by (simp add: word_le_nat_alt)
  then show ?thesis
    using msg own m(1) by (simp add: policy_check_def compiled_from_def ensure_def)
qed

text \<open>
  C17. The client and the signer agree: a swap transaction the adapter builds between the associated accounts of the wallet, through a
  CLMM program, with a tip to a Jito account, a priority fee and an outflow (wrapped input plus tip) within the limits
  of the policy, is never refused by the HSM server, whichever branches built it.
\<close>

theorem swap_never_refused:
  assumes "sdk_layouts s"
    and "parse_pk s (ra_program_id a) = Some (key_of s p)" "p \<in> set CLMM_PROGRAMS"
    and "build_swap_transaction s a intent signer opts = Inr ixs"
    and "ra_accounts a = Some acc" "sa_input_token_account acc = resolve_user_ata s signer (so_input_mint opts)"
      "sa_output_token_account acc = resolve_user_ata s signer (so_output_mint opts)"
    and "case so_jito_tip opts of Some (t, n) \<Rightarrow> t \<in> key_of s ` set JITO_TIP_ACCOUNTS | None \<Rightarrow> True"
    and "so_priority_fee opts \<le> max_cu_price_micro_lamports policy"
      "lamports_out s intent opts \<le> unat (max_transfer_lamports policy)"
    and "compiled_from msg signer ixs"
  shows "policy_check (signer_sdk_of s) msg signer policy = Inr ()"
  by (rule swap_accepted_by_policy [OF assms])

text \<open>A concrete SDK and a plain compiler of messages, which repeats the keys.\<close>

definition example_swap_sdk :: swap_sdk where
  "example_swap_sdk =
     \<lparr> key_of = map of_char, find_pda = (\<lambda>seeds program. concat seeds @ program), sha256 = (\<lambda>b. b),
       parse_pk = (\<lambda>t. Some (map of_char t)),
       sys_transfer = (\<lambda>a b n. \<lparr> ix_program = map of_char SYSTEM_PROGRAM, ix_metas = [meta_new a True, meta_new b False],
                                ix_bytes = [2, 0, 0, 0] @ to_le_bytes 8 n \<rparr>),
       set_cu_limit = (\<lambda>n. \<lparr> ix_program = map of_char COMPUTE_BUDGET_PROGRAM, ix_metas = [], ix_bytes = 2 # to_le_bytes 4 n \<rparr>),
       set_cu_price = (\<lambda>n. \<lparr> ix_program = map of_char COMPUTE_BUDGET_PROGRAM, ix_metas = [], ix_bytes = 3 # to_le_bytes 8 n \<rparr>),
       system_id = map of_char SYSTEM_PROGRAM \<rparr>"

definition ix_keys :: "instr \<Rightarrow> pubkey list" where
  "ix_keys ix = ix_program ix # map am_key (ix_metas ix)"

definition index_in :: "pubkey list \<Rightarrow> pubkey \<Rightarrow> u8" where
  "index_in keys k = of_nat (length (takeWhile (\<lambda>x. x \<noteq> k) keys))"

definition compile_plain :: "pubkey \<Rightarrow> instr list \<Rightarrow> pubkey message" where
  "compile_plain payer ixs =
     (let keys = payer # concat (map ix_keys ixs)
      in \<lparr> account_keys = keys, num_required_signatures = 1,
           instructions = map (\<lambda>ix. \<lparr> program_id_index = index_in keys (ix_program ix),
             ix_accounts = map (\<lambda>m. index_in keys (am_key m)) (ix_metas ix), ix_data = ix_bytes ix \<rparr>) ixs \<rparr>)"

lemma key_at_index:
  assumes "k \<in> set keys" "length keys \<le> 256"
  shows "key_at keys (index_in keys k) = Inr k"
proof -
  let ?n = "length (takeWhile (\<lambda>x. x \<noteq> k) keys)"
  have lt: "?n < length keys" and at: "keys ! ?n = k"
    using assms(1) by (induction keys) auto
  then have "unat (of_nat ?n :: u8) = ?n" using assms(2) by (simp add: unsigned_of_nat take_bit_nat_eq_self_iff)
  then show ?thesis using lt at by (simp add: key_at_def index_in_def get_at_def ok_or_def)
qed

lemma compile_plain_ok:
  assumes "length (account_keys (compile_plain payer ixs)) \<le> 256"
  shows "compiled_from (compile_plain payer ixs) payer ixs"
proof -
  let ?keys = "payer # concat (map ix_keys ixs)"
  have keys: "account_keys (compile_plain payer ixs) = ?keys" by (simp add: compile_plain_def Let_def)
  have mem: "k \<in> set ?keys" if "ix \<in> set ixs" "k \<in> set (ix_keys ix)" for ix k using that by auto
  have at: "key_at ?keys (index_in ?keys k) = Inr k" if "ix \<in> set ixs" "k \<in> set (ix_keys ix)" for ix k
    using key_at_index [OF mem [OF that]] assms unfolding keys by simp
  have "stands_for ?keys \<lparr> program_id_index = index_in ?keys (ix_program ix),
      ix_accounts = map (\<lambda>m. index_in ?keys (am_key m)) (ix_metas ix), ix_data = ix_bytes ix \<rparr> ix" if "ix \<in> set ixs" for ix
    using at [OF that] unfolding stands_for_def
    by (simp add: ix_keys_def try_map_Inr list_all2_conv_all_nth)
  then show ?thesis
    unfolding compiled_from_def keys by (auto simp: compile_plain_def Let_def list_all2_conv_all_nth get_at_def)
qed

lemma example_layouts: "sdk_layouts example_swap_sdk"
  by (simp add: sdk_layouts_def example_swap_sdk_def inj_on_def program_ids_def program_names)

definition example_opts :: swap_tx_options where
  "example_opts =
     \<lparr> so_input_mint = key_of example_swap_sdk NATIVE_MINT, so_output_mint = [7], so_compute_unit_limit = 200000,
       so_priority_fee = 1000, so_close_input = False,
       so_jito_tip = Some (key_of example_swap_sdk (hd JITO_TIP_ACCOUNTS), 10000), so_keep_output_wrapped = False \<rparr>"

definition example_swap_accounts :: swap_accounts where
  "example_swap_accounts =
     \<lparr> sa_amm_config = [11], sa_pool_state = [12],
       sa_input_token_account = resolve_user_ata example_swap_sdk [1] (so_input_mint example_opts),
       sa_output_token_account = resolve_user_ata example_swap_sdk [1] (so_output_mint example_opts),
       sa_input_vault = [13], sa_output_vault = [14], sa_observation_state = [15], sa_tick_array = [16],
       sa_extra_tick_arrays = [[17]], sa_bitmap_extension = Some [18] \<rparr>"

definition example_adapter :: raydium_adapter where
  "example_adapter = with_swap_accounts example_swap_accounts (adapter_new ''pool'')"

definition example_intent :: trade_intent where
  "example_intent =
     \<lparr> ti_quote = \<lparr> q_pool_id = ''pool'', q_input_mint = so_input_mint example_opts, q_output_mint = [7],
         q_input_amount = 50000000, q_expected_output = 1000, q_slippage_bps = 100 \<rparr>,
       ti_min_output = 990, ti_pool_state_hash = [] \<rparr>"

definition example_swap :: "instr list" where
  "example_swap = projr (build_swap_transaction example_swap_sdk example_adapter example_intent [1] example_opts)"

lemmas example_swap_defs = example_swap_def example_adapter_def example_intent_def example_opts_def example_swap_accounts_def
  with_swap_accounts_def adapter_new_def build_swap_transaction_def build_swap_instruction_def

lemma example_swap_built:
  "build_swap_transaction example_swap_sdk example_adapter example_intent [1] example_opts = Inr example_swap"
  by (simp add: example_swap_defs ok_or_def Let_def example_swap_sdk_def)

lemma example_swap_length: "length (account_keys (compile_plain [1] example_swap)) \<le> 256"
  by (simp add: compile_plain_def example_swap_defs ok_or_def Let_def example_swap_sdk_def ix_keys_def
      ray_create_ata_ix_def sync_native_ix_def close_account_ix_def)

theorem swap_never_refused_witness:
  "policy_check (signer_sdk_of example_swap_sdk) (compile_plain [1] example_swap) [1] default_policy = Inr ()"
proof (rule swap_never_refused [OF example_layouts _ _ example_swap_built _ _ _ _ _ _ compile_plain_ok [OF example_swap_length]])
  show "parse_pk example_swap_sdk (ra_program_id example_adapter) = Some (key_of example_swap_sdk RAYDIUM_CLMM_PROGRAM_ID)"
    by (simp add: example_swap_sdk_def example_adapter_def with_swap_accounts_def adapter_new_def)
  show "RAYDIUM_CLMM_PROGRAM_ID \<in> set CLMM_PROGRAMS" by (simp add: RAYDIUM_CLMM_PROGRAM_ID_def CLMM_PROGRAMS_def)
  show "ra_accounts example_adapter = Some example_swap_accounts" by (simp add: example_adapter_def with_swap_accounts_def)
qed (simp_all add: example_swap_accounts_def example_opts_def default_policy_def lamports_out_def example_intent_def
       JITO_TIP_ACCOUNTS_def)

end
