(* ===== verification/Onchain_Risk.thy ===== *)
theory Onchain_Risk
  imports Account_Resolver Float64 Sim_Quote Pumpswap_Ix
begin

text \<open>
  \<open>solana-sniper/src/onchain_risk.rs\<close>: the holder-concentration gate with its caches, the checks of a mint account
  (classic SPL or Token-2022 with metadata only), the cache of revoked mints and the blocklist.  The answers of the RPC node,
  the curve test and the parser of a key are fields of a record; instants are nanoseconds on the monotone clock.
\<close>

section \<open>Holder statistics\<close>

record holder_stats =
  hs_sampled :: u64
  hs_top_pct :: f64
  hs_top20_pct :: f64
  hs_total_supply :: u64
  hs_program_pct :: f64
  hs_identical :: u64

definition MAX_SINGLE_HOLDER_PCT :: f64 where "MAX_SINGLE_HOLDER_PCT = 30"
definition MAX_IDENTICAL_HOLDERS :: u64 where "MAX_IDENTICAL_HOLDERS = 5"
definition MAX_TOP20_HOLDER_PCT :: f64 where "MAX_TOP20_HOLDER_PCT = 70"

datatype holder_verdict =
    HolderOk | SingleHolderConcentrated f64 | TopHoldersConcentrated f64 | IdenticalBalances u64 | Unassessable

definition holder_concentration_verdict :: "holder_stats \<Rightarrow> holder_verdict" where
  "holder_concentration_verdict st =
     (if hs_sampled st = 0 \<or> hs_total_supply st = 0 then Unassessable
      else if MAX_IDENTICAL_HOLDERS \<le> hs_identical st then IdenticalBalances (hs_identical st)
      else if MAX_SINGLE_HOLDER_PCT < hs_top_pct st then SingleHolderConcentrated (hs_top_pct st)
      else if MAX_TOP20_HOLDER_PCT < hs_top20_pct st then TopHoldersConcentrated (hs_top20_pct st)
      else HolderOk)"

datatype holder_error =
    SupplyFetch string | SupplyParse | ZeroSupply | LargestFetch string | AmountParse | BadAddress string
  | AccountsFetch string | NotRetried holder_error nat

record holder_acc =
  ha_sampled :: u64
  ha_top :: u64
  ha_combined :: u64
  ha_program :: u64
  ha_same :: "(u64 \<times> u64) list"  \<comment> \<open>amount and how many accounts hold it\<close>

fun bump_same :: "u64 \<Rightarrow> (u64 \<times> u64) list \<Rightarrow> (u64 \<times> u64) list" where
  "bump_same a [] = [(a, 1)]"
| "bump_same a ((b, n) # rest) = (if a = b then (b, n + 1) # rest else (b, n) # bump_same a rest)"

definition count_holder :: "pubkey list \<Rightarrow> pubkey list \<Rightarrow> pubkey \<Rightarrow> u64 \<Rightarrow> holder_acc \<Rightarrow> holder_acc" where
  "count_holder excludes program_owned key amount acc =
     (if key \<in> set excludes then acc
      else if key \<in> set program_owned then acc\<lparr>ha_program := sat_add (ha_program acc) amount\<rparr>
      else acc\<lparr>ha_sampled := ha_sampled acc + 1,
               ha_same := (if 0 < amount then bump_same amount (ha_same acc) else ha_same acc),
               ha_combined := sat_add (ha_combined acc) amount,
               ha_top := (if ha_top acc < amount then amount else ha_top acc)\<rparr>)"

fun holder_loop ::
    "(string \<Rightarrow> pubkey option) \<Rightarrow> pubkey list \<Rightarrow> pubkey list \<Rightarrow> (string \<times> u64) list \<Rightarrow> holder_acc \<Rightarrow> holder_error + holder_acc" where
  "holder_loop from_str excludes program_owned [] acc = Inr acc"
| "holder_loop from_str excludes program_owned ((address, amount) # entries) acc =
     and_then (ok_or (BadAddress address) (from_str address)) (\<lambda>key.
       holder_loop from_str excludes program_owned entries (count_holder excludes program_owned key amount acc))"

definition no_holders :: holder_acc where
  "no_holders = \<lparr> ha_sampled = 0, ha_top = 0, ha_combined = 0, ha_program = 0, ha_same = [] \<rparr>"

text \<open>The share of the supply in percent, rounded to two decimals.\<close>

definition holder_pct :: "u64 \<Rightarrow> u64 \<Rightarrow> f64" where
  "holder_pct supply amount =
     f64_div (f64_round_int (f64_mul (f64_div (f64_of_nat (unat amount)) (f64_of_nat (unat supply))) 10000)) 100"

definition compute_holder_stats ::
    "(string \<Rightarrow> pubkey option) \<Rightarrow> u64 \<Rightarrow> (string \<times> u64) list \<Rightarrow> pubkey list \<Rightarrow> pubkey list \<Rightarrow> holder_error + holder_stats" where
  "compute_holder_stats from_str supply entries excludes program_owned =
     and_then (holder_loop from_str excludes program_owned entries no_holders) (\<lambda>acc.
     Inr \<lparr> hs_sampled = ha_sampled acc, hs_top_pct = holder_pct supply (ha_top acc),
           hs_top20_pct = holder_pct supply (ha_combined acc), hs_total_supply = supply,
           hs_program_pct = holder_pct supply (ha_program acc),
           hs_identical = fold max (map snd (ha_same acc)) 0 \<rparr>)"

section \<open>Reading the holders\<close>

record holder_rpc =
  token_supply :: "pubkey \<Rightarrow> string + string"
  largest_accounts :: "pubkey \<Rightarrow> string + (string \<times> string) list"
  multiple_accounts :: "pubkey list \<Rightarrow> string + bytes option list"
  account_of :: "pubkey \<Rightarrow> string + raw_account"
  vault_balance_of :: "pubkey \<Rightarrow> string + string"
  from_str :: "string \<Rightarrow> pubkey option"
  curve_point :: "pubkey \<Rightarrow> bool"

definition map_err :: "('e \<Rightarrow> 'f) \<Rightarrow> 'e + 'a \<Rightarrow> 'f + 'a" where
  "map_err f r = (case r of Inl e \<Rightarrow> Inl (f e) | Inr x \<Rightarrow> Inr x)"

lemma map_err_Inr [simp, ok_iff]: "map_err f r = Inr x \<longleftrightarrow> r = Inr x"
  by (cases r) (simp_all add: map_err_def)

definition fetch_vault_liquidity :: "holder_rpc \<Rightarrow> pubkey \<Rightarrow> string option + u64" where
  "fetch_vault_liquidity rpc vault = and_then (map_err Some (vault_balance_of rpc vault)) (\<lambda>s. ok_or None (parse_u64 s))"

definition token_account_owner :: "bytes \<Rightarrow> pubkey option" where
  "token_account_owner data = get_range 32 64 data"

definition program_owned_of :: "(pubkey \<Rightarrow> bool) \<Rightarrow> pubkey list \<Rightarrow> bytes option list \<Rightarrow> pubkey list" where
  "program_owned_of on_curve addrs accounts =
     map fst (filter (\<lambda>(_, acc). case Option.bind acc token_account_owner of Some owner \<Rightarrow> \<not> on_curve owner | None \<Rightarrow> False)
                (zip addrs accounts))"

definition fetch_holder_stats :: "holder_rpc \<Rightarrow> pubkey \<Rightarrow> pubkey list \<Rightarrow> holder_error + holder_stats" where
  "fetch_holder_stats rpc mint excludes =
     and_then (map_err SupplyFetch (token_supply rpc mint)) (\<lambda>text.
     and_then (ok_or SupplyParse (parse_u64 text)) (\<lambda>supply.
     and_then (ensure (supply \<noteq> 0) ZeroSupply) (\<lambda>_.
     and_then (map_err LargestFetch (largest_accounts rpc mint)) (\<lambda>largest.
     and_then (try_map (\<lambda>(a, s). and_then (ok_or AmountParse (parse_u64 s)) (\<lambda>n. Inr (a, n))) largest) (\<lambda>entries.
     and_then (try_map (\<lambda>(a, _). ok_or (BadAddress a) (from_str rpc a)) entries) (\<lambda>addrs.
     and_then (map_err AccountsFetch (multiple_accounts rpc addrs)) (\<lambda>accounts.
     compute_holder_stats (from_str rpc) supply entries excludes
       (program_owned_of (curve_point rpc) addrs accounts))))))))"

definition HOLDER_STATS_TTL :: nat where "HOLDER_STATS_TTL = 60000000000"
definition HOLDER_STATS_ERROR_BACKOFF :: nat where "HOLDER_STATS_ERROR_BACKOFF = 30000000000"

text \<open>The two process-wide maps.\<close>

record holder_caches =
  hc_stats :: "pubkey \<rightharpoonup> nat \<times> holder_stats"
  hc_errors :: "pubkey \<rightharpoonup> nat \<times> holder_error"

definition recent_holder_error :: "(pubkey \<rightharpoonup> nat \<times> holder_error) \<Rightarrow> pubkey \<Rightarrow> nat \<Rightarrow> holder_error option" where
  "recent_holder_error errors mint now =
     Option.bind (errors mint) (\<lambda>(t, e).
       let age = now - t
       in if age < HOLDER_STATS_ERROR_BACKOFF then Some (NotRetried e ((HOLDER_STATS_ERROR_BACKOFF - age) div 1000000000)) else None)"

definition fresh_holder_stats :: "(pubkey \<rightharpoonup> nat \<times> holder_stats) \<Rightarrow> pubkey \<Rightarrow> nat \<Rightarrow> holder_stats option" where
  "fresh_holder_stats stats mint now =
     Option.bind (stats mint) (\<lambda>(t, st). if now - t < HOLDER_STATS_TTL then Some st else None)"

definition fetch_holder_stats_cached ::
    "holder_rpc \<Rightarrow> nat \<Rightarrow> pubkey \<Rightarrow> pubkey list \<Rightarrow> holder_caches \<Rightarrow> (holder_error + holder_stats) \<times> holder_caches" where
  "fetch_holder_stats_cached rpc now mint excludes caches =
     (case fresh_holder_stats (hc_stats caches) mint now of
        Some st \<Rightarrow> (Inr st, caches)
      | None \<Rightarrow>
        (case recent_holder_error (hc_errors caches) mint now of
           Some e \<Rightarrow> (Inl e, caches)
         | None \<Rightarrow>
           (case fetch_holder_stats rpc mint excludes of
              Inl e \<Rightarrow>
                let errors = (if 1000 \<le> card (dom (hc_errors caches)) then Map.empty else hc_errors caches)
                in (Inl e, caches\<lparr>hc_errors := errors(mint \<mapsto> (now, e))\<rparr>)
            | Inr st \<Rightarrow>
                (Inr st, caches\<lparr>hc_errors := (hc_errors caches)(mint := None),
                                hc_stats := (hc_stats caches)(mint \<mapsto> (now, st))\<rparr>))))"

definition simulation_holder ::
    "clmm_sdk \<Rightarrow> (pubkey \<Rightarrow> bool) \<Rightarrow> pubkey \<Rightarrow> u64 \<Rightarrow> pubkey \<times> bytes option \<Rightarrow> pubkey option" where
  "simulation_holder sdk on_curve mint min_amount = (\<lambda>(addr, data).
     Option.bind data (\<lambda>d.
     Option.bind (token_account_owner d) (\<lambda>owner.
     Option.bind (token_amount d) (\<lambda>amount.
     if on_curve owner \<and> min_amount \<le> amount \<and> addr = resolve_user_ata sdk owner mint then Some owner else None))))"

definition pick_simulation_holder ::
    "clmm_sdk \<Rightarrow> (pubkey \<Rightarrow> bool) \<Rightarrow> pubkey \<Rightarrow> (pubkey \<times> bytes option) list \<Rightarrow> u64 \<Rightarrow> pubkey option" where
  "pick_simulation_holder sdk on_curve mint accounts min_amount =
     find_map (simulation_holder sdk on_curve mint min_amount) accounts"

definition find_simulation_holder :: "clmm_sdk \<Rightarrow> holder_rpc \<Rightarrow> pubkey \<Rightarrow> u64 \<Rightarrow> holder_error + pubkey option" where
  "find_simulation_holder sdk rpc mint min_amount =
     and_then (map_err LargestFetch (largest_accounts rpc mint)) (\<lambda>largest.
     let addrs = List.map_filter (\<lambda>(a, _). from_str rpc a) largest in
     and_then (map_err AccountsFetch (multiple_accounts rpc addrs)) (\<lambda>accs.
     Inr (pick_simulation_holder sdk (curve_point rpc) mint (zip addrs accs) min_amount)))"

section \<open>Mint accounts\<close>

record mint_authority_risk =
  mint_authority_present :: bool
  freeze_authority_present :: bool

definition is_risky :: "mint_authority_risk \<Rightarrow> bool" where
  "is_risky r \<longleftrightarrow> mint_authority_present r \<or> freeze_authority_present r"

datatype token_policy = ClassicOnly | PaperToken2022

definition T22_ALLOWED_EXTENSIONS :: "u16 list" where "T22_ALLOWED_EXTENSIONS = [18, 19]"
definition T22_BASE_LEN :: nat where "T22_BASE_LEN = 165"
definition T22_ACCOUNT_TYPE_MINT :: u8 where "T22_ACCOUNT_TYPE_MINT = 1"

datatype t22_error =
    T22Length | T22Padding | T22AccountType | T22Header | T22AfterEmpty | T22ExtensionLength
  | T22Extension string u16

datatype mint_error =
    MintFetch string | NotAMint nat | Token2022 t22_error | UnsupportedOwner | NotInitialized | BadAuthorityOption

definition t22_extension_name :: "u16 \<Rightarrow> string" where
  "t22_extension_name ty =
     (case map_of [(1, ''TransferFeeConfig''), (3, ''MintCloseAuthority''), (4, ''ConfidentialTransferMint''),
         (6, ''DefaultAccountState''), (9, ''NonTransferable''), (10, ''InterestBearingConfig''),
         (12, ''PermanentDelegate''), (14, ''TransferHook''), (16, ''ConfidentialTransferFeeConfig''),
         (18, ''MetadataPointer''), (19, ''TokenMetadata''), (20, ''GroupPointer''), (21, ''TokenGroup''),
         (22, ''GroupMemberPointer''), (23, ''TokenGroupMember''), (24, ''ConfidentialMintBurn''),
         (25, ''ScaledUiAmount''), (26, ''Pausable'')] ty of
        Some name \<Rightarrow> name | None \<Rightarrow> ''unknown'')"

text \<open>The loop over the extension list; its argument is what is left of the data.\<close>

function ext_loop :: "bytes \<Rightarrow> t22_error + unit" where
  "ext_loop rest =
     (if rest = [] then Inr ()
      else if length rest < 4 then Inl T22Header
      else
        let ty = u16_at rest 0; len = unat (u16_at rest 2)
        in if ty = 0 then (if list_all (\<lambda>b. b = 0) rest then Inr () else Inl T22AfterEmpty)
           else if ty \<notin> set T22_ALLOWED_EXTENSIONS then Inl (T22Extension (t22_extension_name ty) ty)
           else if length rest < 4 + len then Inl T22ExtensionLength
           else ext_loop (drop (4 + len) rest))"
  by pat_completeness auto
termination by (relation "measure length") auto

declare ext_loop.simps [simp del]

definition check_token_2022_extensions :: "bytes \<Rightarrow> t22_error + unit" where
  "check_token_2022_extensions data =
     (if length data = 82 then Inr ()
      else if length data \<le> T22_BASE_LEN then Inl T22Length
      else if \<not> list_all (\<lambda>b. b = 0) (take (T22_BASE_LEN - 82) (drop 82 data)) then Inl T22Padding
      else if data ! T22_BASE_LEN \<noteq> T22_ACCOUNT_TYPE_MINT then Inl T22AccountType
      else ext_loop (drop (T22_BASE_LEN + 1) data))"

definition classify_mint :: "'a solana_sdk_scheme \<Rightarrow> pubkey \<Rightarrow> bytes \<Rightarrow> token_policy \<Rightarrow> mint_error + mint_authority_risk" where
  "classify_mint sdk owner data policy =
     and_then (if owner = key_of sdk SPL_TOKEN_PROGRAM then ensure (length data = 82) (NotAMint (length data))
               else if owner = key_of sdk TOKEN_2022_PROGRAM \<and> policy = PaperToken2022
               then map_err Token2022 (check_token_2022_extensions data)
               else Inl UnsupportedOwner) (\<lambda>_.
     and_then (ensure (data ! 45 = 1) NotInitialized) (\<lambda>_.
     let mint_tag = u32_at data 0; freeze_tag = u32_at data 46 in
     and_then (ensure (\<not> (1 < mint_tag \<or> 1 < freeze_tag)) BadAuthorityOption) (\<lambda>_.
     Inr \<lparr> mint_authority_present = (mint_tag \<noteq> 0), freeze_authority_present = (freeze_tag \<noteq> 0) \<rparr>)))"

definition fetch_mint_authority_risk ::
    "'a solana_sdk_scheme \<Rightarrow> holder_rpc \<Rightarrow> pubkey \<Rightarrow> token_policy \<Rightarrow> mint_error + mint_authority_risk" where
  "fetch_mint_authority_risk sdk rpc mint policy =
     and_then (map_err MintFetch (account_of rpc mint)) (\<lambda>(owner, data). classify_mint sdk owner data policy)"

type_synonym revoked_mints = "(pubkey \<times> token_policy) set"

definition REVOKED_MAX :: nat where "REVOKED_MAX = 10000"

definition revoked_contains :: "pubkey \<Rightarrow> token_policy \<Rightarrow> revoked_mints \<Rightarrow> bool" where
  "revoked_contains mint policy s \<longleftrightarrow> (mint, policy) \<in> s"

definition revoked_record :: "pubkey \<Rightarrow> token_policy \<Rightarrow> mint_authority_risk \<Rightarrow> revoked_mints \<Rightarrow> revoked_mints" where
  "revoked_record mint policy risk s =
     (if is_risky risk then s
      else insert (mint, policy) (if REVOKED_MAX \<le> card s then {} else s))"

definition fetch_mint_authority_risk_cached ::
    "'a solana_sdk_scheme \<Rightarrow> holder_rpc \<Rightarrow> pubkey \<Rightarrow> token_policy \<Rightarrow> revoked_mints
       \<Rightarrow> (mint_error + mint_authority_risk) \<times> revoked_mints" where
  "fetch_mint_authority_risk_cached sdk rpc mint policy s =
     (if revoked_contains mint policy s
      then (Inr \<lparr> mint_authority_present = False, freeze_authority_present = False \<rparr>, s)
      else case fetch_mint_authority_risk sdk rpc mint policy of
             Inl e \<Rightarrow> (Inl e, s)
           | Inr risk \<Rightarrow> (Inr risk, revoked_record mint policy risk s))"

section \<open>The blocklist\<close>

datatype blocklist_error = BlocklistRead string | BlocklistLine nat

text \<open>The file is \<open>None\<close> when it does not exist; \<open>n\<close> is the number of the next line.\<close>

fun blocklist_lines :: "(string \<Rightarrow> pubkey option) \<Rightarrow> nat \<Rightarrow> string list \<Rightarrow> pubkey set \<Rightarrow> blocklist_error + pubkey set" where
  "blocklist_lines parse n [] acc = Inr acc"
| "blocklist_lines parse n (l # ls) acc =
     (let line = trim l
      in if line = [] \<or> hd line = CHR ''#'' then blocklist_lines parse (n + 1) ls acc
         else and_then (ok_or (BlocklistLine n) (parse line)) (\<lambda>k. blocklist_lines parse (n + 1) ls (insert k acc)))"

definition load_blocklist :: "(string \<Rightarrow> pubkey option) \<Rightarrow> (string + string) option \<Rightarrow> blocklist_error + pubkey set" where
  "load_blocklist parse file =
     (case file of
        None \<Rightarrow> Inr {}
      | Some contents \<Rightarrow>
          and_then (map_err BlocklistRead contents) (\<lambda>text. blocklist_lines parse 1 (split_on (CHR ''\<newline>'') text) {}))"

section \<open>What the holder gate lets through\<close>

lemma holder_pct_bound:
  assumes "holder_pct supply a \<le> of_nat L" "0 < supply" "L \<le> 100"
  shows "100000 * unat a \<le> (1000 * L + 6) * unat supply"
proof -
  define e where "e = f64_eps"
  have e: "0 < e" "e < 1 / 10 ^ 9" by (simp_all add: e_def f64_eps_def)
  then have e1: "0 < 1 - e" "0 < 1 + e" "0 < 1 - 3 * e" by auto
  define A T where "A = f64_of_nat (unat a)" and "T = f64_of_nat (unat supply)"
  define q where "q = f64_div A T"
  define y where "y = f64_mul q 10000"
  define k where "k = \<lfloor>y + 1 / 2\<rfloor>"
  have pos: "0 < (of_nat (unat supply) :: rat)" using assms(2) by (simp add: unat_gt_0)
  have A: "of_nat (unat a) * (1 - e) \<le> A" using f64_round_bounds(1) unfolding A_def f64_of_nat_def e_def by simp
  have T: "T \<le> of_nat (unat supply) * (1 + e)" "of_nat (unat supply) * (1 - e) \<le> T"
    using f64_round_bounds unfolding T_def f64_of_nat_def e_def by simp_all
  have T0: "0 < T" using T(2) mult_pos_pos [OF pos e1(1)] by linarith
  have A0: "0 \<le> A" unfolding A_def f64_of_nat_def by (simp add: f64_round_nonneg)
  have q: "A / T * (1 - e) \<le> q" using f64_round_bounds(1) [of "A / T"] A0 T0 unfolding q_def f64_div_def e_def by simp
  have q0: "0 \<le> q" using A0 T0 unfolding q_def f64_div_def by (simp add: f64_round_nonneg)
  have y: "q * 10000 * (1 - e) \<le> y" using f64_round_bounds(1) [of "q * 10000"] q0 unfolding y_def f64_mul_def e_def by simp
  have y0: "0 \<le> y" using q0 unfolding y_def f64_mul_def by (simp add: f64_round_nonneg)
  have pct: "holder_pct supply a = f64_round (of_int k / 100)"
    using y0 unfolding holder_pct_def f64_round_int_def k_def y_def q_def A_def T_def by (simp add: f64_div_def)
  have k0: "0 \<le> k" using y0 by (simp add: k_def)
  have kr: "of_int k / 100 * (1 - e) \<le> (of_nat L :: rat)"
    using f64_round_bounds(1) [of "of_int k / 100"] k0 assms(1) unfolding pct e_def by simp
  have kb: "k \<le> 100 * int L"
  proof (rule ccontr)
    assume "\<not> k \<le> 100 * int L"
    then have "100 * int L + 1 \<le> k" by simp
    then have "of_int (100 * int L + 1) \<le> (of_int k :: rat)" by (simp only: of_int_le_iff)
    then have "100 * of_nat L + 1 \<le> (of_int k :: rat)" by simp
    then have "(of_nat L + 1 / 100) * (1 - e) \<le> of_int k / 100 * (1 - e)" using e by (intro mult_right_mono) auto
    then have "(of_nat L + 1 / 100) * (1 - e) \<le> (of_nat L :: rat)" using kr by (rule order.trans)
    then have "1 / 100 \<le> (of_nat L + 1 / 100) * e" by (simp add: algebra_simps)
    also have "\<dots> \<le> 101 * e" using assms(3) e by (intro mult_right_mono) simp_all
    finally show False using e(2) by simp
  qed
  define s n where "s = (of_nat (unat supply) :: rat)" and "n = (of_nat (unat a) :: rat)"
  have s: "0 < s" using pos by (simp add: s_def)
  have "of_int k \<le> (of_int (100 * int L) :: rat)" using kb by (simp only: of_int_le_iff)
  then have "of_int k \<le> (100 * of_nat L :: rat)" by simp
  then have yb: "y < 100 * of_nat L + 1 / 2" unfolding k_def by linarith
  have "n * (1 - e) * (1 - e) \<le> A * (1 - e)" using A e1 unfolding n_def by (intro mult_right_mono) auto
  also have "\<dots> \<le> q * T" using q T0 by (simp add: field_simps)
  also have "\<dots> \<le> q * (s * (1 + e))" using T(1) q0 unfolding s_def by (rule mult_left_mono)
  finally have "n * (1 - e) * (1 - e) * (1 - e) \<le> q * (s * (1 + e)) * (1 - e)" using e1 by (intro mult_right_mono) auto
  then have "10000 * (n * (1 - e) * (1 - e) * (1 - e)) \<le> 10000 * (q * (s * (1 + e)) * (1 - e))"
    by (rule mult_left_mono) simp
  also have "\<dots> = (q * 10000 * (1 - e)) * (s * (1 + e))" by (simp only: ac_simps)
  also have "\<dots> \<le> y * (s * (1 + e))" using y s e1 by (intro mult_right_mono) auto
  also have "\<dots> \<le> (100 * of_nat L + 1 / 2) * (s * (1 + e))" using yb s e1 by (intro mult_right_mono) auto
  finally have main: "10000 * (n * (1 - e) ^ 3) \<le> (100 * of_nat L + 1 / 2) * (s * (1 + e))"
    by (simp only: power3_eq_cube mult.assoc)
  have c: "1 - 3 * e \<le> (1 - e) ^ 3"
    using e by (simp add: power3_eq_cube algebra_simps)
  have "100000 * (n * (1 - 3 * e)) \<le> 10 * (10000 * (n * (1 - e) ^ 3))"
    using mult_left_mono [OF c, of n] by (simp add: n_def)
  also have "\<dots> \<le> 10 * ((100 * of_nat L + 1 / 2) * (s * (1 + e)))" using main by (rule mult_left_mono) simp
  also have "\<dots> = (1000 * of_nat L + 5) * (1 + e) * s" by (simp add: algebra_simps)
  also have "\<dots> \<le> (1000 * of_nat L + 6) * (1 - 3 * e) * s"
  proof (rule mult_right_mono)
    have "(of_nat L :: rat) * e \<le> 100 * e" using assms(3) e by (intro mult_right_mono) simp_all
    then have "4000 * (of_nat L * e) + 23 * e \<le> 1" using e(2) by simp
    then show "(1000 * of_nat L + 5) * (1 + e) \<le> (1000 * of_nat L + 6) * (1 - 3 * e)" by (simp add: algebra_simps)
  qed (use s in simp)
  finally have "(100000 * n) * (1 - 3 * e) \<le> ((1000 * of_nat L + 6) * s) * (1 - 3 * e)" by (simp add: algebra_simps)
  then have "100000 * n \<le> (1000 * of_nat L + 6) * s" using e1(3) by (rule mult_right_le_imp_le)
  then have "(of_nat (100000 * unat a) :: rat) \<le> of_nat ((1000 * L + 6) * unat supply)" by (simp add: n_def s_def)
  then show ?thesis by (simp only: of_nat_le_iff)
qed

text \<open>The amounts of the accounts that count as holders.\<close>

definition is_counted :: "(string \<Rightarrow> pubkey option) \<Rightarrow> pubkey list \<Rightarrow> pubkey list \<Rightarrow> string \<Rightarrow> bool" where
  "is_counted parse excludes program_owned a =
     (case parse a of Some k \<Rightarrow> k \<notin> set excludes \<and> k \<notin> set program_owned | None \<Rightarrow> False)"

definition counted_amounts ::
    "(string \<Rightarrow> pubkey option) \<Rightarrow> pubkey list \<Rightarrow> pubkey list \<Rightarrow> (string \<times> u64) list \<Rightarrow> u64 list" where
  "counted_amounts parse excludes program_owned entries =
     map snd (filter (\<lambda>(a, _). is_counted parse excludes program_owned a) entries)"

definition times_held :: "u64 \<Rightarrow> (u64 \<times> u64) list \<Rightarrow> nat" where
  "times_held a same = (case map_of same a of Some n \<Rightarrow> unat n | None \<Rightarrow> 0)"

lemma times_held_bump:
  "times_held a same + 1 < 2 ^ 64 \<Longrightarrow> times_held a (bump_same b same) = times_held a same + (if a = b then 1 else 0)"
  by (induction b same rule: bump_same.induct) (auto simp: times_held_def unat_add_small)

lemma fold_max_ge: "y \<in> set (x # xs) \<Longrightarrow> y \<le> fold max xs (x :: 'a::linorder)"
  by (simp flip: Max.set_eq_fold)

lemma times_held_max: "times_held a same \<le> unat (fold max (map snd same) (0 :: u64))"
proof (cases "map_of same a")
  case (Some n)
  then have "n \<in> set (0 # map snd same)" by (force dest: map_of_SomeD)
  from fold_max_ge [OF this] show ?thesis using Some by (simp add: times_held_def word_le_nat_alt)
qed (simp add: times_held_def)

text \<open>What one account does to the counters.\<close>

lemma count_holder_step:
  fixes excludes program_owned :: "pubkey list" and amount :: u64 and acc :: holder_acc
  assumes "parse address = Some key"
  defines "counted \<equiv> is_counted parse excludes program_owned address"
    and "acc' \<equiv> count_holder excludes program_owned key amount acc"
  shows "ha_sampled acc' = (if counted then ha_sampled acc + 1 else ha_sampled acc)"
    and "ha_combined acc' = (if counted then sat_add (ha_combined acc) amount else ha_combined acc)"
    and "ha_top acc' = (if counted then max (ha_top acc) amount else ha_top acc)"
    and "ha_same acc' = (if counted \<and> 0 < amount then bump_same amount (ha_same acc) else ha_same acc)"
  unfolding counted_def acc'_def using assms(1) by (auto simp: count_holder_def is_counted_def max_def)

lemma holder_loop_counts:
  assumes "holder_loop parse excludes program_owned entries acc = Inr acc'"
    and "unat (ha_sampled acc) + length entries < 2 ^ 64" "times_held a (ha_same acc) + length entries < 2 ^ 64"
  shows "unat (ha_sampled acc') = unat (ha_sampled acc) + length (counted_amounts parse excludes program_owned entries)
    \<and> (0 < a \<longrightarrow> times_held a (ha_same acc')
         = times_held a (ha_same acc) + count_list (counted_amounts parse excludes program_owned entries) a)"
  using assms
proof (induction parse excludes program_owned entries acc rule: holder_loop.induct)
  case (2 parse excludes program_owned address amount entries acc)
  then obtain key where key: "parse address = Some key"
    and rest: "holder_loop parse excludes program_owned entries (count_holder excludes program_owned key amount acc) = Inr acc'"
    by (auto simp: ok_iff)
  let ?acc = "count_holder excludes program_owned key amount acc"
  have s: "unat (ha_sampled ?acc) = unat (ha_sampled acc) + (if is_counted parse excludes program_owned address then 1 else 0)"
    using 2(3) by (simp add: count_holder_step [of parse address, OF key] unat_add_small)
  have h: "times_held a (ha_same ?acc) = times_held a (ha_same acc)
      + (if is_counted parse excludes program_owned address \<and> 0 < amount \<and> a = amount then 1 else 0)"
    using times_held_bump [of a "ha_same acc" amount] 2(4)
    by (cases "a = amount") (auto simp: count_holder_step [of parse address, OF key])
  have "unat (ha_sampled ?acc) + length entries < 2 ^ 64" "times_held a (ha_same ?acc) + length entries < 2 ^ 64"
    using s h 2(3,4) by (auto split: if_splits)
  from "2.IH" [of key, OF rest this] show ?case
    unfolding s h by (auto simp: counted_amounts_def)
qed (simp add: counted_amounts_def)

lemma holder_loop_amounts:
  assumes "holder_loop parse excludes program_owned entries acc = Inr acc'"
  defines "C \<equiv> counted_amounts parse excludes program_owned entries"
  shows "unat (ha_combined acc') = min (2 ^ 64 - 1) (unat (ha_combined acc) + sum_list (map unat C))
    \<and> ha_top acc \<le> ha_top acc' \<and> (\<forall>a \<in> set C. a \<le> ha_top acc')"
  using assms(1) unfolding C_def
proof (induction parse excludes program_owned entries acc rule: holder_loop.induct)
  case (1 parse excludes program_owned acc)
  then show ?case using u64_le_max [of "ha_combined acc"] by (simp add: counted_amounts_def min_absorb2)
next
  case (2 parse excludes program_owned address amount entries acc)
  then obtain key where key: "parse address = Some key"
    and rest: "holder_loop parse excludes program_owned entries (count_holder excludes program_owned key amount acc) = Inr acc'"
    by (auto simp: ok_iff)
  note IH = "2.IH" [of key, OF rest]
  show ?case
    using IH by (auto simp: count_holder_step [of parse address, OF key] counted_amounts_def unat_sat_add split: if_splits)
qed

text \<open>
  A token the holder gate lets through is spread out: at least one wallet holds it; with the pool and program accounts left out, no
  sampled wallet holds more than 30.006 percent of the supply, all of them together no more than 70.006 percent
  (the two roundings of the percentage included, and no saturated sum passes), and fewer than five of them hold the same
  positive amount.
\<close>

theorem holder_gate_sound:
  assumes "compute_holder_stats parse supply entries excludes program_owned = Inr st"
    and "holder_concentration_verdict st = HolderOk" "length entries < 2 ^ 64"
  defines "C \<equiv> counted_amounts parse excludes program_owned entries"
  shows "C \<noteq> [] \<and> 100000 * sum_list (map unat C) \<le> 70006 * unat supply
    \<and> list_all (\<lambda>a. 100000 * unat a \<le> 30006 * unat supply \<and> (if 0 < a then count_list C a < 5 else True)) C"
proof -
  obtain acc where loop: "holder_loop parse excludes program_owned entries no_holders = Inr acc"
    and st: "st = \<lparr> hs_sampled = ha_sampled acc, hs_top_pct = holder_pct supply (ha_top acc),
           hs_top20_pct = holder_pct supply (ha_combined acc), hs_total_supply = supply,
           hs_program_pct = holder_pct supply (ha_program acc), hs_identical = fold max (map snd (ha_same acc)) 0 \<rparr>"
    using assms(1) by (auto simp: compute_holder_stats_def ok_iff)
  have ok: "ha_sampled acc \<noteq> 0" "0 < supply" "fold max (map snd (ha_same acc)) 0 < 5"
    "holder_pct supply (ha_top acc) \<le> of_nat 30" "holder_pct supply (ha_combined acc) \<le> of_nat 70"
    using assms(2) unfolding st
    by (simp_all add: holder_concentration_verdict_def MAX_IDENTICAL_HOLDERS_def MAX_SINGLE_HOLDER_PCT_def
        MAX_TOP20_HOLDER_PCT_def not_le word_gt_0 split: if_splits)
  have start: "unat (ha_sampled no_holders) + length entries < 2 ^ 64"
    "times_held a (ha_same no_holders) + length entries < 2 ^ 64" for a
    using assms(3) by (simp_all add: no_holders_def times_held_def)
  note counts = holder_loop_counts [OF loop start]
  note amounts = holder_loop_amounts [OF loop]
  have "C \<noteq> []" using counts ok(1) unfolding C_def by (auto simp: no_holders_def unat_eq_0 simp flip: unat_gt_0)
  moreover have "100000 * sum_list (map unat C) \<le> 70006 * unat supply"
    using holder_pct_bound [OF ok(5,2)] amounts u64_le_max [of "supply"]
    unfolding C_def by (simp add: no_holders_def min_def split: if_splits)
  moreover have "100000 * unat a \<le> 30006 * unat supply" if "a \<in> set C" for a
  proof -
    have "unat a \<le> unat (ha_top acc)" using amounts that unfolding C_def by (simp add: word_le_nat_alt)
    then show ?thesis using holder_pct_bound [OF ok(4,2)] by simp
  qed
  moreover have "count_list C a < 5" if "0 < a" for a
  proof -
    have "times_held a (ha_same acc) = count_list C a"
      using counts [of a] that unfolding C_def by (simp add: no_holders_def times_held_def)
    then show ?thesis using times_held_max [of a "ha_same acc"] ok(3) by (simp add: word_less_nat_alt)
  qed
  ultimately show ?thesis by (simp add: list_all_iff)
qed

lemma pct_quarter: "holder_pct 64 16 = 25"
proof -
  have "f64_of_nat (unat (16 :: u64)) = 16" "f64_of_nat (unat (64 :: u64)) = 64"
    using f64_round_numeral [of "Num.Bit0 (Num.Bit0 (Num.Bit0 (Num.Bit0 Num.One)))"] f64_round_exact [of 1 6]
    by (simp_all add: f64_of_nat_def)
  moreover have q: "f64_round (1 / 4) = 1 / 4" using f64_round_dyadic [of Num.One 2] by simp
  moreover have "\<lfloor>5001 / 2 :: rat\<rfloor> = 2500" by (simp add: floor_eq_iff)
  ultimately show ?thesis
    using f64_round_exact [of 2500 0] f64_round_exact [of 25 0]
    by (simp add: holder_pct_def f64_div_def f64_mul_def f64_round_int_def q)
qed

definition example_entries :: "(string \<times> u64) list" where
  "example_entries = [(''pool'', 48), (''alice'', 16)]"

definition example_parse :: "string \<Rightarrow> pubkey option" where
  "example_parse s = Some (map of_char s)"

lemma example_stats:
  "\<exists>st. compute_holder_stats example_parse 64 example_entries [map of_char ''pool''] [] = Inr st
     \<and> holder_concentration_verdict st = HolderOk"
  by (simp add: compute_holder_stats_def example_entries_def example_parse_def ok_or_def count_holder_def no_holders_def sat_add_def
      word_le_nat_alt
      pct_quarter holder_concentration_verdict_def MAX_IDENTICAL_HOLDERS_def MAX_SINGLE_HOLDER_PCT_def MAX_TOP20_HOLDER_PCT_def)

theorem holder_gate_sound_witness:
  "100000 * sum_list (map unat (counted_amounts example_parse [map of_char ''pool''] [] example_entries)) \<le> 70006 * unat (64 :: u64)"
proof -
  obtain st where "compute_holder_stats example_parse 64 example_entries [map of_char ''pool''] [] = Inr st"
    "holder_concentration_verdict st = HolderOk" using example_stats by blast
  from holder_gate_sound [OF this] show ?thesis by (simp add: example_entries_def)
qed

section \<open>What the extension check accepts\<close>

text \<open>A Token-2022 extension as the program writes it: type, length, value.\<close>

definition ext_bytes :: "u16 \<times> bytes \<Rightarrow> bytes" where
  "ext_bytes = (\<lambda>(ty, v). to_le_bytes 2 ty @ to_le_bytes 2 (of_nat (length v) :: u16) @ v)"

definition ext_ok :: "u16 \<times> bytes \<Rightarrow> bool" where
  "ext_ok = (\<lambda>(ty, v). (ty = 18 \<or> ty = 19) \<and> length v < 2 ^ 16)"

lemma unat_of_nat_lt: "n < 2 ^ LENGTH('a) \<Longrightarrow> unat (of_nat n :: 'a::len word) = n"
  by (simp add: unsigned_of_nat take_bit_nat_eq_self_iff)

lemma of_nat_unat_same: "of_nat (unat w) = (w :: 'a::len word)"
  by (rule word_unat_eq_iff [THEN iffD2]) (simp add: unat_of_nat_lt)

lemma to_from_le2: "length b = 2 \<Longrightarrow> to_le_bytes 2 (from_le_bytes b :: u16) = b"
proof -
  assume "length b = 2"
  then obtain x y where b: "b = [x, y]" by (auto simp: numeral_2_eq_2 length_Suc_conv)
  have xy: "unat x < 256" "unat y < 256" using unsigned_less [of x, where 'a = nat] unsigned_less [of y, where 'a = nat] by simp_all
  have "le_nat b = unat x + 256 * unat y" by (simp add: b)
  moreover have "\<dots> < 2 ^ LENGTH(16)" using xy by simp
  ultimately have "unat (from_le_bytes b :: u16) = unat x + 256 * unat y"
    by (simp only: from_le_bytes_def unat_of_nat_lt)
  then show ?thesis
    using xy by (simp add: to_le_bytes_def b upt_rec of_nat_unat_same)
qed

lemma u16_at_bytes: "u16_at (to_le_bytes 2 x @ rest) 0 = x"
  by (simp add: u16_at_def from_to_le_bytes)

lemma ext_loop_encoded:
  "list_all ext_ok exts \<Longrightarrow> pad = 0 \<or> 4 \<le> pad \<Longrightarrow> ext_loop (concat (map ext_bytes exts) @ replicate pad 0) = Inr ()"
proof (induction exts)
  case Nil
  then show ?case
    by (auto simp: ext_loop.simps u16_at_def from_le_bytes_def list_all_iff take_replicate Let_def numeral_2_eq_2)
next
  case (Cons e exts)
  obtain ty v where e: "e = (ty, v)" by (cases e)
  have ok: "ty = 18 \<or> ty = 19" "length v < 2 ^ 16" using Cons.prems(1) e by (simp_all add: ext_ok_def)
  let ?rest = "concat (map ext_bytes exts) @ replicate pad 0"
  let ?d = "to_le_bytes 2 ty @ to_le_bytes 2 (of_nat (length v) :: u16) @ v @ ?rest"
  have at0: "u16_at ?d 0 = ty" by (rule u16_at_bytes)
  have "u16_at ?d 2 = u16_at (to_le_bytes 2 (of_nat (length v) :: u16) @ v @ ?rest) 0" by (subst at_skip(2)) simp_all
  then have "u16_at ?d 2 = of_nat (length v)" by (simp only: u16_at_bytes)
  then have at2: "unat (u16_at ?d 2) = length v"
    using ok(2) by (simp add: unat_of_nat_lt)
  have "0 < length ?d" by simp
  then have long: "?d \<noteq> []" by (simp only: length_greater_0_conv not_False_eq_True)
  have more: "\<not> length ?d < 4" "\<not> length ?d < 4 + length v" by simp_all
  have "ext_loop ?d = ext_loop (drop (4 + length v) ?d)"
    using ok(1) by (subst ext_loop.simps) (simp only: Let_def at0 at2 long more if_False if_True not_False_eq_True, auto simp: T22_ALLOWED_EXTENSIONS_def)
  also have "drop (4 + length v) ?d = ?rest" by simp
  also have "ext_loop ?rest = Inr ()" using Cons by simp
  finally show ?case by (simp add: e ext_bytes_def)
qed

lemma ext_loop_decodes:
  "ext_loop rest = Inr () \<Longrightarrow>
     \<exists>exts pad. rest = concat (map ext_bytes exts) @ replicate pad 0 \<and> list_all ext_ok exts \<and> (pad = 0 \<or> 4 \<le> pad)"
proof (induction rest rule: ext_loop.induct)
  case (1 rest)
  show ?case
  proof (cases "rest = []")
    case True
    then show ?thesis by (intro exI [of _ "[]"] exI [of _ 0]) simp
  next
    case False
    define ty len where "ty = u16_at rest 0" and "len = unat (u16_at rest 2)"
    have long: "4 \<le> length rest"
      using 1(2) False by (subst (asm) ext_loop.simps) (simp split: if_splits)
    show ?thesis
    proof (cases "ty = 0")
      case True
      then have "list_all (\<lambda>b. b = 0) rest"
        using 1(2) False by (subst (asm) ext_loop.simps) (simp add: Let_def ty_def split: if_splits)
      then have "rest = replicate (length rest) 0" by (simp add: list_all_iff replicate_eqI)
      then show ?thesis using long by (intro exI [of _ "[]"] exI [of _ "length rest"]) simp
    next
      case nz: False
      have facts: "ty \<in> set T22_ALLOWED_EXTENSIONS" "4 + len \<le> length rest" "ext_loop (drop (4 + len) rest) = Inr ()"
        using 1(2) False nz by (subst (asm) ext_loop.simps; simp add: Let_def ty_def len_def split: if_splits)+
      obtain exts pad where IH: "drop (4 + len) rest = concat (map ext_bytes exts) @ replicate pad 0"
        "list_all ext_ok exts" "pad = 0 \<or> 4 \<le> pad"
        using "1.IH" [OF False _ refl refl] facts long nz by (auto simp: ty_def len_def)
      define v where "v = take len (drop 4 rest)"
      have v: "length v = len" using facts(2) by (simp add: v_def)
      have "len < 2 ^ LENGTH(16)" unfolding len_def by (rule unsigned_less)
      then have len16: "len < 65536" by simp
      have lenw: "of_nat len = u16_at rest 2"  by (simp add: len_def of_nat_unat_same)
      have parts: "take (2 + 2 + len) rest = (take 2 rest @ take 2 (drop 2 rest)) @ take len (drop (2 + 2) rest)"
        by (simp only: take_add)
      have "ext_bytes (ty, v) = take (4 + len) rest"
        using facts(2) long v parts unfolding ext_bytes_def v_def
        by (simp add: lenw ty_def u16_at_def to_from_le2 add.commute)
      then have "rest = ext_bytes (ty, v) @ drop (4 + len) rest" by simp
      moreover have "ext_ok (ty, v)"
        using facts(1) v len16 by (auto simp: ext_ok_def T22_ALLOWED_EXTENSIONS_def)
      ultimately show ?thesis using IH by (intro exI [of _ "(ty, v) # exts"] exI [of _ pad]) simp
    qed
  qed
qed

text \<open>The layouts of an accepted Token-2022 mint.\<close>

definition t22_layout :: "bytes \<Rightarrow> (u16 \<times> bytes) list \<Rightarrow> nat \<Rightarrow> bytes" where
  "t22_layout base exts pad = base @ replicate 83 0 @ [1] @ concat (map ext_bytes exts) @ replicate pad 0"

definition t22_wellformed :: "bytes \<Rightarrow> bool" where
  "t22_wellformed data \<longleftrightarrow> length data = 82
     \<or> (\<exists>base exts pad. data = t22_layout base exts pad \<and> length base = 82 \<and> list_all ext_ok exts \<and> (pad = 0 \<or> 4 \<le> pad))"

lemma extension_check_iff: "check_token_2022_extensions data = Inr () \<longleftrightarrow> t22_wellformed data"
proof
  assume ok: "check_token_2022_extensions data = Inr ()"
  show "t22_wellformed data"
  proof (cases "length data = 82")
    case False
    have facts: "165 < length data" "list_all (\<lambda>b. b = 0) (take 83 (drop 82 data))" "data ! 165 = 1"
      "ext_loop (drop 166 data) = Inr ()"
      using ok False by (simp_all add: check_token_2022_extensions_def T22_BASE_LEN_def T22_ACCOUNT_TYPE_MINT_def split: if_splits)
    obtain exts pad where exts: "drop 166 data = concat (map ext_bytes exts) @ replicate pad 0"
      "list_all ext_ok exts" "pad = 0 \<or> 4 \<le> pad"
      using ext_loop_decodes [OF facts(4)] by blast
    have zeros: "take 83 (drop 82 data) = replicate 83 0"
      using facts(1,2) by (intro replicate_eqI [symmetric, THEN sym]) (auto simp: list_all_iff)
    have "drop 82 data = take 83 (drop 82 data) @ drop 83 (drop 82 data)" by (simp only: append_take_drop_id)
    also have "drop 83 (drop 82 data) = drop 165 data" by simp
    finally have "take 82 data @ drop 82 data = take 82 data @ take 83 (drop 82 data) @ drop 165 data" by (simp only:)
    then have "data = take 82 data @ take 83 (drop 82 data) @ drop 165 data" by (simp only: append_take_drop_id)
    also have "drop 165 data = 1 # drop 166 data" using facts(1,3) Cons_nth_drop_Suc [of 165 data] by simp
    finally have "data = t22_layout (take 82 data) exts pad" unfolding zeros exts(1) t22_layout_def by simp
    then show ?thesis using facts(1) exts unfolding t22_wellformed_def
      by (intro disjI2 exI [of _ "take 82 data"] exI [of _ exts] exI [of _ pad]) simp
  qed (simp add: t22_wellformed_def)
next
  assume "t22_wellformed data"
  then show "check_token_2022_extensions data = Inr ()"
    unfolding t22_wellformed_def
    by (auto simp: check_token_2022_extensions_def t22_layout_def T22_BASE_LEN_def T22_ACCOUNT_TYPE_MINT_def nth_append
        list_all_iff ext_loop_encoded ext_loop_encoded [where pad = 0, simplified])
qed

text \<open>
  C25. The Token-2022 check is the grammar it stands for: it accepts exactly the plain 82-byte mint and the base mint padded with 83
  zero bytes, the account type and a list of metadata extensions followed by zero or at least four zero bytes.
\<close>

theorem extension_check_grammar: "check_token_2022_extensions data = Inr () \<longleftrightarrow> t22_wellformed data"
  by (rule extension_check_iff)

lemma classify_cases:
  "classify_mint sdk owner data policy = Inr risk \<longleftrightarrow>
     (if owner = key_of sdk SPL_TOKEN_PROGRAM then length data = 82
      else owner = key_of sdk TOKEN_2022_PROGRAM \<and> policy = PaperToken2022 \<and> t22_wellformed data)
     \<and> data ! 45 = 1 \<and> u32_at data 0 \<le> 1 \<and> u32_at data 46 \<le> 1
     \<and> mint_authority_present risk = (u32_at data 0 = 1) \<and> freeze_authority_present risk = (u32_at data 46 = 1)"
proof -
  have bit: "x \<noteq> 0 \<longleftrightarrow> x = 1" if "x \<le> 1" for x :: u32
    using that by (auto simp: word_le_nat_alt le_Suc_eq word_unat_eq_iff)
  show ?thesis
    by (cases risk) (auto simp: classify_mint_def ok_iff extension_check_iff Let_def bit split: if_splits)
qed

text \<open>
  A mint the trading paths accept is a classic SPL mint of exactly 82 bytes: whatever the account holds, a Token-2022 mint is
  accepted under the paper policy only, and the risk reported is what the two authority tags say, so that a mint
  with a freeze authority is always risky.
\<close>

theorem classic_only_classifies:
  "classify_mint sdk owner data ClassicOnly = Inr risk \<longleftrightarrow>
     owner = key_of sdk SPL_TOKEN_PROGRAM \<and> length data = 82 \<and> data ! 45 = 1
     \<and> u32_at data 0 \<le> 1 \<and> u32_at data 46 \<le> 1
     \<and> mint_authority_present risk = (u32_at data 0 = 1) \<and> freeze_authority_present risk = (u32_at data 46 = 1)"
  by (auto simp: classify_cases split: if_splits)

section \<open>The caches\<close>

text \<open>A sequence of cached readings of mints, each against the node's answers of its moment.\<close>

fun mint_calls :: "'a solana_sdk_scheme \<Rightarrow> (holder_rpc \<times> pubkey \<times> token_policy) list \<Rightarrow> revoked_mints \<Rightarrow> revoked_mints" where
  "mint_calls sdk [] s = s"
| "mint_calls sdk ((rpc, mint, policy) # calls) s =
     mint_calls sdk calls (snd (fetch_mint_authority_risk_cached sdk rpc mint policy s))"

definition seen_clean :: "'a solana_sdk_scheme \<Rightarrow> (holder_rpc \<times> pubkey \<times> token_policy) list \<Rightarrow> pubkey \<times> token_policy \<Rightarrow> bool" where
  "seen_clean sdk calls = (\<lambda>(mint, policy).
     \<exists>rpc risk. (rpc, mint, policy) \<in> set calls
        \<and> fetch_mint_authority_risk sdk rpc mint policy = Inr risk \<and> \<not> is_risky risk)"

definition revoked_inv ::
    "'a solana_sdk_scheme \<Rightarrow> (holder_rpc \<times> pubkey \<times> token_policy) list \<Rightarrow> revoked_mints \<Rightarrow> bool" where
  "revoked_inv sdk calls s \<longleftrightarrow> finite s \<and> card s \<le> REVOKED_MAX \<and> (\<forall>mp \<in> s. seen_clean sdk calls mp)"

lemma revoked_step:
  assumes "revoked_inv sdk past s" "(rpc, mint, policy) \<in> set past"
  shows "revoked_inv sdk past (snd (fetch_mint_authority_risk_cached sdk rpc mint policy s))"
proof (cases "revoked_contains mint policy s")
  case False
  show ?thesis
  proof (cases "fetch_mint_authority_risk sdk rpc mint policy")
    case (Inr risk)
    show ?thesis
    proof (cases "is_risky risk")
      case safe: False
      let ?s = "if REVOKED_MAX \<le> card s then {} else s"
      have "card (insert (mint, policy) ?s) \<le> REVOKED_MAX"
        using assms(1) by (auto simp: revoked_inv_def card_insert_if REVOKED_MAX_def)
      moreover have "seen_clean sdk past (mint, policy)"
        using assms(2) Inr safe unfolding seen_clean_def by fast
      ultimately show ?thesis
        using assms(1) False Inr safe
        by (auto simp: fetch_mint_authority_risk_cached_def revoked_record_def revoked_inv_def)
    qed (use assms(1) False Inr in \<open>simp add: fetch_mint_authority_risk_cached_def revoked_record_def\<close>)
  qed (use assms(1) False in \<open>simp add: fetch_mint_authority_risk_cached_def\<close>)
qed (use assms(1) in \<open>simp add: fetch_mint_authority_risk_cached_def\<close>)

lemma revoked_calls:
  "revoked_inv sdk past s \<Longrightarrow> set calls \<subseteq> set past \<Longrightarrow> revoked_inv sdk past (mint_calls sdk calls s)"
  by (induction calls arbitrary: s) (auto simp: revoked_step)

text \<open>
  The cache of revoked mints never vouches for a mint: after any sequence of readings it holds at most 10,000 pairs, and a mint it
  answers for under a policy was read under that very policy with both authorities revoked.
\<close>

theorem revoked_cache_sound:
  assumes "revoked_contains mint policy (mint_calls sdk calls {})"
  shows "card (mint_calls sdk calls {}) \<le> REVOKED_MAX
    \<and> (\<exists>rpc risk. (rpc, mint, policy) \<in> set calls
          \<and> fetch_mint_authority_risk sdk rpc mint policy = Inr risk \<and> \<not> is_risky risk)"
proof -
  have "revoked_inv sdk calls (mint_calls sdk calls {})"
    by (rule revoked_calls) (simp_all add: revoked_inv_def)
  then show ?thesis
    using assms by (auto simp: revoked_inv_def revoked_contains_def seen_clean_def)
qed

definition demo_mint :: bytes where
  "demo_mint = replicate 45 0 @ [1] @ replicate 36 0"

definition demo_rpc :: holder_rpc where
  "demo_rpc = \<lparr> token_supply = (\<lambda>_. Inl []), largest_accounts = (\<lambda>_. Inl []), multiple_accounts = (\<lambda>_. Inl []),
     account_of = (\<lambda>_. Inr (key_of demo_sdk SPL_TOKEN_PROGRAM, demo_mint)), vault_balance_of = (\<lambda>_. Inl []),
     from_str = (\<lambda>_. None), curve_point = (\<lambda>_. False) \<rparr>"

lemma demo_mint_clean:
  "fetch_mint_authority_risk demo_sdk demo_rpc [7] ClassicOnly = Inr \<lparr> mint_authority_present = False, freeze_authority_present = False \<rparr>"
  by (simp add: fetch_mint_authority_risk_def demo_rpc_def classify_mint_def demo_mint_def ensure_def u32_at_def nth_append
      from_le_bytes_def take_replicate map_err_def Let_def numeral_eq_Suc)

theorem revoked_cache_sound_witness:
  "card (mint_calls demo_sdk [(demo_rpc, [7], ClassicOnly)] {}) \<le> REVOKED_MAX"
proof -
  have "revoked_contains [7] ClassicOnly (mint_calls demo_sdk [(demo_rpc, [7], ClassicOnly)] {})"
    by (simp add: fetch_mint_authority_risk_cached_def revoked_contains_def demo_mint_clean revoked_record_def is_risky_def)
  from revoked_cache_sound [OF this] show ?thesis by blast
qed

text \<open>
  The holder caches: a fresh entry was read at most a TTL ago, and a mint in back-off is not read again.
\<close>

definition caches_inv :: "nat \<Rightarrow> holder_caches \<Rightarrow> bool" where
  "caches_inv now c \<longleftrightarrow> finite (dom (hc_errors c)) \<and> card (dom (hc_errors c)) \<le> 1000
     \<and> (\<forall>m t e. hc_errors c m = Some (t, e) \<longrightarrow> t \<le> now) \<and> (\<forall>m t st. hc_stats c m = Some (t, st) \<longrightarrow> t \<le> now)"

lemma caches_step:
  assumes "caches_inv now c"
  shows "caches_inv now (snd (fetch_holder_stats_cached rpc now mint excludes c))"
proof -
  let ?errors = "if 1000 \<le> card (dom (hc_errors c)) then Map.empty else hc_errors c"
  have "card (dom (?errors(mint \<mapsto> x))) \<le> 1000" for x
    using assms by (auto simp: caches_inv_def card_insert_if)
  moreover have "card (dom ((hc_errors c)(mint := None))) \<le> 1000"
    using assms card_Diff1_le [of "dom (hc_errors c)" mint] by (auto simp: caches_inv_def)
  ultimately show ?thesis
    using assms
    by (auto simp: fetch_holder_stats_cached_def caches_inv_def Let_def split: option.splits sum.splits if_splits)
qed

text \<open>
  The cached holder reading fails closed: its result is a statistic read for this mint less than 60 seconds ago, a reading made
  now, or an error; an error is never stored as a success, and a mint that failed less than 30 seconds ago is refused
  without a call.
\<close>

theorem holder_cache_fail_closed:
  "(case fst (fetch_holder_stats_cached rpc now mint excludes c) of
      Inr st \<Rightarrow> fetch_holder_stats rpc mint excludes = Inr st
        \<or> (\<exists>t. hc_stats c mint = Some (t, st) \<and> now - t < HOLDER_STATS_TTL)
    | Inl _ \<Rightarrow> hc_stats (snd (fetch_holder_stats_cached rpc now mint excludes c)) = hc_stats c)
   \<and> (case (fresh_holder_stats (hc_stats c) mint now, hc_errors c mint) of
        (None, Some (t, e)) \<Rightarrow>
          (if now - t < HOLDER_STATS_ERROR_BACKOFF
           then \<exists>n. fetch_holder_stats_cached rpc now mint excludes c = (Inl (NotRetried e n), c) else True)
      | _ \<Rightarrow> True)"
  by (cases "hc_stats c mint")
     (auto simp: fetch_holder_stats_cached_def fresh_holder_stats_def recent_holder_error_def Let_def
        split: option.splits sum.splits if_splits)

end
