(* ===== verification/Pool_Discovery.thy ===== *)
theory Pool_Discovery
  imports Interfaces Solana
begin

text \<open>
  \<open>solana-sniper/src/pool_discovery.rs\<close>: how the supervisor finds new pools and keeps them on a watch list, the daily cap of started
  processes, the signatures waiting for their transaction, the state that survives a restart, and the
  GeckoTerminal listing.  The hash of the instruction name and the parsers of keys, times and JSON are arguments.
\<close>

section \<open>CreatePool instructions\<close>

definition CREATE_POOL_LOG :: string where
  "CREATE_POOL_LOG = ''Program log: Instruction: CreatePool''"
definition IDX_POOL_STATE :: nat where "IDX_POOL_STATE = 2"
definition IDX_MINT_0 :: nat where "IDX_MINT_0 = 3"
definition IDX_MINT_1 :: nat where "IDX_MINT_1 = 4"

definition create_pool_discriminator :: "(bytes \<Rightarrow> bytes) \<Rightarrow> bytes" where
  "create_pool_discriminator sha = take 8 (sha (map of_char ''global:create_pool''))"

definition logs_contain_create_pool :: "string list \<Rightarrow> bool" where
  "logs_contain_create_pool logs \<longleftrightarrow> CREATE_POOL_LOG \<in> set logs"

record new_pool =
  np_pool_id :: pubkey
  np_mint_0 :: pubkey
  np_mint_1 :: pubkey

record raw_instruction =
  ri_program_id :: pubkey
  ri_accounts :: "pubkey list"
  ri_data :: bytes

definition created_pool :: "raw_instruction \<Rightarrow> new_pool option" where
  "created_pool ix =
     Option.bind (get_at IDX_POOL_STATE (ri_accounts ix)) (\<lambda>p.
     Option.bind (get_at IDX_MINT_0 (ri_accounts ix)) (\<lambda>m0.
     Option.bind (get_at IDX_MINT_1 (ri_accounts ix)) (\<lambda>m1.
     Some \<lparr> np_pool_id = p, np_mint_0 = m0, np_mint_1 = m1 \<rparr>)))"

definition find_create_pools :: "(bytes \<Rightarrow> bytes) \<Rightarrow> pubkey \<Rightarrow> raw_instruction list \<Rightarrow> new_pool list" where
  "find_create_pools sha program_id ixs =
     List.map_filter created_pool
       (filter (\<lambda>ix. ri_program_id ix = program_id \<and> 8 \<le> length (ri_data ix)
                   \<and> take 8 (ri_data ix) = create_pool_discriminator sha) ixs)"

fun resolve_indexes :: "pubkey list \<Rightarrow> u8 list \<Rightarrow> pubkey list option" where
  "resolve_indexes keys [] = Some []"
| "resolve_indexes keys (i # is) =
     Option.bind (get_at (unat i) keys) (\<lambda>k. map_option ((#) k) (resolve_indexes keys is))"

definition token_side :: "new_pool \<Rightarrow> pubkey \<Rightarrow> pubkey option" where
  "token_side pool base =
     (case (np_mint_0 pool = base, np_mint_1 pool = base) of
        (True, False) \<Rightarrow> Some (np_mint_1 pool)
      | (False, True) \<Rightarrow> Some (np_mint_0 pool)
      | _ \<Rightarrow> None)"

datatype check_outcome = Ready | Retry string | Reject string

section \<open>The watch list\<close>

record candidate =
  cd_pool :: new_pool
  cd_token_mint :: pubkey
  cd_discovered_at_ms :: u64
  cd_next_check_ms :: u64
  cd_checks :: u32
  cd_mint_ok :: bool
  cd_last_reason :: string

record watch_list =
  wl_items :: "candidate list"
  wl_seen :: "pubkey set"
  wl_seen_order :: "pubkey list"
  wl_max_len :: nat
  wl_watch_ms :: u64
  wl_recheck_ms :: u64

definition watch_new :: "nat \<Rightarrow> u64 \<Rightarrow> u64 \<Rightarrow> watch_list" where
  "watch_new max_len watch_ms recheck_ms =
     \<lparr> wl_items = [], wl_seen = {}, wl_seen_order = [], wl_max_len = max max_len 1, wl_watch_ms = watch_ms,
       wl_recheck_ms = max recheck_ms 1 \<rparr>"

definition MAX_SEEN :: nat where "MAX_SEEN = 100000"

text \<open>The loop that drops the oldest keys of a bounded set.\<close>

fun drop_oldest :: "nat \<Rightarrow> 'k list \<Rightarrow> 'k set \<Rightarrow> 'k list \<times> 'k set" where
  "drop_oldest cap [] s = ([], s)"
| "drop_oldest cap (old # rest) s =
     (if cap < length (old # rest) then drop_oldest cap rest (s - {old}) else (old # rest, s))"

definition remember :: "pubkey \<Rightarrow> watch_list \<Rightarrow> bool \<times> watch_list" where
  "remember k wl =
     (if k \<in> wl_seen wl then (False, wl)
      else let (ord, seen) = drop_oldest MAX_SEEN (wl_seen_order wl @ [k]) (insert k (wl_seen wl))
           in (True, wl\<lparr>wl_seen := seen, wl_seen_order := ord\<rparr>))"

definition watch_add :: "new_pool \<Rightarrow> pubkey \<Rightarrow> u64 \<Rightarrow> watch_list \<Rightarrow> bool \<times> watch_list" where
  "watch_add pool token_mint now wl =
     (case remember (np_pool_id pool) wl of
        (False, wl) \<Rightarrow> (False, wl)
      | (True, wl) \<Rightarrow>
          let items = (if wl_max_len wl \<le> length (wl_items wl) then tl (wl_items wl) else wl_items wl)
          in (True, wl\<lparr>wl_items := items @
                [\<lparr> cd_pool = pool, cd_token_mint = token_mint, cd_discovered_at_ms = now, cd_next_check_ms = now,
                   cd_checks = 0, cd_mint_ok = False, cd_last_reason = [] \<rparr>]\<rparr>))"

definition mark_seen :: "pubkey \<Rightarrow> watch_list \<Rightarrow> watch_list" where
  "mark_seen pool_id wl =
     (let wl = snd (remember pool_id wl)
      in wl\<lparr>wl_items := filter (\<lambda>c. np_pool_id (cd_pool c) \<noteq> pool_id) (wl_items wl)\<rparr>)"

definition expired :: "u64 \<Rightarrow> u64 \<Rightarrow> candidate \<Rightarrow> bool" where
  "expired now watch_ms c \<longleftrightarrow> watch_ms \<le> sat_sub now (cd_discovered_at_ms c)"

definition expire :: "u64 \<Rightarrow> watch_list \<Rightarrow> candidate list \<times> watch_list" where
  "expire now wl =
     (filter (expired now (wl_watch_ms wl)) (wl_items wl),
      wl\<lparr>wl_items := filter (\<lambda>c. \<not> expired now (wl_watch_ms wl) c) (wl_items wl)\<rparr>)"

fun remove_first :: "('a \<Rightarrow> bool) \<Rightarrow> 'a list \<Rightarrow> ('a \<times> 'a list) option" where
  "remove_first P [] = None"
| "remove_first P (x # xs) = (if P x then Some (x, xs) else map_option (\<lambda>(y, ys). (y, x # ys)) (remove_first P xs))"

definition take_due :: "u64 \<Rightarrow> watch_list \<Rightarrow> candidate option \<times> watch_list" where
  "take_due now wl =
     (case remove_first (\<lambda>c. cd_next_check_ms c \<le> now) (wl_items wl) of
        None \<Rightarrow> (None, wl)
      | Some (c, rest) \<Rightarrow> (Some c, wl\<lparr>wl_items := rest\<rparr>))"

definition reschedule :: "candidate \<Rightarrow> u64 \<Rightarrow> string \<Rightarrow> watch_list \<Rightarrow> watch_list" where
  "reschedule c now reason wl =
     wl\<lparr>wl_items := wl_items wl @ [c\<lparr>cd_checks := cd_checks c + 1, cd_next_check_ms := now + wl_recheck_ms wl,
                                     cd_last_reason := reason\<rparr>]\<rparr>"

section \<open>The daily cap and the state that survives a restart\<close>

record daily_cap =
  dc_day :: i64
  dc_count :: u32

definition DAY_MS :: u64 where "DAY_MS = 86400000"

definition day_at :: "u64 \<Rightarrow> i64" where
  "day_at now = int (unat (now div DAY_MS))"

definition roll_to :: "i64 \<Rightarrow> daily_cap \<Rightarrow> daily_cap" where
  "roll_to d c = (if d \<noteq> dc_day c then \<lparr> dc_day = d, dc_count = 0 \<rparr> else c)"

definition roll :: "u64 \<Rightarrow> daily_cap \<Rightarrow> daily_cap" where
  "roll now c = roll_to (day_at now) c"

definition cap_count :: "u64 \<Rightarrow> daily_cap \<Rightarrow> u32 \<times> daily_cap" where
  "cap_count now c = (dc_count (roll now c), roll now c)"

definition cap_reached :: "u64 \<Rightarrow> u32 \<Rightarrow> daily_cap \<Rightarrow> bool \<times> daily_cap" where
  "cap_reached now max_n c = (let (n, c) = cap_count now c in (max_n \<le> n, c))"

definition record_on :: "i64 \<Rightarrow> daily_cap \<Rightarrow> daily_cap" where
  "record_on d c = (let c = roll_to d c in c\<lparr>dc_count := dc_count c + 1\<rparr>)"

definition cap_record :: "u64 \<Rightarrow> daily_cap \<Rightarrow> daily_cap" where
  "cap_record now c = record_on (day_at now) c"

record discovery_state =
  ds_daily :: daily_cap
  ds_traded_pools :: "string list"

definition MAX_TRADED_POOLS :: nat where "MAX_TRADED_POOLS = 5000"

definition keep_newest :: "nat \<Rightarrow> 'a list \<Rightarrow> 'a list" where
  "keep_newest n xs = drop (length xs - n) xs"

definition record_start :: "string \<Rightarrow> u64 \<Rightarrow> discovery_state \<Rightarrow> discovery_state" where
  "record_start pool now st =
     (let st = st\<lparr>ds_daily := cap_record now (ds_daily st)\<rparr>
      in if pool \<in> set (ds_traded_pools st) then st
         else st\<lparr>ds_traded_pools := keep_newest MAX_TRADED_POOLS (ds_traded_pools st @ [pool])\<rparr>)"

definition state_parse :: "('f \<Rightarrow> discovery_state option) \<Rightarrow> 'f \<Rightarrow> discovery_state option" where
  "state_parse from_json raw =
     map_option (\<lambda>st. st\<lparr>ds_traded_pools := keep_newest MAX_TRADED_POOLS (ds_traded_pools st)\<rparr>) (from_json raw)"

section \<open>Signatures waiting for their transaction\<close>

record pending_signatures =
  ps_attempts :: "string \<rightharpoonup> u32"
  ps_order :: "string list"

definition MAX_ATTEMPTS :: u32 where "MAX_ATTEMPTS = 5"
definition PENDING_MAX_LEN :: nat where "PENDING_MAX_LEN = 500"

definition pending_push :: "string \<Rightarrow> pending_signatures \<Rightarrow> bool \<times> pending_signatures" where
  "pending_push sig ps =
     (if ps_attempts ps sig \<noteq> None then (False, ps)
      else
        let (evicted, ps) =
          (if PENDING_MAX_LEN \<le> length (ps_order ps)
           then (case ps_order ps of
                   old # rest \<Rightarrow> (True, ps\<lparr>ps_order := rest, ps_attempts := (ps_attempts ps)(old := None)\<rparr>)
                 | [] \<Rightarrow> (False, ps))
           else (False, ps))
        in (evicted, ps\<lparr>ps_attempts := (ps_attempts ps)(sig \<mapsto> 0), ps_order := ps_order ps @ [sig]\<rparr>))"

definition pending_pop :: "pending_signatures \<Rightarrow> string option \<times> pending_signatures" where
  "pending_pop ps =
     (case ps_order ps of [] \<Rightarrow> (None, ps) | sig # rest \<Rightarrow> (Some sig, ps\<lparr>ps_order := rest\<rparr>))"

definition pending_retry :: "string \<Rightarrow> pending_signatures \<Rightarrow> bool \<times> pending_signatures" where
  "pending_retry sig ps =
     (let n = (case ps_attempts ps sig of Some n \<Rightarrow> n | None \<Rightarrow> 0) + 1
      in if MAX_ATTEMPTS \<le> n then (False, ps\<lparr>ps_attempts := (ps_attempts ps)(sig := None)\<rparr>)
         else (True, ps\<lparr>ps_attempts := (ps_attempts ps)(sig \<mapsto> n), ps_order := ps_order ps @ [sig]\<rparr>))"

definition pending_done :: "string \<Rightarrow> pending_signatures \<Rightarrow> pending_signatures" where
  "pending_done sig ps = ps\<lparr>ps_attempts := (ps_attempts ps)(sig := None)\<rparr>"

section \<open>GeckoTerminal\<close>

record gecko_page =
  gp_pools :: "pubkey list"
  gp_oldest_created_ms :: "u64 option"
  gp_malformed :: nat

text \<open>The strings of one entry of the listing: address, creation time and DEX, where they are strings.\<close>

record gecko_item =
  gi_address :: "string option"
  gi_created_at :: "string option"
  gi_dex :: "string option"

definition gecko_created :: "(string \<Rightarrow> int option) \<Rightarrow> gecko_item \<Rightarrow> u64 option" where
  "gecko_created parse_time item =
     Option.bind (Option.bind (gi_created_at item) parse_time) (\<lambda>t. if 0 \<le> t \<and> t < 2 ^ 64 then Some (of_int t) else None)"

definition gecko_entry ::
    "(string \<Rightarrow> pubkey option) \<Rightarrow> (string \<Rightarrow> int option) \<Rightarrow> string \<Rightarrow> u64 \<Rightarrow> u64 \<Rightarrow> gecko_item \<Rightarrow> gecko_page \<Rightarrow> gecko_page" where
  "gecko_entry parse_key parse_time dex_id now max_age item page =
     (case (Option.bind (gi_address item) parse_key, gecko_created parse_time item, gi_dex item) of
        (Some address, Some created, Some dex) \<Rightarrow>
          let page = page\<lparr>gp_oldest_created_ms := Some (case gp_oldest_created_ms page of None \<Rightarrow> created | Some m \<Rightarrow> min m created)\<rparr>
          in if dex = dex_id \<and> sat_sub now created \<le> max_age then page\<lparr>gp_pools := gp_pools page @ [address]\<rparr> else page
      | _ \<Rightarrow> page\<lparr>gp_malformed := gp_malformed page + 1\<rparr>)"

definition parse_gecko_pools ::
    "(string \<Rightarrow> pubkey option) \<Rightarrow> (string \<Rightarrow> int option) \<Rightarrow> (string + gecko_item list) \<Rightarrow> string \<Rightarrow> u64 \<Rightarrow> u64 \<Rightarrow> string + gecko_page" where
  "parse_gecko_pools parse_key parse_time listing dex_id now max_age =
     and_then listing (\<lambda>data.
       Inr (fold (gecko_entry parse_key parse_time dex_id now max_age) data
              \<lparr> gp_pools = [], gp_oldest_created_ms = None, gp_malformed = 0 \<rparr>))"

record bounded_set =
  bs_set :: "pubkey set"
  bs_order :: "pubkey list"
  bs_cap :: nat

definition bounded_new :: "nat \<Rightarrow> bounded_set" where
  "bounded_new cap = \<lparr> bs_set = {}, bs_order = [], bs_cap = max cap 1 \<rparr>"

definition bounded_insert :: "pubkey \<Rightarrow> bounded_set \<Rightarrow> bool \<times> bounded_set" where
  "bounded_insert k b =
     (if k \<in> bs_set b then (False, b)
      else let (ord, s) = drop_oldest (bs_cap b) (bs_order b @ [k]) (insert k (bs_set b))
           in (True, b\<lparr>bs_set := s, bs_order := ord\<rparr>))"

section \<open>The memories forget the oldest key only\<close>

lemma drop_oldest_eq: "drop_oldest cap xs s = (drop (length xs - cap) xs, s - set (take (length xs - cap) xs))"
  by (induction cap xs s rule: drop_oldest.induct) (auto simp: Suc_diff_le)

interpretation seen: fifo_memory wl_seen wl_seen_order remember "\<lambda>_. MAX_SEEN"
  by unfold_locales (simp_all add: remember_def drop_oldest_eq)

interpretation polled: fifo_memory bs_set bs_order bounded_insert bs_cap
  by unfold_locales (simp_all add: bounded_insert_def drop_oldest_eq)

interpretation starts: daily_counter dc_day "\<lambda>c. unat (dc_count c)" record_on "2 ^ 32"
  by unfold_locales (auto simp: record_on_def roll_to_def Let_def unat_add_small)

section \<open>Each pool is watched once\<close>

datatype watch_op =
  WAdd new_pool pubkey u64 | WMark pubkey | WExpire u64 | WTake u64 | WReschedule candidate u64 string

text \<open>The pool an operation adds, if it does, and the list after it.\<close>

fun watch_exec :: "watch_op \<Rightarrow> watch_list \<Rightarrow> pubkey option \<times> watch_list" where
  "watch_exec (WAdd pool mint now) wl =
     (case watch_add pool mint now wl of (added, wl) \<Rightarrow> (if added then Some (np_pool_id pool) else None, wl))"
| "watch_exec (WMark k) wl = (None, mark_seen k wl)"
| "watch_exec (WExpire now) wl = (None, snd (expire now wl))"
| "watch_exec (WTake now) wl = (None, snd (take_due now wl))"
| "watch_exec (WReschedule c now reason) wl = (None, reschedule c now reason wl)"

fun times_added :: "pubkey \<Rightarrow> watch_op list \<Rightarrow> watch_list \<Rightarrow> nat" where
  "times_added k [] wl = 0"
| "times_added k (op # ops) wl =
     (case watch_exec op wl of (added, wl) \<Rightarrow> (if added = Some k then 1 else 0) + times_added k ops wl)"

fun announced :: "watch_op list \<Rightarrow> pubkey list" where
  "announced [] = []"
| "announced (WAdd pool mint now # ops) = np_pool_id pool # announced ops"
| "announced (WMark k # ops) = k # announced ops"
| "announced (_ # ops) = announced ops"

lemma remember_items: "remember k (wl\<lparr>wl_items := xs\<rparr>) = apsnd (\<lambda>w. w\<lparr>wl_items := xs\<rparr>) (remember k wl)"
  by (simp add: remember_def split: prod.split)

lemma news_items: "seen.news k js (wl\<lparr>wl_items := xs\<rparr>) = seen.news k js wl"
  by (induction js arbitrary: wl) (simp_all add: remember_items)

lemma times_added_news: "times_added k ops wl \<le> seen.news k (announced ops) wl"
proof (induction ops arbitrary: wl)
  case (Cons op ops)
  show ?case
  proof (cases op)
    case (WAdd pool mint now)
    obtain new wl' where r: "remember (np_pool_id pool) wl = (new, wl')" by fastforce
    define xs where "xs = (if wl_max_len wl' \<le> length (wl_items wl') then tl (wl_items wl') else wl_items wl') @
      [\<lparr> cd_pool = pool, cd_token_mint = mint, cd_discovered_at_ms = now, cd_next_check_ms = now,
         cd_checks = 0, cd_mint_ok = False, cd_last_reason = [] \<rparr>]"
    show ?thesis
    proof (cases new)
      case True
      then have "watch_add pool mint now wl = (True, wl'\<lparr>wl_items := xs\<rparr>)"
        by (simp add: watch_add_def r xs_def Let_def)
      then show ?thesis using Cons.IH [of "wl'\<lparr>wl_items := xs\<rparr>"] True r by (auto simp: WAdd news_items)
    next
      case False
      then show ?thesis using Cons.IH [of wl'] r by (simp add: WAdd watch_add_def)
    qed
  next
    case (WMark j)
    have "mark_seen j wl = (snd (remember j wl))\<lparr>wl_items := wl_items (mark_seen j wl)\<rparr>"
      by (simp add: mark_seen_def Let_def)
    then have "seen.news k (announced ops) (mark_seen j wl) = seen.news k (announced ops) (snd (remember j wl))"
      by (metis news_items)
    then show ?thesis using Cons.IH [of "mark_seen j wl"] by (simp add: WMark)
  next
    case (WExpire now)
    then show ?thesis using Cons.IH [of "snd (expire now wl)"] by (simp add: expire_def news_items)
  next
    case (WTake now)
    then show ?thesis
      using Cons.IH [of "snd (take_due now wl)"] by (simp add: take_due_def news_items split: option.splits prod.splits)
  next
    case (WReschedule c now reason)
    then show ?thesis using Cons.IH [of "reschedule c now reason wl"] by (simp add: reschedule_def news_items)
  qed
qed simp

lemma new_consistent: "seen.consistent (watch_new n w r)"
  unfolding seen.consistent_def by (simp add: watch_new_def MAX_SEEN_def)

text \<open>
  A pool is put on the watch list at most once: whatever the supervisor does with the list (adding, marking, expiring, checking and
  rescheduling in any order), over any run with at most 100,000 announcements no pool id is added twice, even after it was
  dropped, expired or handed to a trading process.
\<close>

theorem pool_watched_once:
  assumes "length (announced ops) \<le> MAX_SEEN"
  shows "times_added k ops (watch_new n w r) \<le> 1"
  using times_added_news [of k ops] seen.new_at_most_once [OF new_consistent assms] le_trans by blast

theorem pool_watched_once_witness:
  "times_added [1] [WAdd \<lparr> np_pool_id = [1], np_mint_0 = [2], np_mint_1 = [3] \<rparr> [3] 0, WExpire 9, WTake 9,
     WAdd \<lparr> np_pool_id = [1], np_mint_0 = [2], np_mint_1 = [3] \<rparr> [3] 9] (watch_new 4 5 1) \<le> 1"
  by (rule pool_watched_once) (simp add: MAX_SEEN_def)

text \<open>The poller reports a pool once in any \<open>cap\<close> insertions.\<close>

lemma polled_once: "length js \<le> n \<Longrightarrow> polled.news k js (bounded_new n) \<le> 1"
  by (rule polled.new_at_most_once) (simp_all add: polled.consistent_def bounded_new_def)

section \<open>The daily cap holds across restarts\<close>

text \<open>
  What the supervisor does at each moment: after a restart it reads its state back; it starts a process for the pool unless the cap
  is reached.  The result is the days of the starts.
\<close>

fun supervise ::
    "(discovery_state \<Rightarrow> 'f) \<Rightarrow> ('f \<Rightarrow> discovery_state option) \<Rightarrow> u32 \<Rightarrow> (bool \<times> u64 \<times> string) list
       \<Rightarrow> discovery_state \<Rightarrow> i64 list" where
  "supervise to_json from_json max_n [] st = []"
| "supervise to_json from_json max_n ((restart, now, pool) # events) st =
     (let st = (if restart then the (state_parse from_json (to_json st)) else st);
          (reached, daily) = cap_reached now max_n (ds_daily st); st = st\<lparr>ds_daily := daily\<rparr>
      in if reached then supervise to_json from_json max_n events st
         else day_at now # supervise to_json from_json max_n events (record_start pool now st))"

definition event_times :: "(bool \<times> u64 \<times> string) list \<Rightarrow> u64 list" where
  "event_times = map (\<lambda>(_, now, _). now)"

lemma event_times_simps [simp]: "event_times [] = []" "event_times ((r, now, p) # es) = now # event_times es"
  by (simp_all add: event_times_def)

lemma today_roll: "starts.today_count d (roll now c) = (if day_at now = d then starts.today_count d c else 0)"
  by (simp add: starts.today_count_def roll_def roll_to_def)

lemma record_start_daily: "ds_daily (record_start pool now st) = record_on (day_at now) (ds_daily st)"
  by (simp add: record_start_def cap_record_def Let_def)

lemma day_at_mono: "now \<le> later \<Longrightarrow> day_at now \<le> day_at later"
  by (simp add: day_at_def word_le_nat_alt unat_div_word div_le_mono)

lemma supervise_days:
  "(\<And>now. now \<in> set (event_times events) \<Longrightarrow> d < day_at now) \<Longrightarrow>
     count_list (supervise to_json from_json max_n events st) d = 0"
proof (induction events arbitrary: st)
  case (Cons e events)
  then show ?case by (cases e) (force simp: Let_def split: prod.split)
qed simp

lemma starts_bounded:
  assumes "\<And>st. from_json (to_json st) = Some st"
  shows "sorted (event_times events) \<Longrightarrow> (\<And>now. now \<in> set (event_times events) \<Longrightarrow> dc_day (ds_daily st) \<le> day_at now)
    \<Longrightarrow> starts.today_count d (ds_daily st) \<le> unat max_n
    \<Longrightarrow> count_list (supervise to_json from_json max_n events st) d + starts.today_count d (ds_daily st) \<le> unat max_n"
proof (induction events arbitrary: st)
  case (Cons e events)
  obtain restart now pool where e: "e = (restart, now, pool)" by (cases e)
  define st1 where "st1 = (if restart then the (state_parse from_json (to_json st)) else st)"
  have daily: "ds_daily st1 = ds_daily st" by (simp add: st1_def state_parse_def assms)
  define c where "c = roll now (ds_daily st)"
  have later: "day_at now \<le> day_at t" if "t \<in> set (event_times events)" for t
    using Cons.prems(1) that by (auto simp: e intro: day_at_mono)
  have sorted: "sorted (event_times events)" using Cons.prems(1) by (simp add: e)
  have dayc: "dc_day c = day_at now" by (simp add: c_def roll_def roll_to_def)
  have old: "dc_day (ds_daily st) \<le> day_at now" using Cons.prems(2) by (simp add: e)
  let ?run = "supervise to_json from_json max_n events"
  have td: "starts.today_count d c = (if day_at now = d then starts.today_count d (ds_daily st) else 0)"
    by (simp add: c_def today_roll)
  have zero: "starts.today_count d (ds_daily st) = 0" if "day_at now < d"
    using old that by (simp add: starts.today_count_def)
  show ?case
  proof (cases "max_n \<le> dc_count c")
    case True
    have IH: "count_list (?run (st1\<lparr>ds_daily := c\<rparr>)) d + starts.today_count d c \<le> unat max_n"
      using Cons.IH [of "st1\<lparr>ds_daily := c\<rparr>"] sorted later td Cons.prems(3) by (simp add: dayc)
    have "supervise to_json from_json max_n (e # events) st = ?run (st1\<lparr>ds_daily := c\<rparr>)"
      using True by (simp add: e Let_def cap_reached_def cap_count_def st1_def [symmetric] daily c_def)
    moreover have "count_list (?run (st1\<lparr>ds_daily := c\<rparr>)) d = 0" if "d < day_at now"
      by (rule supervise_days) (use later that in force)
    ultimately show ?thesis
      using IH Cons.prems(3) zero td by (cases "day_at now" d rule: linorder_cases) simp_all
  next
    case False
    define st2 where "st2 = record_start pool now (st1\<lparr>ds_daily := c\<rparr>)"
    have d2: "ds_daily st2 = record_on (day_at now) c" by (simp add: st2_def record_start_daily)
    have lt: "unat (dc_count c) + 1 \<le> unat max_n" using False by (simp add: word_le_nat_alt)
    then have room: "unat (dc_count c) + 1 < 2 ^ 32" using unsigned_less [of max_n, where 'a = nat] by simp
    have step: "starts.today_count d (ds_daily st2) = (if day_at now = d then starts.today_count d c + 1 else 0)"
      using starts.today_bump [OF room, of d] starts.bump_other_day [of d "day_at now" c] by (simp add: d2)
    have run: "supervise to_json from_json max_n (e # events) st = day_at now # ?run st2"
      using False by (simp add: e Let_def cap_reached_def cap_count_def st1_def [symmetric] daily c_def [symmetric] st2_def)
    have "starts.today_count d (ds_daily st2) \<le> unat max_n"
      using step lt dayc by (simp add: starts.today_count_def)
    moreover have "dc_day (ds_daily st2) = day_at now" by (simp add: d2 starts.day_bump)
    ultimately have IH: "count_list (?run st2) d + starts.today_count d (ds_daily st2) \<le> unat max_n"
      using Cons.IH [of st2] sorted later by simp
    have none: "count_list (?run st2) d = 0" if "d < day_at now"
      by (rule supervise_days) (use later that in force)
    show ?thesis
      using IH step none zero td Cons.prems(3) run by (cases "day_at now" d rule: linorder_cases) simp_all
  qed
qed simp

text \<open>
  The daily cap holds: with a clock that does not run backwards, the supervisor starts at most \<open>max_n\<close> trading processes on any
  day, however often it is restarted in between (provided the JSON of the state is read back as it was written).
\<close>

theorem daily_starts_capped:
  assumes "\<And>st. from_json (to_json st) = Some st" "sorted (event_times events)"
  shows "count_list (supervise to_json from_json max_n events \<lparr> ds_daily = \<lparr> dc_day = 0, dc_count = 0 \<rparr>, ds_traded_pools = [] \<rparr>) d
     \<le> unat max_n"
  using starts_bounded [of from_json to_json events "\<lparr> ds_daily = \<lparr> dc_day = 0, dc_count = 0 \<rparr>, ds_traded_pools = [] \<rparr>" d max_n] assms
  by (cases "d = 0") (simp_all add: starts.today_count_def day_at_def)

theorem daily_starts_capped_witness:
  "count_list (supervise (\<lambda>st. st) Some 1 [(False, 5, ''a''), (True, 6, ''b'')]
     \<lparr> ds_daily = \<lparr> dc_day = 0, dc_count = 0 \<rparr>, ds_traded_pools = [] \<rparr>) 0 \<le> unat (1 :: u32)"
  by (rule daily_starts_capped) (simp_all add: event_times_def word_le_nat_alt)

section \<open>Pending signatures\<close>

text \<open>
  What the supervisor does with the queue: it pushes a signature at any time, pops one and then either retries it or is done with
  it.  The state adds the signatures in flight and, as a ghost, how often each was popped since it was queued.
\<close>

type_synonym pending_state = "pending_signatures \<times> string set \<times> (string \<Rightarrow> nat)"

inductive pending_step :: "pending_state \<Rightarrow> pending_state \<Rightarrow> bool" where
  push_known: "ps_attempts ps sig \<noteq> None \<Longrightarrow> pending_step (ps, fl, n) (snd (pending_push sig ps), fl, n)"
| push_new: "ps_attempts ps sig = None \<Longrightarrow> pending_step (ps, fl, n) (snd (pending_push sig ps), fl, n(sig := 0))"
| pop: "pending_pop ps = (Some sig, ps') \<Longrightarrow> pending_step (ps, fl, n) (ps', insert sig fl, n(sig := n sig + 1))"
| retry: "sig \<in> fl \<Longrightarrow> pending_step (ps, fl, n) (snd (pending_retry sig ps), fl - {sig}, n)"
| finish: "sig \<in> fl \<Longrightarrow> pending_step (ps, fl, n) (pending_done sig ps, fl - {sig}, n)"

inductive_cases pending_stepE: "pending_step (ps, fl, n) s"

fun pending_inv :: "pending_state \<Rightarrow> bool" where
  "pending_inv (ps, fl, n) \<longleftrightarrow>
     distinct (ps_order ps) \<and> set (ps_order ps) \<inter> fl = {} \<and> dom (ps_attempts ps) = set (ps_order ps) \<union> fl
     \<and> (\<forall>sig k. ps_attempts ps sig = Some k \<longrightarrow> unat k < 5 \<and> n sig = unat k + (if sig \<in> fl then 1 else 0))"

definition pending_start :: pending_state where
  "pending_start = (\<lparr> ps_attempts = Map.empty, ps_order = [] \<rparr>, {}, (\<lambda>_. 0))"

lemma push_inv:
  assumes "pending_inv (ps, fl, n)" "ps_attempts ps sig = None"
  shows "pending_inv (snd (pending_push sig ps), fl, n(sig := 0))"
proof -
  have new: "sig \<notin> set (ps_order ps)" "sig \<notin> fl" using assms by auto
  show ?thesis
  proof (cases "PENDING_MAX_LEN \<le> length (ps_order ps)")
    case True
    then obtain old rest where ord: "ps_order ps = old # rest"
      by (cases "ps_order ps") (simp_all add: PENDING_MAX_LEN_def)
    then show ?thesis
      using assms new True by (auto simp: pending_push_def split: if_splits)
  next
    case False
    then show ?thesis using assms new by (auto simp: pending_push_def split: if_splits)
  qed
qed

lemma retry_inv:
  assumes "pending_inv (ps, fl, n)" "sig \<in> fl"
  shows "pending_inv (snd (pending_retry sig ps), fl - {sig}, n)"
proof -
  have "sig \<in> dom (ps_attempts ps)" using assms by auto
  then obtain k where k: "ps_attempts ps sig = Some k" by blast
  have bound: "unat k < 5" "n sig = unat k + 1" using assms k by auto
  then have next_: "unat (k + 1) = unat k + 1" by (simp add: unat_add_small)
  show ?thesis
  proof (cases "MAX_ATTEMPTS \<le> k + 1")
    case True
    then show ?thesis using assms k by (auto simp: pending_retry_def split: if_splits)
  next
    case False
    then have "unat k + 1 < 5" using next_ by (simp add: MAX_ATTEMPTS_def word_le_nat_alt)
    then show ?thesis using assms k False next_ bound by (auto simp: pending_retry_def split: if_splits)
  qed
qed

lemma pop_inv:
  assumes "pending_inv (ps, fl, n)" "pending_pop ps = (Some sig, ps')"
  shows "pending_inv (ps', insert sig fl, n(sig := n sig + 1))"
proof -
  obtain rest where ord: "ps_order ps = sig # rest" "ps' = ps\<lparr>ps_order := rest\<rparr>"
    using assms(2) by (auto simp: pending_pop_def split: list.splits)
  have "dom (ps_attempts ps) = set rest \<union> insert sig fl" using assms(1) ord by auto
  then show ?thesis using assms(1) ord by (auto simp del: Un_insert_right)
qed

lemma done_inv:
  assumes "pending_inv (ps, fl, n)" "sig \<in> fl"
  shows "pending_inv (pending_done sig ps, fl - {sig}, n)"
proof -
  have "dom (ps_attempts (pending_done sig ps)) = set (ps_order ps) \<union> (fl - {sig})"
    using assms by (auto simp: pending_done_def)
  then show ?thesis using assms by (auto simp: pending_done_def split: if_splits)
qed

lemma push_known_inv: "ps_attempts ps sig \<noteq> None \<Longrightarrow> snd (pending_push sig ps) = ps"
  by (simp add: pending_push_def)

lemma pending_step_inv: "pending_inv s \<Longrightarrow> pending_step s s' \<Longrightarrow> pending_inv s'"
proof (induction s rule: pending_inv.induct)
  case (1 ps fl n)
  note inv = push_inv [OF 1(1)] retry_inv [OF 1(1)] pop_inv [OF 1(1), simplified Suc_eq_plus1 [symmetric]] done_inv [OF 1(1)]
  from 1(2) show ?case
    by (rule pending_stepE) (simp_all del: pending_inv.simps add: inv push_known_inv 1(1))
qed

lemma pending_reachable: "pending_step\<^sup>*\<^sup>* pending_start s \<Longrightarrow> pending_inv s"
  by (induction rule: rtranclp_induct) (auto simp: pending_start_def intro: pending_step_inv)

text \<open>
  Every pending signature is fetched at most five times: in any reachable state of the queue no signature is queued twice or both
  queued and in flight, the attempts of exactly these signatures are remembered (nothing leaks), and each was handed
  out at most five times since it was queued.
\<close>

theorem pending_bounded_retries:
  assumes "pending_step\<^sup>*\<^sup>* pending_start (ps, fl, n)"
  shows "distinct (ps_order ps) \<and> set (ps_order ps) \<inter> fl = {} \<and> dom (ps_attempts ps) = set (ps_order ps) \<union> fl
    \<and> (sig \<in> fl \<union> set (ps_order ps) \<longrightarrow> n sig \<le> 5)"
proof -
  have inv: "pending_inv (ps, fl, n)" using pending_reachable [OF assms] .
  have "n sig \<le> 5" if "sig \<in> fl \<union> set (ps_order ps)"
  proof -
    have "sig \<in> dom (ps_attempts ps)" using inv that by auto
    then show ?thesis using inv by fastforce
  qed
  then show ?thesis using inv by simp
qed

lemma pending_example:
  "pending_step\<^sup>*\<^sup>* pending_start (\<lparr> ps_attempts = [''s'' \<mapsto> 0], ps_order = [] \<rparr>, {''s''}, (\<lambda>_. 0)(''s'' := 1))"
proof -
  let ?q = "\<lparr> ps_attempts = [''s'' \<mapsto> 0], ps_order = [''s''] \<rparr>"
  have "pending_step pending_start (?q, {}, (\<lambda>_. 0)(''s'' := 0))"
    using push_new [of "fst pending_start" "''s''" "{}" "\<lambda>_. 0"]
    by (simp add: pending_start_def pending_push_def PENDING_MAX_LEN_def)
  moreover have "pending_step (?q, {}, (\<lambda>_. 0)(''s'' := 0)) (\<lparr> ps_attempts = [''s'' \<mapsto> 0], ps_order = [] \<rparr>, {''s''}, (\<lambda>_. 0)(''s'' := 1))"
    using pop [of ?q "''s''" "\<lparr> ps_attempts = [''s'' \<mapsto> 0], ps_order = [] \<rparr>" "{}" "(\<lambda>_. 0)(''s'' := 0)"]
    by (simp add: pending_pop_def)
  ultimately show ?thesis by (meson rtranclp.rtrancl_refl rtranclp.rtrancl_into_rtrancl)
qed

theorem pending_bounded_retries_witness: "((\<lambda>_. 0)(''s'' := 1)) ''s'' \<le> (5 :: nat)"
  using pending_bounded_retries [OF pending_example, of "''s''"] by simp

end
