(* ===== verification/Paper.thy ===== *)
theory Paper
  imports Strategy Sim_Quote
begin

text \<open>
  \<open>solana-sniper/src/main.rs\<close>: the paper-trading simulator, a state machine over real prices that never builds a
  transaction, and the loop's use of it.  Counters are \<open>u64\<close>, profit and loss saturating \<open>i64\<close>.
\<close>

section \<open>State\<close>

record paper_position =
  pp_entry_sqrt :: u128
  pp_size :: u64
  pp_entry_liquidity :: u64
  pp_opened_at_ms :: u64
  pp_peak_ratio :: u128
  pp_trough_ratio :: u128

datatype paper_tick =
    ClosedStopLoss i64 | ClosedTakeProfit i64 | ClosedForced exit_decision i64 | HoldTick | NoEntrySignal
  | EntryPending entry_signal

record paper_close =
  cl_gross :: i64
  cl_net :: i64
  cl_cost :: paper_cost
  cl_hold_ms :: u64
  cl_mfe_bps :: i64
  cl_mae_bps :: i64

record paper_sim =
  sm_config :: strategy_config
  sm_position :: "paper_position option"
  sm_entries :: u64
  sm_exits_stop_loss :: u64
  sm_exits_take_profit :: u64
  sm_holds :: u64
  sm_no_entry_signals :: u64
  sm_simulated_pnl :: i64
  sm_input_is_token0 :: bool
  sm_now_ms :: u64
  sm_max_hold_ms :: u64
  sm_exits_forced :: u64
  sm_last_liquidity :: u64
  sm_cost_model :: paper_cost_model
  sm_net_pnl :: i64
  sm_costs :: u64
  sm_last_close :: "paper_close option"

definition with_config :: "strategy_config \<Rightarrow> paper_sim" where
  "with_config config =
     \<lparr> sm_config = config, sm_position = None, sm_entries = 0, sm_exits_stop_loss = 0, sm_exits_take_profit = 0,
       sm_holds = 0, sm_no_entry_signals = 0, sm_simulated_pnl = 0, sm_input_is_token0 = False, sm_now_ms = 0,
       sm_max_hold_ms = 0, sm_exits_forced = 0, sm_last_liquidity = 0,
       sm_cost_model = \<lparr> pm_fee_rate_ppm = 0, pm_exit_impact_pct = 100, pm_latency_bps_per_leg = 0,
                         pm_network_cost_per_tx = 0 \<rparr>,
       sm_net_pnl = 0, sm_costs = 0, sm_last_close = None \<rparr>"

section \<open>Operations\<close>

definition simulated_pnl_lamports :: "u128 \<Rightarrow> u128 \<Rightarrow> u64 \<Rightarrow> i64" where
  "simulated_pnl_lamports entry_sqrt current_sqrt amount =
     (case price_ratio_scaled entry_sqrt current_sqrt of None \<Rightarrow> 0 | Some ratio \<Rightarrow> pnl_from_ratio ratio amount)"

definition i64_of_u64_sat :: "u64 \<Rightarrow> i64" where
  "i64_of_u64_sat x = min i64_max (int (unat x))"

definition book_close :: "paper_position \<Rightarrow> i64 \<Rightarrow> u64 \<Rightarrow> paper_sim \<Rightarrow> paper_sim" where
  "book_close pos gross exit_liquidity s =
     (let cost = paper_round_trip_cost (sm_cost_model s) (pp_size pos) (pp_entry_liquidity pos) exit_liquidity;
          net = i64_sat (gross - i64_of_u64_sat (pc_total cost))
      in s\<lparr>sm_simulated_pnl := i64_sat (sm_simulated_pnl s + gross),
           sm_net_pnl := i64_sat (sm_net_pnl s + net),
           sm_costs := sat_add (sm_costs s) (pc_total cost),
           sm_last_close := Some \<lparr> cl_gross = gross, cl_net = net, cl_cost = cost,
             cl_hold_ms = sat_sub (sm_now_ms s) (pp_opened_at_ms pos),
             cl_mfe_bps = ratio_to_bps (pp_peak_ratio pos), cl_mae_bps = ratio_to_bps (pp_trough_ratio pos) \<rparr>\<rparr>)"

definition open_position :: "paper_sim \<Rightarrow> (u128 \<times> u64) option" where
  "open_position s = map_option (\<lambda>p. (pp_entry_sqrt p, pp_size p)) (sm_position s)"

text \<open>The prices in the order in which up means a gain, and the exit of one tick.\<close>

definition oriented :: "paper_sim \<Rightarrow> paper_position \<Rightarrow> u128 \<Rightarrow> u128 \<times> u128" where
  "oriented s pos current = (if sm_input_is_token0 s then (current, pp_entry_sqrt pos) else (pp_entry_sqrt pos, current))"

definition track_ratio :: "u128 \<Rightarrow> paper_position \<Rightarrow> paper_position" where
  "track_ratio ratio pos =
     pos\<lparr>pp_peak_ratio := max (pp_peak_ratio pos) ratio, pp_trough_ratio := min (pp_trough_ratio pos) ratio\<rparr>"

definition price_exit :: "paper_sim \<Rightarrow> paper_position \<Rightarrow> u128 \<Rightarrow> exit_decision \<times> paper_position" where
  "price_exit s pos current =
     (case oriented s pos current of (from_sqrt, to_sqrt) \<Rightarrow>
        (case price_ratio_scaled from_sqrt to_sqrt of
           Some ratio \<Rightarrow>
             let pos = track_ratio ratio pos in (exit_with_peak (sm_config s) ratio (pp_peak_ratio pos), pos)
         | None \<Rightarrow> (Hold, pos)))"

definition forced_exit :: "paper_sim \<Rightarrow> paper_position \<Rightarrow> u64 \<Rightarrow> exit_decision" where
  "forced_exit s pos liquidity =
     (if liquidity_dropped (pp_entry_liquidity pos) liquidity then LiquidityDrop
      else if 0 < sm_max_hold_ms s \<and> sm_max_hold_ms s \<le> sat_sub (sm_now_ms s) (pp_opened_at_ms pos) then MaxHoldTime
      else Hold)"

definition paper_exit :: "paper_sim \<Rightarrow> paper_position \<Rightarrow> token_candidate \<Rightarrow> u128 \<Rightarrow> exit_decision \<times> paper_position" where
  "paper_exit s pos cand current =
     (case price_exit s pos current of (d, pos) \<Rightarrow>
        (if d = Hold then forced_exit s pos (liquidity_lamports cand) else d, pos))"

definition close_with :: "paper_sim \<Rightarrow> paper_position \<Rightarrow> token_candidate \<Rightarrow> u128 \<Rightarrow> i64 \<times> paper_sim" where
  "close_with s pos cand current =
     (case oriented s pos current of (from_sqrt, to_sqrt) \<Rightarrow>
        let pnl = simulated_pnl_lamports from_sqrt to_sqrt (pp_size pos)
        in (pnl, (book_close pos pnl (liquidity_lamports cand) s)\<lparr>sm_position := None\<rparr>))"

definition tick :: "token_candidate \<Rightarrow> u128 \<Rightarrow> paper_sim \<Rightarrow> paper_tick \<times> paper_sim" where
  "tick cand current s0 =
     (let s = s0\<lparr>sm_last_liquidity := liquidity_lamports cand\<rparr>
      in case sm_position s of
           Some pos0 \<Rightarrow>
             (case paper_exit s pos0 cand current of (d, pos) \<Rightarrow>
               let s = s\<lparr>sm_position := Some pos\<rparr>
               in case d of
                    Hold \<Rightarrow> (HoldTick, s\<lparr>sm_holds := sm_holds s + 1\<rparr>)
                  | StopLoss \<Rightarrow>
                      (case close_with s pos cand current of (pnl, s) \<Rightarrow>
                         (ClosedStopLoss pnl, s\<lparr>sm_exits_stop_loss := sm_exits_stop_loss s + 1\<rparr>))
                  | TakeProfit \<Rightarrow>
                      (case close_with s pos cand current of (pnl, s) \<Rightarrow>
                         (ClosedTakeProfit pnl, s\<lparr>sm_exits_take_profit := sm_exits_take_profit s + 1\<rparr>))
                  | _ \<Rightarrow>
                      (case close_with s pos cand current of (pnl, s) \<Rightarrow>
                         (ClosedForced d pnl, s\<lparr>sm_exits_forced := sm_exits_forced s + 1\<rparr>)))
         | None \<Rightarrow>
             (case evaluate (sm_config s) cand current of
                Some sig \<Rightarrow> (EntryPending sig, s)
              | None \<Rightarrow> (NoEntrySignal, s\<lparr>sm_no_entry_signals := sm_no_entry_signals s + 1\<rparr>)))"

definition confirm_entry :: "u128 \<Rightarrow> entry_signal \<Rightarrow> paper_sim \<Rightarrow> paper_sim" where
  "confirm_entry entry_sqrt sig s =
     s\<lparr>sm_position := Some \<lparr> pp_entry_sqrt = entry_sqrt, pp_size = position_size_lamports sig,
          pp_entry_liquidity = sm_last_liquidity s, pp_opened_at_ms = sm_now_ms s,
          pp_peak_ratio = ratio_scale, pp_trough_ratio = ratio_scale \<rparr>,
       sm_entries := sm_entries s + 1\<rparr>"

text \<open>One iteration of the paper loop on a snapshot; the gates before an entry are an argument.\<close>

record paper_snapshot =
  sn_candidate :: token_candidate
  sn_sqrt :: u128
  sn_input_is_token0 :: bool
  sn_fee_ppm :: u64
  sn_now_ms :: u64

definition paper_iteration :: "(entry_signal \<Rightarrow> bool) \<Rightarrow> paper_snapshot \<Rightarrow> paper_sim \<Rightarrow> paper_sim" where
  "paper_iteration gates sn s =
     (let s = s\<lparr>sm_input_is_token0 := sn_input_is_token0 sn,
                sm_cost_model := (sm_cost_model s)\<lparr>pm_fee_rate_ppm := sn_fee_ppm sn\<rparr>, sm_now_ms := sn_now_ms sn\<rparr>
      in case tick (sn_candidate sn) (sn_sqrt sn) s of
           (EntryPending sig, s) \<Rightarrow> if gates sig then confirm_entry (sn_sqrt sn) sig s else s
         | (_, s) \<Rightarrow> s)"

section \<open>The ledger\<close>

definition closes :: "paper_sim \<Rightarrow> nat" where
  "closes s = unat (sm_exits_stop_loss s) + unat (sm_exits_take_profit s) + unat (sm_exits_forced s)"

definition ledger_ok :: "nat \<Rightarrow> paper_sim \<Rightarrow> bool" where
  "ledger_ok n s \<longleftrightarrow>
     unat (sm_entries s) = closes s + (if sm_position s = None then 0 else 1)
     \<and> unat (sm_entries s) + unat (sm_holds s) + unat (sm_no_entry_signals s) + closes s \<le> n
     \<and> (\<forall>p. sm_position s = Some p \<longrightarrow> pp_trough_ratio p \<le> ratio_scale \<and> ratio_scale \<le> pp_peak_ratio p)"

lemma close_fields:
  assumes "close_with s pos cand current = (pnl, s')"
  shows "sm_position s' = None" "sm_entries s' = sm_entries s" "sm_holds s' = sm_holds s"
    "sm_no_entry_signals s' = sm_no_entry_signals s" "sm_exits_stop_loss s' = sm_exits_stop_loss s"
    "sm_exits_take_profit s' = sm_exits_take_profit s" "sm_exits_forced s' = sm_exits_forced s"
  using assms by (auto simp: close_with_def book_close_def Let_def split: prod.splits)

lemma paper_exit_range:
  assumes "paper_exit s pos cand current = (d, pos')" "pp_trough_ratio pos \<le> ratio_scale" "ratio_scale \<le> pp_peak_ratio pos"
  shows "pp_trough_ratio pos' \<le> ratio_scale \<and> ratio_scale \<le> pp_peak_ratio pos'"
  using assms
  by (auto simp: paper_exit_def price_exit_def track_ratio_def Let_def le_max_iff_disj min_le_iff_disj
      split: prod.splits option.splits if_splits)

text \<open>What a tick does to the counters: it closes, holds, reports no signal, or leaves the entry to the caller.\<close>

inductive tick_effect :: "paper_sim \<Rightarrow> paper_tick \<Rightarrow> paper_sim \<Rightarrow> bool" where
  closed: "sm_position s \<noteq> None \<Longrightarrow> sm_position s' = None \<Longrightarrow> sm_entries s' = sm_entries s \<Longrightarrow> sm_holds s' = sm_holds s
    \<Longrightarrow> sm_no_entry_signals s' = sm_no_entry_signals s
    \<Longrightarrow> (sm_exits_stop_loss s', sm_exits_take_profit s', sm_exits_forced s')
        \<in> {(sm_exits_stop_loss s + 1, sm_exits_take_profit s, sm_exits_forced s),
           (sm_exits_stop_loss s, sm_exits_take_profit s + 1, sm_exits_forced s),
           (sm_exits_stop_loss s, sm_exits_take_profit s, sm_exits_forced s + 1)}
    \<Longrightarrow> (\<forall>sig. t \<noteq> EntryPending sig) \<Longrightarrow> tick_effect s t s'"
| held: "sm_position s = Some p \<Longrightarrow> sm_position s' = Some p'
    \<Longrightarrow> (pp_trough_ratio p \<le> ratio_scale \<and> ratio_scale \<le> pp_peak_ratio p
         \<longrightarrow> pp_trough_ratio p' \<le> ratio_scale \<and> ratio_scale \<le> pp_peak_ratio p')
    \<Longrightarrow> sm_entries s' = sm_entries s \<Longrightarrow> sm_holds s' = sm_holds s + 1 \<Longrightarrow> sm_no_entry_signals s' = sm_no_entry_signals s
    \<Longrightarrow> closes s' = closes s \<Longrightarrow> tick_effect s HoldTick s'"
| idle: "sm_position s = None \<Longrightarrow> sm_position s' = None \<Longrightarrow> sm_entries s' = sm_entries s \<Longrightarrow> sm_holds s' = sm_holds s
    \<Longrightarrow> sm_no_entry_signals s' = sm_no_entry_signals s + 1 \<Longrightarrow> closes s' = closes s \<Longrightarrow> tick_effect s NoEntrySignal s'"
| pending: "sm_position s = None \<Longrightarrow> sm_position s' = None \<Longrightarrow> sm_entries s' = sm_entries s \<Longrightarrow> sm_holds s' = sm_holds s
    \<Longrightarrow> sm_no_entry_signals s' = sm_no_entry_signals s \<Longrightarrow> closes s' = closes s
    \<Longrightarrow> tick_effect s (EntryPending sig) s'"

lemma tick_has_effect:
  assumes "tick cand current s = (t, s')"
  shows "tick_effect s t s'"
proof (cases "sm_position s")
  case None
  then show ?thesis
    using assms by (auto simp: tick_def Let_def closes_def split: option.splits intro!: idle pending)
next
  case (Some pos)
  define s1 where "s1 = s\<lparr>sm_last_liquidity := liquidity_lamports cand\<rparr>"
  obtain d pos' where d: "paper_exit s1 pos cand current = (d, pos')" by fastforce
  obtain pnl s2 where c: "close_with (s1\<lparr>sm_position := Some pos'\<rparr>) pos' cand current = (pnl, s2)" by fastforce
  note f = close_fields [OF c]
  show ?thesis
  proof (cases "d = Hold")
    case True
    then have t: "t = HoldTick" "s' = s1\<lparr>sm_position := Some pos', sm_holds := sm_holds s + 1\<rparr>"
      using assms d Some by (simp_all add: tick_def Let_def s1_def)
    show ?thesis unfolding t(1)
      by (rule held [of s pos s' pos'])
         (use Some t(2) paper_exit_range [OF d] in \<open>simp_all add: s1_def closes_def\<close>)
  next
    case False
    then show ?thesis
      using assms d Some c f
      by (intro closed) (cases d; simp add: tick_def Let_def s1_def [symmetric]; auto simp: s1_def)+
  qed
qed

lemma iteration_ledger:
  assumes "ledger_ok n s" "n + 1 < 2 ^ 64"
  shows "ledger_ok (n + 1) (paper_iteration gates sn s)"
proof -
  define s1 where "s1 = s\<lparr>sm_input_is_token0 := sn_input_is_token0 sn,
    sm_cost_model := (sm_cost_model s)\<lparr>pm_fee_rate_ppm := sn_fee_ppm sn\<rparr>, sm_now_ms := sn_now_ms sn\<rparr>"
  have s1: "ledger_ok n s1" using assms(1) by (simp add: ledger_ok_def s1_def closes_def)
  obtain t s2 where t: "tick (sn_candidate sn) (sn_sqrt sn) s1 = (t, s2)" by fastforce
  have iter: "paper_iteration gates sn s =
      (case t of EntryPending sig \<Rightarrow> if gates sig then confirm_entry (sn_sqrt sn) sig s2 else s2 | _ \<Rightarrow> s2)"
    by (simp add: paper_iteration_def s1_def [symmetric] t split: paper_tick.split)
  have room: "unat (sm_entries s1) + 1 < 2 ^ 64" "unat (sm_holds s1) + 1 < 2 ^ 64" "unat (sm_no_entry_signals s1) + 1 < 2 ^ 64"
    "unat (sm_exits_stop_loss s1) + 1 < 2 ^ 64" "unat (sm_exits_take_profit s1) + 1 < 2 ^ 64"
    "unat (sm_exits_forced s1) + 1 < 2 ^ 64"
    using s1 assms(2) unfolding ledger_ok_def closes_def by linarith+
  then have inc: "unat (sm_entries s1 + 1) = unat (sm_entries s1) + 1" "unat (sm_holds s1 + 1) = unat (sm_holds s1) + 1"
    "unat (sm_no_entry_signals s1 + 1) = unat (sm_no_entry_signals s1) + 1"
    "unat (sm_exits_stop_loss s1 + 1) = unat (sm_exits_stop_loss s1) + 1"
    "unat (sm_exits_take_profit s1 + 1) = unat (sm_exits_take_profit s1) + 1"
    "unat (sm_exits_forced s1 + 1) = unat (sm_exits_forced s1) + 1" by (simp_all add: unat_add_small)
  from tick_has_effect [OF t] show ?thesis
  proof (cases rule: tick_effect.cases)
    case closed
    then have "paper_iteration gates sn s = s2" unfolding iter by (cases t) auto
    then show ?thesis using closed s1 inc by (auto simp: ledger_ok_def closes_def)
  next
    case (held p p')
    then show ?thesis using s1 inc unfolding iter by (auto simp: ledger_ok_def)
  next
    case idle
    then show ?thesis using s1 inc unfolding iter by (auto simp: ledger_ok_def)
  next
    case (pending sig)
    then show ?thesis
      using s1 inc unfolding iter by (auto simp: ledger_ok_def confirm_entry_def closes_def)
  qed
qed

lemma iterations_ledger:
  "ledger_ok n s \<Longrightarrow> n + length sns < 2 ^ 64 \<Longrightarrow> ledger_ok (n + length sns) (fold (paper_iteration gates) sns s)"
proof (induction sns arbitrary: n s)
  case (Cons sn sns)
  have "ledger_ok (n + 1) (paper_iteration gates sn s)" using Cons.prems by (intro iteration_ledger) simp_all
  from Cons.IH [OF this] show ?case using Cons.prems(2) by simp
qed simp

text \<open>
  The paper ledger balances: after any run of the paper loop the entries are exactly the stop-loss, take-profit and forced exits
  plus one for an open position, no iteration is counted twice, and an open position's best and worst ratios enclose
  its entry price.
\<close>

theorem paper_ledger_balances:
  assumes "length sns < 2 ^ 64"
  shows "ledger_ok (length sns) (fold (paper_iteration gates) sns (with_config cfg))"
  using iterations_ledger [of 0 "with_config cfg" sns gates] assms
  by (simp add: ledger_ok_def with_config_def closes_def)

definition example_snapshot :: "u128 \<Rightarrow> paper_snapshot" where
  "example_snapshot sqrt =
     \<lparr> sn_candidate = \<lparr> liquidity_lamports = 2000000000000, market_cap_lamports = 0, holders = 100, is_blocklisted = False \<rparr>,
       sn_sqrt = sqrt, sn_input_is_token0 = False, sn_fee_ppm = 2500, sn_now_ms = 1 \<rparr>"

theorem paper_ledger_balances_witness:
  "ledger_ok (Suc (Suc 0)) (fold (paper_iteration (\<lambda>_. True)) [example_snapshot (2 ^ 64), example_snapshot (2 ^ 63)] (with_config default_strategy))"
  using paper_ledger_balances [of "[example_snapshot (2 ^ 64), example_snapshot (2 ^ 63)]" "\<lambda>_. True" default_strategy] by simp

section \<open>What a close is worth\<close>

lemma price_exit_ratio:
  assumes "price_exit s pos current = (d, pos')" "d \<noteq> Hold"
  shows "\<exists>ratio. price_ratio_scaled (fst (oriented s pos current)) (snd (oriented s pos current)) = Some ratio
    \<and> d = exit_with_peak (sm_config s) ratio (max (pp_peak_ratio pos) ratio)"
  using assms by (auto simp: price_exit_def track_ratio_def Let_def split: prod.splits option.splits)

lemma forced_exit_kind: "forced_exit s pos l \<in> {Hold, LiquidityDrop, MaxHoldTime}"
  by (simp add: forced_exit_def)

lemma pnl_of_take_profit:
  assumes "exit_with_peak cfg ratio peak = TakeProfit"
  shows "min i64_max (int (unat (amount :: u64)) * int (unat (take_profit_bps cfg)) div 10000) \<le> pnl_from_ratio ratio amount"
proof -
  have r: "1000000000000 + unat (take_profit_bps cfg) * 100000000 \<le> unat ratio"
    using assms unfolding exit_with_peak_rule Let_def by (simp split: if_splits)
  let ?gain = "int (unat ratio) - 1000000000000"
  have "int (unat (take_profit_bps cfg)) * 100000000 \<le> ?gain" using r by linarith
  then have "int (unat amount) * (int (unat (take_profit_bps cfg)) * 100000000) \<le> int (unat amount) * ?gain"
    by (rule mult_left_mono) simp
  then have "int (unat amount) * (int (unat (take_profit_bps cfg)) * 100000000) div 1000000000000
      \<le> int (unat amount) * ?gain div 1000000000000"
    by (rule zdiv_mono1) simp
  moreover have "int (unat amount) * (int (unat (take_profit_bps cfg)) * 100000000) div 1000000000000
      = int (unat amount) * int (unat (take_profit_bps cfg)) div 10000"
    using div_mult_mult2 [of 100000000 "int (unat amount) * int (unat (take_profit_bps cfg))" 10000] by (simp add: mult.assoc)
  ultimately show ?thesis using r by (simp add: pnl_gain min_le_iff_disj)
qed

lemma pnl_of_stop_loss:
  assumes "exit_with_peak cfg ratio peak = StopLoss"
  shows "pnl_from_ratio ratio (amount :: u64)
    \<le> - min i64_max (int (unat amount) * int (unat (stop_loss_bps cfg)) div 10000)"
proof -
  have r: "unat ratio < 1000000000000" "unat ratio + unat (stop_loss_bps cfg) * 100000000 \<le> 1000000000000"
    using assms unfolding exit_with_peak_rule Let_def by (auto split: if_splits)
  let ?loss = "1000000000000 - int (unat ratio)"
  have "int (unat (stop_loss_bps cfg)) * 100000000 \<le> ?loss" using r(2) by linarith
  then have "int (unat amount) * (int (unat (stop_loss_bps cfg)) * 100000000) \<le> int (unat amount) * ?loss"
    by (rule mult_left_mono) simp
  then have "int (unat amount) * (int (unat (stop_loss_bps cfg)) * 100000000) div 1000000000000
      \<le> (int (unat amount) * ?loss + 999999999999) div 1000000000000"
    by (intro zdiv_mono1) simp_all
  moreover have "int (unat amount) * (int (unat (stop_loss_bps cfg)) * 100000000) div 1000000000000
      = int (unat amount) * int (unat (stop_loss_bps cfg)) div 10000"
    using div_mult_mult2 [of 100000000 "int (unat amount) * int (unat (stop_loss_bps cfg))" 10000] by (simp add: mult.assoc)
  ultimately show ?thesis using r(1) by (simp add: pnl_loss min_le_iff_disj)
qed

lemma tick_close_cases:
  assumes "tick cand current s = (t, s')"
  shows "case t of
      ClosedTakeProfit pnl \<Rightarrow> \<exists>pos ratio peak. sm_position s = Some pos \<and> pnl = pnl_from_ratio ratio (pp_size pos)
          \<and> exit_with_peak (sm_config s) ratio peak = TakeProfit
    | ClosedStopLoss pnl \<Rightarrow> \<exists>pos ratio peak. sm_position s = Some pos \<and> pnl = pnl_from_ratio ratio (pp_size pos)
          \<and> exit_with_peak (sm_config s) ratio peak = StopLoss
    | _ \<Rightarrow> True"
proof (cases "sm_position s")
  case None
  then show ?thesis using assms by (auto simp: tick_def Let_def split: option.splits)
next
  case (Some pos)
  define s1 where "s1 = s\<lparr>sm_last_liquidity := liquidity_lamports cand\<rparr>"
  obtain dp pos' where p: "price_exit s1 pos current = (dp, pos')" by fastforce
  define d where "d = (if dp = Hold then forced_exit s1 pos' (liquidity_lamports cand) else dp)"
  have d: "paper_exit s1 pos cand current = (d, pos')" by (simp add: paper_exit_def p d_def)
  obtain pnl s2 where c: "close_with (s1\<lparr>sm_position := Some pos'\<rparr>) pos' cand current = (pnl, s2)" by fastforce
  have sz: "pp_size pos' = pp_size pos" "pp_entry_sqrt pos' = pp_entry_sqrt pos"
    using p by (auto simp: price_exit_def track_ratio_def Let_def split: prod.splits option.splits)
  have pnl: "pnl = simulated_pnl_lamports (fst (oriented s1 pos current)) (snd (oriented s1 pos current)) (pp_size pos)"
    using c sz by (auto simp: close_with_def Let_def oriented_def split: if_splits)
  have close: "\<exists>ratio peak. pnl = pnl_from_ratio ratio (pp_size pos) \<and> exit_with_peak (sm_config s) ratio peak = d"
    if "d = TakeProfit \<or> d = StopLoss"
  proof -
    have "dp = d" "dp \<noteq> Hold" using that forced_exit_kind [of s1 pos' "liquidity_lamports cand"]
      by (auto simp: d_def split: if_splits)
    then show ?thesis using price_exit_ratio [OF p] pnl by (auto simp: simulated_pnl_lamports_def s1_def)
  qed
  have "(t, s') = (case d of Hold \<Rightarrow> (HoldTick, s') | StopLoss \<Rightarrow> (ClosedStopLoss pnl, s')
      | TakeProfit \<Rightarrow> (ClosedTakeProfit pnl, s') | _ \<Rightarrow> (ClosedForced d pnl, s'))"
    using assms d Some c by (auto simp: tick_def Let_def s1_def [symmetric] split: exit_decision.splits) (auto simp: s1_def)
  then show ?thesis using close Some by (cases d) auto
qed

text \<open>
  A take-profit close books at least the take-profit share of the position, and a stop-loss close at most minus the stop-loss share
  (saturated at the range of an i64): the booked profit and loss always agrees with the decision that closed.
\<close>

theorem paper_close_priced:
  assumes "sm_position s = Some pos"
  shows "case fst (tick cand current s) of
      ClosedTakeProfit pnl \<Rightarrow> min i64_max (int (unat (pp_size pos)) * int (unat (take_profit_bps (sm_config s))) div 10000) \<le> pnl
    | ClosedStopLoss pnl \<Rightarrow> pnl \<le> - min i64_max (int (unat (pp_size pos)) * int (unat (stop_loss_bps (sm_config s))) div 10000)
    | _ \<Rightarrow> True"
proof -
  obtain t s' where t: "tick cand current s = (t, s')" by fastforce
  show ?thesis
    using tick_close_cases [OF t] assms pnl_of_take_profit pnl_of_stop_loss unfolding t
    by (fastforce split: paper_tick.splits)
qed

theorem paper_close_priced_witness:
  "case fst (tick (sn_candidate (example_snapshot 1)) (2 ^ 63)
       (confirm_entry (2 ^ 64) \<lparr> position_size_lamports = 10000000, slippage_bps = 100, entry_sqrt_price = 2 ^ 64 \<rparr>
          (with_config default_strategy))) of
     ClosedTakeProfit pnl \<Rightarrow> 1000000 \<le> pnl | ClosedStopLoss pnl \<Rightarrow> pnl \<le> - 500000 | _ \<Rightarrow> True"
proof -
  let ?s = "confirm_entry (2 ^ 64) \<lparr> position_size_lamports = 10000000, slippage_bps = 100, entry_sqrt_price = 2 ^ 64 \<rparr>
          (with_config default_strategy)"
  have "sm_position ?s = Some (the (sm_position ?s))" by (simp add: confirm_entry_def)
  from paper_close_priced [OF this, of "sn_candidate (example_snapshot 1)" "2 ^ 63"] show ?thesis
    by (simp add: confirm_entry_def with_config_def default_strategy_def i64_max_def split: paper_tick.splits)
qed

end
