(* ===== verification/Live_Args.thy ===== *)
theory Live_Args
  imports Paper Risk Onchain_Risk
begin

text \<open>
  \<open>solana-sniper/src/main.rs\<close>: the checks a start must pass, the limits of an entry and of an exit, and the economics gate.
  Command line values are the fields of a record; \<open>None\<close> is an option that is not set, or a number of SOL that is not finite.
\<close>

datatype amm_kind = Clmm | PumpswapAmm

record args =
  ar_live :: bool
  ar_dry_run :: bool
  ar_paper :: bool
  ar_confirm_live :: bool
  ar_hsm_endpoint :: "string option"
  ar_hsm_ca :: "string option"
  ar_hsm_client_identity :: "string option"
  ar_pool_id :: "string option"
  ar_input_mint :: "string option"
  ar_output_mint :: "string option"
  ar_live_risk_data :: bool
  ar_expected_signer :: "string option"
  ar_simulate_payer :: "string option"
  ar_paper_token_2022 :: bool
  ar_amm :: amm_kind
  ar_min_liquidity_sol :: "f64 option"
  ar_trailing_stop_bps :: u64
  ar_trailing_activation_bps :: u64
  ar_max_slippage_bps :: u64
  ar_exit_slippage_escalation :: bool
  ar_max_price_impact_bps :: u64
  ar_max_position_liquidity_bps :: u64
  ar_min_net_edge_bps :: i64
  ar_exit_impact_pct :: u64
  ar_failed_tx_reserve :: u64
  ar_compute_unit_limit :: u32
  ar_priority_fee :: u64
  ar_max_hold_secs :: u64
  ar_rpc :: string
  ar_jito_endpoint :: "string option"
  ar_jito_tip_lamports :: u64
  ar_jito_dry_run :: bool

section \<open>Start-up checks\<close>

datatype startup_error =
    PumpswapMode | PumpswapNeedsPayer | LiveAndDryRun | PaperExclusive | LiveNotConfirmed | LiveNeedsHsm
  | HsmNeedsTls | Token2022Mode | PaperNeedsPool | PaperNeedsMints | BadExpectedSigner | LiveNeedsPool
  | LiveNeedsRiskData | LiveNeedsSigner | TrailingTooWide | TrailingUnarmed | LiquidityFloor
  | RiskConfig risk_config_error | PositionSize size_invariant_error | PayerOnlyDryRun | BadSimulatePayer

text \<open>An empty value counts as unset.\<close>

definition unset_blank :: "string option \<Rightarrow> string option" where
  "unset_blank v = (case v of Some x \<Rightarrow> if trim x = [] then None else Some x | None \<Rightarrow> None)"

definition unset_empty :: "string option \<Rightarrow> string option" where
  "unset_empty v = (if v = Some [] then None else v)"

definition normalized :: "args \<Rightarrow> args" where
  "normalized a =
     a\<lparr>ar_hsm_endpoint := unset_blank (ar_hsm_endpoint a), ar_hsm_ca := unset_empty (ar_hsm_ca a),
       ar_hsm_client_identity := unset_empty (ar_hsm_client_identity a), ar_expected_signer := unset_blank (ar_expected_signer a),
       ar_simulate_payer := unset_blank (ar_simulate_payer a), ar_jito_endpoint := unset_blank (ar_jito_endpoint a),
       ar_pool_id := unset_blank (ar_pool_id a), ar_input_mint := unset_blank (ar_input_mint a),
       ar_output_mint := unset_blank (ar_output_mint a)\<rparr>"

definition validate_amm :: "amm_kind \<Rightarrow> bool \<Rightarrow> bool \<Rightarrow> bool \<Rightarrow> bool \<Rightarrow> startup_error + unit" where
  "validate_amm amm paper live dry_run simulate_payer =
     (if amm \<noteq> PumpswapAmm then Inr ()
      else if live \<or> \<not> (paper \<or> dry_run) then Inl PumpswapMode
      else ensure (\<not> (dry_run \<and> \<not> simulate_payer)) PumpswapNeedsPayer)"

definition validate_signing_config ::
    "bool \<Rightarrow> bool \<Rightarrow> bool \<Rightarrow> bool \<Rightarrow> string option \<Rightarrow> string option \<Rightarrow> string option \<Rightarrow> startup_error + unit" where
  "validate_signing_config live dry_run paper confirm_live endpoint ca identity =
     (if live \<and> dry_run then Inl LiveAndDryRun
      else if paper \<and> (live \<or> dry_run) then Inl PaperExclusive
      else if live \<and> \<not> confirm_live then Inl LiveNotConfirmed
      else if live \<and> endpoint = None then Inl LiveNeedsHsm
      else ensure (\<not> (endpoint \<noteq> None \<and> (ca = None \<or> identity = None))) HsmNeedsTls)"

definition select_token_policy ::
    "bool \<Rightarrow> bool \<Rightarrow> bool \<Rightarrow> bool \<Rightarrow> amm_kind \<Rightarrow> startup_error + token_policy" where
  "select_token_policy paper_token_2022 paper live dry_run amm =
     (if \<not> paper_token_2022 then Inr ClassicOnly
      else let simulation_only = paper \<or> (dry_run \<and> amm = PumpswapAmm)
           in if live \<or> \<not> simulation_only then Inl Token2022Mode else Inr PaperToken2022)"

definition validate_paper_args :: "string option \<Rightarrow> string option \<Rightarrow> string option \<Rightarrow> startup_error + unit" where
  "validate_paper_args pool input_mint output_mint =
     (if pool = None then Inl PaperNeedsPool
      else ensure (input_mint \<noteq> None \<and> output_mint \<noteq> None) PaperNeedsMints)"

definition validate_live_args ::
    "(string \<Rightarrow> pubkey option) \<Rightarrow> bool \<Rightarrow> string option \<Rightarrow> string option \<Rightarrow> string option \<Rightarrow> bool \<Rightarrow> string option
       \<Rightarrow> startup_error + pubkey option" where
  "validate_live_args parse live pool input_mint output_mint live_risk_data expected_signer =
     and_then (case expected_signer of
                 Some t \<Rightarrow> (case parse t of Some k \<Rightarrow> Inr (Some k) | None \<Rightarrow> Inl BadExpectedSigner)
               | None \<Rightarrow> Inr None) (\<lambda>pinned.
     if \<not> live then Inr pinned
     else if pool = None \<or> input_mint = None \<or> output_mint = None then Inl LiveNeedsPool
     else if \<not> live_risk_data then Inl LiveNeedsRiskData
     else if pinned = None then Inl LiveNeedsSigner
     else Inr pinned)"

definition SOL_RESERVE_LAMPORTS :: u64 where "SOL_RESERVE_LAMPORTS = 6000000"
definition MIN_LIQUIDITY_FLOOR_SOL :: f64 where "MIN_LIQUIDITY_FLOOR_SOL = 20"
definition EXIT_MAX_SLIPPAGE_BPS :: u64 where "EXIT_MAX_SLIPPAGE_BPS = 500"
definition EXIT_BLOCKED_AFTER :: u32 where "EXIT_BLOCKED_AFTER = 3"

definition sol_to_lamports :: "f64 \<Rightarrow> u64" where
  "sol_to_lamports sol = f64_to_u64 (f64_mul sol 1000000000)"

definition run_strategy_config :: "args \<Rightarrow> strategy_config" where
  "run_strategy_config a =
     default_strategy\<lparr>min_liquidity_lamports := (case ar_min_liquidity_sol a of Some x \<Rightarrow> sol_to_lamports x | None \<Rightarrow> 0),
                      trailing_stop_bps := ar_trailing_stop_bps a,
                      trailing_activation_bps := ar_trailing_activation_bps a\<rparr>"

definition validate_trailing_stop :: "u64 \<Rightarrow> u64 \<Rightarrow> startup_error + unit" where
  "validate_trailing_stop trailing activation =
     (if trailing = 0 then Inr ()
      else if 5000 \<le> trailing then Inl TrailingTooWide
      else ensure (activation \<noteq> 0) TrailingUnarmed)"

definition validate_min_liquidity :: "f64 option \<Rightarrow> startup_error + unit" where
  "validate_min_liquidity sol =
     ensure (case sol of Some x \<Rightarrow> MIN_LIQUIDITY_FLOOR_SOL \<le> x | None \<Rightarrow> False) LiquidityFloor"

text \<open>The checks of a start in their order; the result is the token policy, the pinned signer and the simulated payer.\<close>

definition startup_checks ::
    "(string \<Rightarrow> pubkey option) \<Rightarrow> env_u64 \<Rightarrow> args \<Rightarrow> startup_error + token_policy \<times> pubkey option \<times> pubkey option" where
  "startup_checks parse env a =
     and_then (validate_min_liquidity (ar_min_liquidity_sol a)) (\<lambda>_.
     and_then (validate_trailing_stop (ar_trailing_stop_bps a) (ar_trailing_activation_bps a)) (\<lambda>_.
     and_then (map_err RiskConfig (production_defaults env)) (\<lambda>cfg.
     and_then (map_err PositionSize (validate_position_size_invariant (max_position_lamports default_strategy) (rc_max_trade_size cfg))) (\<lambda>_.
     and_then (select_token_policy (ar_paper_token_2022 a) (ar_paper a) (ar_live a) (ar_dry_run a) (ar_amm a)) (\<lambda>policy.
     and_then (validate_amm (ar_amm a) (ar_paper a) (ar_live a) (ar_dry_run a) (ar_simulate_payer a \<noteq> None)) (\<lambda>_.
     and_then (if ar_paper a then validate_paper_args (ar_pool_id a) (ar_input_mint a) (ar_output_mint a) else Inr ()) (\<lambda>_.
     and_then (validate_signing_config (ar_live a) (ar_dry_run a) (ar_paper a) (ar_confirm_live a)
                 (ar_hsm_endpoint a) (ar_hsm_ca a) (ar_hsm_client_identity a)) (\<lambda>_.
     and_then (validate_live_args parse (ar_live a) (ar_pool_id a) (ar_input_mint a) (ar_output_mint a)
                 (ar_live_risk_data a) (ar_expected_signer a)) (\<lambda>signer.
     and_then (case ar_simulate_payer a of
                 Some t \<Rightarrow> if \<not> ar_dry_run a then Inl PayerOnlyDryRun
                           else (case parse t of Some k \<Rightarrow> Inr (Some k) | None \<Rightarrow> Inl BadSimulatePayer)
               | None \<Rightarrow> Inr None) (\<lambda>payer.
     Inr (policy, signer, payer)))))))))))"

section \<open>Limits of entries and exits\<close>

definition entry_window_expired :: "u64 \<Rightarrow> u64 \<Rightarrow> bool \<Rightarrow> bool" where
  "entry_window_expired elapsed window position_open \<longleftrightarrow> 0 < window \<and> \<not> position_open \<and> window \<le> elapsed"

definition exit_slippage_bps :: "u64 \<Rightarrow> u32 \<Rightarrow> u64" where
  "exit_slippage_bps base failures = min (sat_mul base (1 + ucast failures)) (max EXIT_MAX_SLIPPAGE_BPS base)"

definition max_hold_reached :: "u64 \<Rightarrow> u64 \<Rightarrow> u64 \<Rightarrow> bool" where
  "max_hold_reached opened now max_secs \<longleftrightarrow> 0 < max_secs \<and> sat_mul max_secs 1000 \<le> sat_sub now opened"

definition entry_required_balance :: "u64 \<Rightarrow> bool \<Rightarrow> u64" where
  "entry_required_balance position native = (if native then sat_add position SOL_RESERVE_LAMPORTS else position)"

definition exit_blocked :: "bool \<Rightarrow> u32 \<Rightarrow> bool" where
  "exit_blocked position_open failures \<longleftrightarrow> position_open \<and> EXIT_BLOCKED_AFTER \<le> failures"

datatype economics_error = PriceImpactExceeded | LiquidityUnverified | PositionTooLargeForLiquidity | NetEdgeTooSmall

definition entry_economics ::
    "args \<Rightarrow> u64 \<Rightarrow> u64 \<Rightarrow> u64 \<Rightarrow> u64 \<Rightarrow> u64 \<Rightarrow> u64 option \<Rightarrow> economics_error + edge_breakdown_t" where
  "entry_economics a spot_out exact_out fee_ppm position jito_tip liquidity =
     (let impact = price_impact_bps spot_out exact_out
      in if ar_max_price_impact_bps a < impact then Inl PriceImpactExceeded
         else and_then (ok_or LiquidityUnverified
                (position_liquidity_bps position (case liquidity of Some l \<Rightarrow> l | None \<Rightarrow> 0))) (\<lambda>ratio.
              if ar_max_position_liquidity_bps a < ratio then Inl PositionTooLargeForLiquidity
              else
                let network = sat_add (tx_network_cost_lamports (ar_compute_unit_limit a) (ar_priority_fee a)) jito_tip
                in and_then (ok_or NetEdgeTooSmall (edge_breakdown
                     \<lparr> ei_take_profit_bps = take_profit_bps (run_strategy_config a), ei_fee_rate_ppm = fee_ppm,
                       ei_entry_impact_bps = impact, ei_exit_impact_pct = ar_exit_impact_pct a,
                       ei_network_cost_per_tx = network, ei_failed_tx_reserve = ar_failed_tx_reserve a,
                       ei_exit_slippage_bps = ar_max_slippage_bps a, ei_position_lamports = position \<rparr>)) (\<lambda>edge.
                   if eb_net_edge_bps edge < ar_min_net_edge_bps a then Inl NetEdgeTooSmall else Inr edge)))"

section \<open>What a started process has checked\<close>

text \<open>
  C12. Live trading starts guarded: a live start that passes every check is confirmed, is neither paper nor dry-run, signs with the
  remote HSM over mutual TLS, has a pool, both mints, on-chain risk data and a pinned signer, trades a CLMM pool of
  classic SPL tokens only, simulates nobody, has a liquidity floor of 20 SOL and a trailing stop that is off or
  below half and armed at a profit.
\<close>

theorem live_start_guarded:
  assumes "startup_checks parse env a = Inr (policy, signer, payer)" "ar_live a"
  shows "ar_confirm_live a \<and> \<not> ar_paper a \<and> \<not> ar_dry_run a
    \<and> ar_hsm_endpoint a \<noteq> None \<and> ar_hsm_ca a \<noteq> None \<and> ar_hsm_client_identity a \<noteq> None
    \<and> ar_pool_id a \<noteq> None \<and> ar_input_mint a \<noteq> None \<and> ar_output_mint a \<noteq> None \<and> ar_live_risk_data a
    \<and> (\<exists>text k. ar_expected_signer a = Some text \<and> parse text = Some k \<and> signer = Some k)
    \<and> policy = ClassicOnly \<and> ar_amm a = Clmm \<and> payer = None
    \<and> (\<exists>x. ar_min_liquidity_sol a = Some x \<and> 20 \<le> x)
    \<and> (ar_trailing_stop_bps a = 0 \<or> ar_trailing_stop_bps a < 5000 \<and> ar_trailing_activation_bps a \<noteq> 0)"
proof -
  have "ar_amm a = Clmm" if "validate_amm (ar_amm a) (ar_paper a) True (ar_dry_run a) p = Inr ()" for p
    using that by (cases "ar_amm a") (simp_all add: validate_amm_def)
  then show ?thesis
    using assms
    by (auto simp: startup_checks_def validate_signing_config_def validate_live_args_def select_token_policy_def
        validate_min_liquidity_def validate_trailing_stop_def MIN_LIQUIDITY_FLOOR_SOL_def ok_iff not_le
        split: if_splits option.splits)
qed

definition live_args_example :: args where
  "live_args_example =
     \<lparr> ar_live = True, ar_dry_run = False, ar_paper = False, ar_confirm_live = True, ar_hsm_endpoint = Some ''hsm'',
       ar_hsm_ca = Some ''ca'', ar_hsm_client_identity = Some ''id'', ar_pool_id = Some ''pool'',
       ar_input_mint = Some ''sol'', ar_output_mint = Some ''token'', ar_live_risk_data = True,
       ar_expected_signer = Some ''me'', ar_simulate_payer = None, ar_paper_token_2022 = False, ar_amm = Clmm,
       ar_min_liquidity_sol = Some 50, ar_trailing_stop_bps = 300, ar_trailing_activation_bps = 500,
       ar_max_slippage_bps = 100, ar_exit_slippage_escalation = True, ar_max_price_impact_bps = 100,
       ar_max_position_liquidity_bps = 50, ar_min_net_edge_bps = 0, ar_exit_impact_pct = 150,
       ar_failed_tx_reserve = 1, ar_compute_unit_limit = 200000, ar_priority_fee = 1000, ar_max_hold_secs = 600,
       ar_rpc = ''https'',
       ar_jito_endpoint = None, ar_jito_tip_lamports = 0, ar_jito_dry_run = False \<rparr>"

lemma live_example_starts:
  "startup_checks (\<lambda>_. Some [7]) EnvUnset live_args_example = Inr (ClassicOnly, Some [7], None)"
  by (simp add: startup_checks_def live_args_example_def validate_min_liquidity_def MIN_LIQUIDITY_FLOOR_SOL_def
      validate_trailing_stop_def production_defaults_unset map_err_def validate_position_size_invariant_def
      default_strategy_def production_config_def select_token_policy_def validate_amm_def validate_signing_config_def
      validate_live_args_def word_less_nat_alt word_le_nat_alt ensure_def)

theorem live_start_guarded_witness: "ar_confirm_live live_args_example \<and> ar_hsm_ca live_args_example \<noteq> None"
  using live_start_guarded [OF live_example_starts] by (simp add: live_args_example_def)

section \<open>The slippage of an exit\<close>

lemma exit_slippage_unat:
  "unat (exit_slippage_bps base f) = min (unat base * (1 + unat f)) (max 500 (unat base))"
proof -
  have f: "unat f < 4294967296" using unsigned_less [of f, where 'a = nat] by simp
  have "unat (ucast f :: u64) = unat f" using f by (simp add: unsigned_ucast_eq take_bit_nat_eq_self_iff)
  then have "unat (1 + ucast f :: u64) = 1 + unat f" using f by (subst unat_add_small) simp_all
  moreover have "max 500 (unat base) \<le> 2 ^ 64 - 1" using u64_le_max [of base] by simp
  ultimately show ?thesis
    by (simp add: exit_slippage_bps_def unat_min_word unat_sat_mul unat_max_of_word EXIT_MAX_SLIPPAGE_BPS_def)
qed

text \<open>
  Exits are never given up: the slippage of an exit attempt never falls below the configured one nor rises above 5 percent (or the
  configured one), it grows with every failure, and from 499 failures on a positive configured slippage is at its maximum.
\<close>

theorem exit_slippage_escalates:
  "base \<le> exit_slippage_bps base f \<and> exit_slippage_bps base f \<le> max 500 base
   \<and> exit_slippage_bps base f \<le> exit_slippage_bps base (max f g)
   \<and> (if base \<noteq> 0 \<and> 499 \<le> f then exit_slippage_bps base f = max 500 base else True)"
proof -
  have "unat base * (1 + unat f) \<le> unat base * (1 + unat (max f g))"
    by (rule mult_le_mono2) (simp add: unat_max_of_word)
  moreover have "max 500 (unat base) \<le> unat base * (1 + unat f)" if "base \<noteq> 0" "499 \<le> unat f"
  proof -
    have "1 * 500 \<le> unat base * (1 + unat f)" using that by (intro mult_le_mono) (simp_all add: Suc_le_eq unat_gt_0)
    moreover have "unat base * 1 \<le> unat base * (1 + unat f)" by (rule mult_le_mono2) simp
    ultimately show ?thesis by simp
  qed
  moreover have "unat base \<le> unat base * (1 + unat f)" by simp
  moreover have "unat base * (1 + unat f) \<noteq> 0" if "base \<noteq> 0" using that by (simp add: unat_eq_0)
  ultimately show ?thesis
    unfolding word_le_nat_alt word_unat_eq_iff [of "exit_slippage_bps base f"] exit_slippage_unat unat_max_of_word
    by (simp only: min.coboundedI2 min.bounded_iff min_le_iff_disj max.cobounded2 le_max_iff_disj simp_thms)
       (auto simp: min_def)
qed

section \<open>The economics gate\<close>

lemma price_impact_unat:
  "spot \<noteq> 0 \<Longrightarrow> exact < spot \<Longrightarrow> unat (price_impact_bps spot exact) = (unat spot - unat exact) * 10000 div unat spot"
proof -
  assume a: "spot \<noteq> 0" "exact < spot"
  have "unat (spot - exact) = unat spot - unat exact" using a(2) by (simp add: unat_sub_small word_less_nat_alt)
  moreover have "unat (spot - exact) * 10000 div unat spot < 2 ^ 64"
  proof -
    have "unat (spot - exact) * 10000 div unat spot \<le> unat spot * 10000 div unat spot"
      using calculation by (intro div_le_mono mult_le_mono1) simp
    also have "\<dots> = 10000" using a(1) by (simp add: unat_eq_0)
    finally show ?thesis by simp
  qed
  ultimately show ?thesis
    using a by (simp add: price_impact_bps_def not_le unat_u128_u64 unat_div_word)
qed

lemma position_ratio_unat:
  "position_liquidity_bps p l = Some r \<Longrightarrow> l \<noteq> 0 \<and> unat r = min (unat p * 10000 div unat l) (2 ^ 64 - 1)"
  by (auto simp: position_liquidity_bps_def Let_def sat_u64_def [symmetric] unat_sat_u64 unat_div_word split: if_splits)

text \<open>
  C27. The economics gate lets an entry through only when the simulated output is within the price impact limit of the spot quote, the
  liquidity of the pool was read and the position is within its share of it, and the edge after all costs
  reaches the minimum.
\<close>

theorem entry_economics_sound:
  assumes "entry_economics a spot exact fee_ppm position tip liquidity = Inr edge"
    and "ar_max_price_impact_bps a < 10000" "ar_max_position_liquidity_bps a < u64_max"
  shows "(unat spot - unat exact) * 10000 < (unat (ar_max_price_impact_bps a) + 1) * unat spot
    \<and> (\<exists>l. liquidity = Some l \<and> l \<noteq> 0
         \<and> unat position * 10000 < (unat (ar_max_position_liquidity_bps a) + 1) * unat l)
    \<and> ar_min_net_edge_bps a \<le> eb_net_edge_bps edge"
proof -
  define l where "l = (case liquidity of Some l \<Rightarrow> l | None \<Rightarrow> 0)"
  obtain r where impact: "price_impact_bps spot exact \<le> ar_max_price_impact_bps a"
    and r: "position_liquidity_bps position l = Some r" "r \<le> ar_max_position_liquidity_bps a"
    and edge: "ar_min_net_edge_bps a \<le> eb_net_edge_bps edge"
    using assms(1) by (auto simp: entry_economics_def Let_def ok_iff l_def not_less split: if_splits)
  have spot: "spot \<noteq> 0"
  proof
    assume "spot = 0"
    then have "10000 \<le> ar_max_price_impact_bps a" using impact by (simp add: price_impact_bps_def)
    then show False using assms(2) by simp
  qed
  have first: "(unat spot - unat exact) * 10000 < (unat (ar_max_price_impact_bps a) + 1) * unat spot"
  proof (cases "exact < spot")
    case True
    then have "(unat spot - unat exact) * 10000 div unat spot < unat (ar_max_price_impact_bps a) + 1"
      using impact price_impact_unat [OF spot True] by (simp add: word_le_nat_alt)
    then show ?thesis using spot by (simp add: div_less_iff_less_mult unat_gt_0)
  next
    case False
    then have "unat spot \<le> unat exact" by (simp add: not_less word_le_nat_alt)
    then show ?thesis using spot by (simp add: unat_gt_0)
  qed
  have l: "l \<noteq> 0" and ratio: "unat r = min (unat position * 10000 div unat l) (2 ^ 64 - 1)"
    using position_ratio_unat [OF r(1)] by auto
  have "unat r < 2 ^ 64 - 1" using r(2) assms(3) by (simp add: word_le_nat_alt word_less_nat_alt unat_max_word)
  then have "unat position * 10000 div unat l < unat (ar_max_position_liquidity_bps a) + 1"
    using ratio r(2) by (simp add: word_le_nat_alt)
  then have "unat position * 10000 < (unat (ar_max_position_liquidity_bps a) + 1) * unat l"
    using l by (simp add: div_less_iff_less_mult unat_gt_0)
  moreover have "liquidity = Some l" using l by (auto simp: l_def split: option.splits)
  ultimately show ?thesis using first edge l by blast
qed


lemma example_economics:
  "\<not> isl (entry_economics live_args_example 1000000 999000 2500 1000000000 0 (Some 500000000000))"
  by code_simp

theorem entry_economics_sound_witness:
  "\<exists>l. Some (500000000000 :: u64) = Some l \<and> unat (1000000000 :: u64) * 10000 < 51 * unat l"
proof -
  obtain edge where
    "entry_economics live_args_example 1000000 999000 2500 1000000000 0 (Some 500000000000) = Inr edge"
    using example_economics by (cases "entry_economics live_args_example 1000000 999000 2500 1000000000 0 (Some 500000000000)") auto
  from entry_economics_sound [OF this] show ?thesis by (auto simp: live_args_example_def)
qed

end
