(* ===== verification/Position.thy ===== *)
theory Position
  imports Prelude Solana Raydium
begin

text \<open>
  \<open>solana-sniper/src/position.rs\<close>: the record of the open live position, the entry that was sent but not booked, and the
  balances read from the chain.  A record file is absent, unreadable or holds a record; a write replaces it atomically
  or fails, as \<open>write_atomic\<close> promises.
\<close>

record live_position =
  lp_pool_id :: string
  lp_input_mint :: string
  lp_output_mint :: string
  lp_entry_sqrt_price :: string
  lp_size :: u64
  lp_cost :: u64
  lp_tokens :: u64
  lp_signature :: string
  lp_opened_at_ms :: u64
  lp_entry_liquidity :: u64
  lp_peak :: u64

record pending_entry =
  pe_signature :: string
  pe_blockhash :: string
  pe_before_in :: u64
  pe_before_out :: u64
  pe_position :: live_position

datatype 'a record_file = NoRecord | BadRecord | Record 'a

datatype file_error = UnreadableRecord | WriteError | RemoveError

definition load_record :: "'a record_file \<Rightarrow> file_error + 'a option" where
  "load_record f = (case f of NoRecord \<Rightarrow> Inr None | BadRecord \<Rightarrow> Inl UnreadableRecord | Record x \<Rightarrow> Inr (Some x))"

text \<open>Saving and clearing; the first argument tells whether the file system accepts the write.\<close>

definition save_record :: "bool \<Rightarrow> 'a \<Rightarrow> 'a record_file \<Rightarrow> (file_error + unit) \<times> 'a record_file" where
  "save_record ok x f = (if ok then (Inr (), Record x) else (Inl WriteError, f))"

definition clear_record :: "bool \<Rightarrow> 'a record_file \<Rightarrow> (file_error + unit) \<times> 'a record_file" where
  "clear_record ok f = (if f = NoRecord then (Inr (), f) else if ok then (Inr (), NoRecord) else (Inl RemoveError, f))"

definition parse_u128_or_0 :: "string \<Rightarrow> u128" where
  "parse_u128_or_0 s =
     (let ds = (case s of c # cs \<Rightarrow> if c = CHR ''+'' then cs else s | [] \<Rightarrow> [])
      in if ds = [] then 0
         else case parse_digits 0 ds of None \<Rightarrow> 0 | Some n \<Rightarrow> if n < 2 ^ 128 then of_nat n else 0)"

definition entry_sqrt :: "live_position \<Rightarrow> u128" where
  "entry_sqrt p = parse_u128_or_0 (lp_entry_sqrt_price p)"

definition position_matches :: "string \<Rightarrow> string \<Rightarrow> string \<Rightarrow> live_position \<Rightarrow> bool" where
  "position_matches pool input_mint output_mint p \<longleftrightarrow>
     lp_pool_id p = pool \<and> lp_input_mint p = input_mint \<and> lp_output_mint p = output_mint"

definition resolve_entry :: "pending_entry \<Rightarrow> u64 \<Rightarrow> u64 \<Rightarrow> live_position option" where
  "resolve_entry p after_in after_out =
     (if after_out \<le> pe_before_out p then None
      else Some ((pe_position p)\<lparr>lp_tokens := after_out - pe_before_out p,
                                 lp_cost := max (sat_sub (pe_before_in p) after_in) 1\<rparr>))"

text \<open>The casts to \<open>i64\<close> and the subtraction wrap at 64 bits.\<close>

definition realized_pnl :: "u64 \<Rightarrow> u64 \<Rightarrow> i64" where
  "realized_pnl cost proceeds = sint (proceeds - cost)"

datatype balance_error = BalanceRpc | NotATokenAccount

definition fetch_token_balance :: "(pubkey \<Rightarrow> string + bytes option) \<Rightarrow> pubkey \<Rightarrow> balance_error + u64" where
  "fetch_token_balance account_data account =
     (case account_data account of
        Inl _ \<Rightarrow> Inl BalanceRpc
      | Inr None \<Rightarrow> Inr 0
      | Inr (Some data) \<Rightarrow> if length data < 72 then Inl NotATokenAccount else Inr (u64_at data 64))"

definition fetch_mint_balance ::
    "'a solana_sdk_scheme \<Rightarrow> (pubkey \<Rightarrow> string + bytes option) \<Rightarrow> (pubkey \<Rightarrow> string + u64) \<Rightarrow> pubkey \<Rightarrow> pubkey
       \<Rightarrow> balance_error + u64" where
  "fetch_mint_balance sdk account_data lamports_of owner mint =
     and_then (fetch_token_balance account_data (resolve_user_ata sdk owner mint)) (\<lambda>token.
     if mint = key_of sdk NATIVE_MINT
     then (case lamports_of owner of Inl _ \<Rightarrow> Inl BalanceRpc | Inr lamports \<Rightarrow> Inr (sat_add lamports token))
     else Inr token)"

lemma realized_pnl_exact:
  assumes "unat cost < 2 ^ 63" "unat proceeds < 2 ^ 63"
  shows "realized_pnl cost proceeds = int (unat proceeds) - int (unat cost)"
proof -
  have "proceeds - cost = word_of_int (uint proceeds - uint cost)" by simp
  then have "sint (proceeds - cost) = signed_take_bit 63 (uint proceeds - uint cost)"
    by (simp only: signed_of_int) simp
  moreover have "- (2 ^ 63) \<le> uint proceeds - uint cost" "uint proceeds - uint cost < 2 ^ 63"
    using assms by (simp_all add: uint_nat)
  ultimately show ?thesis
    by (simp add: realized_pnl_def signed_take_bit_int_eq_self uint_nat)
qed

lemma resolved_holds_tokens:
  "resolve_entry p after_in after_out = Some pos \<Longrightarrow>
     unat (lp_tokens pos) + unat (pe_before_out p) = unat after_out \<and> lp_cost pos \<noteq> 0
     \<and> lp_pool_id pos = lp_pool_id (pe_position p) \<and> lp_size pos = lp_size (pe_position p)"
  by (auto simp: resolve_entry_def not_le unat_sub_small word_less_nat_alt max_def word_unat_eq_iff split: if_splits)

end
