(* ===== verification/Record_Files.thy ===== *)
theory Record_Files
  imports Position
begin

text \<open>
  \<open>solana-sniper/src/position.rs\<close>: \<open>write_atomic\<close> and the record files as bytes on a disk that may lose its power, and the lock on a data
  directory.  The operations of \<open>Position\<close> on a record file are refined by the ones here; a file system keeps what was synced
  and may keep or lose what was not.
\<close>

section \<open>One file and its temporary\<close>

text \<open>
  What the name shows, whether the bytes behind it were synced, and what it showed before since the directory was last synced: after a
  power loss the name may refer to any of them, and bytes that were not synced may be cut anywhere.
\<close>

record store =
  fs_path :: "bytes option"
  fs_path_synced :: bool
  fs_older :: "(bytes option \<times> bool) list"
  fs_tmp :: bytes
  fs_tmp_synced :: bool

fun may_read :: "bytes option \<times> bool \<Rightarrow> bytes option set" where
  "may_read (None, _) = {None}"
| "may_read (Some b, True) = {Some b}"
| "may_read (Some b, False) = (\<lambda>n. Some (take n b)) ` {..length b}"

definition survivors :: "store \<Rightarrow> bytes option set" where
  "survivors s = may_read (fs_path s, fs_path_synced s) \<union> \<Union> (may_read ` set (fs_older s))"

definition fs_create :: "store \<Rightarrow> store" where
  "fs_create s = s\<lparr>fs_tmp := [], fs_tmp_synced := False\<rparr>"

definition fs_write :: "nat option \<Rightarrow> bytes \<Rightarrow> store \<Rightarrow> store" where
  "fs_write stopped body s = s\<lparr>fs_tmp := (case stopped of None \<Rightarrow> body | Some n \<Rightarrow> take n body), fs_tmp_synced := False\<rparr>"

definition fs_sync :: "store \<Rightarrow> store" where
  "fs_sync s = s\<lparr>fs_tmp_synced := True\<rparr>"

definition fs_rename :: "store \<Rightarrow> store" where
  "fs_rename s = s\<lparr>fs_path := Some (fs_tmp s), fs_path_synced := fs_tmp_synced s,
                   fs_older := (fs_path s, fs_path_synced s) # fs_older s\<rparr>"

definition fs_sync_dir :: "store \<Rightarrow> store" where
  "fs_sync_dir s = s\<lparr>fs_older := []\<rparr>"

text \<open>What the file system answers to the calls of one write; a write may stop after some bytes.\<close>

record write_env =
  we_create :: bool
  we_stopped :: "nat option"
  we_sync :: bool
  we_rename :: bool
  we_dir_open :: bool
  we_dir_sync :: bool

datatype write_error = CannotCreate | CannotWrite | CannotRename

text \<open>The result, and every state the disk passes through: each is one a crash may stop in.\<close>

definition write_atomic :: "write_env \<Rightarrow> bytes \<Rightarrow> store \<Rightarrow> (write_error + unit) \<times> store list" where
  "write_atomic env body s =
     (if \<not> we_create env then (Inl CannotCreate, [s])
      else
        let s1 = fs_create s; s2 = fs_write (we_stopped env) body s1
        in if we_stopped env \<noteq> None \<or> \<not> we_sync env then (Inl CannotWrite, [s, s1, s2])
           else
             let s3 = fs_sync s2
             in if \<not> we_rename env then (Inl CannotRename, [s, s1, s2, s3])
                else
                  let s4 = fs_rename s3;
                      s5 = (if we_dir_open env then (if we_dir_sync env then fs_sync_dir s4 else s4) else s4)
                  in (Inr (), [s, s1, s2, s3, s4, s5]))"

definition durable_env :: "write_env \<Rightarrow> bool" where
  "durable_env env \<longleftrightarrow> we_dir_open env \<and> we_dir_sync env"

lemmas store_steps = fs_create_def fs_write_def fs_sync_def fs_rename_def fs_sync_dir_def

text \<open>
  C7. A crash never leaves a torn file.  In every state a write passes through, whatever fails, the name shows the old bytes or the whole
  new ones, and a power loss leaves bytes that were possible before the write or the whole new ones.  A write that reports an
  error leaves the file as it was; one that reports success shows the new bytes, and they are the only ones a power
  loss can leave once the directory was synced.
\<close>

theorem write_never_torn:
  "case write_atomic env body s of (result, states) \<Rightarrow>
     list_all (\<lambda>t. fs_path t \<in> {fs_path s, Some body} \<and> survivors t \<subseteq> insert (Some body) (survivors s)) states
     \<and> (case result of
          Inl _ \<Rightarrow> fs_path (last states) = fs_path s \<and> survivors (last states) = survivors s
        | Inr _ \<Rightarrow> fs_path (last states) = Some body
            \<and> (if durable_env env then survivors (last states) = {Some body}
                else survivors (last states) = insert (Some body) (survivors s)))"
  by (auto simp: write_atomic_def Let_def store_steps survivors_def durable_env_def)

definition flawless :: write_env where
  "flawless = \<lparr> we_create = True, we_stopped = None, we_sync = True, we_rename = True, we_dir_open = True, we_dir_sync = True \<rparr>"

text \<open>A failed sync of the directory is ignored: success is reported although a power loss may bring the old bytes back.\<close>

lemma reported_write_may_be_lost:
  "fst (write_atomic (flawless\<lparr>we_dir_sync := False\<rparr>) body s) = Inr ()"
  "survivors s \<subseteq> survivors (last (snd (write_atomic (flawless\<lparr>we_dir_sync := False\<rparr>) body s)))"
  by (auto simp: write_atomic_def flawless_def Let_def store_steps survivors_def)

section \<open>Records in files\<close>

text \<open>\<open>path.exists()\<close> is also false when the name cannot be examined; \<open>decode\<close> covers UTF-8 and JSON.\<close>

record read_env =
  re_stat :: bool
  re_read :: bool

definition load_file :: "(bytes \<Rightarrow> string + 'a) \<Rightarrow> read_env \<Rightarrow> store \<Rightarrow> file_error + 'a option" where
  "load_file decode env s =
     (case fs_path s of
        None \<Rightarrow> Inr None
      | Some b \<Rightarrow>
          if \<not> re_stat env then Inr None
          else if \<not> re_read env then Inl UnreadableRecord
          else (case decode b of Inl _ \<Rightarrow> Inl UnreadableRecord | Inr x \<Rightarrow> Inr (Some x)))"

definition save_file :: "('a \<Rightarrow> string + bytes) \<Rightarrow> write_env \<Rightarrow> 'a \<Rightarrow> store \<Rightarrow> (file_error + unit) \<times> store list" where
  "save_file encode env x s =
     (case encode x of
        Inl _ \<Rightarrow> (Inl WriteError, [s])
      | Inr body \<Rightarrow> (case write_atomic env body s of
           (Inl _, states) \<Rightarrow> (Inl WriteError, states)
         | (Inr _, states) \<Rightarrow> (Inr (), states)))"

text \<open>\<open>remove_file\<close> takes the name away without a sync of the directory; a missing file is a success.\<close>

definition clear_file :: "bool \<Rightarrow> store \<Rightarrow> (file_error + unit) \<times> store" where
  "clear_file ok s =
     (case fs_path s of
        None \<Rightarrow> (Inr (), s)
      | Some _ \<Rightarrow>
          if ok then (Inr (), s\<lparr>fs_path := None, fs_path_synced := True, fs_older := (fs_path s, fs_path_synced s) # fs_older s\<rparr>)
          else (Inl RemoveError, s))"

text \<open>The record file of \<open>Position\<close> that a store implements, and when the file system accepts a write.\<close>

definition file_of :: "(bytes \<Rightarrow> string + 'a) \<Rightarrow> store \<Rightarrow> 'a record_file" where
  "file_of decode s =
     (case fs_path s of None \<Rightarrow> NoRecord | Some b \<Rightarrow> (case decode b of Inl _ \<Rightarrow> BadRecord | Inr x \<Rightarrow> Record x))"

definition write_accepted :: "write_env \<Rightarrow> bool" where
  "write_accepted env \<longleftrightarrow> we_create env \<and> we_stopped env = None \<and> we_sync env \<and> we_rename env"

text \<open>
  C8. The record files refine the abstract ones the crash recovery is proved over: for a record that is read back as it was written, saving
  is \<open>save_record\<close>, loading from a readable name is \<open>load_record\<close> and clearing is \<open>clear_record\<close>, with the
  same results, whatever the file system answers.
\<close>

theorem record_files_refine:
  assumes "encode x = Inr body" "decode body = Inr x"
  shows "(case save_file encode env x s of (r, states) \<Rightarrow> (r, file_of decode (last states)))
            = save_record (write_accepted env) x (file_of decode s)
         \<and> load_file decode \<lparr> re_stat = True, re_read = readable \<rparr> s
            = (if readable \<or> fs_path s = None then load_record (file_of decode s) else Inl UnreadableRecord)
         \<and> (case clear_file ok s of (r, t) \<Rightarrow> (r, file_of decode t)) = clear_record ok (file_of decode s)"
proof (intro conjI)
  show "(case save_file encode env x s of (r, states) \<Rightarrow> (r, file_of decode (last states)))
          = save_record (write_accepted env) x (file_of decode s)"
    using assms
    by (auto simp: save_file_def write_atomic_def Let_def store_steps save_record_def write_accepted_def file_of_def)
  show "load_file decode \<lparr> re_stat = True, re_read = readable \<rparr> s
          = (if readable \<or> fs_path s = None then load_record (file_of decode s) else Inl UnreadableRecord)"
    by (auto simp: load_file_def load_record_def file_of_def split: option.split sum.split)
  show "(case clear_file ok s of (r, t) \<Rightarrow> (r, file_of decode t)) = clear_record ok (file_of decode s)"
    by (auto simp: clear_file_def clear_record_def file_of_def split: option.split sum.split)
qed

definition blank_store :: store where
  "blank_store = \<lparr> fs_path = None, fs_path_synced = True, fs_older = [], fs_tmp = [], fs_tmp_synced = False \<rparr>"

definition one_byte :: "bytes \<Rightarrow> string + u8" where
  "one_byte b = (case b of [x] \<Rightarrow> Inr x | _ \<Rightarrow> Inl ''corrupt'')"

theorem record_files_refine_witness:
  "(case save_file (\<lambda>x. Inr [x]) flawless 7 blank_store of (r, states) \<Rightarrow> (r, file_of one_byte (last states)))
     = (Inr (), Record 7)"
  using record_files_refine [of "\<lambda>x. Inr [x]" 7 "[7]" one_byte flawless blank_store True True]
  by (simp add: one_byte_def save_record_def write_accepted_def flawless_def)

text \<open>
  A record whose name cannot be examined counts as absent.  A record that was cleared may return after a power loss; its owner repairs that at
  the next start.
\<close>

lemma hidden_record_is_absent: "load_file decode (env\<lparr>re_stat := False\<rparr>) s = Inr None"
  by (simp add: load_file_def split: option.split)

lemma cleared_record_may_return:
  "fst (clear_file True s) = Inr () \<and> survivors s \<subseteq> survivors (snd (clear_file True s))"
  by (auto simp: clear_file_def survivors_def split: option.split)

section \<open>The lock on a data directory\<close>

text \<open>
  The lock belongs to the process that holds the open file and goes with it, also when the process is killed.  The environment tells
  whether the directory, the file and the lock call work.
\<close>

record lock_env =
  le_dir :: bool
  le_open :: bool
  le_try :: bool

datatype lock_error = LockDirError | LockOpenError | LockHeld | LockFailed

definition acquire :: "lock_env \<Rightarrow> nat \<Rightarrow> nat option \<Rightarrow> (lock_error + unit) \<times> nat option" where
  "acquire env pid holder =
     (if \<not> le_dir env then (Inl LockDirError, holder)
      else if \<not> le_open env then (Inl LockOpenError, holder)
      else if \<not> le_try env then (Inl LockFailed, holder)
      else case holder of None \<Rightarrow> (Inr (), Some pid) | Some _ \<Rightarrow> (Inl LockHeld, holder))"

text \<open>The processes of the bot on one data directory; only a live one takes the lock, and it ends when it cannot.\<close>

record host =
  ho_live :: "nat list"
  ho_others :: "nat list"
  ho_lock :: "nat option"

definition host_boot :: host where
  "host_boot = \<lparr> ho_live = [], ho_others = [], ho_lock = None \<rparr>"

datatype host_event = StartProcess bool nat lock_env | EndProcess nat

fun host_step :: "host_event \<Rightarrow> host \<Rightarrow> host" where
  "host_step (StartProcess live pid env) h =
     (if pid \<in> set (ho_live h @ ho_others h) then h
      else if live then
        (case acquire env pid (ho_lock h) of
           (Inl _, _) \<Rightarrow> h
         | (Inr _, l) \<Rightarrow> h\<lparr>ho_live := pid # ho_live h, ho_lock := l\<rparr>)
      else h\<lparr>ho_others := pid # ho_others h\<rparr>)"
| "host_step (EndProcess pid) h =
     h\<lparr>ho_live := removeAll pid (ho_live h), ho_others := removeAll pid (ho_others h),
       ho_lock := (if ho_lock h = Some pid then None else ho_lock h)\<rparr>"

definition lock_inv :: "host \<Rightarrow> bool" where
  "lock_inv h \<longleftrightarrow> ho_live h = (case ho_lock h of None \<Rightarrow> [] | Some pid \<Rightarrow> [pid])"

lemma lock_inv_step: "lock_inv h \<Longrightarrow> lock_inv (host_step e h)"
  by (cases e) (auto simp: lock_inv_def acquire_def split: option.splits sum.splits prod.splits if_splits)

lemma lock_inv_run: "lock_inv h \<Longrightarrow> lock_inv (fold host_step es h)"
  by (induction es arbitrary: h) (simp_all add: lock_inv_step)

text \<open>
  C9. At most one live process runs on a data directory, over any starts and ends, crashes included: while one runs every other live start is
  refused, and once it has ended, in whatever way, the next one gets the lock.
\<close>

theorem one_live_process:
  "let h = fold host_step es host_boot; start = fst (acquire \<lparr> le_dir = True, le_open = True, le_try = True \<rparr> pid (ho_lock h))
   in length (ho_live h) \<le> 1 \<and> (case ho_live h of [] \<Rightarrow> start = Inr () | _ # _ \<Rightarrow> start = Inl LockHeld)"
proof -
  have "lock_inv (fold host_step es host_boot)" by (rule lock_inv_run) (simp add: lock_inv_def host_boot_def)
  then show ?thesis by (auto simp: lock_inv_def acquire_def Let_def split: option.splits)
qed

end
