(* ===== verification/Live_Entry.thy ===== *)
theory Live_Entry
  imports Position Live_Args "HOL-Library.Sublist"
begin

text \<open>
  \<open>solana-sniper/src/main.rs\<close>: what a live entry writes and in which order, and what a live start does with what it finds:
  the reconciliation of an entry that was sent but not booked, the resumption of the open position, the refusal of orphan
  tokens.  The answers of the node and the file system are fields of records.  A crash is a prefix of the writes followed by a start.
\<close>

section \<open>The world that survives\<close>

record live_world =
  lw_risk :: risk_manager
  lw_position :: "live_position record_file"
  lw_pending :: "pending_entry record_file"

datatype entry_step =
    SavePending pending_entry | Submit | ClearPending | SavePosition live_position
  | DoTrade | DoOpen u64 | DoKill | DoLoss u64

fun do_step :: "risk_config \<Rightarrow> risk_env \<Rightarrow> entry_step \<Rightarrow> live_world \<Rightarrow> live_world" where
  "do_step cfg env (SavePending p) w = w\<lparr>lw_pending := Record p\<rparr>"
| "do_step cfg env Submit w = w"
| "do_step cfg env ClearPending w = w\<lparr>lw_pending := NoRecord\<rparr>"
| "do_step cfg env (SavePosition p) w = w\<lparr>lw_position := Record p\<rparr>"
| "do_step cfg env DoTrade w = w\<lparr>lw_risk := record_trade cfg env (lw_risk w)\<rparr>"
| "do_step cfg env (DoOpen n) w = w\<lparr>lw_risk := record_position_open env n (lw_risk w)\<rparr>"
| "do_step cfg env DoKill w = w\<lparr>lw_risk := trigger_kill_switch (lw_risk w)\<rparr>"
| "do_step cfg env (DoLoss n) w = w\<lparr>lw_risk := snd (record_loss cfg env n (lw_risk w))\<rparr>"

section \<open>Sending and booking an entry\<close>

record entry_env =
  en_pending_saved :: bool
  en_submitted :: "string option"    \<comment> \<open>the signature of a confirmed submission\<close>
  en_recheck :: "u64 option"         \<comment> \<open>the output balance after a submission error\<close>
  en_in_after :: "u64 option"
  en_out_after :: "u64 option"
  en_position_saved :: bool
  en_pending_cleared :: bool
  en_now_ms :: u64

datatype entry_failure = EntryNotLanded | EntryOutcomeUnknown

definition entry_outcome :: "entry_env \<Rightarrow> pending_entry \<Rightarrow> entry_failure + string" where
  "entry_outcome en p =
     (case en_submitted en of
        Some sig \<Rightarrow> Inr sig
      | None \<Rightarrow>
          (case en_recheck en of
             Some after \<Rightarrow> if pe_before_out p < after then Inr (pe_signature p) else Inl EntryNotLanded
           | None \<Rightarrow> Inl EntryOutcomeUnknown))"

definition booked_position :: "entry_env \<Rightarrow> pending_entry \<Rightarrow> u64 \<Rightarrow> string \<Rightarrow> live_position" where
  "booked_position en p min_output sig =
     (let cost = (case en_in_after en of Some after \<Rightarrow> sat_sub (pe_before_in p) after | None \<Rightarrow> lp_size (pe_position p));
          tokens = (case en_out_after en of Some after \<Rightarrow> sat_sub after (pe_before_out p) | None \<Rightarrow> min_output)
      in (pe_position p)\<lparr>lp_cost := max cost 1, lp_tokens := tokens, lp_signature := sig, lp_opened_at_ms := en_now_ms en\<rparr>)"

definition clear_step :: "entry_env \<Rightarrow> entry_step list" where
  "clear_step en = (if en_pending_cleared en then [ClearPending] else [])"

text \<open>The writes of an entry in their order, and the position the loop goes on to manage.\<close>

definition settle_entry :: "entry_env \<Rightarrow> pending_entry \<Rightarrow> u64 \<Rightarrow> entry_step list \<times> live_position option" where
  "settle_entry en p min_output =
     (if \<not> en_pending_saved en then ([], None)
      else
        case entry_outcome en p of
          Inr sig \<Rightarrow>
            let pos = booked_position en p min_output sig
            in ([SavePending p, Submit] @ (if en_position_saved en then [SavePosition pos] else [DoKill])
                @ [DoTrade, DoOpen (lp_size (pe_position p))] @ clear_step en, Some pos)
        | Inl EntryNotLanded \<Rightarrow> ([SavePending p, Submit] @ clear_step en @ [DoLoss 5000], None)
        | Inl EntryOutcomeUnknown \<Rightarrow> ([SavePending p, Submit, DoKill, DoLoss 5000], None))"

section \<open>A live start\<close>

record start_env =
  st_risk_env :: risk_env
  st_confirm :: bool                   \<comment> \<open>\<open>confirm_transaction\<close> returned Ok\<close>
  st_owner :: "pubkey option"          \<comment> \<open>the fee payer of the transaction, when it could be read\<close>
  st_in_after :: "balance_error + u64"
  st_out_after :: "balance_error + u64"
  st_save_ok :: bool
  st_clear_ok :: bool
  st_signer :: "string + pubkey"
  st_ata :: "string + raw_account option"

datatype start_error =
    PendingUnreadable | PositionUnreadable | BadPendingSignature | BadPendingBlockhash | BadPendingMint
  | ConfirmedButUnreadable | BalanceUnreadable balance_error | RecordWrite file_error | OtherPool
  | CountWithoutRecord u64 | SignerUnavailable | SignerMismatch | AtaUnreadable | BadTokenAccount | OrphanTokens u64
  | BadOutputMint

record parsers =
  parse_signature :: "string \<Rightarrow> bool"
  parse_hash :: "string \<Rightarrow> bool"
  parse_mint :: "string \<Rightarrow> pubkey option"

definition clear_pending :: "start_env \<Rightarrow> live_world \<Rightarrow> (start_error + unit) \<times> live_world" where
  "clear_pending st w =
     (case clear_record (st_clear_ok st) (lw_pending w) of (r, f) \<Rightarrow> (map_err RecordWrite r, w\<lparr>lw_pending := f\<rparr>))"

text \<open>The last part: the balances decide.\<close>

definition book_landed :: "risk_config \<Rightarrow> start_env \<Rightarrow> pending_entry \<Rightarrow> live_world \<Rightarrow> (start_error + unit) \<times> live_world" where
  "book_landed cfg st p w =
     (case st_in_after st of
        Inl e \<Rightarrow> (Inl (BalanceUnreadable e), w)
      | Inr after_in \<Rightarrow>
        (case st_out_after st of
           Inl e \<Rightarrow> (Inl (BalanceUnreadable e), w)
         | Inr after_out \<Rightarrow>
           (case resolve_entry p after_in after_out of
              None \<Rightarrow> clear_pending st w
            | Some pos \<Rightarrow>
                if \<not> st_save_ok st then (Inl (RecordWrite WriteError), w)
                else clear_pending st
                       (w\<lparr>lw_position := Record pos,
                          lw_risk := record_position_open (st_risk_env st) (lp_size pos)
                                       (record_trade cfg (st_risk_env st) (lw_risk w))\<rparr>))))"

definition reconcile_pending_entry ::
    "parsers \<Rightarrow> risk_config \<Rightarrow> start_env \<Rightarrow> live_world \<Rightarrow> (start_error + unit) \<times> live_world" where
  "reconcile_pending_entry ps cfg st w =
     (case load_record (lw_pending w) of
        Inl _ \<Rightarrow> (Inl PendingUnreadable, w)
      | Inr None \<Rightarrow> (Inr (), w)
      | Inr (Some p) \<Rightarrow>
        (case load_record (lw_position w) of
           Inl _ \<Rightarrow> (Inl PositionUnreadable, w)
         | Inr (Some _) \<Rightarrow> clear_pending st w
         | Inr None \<Rightarrow>
           if \<not> parse_signature ps (pe_signature p) then (Inl BadPendingSignature, w)
           else if \<not> parse_hash ps (pe_blockhash p) then (Inl BadPendingBlockhash, w)
           else if parse_mint ps (lp_input_mint (pe_position p)) = None \<or> parse_mint ps (lp_output_mint (pe_position p)) = None
           then (Inl BadPendingMint, w)
           else
             case st_owner st of
               None \<Rightarrow> if \<not> st_confirm st then clear_pending st w else (Inl ConfirmedButUnreadable, w)
             | Some _ \<Rightarrow> book_landed cfg st p w))"

definition validate_hsm_pubkey :: "pubkey \<Rightarrow> pubkey option \<Rightarrow> start_error + unit" where
  "validate_hsm_pubkey reported expected =
     (case expected of Some k \<Rightarrow> ensure (k = reported) SignerMismatch | None \<Rightarrow> Inr ())"

text \<open>Without a position record the token account of the wallet must be empty.\<close>

definition check_orphan ::
    "parsers \<Rightarrow> pubkey \<Rightarrow> start_env \<Rightarrow> pubkey option \<Rightarrow> string \<Rightarrow> start_error + unit" where
  "check_orphan ps spl_token st expected output_mint =
     and_then (map_err (\<lambda>_. SignerUnavailable) (st_signer st)) (\<lambda>signer.
     and_then (validate_hsm_pubkey signer expected) (\<lambda>_.
     and_then (ok_or BadOutputMint (parse_mint ps output_mint)) (\<lambda>_.
     and_then (map_err (\<lambda>_. AtaUnreadable) (st_ata st)) (\<lambda>account.
     case account of
       None \<Rightarrow> Inr ()
     | Some (owner, data) \<Rightarrow>
         and_then (ensure (\<not> (owner \<noteq> spl_token \<or> length data < 72)) BadTokenAccount) (\<lambda>_.
         ensure (u64_at data 64 = 0) (OrphanTokens (u64_at data 64)))))))"

definition resume_position ::
    "parsers \<Rightarrow> pubkey \<Rightarrow> args \<Rightarrow> pubkey option \<Rightarrow> start_env \<Rightarrow> live_world
       \<Rightarrow> (start_error + live_position option) \<times> live_world" where
  "resume_position ps spl_token a expected st w =
     (let or_empty = (\<lambda>v. case v of Some x \<Rightarrow> x | None \<Rightarrow> [])
      in case load_record (lw_position w) of
        Inl _ \<Rightarrow> (Inl PositionUnreadable, w)
      | Inr (Some p) \<Rightarrow>
          if \<not> position_matches (or_empty (ar_pool_id a)) (or_empty (ar_input_mint a)) (or_empty (ar_output_mint a)) p
          then (Inl OtherPool, w)
          else (Inr (Some p),
                if rm_open_positions (lw_risk w) = 0
                then w\<lparr>lw_risk := record_position_open (st_risk_env st) (lp_size p) (lw_risk w)\<rparr> else w)
      | Inr None \<Rightarrow>
          if rm_open_positions (lw_risk w) \<noteq> 0 then (Inl (CountWithoutRecord (rm_open_positions (lw_risk w))), w)
          else (and_then (check_orphan ps spl_token st expected (or_empty (ar_output_mint a))) (\<lambda>_. Inr None), w))"

definition start_live ::
    "parsers \<Rightarrow> pubkey \<Rightarrow> risk_config \<Rightarrow> args \<Rightarrow> pubkey option \<Rightarrow> start_env \<Rightarrow> live_world
       \<Rightarrow> (start_error + live_position option) \<times> live_world" where
  "start_live ps spl_token cfg a expected st w =
     (case reconcile_pending_entry ps cfg st w of
        (Inl e, w) \<Rightarrow> (Inl e, w)
      | (Inr _, w) \<Rightarrow> resume_position ps spl_token a expected st w)"

text \<open>A crash loses the memory: the risk manager is read back from its file.\<close>

definition crash :: "nat \<Rightarrow> live_world \<Rightarrow> live_world" where
  "crash now w = w\<lparr>lw_risk := risk_new now (rm_file (lw_risk w)) []\<rparr>"

section \<open>No crash loses a bought position\<close>

text \<open>The open positions in memory and on disk.\<close>

definition open_count :: "nat \<Rightarrow> risk_manager \<Rightarrow> bool" where
  "open_count n rm \<longleftrightarrow> rm_open_positions rm = of_nat n \<and> pr_open_positions (fst (load_state (rm_file rm))) = of_nat n"

lemma open_count_steps:
  assumes "env_persist env = Written" "open_count n rm"
  shows "open_count n (record_trade cfg env rm)" "open_count (n + 1) (record_position_open env l rm)"
    "open_count n (trigger_kill_switch rm)" "open_count n (snd (record_loss cfg env x rm))"
    "open_count n (risk_new now (rm_file rm) [])"
  using assms
  by (auto simp: open_count_def risk_op_defs risk_new_def load_state_def split: risk_file.splits)

lemma record_open_count: "rm_open_positions (record_position_open env l rm) = rm_open_positions rm + 1"
  by (simp add: record_position_open_def)

lemma record_trade_count: "rm_open_positions (record_trade cfg env rm) = rm_open_positions rm"
  by (simp add: record_trade_def Let_def)

text \<open>What a crash can leave behind once the entry was submitted.\<close>

definition recoverable :: "entry_env \<Rightarrow> pending_entry \<Rightarrow> u64 \<Rightarrow> live_world \<Rightarrow> bool" where
  "recoverable en p min_output w \<longleftrightarrow>
     lw_position w = NoRecord \<and> lw_pending w = Record p \<and> open_count 0 (lw_risk w)
     \<or> (\<exists>sig. lw_position w = Record (booked_position en p min_output sig)
          \<and> lw_pending w \<in> {NoRecord, Record p} \<and> (open_count 0 (lw_risk w) \<or> open_count 1 (lw_risk w)))"

lemma prefixes_recoverable:
  assumes "prefix steps (fst (settle_entry en p min_output))" "Submit \<in> set steps"
    and "en_position_saved en" "\<And>b. en_recheck en = Some b \<Longrightarrow> pe_before_out p < b"
    and "lw_position w = NoRecord" "open_count 0 (lw_risk w)" "env_persist env = Written"
  shows "recoverable en p min_output (fold (do_step cfg env) steps w)"
proof -
  note cnt = open_count_steps [OF assms(7)]
  have saved: "en_pending_saved en"
  proof (rule ccontr)
    assume "\<not> en_pending_saved en"
    then have "steps = []" using assms(1) by (simp add: settle_entry_def)
    then show False using assms(2) by simp
  qed
  show ?thesis
  proof (cases "entry_outcome en p")
    case (Inr sig)
    let ?pos = "booked_position en p min_output sig"
    have "prefix steps ([SavePending p, Submit, SavePosition ?pos, DoTrade, DoOpen (lp_size (pe_position p))] @ clear_step en)"
      using assms(1,3) saved Inr by (simp add: settle_entry_def Let_def)
    then show ?thesis
      using assms(2,5,6) cnt(1) [OF assms(6)] cnt(2) [OF cnt(1) [OF assms(6)]]
      by (auto simp: recoverable_def prefix_Cons clear_step_def split: if_splits)
  next
    case (Inl f)
    then have "f = EntryOutcomeUnknown"
      using assms(4) by (auto simp: entry_outcome_def split: option.splits if_splits)
    then have "prefix steps [SavePending p, Submit, DoKill, DoLoss 5000]"
      using assms(1) saved Inl by (simp add: settle_entry_def)
    then show ?thesis
      using assms(2,5,6) cnt(3) [OF assms(6)] cnt(4) [OF cnt(3) [OF assms(6)]]
      by (auto simp: recoverable_def prefix_Cons)
  qed
qed

lemma crash_recoverable: "recoverable en p mo w \<Longrightarrow> recoverable en p mo (crash now w)"
  by (auto simp: recoverable_def crash_def open_count_def risk_new_def load_state_def write_audit_def
      split: risk_file.splits)

definition args_match :: "args \<Rightarrow> live_position \<Rightarrow> bool" where
  "args_match a p \<longleftrightarrow> ar_pool_id a = Some (lp_pool_id p) \<and> ar_input_mint a = Some (lp_input_mint p)
     \<and> ar_output_mint a = Some (lp_output_mint p)"

text \<open>What the node answers about an entry that landed.\<close>

definition chain_shows_landed :: "parsers \<Rightarrow> start_env \<Rightarrow> pending_entry \<Rightarrow> bool" where
  "chain_shows_landed ps st p \<longleftrightarrow>
     st_owner st \<noteq> None \<and> (\<exists>i. st_in_after st = Inr i) \<and> (\<exists>out. st_out_after st = Inr out \<and> pe_before_out p < out)
     \<and> parse_signature ps (pe_signature p) \<and> parse_hash ps (pe_blockhash p)
     \<and> parse_mint ps (lp_input_mint (pe_position p)) \<noteq> None \<and> parse_mint ps (lp_output_mint (pe_position p)) \<noteq> None"

lemma clear_pending_ok: "st_clear_ok st \<Longrightarrow> clear_pending st w = (Inr (), w\<lparr>lw_pending := NoRecord\<rparr>)"
  by (cases "lw_pending w") (auto simp: clear_pending_def clear_record_def map_err_def)

lemma resume_found:
  assumes "lw_position w = Record pos" "args_match a pos" "open_count 0 (lw_risk w) \<or> open_count 1 (lw_risk w)"
  shows "\<exists>rm. resume_position ps spl a expected st w = (Inr (Some pos), w\<lparr>lw_risk := rm\<rparr>) \<and> rm_open_positions rm = 1"
  using assms by (auto simp: resume_position_def load_record_def position_matches_def args_match_def open_count_def
      record_open_count Let_def intro: exI [of _ "lw_risk w"])

lemma recoverable_starts:
  assumes "recoverable en p mo w" "chain_shows_landed ps st p" "st_save_ok st" "st_clear_ok st"
    and "args_match a (pe_position p)"
  shows "\<exists>pos w'. start_live ps spl cfg a expected st w = (Inr (Some pos), w')
    \<and> lw_position w' = Record pos \<and> lw_pending w' = NoRecord \<and> rm_open_positions (lw_risk w') = 1
    \<and> args_match a pos \<and> lp_size pos = lp_size (pe_position p)"
proof -
  consider (unbooked) "lw_position w = NoRecord" "lw_pending w = Record p" "open_count 0 (lw_risk w)"
    | (booked) sig where "lw_position w = Record (booked_position en p mo sig)" "lw_pending w \<in> {NoRecord, Record p}"
        "open_count 0 (lw_risk w) \<or> open_count 1 (lw_risk w)"
    using assms(1) unfolding recoverable_def by blast
  then show ?thesis
  proof cases
    case w: unbooked
    obtain i out where ans: "st_in_after st = Inr i" "st_out_after st = Inr out" "pe_before_out p < out"
      using assms(2) by (auto simp: chain_shows_landed_def)
    obtain pos where pos: "resolve_entry p i out = Some pos"
      using ans(3) by (simp add: resolve_entry_def not_le [symmetric])
    have m: "args_match a pos" "lp_size pos = lp_size (pe_position p)"
      using pos assms(5) by (auto simp: resolve_entry_def args_match_def split: if_splits)
    define w1 where "w1 = w\<lparr>lw_position := Record pos, lw_pending := NoRecord,
      lw_risk := record_position_open (st_risk_env st) (lp_size pos) (record_trade cfg (st_risk_env st) (lw_risk w))\<rparr>"
    have "reconcile_pending_entry ps cfg st w = (Inr (), w1)"
      using w assms(2,3,4) ans pos
      by (auto simp: reconcile_pending_entry_def load_record_def chain_shows_landed_def book_landed_def clear_pending_ok w1_def)
    moreover have "rm_open_positions (lw_risk w1) = 1"
      using w(3) by (simp add: w1_def record_open_count record_trade_count open_count_def)
    ultimately have "start_live ps spl cfg a expected st w = (Inr (Some pos), w1)"
      using m(1) by (simp add: start_live_def resume_position_def load_record_def w1_def position_matches_def args_match_def)
    then show ?thesis using m \<open>rm_open_positions (lw_risk w1) = 1\<close> by (simp add: w1_def)
  next
    case w: booked
    let ?pos = "booked_position en p mo sig"
    have m: "args_match a ?pos" "lp_size ?pos = lp_size (pe_position p)"
      using assms(5) by (simp_all add: args_match_def booked_position_def Let_def)
    have rec: "reconcile_pending_entry ps cfg st w = (Inr (), w\<lparr>lw_pending := NoRecord\<rparr>)"
      using w assms(4) by (auto simp: reconcile_pending_entry_def load_record_def clear_pending_ok)
    obtain rm where "resume_position ps spl a expected st (w\<lparr>lw_pending := NoRecord\<rparr>)
        = (Inr (Some ?pos), w\<lparr>lw_pending := NoRecord, lw_risk := rm\<rparr>)" "rm_open_positions rm = 1"
      using resume_found [of "w\<lparr>lw_pending := NoRecord\<rparr>" ?pos a ps spl expected st] w(1,3) m(1) by auto
    then show ?thesis using rec m w(1) by (simp add: start_live_def)
  qed
qed

text \<open>
  An entry is on record as long as its pending record is there, or a position of its pool, mints and size.  The run forgets an
  entry when it removes the pending record although the position could not be written (the kill switch is on by then), or when the submission failed
  and the balance read afterwards showed no more tokens than before.  A start forgets it when it can remove the record and the node shows no
  transaction and no confirmation, or a balance no larger than before.
\<close>

definition same_entry :: "pending_entry \<Rightarrow> live_position \<Rightarrow> bool" where
  "same_entry p q \<longleftrightarrow> lp_pool_id q = lp_pool_id (pe_position p) \<and> lp_input_mint q = lp_input_mint (pe_position p)
     \<and> lp_output_mint q = lp_output_mint (pe_position p) \<and> lp_size q = lp_size (pe_position p)"

definition entry_on_record :: "pending_entry \<Rightarrow> live_world \<Rightarrow> bool" where
  "entry_on_record p w \<longleftrightarrow>
     (case lw_position w of Record q \<Rightarrow> same_entry p q | NoRecord \<Rightarrow> lw_pending w = Record p | _ \<Rightarrow> False)"

definition run_forgets :: "entry_env \<Rightarrow> pending_entry \<Rightarrow> entry_step list \<Rightarrow> bool" where
  "run_forgets en p steps \<longleftrightarrow>
     ClearPending \<in> set steps
     \<and> (\<not> en_position_saved en \<and> DoKill \<in> set steps
        \<or> en_submitted en = None \<and> (case en_recheck en of Some after \<Rightarrow> after \<le> pe_before_out p | None \<Rightarrow> False))"

definition start_forgets :: "pending_entry \<Rightarrow> start_env \<Rightarrow> bool" where
  "start_forgets p st \<longleftrightarrow>
     st_clear_ok st
     \<and> (st_owner st = None \<and> \<not> st_confirm st
        \<or> st_owner st \<noteq> None \<and> (case st_out_after st of Inr after \<Rightarrow> after \<le> pe_before_out p | Inl _ \<Rightarrow> False))"

lemma run_on_record:
  assumes "prefix steps (fst (settle_entry en p min_output))" "Submit \<in> set steps" "lw_position w = NoRecord"
  shows "entry_on_record p (fold (do_step cfg env) steps w) \<or> run_forgets en p steps"
proof -
  have saved: "en_pending_saved en"
  proof (rule ccontr)
    assume "\<not> en_pending_saved en"
    then have "steps = []" using assms(1) by (simp add: settle_entry_def)
    then show False using assms(2) by simp
  qed
  show ?thesis
  proof (cases "entry_outcome en p")
    case (Inr sig)
    let ?pos = "booked_position en p min_output sig"
    have same: "same_entry p ?pos" by (simp add: same_entry_def booked_position_def Let_def)
    have "prefix steps ([SavePending p, Submit] @ (if en_position_saved en then [SavePosition ?pos] else [DoKill])
        @ [DoTrade, DoOpen (lp_size (pe_position p))] @ clear_step en)"
      using assms(1) saved Inr by (simp add: settle_entry_def Let_def)
    then show ?thesis
      using assms(2,3) same by (auto simp: entry_on_record_def run_forgets_def prefix_Cons clear_step_def split: if_splits)
  next
    case (Inl f)
    show ?thesis
    proof (cases f)
      case EntryNotLanded
      then have forgotten: "en_submitted en = None" "case en_recheck en of Some after \<Rightarrow> after \<le> pe_before_out p | None \<Rightarrow> False"
        using Inl by (auto simp: entry_outcome_def not_less split: option.splits if_splits)
      have "prefix steps ([SavePending p, Submit] @ clear_step en @ [DoLoss 5000])"
        using assms(1) saved Inl EntryNotLanded by (simp add: settle_entry_def)
      then show ?thesis
        using assms(2,3) forgotten by (auto simp: entry_on_record_def run_forgets_def prefix_Cons clear_step_def split: if_splits)
    next
      case EntryOutcomeUnknown
      then have "prefix steps [SavePending p, Submit, DoKill, DoLoss 5000]"
        using assms(1) saved Inl by (simp add: settle_entry_def)
      then show ?thesis using assms(2,3) by (auto simp: entry_on_record_def prefix_Cons)
    qed
  qed
qed

lemma crash_on_record: "entry_on_record p (crash now w) \<longleftrightarrow> entry_on_record p w"
  by (cases "lw_position w") (simp_all add: entry_on_record_def crash_def)

lemma clear_pending_records:
  "lw_position (snd (clear_pending st w)) = lw_position w"
  "lw_pending (snd (clear_pending st w)) = lw_pending w \<or> st_clear_ok st"
  by (simp_all add: clear_pending_def clear_record_def split: prod.split)

lemma resume_records:
  "lw_position (snd (resume_position ps spl a expected st w)) = lw_position w"
  "lw_pending (snd (resume_position ps spl a expected st w)) = lw_pending w"
  by (simp_all add: resume_position_def Let_def split: sum.split option.split)

lemma resolved_same: "resolve_entry p i out = Some q \<Longrightarrow> same_entry p q"
  by (auto simp: resolve_entry_def same_entry_def split: if_splits)

lemma book_on_record:
  assumes "lw_position w = NoRecord" "lw_pending w = Record p" "st_owner st \<noteq> None"
  shows "entry_on_record p (snd (book_landed cfg st p w)) \<or> start_forgets p st"
proof (cases "st_in_after st")
  case (Inl e)
  then show ?thesis using assms by (simp add: book_landed_def entry_on_record_def)
next
  case (Inr i)
  show ?thesis
  proof (cases "st_out_after st")
    case (Inl e)
    then show ?thesis using assms Inr by (simp add: book_landed_def entry_on_record_def)
  next
    case out: (Inr out)
    show ?thesis
    proof (cases "resolve_entry p i out")
      case None
      then have "out \<le> pe_before_out p" by (simp add: resolve_entry_def split: if_splits)
      then show ?thesis
        using assms Inr out None clear_pending_records [of st w] by (auto simp: book_landed_def entry_on_record_def start_forgets_def)
    next
      case (Some q)
      then show ?thesis
        using assms Inr out resolved_same [OF Some] clear_pending_records(1)
        by (auto simp: book_landed_def entry_on_record_def)
    qed
  qed
qed

lemma reconcile_on_record:
  assumes "entry_on_record p w"
  shows "entry_on_record p (snd (reconcile_pending_entry ps cfg st w)) \<or> start_forgets p st"
proof (cases "lw_position w")
  case NoRecord
  then have pending: "lw_pending w = Record p" using assms by (simp add: entry_on_record_def)
  have unchanged: ?thesis if "snd (reconcile_pending_entry ps cfg st w) = w" using that assms by simp
  show ?thesis
  proof (cases "st_owner st")
    case None
    show ?thesis
    proof (cases "st_confirm st")
      case False
      have "snd (reconcile_pending_entry ps cfg st w) = w \<or> snd (reconcile_pending_entry ps cfg st w) = snd (clear_pending st w)"
        using NoRecord pending None False by (simp add: reconcile_pending_entry_def load_record_def)
      then show ?thesis
        using unchanged clear_pending_records [of st w] NoRecord pending None False
        by (auto simp: entry_on_record_def start_forgets_def)
    qed (use NoRecord pending None unchanged in \<open>simp add: reconcile_pending_entry_def load_record_def\<close>)
  next
    case (Some k)
    have "snd (reconcile_pending_entry ps cfg st w) = w \<or> snd (reconcile_pending_entry ps cfg st w) = snd (book_landed cfg st p w)"
      using NoRecord pending Some by (simp add: reconcile_pending_entry_def load_record_def)
    then show ?thesis using unchanged book_on_record [OF NoRecord pending, of st cfg] Some by auto
  qed
next
  case (Record q)
  then have same: "same_entry p q" using assms by (simp add: entry_on_record_def)
  have "lw_position (snd (reconcile_pending_entry ps cfg st w)) = Record q"
    using Record clear_pending_records(1) [of st w] by (auto simp: reconcile_pending_entry_def load_record_def split: record_file.split)
  then show ?thesis using same by (simp add: entry_on_record_def)
qed (use assms in \<open>simp_all add: entry_on_record_def\<close>)

lemma start_on_record:
  assumes "entry_on_record p w"
  shows "entry_on_record p (snd (start_live ps spl cfg a expected st w)) \<or> start_forgets p st"
proof -
  have "lw_position (snd (start_live ps spl cfg a expected st w)) = lw_position (snd (reconcile_pending_entry ps cfg st w))"
    "lw_pending (snd (start_live ps spl cfg a expected st w)) = lw_pending (snd (reconcile_pending_entry ps cfg st w))"
    by (simp_all add: start_live_def resume_records split: prod.split sum.split)
  then have "entry_on_record p (snd (start_live ps spl cfg a expected st w)) \<longleftrightarrow> entry_on_record p (snd (reconcile_pending_entry ps cfg st w))"
    by (cases "lw_position (snd (reconcile_pending_entry ps cfg st w))") (simp_all add: entry_on_record_def)
  then show ?thesis using reconcile_on_record [OF assms] by simp
qed

text \<open>Crashes and starts, one after the other.\<close>

definition restarts ::
    "parsers \<Rightarrow> pubkey \<Rightarrow> risk_config \<Rightarrow> args \<Rightarrow> pubkey option \<Rightarrow> (nat \<times> start_env) list \<Rightarrow> live_world \<Rightarrow> live_world" where
  "restarts ps spl cfg a expected starts w =
     fold (\<lambda>(now, st) w. snd (start_live ps spl cfg a expected st (crash now w))) starts w"

lemma restarts_on_record:
  "entry_on_record p w \<Longrightarrow>
     entry_on_record p (restarts ps spl cfg a expected starts w) \<or> list_ex (\<lambda>(now, st). start_forgets p st) starts"
proof (induction starts arbitrary: w)
  case (Cons x starts)
  obtain now st where x: "x = (now, st)" by (cases x)
  have "entry_on_record p (snd (start_live ps spl cfg a expected st (crash now w))) \<or> start_forgets p st"
    using Cons.prems by (intro start_on_record) (simp add: crash_on_record)
  then show ?case using Cons.IH by (auto simp: restarts_def x)
qed (simp add: restarts_def)

text \<open>
  C3. What becomes of an entry once it was submitted, wherever the process dies and however often it is started again, whatever the node and the file
  system answer.  Either it is still on record, as the pending entry or as a position of the same pool, mints and size, or it was
  forgotten in one of three ways: the run removed the pending record after the position could not be written (and the kill switch was
  pulled), the run removed it after a failed submission and a balance without new tokens, or a start removed it because the
  node showed neither the transaction nor a confirmation, or showed a balance without new tokens.  The second and third also happen to an entry
  that landed, when the node answers late or not at all: those are the losses the findings describe (\<open>outage_drops_pending\<close>).  And
  the first start after the crash does more than keep the record when everything it needs works, namely the position record could be written, the
  books were written, the node shows the swap and the arguments are those of the entry: it resumes a position of the same pool, mints and
  size, recorded on disk, with exactly one open position on the books and no pending entry left.
\<close>

theorem crash_safe_entry:
  assumes "prefix steps (fst (settle_entry en p min_output))" "Submit \<in> set steps" "lw_position w = NoRecord"
  shows "(entry_on_record p (restarts ps spl cfg a expected starts (fold (do_step cfg env) steps w))
      \<or> run_forgets en p steps \<or> list_ex (\<lambda>(now, st). start_forgets p st) starts)
    \<and> (if en_position_saved en \<and> (case en_recheck en of Some after \<Rightarrow> pe_before_out p < after | None \<Rightarrow> True)
          \<and> open_count 0 (lw_risk w) \<and> env_persist env = Written
          \<and> chain_shows_landed ps st p \<and> st_save_ok st \<and> st_clear_ok st \<and> args_match a (pe_position p)
       then \<exists>pos w'. start_live ps spl cfg a expected st (crash now (fold (do_step cfg env) steps w)) = (Inr (Some pos), w')
         \<and> lw_position w' = Record pos \<and> lw_pending w' = NoRecord \<and> rm_open_positions (lw_risk w') = 1
         \<and> args_match a pos \<and> lp_size pos = lp_size (pe_position p)
       else True)"
proof -
  have "\<exists>pos w'. start_live ps spl cfg a expected st (crash now (fold (do_step cfg env) steps w)) = (Inr (Some pos), w')
         \<and> lw_position w' = Record pos \<and> lw_pending w' = NoRecord \<and> rm_open_positions (lw_risk w') = 1
         \<and> args_match a pos \<and> lp_size pos = lp_size (pe_position p)"
    if ok: "en_position_saved en" "case en_recheck en of Some after \<Rightarrow> pe_before_out p < after | None \<Rightarrow> True"
      "open_count 0 (lw_risk w)" "env_persist env = Written"
      "chain_shows_landed ps st p" "st_save_ok st" "st_clear_ok st" "args_match a (pe_position p)"
  proof (rule recoverable_starts [OF crash_recoverable [OF prefixes_recoverable [OF assms(1,2) ok(1) _ assms(3) ok(3,4)]] ok(5-8)])
    show "pe_before_out p < b" if "en_recheck en = Some b" for b using that ok(2) by simp
  qed
  moreover have "entry_on_record p (restarts ps spl cfg a expected starts (fold (do_step cfg env) steps w))
      \<or> run_forgets en p steps \<or> list_ex (\<lambda>(now, st). start_forgets p st) starts"
    using run_on_record [OF assms] restarts_on_record by blast
  ultimately show ?thesis by auto
qed

definition example_position :: live_position where
  "example_position = \<lparr> lp_pool_id = ''pool'', lp_input_mint = ''sol'', lp_output_mint = ''token'', lp_entry_sqrt_price = ''9'',
     lp_size = 100, lp_cost = 0, lp_tokens = 0, lp_signature = ''s'', lp_opened_at_ms = 0, lp_entry_liquidity = 7, lp_peak = 9 \<rparr>"

definition example_pending :: pending_entry where
  "example_pending = \<lparr> pe_signature = ''s'', pe_blockhash = ''h'', pe_before_in = 1000, pe_before_out = 3,
     pe_position = example_position \<rparr>"

definition example_start :: start_env where
  "example_start = \<lparr> st_risk_env = \<lparr>env_today = ''d'', env_now = 5, env_persist = Written\<rparr>, st_confirm = True,
     st_owner = Some [1], st_in_after = Inr 890, st_out_after = Inr 53, st_save_ok = True, st_clear_ok = True,
     st_signer = Inr [1], st_ata = Inr None \<rparr>"

definition example_parsers :: parsers where
  "example_parsers = \<lparr> parse_signature = (\<lambda>_. True), parse_hash = (\<lambda>_. True), parse_mint = (\<lambda>_. Some [5]) \<rparr>"

definition example_world :: live_world where
  "example_world = \<lparr> lw_risk = risk_new 0 NoFile [], lw_position = NoRecord, lw_pending = NoRecord \<rparr>"

lemmas example_defs = example_position_def example_pending_def example_start_def example_parsers_def example_world_def

lemma example_counts: "open_count 0 (risk_new 0 NoFile [])"
  by (simp add: open_count_def risk_new_def load_state_def empty_persisted_def)

theorem crash_safe_entry_witness:
  "\<exists>pos w'. start_live example_parsers [6] devnet_defaults live_args_example None example_start
       (crash 9 (fold (do_step devnet_defaults (st_risk_env example_start)) [SavePending example_pending, Submit] example_world))
       = (Inr (Some pos), w') \<and> lw_position w' = Record pos"
proof -
  let ?en = "\<lparr> en_pending_saved = True, en_submitted = Some ''s'', en_recheck = None, en_in_after = Some 890, en_out_after = Some 53,
    en_position_saved = True, en_pending_cleared = True, en_now_ms = 4 \<rparr>"
  have "prefix [SavePending example_pending, Submit] (fst (settle_entry ?en example_pending 40))"
    by (simp add: settle_entry_def entry_outcome_def Let_def)
  moreover have "en_position_saved ?en" "case en_recheck ?en of Some after \<Rightarrow> pe_before_out example_pending < after | None \<Rightarrow> True"
    "open_count 0 (lw_risk example_world)" "env_persist (st_risk_env example_start) = Written"
    "chain_shows_landed example_parsers example_start example_pending" "st_save_ok example_start" "st_clear_ok example_start"
    "args_match live_args_example (pe_position example_pending)" "lw_position example_world = NoRecord"
    by (simp_all add: example_counts chain_shows_landed_def args_match_def example_defs live_args_example_def)
  ultimately show ?thesis
    using crash_safe_entry [of "[SavePending example_pending, Submit]" ?en example_pending 40 example_world example_parsers "[6]"
        devnet_defaults live_args_example None "[]" "st_risk_env example_start" example_start 9] by auto
qed

text \<open>
  An outage at the start makes the bot forget an entry and a later start refuses to trade: when the outcome of a pending entry cannot be read at all (not
  confirmed, the transaction unreadable), its record is dropped whatever the balances are; once the node answers again, a start
  finds the bought tokens in the wallet and stops with the orphan error, since no record tells what was paid for them.
\<close>

theorem outage_drops_pending:
  assumes "lw_pending w = Record p" "lw_position w = NoRecord" "open_count 0 (lw_risk w)"
    and "parse_signature ps (pe_signature p)" "parse_hash ps (pe_blockhash p)"
    and "parse_mint ps (lp_input_mint (pe_position p)) \<noteq> None" "parse_mint ps (lp_output_mint (pe_position p)) \<noteq> None"
    and "st_owner st = None" "\<not> st_confirm st" "st_clear_ok st"
    and "ar_output_mint a = Some (lp_output_mint (pe_position p))"
    and "st_signer st' = Inr me" "expected = None \<or> expected = Some me"
    and "st_ata st' = Inr (Some (spl, data))" "72 \<le> length data" "u64_at data 64 \<noteq> 0"
  shows "lw_pending (snd (start_live ps spl cfg a expected st w)) = NoRecord
    \<and> fst (start_live ps spl cfg a expected st' (crash now (snd (start_live ps spl cfg a expected st w))))
        = Inl (OrphanTokens (u64_at data 64))"
proof -
  have first: "snd (start_live ps spl cfg a expected st w) = w\<lparr>lw_pending := NoRecord\<rparr>"
    using assms(1-10) by (auto simp: start_live_def reconcile_pending_entry_def load_record_def clear_pending_ok
        resume_position_def open_count_def Let_def)
  have "rm_open_positions (risk_new now (rm_file (lw_risk w)) []) = 0"
    using assms(3) by (cases "load_state (rm_file (lw_risk w))") (auto simp: open_count_def risk_new_def write_audit_def Let_def)
  then have "fst (start_live ps spl cfg a expected st' (crash now (w\<lparr>lw_pending := NoRecord\<rparr>)))
      = Inl (OrphanTokens (u64_at data 64))"
    using assms(2,7,11-16) by (auto simp: start_live_def reconcile_pending_entry_def load_record_def crash_def
        resume_position_def check_orphan_def validate_hsm_pubkey_def map_err_def ensure_def ok_or_def Let_def)
  then show ?thesis by (simp add: first)
qed

lemma le_nat_zeros: "le_nat (replicate n 0) = 0"
  by (induction n) simp_all

theorem outage_drops_pending_witness:
  "\<exists>n. fst (start_live example_parsers [6] devnet_defaults live_args_example None
      (example_start\<lparr>st_ata := Inr (Some ([6], replicate 64 0 @ [50] @ replicate 7 0))\<rparr>)
      (crash 9 (snd (start_live example_parsers [6] devnet_defaults live_args_example None
         (example_start\<lparr>st_owner := None, st_confirm := False\<rparr>) (example_world\<lparr>lw_pending := Record example_pending\<rparr>)))))
    = Inl (OrphanTokens n)"
proof -
  let ?w = "example_world\<lparr>lw_pending := Record example_pending\<rparr>"
  let ?st = "example_start\<lparr>st_owner := None, st_confirm := False\<rparr>"
  let ?st' = "example_start\<lparr>st_ata := Inr (Some ([6], replicate 64 0 @ [50] @ replicate 7 0))\<rparr>"
  have "lw_pending (snd (start_live example_parsers [6] devnet_defaults live_args_example None ?st ?w)) = NoRecord
    \<and> fst (start_live example_parsers [6] devnet_defaults live_args_example None ?st'
        (crash 9 (snd (start_live example_parsers [6] devnet_defaults live_args_example None ?st ?w))))
      = Inl (OrphanTokens (u64_at (replicate 64 0 @ [50] @ replicate 7 0) 64))"
    by (rule outage_drops_pending [where p = example_pending and me = "[1]"])
       (use example_counts in \<open>simp_all add: example_defs live_args_example_def u64_at_def from_le_bytes_def le_nat_zeros\<close>)
  then show ?thesis by blast
qed

end
