(* ===== verification/Retry.thy ===== *)
theory Retry
  imports Live_Args
begin

text \<open>
  \<open>solana-sniper/src/retry.rs\<close>: the blockhash cache, sending with retries and the wait for a confirmation.  Times are
  milliseconds of one clock.  Every poll of the wait reads its own answers; the wait over a list of polls is \<open>None\<close> while it has not
  decided, so a list long enough for the hard deadline always decides.
\<close>

section \<open>The blockhash cache\<close>

record blockhash_manager =
  bm_cached :: "(bytes \<times> nat) option"
  bm_refresh_interval :: nat

definition blockhash_new :: blockhash_manager where
  "blockhash_new = \<lparr> bm_cached = None, bm_refresh_interval = 30000 \<rparr>"

definition get_or_refresh ::
    "nat \<Rightarrow> string + bytes \<Rightarrow> blockhash_manager \<Rightarrow> (string + bytes) \<times> blockhash_manager" where
  "get_or_refresh now latest m =
     (let fetch = (case latest of Inl e \<Rightarrow> (Inl e, m) | Inr h \<Rightarrow> (Inr h, m\<lparr>bm_cached := Some (h, now)\<rparr>))
      in case bm_cached m of
           Some (h, at_time) \<Rightarrow> if now - at_time < bm_refresh_interval m then (Inr h, m) else fetch
         | None \<Rightarrow> fetch)"

definition force_refresh ::
    "nat \<Rightarrow> string + bytes \<Rightarrow> blockhash_manager \<Rightarrow> (string + bytes) \<times> blockhash_manager" where
  "force_refresh now latest m = (case latest of Inl e \<Rightarrow> (Inl e, m) | Inr h \<Rightarrow> (Inr h, m\<lparr>bm_cached := Some (h, now)\<rparr>))"

section \<open>Waiting for a confirmation\<close>

datatype confirmation = Processed | Confirmed | Finalized

record signature_status =
  ss_err :: "string option"
  ss_confirmation :: "confirmation option"
  ss_slot :: u64

datatype confirm_error = FailedOnChain | ExpiredNeverLanded | OutcomeUnknown

definition landed :: "string + signature_status option list \<Rightarrow> (confirm_error + u64) option" where
  "landed statuses =
     (case statuses of
        Inr (Some st # _) \<Rightarrow>
          if ss_err st \<noteq> None then Some (Inl FailedOnChain)
          else if ss_confirmation st \<in> {Some Confirmed, Some Finalized} then Some (Inr (ss_slot st)) else None
      | _ \<Rightarrow> None)"

record confirm_timing =
  ct_deadline :: nat
  ct_hard_deadline :: nat
  ct_poll :: nat
  ct_validity_every :: u32

definition default_confirm_timing :: confirm_timing where
  "default_confirm_timing = \<lparr> ct_deadline = 90000, ct_hard_deadline = 180000, ct_poll = 500, ct_validity_every = 10 \<rparr>"

text \<open>The answers one poll reads, in the order in which it asks.\<close>

record poll_answers =
  po_status :: "string + signature_status option list"
  po_elapsed :: nat
  po_blockhash_valid :: "string + bool"
  po_final_status :: "string + signature_status option list"
  po_elapsed_again :: nat

definition confirm_poll :: "confirm_timing \<Rightarrow> u32 \<Rightarrow> poll_answers \<Rightarrow> (confirm_error + unit) option" where
  "confirm_poll timing polls o1 =
     (case landed (po_status o1) of
        Some (Inr _) \<Rightarrow> Some (Inr ())
      | Some (Inl e) \<Rightarrow> Some (Inl e)
      | None \<Rightarrow>
          let past_deadline = ct_deadline timing < po_elapsed o1
          in if past_deadline \<or> max (ct_validity_every timing) 1 udvd polls
             then if po_blockhash_valid o1 = Inr False
                  then (case landed (po_final_status o1) of Some (Inr _) \<Rightarrow> Some (Inr ()) | _ \<Rightarrow> Some (Inl ExpiredNeverLanded))
                  else if past_deadline \<and> ct_hard_deadline timing < po_elapsed_again o1 then Some (Inl OutcomeUnknown)
                  else None
             else None)"

fun confirm_loop :: "confirm_timing \<Rightarrow> u32 \<Rightarrow> poll_answers list \<Rightarrow> (confirm_error + unit) option" where
  "confirm_loop timing polls [] = None"
| "confirm_loop timing polls (o1 # os) =
     (case confirm_poll timing (polls + 1) o1 of Some r \<Rightarrow> Some r | None \<Rightarrow> confirm_loop timing (polls + 1) os)"

definition confirm_transaction_with :: "confirm_timing \<Rightarrow> poll_answers list \<Rightarrow> (confirm_error + unit) option" where
  "confirm_transaction_with timing os = confirm_loop timing 0 os"

definition confirm_transaction :: "poll_answers list \<Rightarrow> (confirm_error + unit) option" where
  "confirm_transaction os = confirm_transaction_with default_confirm_timing os"

section \<open>Sending\<close>

datatype send_error = SendRejected string | NotConfirmed confirm_error

record http_request =
  hr_url :: string
  hr_method :: string
  hr_params :: "string list"

text \<open>
  Everything a submission does on the network is an event, in order, and the answers depend on the place in that order: \<open>nt_send k tx\<close> is
  the node's answer to \<open>sendTransaction\<close> when it is event \<open>k\<close>, \<open>nt_wait k sig hash\<close> what the polls of a wait that is event \<open>k\<close>
  read about that signature and block hash, \<open>nt_post k q\<close> the answer to an HTTP request: its success flag and its body.
\<close>

datatype 'tx net_event = SentTx 'tx | Posted http_request | WaitedFor string bytes | Paused nat

record 'tx net =
  nt_send :: "nat \<Rightarrow> 'tx \<Rightarrow> string + string"
  nt_wait :: "nat \<Rightarrow> string \<Rightarrow> bytes \<Rightarrow> poll_answers list"
  nt_post :: "nat \<Rightarrow> http_request \<Rightarrow> string + bool \<times> string"

function send_loop ::
    "nat \<Rightarrow> 'tx net \<Rightarrow> 'tx \<Rightarrow> bytes \<Rightarrow> 'tx net_event list \<Rightarrow> (send_error + string) option \<times> 'tx net_event list" where
  "send_loop attempt net tx recent done =
     (case nt_send net (length done) tx of
        Inr sig \<Rightarrow>
          (map_option (\<lambda>r. case r of Inl e \<Rightarrow> Inl (NotConfirmed e) | Inr _ \<Rightarrow> Inr sig)
             (confirm_transaction (nt_wait net (Suc (length done)) sig recent)),
           done @ [SentTx tx, WaitedFor sig recent])
      | Inl e \<Rightarrow>
          if 3 \<le> attempt + 1 then (Some (Inl (SendRejected e)), done @ [SentTx tx])
          else send_loop (attempt + 1) net tx recent (done @ [SentTx tx, Paused (200 * 2 ^ (attempt + 1))]))"
  by pat_completeness auto
termination by (relation "measure (\<lambda>(attempt, _). 3 - attempt)") auto

declare send_loop.simps [simp del]

text \<open>The block hash is the one of the transaction's message.\<close>

definition send_with_retry ::
    "'tx net \<Rightarrow> 'tx \<Rightarrow> bytes \<Rightarrow> 'tx net_event list \<Rightarrow> (send_error + string) option \<times> 'tx net_event list" where
  "send_with_retry net tx recent done = send_loop 0 net tx recent done"

section \<open>A chain that answers\<close>

text \<open>
  What happens to one transaction: it is in a processed block from a time on, or never; from a later time on that block is confirmed, or
  never; it may have failed there; and its block hash is valid before its expiry.  Question \<open>k\<close> is asked at \<open>clock k\<close> and the node
  answers it or not.
\<close>

record chain =
  cn_processed :: "nat option"
  cn_confirmed :: "nat option"
  cn_failed :: bool
  cn_expiry :: nat
  cn_slot :: u64
  cn_answers :: "nat \<Rightarrow> bool"

definition by_then :: "nat option \<Rightarrow> nat \<Rightarrow> bool" where
  "by_then event t \<longleftrightarrow> (case event of Some e \<Rightarrow> e \<le> t | None \<Rightarrow> False)"

definition chain_status :: "chain \<Rightarrow> nat \<Rightarrow> nat \<Rightarrow> string + signature_status option list" where
  "chain_status c k t =
     (if \<not> cn_answers c k then Inl ''no answer''
      else Inr [if by_then (cn_processed c) t
                then Some \<lparr> ss_err = (if cn_failed c then Some ''InstructionError'' else None),
                            ss_confirmation = Some (if by_then (cn_confirmed c) t then Confirmed else Processed), ss_slot = cn_slot c \<rparr>
                else None])"

definition chain_poll :: "chain \<Rightarrow> (nat \<Rightarrow> nat) \<Rightarrow> nat \<Rightarrow> poll_answers" where
  "chain_poll c clock i =
     \<lparr> po_status = chain_status c (4 * i) (clock (4 * i)), po_elapsed = clock (4 * i + 1),
       po_blockhash_valid = (if cn_answers c (4 * i + 2) then Inr (clock (4 * i + 2) < cn_expiry c) else Inl ''no answer''),
       po_final_status = chain_status c (4 * i + 3) (clock (4 * i + 3)), po_elapsed_again = clock (4 * i + 3) \<rparr>"

definition polls_enough :: "confirm_timing \<Rightarrow> nat" where
  "polls_enough timing = max (ct_deadline timing) (ct_hard_deadline timing) div ct_poll timing + 2"

lemma landed_chain:
  "landed (chain_status c k t) =
     (if cn_answers c k \<and> by_then (cn_processed c) t
      then if cn_failed c then Some (Inl FailedOnChain) else if by_then (cn_confirmed c) t then Some (Inr (cn_slot c)) else None
      else None)"
  by (simp add: landed_def chain_status_def)

lemma confirm_loop_append:
  "confirm_loop timing k (xs @ [x]) = (case confirm_loop timing k xs of Some r \<Rightarrow> Some r
     | None \<Rightarrow> confirm_poll timing (k + of_nat (length xs) + 1) x)"
  by (induction xs arbitrary: k) (auto split: option.splits simp: algebra_simps)

lemma confirm_loop_longer: "confirm_loop timing k xs \<noteq> None \<Longrightarrow> confirm_loop timing k (xs @ ys) \<noteq> None"
  by (induction xs arbitrary: k) (auto split: option.splits)

lemma confirm_decided_by:
  "confirm_loop timing k (map f [0..<n]) = Some r \<Longrightarrow> \<exists>i<n. \<exists>k'. confirm_poll timing k' (f i) = Some r"
proof (induction n)
  case (Suc n)
  show ?case
  proof (cases "confirm_loop timing k (map f [0..<n])")
    case None
    then show ?thesis using Suc.prems by (auto simp: confirm_loop_append intro: exI [of _ n])
  next
    case (Some r')
    then show ?thesis using Suc by (auto simp: confirm_loop_append less_Suc_eq)
  qed
qed simp

lemma confirm_late_poll_decides:
  assumes "ct_deadline timing < po_elapsed x" "ct_hard_deadline timing < po_elapsed_again x"
  shows "confirm_poll timing k x \<noteq> None"
  using assms by (auto simp: confirm_poll_def split: option.splits sum.splits)

lemma past_all_deadlines:
  assumes "0 < p" "d \<le> h" "(h div p + 1) * p \<le> t"
  shows "d < (t::nat)"
proof -
  have "h = h div p * p + h mod p" by (rule div_mult_mod_eq [symmetric])
  moreover have "h mod p < p" using assms(1) by (rule mod_less_divisor)
  ultimately have "h < (h div p + 1) * p" by (simp only: add_mult_distrib)
  then show ?thesis using assms(2,3) by linarith
qed

text \<open>What the verdict of one poll means on such a chain.\<close>

lemma poll_verdict:
  assumes "confirm_poll timing k (chain_poll c clock i) = Some v"
  shows "case v of
      Inr _ \<Rightarrow> (\<exists>q. cn_confirmed c = Some q) \<and> \<not> cn_failed c
    | Inl FailedOnChain \<Rightarrow> (\<exists>p. cn_processed c = Some p) \<and> cn_failed c
    | Inl ExpiredNeverLanded \<Rightarrow> cn_expiry c \<le> clock (4 * i + 2)
        \<and> (\<not> cn_answers c (4 * i + 3) \<or> cn_failed c
             \<or> \<not> (by_then (cn_processed c) (clock (4 * i + 3)) \<and> by_then (cn_confirmed c) (clock (4 * i + 3))))
    | Inl OutcomeUnknown \<Rightarrow> ct_deadline timing < clock (4 * i + 1) \<and> ct_hard_deadline timing < clock (4 * i + 3)
        \<and> (\<not> cn_answers c (4 * i + 2) \<or> clock (4 * i + 2) < cn_expiry c)"
  using assms
  by (auto simp: confirm_poll_def chain_poll_def landed_chain Let_def not_le not_less by_then_def
      split: option.splits sum.splits if_splits confirm_error.splits)

text \<open>
  C28. The wait for a confirmation is decided, and each verdict says exactly what was seen: with a clock that advances by the poll interval the wait
  ends after at most the polls that fit into the hard deadline and two, whatever the chain does and whichever questions the node leaves
  unanswered.  ''Confirmed'' is only said of a transaction that was confirmed and did not fail, ''failed'' only of one that was processed and failed.
  ''Never landed'' says that the block hash had expired and that the one status read after it did not show a confirmed transaction: it was
  unanswered, or the transaction had failed, or it was not confirmed at that moment, though it may be processed and confirm later
  (\<open>never_landed_unproven\<close>).  ''Unknown'' says that the hard deadline had passed and the block hash was not seen to have expired: unanswered, or
  still valid, although the comment of the function says that it is never reported while the block hash is valid (\<open>unknown_while_valid\<close>).  The
  comments of the code are right about a healthy chain: when the node answers every question, the block hash expires by the deadline
  (90 seconds) and a confirmation comes before that expiry, then the outcome is never unknown, and the wait confirms exactly the
  transactions that were confirmed and did not fail.
\<close>

theorem confirm_verdict:
  assumes "mono clock" "\<And>i. i * ct_poll timing \<le> clock (4 * i)" "0 < ct_poll timing"
    and "\<And>q. cn_confirmed c = Some q \<Longrightarrow> by_then (cn_processed c) q" "polls_enough timing \<le> n"
  shows "\<exists>v i. confirm_transaction_with timing (map (chain_poll c clock) [0..<n]) = Some v
      \<and> (case v of
           Inr _ \<Rightarrow> (\<exists>q. cn_confirmed c = Some q) \<and> \<not> cn_failed c
         | Inl FailedOnChain \<Rightarrow> (\<exists>p. cn_processed c = Some p) \<and> cn_failed c
         | Inl ExpiredNeverLanded \<Rightarrow> cn_expiry c \<le> clock (4 * i + 2)
             \<and> (\<not> cn_answers c (4 * i + 3) \<or> cn_failed c
                  \<or> \<not> (by_then (cn_processed c) (clock (4 * i + 3)) \<and> by_then (cn_confirmed c) (clock (4 * i + 3))))
         | Inl OutcomeUnknown \<Rightarrow> ct_deadline timing < clock (4 * i + 1) \<and> ct_hard_deadline timing < clock (4 * i + 3)
             \<and> (\<not> cn_answers c (4 * i + 2) \<or> clock (4 * i + 2) < cn_expiry c))
      \<and> (if (\<forall>k. cn_answers c k) \<and> cn_expiry c \<le> ct_deadline timing \<and> (cn_confirmed c = None \<or> by_then (cn_confirmed c) (cn_expiry c))
         then v \<noteq> Inl OutcomeUnknown \<and> (v = Inr () \<longleftrightarrow> cn_confirmed c \<noteq> None \<and> \<not> cn_failed c) else True)"
proof -
  define m where "m = max (ct_deadline timing) (ct_hard_deadline timing) div ct_poll timing + 1"
  define r where "r = confirm_transaction_with timing (map (chain_poll c clock) [0..<n])"
  have late: "t < clock (4 * m + j)" if "t \<le> max (ct_deadline timing) (ct_hard_deadline timing)" for t j
    unfolding m_def
    by (rule past_all_deadlines [OF assms(3) that])
       (rule order_trans [OF assms(2) monoD [OF assms(1)]], simp)
  have "confirm_poll timing k (chain_poll c clock m) \<noteq> None" for k
    by (rule confirm_late_poll_decides)
       (use late [of "ct_deadline timing" 1] late [of "ct_hard_deadline timing" 3] in \<open>simp_all add: chain_poll_def\<close>)
  then have "confirm_loop timing 0 (map (chain_poll c clock) [0..<Suc m]) \<noteq> None"
    by (simp add: confirm_loop_append split: option.splits)
  moreover have "Suc m \<le> n" using assms(5) by (simp add: polls_enough_def m_def)
  then have "[0..<n] = [0..<Suc m] @ [Suc m..<n]"
    by (metis le_Suc_ex upt_add_eq_append zero_le)
  ultimately have "r \<noteq> None"
    unfolding r_def confirm_transaction_with_def by (simp add: confirm_loop_longer del: upt_Suc)
  then obtain v where v: "r = Some v" by auto
  then obtain i k where "confirm_poll timing k (chain_poll c clock i) = Some v"
    using confirm_decided_by [of timing 0 "chain_poll c clock" n v] by (auto simp: r_def confirm_transaction_with_def)
  note verdict = poll_verdict [OF this]
  have le: "clock (4 * i + 1) \<le> clock (4 * i + 2)" "clock (4 * i + 2) \<le> clock (4 * i + 3)" using assms(1) by (simp_all add: monoD)
  have healthy: "v \<noteq> Inl OutcomeUnknown \<and> (v = Inr () \<longleftrightarrow> cn_confirmed c \<noteq> None \<and> \<not> cn_failed c)"
    if "\<forall>k. cn_answers c k" "cn_expiry c \<le> ct_deadline timing" "cn_confirmed c = None \<or> by_then (cn_confirmed c) (cn_expiry c)"
    using verdict that le assms(4) by (auto simp: by_then_def split: sum.splits confirm_error.splits option.splits)
  show ?thesis using v verdict healthy unfolding r_def by (intro exI [of _ v] exI [of _ i]) simp
qed

theorem confirm_verdict_witness:
  "confirm_transaction_with \<lparr> ct_deadline = 5, ct_hard_deadline = 8, ct_poll = 1, ct_validity_every = 10 \<rparr>
     (map (chain_poll \<lparr> cn_processed = Some 2, cn_confirmed = Some 3, cn_failed = False, cn_expiry = 4, cn_slot = 7, cn_answers = \<lambda>_. True \<rparr> id)
        [0..<10]) = Some (Inr ())"
  using confirm_verdict [of id "\<lparr> ct_deadline = 5, ct_hard_deadline = 8, ct_poll = 1, ct_validity_every = 10 \<rparr>"
      "\<lparr> cn_processed = Some 2, cn_confirmed = Some 3, cn_failed = False, cn_expiry = 4, cn_slot = 7, cn_answers = \<lambda>_. True \<rparr>" 10]
  by (auto simp: monoI polls_enough_def by_then_def simp del: upt_Suc)

text \<open>
  ''Never landed'' can be wrong: once the blockhash has expired the verdict rests on one last status read, and when that read
  fails, or finds the transaction in a block that is processed but not yet confirmed, the wait reports that the transaction never landed.
\<close>

theorem never_landed_unproven:
  "let last_poll = (\<lambda>d st u. \<lparr> po_status = Inr [None], po_elapsed = 90001 + d, po_blockhash_valid = Inr False,
                              po_final_status = st, po_elapsed_again = u \<rparr>)
   in confirm_transaction [last_poll d (Inl rpc_error) u] = Some (Inl ExpiredNeverLanded)
      \<and> confirm_transaction [last_poll d (Inr [Some \<lparr> ss_err = None, ss_confirmation = Some Processed, ss_slot = slot \<rparr>]) u]
          = Some (Inl ExpiredNeverLanded)"
  by (simp add: Let_def confirm_transaction_def confirm_transaction_with_def confirm_poll_def landed_def
      default_confirm_timing_def)


text \<open>At the hard deadline the outcome is unknown even when the node has just said that the block hash is still valid.\<close>

lemma unknown_while_valid:
  "confirm_transaction [\<lparr> po_status = Inr [None], po_elapsed = 180001, po_blockhash_valid = Inr True, po_final_status = st, po_elapsed_again = 180002 \<rparr>]
   = Some (Inl OutcomeUnknown)"
  by (simp add: confirm_transaction_def confirm_transaction_with_def confirm_poll_def landed_def default_confirm_timing_def)

text \<open>A cached blockhash is younger than the refresh interval; a rejected send is repeated at most twice.\<close>

definition cache_fresh :: "nat \<Rightarrow> blockhash_manager \<Rightarrow> bool" where
  "cache_fresh now m \<longleftrightarrow> (\<forall>h t. bm_cached m = Some (h, t) \<longrightarrow> now - t < bm_refresh_interval m)"

lemma refresh_fresh:
  assumes "get_or_refresh now latest m = (Inr h, m')" "0 < bm_refresh_interval m"
  shows "cache_fresh now m' \<and> (\<exists>t. bm_cached m' = Some (h, t))"
  using assms by (auto simp: get_or_refresh_def cache_fresh_def Let_def split: option.splits sum.splits if_splits prod.splits)

section \<open>Submitting a signed transaction\<close>

text \<open>
  \<open>solana-sniper/src/jito.rs\<close> and \<open>submit_live_tx\<close>.  A signed transaction is its bytes, its first signature and the block hash of its
  message; \<open>je_json\<close> is the parser.  The JSON values are as deep as the code looks.
\<close>

datatype json = JString string | JNum u64 | JArray "json list" | JObject "(string \<times> json) list" | JOther

fun json_get :: "string \<Rightarrow> json \<Rightarrow> json option" where
  "json_get k (JObject kvs) = map_of kvs k"
| "json_get k _ = None"

datatype jito_error =
    SerializeFailed | EmptyBundle | RequestFailed | BundleRejected string | JsonParse | MissingResult
  | NonStringTip | InvalidTip | NoTipAccounts

record wire_tx =
  wt_bytes :: bytes
  wt_signature :: string
  wt_hash :: bytes

record jito_client =
  jc_endpoint :: string
  jc_dry_run :: bool

record jito_env =
  je_serialize :: "bytes \<Rightarrow> string option"
  je_post :: "http_request \<Rightarrow> string + bool \<times> string"
  je_json :: "string \<Rightarrow> json option"
  je_pubkey :: "string \<Rightarrow> pubkey option"

definition MIN_TIP_LAMPORTS :: u64 where "MIN_TIP_LAMPORTS = 1000"

fun collect_results :: "('e + 'a) list \<Rightarrow> 'e + 'a list" where
  "collect_results [] = Inr []"
| "collect_results (Inl e # rs) = Inl e"
| "collect_results (Inr x # rs) = (case collect_results rs of Inl e \<Rightarrow> Inl e | Inr xs \<Rightarrow> Inr (x # xs))"

definition serialize_bundle :: "jito_env \<Rightarrow> bytes list \<Rightarrow> jito_error + string list" where
  "serialize_bundle env txs = collect_results (map (\<lambda>tx. ok_or SerializeFailed (je_serialize env tx)) txs)"

text \<open>The request is the event it appends.\<close>

definition send_bundle ::
    "jito_env \<Rightarrow> wire_tx net \<Rightarrow> jito_client \<Rightarrow> wire_tx list \<Rightarrow> wire_tx net_event list \<Rightarrow> (jito_error + string) \<times> wire_tx net_event list" where
  "send_bundle env net c txs done =
     (case serialize_bundle env (map wt_bytes txs) of
        Inl e \<Rightarrow> (Inl e, done)
      | Inr texts \<Rightarrow>
          if texts = [] then (Inl EmptyBundle, done)
          else if jc_dry_run c then (Inr ''dry_run_bundle_placeholder'', done)
          else let request = \<lparr> hr_url = jc_endpoint c @ ''/api/v1/bundles'', hr_method = ''sendBundle'', hr_params = texts \<rparr>
               in (case nt_post net (length done) request of
                     Inl _ \<Rightarrow> Inl RequestFailed
                   | Inr (success, body) \<Rightarrow>
                       if \<not> success then Inl (BundleRejected body)
                       else case je_json env body of
                              None \<Rightarrow> Inl JsonParse
                            | Some v \<Rightarrow> (case json_get ''result'' v of Some (JString s) \<Rightarrow> Inr s | _ \<Rightarrow> Inl MissingResult),
                   done @ [Posted request]))"

definition parse_tip_accounts :: "jito_env \<Rightarrow> string \<Rightarrow> jito_error + pubkey list" where
  "parse_tip_accounts env text_body =
     and_then (ok_or JsonParse (je_json env text_body)) (\<lambda>v.
     and_then (case json_get ''result'' v of Some (JArray xs) \<Rightarrow> Inr xs | _ \<Rightarrow> Inl MissingResult) (\<lambda>xs.
     and_then (collect_results (map (\<lambda>x. case x of JString s \<Rightarrow> ok_or InvalidTip (je_pubkey env s) | _ \<Rightarrow> Inl NonStringTip) xs)) (\<lambda>accounts.
     if accounts = [] then Inl NoTipAccounts else Inr accounts)))"

definition trim_slashes :: "string \<Rightarrow> string" where
  "trim_slashes s = rev (dropWhile (\<lambda>c. c = CHR ''/'') (rev s))"

definition tip_accounts :: "jito_env \<Rightarrow> jito_client \<Rightarrow> jito_error + pubkey list" where
  "tip_accounts env c =
     (case je_post env \<lparr> hr_url = trim_slashes (jc_endpoint c) @ ''/api/v1/bundles'', hr_method = ''getTipAccounts'', hr_params = [] \<rparr> of
        Inl _ \<Rightarrow> Inl RequestFailed
      | Inr (success, body) \<Rightarrow> if \<not> success then Inl (BundleRejected body) else parse_tip_accounts env body)"

datatype tip_error = TipTooSmall | TipAccounts jito_error

text \<open>The tip account of a run, picked by the clock.\<close>

definition resolve_jito_tip :: "jito_env \<Rightarrow> args \<Rightarrow> nat \<Rightarrow> tip_error + (pubkey \<times> u64) option" where
  "resolve_jito_tip env a now =
     (case ar_jito_endpoint a of
        None \<Rightarrow> Inr None
      | Some ep \<Rightarrow>
          if (ar_live a \<or> ar_dry_run a) \<and> \<not> ar_jito_dry_run a
          then if ar_jito_tip_lamports a < MIN_TIP_LAMPORTS then Inl TipTooSmall
               else case tip_accounts env \<lparr> jc_endpoint = ep, jc_dry_run = False \<rparr> of
                      Inr accounts \<Rightarrow> Inr (Some (accounts ! (now mod length accounts), ar_jito_tip_lamports a))
                    | Inl e \<Rightarrow> if ar_live a then Inl (TipAccounts e) else Inr None
          else Inr None)"

text \<open>Sending one transaction after the other until one is confirmed.\<close>

fun send_with_rpc_fallback ::
    "wire_tx net \<Rightarrow> send_error option \<Rightarrow> wire_tx list \<Rightarrow> wire_tx net_event list
       \<Rightarrow> (send_error option + string) option \<times> wire_tx net_event list" where
  "send_with_rpc_fallback net last_err [] done = (Some (Inl last_err), done)"
| "send_with_rpc_fallback net last_err (tx # txs) done =
     (case send_with_retry net tx (wt_hash tx) done of
        (None, done) \<Rightarrow> (None, done)
      | (Some (Inr sig), done) \<Rightarrow> (Some (Inr sig), done)
      | (Some (Inl e), done) \<Rightarrow> send_with_rpc_fallback net (Some e) txs done)"

datatype submit_error = BroadcastRefused | SendFailed send_error | NothingToSend

text \<open>The result of a submission and everything it did on the network; \<open>None\<close> is a wait that has not decided.\<close>

definition submit_live_tx ::
    "jito_env \<Rightarrow> wire_tx net \<Rightarrow> args \<Rightarrow> wire_tx \<Rightarrow> (submit_error + string) option \<times> wire_tx net_event list" where
  "submit_live_tx env net a tx =
     (let rpc = \<lambda>done. apfst (map_option (map_err SendFailed)) (send_with_retry net tx (wt_hash tx) done)
      in if \<not> ar_live a \<or> \<not> ar_confirm_live a \<or> ar_paper a \<or> ar_dry_run a then (Some (Inl BroadcastRefused), [])
         else case ar_jito_endpoint a of
           None \<Rightarrow> rpc []
         | Some ep \<Rightarrow>
             let client = \<lparr> jc_endpoint = ep, jc_dry_run = ar_jito_dry_run a \<rparr>
             in if ar_jito_dry_run a then rpc (snd (send_bundle env net client [tx] []))
                else case send_bundle env net client [tx] [] of
                       (Inr _, done) \<Rightarrow>
                         let waited = done @ [WaitedFor (wt_signature tx) (wt_hash tx)]
                         in (case confirm_transaction (nt_wait net (length done) (wt_signature tx) (wt_hash tx)) of
                               None \<Rightarrow> (None, waited)
                             | Some (Inr _) \<Rightarrow> (Some (Inr (wt_signature tx)), waited)
                             | Some (Inl _) \<Rightarrow> rpc waited)
                     | (Inl _, done) \<Rightarrow>
                         apfst (map_option (\<lambda>r. case r of Inr s \<Rightarrow> Inr s | Inl (Some e) \<Rightarrow> Inl (SendFailed e) | Inl None \<Rightarrow> Inl NothingToSend))
                           (send_with_rpc_fallback net None [tx] done))"

lemma collect_length: "collect_results rs = Inr xs \<Longrightarrow> length xs = length rs"
  by (induction rs arbitrary: xs rule: collect_results.induct) (auto split: sum.splits)

section \<open>What a submission puts on the network\<close>

text \<open>Stated over the events and the node's answers alone.\<close>

definition shows_confirmed :: "string + signature_status option list \<Rightarrow> bool" where
  "shows_confirmed answer \<longleftrightarrow>
     (case answer of Inr (Some st # _) \<Rightarrow> ss_err st = None \<and> (ss_confirmation st = Some Confirmed \<or> ss_confirmation st = Some Finalized) | _ \<Rightarrow> False)"

definition wait_confirmed :: "poll_answers list \<Rightarrow> bool" where
  "wait_confirmed polls \<longleftrightarrow> list_ex (\<lambda>x. shows_confirmed (po_status x) \<or> shows_confirmed (po_final_status x)) polls"

definition is_sent :: "'tx net_event \<Rightarrow> bool" where
  "is_sent ev \<longleftrightarrow> (case ev of SentTx _ \<Rightarrow> True | _ \<Rightarrow> False)"

definition is_posted :: "'tx net_event \<Rightarrow> bool" where
  "is_posted ev \<longleftrightarrow> (case ev of Posted _ \<Rightarrow> True | _ \<Rightarrow> False)"

lemma event_kinds [simp]:
  "is_sent (SentTx t)" "\<not> is_sent (Posted q)" "\<not> is_sent (WaitedFor s h)" "\<not> is_sent (Paused ms)"
  "\<not> is_posted (SentTx t)" "is_posted (Posted q)" "\<not> is_posted (WaitedFor s h)" "\<not> is_posted (Paused ms)"
  by (simp_all add: is_sent_def is_posted_def)

text \<open>An event that concerns this one transaction: its send, or the post of its bytes and nothing else to the endpoint's bundles.\<close>

definition carries_only :: "jito_env \<Rightarrow> args \<Rightarrow> wire_tx \<Rightarrow> wire_tx net_event \<Rightarrow> bool" where
  "carries_only env a tx ev \<longleftrightarrow>
     (case ev of
        SentTx t \<Rightarrow> t = tx
      | Posted q \<Rightarrow> \<not> ar_jito_dry_run a \<and> (\<exists>ep b64. ar_jito_endpoint a = Some ep \<and> je_serialize env (wt_bytes tx) = Some b64
            \<and> q = \<lparr> hr_url = ep @ ''/api/v1/bundles'', hr_method = ''sendBundle'', hr_params = [b64] \<rparr>)
      | WaitedFor _ h \<Rightarrow> h = wt_hash tx
      | Paused ms \<Rightarrow> ms \<le> 800)"

lemma confirmed_was_seen: "confirm_transaction os = Some (Inr ()) \<Longrightarrow> wait_confirmed os"
proof -
  have poll: "confirm_poll timing k x = Some (Inr ()) \<Longrightarrow> shows_confirmed (po_status x) \<or> shows_confirmed (po_final_status x)" for timing k x
    by (auto simp: confirm_poll_def landed_def shows_confirmed_def Let_def split: option.splits sum.splits list.splits if_splits)
  have "confirm_loop timing k os = Some (Inr ()) \<Longrightarrow> wait_confirmed os" for timing k
    by (induction os arbitrary: k) (auto simp: wait_confirmed_def dest: poll split: option.splits)
  then show "confirm_transaction os = Some (Inr ()) \<Longrightarrow> wait_confirmed os"
    by (auto simp: confirm_transaction_def confirm_transaction_with_def)
qed

text \<open>One loop of sends: its events are sends of the transaction, pauses and one wait, and its success is a confirmed wait.\<close>

definition send_events :: "'tx \<Rightarrow> bytes \<Rightarrow> 'tx net_event list \<Rightarrow> bool" where
  "send_events tx recent evs \<longleftrightarrow> list_all (\<lambda>ev. case ev of SentTx t \<Rightarrow> t = tx | Posted _ \<Rightarrow> False | WaitedFor _ h \<Rightarrow> h = recent | Paused ms \<Rightarrow> ms \<le> 800) evs"

definition sent_and_confirmed :: "'tx net \<Rightarrow> 'tx \<Rightarrow> bytes \<Rightarrow> 'tx net_event list \<Rightarrow> string \<Rightarrow> bool" where
  "sent_and_confirmed net tx recent evs s \<longleftrightarrow>
     (\<exists>j k. j < k \<and> k < length evs \<and> evs ! j = SentTx tx \<and> nt_send net j tx = Inr s
        \<and> evs ! k = WaitedFor s recent \<and> wait_confirmed (nt_wait net k s recent))"

definition undecided :: "'tx net \<Rightarrow> bytes \<Rightarrow> 'tx net_event list \<Rightarrow> bool" where
  "undecided net recent evs \<longleftrightarrow>
     (\<exists>k<length evs. \<exists>s. evs ! k = WaitedFor s recent \<and> confirm_transaction (nt_wait net k s recent) = None)"

lemma send_loop_events:
  "send_loop a net tx recent evs = (r, evs') \<Longrightarrow>
     \<exists>added. evs' = evs @ added \<and> added \<noteq> [] \<and> send_events tx recent added \<and> length (filter is_sent added) \<le> max 1 (3 - a)
       \<and> (case r of Some (Inr s) \<Rightarrow> sent_and_confirmed net tx recent evs' s | None \<Rightarrow> undecided net recent evs' | _ \<Rightarrow> True)"
proof (induction a net tx recent evs arbitrary: r evs' rule: send_loop.induct)
  case (1 a net tx recent evs)
  show ?case
  proof (cases "nt_send net (length evs) tx")
    case (Inr sig)
    let ?w = "nt_wait net (Suc (length evs)) sig recent"
    have res: "r = map_option (\<lambda>r. case r of Inl e \<Rightarrow> Inl (NotConfirmed e) | Inr _ \<Rightarrow> Inr sig) (confirm_transaction ?w)"
      and evs': "evs' = evs @ [SentTx tx, WaitedFor sig recent]"
      using 1(2) Inr by (simp_all add: send_loop.simps [of a])
    have at_k: "evs' ! length evs = SentTx tx" "evs' ! Suc (length evs) = WaitedFor sig recent" "length evs' = Suc (Suc (length evs))"
      by (simp_all add: evs' nth_append)
    have "sent_and_confirmed net tx recent evs' s" if success: "r = Some (Inr s)" for s
    proof -
      obtain v where w: "confirm_transaction ?w = Some v" using success by (auto simp: res)
      have "s = sig" "confirm_transaction ?w = Some (Inr ())" using success by (cases v, simp_all add: res w)+
      then show ?thesis unfolding sent_and_confirmed_def
        using confirmed_was_seen at_k Inr by (intro exI [of _ "length evs"] exI [of _ "Suc (length evs)"]) auto
    qed
    moreover have "undecided net recent evs'" if "r = None"
      using that at_k unfolding undecided_def by (intro exI [of _ "Suc (length evs)"]) (auto simp: res)
    ultimately show ?thesis
      by (intro exI [of _ "[SentTx tx, WaitedFor sig recent]"]) (auto simp: evs' send_events_def split: option.split sum.split)
  next
    case (Inl e)
    show ?thesis
    proof (cases "3 \<le> a + 1")
      case True
      then show ?thesis using 1(2) Inl by (auto simp: send_loop.simps [of a] send_events_def)
    next
      case False
      then have "send_loop (a + 1) net tx recent (evs @ [SentTx tx, Paused (200 * 2 ^ (a + 1))]) = (r, evs')"
        using 1(2) Inl by (simp add: send_loop.simps [of a])
      from 1(1) [OF Inl False this] obtain added where added: "evs' = (evs @ [SentTx tx, Paused (200 * 2 ^ (a + 1))]) @ added"
          "send_events tx recent added" "length (filter is_sent added) \<le> max 1 (3 - (a + 1))"
          "case r of Some (Inr s) \<Rightarrow> sent_and_confirmed net tx recent evs' s | None \<Rightarrow> undecided net recent evs' | _ \<Rightarrow> True"
        by blast
      have "a = 0 \<or> a = 1" using False by linarith
      then have "(200 :: nat) * 2 ^ (a + 1) \<le> 800" "Suc (max 1 (3 - (a + 1))) \<le> max 1 (3 - a)" by auto
      then show ?thesis using added
        by (intro exI [of _ "[SentTx tx, Paused (200 * 2 ^ (a + 1))] @ added"]) (auto simp: send_events_def)
    qed
  qed
qed

lemma send_with_retry_events:
  assumes "send_with_retry net tx recent evs = (r, evs')"
  obtains added where "evs' = evs @ added" "added \<noteq> []" "send_events tx recent added" "length (filter is_sent added) \<le> 3"
    "case r of Some (Inr s) \<Rightarrow> sent_and_confirmed net tx recent evs' s | None \<Rightarrow> undecided net recent evs' | _ \<Rightarrow> True"
  using send_loop_events [of 0 net tx recent evs r evs'] assms by (auto simp: send_with_retry_def)

lemma send_bundle_events:
  assumes "send_bundle env net c [tx] [] = (r, evs)"
  shows "(evs = [] \<or> \<not> jc_dry_run c \<and> (\<exists>b64. je_serialize env (wt_bytes tx) = Some b64
      \<and> evs = [Posted \<lparr> hr_url = jc_endpoint c @ ''/api/v1/bundles'', hr_method = ''sendBundle'', hr_params = [b64] \<rparr>]))
    \<and> (isl r \<or> jc_dry_run c \<or> evs \<noteq> [])"
  using assms by (auto simp: send_bundle_def serialize_bundle_def ok_or_def Let_def split: option.splits if_splits)

lemma send_events_carry: "send_events tx (wt_hash tx) evs \<Longrightarrow> list_all (carries_only env a tx) evs"
  by (auto simp: send_events_def carries_only_def list_all_iff split: net_event.splits)

lemma send_events_posts: "send_events tx recent evs \<Longrightarrow> filter is_posted evs = []"
  by (auto simp: send_events_def is_posted_def list_all_iff filter_empty_conv split: net_event.splits)

text \<open>What is claimed of a submission, as one predicate over its result and its events.\<close>

definition submission_ok ::
    "jito_env \<Rightarrow> wire_tx net \<Rightarrow> args \<Rightarrow> wire_tx \<Rightarrow> (submit_error + string) option \<times> wire_tx net_event list \<Rightarrow> bool" where
  "submission_ok env net a tx result \<longleftrightarrow>
     (case result of (r, evs) \<Rightarrow>
        evs \<noteq> [] \<and> list_all (carries_only env a tx) evs
        \<and> length (filter is_sent evs) \<le> 3 \<and> length (filter is_posted evs) \<le> 1
        \<and> (case r of
             Some (Inr s) \<Rightarrow> sent_and_confirmed net tx (wt_hash tx) evs s
               \<or> s = wt_signature tx \<and> is_posted (evs ! 0)
                  \<and> evs ! 1 = WaitedFor s (wt_hash tx) \<and> wait_confirmed (nt_wait net 1 s (wt_hash tx))
           | None \<Rightarrow> undecided net (wt_hash tx) evs
           | _ \<Rightarrow> True))"

lemma rpc_after:
  assumes "list_all (carries_only env a tx) evs" "filter is_sent evs = []" "length (filter is_posted evs) \<le> 1"
  shows "submission_ok env net a tx (apfst (map_option (map_err SendFailed)) (send_with_retry net tx (wt_hash tx) evs))"
    and "submission_ok env net a tx
      (apfst (map_option (\<lambda>r. case r of Inr s \<Rightarrow> Inr s | Inl (Some e) \<Rightarrow> Inl (SendFailed e) | Inl None \<Rightarrow> Inl NothingToSend))
         (send_with_rpc_fallback net None [tx] evs))"
proof -
  obtain r evs' where s: "send_with_retry net tx (wt_hash tx) evs = (r, evs')" by fastforce
  then obtain added where added: "evs' = evs @ added" "added \<noteq> []" "send_events tx (wt_hash tx) added" "length (filter is_sent added) \<le> 3"
      "case r of Some (Inr s) \<Rightarrow> sent_and_confirmed net tx (wt_hash tx) evs' s | None \<Rightarrow> undecided net (wt_hash tx) evs' | _ \<Rightarrow> True"
    by (rule send_with_retry_events)
  note facts = added assms s send_events_carry [OF added(3)] send_events_posts [OF added(3)]
  show "submission_ok env net a tx (apfst (map_option (map_err SendFailed)) (send_with_retry net tx (wt_hash tx) evs))"
    using facts by (auto simp: submission_ok_def map_err_def split: option.splits sum.splits)
  show "submission_ok env net a tx
      (apfst (map_option (\<lambda>r. case r of Inr s \<Rightarrow> Inr s | Inl (Some e) \<Rightarrow> Inl (SendFailed e) | Inl None \<Rightarrow> Inl NothingToSend))
         (send_with_rpc_fallback net None [tx] evs))"
    using facts by (auto simp: submission_ok_def split: option.splits sum.splits)
qed

text \<open>
  C29. A submission reports a success only for a transaction the chain confirmed, and puts nothing else on the network.  Outside an armed live run
  there is no event at all and the submission is refused.  Otherwise every event carries the one signed transaction: at most three
  \<open>sendTransaction\<close> of exactly it, at most one post, to the configured endpoint, of a bundle with exactly its serialization (none in a Jito dry
  run), and waits for its block hash; so a fallback after a bundle that was not confirmed can land the same transaction only once.  A
  success is either the node's answer to a send of this transaction or, after a post, the transaction's own signature, and in both cases
  a later poll of a wait for that signature showed it confirmed or finalized without an error.  There is no result only when a wait has
  not decided, which enough polls exclude (C28).
\<close>

theorem submit_confirmed_only:
  "if ar_live a \<and> ar_confirm_live a \<and> \<not> ar_paper a \<and> \<not> ar_dry_run a
   then submission_ok env net a tx (submit_live_tx env net a tx)
   else submit_live_tx env net a tx = (Some (Inl BroadcastRefused), [])"
proof (cases "ar_live a \<and> ar_confirm_live a \<and> \<not> ar_paper a \<and> \<not> ar_dry_run a")
  case True
  have rpc: "submission_ok env net a tx (apfst (map_option (map_err SendFailed)) (send_with_retry net tx (wt_hash tx) []))"
    by (rule rpc_after) simp_all
  show ?thesis
  proof (cases "ar_jito_endpoint a")
    case None
    then show ?thesis using True rpc by (simp add: submit_live_tx_def Let_def)
  next
    case (Some ep)
    let ?c = "\<lparr> jc_endpoint = ep, jc_dry_run = ar_jito_dry_run a \<rparr>"
    obtain r evs where b: "send_bundle env net ?c [tx] [] = (r, evs)" by fastforce
    note sb = send_bundle_events [OF b]
    have evs: "list_all (carries_only env a tx) evs" "filter is_sent evs = []" "length (filter is_posted evs) \<le> 1"
      using sb Some by (auto simp: carries_only_def)
    show ?thesis
    proof (cases "ar_jito_dry_run a")
      case True
      then have "evs = []" using sb by auto
      then show ?thesis using True Some b rpc \<open>ar_live a \<and> _\<close> by (simp add: submit_live_tx_def Let_def)
    next
      case dry: False
      let ?waited = "evs @ [WaitedFor (wt_signature tx) (wt_hash tx)]"
      have waited: "list_all (carries_only env a tx) ?waited" "filter is_sent ?waited = []" "length (filter is_posted ?waited) \<le> 1"
        using evs by (simp_all add: carries_only_def)
      show ?thesis
      proof (cases r)
        case (Inl e)
        then show ?thesis using True Some b dry rpc_after(2) [OF evs] by (simp add: submit_live_tx_def Let_def)
      next
        case (Inr bundle_id)
        then obtain q where q: "evs = [Posted q]" using sb dry Inr by auto
        show ?thesis
        proof (cases "confirm_transaction (nt_wait net (length evs) (wt_signature tx) (wt_hash tx))")
          case None
          then have "undecided net (wt_hash tx) ?waited" by (auto simp: undecided_def q intro!: exI [of _ 1])
          then show ?thesis using True Some b dry Inr None waited by (simp add: submit_live_tx_def submission_ok_def Let_def)
        next
          case (Some v)
          show ?thesis
          proof (cases v)
            case (Inl e)
            then show ?thesis using True \<open>ar_jito_endpoint a = Some ep\<close> b dry Inr Some rpc_after(1) [OF waited]
              by (simp add: submit_live_tx_def Let_def)
          next
            case Ok: (Inr u)
            then have "wait_confirmed (nt_wait net 1 (wt_signature tx) (wt_hash tx))"
              using Some by (intro confirmed_was_seen) (simp add: q)
            moreover have "is_posted (?waited ! 0)" "?waited ! 1 = WaitedFor (wt_signature tx) (wt_hash tx)"
              by (simp_all add: q)
            ultimately show ?thesis
              using True \<open>ar_jito_endpoint a = Some ep\<close> b dry Inr Some Ok waited by (simp add: submit_live_tx_def submission_ok_def Let_def)
          qed
        qed
      qed
    qed
  qed
qed (auto simp: submit_live_tx_def)

end
