(* ===== verification/Live_Exit.thy ===== *)
theory Live_Exit
  imports Live_Entry Retry Rpc_Batch
begin

text \<open>
  \<open>solana-sniper/src/main.rs\<close>: \<open>manage_open_position\<close>, one iteration of the management of the open live position, the quotes it rests on
  and what the main loop does with its outcome.  The answers of the node, the signer and the file system are fields of a record.
\<close>

section \<open>Quotes\<close>

datatype exact_quote_error =
    SpotQuoteFailed adapter_error | AccountsNotResolved | PreBalanceFailed balance_error | QuoteBuildFailed adapter_error
  | SimulationFailed sim_error

definition exact_quote ::
    "swap_sdk \<Rightarrow> (pubkey \<Rightarrow> string + bytes option) \<Rightarrow> (instr list \<Rightarrow> pubkey \<Rightarrow> sim_response option) \<Rightarrow> raydium_adapter
       \<Rightarrow> u64 \<Rightarrow> u64 \<Rightarrow> pubkey \<Rightarrow> swap_tx_options \<Rightarrow> exact_quote_error + quote \<times> sim_quote" where
  "exact_quote sdk account_data simulate adapter amount slippage from opts =
     and_then (map_err SpotQuoteFailed (adapter_quote adapter amount slippage)) (\<lambda>spot.
     and_then (ok_or AccountsNotResolved (output_token_account adapter)) (\<lambda>output_account.
     and_then (map_err PreBalanceFailed (fetch_token_balance account_data output_account)) (\<lambda>pre_balance.
     and_then (map_err QuoteBuildFailed (build_quote_transaction sdk adapter spot from opts)) (\<lambda>quote_tx.
     and_then (map_err SimulationFailed (simulate_swap_output (simulate quote_tx output_account) pre_balance)) (\<lambda>sim.
     Inr (spot, sim))))))"

definition clmm_program :: "string \<Rightarrow> string" where
  "clmm_program rpc = (if contains ''devnet'' rpc then RAYDIUM_CLMM_PROGRAM_ID_DEVNET else RAYDIUM_CLMM_PROGRAM_ID)"

definition clmm_program_id :: "'a solana_sdk_scheme \<Rightarrow> string \<Rightarrow> pubkey" where
  "clmm_program_id sdk rpc = key_of sdk (clmm_program rpc)"

section \<open>Preparing the exit\<close>

record exit_env =
  xe_sdk :: swap_sdk
  xe_get_account :: "pubkey \<Rightarrow> raw_account option"
  xe_multi :: "nat \<Rightarrow> pubkey list \<Rightarrow> raw_account option list option"
  xe_account_data :: "pubkey \<Rightarrow> string + bytes option"
  xe_simulate :: "instr list \<Rightarrow> pubkey \<Rightarrow> sim_response option"
  xe_liquidity :: "pubkey \<Rightarrow> string option + u64"     \<comment> \<open>\<open>fetch_vault_liquidity\<close> of the node\<close>
  xe_save_ok :: bool
  xe_now_ms :: u64
  xe_blockhash :: "string + bytes"
  xe_sign :: "bytes \<Rightarrow> instr list \<Rightarrow> string + bytes"
  xe_before :: "balance_error + u64"
  xe_submit :: "bytes \<Rightarrow> submit_error + string"
  xe_held_after :: "balance_error + u64"
  xe_back_after :: "balance_error + u64"

datatype exit_error =
    InvalidPoolId | InvalidHeldMint | InvalidBackMint | ResolutionFailed resolve_error | HeldUnreadable balance_error
  | ExitQuoteFailed adapter_error | ExitBlockhashFailed | ExitBuildFailed adapter_error | ExitSigningFailed
  | ExitBalanceFailed balance_error | ExitTxFailed submit_error

definition swapped_in :: "live_position \<Rightarrow> u64 \<Rightarrow> u64" where
  "swapped_in pos amount =
     (if amount < lp_tokens pos
      then ucast ((ucast (lp_size pos) * ucast amount :: u128) div ucast (lp_tokens pos))
      else lp_size pos)"

definition live_price_exit :: "strategy_config \<Rightarrow> u128 option \<Rightarrow> live_position \<Rightarrow> exit_decision \<times> live_position" where
  "live_price_exit cfg ratio pos =
     (case ratio of
        Some ratio \<Rightarrow>
          let pos = (if lp_peak pos < sat_u64 ratio then pos\<lparr>lp_peak := sat_u64 ratio\<rparr> else pos)
          in (exit_with_peak cfg ratio (ucast (lp_peak pos)), pos)
      | None \<Rightarrow> (Hold, pos))"

definition live_forced_exit :: "live_position \<Rightarrow> u64 option \<Rightarrow> u64 \<Rightarrow> u64 \<Rightarrow> exit_decision" where
  "live_forced_exit pos sol_liquidity now max_hold_secs =
     (if (case sol_liquidity of Some l \<Rightarrow> liquidity_dropped (lp_entry_liquidity pos) l | None \<Rightarrow> False) then LiquidityDrop
      else if max_hold_reached (lp_opened_at_ms pos) now max_hold_secs then MaxHoldTime
      else Hold)"

definition live_exit ::
    "strategy_config \<Rightarrow> u128 option \<Rightarrow> u64 option \<Rightarrow> u64 \<Rightarrow> u64 \<Rightarrow> live_position \<Rightarrow> exit_decision \<times> live_position" where
  "live_exit cfg ratio sol_liquidity now max_hold_secs pos =
     (case live_price_exit cfg ratio pos of (d, pos) \<Rightarrow>
        (if d = Hold then live_forced_exit pos sol_liquidity now max_hold_secs else d, pos))"

definition exit_slippage :: "args \<Rightarrow> u32 \<Rightarrow> u64" where
  "exit_slippage a failures =
     (if ar_exit_slippage_escalation a then exit_slippage_bps (ar_max_slippage_bps a) failures else ar_max_slippage_bps a)"

definition exit_opts :: "args \<Rightarrow> pubkey \<Rightarrow> pubkey \<Rightarrow> bool \<Rightarrow> (pubkey \<times> u64) option \<Rightarrow> swap_tx_options" where
  "exit_opts a held_mint back_mint whole tip =
     \<lparr> so_input_mint = held_mint, so_output_mint = back_mint, so_compute_unit_limit = ar_compute_unit_limit a,
       so_priority_fee = ar_priority_fee a, so_close_input = whole, so_jito_tip = tip, so_keep_output_wrapped = False \<rparr>"

datatype prepared =
    Holding | Gone | Selling exit_decision trade_intent "instr list" pubkey u64

text \<open>The value of the position: what the simulated sale returns, else the spot quote.\<close>

definition exit_quote ::
    "exit_env \<Rightarrow> raydium_adapter \<Rightarrow> u64 \<Rightarrow> u64 \<Rightarrow> pubkey \<Rightarrow> swap_tx_options \<Rightarrow> exit_error + quote" where
  "exit_quote env adapter amount slippage from opts =
     (case exact_quote (xe_sdk env) (xe_account_data env) (xe_simulate env) adapter amount slippage from opts of
        Inr (spot, sim) \<Rightarrow> Inr (spot\<lparr>q_expected_output := sq_amount_out sim\<rparr>)
      | Inl _ \<Rightarrow> map_err ExitQuoteFailed (adapter_quote adapter amount slippage))"

definition exit_resolve :: "exit_env \<Rightarrow> args \<Rightarrow> pubkey \<Rightarrow> live_position
     \<Rightarrow> exit_error + pubkey \<times> pubkey \<times> swap_accounts \<times> resolved_pool" where
  "exit_resolve env a from pos =
     and_then (ok_or InvalidPoolId (parse_pk (xe_sdk env) (lp_pool_id pos))) (\<lambda>pool_id.
     and_then (ok_or InvalidHeldMint (parse_pk (xe_sdk env) (lp_output_mint pos))) (\<lambda>held_mint.
     and_then (ok_or InvalidBackMint (parse_pk (xe_sdk env) (lp_input_mint pos))) (\<lambda>back_mint.
     and_then (map_err ResolutionFailed
                 (resolve_swap_accounts (xe_sdk env) (xe_get_account env) (xe_multi env) pool_id from held_mint back_mint
                    (clmm_program_id (xe_sdk env) (ar_rpc a)))) (\<lambda>(accounts, pool).
     Inr (held_mint, back_mint, accounts, pool)))))"

text \<open>Everything up to the signature, with the position as the iteration leaves it.\<close>

definition prepare_exit ::
    "exit_env \<Rightarrow> args \<Rightarrow> pubkey \<Rightarrow> (pubkey \<times> u64) option \<Rightarrow> u32 \<Rightarrow> live_position
       \<Rightarrow> (exit_error + prepared) \<times> live_position" where
  "prepare_exit env a from tip failures pos =
     (case exit_resolve env a from pos of
        Inl e \<Rightarrow> (Inl e, pos)
      | Inr (held_mint, back_mint, accounts, pool) \<Rightarrow>
        (case fetch_token_balance (xe_account_data env) (sa_input_token_account accounts) of
           Inl e \<Rightarrow> (Inl (HeldUnreadable e), pos)
         | Inr held \<Rightarrow>
           if held = 0 then (Inr Gone, pos)
           else
             let amount = min held (max (lp_tokens pos) 1);
                 adapter = with_resolved_pool pool (with_swap_accounts accounts
                             (with_program_id (clmm_program (ar_rpc a)) (adapter_new (lp_pool_id pos))));
                 opts = exit_opts a held_mint back_mint (amount = held) tip
             in case exit_quote env adapter amount (exit_slippage a failures) from opts of
                  Inl e \<Rightarrow> (Inl e, pos)
                | Inr q \<Rightarrow>
                    let sol_liquidity =
                          (if 0 < lp_entry_liquidity pos
                           then (case xe_liquidity env (sa_output_vault accounts) of Inr v \<Rightarrow> Some v | Inl _ \<Rightarrow> None) else None)
                    in case live_exit (run_strategy_config a)
                              (value_ratio_scaled (swapped_in pos amount) (q_expected_output q)) sol_liquidity
                              (xe_now_ms env) (ar_max_hold_secs a) pos of
                         (d, pos) \<Rightarrow>
                           if d = Hold then (Inr Holding, pos)
                           else let intent = build_intent (xe_sdk env) adapter q
                                in case xe_blockhash env of
                                     Inl _ \<Rightarrow> (Inl ExitBlockhashFailed, pos)
                                   | Inr _ \<Rightarrow>
                                     (case build_swap_transaction (xe_sdk env) adapter intent from opts of
                                        Inl e \<Rightarrow> (Inl (ExitBuildFailed e), pos)
                                      | Inr tx \<Rightarrow>
                                          (Inr (Selling d intent tx (sa_input_token_account accounts) held), pos))))"

section \<open>Selling\<close>

datatype exit_outcome = ExitHold | ExitClosed exit_decision i64 | ExitClosedExternally | ExitFailed exit_error

definition finish_exit ::
    "exit_env \<Rightarrow> risk_config \<Rightarrow> risk_env \<Rightarrow> live_position \<Rightarrow> exit_decision \<Rightarrow> trade_intent \<Rightarrow> instr list \<Rightarrow> u64
       \<Rightarrow> risk_manager \<Rightarrow> exit_outcome \<times> risk_manager" where
  "finish_exit env cfg renv pos d intent tx held rm =
     (case xe_sign env (case xe_blockhash env of Inr h \<Rightarrow> h | Inl _ \<Rightarrow> []) tx of
        Inl _ \<Rightarrow> (ExitFailed ExitSigningFailed, rm)
      | Inr signed_tx \<Rightarrow>
        (case xe_before env of
           Inl e \<Rightarrow> (ExitFailed (ExitBalanceFailed e), rm)
         | Inr before \<Rightarrow>
           let landed = (case xe_submit env signed_tx of
                           Inr _ \<Rightarrow> Inr ()
                         | Inl e \<Rightarrow> (case xe_held_after env of
                                      Inr now_held \<Rightarrow> if now_held < held then Inr () else Inl e | Inl _ \<Rightarrow> Inl e))
           in case landed of
                Inl e \<Rightarrow> (ExitFailed (ExitTxFailed e), rm)
              | Inr _ \<Rightarrow>
                  let proceeds = (case xe_back_after env of Inr after \<Rightarrow> sat_sub after before | Inl _ \<Rightarrow> ti_min_output intent);
                      pnl = realized_pnl (lp_cost pos) proceeds
                  in (ExitClosed d pnl, if pnl < 0 then snd (record_loss cfg renv (word_of_int (- pnl)) rm) else rm)))"

text \<open>The new best price is written when it was raised; a failed write only leaves the old record.\<close>

definition manage_open_position ::
    "exit_env \<Rightarrow> args \<Rightarrow> risk_config \<Rightarrow> risk_env \<Rightarrow> pubkey \<Rightarrow> (pubkey \<times> u64) option \<Rightarrow> u32 \<Rightarrow> live_position \<Rightarrow> live_world
       \<Rightarrow> exit_outcome \<times> live_position \<times> live_world" where
  "manage_open_position env a cfg renv from tip failures pos w =
     (case prepare_exit env a from tip failures pos of
        (r, pos') \<Rightarrow>
          let w = (if lp_peak pos' \<noteq> lp_peak pos \<and> xe_save_ok env then w\<lparr>lw_position := Record pos'\<rparr> else w)
          in case r of
               Inl e \<Rightarrow> (ExitFailed e, pos', w)
             | Inr Holding \<Rightarrow> (ExitHold, pos', w)
             | Inr Gone \<Rightarrow> (ExitClosedExternally, pos', w)
             | Inr (Selling d intent tx _ held) \<Rightarrow>
                 (case finish_exit env cfg renv pos' d intent tx held (lw_risk w) of
                    (outcome, rm) \<Rightarrow> (outcome, pos', w\<lparr>lw_risk := rm\<rparr>)))"

section \<open>The main loop\<close>

text \<open>The loop's state: the position in memory, the consecutive failures and whether a trade was completed.\<close>

record exit_loop =
  xl_position :: "live_position option"
  xl_failures :: u32
  xl_trade_done :: bool
  xl_world :: live_world

definition exit_iteration ::
    "exit_env \<Rightarrow> args \<Rightarrow> risk_config \<Rightarrow> risk_env \<Rightarrow> (pubkey \<times> u64) option \<Rightarrow> pubkey option \<Rightarrow> string + pubkey \<Rightarrow> bool
       \<Rightarrow> exit_loop \<Rightarrow> exit_loop" where
  "exit_iteration env a cfg renv tip expected hsm clear_ok s =
     (case xl_position s of
        None \<Rightarrow> s
      | Some pos \<Rightarrow>
        (case and_then (map_err (\<lambda>_. SignerUnavailable) hsm) (\<lambda>pk. and_then (validate_hsm_pubkey pk expected) (\<lambda>_. Inr pk)) of
           Inl _ \<Rightarrow> s
         | Inr from \<Rightarrow>
           (case manage_open_position env a cfg renv from tip (xl_failures s) pos (xl_world s) of
              (outcome, pos', w) \<Rightarrow>
                (case outcome of
                   ExitHold \<Rightarrow> s\<lparr>xl_position := Some pos', xl_failures := 0, xl_world := w\<rparr>
                 | ExitFailed _ \<Rightarrow> s\<lparr>xl_position := Some pos', xl_failures := sat_add (xl_failures s) 1, xl_world := w\<rparr>
                 | _ \<Rightarrow>
                     s\<lparr>xl_position := None, xl_failures := 0, xl_trade_done := True,
                       xl_world := w\<lparr>lw_risk := record_position_close renv (lp_size pos') (lw_risk w),
                                     lw_position := snd (clear_record clear_ok (lw_position w))\<rparr>\<rparr>))))"

section \<open>What an exit sells\<close>

lemma adapter_quote_fields:
  "adapter_quote adapter amount slippage = Inr q \<Longrightarrow> q_input_amount q = amount \<and> q_slippage_bps q = slippage"
  by (auto simp: adapter_quote_def Let_def split: option.splits)

lemma exit_quote_fields:
  "exit_quote env adapter amount slippage from opts = Inr q \<Longrightarrow> q_input_amount q = amount \<and> q_slippage_bps q = slippage"
  by (auto simp: exit_quote_def exact_quote_def ok_iff dest: adapter_quote_fields split: sum.splits)

lemma exit_slippage_max: "exit_slippage a failures \<le> max 500 (ar_max_slippage_bps a)"
  by (simp add: exit_slippage_def exit_slippage_bps_def EXIT_MAX_SLIPPAGE_BPS_def)

lemma live_exit_fields:
  "live_exit cfg ratio l now mh pos = (d, pos') \<Longrightarrow> pos' = pos\<lparr>lp_peak := lp_peak pos'\<rparr>"
  by (auto simp: live_exit_def live_price_exit_def Let_def split: prod.splits option.splits if_splits)

lemma live_exit_same:
  assumes "live_exit cfg ratio l now mh pos = (d, pos')"
  shows "lp_size pos' = lp_size pos" "lp_tokens pos' = lp_tokens pos" "lp_cost pos' = lp_cost pos"
    "lp_pool_id pos' = lp_pool_id pos" "lp_input_mint pos' = lp_input_mint pos" "lp_output_mint pos' = lp_output_mint pos"
  by (subst live_exit_fields [OF assms], simp)+

text \<open>An environment that signs no transaction but the given one, and submits nothing but its signed bytes.\<close>

definition only_tx :: "exit_env \<Rightarrow> instr list option \<Rightarrow> exit_env" where
  "only_tx env tx =
     env\<lparr>xe_sign := (\<lambda>h t. if Some t = tx then xe_sign env h t else Inl ''refused''),
         xe_submit := (\<lambda>bytes. case (tx, xe_blockhash env) of
            (Some t, Inr h) \<Rightarrow> if xe_sign env h t = Inr bytes then xe_submit env bytes else Inl BroadcastRefused
          | _ \<Rightarrow> Inl BroadcastRefused)\<rparr>"

lemma only_tx_fields:
  "xe_sdk (only_tx env tx) = xe_sdk env" "xe_get_account (only_tx env tx) = xe_get_account env" "xe_multi (only_tx env tx) = xe_multi env"
  "xe_account_data (only_tx env tx) = xe_account_data env" "xe_simulate (only_tx env tx) = xe_simulate env"
  "xe_liquidity (only_tx env tx) = xe_liquidity env" "xe_save_ok (only_tx env tx) = xe_save_ok env"
  "xe_now_ms (only_tx env tx) = xe_now_ms env" "xe_blockhash (only_tx env tx) = xe_blockhash env"
  "xe_before (only_tx env tx) = xe_before env" "xe_held_after (only_tx env tx) = xe_held_after env"
  "xe_back_after (only_tx env tx) = xe_back_after env"
  by (simp_all add: only_tx_def)

lemma prepare_only_tx: "prepare_exit (only_tx env tx) a from tip failures pos = prepare_exit env a from tip failures pos"
  unfolding prepare_exit_def exit_resolve_def exit_quote_def only_tx_fields ..

lemma finish_only_tx:
  assumes "xe_blockhash env = Inr h"
  shows "finish_exit (only_tx env (Some tx)) cfg renv pos d intent tx held rm = finish_exit env cfg renv pos d intent tx held rm"
  unfolding finish_exit_def by (simp add: only_tx_def assms cong: sum.case_cong if_cong)

text \<open>The terms of the sale of a position.\<close>

definition exit_terms :: "args \<Rightarrow> pubkey \<Rightarrow> pubkey \<Rightarrow> (pubkey \<times> u64) option \<Rightarrow> live_position \<Rightarrow> u64 \<Rightarrow> quote \<Rightarrow> swap_terms" where
  "exit_terms a held_mint back_mint tip pos held q =
     \<lparr> tm_input_mint = held_mint, tm_output_mint = back_mint, tm_amount = min held (max (lp_tokens pos) 1),
       tm_min_output = min_out (q_expected_output q) (q_slippage_bps q), tm_close_input = (held \<le> max (lp_tokens pos) 1), tm_tip = tip \<rparr>"

lemma prepared_sale:
  assumes "prepare_exit env a from tip failures pos = (Inr (Selling d intent tx account held), pos')"
  obtains held_mint back_mint acc pool h where
    "exit_resolve env a from pos = Inr (held_mint, back_mint, acc, pool)" "account = sa_input_token_account acc"
    "fetch_token_balance (xe_account_data env) account = Inr held" "held \<noteq> 0" "d \<noteq> Hold" "xe_blockhash env = Inr h"
    "q_slippage_bps (ti_quote intent) \<le> max 500 (ar_max_slippage_bps a)"
    "swaps_exactly (xe_sdk env) from acc (exit_terms a held_mint back_mint tip pos held (ti_quote intent)) tx"
    "lp_size pos' = lp_size pos" "lp_tokens pos' = lp_tokens pos"
proof -
  obtain held_mint back_mint acc pool where res: "exit_resolve env a from pos = Inr (held_mint, back_mint, acc, pool)"
    using assms by (auto simp: prepare_exit_def split: sum.splits)
  let ?account = "sa_input_token_account acc"
  obtain held' where held': "fetch_token_balance (xe_account_data env) ?account = Inr held'" "held' \<noteq> 0"
    using assms res by (auto simp: prepare_exit_def Let_def split: sum.splits if_splits)
  define amount where "amount = min held' (max (lp_tokens pos) 1)"
  define adapter where "adapter = with_resolved_pool pool (with_swap_accounts acc
    (with_program_id (clmm_program (ar_rpc a)) (adapter_new (lp_pool_id pos))))"
  define opts where "opts = exit_opts a held_mint back_mint (amount = held') tip"
  obtain q where q: "exit_quote env adapter amount (exit_slippage a failures) from opts = Inr q"
    using assms res held' by (auto simp: prepare_exit_def Let_def amount_def adapter_def opts_def split: sum.splits if_splits)
  note fields = exit_quote_fields [OF q]
  have rest: "d \<noteq> Hold \<and> (\<exists>h. xe_blockhash env = Inr h) \<and> intent = build_intent (xe_sdk env) adapter q
      \<and> build_swap_transaction (xe_sdk env) adapter intent from opts = Inr tx \<and> account = ?account \<and> held = held'
      \<and> lp_size pos' = lp_size pos \<and> lp_tokens pos' = lp_tokens pos"
    using assms res held' q
    by (auto simp: prepare_exit_def Let_def amount_def adapter_def opts_def dest: live_exit_same split: sum.splits if_splits prod.splits)
  moreover have "ra_accounts adapter = Some acc" by (simp add: adapter_def with_resolved_pool_def with_swap_accounts_def)
  ultimately have "swaps_exactly (xe_sdk env) from acc
      \<lparr> tm_input_mint = so_input_mint opts, tm_output_mint = so_output_mint opts, tm_amount = q_input_amount (ti_quote intent),
        tm_min_output = ti_min_output intent, tm_close_input = so_close_input opts, tm_tip = so_jito_tip opts \<rparr> tx"
    using built_swaps_exactly [of "xe_sdk env" adapter intent "from" opts tx acc] by blast
  moreover have "amount = held' \<longleftrightarrow> held' \<le> max (lp_tokens pos) 1" by (auto simp: amount_def min_def)
  ultimately have "swaps_exactly (xe_sdk env) from acc (exit_terms a held_mint back_mint tip pos held (ti_quote intent)) tx"
    using rest fields by (simp add: exit_terms_def opts_def exit_opts_def build_intent_def amount_def)
  with rest fields held' res that show ?thesis by (auto simp: build_intent_def exit_slippage_max)
qed

text \<open>
  C10. An exit only ever sells the position: it happens only on a decision, and the transaction it signs is one swap by the wallet, from the
  account whose balance was read, of exactly the smaller of that balance and the tokens bought (one raw unit when none were booked), for
  at least the valued output less a slippage of at most 5 percent or the configured one; around it are at most the compute budget, the
  token accounts, a wrap of that amount when the held token is SOL itself, the closing of the accounts (the sold one only when all
  of it is sold) and the configured tip.  And this transaction is all an iteration signs and sends: in an environment that refuses to sign any
  other transaction and to submit anything but its signed bytes, every iteration has the same outcome and leaves the same world, and when
  there is nothing to sell the environment may refuse everything.
\<close>

theorem exit_sells_the_position:
  "case prepare_exit env a from tip failures pos of
     (Inr (Selling d intent tx account held), pos') \<Rightarrow>
       d \<noteq> Hold \<and> held \<noteq> 0 \<and> fetch_token_balance (xe_account_data env) account = Inr held
       \<and> (\<exists>held_mint back_mint acc pool. exit_resolve env a from pos = Inr (held_mint, back_mint, acc, pool)
            \<and> account = sa_input_token_account acc
            \<and> swaps_exactly (xe_sdk env) from acc
                \<lparr> tm_input_mint = held_mint, tm_output_mint = back_mint, tm_amount = min held (max (lp_tokens pos) 1),
                  tm_min_output = min_out (q_expected_output (ti_quote intent)) (q_slippage_bps (ti_quote intent)),
                  tm_close_input = (held \<le> max (lp_tokens pos) 1), tm_tip = tip \<rparr> tx)
       \<and> q_slippage_bps (ti_quote intent) \<le> max 500 (ar_max_slippage_bps a)
       \<and> lp_size pos' = lp_size pos \<and> lp_tokens pos' = lp_tokens pos
       \<and> manage_open_position (only_tx env (Some tx)) a cfg renv from tip failures pos w
           = manage_open_position env a cfg renv from tip failures pos w
   | _ \<Rightarrow> manage_open_position (only_tx env None) a cfg renv from tip failures pos w
           = manage_open_position env a cfg renv from tip failures pos w"
proof -
  obtain r pos' where prep: "prepare_exit env a from tip failures pos = (r, pos')" by fastforce
  show ?thesis
  proof (cases "\<exists>d intent tx account held. r = Inr (Selling d intent tx account held)")
    case True
    then obtain d intent tx account held where r: "r = Inr (Selling d intent tx account held)" by blast
    from prep r have sale: "prepare_exit env a from tip failures pos = (Inr (Selling d intent tx account held), pos')" by simp
    show ?thesis
      using prepared_sale [OF sale] by (simp add: sale manage_open_position_def prepare_only_tx only_tx_fields finish_only_tx exit_terms_def Let_def)
        (metis finish_only_tx)
  next
    case False
    then show ?thesis
      by (cases r) (auto simp: prep manage_open_position_def prepare_only_tx only_tx_fields Let_def split: prepared.split)
  qed
qed

section \<open>Exits of paper and live positions agree\<close>

text \<open>
  The paper position starts its best ratio at one, the live position at zero; with a trailing stop that is armed at a profit the difference
  never shows.
\<close>

definition same_position :: "strategy_config \<Rightarrow> paper_sim \<Rightarrow> paper_position \<Rightarrow> live_position \<Rightarrow> bool" where
  "same_position cfg s pp lp \<longleftrightarrow>
     sm_config s = cfg \<and> pp_entry_liquidity pp = lp_entry_liquidity lp \<and> lp_entry_liquidity lp \<noteq> 0
     \<and> pp_opened_at_ms pp = lp_opened_at_ms lp \<and> pp_peak_ratio pp = max ratio_scale (ucast (lp_peak lp))"

definition armed_at_profit :: "strategy_config \<Rightarrow> bool" where
  "armed_at_profit cfg \<longleftrightarrow> trailing_stop_bps cfg = 0 \<or> trailing_activation_bps cfg \<noteq> 0"

lemma bps_above_one: "b \<noteq> 0 \<Longrightarrow> ratio_scale < ratio_scale + bps_to_scaled b"
proof -
  assume "b \<noteq> 0"
  then have "0 < unat b" by (simp add: unat_gt_0)
  moreover have "unat ratio_scale = 1000000000000" by (simp add: ratio_scale_def)
  moreover have "1000000000000 + unat b * 100000000 < 340282366920938463463374607431768211456"
    using unat_lt_u64 [of b] by linarith
  ultimately show ?thesis
    unfolding word_less_nat_alt by (subst unat_add_small) (simp_all add: unat_bps_to_scaled)
qed

lemma armed_peak:
  assumes "armed_at_profit cfg"
  shows "trailing_triggered cfg ratio (max ratio_scale p) = trailing_triggered cfg ratio p"
proof (cases "p < ratio_scale")
  case True
  then have "max ratio_scale p = ratio_scale" by simp
  moreover have "p < ratio_scale + bps_to_scaled (trailing_activation_bps cfg)"
    if "trailing_activation_bps cfg \<noteq> 0" using True bps_above_one [OF that] by (rule less_trans)
  ultimately show ?thesis
    using assms bps_above_one [of "trailing_activation_bps cfg"]
    by (auto simp: trailing_triggered_def armed_at_profit_def Let_def)
qed (simp add: max_def not_less)

lemma peak_step:
  "ratio \<le> ucast (u64_max) \<Longrightarrow>
     max (ucast (p :: u64)) ratio = (ucast (if p < sat_u64 ratio then sat_u64 ratio else p) :: u128)"
proof -
  assume a: "ratio \<le> ucast (u64_max)"
  then have u: "unat (sat_u64 ratio) = unat ratio"
    by (simp add: unat_sat_u64 word_le_nat_alt unat_max_word)
  moreover have "unat (ucast (sat_u64 ratio) :: u128) = unat (sat_u64 ratio)"
    by (simp add: unsigned_ucast_eq take_bit_nat_eq_self_iff)
  ultimately have r: "(ucast (sat_u64 ratio) :: u128) = ratio" "unat (sat_u64 ratio) = unat ratio"
    by (simp_all add: word_unat_eq_iff)
  have "unat (ucast p :: u128) = unat p"
    using unsigned_less [of p, where 'a = nat] by (simp add: unsigned_ucast_eq take_bit_nat_eq_self_iff)
  then have "p < sat_u64 ratio \<longleftrightarrow> ucast p < ratio" using r(2) by (simp add: word_less_nat_alt)
  then show ?thesis using r(1) by (auto simp: max_def not_less)
qed

text \<open>
  C26. Paper and live positions leave alike: for the same observed ratio, liquidity and clock, a paper position and the live position it
  stands for take the same exit decision and keep standing for each other, trailing stop included.
\<close>

theorem paper_live_exits_agree:
  assumes "armed_at_profit cfg" "same_position cfg s pp lp"
    and "case oriented s pp current of (x, y) \<Rightarrow> price_ratio_scaled x y = ratio"
    and "case ratio of Some r \<Rightarrow> r \<le> ucast (u64_max) | None \<Rightarrow> True"
    and "sm_max_hold_ms s = sat_mul max_hold_secs 1000"
  shows "case paper_exit s pp cand current of (d, pp') \<Rightarrow>
     case live_exit cfg ratio (Some (liquidity_lamports cand)) (sm_now_ms s) max_hold_secs lp of (d', lp') \<Rightarrow>
       d = d' \<and> same_position cfg s pp' lp'"
proof -
  have hold: "0 < sm_max_hold_ms s \<longleftrightarrow> 0 < max_hold_secs"
    by (simp add: assms(5) word_less_nat_alt unat_sat_mul)
  define lp' where "lp' = snd (live_price_exit cfg ratio lp)"
  define pp' where "pp' = snd (price_exit s pp current)"
  have eq: "fst (price_exit s pp current) = fst (live_price_exit cfg ratio lp) \<and> same_position cfg s pp' lp'"
  proof (cases ratio)
    case None
    then show ?thesis using assms(2,3) by (auto simp: price_exit_def live_price_exit_def pp'_def lp'_def split: prod.splits)
  next
    case (Some r)
    let ?new = "if lp_peak lp < sat_u64 r then sat_u64 r else lp_peak lp"
    have lp': "live_price_exit cfg ratio lp = (exit_with_peak cfg r (ucast ?new), lp\<lparr>lp_peak := ?new\<rparr>)"
      by (simp add: Some live_price_exit_def Let_def)
    have new: "max (pp_peak_ratio pp) r = max ratio_scale (ucast ?new)"
      using assms(2,4) peak_step [of r "lp_peak lp"] by (simp add: Some same_position_def max.assoc)
    have pp': "price_exit s pp current = (exit_with_peak cfg r (max ratio_scale (ucast ?new)), track_ratio r pp)"
      using assms(2,3) new by (auto simp: Some price_exit_def Let_def track_ratio_def same_position_def split: prod.splits)
    have "exit_with_peak cfg r (max ratio_scale (ucast ?new)) = exit_with_peak cfg r (ucast ?new)"
      by (simp only: exit_with_peak_def armed_peak [OF assms(1)])
    moreover have "same_position cfg s (track_ratio r pp) (lp\<lparr>lp_peak := ?new\<rparr>)"
      using assms(2) new by (simp add: same_position_def track_ratio_def)
    ultimately show ?thesis using lp' pp' by (simp add: pp'_def lp'_def)
  qed
  then have "forced_exit s pp' (liquidity_lamports cand)
      = live_forced_exit lp' (Some (liquidity_lamports cand)) (sm_now_ms s) max_hold_secs"
    using hold assms(5) by (auto simp: forced_exit_def live_forced_exit_def max_hold_reached_def same_position_def)
  then show ?thesis
    using eq by (auto simp: paper_exit_def live_exit_def pp'_def lp'_def split: prod.splits)
qed

theorem paper_live_exits_agree_witness:
  "let cfg = default_strategy; s = (with_config cfg)\<lparr>sm_max_hold_ms := 600000, sm_now_ms := 600001\<rparr>;
       cand = \<lparr> liquidity_lamports = 90, market_cap_lamports = 0, holders = 100, is_blocklisted = False \<rparr>
   in case paper_exit s \<lparr> pp_entry_sqrt = 1, pp_size = 100, pp_entry_liquidity = 100, pp_opened_at_ms = 1,
                          pp_peak_ratio = ratio_scale, pp_trough_ratio = ratio_scale \<rparr> cand 1 of (d, _) \<Rightarrow>
        d = fst (live_exit cfg (Some ratio_scale) (Some (liquidity_lamports cand)) (sm_now_ms s) 600
                   (example_position\<lparr>lp_opened_at_ms := 1, lp_entry_liquidity := 100, lp_peak := 0\<rparr>))"
proof -
  let ?s = "(with_config default_strategy)\<lparr>sm_max_hold_ms := 600000, sm_now_ms := 600001\<rparr>"
  let ?pp = "\<lparr> pp_entry_sqrt = 1, pp_size = 100, pp_entry_liquidity = 100, pp_opened_at_ms = 1,
                pp_peak_ratio = ratio_scale, pp_trough_ratio = ratio_scale \<rparr>"
  let ?lp = "example_position\<lparr>lp_opened_at_ms := 1, lp_entry_liquidity := 100, lp_peak := 0\<rparr>"
  have "price_ratio_scaled 1 1 = Some ratio_scale"
  proof -
    have "mul_div_floor 1 ratio_scale 1 = Some ratio_scale" "mul_div_floor ratio_scale ratio_scale ratio_scale = Some ratio_scale"
      unfolding mul_div_floor_Some_iff by (simp_all add: ratio_scale_def)
    then show ?thesis by (simp add: price_ratio_scaled_def)
  qed
  then have "case paper_exit ?s ?pp \<lparr> liquidity_lamports = 90, market_cap_lamports = 0, holders = 100, is_blocklisted = False \<rparr> 1 of (d, pp') \<Rightarrow>
     case live_exit default_strategy (Some ratio_scale)
            (Some (liquidity_lamports \<lparr> liquidity_lamports = 90, market_cap_lamports = 0, holders = 100, is_blocklisted = False \<rparr>))
            (sm_now_ms ?s) 600 ?lp of (d', lp') \<Rightarrow>
       d = d' \<and> same_position default_strategy ?s pp' lp'"
    by (intro paper_live_exits_agree)
       (simp_all add: armed_at_profit_def default_strategy_def same_position_def with_config_def oriented_def
         example_position_def ratio_scale_def sat_mul_def word_le_nat_alt unat_max_word)
  then show ?thesis by (simp add: Let_def split: prod.splits)
qed

section \<open>Exits and the risk manager\<close>

lemma finish_exit_outcome: "fst (finish_exit env cfg renv pos d intent tx held rm) = fst (finish_exit env cfg renv pos d intent tx held rm')"
  by (simp add: finish_exit_def Let_def split: sum.split)

lemma manage_outcome:
  "fst (manage_open_position env a cfg renv from tip failures pos w) = fst (manage_open_position env a cfg renv from tip failures pos w')
   \<and> fst (snd (manage_open_position env a cfg renv from tip failures pos w))
       = fst (snd (manage_open_position env a cfg renv from tip failures pos w'))"
  using finish_exit_outcome [of env cfg renv _ _ _ _ _ "lw_risk w" "lw_risk w'"]
  by (auto simp: manage_open_position_def Let_def split: prod.splits sum.splits prepared.splits)
     (metis fst_conv)+

text \<open>
  Exits are never trapped by the entry limits: whatever the state of the risk manager (kill switch, circuit breaker, caps, unverified) and of the
  records, an iteration of the exit management decides, sells and retries in the same way.
\<close>

theorem exits_ignore_entry_gates:
  "xl_position (exit_iteration env a cfg renv tip expected hsm clear_ok (s\<lparr>xl_world := w\<rparr>))
     = xl_position (exit_iteration env a cfg renv tip expected hsm clear_ok (s\<lparr>xl_world := w'\<rparr>))
   \<and> xl_failures (exit_iteration env a cfg renv tip expected hsm clear_ok (s\<lparr>xl_world := w\<rparr>))
     = xl_failures (exit_iteration env a cfg renv tip expected hsm clear_ok (s\<lparr>xl_world := w'\<rparr>))"
proof (cases "xl_position s")
  case (Some pos)
  show ?thesis
    using manage_outcome [of env a cfg renv _ tip "xl_failures s" pos w w'] Some
    by (auto simp: exit_iteration_def Let_def split: sum.splits prod.splits exit_outcome.splits) (metis fst_conv snd_conv exit_outcome.distinct)+
qed (simp add: exit_iteration_def)

section \<open>A crash while an exit is booked\<close>

text \<open>The writes after a sale in their order; an iteration that closes performs exactly these.\<close>

datatype exit_step = BookLoss u64 | BookClose u64 | ClearRecord

fun do_exit_step :: "risk_config \<Rightarrow> risk_env \<Rightarrow> exit_step \<Rightarrow> live_world \<Rightarrow> live_world" where
  "do_exit_step cfg env (BookLoss n) w = w\<lparr>lw_risk := snd (record_loss cfg env n (lw_risk w))\<rparr>"
| "do_exit_step cfg env (BookClose n) w = w\<lparr>lw_risk := record_position_close env n (lw_risk w)\<rparr>"
| "do_exit_step cfg env ClearRecord w = w\<lparr>lw_position := NoRecord\<rparr>"

definition exit_steps :: "i64 \<Rightarrow> u64 \<Rightarrow> exit_step list" where
  "exit_steps pnl n = (if pnl < 0 then [BookLoss (word_of_int (- pnl))] else []) @ [BookClose n, ClearRecord]"

lemma finish_exit_books:
  "finish_exit env cfg renv pos d intent tx held rm = (ExitClosed d' pnl, rm') \<Longrightarrow>
     rm' = (if pnl < 0 then snd (record_loss cfg renv (word_of_int (- pnl)) rm) else rm)"
  by (auto simp: finish_exit_def Let_def split: sum.splits)

lemma closing_iteration_steps:
  assumes "xl_position s = Some pos" "hsm = Inr from" "validate_hsm_pubkey from expected = Inr ()"
    and "prepare_exit env a from tip (xl_failures s) pos = (Inr (Selling d intent tx account held), pos')"
    and "finish_exit env cfg renv pos' d intent tx held (lw_risk (xl_world s)) = (ExitClosed d pnl, rm)"
  shows "lw_risk (xl_world (exit_iteration env a cfg renv tip expected hsm True s))
      = lw_risk (fold (do_exit_step cfg renv) (exit_steps pnl (lp_size pos')) (xl_world s))
    \<and> lw_position (xl_world (exit_iteration env a cfg renv tip expected hsm True s)) = NoRecord"
  using assms finish_exit_books [OF assms(5)]
  by (auto simp: exit_iteration_def manage_open_position_def Let_def exit_steps_def clear_record_def map_err_def)

lemma close_count:
  assumes "env_persist env = Written" "open_count 1 rm"
  shows "open_count 0 (record_position_close env n rm)"
  using assms by (auto simp: open_count_def risk_op_defs load_state_def sat_sub_def)

definition exit_progress :: "live_position \<Rightarrow> live_world \<Rightarrow> bool" where
  "exit_progress pos w \<longleftrightarrow> lw_pending w = NoRecord
     \<and> (lw_position w = Record pos \<and> (open_count 0 (lw_risk w) \<or> open_count 1 (lw_risk w))
        \<or> lw_position w = NoRecord \<and> open_count 0 (lw_risk w))"

lemma exit_prefix_progress:
  assumes "prefix steps (exit_steps pnl n)" "lw_position w = Record pos" "lw_pending w = NoRecord" "open_count 1 (lw_risk w)"
    and "env_persist env = Written"
  shows "exit_progress pos (fold (do_exit_step cfg env) steps w)"
proof -
  note cnt = close_count [OF assms(5)] open_count_steps(4) [OF assms(5)]
  show ?thesis
    using assms(1-4) cnt(1) [OF assms(4)] cnt(2) [OF assms(4)] cnt(1) [OF cnt(2) [OF assms(4)]]
    by (auto simp: exit_steps_def prefix_Cons exit_progress_def split: if_splits)
qed

lemma crash_count: "open_count n (lw_risk w) \<Longrightarrow> open_count n (lw_risk (crash now w))"
  by (auto simp: open_count_def crash_def risk_new_def load_state_def write_audit_def Let_def split: risk_file.splits)

lemma crash_exit_progress: "exit_progress pos w \<Longrightarrow> exit_progress pos (crash now w)"
  using crash_count [of 0 w now] crash_count [of 1 w now] by (auto simp: exit_progress_def) (simp_all add: crash_def)

lemma gone_closes:
  assumes "xl_position s = Some pos" "lw_position (xl_world s) = Record pos" "rm_open_positions (lw_risk (xl_world s)) = 1"
    and "hsm = Inr from" "validate_hsm_pubkey from expected = Inr ()"
    and "exit_resolve env a from pos = Inr (held_mint, back_mint, accounts, pool)"
    and "fetch_token_balance (xe_account_data env) (sa_input_token_account accounts) = Inr 0"
  shows "let s' = exit_iteration env a cfg renv tip expected hsm True s in
    xl_position s' = None \<and> lw_position (xl_world s') = NoRecord \<and> rm_open_positions (lw_risk (xl_world s')) = 0"
  using assms
  by (auto simp: exit_iteration_def manage_open_position_def prepare_exit_def Let_def clear_record_def
      record_position_close_def sat_sub_def map_err_def)

text \<open>
  C6. A crash while a sale is booked is repaired: when the process dies at any point between the sale and the last write, the next start succeeds and, after
  one iteration that finds the tokens gone, no position is open in memory, on disk or on the risk manager's books.
\<close>

theorem crash_safe_exit:
  assumes "prefix steps (exit_steps pnl (lp_size pos))" "lw_position w = Record pos" "lw_pending w = NoRecord"
    and "open_count 1 (lw_risk w)" "env_persist env = Written" "args_match a pos"
    and "parse_mint ps (lp_output_mint pos) \<noteq> None" "st_signer st = Inr from" "st_ata st = Inr None"
    and "validate_hsm_pubkey from expected = Inr ()"
    and "exit_resolve xe a from pos = Inr (held_mint, back_mint, accounts, pool)"
    and "fetch_token_balance (xe_account_data xe) (sa_input_token_account accounts) = Inr 0"
  shows "\<exists>p w'. start_live ps spl cfg a expected st (crash now (fold (do_exit_step cfg env) steps w)) = (Inr p, w')
    \<and> (let s = exit_iteration xe a cfg renv tip expected (Inr from) True
                  \<lparr> xl_position = p, xl_failures = 0, xl_trade_done = False, xl_world = w' \<rparr>
       in xl_position s = None \<and> lw_position (xl_world s) = NoRecord \<and> rm_open_positions (lw_risk (xl_world s)) = 0)"
proof -
  define w1 where "w1 = crash now (fold (do_exit_step cfg env) steps w)"
  have "exit_progress pos w1"
    unfolding w1_def by (rule crash_exit_progress [OF exit_prefix_progress [OF assms(1-5)]])
  then consider (still) "lw_position w1 = Record pos" "lw_pending w1 = NoRecord" "open_count 0 (lw_risk w1) \<or> open_count 1 (lw_risk w1)"
    | (closed) "lw_position w1 = NoRecord" "lw_pending w1 = NoRecord" "open_count 0 (lw_risk w1)"
    unfolding exit_progress_def by blast
  then show ?thesis
  proof cases
    case still
    obtain rm where r: "resume_position ps spl a expected st w1 = (Inr (Some pos), w1\<lparr>lw_risk := rm\<rparr>)" "rm_open_positions rm = 1"
      using resume_found [OF still(1) assms(6) still(3)] by blast
    then have "start_live ps spl cfg a expected st w1 = (Inr (Some pos), w1\<lparr>lw_risk := rm\<rparr>)"
      using still(2) by (simp add: start_live_def reconcile_pending_entry_def load_record_def)
    then show ?thesis
      unfolding w1_def [symmetric]
      using gone_closes [OF _ _ _ refl assms(10-12), where
          s = "\<lparr> xl_position = Some pos, xl_failures = 0, xl_trade_done = False, xl_world = w1\<lparr>lw_risk := rm\<rparr> \<rparr>"] still(1) r(2)
      by (intro exI [of _ "Some pos"] exI [of _ "w1\<lparr>lw_risk := rm\<rparr>"]) simp
  next
    case closed
    then have "start_live ps spl cfg a expected st w1 = (Inr None, w1)"
      using assms(6-10) by (auto simp: start_live_def reconcile_pending_entry_def load_record_def resume_position_def
          open_count_def check_orphan_def args_match_def map_err_def ok_or_def)
    then show ?thesis unfolding w1_def [symmetric] using closed by (simp add: exit_iteration_def open_count_def)
  qed
qed


lemma resolver_parts_read_base:
  fixes sdk :: clmm_sdk
  shows "fetch_pool_state (clmm_sdk.extend sdk rest) = fetch_pool_state sdk"
    "bitmap_extension_pda (clmm_sdk.extend sdk rest) = bitmap_extension_pda sdk"
    "pool_with_config (clmm_sdk.extend sdk rest) = pool_with_config sdk"
    "swap_candidates (clmm_sdk.extend sdk rest) = swap_candidates sdk"
    "confirmed_arrays (clmm_sdk.extend sdk rest) = confirmed_arrays sdk"
    "resolve_user_ata (clmm_sdk.extend sdk rest) = resolve_user_ata sdk"
proof -
  have pda: "tick_array_pda (clmm_sdk.extend sdk rest) = tick_array_pda sdk"
    "tick_array_pda_at (clmm_sdk.extend sdk rest) = tick_array_pda_at sdk"
    by (simp_all add: tick_array_pda_def tick_array_pda_at_def clmm_sdk.defs fun_eq_iff)
  have cands: "tick_array_candidates (clmm_sdk.extend sdk rest) = tick_array_candidates sdk"
    by (simp add: tick_array_candidates_def pda fun_eq_iff)
  have verify: "verify_clmm_account (clmm_sdk.extend sdk rest) = verify_clmm_account sdk"
    by (simp add: verify_clmm_account_def anchor_account_discriminator_def clmm_sdk.defs fun_eq_iff)
  show "fetch_pool_state (clmm_sdk.extend sdk rest) = fetch_pool_state sdk"
    "bitmap_extension_pda (clmm_sdk.extend sdk rest) = bitmap_extension_pda sdk"
    "pool_with_config (clmm_sdk.extend sdk rest) = pool_with_config sdk"
    "swap_candidates (clmm_sdk.extend sdk rest) = swap_candidates sdk"
    "confirmed_arrays (clmm_sdk.extend sdk rest) = confirmed_arrays sdk"
    "resolve_user_ata (clmm_sdk.extend sdk rest) = resolve_user_ata sdk"
    by (simp_all add: fetch_pool_state_def verify pool_with_config_def swap_candidates_def confirmed_arrays_def
        cands pda fun_eq_iff cong: if_cong) (simp_all add: bitmap_extension_pda_def resolve_user_ata_def clmm_sdk.defs)
qed

lemma resolver_reads_base:
  fixes sdk :: clmm_sdk
  shows "resolve_swap_accounts (clmm_sdk.extend sdk rest) = resolve_swap_accounts sdk"
  by (simp add: resolve_swap_accounts_def resolver_parts_read_base fun_eq_iff)


definition demo_swap_sdk :: swap_sdk where
  "demo_swap_sdk = clmm_sdk.extend demo_clmm
     \<lparr> parse_pk = (\<lambda>t. if t = ''pool'' then Some (replicate 32 9) else if t = ''token'' then Some (replicate 32 3)
                      else if t = ''sol'' then Some (replicate 32 4) else None),
       sys_transfer = (\<lambda>_ _ _. \<lparr> ix_program = [], ix_metas = [], ix_bytes = [] \<rparr>),
       set_cu_limit = (\<lambda>_. \<lparr> ix_program = [], ix_metas = [], ix_bytes = [] \<rparr>),
       set_cu_price = (\<lambda>_. \<lparr> ix_program = [], ix_metas = [], ix_bytes = [] \<rparr>), system_id = [] \<rparr>"

definition demo_exit_env :: exit_env where
  "demo_exit_env =
     \<lparr> xe_sdk = demo_swap_sdk, xe_get_account = demo_get, xe_multi = demo_multi, xe_account_data = (\<lambda>_. Inr None),
       xe_simulate = (\<lambda>_ _. None), xe_liquidity = (\<lambda>_. Inl None), xe_save_ok = True, xe_now_ms = 0, xe_blockhash = Inl [],
       xe_sign = (\<lambda>_ _. Inl []), xe_before = Inl BalanceRpc, xe_submit = (\<lambda>_. Inl BroadcastRefused),
       xe_held_after = Inl BalanceRpc, xe_back_after = Inl BalanceRpc \<rparr>"

lemma demo_exit_resolves:
  "\<exists>accounts pool. exit_resolve demo_exit_env live_args_example (replicate 32 10) example_position
     = Inr (replicate 32 3, replicate 32 4, accounts, pool)"
proof -
  have "clmm_program_id demo_swap_sdk (ar_rpc live_args_example) = demo_program"
    by (simp add: clmm_program_id_def clmm_program_def demo_swap_sdk_def clmm_sdk.defs demo_clmm_def live_args_example_def)
  moreover obtain acc pool where "resolve_swap_accounts demo_clmm demo_get demo_multi (replicate 32 9) (replicate 32 10) (replicate 32 3)
     (replicate 32 4) demo_program = Inr (acc, pool)" using demo_resolved by blast
  moreover have "resolve_swap_accounts demo_swap_sdk = resolve_swap_accounts demo_clmm"
    by (simp only: demo_swap_sdk_def resolver_reads_base)
  moreover have "parse_pk demo_swap_sdk ''pool'' = Some (replicate 32 9)" "parse_pk demo_swap_sdk ''token'' = Some (replicate 32 3)"
    "parse_pk demo_swap_sdk ''sol'' = Some (replicate 32 4)" by (simp_all add: demo_swap_sdk_def clmm_sdk.defs)
  ultimately show ?thesis
    by (simp add: exit_resolve_def demo_exit_env_def example_position_def ok_or_def map_err_def)
qed


theorem crash_safe_exit_witness:
  "\<exists>p w'. start_live example_parsers [6] devnet_defaults live_args_example None
      (example_start\<lparr>st_signer := Inr (replicate 32 10)\<rparr>)
      (crash 9 (fold (do_exit_step devnet_defaults (st_risk_env example_start)) [BookLoss 40]
         \<lparr> lw_risk = record_position_open (st_risk_env example_start) 100 (risk_new 0 NoFile []),
           lw_position = Record example_position, lw_pending = NoRecord \<rparr>)) = (Inr p, w')
    \<and> xl_position (exit_iteration demo_exit_env live_args_example devnet_defaults (st_risk_env example_start) None None
          (Inr (replicate 32 10)) True \<lparr> xl_position = p, xl_failures = 0, xl_trade_done = False, xl_world = w' \<rparr>) = None"
proof -
  let ?w = "\<lparr> lw_risk = record_position_open (st_risk_env example_start) 100 (risk_new 0 NoFile []),
              lw_position = Record example_position, lw_pending = NoRecord \<rparr>"
  obtain accounts pool where resolved: "exit_resolve demo_exit_env live_args_example (replicate 32 10) example_position
     = Inr (replicate 32 3, replicate 32 4, accounts, pool)" using demo_exit_resolves by blast
  have "open_count 1 (record_position_open (st_risk_env example_start) 100 (risk_new 0 NoFile []))"
    using open_count_steps(2) [OF _ example_counts] by (simp add: example_start_def)
  then have "\<exists>p w'. start_live example_parsers [6] devnet_defaults live_args_example None
      (example_start\<lparr>st_signer := Inr (replicate 32 10)\<rparr>)
      (crash 9 (fold (do_exit_step devnet_defaults (st_risk_env example_start)) [BookLoss 40] ?w)) = (Inr p, w')
    \<and> (let s = exit_iteration demo_exit_env live_args_example devnet_defaults (st_risk_env example_start) None None
                  (Inr (replicate 32 10)) True \<lparr> xl_position = p, xl_failures = 0, xl_trade_done = False, xl_world = w' \<rparr>
       in xl_position s = None \<and> lw_position (xl_world s) = NoRecord \<and> rm_open_positions (lw_risk (xl_world s)) = 0)"
    by (intro crash_safe_exit [where pnl = "- 40" and pos = example_position, OF _ _ _ _ _ _ _ _ _ _ resolved])
       (simp_all add: exit_steps_def example_defs args_match_def live_args_example_def validate_hsm_pubkey_def
         demo_exit_env_def fetch_token_balance_def)
  then show ?thesis by (auto simp: Let_def)
qed

end
