(* ===== verification/Supervisor_Config.thy ===== *)
theory Supervisor_Config
  imports Pool_Discovery Live_Args Rpc_Batch
begin

text \<open>
  \<open>solana-sniper/src/bin/pool_sniper.rs\<close>, the parts without a loop: the arguments of the supervisor and their checks, the command
  line of a trading process, the token programs it may trade, the liveness record with its two verdicts, and the
  timing rules of retries, alarms and gaps.
\<close>

section \<open>Arguments\<close>

datatype mode = PaperMode | DryRunMode | LiveMode

fun mode_flag :: "mode \<Rightarrow> string" where
  "mode_flag PaperMode = ''--paper''"
| "mode_flag DryRunMode = ''--dry-run''"
| "mode_flag LiveMode = ''--live''"

datatype discovery_amm = ClmmPools | PumpswapPools

datatype source = Logs | Geckoterminal

datatype discovery_event = Signature string | Pool pubkey

record sup_args =
  sg_mode :: mode
  sg_confirm_live :: bool
  sg_rpc :: string
  sg_ws :: string
  sg_data_dir :: string
  sg_min_liquidity_sol :: f64
  sg_discovery_min_liquidity_sol :: "f64 option"
  sg_watch_secs :: u64
  sg_recheck_secs :: u64
  sg_max_watch :: nat
  sg_entry_window_secs :: u64
  sg_paper_token_2022 :: bool
  sg_amm :: discovery_amm
  sg_max_hold_secs :: u64
  sg_max_pools_per_day :: u32
  sg_source :: source
  sg_gecko_url :: string
  sg_gecko_pages :: u32
  sg_poll_secs :: u64
  sg_health_addr :: string

definition default_sup_args :: sup_args where
  "default_sup_args =
     \<lparr> sg_mode = PaperMode, sg_confirm_live = False, sg_rpc = ''https://api.mainnet-beta.solana.com'',
       sg_ws = ''wss://api.mainnet-beta.solana.com'', sg_data_dir = ''./data'', sg_min_liquidity_sol = 1000,
       sg_discovery_min_liquidity_sol = None, sg_watch_secs = 1800, sg_recheck_secs = 30, sg_max_watch = 50,
       sg_entry_window_secs = 300, sg_paper_token_2022 = False, sg_amm = ClmmPools, sg_max_hold_secs = 3600,
       sg_max_pools_per_day = 20, sg_source = Logs,
       sg_gecko_url = ''https://api.geckoterminal.com/api/v2/networks/solana/new_pools?page={page}'',
       sg_gecko_pages = 3, sg_poll_secs = 60, sg_health_addr = ''127.0.0.1:9091'' \<rparr>"

definition CLMM_MAINNET :: string where "CLMM_MAINNET = ''CAMMCzo5YL8w4VFF8KVHrK22GGUsp5VTaW7grrKgrWqK''"
definition CLMM_DEVNET :: string where "CLMM_DEVNET = ''DRayAUgENGQBKVaX8owNhgzkEDyoHTGVEGHVJT1E9pfH''"

definition sup_clmm_program :: "'a solana_sdk_scheme \<Rightarrow> string \<Rightarrow> pubkey" where
  "sup_clmm_program sdk rpc = key_of sdk (if contains ''devnet'' rpc then CLMM_DEVNET else CLMM_MAINNET)"

datatype config_error =
    LiveUnconfirmed | PumpswapCombination | Token2022NotPaper | GeckoUrl | GeckoPages | PollTooFast
  | DiscoveryLiquidity | MinLiquidity | ZeroInterval

definition validate_sup :: "sup_args \<Rightarrow> config_error + unit" where
  "validate_sup a =
     (if sg_mode a = LiveMode \<and> \<not> sg_confirm_live a then Inl LiveUnconfirmed
      else if sg_amm a = PumpswapPools \<and> (sg_mode a \<noteq> PaperMode \<or> sg_source a \<noteq> Geckoterminal) then Inl PumpswapCombination
      else if sg_paper_token_2022 a \<and> sg_mode a \<noteq> PaperMode then Inl Token2022NotPaper
      else if sg_source a = Geckoterminal \<and> \<not> (prefix ''https://'' (sg_gecko_url a) \<and> contains ''{page}'' (sg_gecko_url a))
      then Inl GeckoUrl
      else if sg_source a = Geckoterminal \<and> \<not> (1 \<le> sg_gecko_pages a \<and> sg_gecko_pages a \<le> 10) then Inl GeckoPages
      else if sg_source a = Geckoterminal \<and> sg_poll_secs a < 30 then Inl PollTooFast
      else if (case sg_discovery_min_liquidity_sol a of Some d \<Rightarrow> d < 1 | None \<Rightarrow> False) then Inl DiscoveryLiquidity
      else if sg_min_liquidity_sol a < 20 then Inl MinLiquidity
      else if sg_recheck_secs a = 0 \<or> sg_watch_secs a = 0 \<or> sg_max_pools_per_day a = 0 then Inl ZeroInterval
      else Inr ())"

text \<open>The liquidity, in lamports, a watched pool needs before it is handed to a trading process.\<close>

definition discovery_min_lamports :: "sup_args \<Rightarrow> u64" where
  "discovery_min_lamports a =
     sol_to_lamports (case sg_discovery_min_liquidity_sol a of Some d \<Rightarrow> d | None \<Rightarrow> sg_min_liquidity_sol a)"

section \<open>The command line of a trading process\<close>

definition policy_of :: "sup_args \<Rightarrow> token_policy" where
  "policy_of a = (if sg_paper_token_2022 a \<and> sg_mode a = PaperMode then PaperToken2022 else ClassicOnly)"

definition CHILD_ENV_REMOVE :: "string list" where
  "CHILD_ENV_REMOVE =
     [''SNIPER_PAPER'', ''SNIPER_DRY_RUN'', ''SNIPER_LIVE'', ''SNIPER_CONFIRM_LIVE'', ''SNIPER_POOL_ID'',
      ''SNIPER_INPUT_MINT'', ''SNIPER_OUTPUT_MINT'', ''SNIPER_ITERATIONS'', ''SNIPER_DATA_DIR'', ''SNIPER_SINGLE_TRADE'',
      ''SNIPER_ENTRY_WINDOW_SECS'', ''SNIPER_MIN_LIQUIDITY_SOL'', ''SNIPER_MAX_HOLD_SECS'', ''SNIPER_LIVE_RISK_DATA'',
      ''SNIPER_PAPER_TOKEN_2022'', ''SNIPER_AMM'']"

text \<open>The variables removed from the environment of a child; the payer of a simulation is kept for a dry run only.\<close>

definition child_env_removed :: "sup_args \<Rightarrow> string list" where
  "child_env_removed a = CHILD_ENV_REMOVE @ (if sg_mode a \<noteq> DryRunMode then [''SNIPER_SIMULATE_PAYER''] else [])"

type_synonym environ = "string \<Rightarrow> string option"

text \<open>What the child inherits from the environment of the supervisor.\<close>

definition child_environ :: "sup_args \<Rightarrow> environ \<Rightarrow> environ" where
  "child_environ a inherited = (\<lambda>v. if v \<in> set (child_env_removed a) then None else inherited v)"

text \<open>\<open>show_f64\<close> is the \<open>Display\<close> of a float.\<close>

definition child_args :: "(f64 \<Rightarrow> string) \<Rightarrow> sup_args \<Rightarrow> string \<Rightarrow> string \<Rightarrow> string \<Rightarrow> string list" where
  "child_args show_f64 a pool input_mint output_mint =
     [mode_flag (sg_mode a)]
     @ (if sg_mode a = LiveMode then [''--confirm-live''] else [])
     @ [''--pool-id'', pool, ''--input-mint'', input_mint, ''--output-mint'', output_mint, ''--iterations'', ''0'',
        ''--data-dir'', sg_data_dir a, ''--entry-window-secs'', decimal (unat (sg_entry_window_secs a)),
        ''--min-liquidity-sol'', show_f64 (sg_min_liquidity_sol a),
        ''--max-hold-secs'', decimal (unat (sg_max_hold_secs a))]
     @ [''--single-trade'', ''--live-risk-data'']
     @ (if policy_of a = PaperToken2022 then [''--paper-token-2022''] else [])
     @ (if sg_amm a = PumpswapPools \<and> sg_mode a = PaperMode then [''--amm'', ''pumpswap''] else [])"

section \<open>Liveness\<close>

record status =
  st_loop_ms :: u64
  st_ws_ms :: u64
  st_watched :: u64
  st_started_today :: u64
  st_child_running :: bool
  st_create_pool_seen :: u64
  st_stream_reconnects :: u64
  st_signatures_evicted :: u64
  st_signatures_unresolved :: u64
  st_pools_watched :: u64
  st_pools_not_wsol :: u64
  st_pools_rejected :: u64
  st_pools_expired :: u64
  st_children_started :: u64
  st_child_startup_failures :: u64
  st_last_gap_ms :: u64
  st_state_persist_failed :: bool

definition fresh_status :: status where
  "fresh_status =
     \<lparr> st_loop_ms = 0, st_ws_ms = 0, st_watched = 0, st_started_today = 0, st_child_running = False, st_create_pool_seen = 0,
       st_stream_reconnects = 0, st_signatures_evicted = 0, st_signatures_unresolved = 0, st_pools_watched = 0,
       st_pools_not_wsol = 0, st_pools_rejected = 0, st_pools_expired = 0, st_children_started = 0,
       st_child_startup_failures = 0, st_last_gap_ms = 0, st_state_persist_failed = False \<rparr>"

datatype counter = CreatePoolSeen | Reconnects | Evicted | Unresolved | Watched | NotWsol | Rejected | Expired | Started | StartupFailures

fun bump :: "counter \<Rightarrow> status \<Rightarrow> status" where
  "bump CreatePoolSeen st = st\<lparr>st_create_pool_seen := st_create_pool_seen st + 1\<rparr>"
| "bump Reconnects st = st\<lparr>st_stream_reconnects := st_stream_reconnects st + 1\<rparr>"
| "bump Evicted st = st\<lparr>st_signatures_evicted := st_signatures_evicted st + 1\<rparr>"
| "bump Unresolved st = st\<lparr>st_signatures_unresolved := st_signatures_unresolved st + 1\<rparr>"
| "bump Watched st = st\<lparr>st_pools_watched := st_pools_watched st + 1\<rparr>"
| "bump NotWsol st = st\<lparr>st_pools_not_wsol := st_pools_not_wsol st + 1\<rparr>"
| "bump Rejected st = st\<lparr>st_pools_rejected := st_pools_rejected st + 1\<rparr>"
| "bump Expired st = st\<lparr>st_pools_expired := st_pools_expired st + 1\<rparr>"
| "bump Started st = st\<lparr>st_children_started := st_children_started st + 1\<rparr>"
| "bump StartupFailures st = st\<lparr>st_child_startup_failures := st_child_startup_failures st + 1\<rparr>"

definition gap :: "u64 \<Rightarrow> counter \<Rightarrow> status \<Rightarrow> status" where
  "gap now c st = (bump c st)\<lparr>st_last_gap_ms := now\<rparr>"

definition GAP_READY_WINDOW_MS :: u64 where "GAP_READY_WINDOW_MS = 300000"
definition WS_SILENCE_LIMIT_MS :: u64 where "WS_SILENCE_LIMIT_MS = 180000"
definition LOOP_STALL_LIMIT_MS :: u64 where "LOOP_STALL_LIMIT_MS = 30000"
definition STREAM_DOWN_ALARM_MS :: u64 where "STREAM_DOWN_ALARM_MS = 600000"

datatype unready = LoopStalled | NoDiscoveryData | StateNotPersisted | DiscoveryGap u64

definition health_verdict :: "u64 \<Rightarrow> u64 \<Rightarrow> u64 \<Rightarrow> unready + unit" where
  "health_verdict loop_ms ws_ms now =
     (if LOOP_STALL_LIMIT_MS < sat_sub now loop_ms then Inl LoopStalled
      else if ws_ms = 0 \<or> WS_SILENCE_LIMIT_MS < sat_sub now ws_ms then Inl NoDiscoveryData
      else Inr ())"

definition ready_verdict :: "status \<Rightarrow> u64 \<Rightarrow> unready + unit" where
  "ready_verdict st now =
     and_then (health_verdict (st_loop_ms st) (st_ws_ms st) now) (\<lambda>_.
     if st_state_persist_failed st then Inl StateNotPersisted
     else if st_last_gap_ms st \<noteq> 0 \<and> sat_sub now (st_last_gap_ms st) < GAP_READY_WINDOW_MS
     then Inl (DiscoveryGap (sat_sub now (st_last_gap_ms st) div 1000))
     else Inr ())"

text \<open>The answers of the health server: the code of a path.\<close>

definition health_code :: "status \<Rightarrow> u64 \<Rightarrow> string \<Rightarrow> nat" where
  "health_code st now path =
     (if path = ''/health'' then (case health_verdict (st_loop_ms st) (st_ws_ms st) now of Inr _ \<Rightarrow> 200 | Inl _ \<Rightarrow> 503)
      else if path = ''/ready'' then (case ready_verdict st now of Inr _ \<Rightarrow> 200 | Inl _ \<Rightarrow> 503)
      else if path = ''/metrics'' then 200 else 404)"

definition silence_alarm_due :: "u64 \<Rightarrow> u64 \<Rightarrow> u64 \<Rightarrow> u64 \<Rightarrow> u64 option" where
  "silence_alarm_due last_msg started last_alarm now =
     (let silent = sat_sub now (if last_msg = 0 then started else last_msg)
      in if STREAM_DOWN_ALARM_MS \<le> silent \<and> STREAM_DOWN_ALARM_MS \<le> sat_sub now last_alarm then Some silent else None)"

section \<open>Retries of a listed pool and gaps of the listing\<close>

definition LISTED_POOLS_CAP :: nat where "LISTED_POOLS_CAP = 256"
definition LISTED_POOL_RETRY_MS :: "u64 list" where "LISTED_POOL_RETRY_MS = [30000, 120000, 600000, 1200000]"

definition listed_retry_delay_ms :: "u8 \<Rightarrow> u64 option" where
  "listed_retry_delay_ms failures =
     Option.bind (checked_sub failures 1) (\<lambda>i. get_at (unat i) LISTED_POOL_RETRY_MS)"

definition gecko_gap :: "u64 option \<Rightarrow> u64 option \<Rightarrow> bool" where
  "gecko_gap last_poll oldest_created =
     (case (last_poll, oldest_created) of (Some prev, Some oldest) \<Rightarrow> prev < oldest | _ \<Rightarrow> False)"

section \<open>The child reads what the supervisor wrote\<close>

lemma parse_digits_append: "parse_digits acc (xs @ ys) = Option.bind (parse_digits acc xs) (\<lambda>n. parse_digits n ys)"
  by (induction acc xs rule: parse_digits.induct) (simp_all add: Let_def)

lemma of_char_digit: "d < 10 \<Longrightarrow> (of_char (char_of (48 + d)) :: nat) = 48 + d"
  by simp

lemma parse_decimal: "parse_digits 0 (decimal n) = Some n"
proof (induction n rule: decimal.induct)
  case (1 n)
  show ?case
  proof (cases "n < 10")
    case True
    then show ?thesis by (subst decimal.simps) (simp add: of_char_digit)
  next
    case False
    have "n mod 10 < 10" by simp
    from of_char_digit [OF this] show ?thesis
      using 1 [OF False] False by (subst decimal.simps) (simp add: parse_digits_append Let_def)
  qed
qed

lemma decimal_head: "decimal n = c # cs \<Longrightarrow> 48 \<le> (of_char c :: nat)"
proof (induction n arbitrary: c cs rule: decimal.induct)
  case (1 n)
  show ?case
  proof (cases "n < 10")
    case True
    then show ?thesis using 1(2) by (subst (asm) decimal.simps) (auto simp: of_char_digit)
  next
    case False
    then obtain d ds where "decimal (n div 10) = d # ds"
      by (cases "decimal (n div 10)") (subst (asm) decimal.simps, auto split: if_splits)
    moreover from this have "c = d" using 1(2) False by (subst (asm) decimal.simps) simp
    ultimately show ?thesis using 1(1) [OF False] by blast
  qed
qed

lemma decimal_nonempty: "decimal n \<noteq> []"
  by (subst decimal.simps) simp

lemma parse_u64_decimal: "parse_u64 (decimal (unat x)) = Some x"
proof -
  obtain c cs where d: "decimal (unat x) = c # cs" using decimal_nonempty by (cases "decimal (unat x)") auto
  have "c \<noteq> CHR ''+''" using decimal_head [OF d] by auto
  then show ?thesis using parse_decimal [of "unat x"] unfolding parse_u64_def d by (simp add: Let_def of_nat_unat_same)
qed

text \<open>
  The command line as the options with a value and the flags, and what the documented behaviour of the parser of the child makes of it and
  of its environment: what is on the command line wins, what is not is read from the variable of that argument.  \<open>truthy\<close> is the parser's
  reading of a flag's variable.  The first thing the child does is to load a file \<open>.env\<close> of its directory, which sets the variables that
  are not set.
\<close>

definition VALUE_OPTIONS :: "string list" where
  "VALUE_OPTIONS =
     [''--pool-id'', ''--input-mint'', ''--output-mint'', ''--iterations'', ''--data-dir'', ''--entry-window-secs'',
      ''--min-liquidity-sol'', ''--max-hold-secs'', ''--amm'']"

fun cli_items :: "string list \<Rightarrow> (string \<times> string option) list" where
  "cli_items [] = []"
| "cli_items [k] = [(k, None)]"
| "cli_items (k # v # rest) = (if k \<in> set VALUE_OPTIONS then (k, Some v) # cli_items rest else (k, None) # cli_items (v # rest))"

definition flag_given :: "string \<Rightarrow> string list \<Rightarrow> bool" where
  "flag_given k argv \<longleftrightarrow> (k, None) \<in> set (cli_items argv)"

definition option_value :: "string \<Rightarrow> string list \<Rightarrow> string option" where
  "option_value k argv = Option.bind (map_of (cli_items argv) k) id"

definition flag_read :: "(string \<Rightarrow> bool) \<Rightarrow> string \<Rightarrow> string \<Rightarrow> string list \<Rightarrow> environ \<Rightarrow> bool" where
  "flag_read truthy k v argv env \<longleftrightarrow> flag_given k argv \<or> (case env v of Some t \<Rightarrow> truthy t | None \<Rightarrow> False)"

definition option_read :: "string \<Rightarrow> string \<Rightarrow> string list \<Rightarrow> environ \<Rightarrow> string option" where
  "option_read k v argv env = (case option_value k argv of Some x \<Rightarrow> Some x | None \<Rightarrow> env v)"

definition with_dotenv :: "environ \<Rightarrow> environ \<Rightarrow> environ" where
  "with_dotenv dotenv env = (\<lambda>v. case env v of Some x \<Rightarrow> Some x | None \<Rightarrow> dotenv v)"

text \<open>The arguments the child parses.\<close>

definition child_reads :: "(string \<Rightarrow> f64 option) \<Rightarrow> (string \<Rightarrow> bool) \<Rightarrow> environ \<Rightarrow> string list \<Rightarrow> args \<Rightarrow> bool" where
  "child_reads parse_f64 truthy env argv c \<longleftrightarrow>
     (ar_live c \<longleftrightarrow> flag_read truthy ''--live'' ''SNIPER_LIVE'' argv env)
     \<and> (ar_dry_run c \<longleftrightarrow> flag_read truthy ''--dry-run'' ''SNIPER_DRY_RUN'' argv env)
     \<and> (ar_paper c \<longleftrightarrow> flag_read truthy ''--paper'' ''SNIPER_PAPER'' argv env)
     \<and> (ar_confirm_live c \<longleftrightarrow> flag_read truthy ''--confirm-live'' ''SNIPER_CONFIRM_LIVE'' argv env)
     \<and> (ar_live_risk_data c \<longleftrightarrow> flag_read truthy ''--live-risk-data'' ''SNIPER_LIVE_RISK_DATA'' argv env)
     \<and> (ar_paper_token_2022 c \<longleftrightarrow> flag_read truthy ''--paper-token-2022'' ''SNIPER_PAPER_TOKEN_2022'' argv env)
     \<and> ar_amm c = (if option_read ''--amm'' ''SNIPER_AMM'' argv env = Some ''pumpswap'' then PumpswapAmm else Clmm)
     \<and> ar_pool_id c = option_read ''--pool-id'' ''SNIPER_POOL_ID'' argv env
     \<and> ar_input_mint c = option_read ''--input-mint'' ''SNIPER_INPUT_MINT'' argv env
     \<and> ar_output_mint c = option_read ''--output-mint'' ''SNIPER_OUTPUT_MINT'' argv env
     \<and> ar_min_liquidity_sol c = Option.bind (option_read ''--min-liquidity-sol'' ''SNIPER_MIN_LIQUIDITY_SOL'' argv env) parse_f64
     \<and> Some (ar_max_hold_secs c) = Option.bind (option_read ''--max-hold-secs'' ''SNIPER_MAX_HOLD_SECS'' argv env) parse_u64
     \<and> ar_simulate_payer c = option_read ''--simulate-payer'' ''SNIPER_SIMULATE_PAYER'' argv env"

definition child_mode :: "args \<Rightarrow> mode option" where
  "child_mode c =
     (case (ar_paper c, ar_dry_run c, ar_live c) of
        (True, False, False) \<Rightarrow> Some PaperMode | (False, True, False) \<Rightarrow> Some DryRunMode
      | (False, False, True) \<Rightarrow> if ar_confirm_live c then Some LiveMode else None | _ \<Rightarrow> None)"

lemma cli_items_child:
  "cli_items (child_args show_f64 a pool i out) =
     (mode_flag (sg_mode a), None) # (if sg_mode a = LiveMode then [(''--confirm-live'', None)] else [])
     @ [(''--pool-id'', Some pool), (''--input-mint'', Some i), (''--output-mint'', Some out), (''--iterations'', Some ''0''),
        (''--data-dir'', Some (sg_data_dir a)), (''--entry-window-secs'', Some (decimal (unat (sg_entry_window_secs a)))),
        (''--min-liquidity-sol'', Some (show_f64 (sg_min_liquidity_sol a))),
        (''--max-hold-secs'', Some (decimal (unat (sg_max_hold_secs a)))),
        (''--single-trade'', None), (''--live-risk-data'', None)]
     @ (if policy_of a = PaperToken2022 then [(''--paper-token-2022'', None)] else [])
     @ (if sg_amm a = PumpswapPools \<and> sg_mode a = PaperMode then [(''--amm'', Some ''pumpswap'')] else [])"
  by (cases "sg_mode a") (simp_all add: child_args_def VALUE_OPTIONS_def)

lemma child_flag:
  "flag_given k (child_args show_f64 a pool i out) \<longleftrightarrow>
     k = mode_flag (sg_mode a) \<or> k = ''--confirm-live'' \<and> sg_mode a = LiveMode \<or> k = ''--single-trade'' \<or> k = ''--live-risk-data''
     \<or> k = ''--paper-token-2022'' \<and> policy_of a = PaperToken2022"
  unfolding flag_given_def cli_items_child by auto

lemma child_option:
  "option_value ''--pool-id'' (child_args show_f64 a pool i out) = Some pool"
  "option_value ''--input-mint'' (child_args show_f64 a pool i out) = Some i"
  "option_value ''--output-mint'' (child_args show_f64 a pool i out) = Some out"
  "option_value ''--min-liquidity-sol'' (child_args show_f64 a pool i out) = Some (show_f64 (sg_min_liquidity_sol a))"
  "option_value ''--max-hold-secs'' (child_args show_f64 a pool i out) = Some (decimal (unat (sg_max_hold_secs a)))"
  "option_value ''--amm'' (child_args show_f64 a pool i out) =
     (if sg_amm a = PumpswapPools \<and> sg_mode a = PaperMode then Some ''pumpswap'' else None)"
  "option_value ''--simulate-payer'' (child_args show_f64 a pool i out) = None"
  by (cases "sg_mode a"; simp add: option_value_def cli_items_child)+

text \<open>No variable of a mode, a policy or a pool program is left in the environment of a child.\<close>

lemma environ_cleared:
  assumes "list_all (\<lambda>v. dotenv v = None) (child_env_removed a)"
  shows "v \<in> set (child_env_removed a) \<Longrightarrow> with_dotenv dotenv (child_environ a inherited) v = None"
  using assms by (simp add: with_dotenv_def child_environ_def list_all_iff)

lemma switches_removed:
  "{''SNIPER_LIVE'', ''SNIPER_DRY_RUN'', ''SNIPER_PAPER'', ''SNIPER_CONFIRM_LIVE'', ''SNIPER_PAPER_TOKEN_2022'', ''SNIPER_AMM''}
     \<subseteq> set (child_env_removed a)"
  "sg_mode a \<noteq> DryRunMode \<Longrightarrow> ''SNIPER_SIMULATE_PAYER'' \<in> set (child_env_removed a)"
  by (simp_all add: child_env_removed_def CHILD_ENV_REMOVE_def)

lemma mode_flag_eq:
  "''--live'' = mode_flag m \<longleftrightarrow> m = LiveMode" "''--dry-run'' = mode_flag m \<longleftrightarrow> m = DryRunMode"
  "''--paper'' = mode_flag m \<longleftrightarrow> m = PaperMode" "''--confirm-live'' \<noteq> mode_flag m"
  "''--paper-token-2022'' \<noteq> mode_flag m"
  by (cases m; simp)+

lemma child_fields:
  assumes "child_reads parse_f64 truthy (with_dotenv dotenv (child_environ a inherited)) (child_args show_f64 a pool i out) c"
    and "list_all (\<lambda>v. dotenv v = None) (child_env_removed a)"
    and "parse_f64 (show_f64 (sg_min_liquidity_sol a)) = Some (sg_min_liquidity_sol a)"
  shows "ar_live c \<longleftrightarrow> sg_mode a = LiveMode" "ar_dry_run c \<longleftrightarrow> sg_mode a = DryRunMode" "ar_paper c \<longleftrightarrow> sg_mode a = PaperMode"
    "ar_confirm_live c \<longleftrightarrow> sg_mode a = LiveMode" "ar_live_risk_data c"
    "ar_paper_token_2022 c \<longleftrightarrow> policy_of a = PaperToken2022"
    "ar_amm c = (if sg_amm a = PumpswapPools \<and> sg_mode a = PaperMode then PumpswapAmm else Clmm)"
    "ar_pool_id c = Some pool" "ar_input_mint c = Some i" "ar_output_mint c = Some out"
    "ar_min_liquidity_sol c = Some (sg_min_liquidity_sol a)" "ar_max_hold_secs c = sg_max_hold_secs a"
    "sg_mode a \<noteq> DryRunMode \<Longrightarrow> ar_simulate_payer c = None"
proof -
  define env where "env = with_dotenv dotenv (child_environ a inherited)"
  have cleared: "env v = None" if "v \<in> set (child_env_removed a)" for v
    using environ_cleared [OF assms(2) that] by (simp add: env_def)
  have none: "env ''SNIPER_LIVE'' = None" "env ''SNIPER_DRY_RUN'' = None" "env ''SNIPER_PAPER'' = None" "env ''SNIPER_CONFIRM_LIVE'' = None"
    "env ''SNIPER_PAPER_TOKEN_2022'' = None" "env ''SNIPER_AMM'' = None"
    using switches_removed(1) [of a] by (simp_all only: insert_subset cleared)
  note r = assms(1) [folded env_def, unfolded child_reads_def flag_read_def option_read_def child_flag child_option none]
  show "ar_live c \<longleftrightarrow> sg_mode a = LiveMode" "ar_dry_run c \<longleftrightarrow> sg_mode a = DryRunMode" "ar_paper c \<longleftrightarrow> sg_mode a = PaperMode"
    "ar_confirm_live c \<longleftrightarrow> sg_mode a = LiveMode" "ar_live_risk_data c"
    "ar_paper_token_2022 c \<longleftrightarrow> policy_of a = PaperToken2022"
    using r by (simp_all add: mode_flag_eq)
  show "ar_amm c = (if sg_amm a = PumpswapPools \<and> sg_mode a = PaperMode then PumpswapAmm else Clmm)"
    using r by (simp split: if_splits)
  show "ar_pool_id c = Some pool" "ar_input_mint c = Some i" "ar_output_mint c = Some out"
    "ar_min_liquidity_sol c = Some (sg_min_liquidity_sol a)" "ar_max_hold_secs c = sg_max_hold_secs a"
    using r assms(3) by (simp_all add: parse_u64_decimal)
  show "ar_simulate_payer c = None" if "sg_mode a \<noteq> DryRunMode"
    using r cleared [OF switches_removed(2) [OF that]] by simp
qed

fun environment_error :: "startup_error \<Rightarrow> bool" where
  "environment_error TrailingTooWide = True"
| "environment_error TrailingUnarmed = True"
| "environment_error (RiskConfig e) = True"
| "environment_error LiveNeedsHsm = True"
| "environment_error HsmNeedsTls = True"
| "environment_error BadExpectedSigner = True"
| "environment_error LiveNeedsSigner = True"
| "environment_error BadSimulatePayer = True"
| "environment_error _ = False"

lemma policy_selected:
  assumes "validate_sup a = Inr ()"
  shows "select_token_policy (policy_of a = PaperToken2022) (sg_mode a = PaperMode) (sg_mode a = LiveMode)
    (sg_mode a = DryRunMode) amm = Inr (policy_of a)"
  by (simp add: select_token_policy_def policy_of_def)

lemma child_amm_valid:
  "validate_amm (if sg_amm a = PumpswapPools \<and> sg_mode a = PaperMode then PumpswapAmm else Clmm) (sg_mode a = PaperMode)
     (sg_mode a = LiveMode) (sg_mode a = DryRunMode) payer = Inr ()"
  by (simp add: validate_amm_def ensure_def)

lemma position_fits_production:
  "production_defaults env = Inr cfg \<Longrightarrow>
     map_err PositionSize (validate_position_size_invariant (max_position_lamports default_strategy) (rc_max_trade_size cfg))
       = Inr ()"
  by (auto simp: map_err_def production_defaults_def Let_def validate_position_size_invariant_def default_strategy_def
      word_less_nat_alt word_le_nat_alt ensure_def split: env_u64.splits sum.splits)

lemma case_and_then: "case_sum P Q (and_then r g) = (case r of Inl e \<Rightarrow> P e | Inr x \<Rightarrow> case_sum P Q (g x))"
  by (cases r) simp_all

lemma left_to_environment:
  "validate_trailing_stop t arm = Inl e \<Longrightarrow> environment_error e"
  "map_err RiskConfig r = Inl e \<Longrightarrow> environment_error e"
  "validate_signing_config (m = LiveMode) (m = DryRunMode) (m = PaperMode) (m = LiveMode) endpoint ca identity = Inl e
     \<Longrightarrow> environment_error e"
  "validate_live_args parse live (Some pool) (Some i) (Some out) True signer = Inl e \<Longrightarrow> environment_error e"
  by (auto simp: validate_trailing_stop_def map_err_def validate_signing_config_def validate_live_args_def ensure_def and_then_def
      split: if_splits sum.splits option.splits)

lemma paper_args_given: "(if p then validate_paper_args (Some pool) (Some i) (Some out) else Inr ()) = Inr ()"
  by (simp add: validate_paper_args_def ensure_def)

lemma payer_checked:
  "(payer \<noteq> None \<longrightarrow> dry) \<Longrightarrow>
     (case payer of Some t \<Rightarrow> if \<not> dry then Inl PayerOnlyDryRun
        else (case parse t of Some k \<Rightarrow> Inr (Some k) | None \<Rightarrow> Inl BadSimulatePayer) | None \<Rightarrow> Inr None) = Inl e
     \<Longrightarrow> environment_error e"
  by (auto split: option.splits if_splits)

lemma normalized_fields [simp]:
  "ar_live (normalized c) = ar_live c" "ar_dry_run (normalized c) = ar_dry_run c" "ar_paper (normalized c) = ar_paper c"
  "ar_confirm_live (normalized c) = ar_confirm_live c" "ar_live_risk_data (normalized c) = ar_live_risk_data c"
  "ar_paper_token_2022 (normalized c) = ar_paper_token_2022 c" "ar_amm (normalized c) = ar_amm c"
  "ar_min_liquidity_sol (normalized c) = ar_min_liquidity_sol c" "ar_max_hold_secs (normalized c) = ar_max_hold_secs c"
  "ar_simulate_payer (normalized c) = unset_blank (ar_simulate_payer c)" "ar_pool_id (normalized c) = unset_blank (ar_pool_id c)"
  "ar_input_mint (normalized c) = unset_blank (ar_input_mint c)" "ar_output_mint (normalized c) = unset_blank (ar_output_mint c)"
  by (simp_all add: normalized_def)

text \<open>
  C32. The supervisor and the process it starts agree: when the supervisor accepted its arguments, a trading process started with the
  command line it writes runs in the mode of the supervisor, confirmed when live, on the given pool and mints, with on-chain risk data and
  the same token policy, whatever variables the supervisor itself was started with, and its own start-up
  checks refuse it only for what the supervisor leaves to the environment: the signer, the trailing stop, the risk limits or
  the payer of a dry run.  The one thing assumed of the environment is that a file \<open>.env\<close> in the working directory does not set the
  variables the supervisor removes: the child loads that file after they are removed (\<open>dotenv_brings_back\<close>).
\<close>

theorem child_start_agrees:
  assumes "validate_sup a = Inr ()"
    and "child_reads parse_f64 truthy (with_dotenv dotenv (child_environ a inherited)) (child_args show_f64 a pool i out) c"
    and "list_all (\<lambda>v. dotenv v = None) (child_env_removed a)"
    and "parse_f64 (show_f64 (sg_min_liquidity_sol a)) = Some (sg_min_liquidity_sol a)"
    and "trim pool \<noteq> []" "trim i \<noteq> []" "trim out \<noteq> []"
  shows "child_mode (normalized c) = Some (sg_mode a) \<and> ar_live_risk_data (normalized c) \<and> ar_pool_id (normalized c) = Some pool
    \<and> ar_input_mint (normalized c) = Some i \<and> ar_output_mint (normalized c) = Some out
    \<and> (ar_amm (normalized c) = PumpswapAmm \<longleftrightarrow> sg_amm a = PumpswapPools)
    \<and> (case startup_checks parse env (normalized c) of
         Inr (policy, _) \<Rightarrow> policy = policy_of a | Inl e \<Rightarrow> environment_error e)"
proof -
  note f = child_fields [OF assms(2-4)]
  define d where "d = normalized c"
  have d: "ar_live d \<longleftrightarrow> sg_mode a = LiveMode" "ar_dry_run d \<longleftrightarrow> sg_mode a = DryRunMode" "ar_paper d \<longleftrightarrow> sg_mode a = PaperMode"
    "ar_confirm_live d \<longleftrightarrow> sg_mode a = LiveMode" "ar_live_risk_data d"
    "ar_paper_token_2022 d \<longleftrightarrow> policy_of a = PaperToken2022"
    "ar_amm d = (if sg_amm a = PumpswapPools \<and> sg_mode a = PaperMode then PumpswapAmm else Clmm)"
    "ar_pool_id d = Some pool" "ar_input_mint d = Some i" "ar_output_mint d = Some out"
    "ar_min_liquidity_sol d = Some (sg_min_liquidity_sol a)"
    using assms(5-7) by (simp_all add: d_def f unset_blank_def)
  have "20 \<le> sg_min_liquidity_sol a" and amm: "sg_amm a = PumpswapPools \<Longrightarrow> sg_mode a = PaperMode"
    using assms(1) by (auto simp: validate_sup_def split: if_splits)
  then have liq: "validate_min_liquidity (ar_min_liquidity_sol d) = Inr ()"
    by (simp add: d validate_min_liquidity_def MIN_LIQUIDITY_FLOOR_SOL_def ensure_def)
  have payer: "ar_simulate_payer d \<noteq> None \<longrightarrow> sg_mode a = DryRunMode" using f(13) by (cases "sg_mode a = DryRunMode") (simp_all add: d_def unset_blank_def)
  have "case startup_checks parse env d of Inr (policy, _) \<Rightarrow> policy = policy_of a | Inl e \<Rightarrow> environment_error e"
    unfolding startup_checks_def case_and_then d(1-4,6-10) policy_selected [OF assms(1)] child_amm_valid paper_args_given liq
    by (auto split: sum.splits dest: left_to_environment payer_checked [OF payer] simp: position_fits_production d(5))
  then show ?thesis using amm d unfolding d_def [symmetric] by (cases "sg_mode a") (auto simp: child_mode_def)
qed

definition demo_child :: args where
  "demo_child =
     live_args_example\<lparr>ar_live := False, ar_paper := True, ar_confirm_live := False, ar_min_liquidity_sol := Some 1000,
       ar_max_hold_secs := 3600\<rparr>"

text \<open>A supervisor of paper trades that was itself started with the variables of a live run.\<close>

definition live_environ :: environ where
  "live_environ = [''SNIPER_LIVE'' \<mapsto> ''true'', ''SNIPER_CONFIRM_LIVE'' \<mapsto> ''true'']"

lemma demo_child_reads:
  "child_reads (\<lambda>_. Some 1000) (\<lambda>t. t = ''true'') (with_dotenv (\<lambda>_. None) (child_environ default_sup_args live_environ))
     (child_args (\<lambda>_. ''1000'') default_sup_args ''pool'' ''sol'' ''token'') demo_child"
  unfolding child_reads_def flag_read_def option_read_def child_flag child_option
  by (simp add: demo_child_def live_args_example_def default_sup_args_def policy_of_def parse_u64_decimal
      parse_u64_decimal [of 3600, simplified] with_dotenv_def child_environ_def child_env_removed_def CHILD_ENV_REMOVE_def)

lemma default_args_valid: "validate_sup default_sup_args = Inr ()"
  by (simp add: validate_sup_def default_sup_args_def)

theorem child_start_agrees_witness: "child_mode (normalized demo_child) = Some PaperMode \<and> ar_live_risk_data demo_child"
proof -
  have blanks: "trim ''pool'' \<noteq> []" "trim ''sol'' \<noteq> []" "trim ''token'' \<noteq> []" by code_simp+
  have no_file: "list_all (\<lambda>v. (\<lambda>_. None) v = (None :: string option)) (child_env_removed default_sup_args)" by (simp add: list_all_iff)
  have "sg_min_liquidity_sol default_sup_args = 1000" "sg_mode default_sup_args = PaperMode" by (simp_all add: default_sup_args_def)
  then show ?thesis using child_start_agrees [OF default_args_valid demo_child_reads no_file _ blanks] by simp
qed

text \<open>
  A file \<open>.env\<close> brings a removed variable back: with \<open>SNIPER_LIVE=true\<close> in it, a child of a paper supervisor reads itself as both paper and live,
  and refuses to start.
\<close>

lemma dotenv_brings_back:
  assumes "sg_mode a = PaperMode" "dotenv ''SNIPER_LIVE'' = Some t" "truthy t"
    and "child_reads parse_f64 truthy (with_dotenv dotenv (child_environ a inherited)) (child_args show_f64 a pool i out) c"
  shows "ar_live c \<and> ar_paper c \<and> child_mode c = None"
proof -
  have "with_dotenv dotenv (child_environ a inherited) ''SNIPER_LIVE'' = Some t"
    using assms(2) by (simp add: with_dotenv_def child_environ_def child_env_removed_def CHILD_ENV_REMOVE_def)
  then have "ar_live c" "ar_paper c" using assms(1,3,4) by (simp_all add: child_reads_def flag_read_def child_flag)
  then show ?thesis by (cases "ar_dry_run c") (simp_all add: child_mode_def)
qed

section \<open>A gap is reported\<close>

text \<open>For five minutes after a possible gap the supervisor does not claim to be ready.\<close>

lemma gap_not_ready:
  assumes "t \<noteq> 0" "t \<le> now" "now < t + GAP_READY_WINDOW_MS" "t \<le> t + GAP_READY_WINDOW_MS"
  shows "isl (ready_verdict (gap t c st) now)"
proof -
  have "sat_sub now t < GAP_READY_WINDOW_MS"
    using assms unfolding word_less_nat_alt word_le_nat_alt unat_sat_sub GAP_READY_WINDOW_MS_def
    by (simp add: unat_word_ariths)
  then show ?thesis
    using assms(1) by (simp add: ready_verdict_def gap_def and_then_def split: sum.split)
qed

text \<open>A listed pool whose read keeps failing is read at most five times, with waits of 32.5 minutes in all.\<close>

lemma listed_retry_delays:
  "map listed_retry_delay_ms [1, 2, 3, 4, 5] = [Some 30000, Some 120000, Some 600000, Some 1200000, None]"
  by (simp add: listed_retry_delay_ms_def checked_sub_def get_at_def LISTED_POOL_RETRY_MS_def)

lemma no_retry_after_four: "4 < f \<Longrightarrow> listed_retry_delay_ms f = None"
  by (auto simp: listed_retry_delay_ms_def checked_sub_def get_at_def LISTED_POOL_RETRY_MS_def unat_sub_small
      word_less_nat_alt word_le_nat_alt)

end
