(* ===== verification/Supervisor.thy ===== *)
theory Supervisor
  imports Supervisor_Config Position Retry
begin

text \<open>
  \<open>solana-sniper/src/bin/pool_sniper.rs\<close>, the reads of the chain and the loop of the supervisor: the verification of a listed pool, the
  transaction of a CreatePool signature, the pre-filter of a watched pool, and one pass of the loop (child process, intake, start).
  What a pass meets (time, node, files, the child) is a record of answers.
\<close>

section \<open>Reading a pool\<close>

text \<open>What a moment of a pass finds at the node.\<close>

record node =
  nd_account :: "pubkey \<Rightarrow> raw_account option"
  nd_multiple :: "pubkey list \<Rightarrow> raw_account option list option"
  nd_holder :: holder_rpc

datatype pool_error = ClmmError resolve_error | PumpError pump_error

fun transient_pool_read_error :: "pool_error \<Rightarrow> bool" where
  "transient_pool_read_error (ClmmError e) \<longleftrightarrow> e = PoolFetch"
| "transient_pool_read_error (PumpError e) \<longleftrightarrow> False"

fun retryable_read_error :: "pool_error \<Rightarrow> bool" where
  "retryable_read_error (ClmmError e) \<longleftrightarrow> transient_pool_read_error (ClmmError e)"
| "retryable_read_error (PumpError e) \<longleftrightarrow> transient_read_error e"

definition read_listed_pool ::
    "clmm_sdk \<Rightarrow> node \<Rightarrow> pubkey \<Rightarrow> discovery_amm \<Rightarrow> pubkey \<Rightarrow> vault_cache \<Rightarrow> (pool_error + new_pool) \<times> vault_cache" where
  "read_listed_pool sdk nd program amm pk cache =
     (case amm of
        ClmmPools \<Rightarrow>
          (and_then (map_err ClmmError (fetch_pool_state sdk (nd_account nd) pk program)) (\<lambda>state.
           Inr \<lparr> np_pool_id = pk, np_mint_0 = rp_token_mint_0 state, np_mint_1 = rp_token_mint_1 state \<rparr>), cache)
      | PumpswapPools \<Rightarrow>
          let (snap, cache) = fetch_snapshot (solana_sdk.truncate sdk) (nd_account nd) (nd_multiple nd) pk cache
          in (and_then (map_err PumpError snap) (\<lambda>s.
              Inr \<lparr> np_pool_id = pk, np_mint_0 = pp_base_mint (ps_pool s), np_mint_1 = pp_quote_mint (ps_pool s) \<rparr>), cache))"

datatype liquidity_error =
    ReadAgain pool_error | NoInRangeLiquidity | VaultRead "string option" | BaseMintMismatch | MintsMismatch | NotReadable pool_error

fun retry_later :: "liquidity_error \<Rightarrow> bool" where
  "retry_later (ReadAgain e) = True"
| "retry_later NoInRangeLiquidity = True"
| "retry_later (VaultRead e) = True"
| "retry_later _ = False"

definition candidate_sol_liquidity ::
    "clmm_sdk \<Rightarrow> node \<Rightarrow> pubkey \<Rightarrow> discovery_amm \<Rightarrow> candidate \<Rightarrow> vault_cache \<Rightarrow> (liquidity_error + u64) \<times> vault_cache" where
  "candidate_sol_liquidity sdk nd program amm c cache =
     (let wsol = key_of sdk WSOL_MINT in
      case amm of
        PumpswapPools \<Rightarrow>
          (case fetch_snapshot (solana_sdk.truncate sdk) (nd_account nd) (nd_multiple nd) (np_pool_id (cd_pool c)) cache of
             (Inr s, cache) \<Rightarrow>
               (if pp_base_mint (ps_pool s) = cd_token_mint c then Inr (ps_real_quote s) else Inl BaseMintMismatch, cache)
           | (Inl e, cache) \<Rightarrow> (Inl (if transient_read_error e then ReadAgain (PumpError e) else NotReadable (PumpError e)), cache))
      | ClmmPools \<Rightarrow>
          (and_then (map_err (\<lambda>e. ReadAgain (ClmmError e)) (fetch_pool_state sdk (nd_account nd) (np_pool_id (cd_pool c)) program)) (\<lambda>pool.
           and_then (if rp_token_mint_0 pool = wsol \<and> rp_token_mint_1 pool = cd_token_mint c then Inr (rp_token_vault_0 pool)
                     else if rp_token_mint_1 pool = wsol \<and> rp_token_mint_0 pool = cd_token_mint c then Inr (rp_token_vault_1 pool)
                     else Inl MintsMismatch) (\<lambda>sol_vault.
           if rp_liquidity pool = 0 then Inl NoInRangeLiquidity
           else map_err VaultRead (fetch_vault_liquidity (nd_holder nd) sol_vault))), cache))"

text \<open>The errors of the mint whose text names Token-2022; the text of a failed call is what the node answered.\<close>

fun names_token_2022 :: "mint_error \<Rightarrow> bool" where
  "names_token_2022 (MintFetch e) = contains ''Token-2022'' e"
| "names_token_2022 (Token2022 e) = True"
| "names_token_2022 UnsupportedOwner = True"
| "names_token_2022 _ = False"

datatype check_reason = AuthorityPresent mint_authority_risk | MintUnread mint_error | LowLiquidity u64 u64 | Liquidity liquidity_error

text \<open>\<open>text\<close> turns a reason into the words of the log.\<close>

definition check_candidate ::
    "(check_reason \<Rightarrow> string) \<Rightarrow> clmm_sdk \<Rightarrow> node \<Rightarrow> pubkey \<Rightarrow> u64 \<Rightarrow> token_policy \<Rightarrow> discovery_amm \<Rightarrow> candidate \<Rightarrow> vault_cache
       \<Rightarrow> check_outcome \<times> candidate \<times> vault_cache" where
  "check_candidate text sdk nd program min_lamports policy amm c cache =
     (let mint = (if cd_mint_ok c then Inr c
                  else case fetch_mint_authority_risk sdk (nd_holder nd) (cd_token_mint c) policy of
                         Inr r \<Rightarrow> if is_risky r then Inl (Reject (text (AuthorityPresent r))) else Inr (c\<lparr>cd_mint_ok := True\<rparr>)
                       | Inl e \<Rightarrow> Inl ((if names_token_2022 e then Reject else Retry) (text (MintUnread e))))
      in case mint of
           Inl outcome \<Rightarrow> (outcome, c, cache)
         | Inr c \<Rightarrow>
             (case candidate_sol_liquidity sdk nd program amm c cache of
                (Inr l, cache) \<Rightarrow> (if min_lamports \<le> l then Ready else Retry (text (LowLiquidity l min_lamports)), c, cache)
              | (Inl e, cache) \<Rightarrow> ((if retry_later e then Retry else Reject) (text (Liquidity e)), c, cache)))"

section \<open>The transaction of a signature\<close>

record chain_ix =
  ci_program :: u8
  ci_accounts :: "u8 list"
  ci_data :: bytes

datatype inner_ix = Compiled u8 "u8 list" string | Parsed

record tx_meta =
  tm_loaded :: "(string list \<times> string list) option"
  tm_inner :: "inner_ix list list option"

record confirmed_tx =
  ct_message :: "(pubkey list \<times> chain_ix list) option"
  ct_meta :: "tx_meta option"

datatype resolve_sig_error = BadSignature | SignatureRpc string | Undecodable | NoMeta | BadLoadedAddress

record sig_env =
  se_valid_signature :: "string \<Rightarrow> bool"
  se_transaction :: "string \<Rightarrow> string + confirmed_tx"
  se_key :: "string \<Rightarrow> pubkey option"
  se_b58 :: "string \<Rightarrow> bytes option"

definition loaded_keys :: "sig_env \<Rightarrow> pubkey list \<Rightarrow> tx_meta \<Rightarrow> resolve_sig_error + pubkey list" where
  "loaded_keys env static meta =
     (case tm_loaded meta of
        None \<Rightarrow> Inr static
      | Some (writable, readonly) \<Rightarrow>
          and_then (try_map (\<lambda>k. ok_or BadLoadedAddress (se_key env k)) (writable @ readonly)) (\<lambda>loaded. Inr (static @ loaded)))"

definition top_instruction :: "pubkey list \<Rightarrow> chain_ix \<Rightarrow> raw_instruction option" where
  "top_instruction keys ix =
     Option.bind (get_at (unat (ci_program ix)) keys) (\<lambda>pid.
     Option.bind (resolve_indexes keys (ci_accounts ix)) (\<lambda>accs.
     Some \<lparr> ri_program_id = pid, ri_accounts = accs, ri_data = ci_data ix \<rparr>))"

fun inner_instruction :: "sig_env \<Rightarrow> pubkey list \<Rightarrow> inner_ix \<Rightarrow> raw_instruction option" where
  "inner_instruction env keys Parsed = None"
| "inner_instruction env keys (Compiled p accounts data) =
     Option.bind (se_b58 env data) (\<lambda>d. top_instruction keys \<lparr> ci_program = p, ci_accounts = accounts, ci_data = d \<rparr>)"

text \<open>\<open>Inr None\<close>: the node does not serve the transaction yet.\<close>

definition resolve_signature ::
    "sig_env \<Rightarrow> (bytes \<Rightarrow> bytes) \<Rightarrow> pubkey \<Rightarrow> string \<Rightarrow> resolve_sig_error + new_pool list option" where
  "resolve_signature env sha program sig =
     (if \<not> se_valid_signature env sig then Inl BadSignature
      else case se_transaction env sig of
             Inl msg \<Rightarrow> if contains ''invalid type: null'' msg \<or> contains ''not found'' msg then Inr None else Inl (SignatureRpc msg)
           | Inr tx \<Rightarrow>
               and_then (ok_or Undecodable (ct_message tx)) (\<lambda>(static, ixs).
               and_then (ok_or NoMeta (ct_meta tx)) (\<lambda>meta.
               and_then (loaded_keys env static meta) (\<lambda>keys.
               let inner = (case tm_inner meta of Some groups \<Rightarrow> concat groups | None \<Rightarrow> []);
                   raw = List.map_filter (top_instruction keys) ixs @ List.map_filter (inner_instruction env keys) inner
               in Inr (Some (find_create_pools sha program raw))))))"

section \<open>The state of the supervisor and what a pass meets\<close>

record running =
  rn_pool :: string
  rn_started :: nat
  rn_term_sent :: "nat option"

text \<open>Instants are milliseconds of the monotonic clock; \<open>sv_disk\<close> is the file of the discovery state.\<close>

record supervisor =
  sv_watch :: watch_list
  sv_pending :: pending_signatures
  sv_listed :: "(pubkey \<times> u8 \<times> u64) list"
  sv_state :: discovery_state
  sv_running :: "running option"
  sv_blocked_until :: "nat option"
  sv_status :: status
  sv_vaults :: vault_cache
  sv_disk :: "discovery_state record_file"

text \<open>The points of a pass at which the code reads a clock, the node or the shutdown flag.\<close>

datatype moment =
    LoopStart | ChildPolled | ShutdownTest | Received nat | ListedDue nat | ListedRead nat | SignatureDone nat | AfterIntake
  | Resumed | BlockTest | RiskRefused | TakeNext nat | Checked nat | Spawned

datatype child_poll = ChildRunning | ChildExited bool | PollFailed

record pass_env =
  pv_now :: "moment \<Rightarrow> u64"
  pv_instant :: "moment \<Rightarrow> nat"
  pv_node :: "moment \<Rightarrow> node"
  pv_shutdown :: "moment \<Rightarrow> bool"
  pv_poll :: child_poll
  pv_events :: "discovery_event list"
  pv_signatures :: "nat \<Rightarrow> sig_env"
  pv_position :: "live_position record_file"
  pv_entry :: "pending_entry record_file"
  pv_spawn :: bool
  pv_save :: bool
  pv_staleness :: env_u64
  pv_risk_file :: risk_file
  pv_risk_env :: risk_env

text \<open>Keys as text and back, the \<open>Display\<close> of a float and of a reason, and the chain library.\<close>

record sup_lib =
  sl_sdk :: clmm_sdk
  sl_parse :: "string \<Rightarrow> pubkey option"
  sl_show :: "pubkey \<Rightarrow> string"
  sl_show_f64 :: "f64 \<Rightarrow> string"
  sl_reason :: "check_reason \<Rightarrow> string"

datatype action = SpawnChild "string list" | SigTerm | KillChild

datatype pass_end = Again nat | ShutdownComplete | UnreadablePosition file_error

definition on_status :: "(status \<Rightarrow> status) \<Rightarrow> supervisor \<Rightarrow> supervisor" where
  "on_status f sv = sv\<lparr>sv_status := f (sv_status sv)\<rparr>"

section \<open>The child process\<close>

definition max_child_ms :: "sup_args \<Rightarrow> nat" where
  "max_child_ms a = unat (sg_entry_window_secs a + sg_max_hold_secs a + 900) * 1000"

definition child_step :: "sup_args \<Rightarrow> pass_env \<Rightarrow> supervisor \<Rightarrow> supervisor \<times> action list" where
  "child_step a env sv =
     (case sv_running sv of
        None \<Rightarrow> (sv, [])
      | Some r \<Rightarrow>
          let t = pv_instant env ChildPolled; elapsed = t - rn_started r in
          (case pv_poll env of
             ChildExited success \<Rightarrow>
               let sv = (if \<not> success \<and> elapsed div 1000 < 15
                         then (on_status (bump StartupFailures) sv)\<lparr>sv_blocked_until := Some (t + 60000)\<rparr> else sv)
               in (sv\<lparr>sv_running := None\<rparr>, [])
           | ChildRunning \<Rightarrow>
               if pv_shutdown env ChildPolled \<or> max_child_ms a < elapsed
               then (case rn_term_sent r of
                       None \<Rightarrow> (sv\<lparr>sv_running := Some (r\<lparr>rn_term_sent := Some t\<rparr>)\<rparr>, [SigTerm])
                     | Some sent \<Rightarrow> if 120000 < t - sent then (sv, [KillChild]) else (sv, []))
               else (sv, [])
           | PollFailed \<Rightarrow> (sv, [])))"

section \<open>Intake\<close>

definition receive_event :: "pass_env \<Rightarrow> nat \<times> discovery_event \<Rightarrow> supervisor \<Rightarrow> supervisor" where
  "receive_event env = (\<lambda>(i, ev) sv.
     case ev of
       Signature sig \<Rightarrow>
         (case pending_push sig (sv_pending sv) of (evicted, ps) \<Rightarrow>
            let sv = sv\<lparr>sv_pending := ps\<rparr>
            in if evicted then on_status (gap (pv_now env (Received i)) Evicted) sv else sv)
     | Pool pk \<Rightarrow>
         let sv = (if LISTED_POOLS_CAP \<le> length (sv_listed sv)
                   then on_status (gap (pv_now env (Received i)) Evicted) (sv\<lparr>sv_listed := tl (sv_listed sv)\<rparr>) else sv)
         in sv\<lparr>sv_listed := sv_listed sv @ [(pk, 0, 0)]\<rparr>)"

definition watch_pool :: "sup_lib \<Rightarrow> u64 \<Rightarrow> new_pool \<Rightarrow> supervisor \<Rightarrow> supervisor" where
  "watch_pool lib now p sv =
     (case token_side p (key_of (sl_sdk lib) WSOL_MINT) of
        Some token \<Rightarrow>
          (case watch_add p token now (sv_watch sv) of (added, wl) \<Rightarrow>
             let sv = sv\<lparr>sv_watch := wl\<rparr> in if added then on_status (bump Watched) sv else sv)
      | None \<Rightarrow> on_status (bump NotWsol) sv)"

definition listed_read ::
    "sup_lib \<Rightarrow> sup_args \<Rightarrow> pass_env \<Rightarrow> nat \<Rightarrow> pubkey \<Rightarrow> u8 \<Rightarrow> supervisor \<Rightarrow> supervisor" where
  "listed_read lib a env i pk failures sv =
     (case read_listed_pool (sl_sdk lib) (pv_node env (ListedRead i)) (sup_clmm_program (sl_sdk lib) (sg_rpc a)) (sg_amm a) pk
             (sv_vaults sv) of (res, vaults) \<Rightarrow>
      let sv = sv\<lparr>sv_vaults := vaults\<rparr>; now = pv_now env (ListedRead i) in
      case res of
        Inr p \<Rightarrow> watch_pool lib now p sv
      | Inl e \<Rightarrow>
          if retryable_read_error e
          then let failures = sat_add failures 1
               in (case listed_retry_delay_ms failures of
                     Some delay \<Rightarrow> sv\<lparr>sv_listed := sv_listed sv @ [(pk, failures, now + delay)]\<rparr>
                   | None \<Rightarrow> on_status (gap now Unresolved) sv)
          else on_status (bump Rejected) sv)"

text \<open>One turn of the queue: \<open>n\<close> turns are left, \<open>i\<close> is the number of this one.\<close>

fun listed_loop :: "sup_lib \<Rightarrow> sup_args \<Rightarrow> pass_env \<Rightarrow> nat \<Rightarrow> nat \<Rightarrow> nat \<Rightarrow> supervisor \<Rightarrow> supervisor" where
  "listed_loop lib a env 0 i reads sv = sv"
| "listed_loop lib a env (Suc n) i reads sv =
     (if 5 \<le> reads then sv
      else case sv_listed sv of
             [] \<Rightarrow> sv
           | (pk, failures, next_ms) # rest \<Rightarrow>
               if pv_now env (ListedDue i) < next_ms
               then listed_loop lib a env n (i + 1) reads (sv\<lparr>sv_listed := rest @ [(pk, failures, next_ms)]\<rparr>)
               else listed_loop lib a env n (i + 1) (reads + 1) (listed_read lib a env i pk failures (sv\<lparr>sv_listed := rest\<rparr>)))"

definition retry_signature :: "pass_env \<Rightarrow> nat \<Rightarrow> string \<Rightarrow> supervisor \<Rightarrow> supervisor" where
  "retry_signature env i sig sv =
     (case pending_retry sig (sv_pending sv) of (kept, ps) \<Rightarrow>
        let sv = sv\<lparr>sv_pending := ps\<rparr>
        in if kept then sv else on_status (gap (pv_now env (SignatureDone i)) Unresolved) sv)"

fun signature_loop :: "sup_lib \<Rightarrow> sup_args \<Rightarrow> pass_env \<Rightarrow> nat \<Rightarrow> nat \<Rightarrow> supervisor \<Rightarrow> supervisor" where
  "signature_loop lib a env 0 i sv = sv"
| "signature_loop lib a env (Suc n) i sv =
     (case pending_pop (sv_pending sv) of
        (None, ps) \<Rightarrow> sv\<lparr>sv_pending := ps\<rparr>
      | (Some sig, ps) \<Rightarrow>
          let sv = sv\<lparr>sv_pending := ps\<rparr> in
          signature_loop lib a env n (i + 1)
            (case resolve_signature (pv_signatures env i) (sha256 (sl_sdk lib)) (sup_clmm_program (sl_sdk lib) (sg_rpc a)) sig of
               Inr (Some pools) \<Rightarrow>
                 fold (watch_pool lib (pv_now env (SignatureDone i))) pools (sv\<lparr>sv_pending := pending_done sig (sv_pending sv)\<rparr>)
             | _ \<Rightarrow> retry_signature env i sig sv))"

definition expire_step :: "pass_env \<Rightarrow> supervisor \<Rightarrow> supervisor" where
  "expire_step env sv =
     (case expire (pv_now env AfterIntake) (sv_watch sv) of (gone, wl) \<Rightarrow>
        fold (\<lambda>_. on_status (bump Expired)) gone (sv\<lparr>sv_watch := wl\<rparr>))"

definition intake :: "sup_lib \<Rightarrow> sup_args \<Rightarrow> pass_env \<Rightarrow> supervisor \<Rightarrow> supervisor" where
  "intake lib a env sv =
     (let sv = fold (receive_event env) (enumerate 0 (pv_events env)) sv;
          sv = listed_loop lib a env (length (sv_listed sv)) 0 0 sv;
          sv = signature_loop lib a env (min (length (ps_order (sv_pending sv))) 5) 0 sv
      in expire_step env sv)"

section \<open>Starting a trading process\<close>

text \<open>The open position comes before an entry that is not reconciled.\<close>

definition open_entry :: "pass_env \<Rightarrow> file_error + live_position option" where
  "open_entry env =
     and_then (load_record (pv_position env)) (\<lambda>p.
     case p of Some pos \<Rightarrow> Inr (Some pos)
             | None \<Rightarrow> and_then (load_record (pv_entry env)) (\<lambda>e. Inr (map_option pe_position e)))"

datatype risk_refusal = RefusedConfig risk_config_error | Refused reject_reason

definition risk_allows_entry :: "sup_args \<Rightarrow> pass_env \<Rightarrow> risk_refusal + unit" where
  "risk_allows_entry a env =
     (if sg_mode a \<noteq> LiveMode then Inr ()
      else and_then (map_err RefusedConfig (production_defaults (pv_staleness env))) (\<lambda>cfg.
           map_err Refused (fst (pre_trade_check cfg (pv_risk_env env) (max_position_lamports default_strategy) 50
             (risk_new (env_now (pv_risk_env env)) (pv_risk_file env) [])))))"

definition new_running :: "pass_env \<Rightarrow> moment \<Rightarrow> string \<Rightarrow> running" where
  "new_running env m pool = \<lparr> rn_pool = pool, rn_started = pv_instant env m, rn_term_sent = None \<rparr>"

definition resume ::
    "sup_lib \<Rightarrow> sup_args \<Rightarrow> pass_env \<Rightarrow> live_position \<Rightarrow> supervisor \<Rightarrow> supervisor \<times> action list \<times> pass_end" where
  "resume lib a env pos sv =
     (let sv = (case sl_parse lib (lp_pool_id pos) of
                  Some pk \<Rightarrow> sv\<lparr>sv_watch := mark_seen pk (sv_watch sv)\<rparr> | None \<Rightarrow> sv)
      in if pv_spawn env
         then (sv\<lparr>sv_running := Some (new_running env Resumed (lp_pool_id pos))\<rparr>,
               [SpawnChild (child_args (sl_show_f64 lib) a (lp_pool_id pos) (lp_input_mint pos) (lp_output_mint pos))], Again 0)
         else (sv, [], Again 10000))"

definition launch :: "sup_lib \<Rightarrow> sup_args \<Rightarrow> pass_env \<Rightarrow> candidate \<Rightarrow> supervisor \<Rightarrow> supervisor \<times> action list" where
  "launch lib a env c sv =
     (let pool = sl_show lib (np_pool_id (cd_pool c)) in
      if \<not> pv_spawn env then (sv, [])
      else
        let st = record_start pool (pv_now env Spawned) (sv_state sv);
            (saved, disk) = save_record (pv_save env) st (sv_disk sv);
            sv = sv\<lparr>sv_state := st, sv_disk := disk\<rparr>;
            sv = (if isl saved then on_status (\<lambda>s. s\<lparr>st_state_persist_failed := True\<rparr>) sv else sv);
            sv = on_status (bump Started) sv
        in (sv\<lparr>sv_running := Some (new_running env Spawned pool)\<rparr>,
            [SpawnChild (child_args (sl_show_f64 lib) a pool WSOL_MINT (sl_show lib (cd_token_mint c)))]))"

definition check_next ::
    "sup_lib \<Rightarrow> sup_args \<Rightarrow> pass_env \<Rightarrow> nat \<Rightarrow> candidate \<Rightarrow> vault_cache \<Rightarrow> check_outcome \<times> candidate \<times> vault_cache" where
  "check_next lib a env i c cache =
     check_candidate (sl_reason lib) (sl_sdk lib) (pv_node env (Checked i)) (sup_clmm_program (sl_sdk lib) (sg_rpc a))
       (discovery_min_lamports a) (policy_of a) (sg_amm a) c cache"

fun pick_loop :: "sup_lib \<Rightarrow> sup_args \<Rightarrow> pass_env \<Rightarrow> nat \<Rightarrow> nat \<Rightarrow> supervisor \<Rightarrow> supervisor \<times> action list" where
  "pick_loop lib a env 0 i sv = (sv, [])"
| "pick_loop lib a env (Suc n) i sv =
     (case take_due (pv_now env (TakeNext i)) (sv_watch sv) of
        (None, wl) \<Rightarrow> (sv\<lparr>sv_watch := wl\<rparr>, [])
      | (Some c, wl) \<Rightarrow>
          (case check_next lib a env i c (sv_vaults sv) of (outcome, c, vaults) \<Rightarrow>
             let sv = sv\<lparr>sv_watch := wl, sv_vaults := vaults\<rparr> in
             case outcome of
               Ready \<Rightarrow> launch lib a env c sv
             | Retry reason \<Rightarrow>
                 pick_loop lib a env n (i + 1) (sv\<lparr>sv_watch := reschedule c (pv_now env (Checked i)) reason (sv_watch sv)\<rparr>)
             | Reject reason \<Rightarrow> pick_loop lib a env n (i + 1) (on_status (bump Rejected) sv)))"

definition start_new :: "sup_lib \<Rightarrow> sup_args \<Rightarrow> pass_env \<Rightarrow> supervisor \<Rightarrow> supervisor \<times> action list" where
  "start_new lib a env sv =
     (let blocked = (case sv_blocked_until sv of Some t \<Rightarrow> pv_instant env BlockTest < t | None \<Rightarrow> False)
                    \<or> st_state_persist_failed (sv_status sv)
      in if blocked then (sv, [])
         else case cap_reached (pv_now env AfterIntake) (sg_max_pools_per_day a) (ds_daily (sv_state sv)) of (reached, daily) \<Rightarrow>
           let sv = sv\<lparr>sv_state := (sv_state sv)\<lparr>ds_daily := daily\<rparr>\<rparr>
           in if reached then (sv, [])
              else case risk_allows_entry a env of
                     Inl _ \<Rightarrow> (sv\<lparr>sv_blocked_until := Some (pv_instant env RiskRefused + 300000)\<rparr>, [])
                   | Inr _ \<Rightarrow> pick_loop lib a env 3 0 (sv\<lparr>sv_blocked_until := None\<rparr>))"

definition idle_step :: "sup_lib \<Rightarrow> sup_args \<Rightarrow> pass_env \<Rightarrow> supervisor \<Rightarrow> supervisor \<times> action list \<times> pass_end" where
  "idle_step lib a env sv =
     (if sv_running sv \<noteq> None then (sv, [], Again 500)
      else if sg_mode a = LiveMode \<and> isl (open_entry env) then (sv, [], UnreadablePosition (projl (open_entry env)))
      else case (sg_mode a, open_entry env) of
             (LiveMode, Inr (Some pos)) \<Rightarrow> resume lib a env pos sv
           | _ \<Rightarrow> (case start_new lib a env sv of (sv, acts) \<Rightarrow> (sv, acts, Again 500)))"

section \<open>A pass and a run\<close>

definition pass_status :: "pass_env \<Rightarrow> supervisor \<Rightarrow> supervisor" where
  "pass_status env sv =
     (let now = pv_now env LoopStart; (n, daily) = cap_count now (ds_daily (sv_state sv))
      in sv\<lparr>sv_state := (sv_state sv)\<lparr>ds_daily := daily\<rparr>,
            sv_status := (sv_status sv)\<lparr>st_loop_ms := now, st_watched := of_nat (length (wl_items (sv_watch sv))),
              st_started_today := ucast n, st_child_running := (sv_running sv \<noteq> None)\<rparr>\<rparr>)"

definition loop_pass :: "sup_lib \<Rightarrow> sup_args \<Rightarrow> pass_env \<Rightarrow> supervisor \<Rightarrow> supervisor \<times> action list \<times> pass_end" where
  "loop_pass lib a env sv =
     (case child_step a env (pass_status env sv) of (sv, acts) \<Rightarrow>
        if pv_shutdown env ShutdownTest then (sv, acts, if sv_running sv = None then ShutdownComplete else Again 500)
        else case idle_step lib a env (intake lib a env sv) of (sv, acts', e) \<Rightarrow> (sv, acts @ acts', e))"

text \<open>The start: the traded pools of the file are never watched again; an unreadable file refuses the start.\<close>

definition restored_state :: "discovery_state record_file \<Rightarrow> file_error + discovery_state" where
  "restored_state disk =
     (case disk of
        NoRecord \<Rightarrow> Inr \<lparr> ds_daily = \<lparr> dc_day = 0, dc_count = 0 \<rparr>, ds_traded_pools = [] \<rparr>
      | BadRecord \<Rightarrow> Inl UnreadableRecord
      | Record st \<Rightarrow> Inr (st\<lparr>ds_traded_pools := keep_newest MAX_TRADED_POOLS (ds_traded_pools st)\<rparr>))"

definition mark_traded :: "sup_lib \<Rightarrow> string list \<Rightarrow> watch_list \<Rightarrow> watch_list" where
  "mark_traded lib pools = fold mark_seen (List.map_filter (sl_parse lib) pools)"

definition sup_start :: "sup_lib \<Rightarrow> sup_args \<Rightarrow> u64 \<Rightarrow> discovery_state record_file \<Rightarrow> (config_error + file_error) + supervisor" where
  "sup_start lib a now disk =
     and_then (map_err Inl (validate_sup a)) (\<lambda>_.
     and_then (map_err Inr (restored_state disk)) (\<lambda>st.
     Inr \<lparr> sv_watch = mark_traded lib (ds_traded_pools st) (watch_new (sg_max_watch a) (sg_watch_secs a * 1000) (sg_recheck_secs a * 1000)),
           sv_pending = \<lparr> ps_attempts = Map.empty, ps_order = [] \<rparr>, sv_listed = [],
           sv_state = st\<lparr>ds_daily := snd (cap_count now (ds_daily st))\<rparr>, sv_running = None, sv_blocked_until = None,
           sv_status = fresh_status\<lparr>st_loop_ms := now\<rparr>, sv_vaults = [], sv_disk = disk \<rparr>))"

section \<open>What a pass leaves alone\<close>

text \<open>The part of the state that only the child, the cap and a start change.\<close>

definition books :: "supervisor \<Rightarrow> discovery_state \<times> discovery_state record_file \<times> running option \<times> nat option \<times> bool" where
  "books sv = (sv_state sv, sv_disk sv, sv_running sv, sv_blocked_until sv, st_state_persist_failed (sv_status sv))"

named_theorems book_keeping

lemma bump_persist [simp]: "st_state_persist_failed (bump c st) = st_state_persist_failed st"
  by (cases c) simp_all

lemma gap_persist [simp]: "st_state_persist_failed (gap now c st) = st_state_persist_failed st"
  by (simp add: gap_def)

lemma books_on_status [simp]:
  "books (on_status (bump c) sv) = books sv" "books (on_status (gap now c) sv) = books sv"
  by (simp_all add: books_def on_status_def)

lemma books_fields [simp]:
  "books (sv\<lparr>sv_watch := wl\<rparr>) = books sv" "books (sv\<lparr>sv_pending := ps\<rparr>) = books sv"
  "books (sv\<lparr>sv_listed := xs\<rparr>) = books sv" "books (sv\<lparr>sv_vaults := vs\<rparr>) = books sv"
  by (simp_all add: books_def)

lemma fold_books: "(\<And>x sv. books (f x sv) = books sv) \<Longrightarrow> books (fold f xs sv) = books sv"
  by (induction xs arbitrary: sv) simp_all

lemma books_receive [book_keeping]: "books (receive_event env x sv) = books sv"
  by (cases x) (simp add: receive_event_def Let_def split: discovery_event.split prod.split)

lemma books_watch_pool [book_keeping]: "books (watch_pool lib now p sv) = books sv"
  by (simp add: watch_pool_def Let_def split: option.split prod.split)

lemma books_listed_read [book_keeping]: "books (listed_read lib a env i pk f sv) = books sv"
  by (simp add: listed_read_def book_keeping Let_def split: sum.split option.split prod.split)

lemma books_listed_loop [book_keeping]: "books (listed_loop lib a env n i reads sv) = books sv"
proof (induction n arbitrary: i reads sv)
  case (Suc n)
  then show ?case by (cases "sv_listed sv") (auto simp: book_keeping)
qed simp

lemma books_retry_signature [book_keeping]: "books (retry_signature env i sig sv) = books sv"
  by (simp add: retry_signature_def Let_def split: prod.split)

lemma books_signature_loop [book_keeping]: "books (signature_loop lib a env n i sv) = books sv"
proof (induction n arbitrary: i sv)
  case (Suc n)
  show ?case
    by (simp add: Suc book_keeping fold_books Let_def split: prod.split option.split sum.split)
qed simp

lemma books_expire [book_keeping]: "books (expire_step env sv) = books sv"
  by (simp add: expire_step_def fold_books split: prod.split)

lemma books_intake [book_keeping]: "books (intake lib a env sv) = books sv"
  by (simp add: intake_def Let_def book_keeping fold_books)

lemma books_D:
  assumes "books sv = books sv'"
  shows "sv_state sv = sv_state sv'" "sv_disk sv = sv_disk sv'" "sv_running sv = sv_running sv'"
    "sv_blocked_until sv = sv_blocked_until sv'" "st_state_persist_failed (sv_status sv) = st_state_persist_failed (sv_status sv')"
  using assms by (simp_all add: books_def)

lemma child_step_books:
  assumes "child_step a env sv = (sv', acts)"
  shows "sv_state sv' = sv_state sv" "sv_disk sv' = sv_disk sv" "SpawnChild argv \<notin> set acts" "sv_watch sv' = sv_watch sv"
    "sv_listed sv' = sv_listed sv" "sv_pending sv' = sv_pending sv"
    "st_state_persist_failed (sv_status sv') = st_state_persist_failed (sv_status sv)"
    "sv_running sv = None \<Longrightarrow> sv' = sv \<and> acts = []"
  using assms by (auto simp: child_step_def Let_def on_status_def split: option.splits child_poll.splits if_splits)

lemma pass_status_books:
  "sv_state (pass_status env sv) = (sv_state sv)\<lparr>ds_daily := roll (pv_now env LoopStart) (ds_daily (sv_state sv))\<rparr>"
  "sv_disk (pass_status env sv) = sv_disk sv" "sv_watch (pass_status env sv) = sv_watch sv"
  "sv_listed (pass_status env sv) = sv_listed sv" "sv_pending (pass_status env sv) = sv_pending sv"
  "sv_running (pass_status env sv) = sv_running sv"
  "st_state_persist_failed (sv_status (pass_status env sv)) = st_state_persist_failed (sv_status sv)"
  by (simp_all add: pass_status_def cap_count_def Let_def)

section \<open>What a start needs\<close>

text \<open>A mint is cleared for \<open>P\<close> when a candidate marked as checked satisfies it; a clean read at a check of the pass gives it.\<close>

definition mints_ok :: "(pubkey \<Rightarrow> bool) \<Rightarrow> watch_list \<Rightarrow> bool" where
  "mints_ok P wl \<longleftrightarrow> list_all (\<lambda>c. cd_mint_ok c \<longrightarrow> P (cd_token_mint c)) (wl_items wl)"

definition clean_read :: "sup_lib \<Rightarrow> sup_args \<Rightarrow> pass_env \<Rightarrow> pubkey \<Rightarrow> bool" where
  "clean_read lib a env mint \<longleftrightarrow>
     (\<exists>i r. fetch_mint_authority_risk (sl_sdk lib) (nd_holder (pv_node env (Checked i))) mint (policy_of a) = Inr r \<and> \<not> is_risky r)"

definition liquid :: "sup_lib \<Rightarrow> sup_args \<Rightarrow> pass_env \<Rightarrow> candidate \<Rightarrow> bool" where
  "liquid lib a env c \<longleftrightarrow>
     (\<exists>i vs l vs'. candidate_sol_liquidity (sl_sdk lib) (pv_node env (Checked i)) (sup_clmm_program (sl_sdk lib) (sg_rpc a)) (sg_amm a) c vs
        = (Inr l, vs') \<and> discovery_min_lamports a \<le> l)"

lemma check_next_facts:
  assumes "check_next lib a env i c0 vs = (outcome, c, vs')"
  shows "cd_token_mint c = cd_token_mint c0" "cd_pool c = cd_pool c0"
    "cd_mint_ok c \<Longrightarrow> cd_mint_ok c0 \<or> clean_read lib a env (cd_token_mint c0)"
    "outcome = Ready \<Longrightarrow> cd_mint_ok c \<and> liquid lib a env c"
proof -
  let ?f = "fetch_mint_authority_risk (sl_sdk lib) (nd_holder (pv_node env (Checked i))) (cd_token_mint c0) (policy_of a)"
  have clean: "clean_read lib a env (cd_token_mint c0)" if "?f = Inr r" "\<not> is_risky r" for r
    using that by (auto simp: clean_read_def)
  show "cd_token_mint c = cd_token_mint c0" "cd_pool c = cd_pool c0"
    "cd_mint_ok c \<Longrightarrow> cd_mint_ok c0 \<or> clean_read lib a env (cd_token_mint c0)"
    using assms clean
    by (auto simp: check_next_def check_candidate_def Let_def split: if_splits sum.splits prod.splits)
  show "outcome = Ready \<Longrightarrow> cd_mint_ok c \<and> liquid lib a env c"
    using assms unfolding liquid_def
    by (fastforce simp: check_next_def check_candidate_def Let_def split: if_splits sum.splits prod.splits)
qed

lemma take_due_items:
  assumes "take_due now wl = (mc, wl')"
  shows "set (wl_items wl') \<subseteq> set (wl_items wl)" "mc = Some c \<Longrightarrow> c \<in> set (wl_items wl)"
    "mc = Some c \<Longrightarrow> length (wl_items wl) = Suc (length (wl_items wl'))" "wl_max_len wl' = wl_max_len wl"
proof -
  have "remove_first P xs = Some (y, ys) \<Longrightarrow> y \<in> set xs \<and> set ys \<subseteq> set xs \<and> length xs = Suc (length ys)" for P xs ys and y :: candidate
    by (induction P xs arbitrary: y ys rule: remove_first.induct) (auto split: if_splits)
  then show "set (wl_items wl') \<subseteq> set (wl_items wl)" "mc = Some c \<Longrightarrow> c \<in> set (wl_items wl)"
    "mc = Some c \<Longrightarrow> length (wl_items wl) = Suc (length (wl_items wl'))" "wl_max_len wl' = wl_max_len wl"
    using assms by (fastforce simp: take_due_def split: option.splits prod.splits)+
qed

section \<open>The bounds of the queues\<close>

definition watch_wf :: "(pubkey \<Rightarrow> bool) \<Rightarrow> nat \<Rightarrow> watch_list \<Rightarrow> bool" where
  "watch_wf P m wl \<longleftrightarrow> mints_ok P wl \<and> length (wl_items wl) \<le> m \<and> wl_max_len wl = m \<and> 0 < m"

definition sup_wf :: "(pubkey \<Rightarrow> bool) \<Rightarrow> nat \<Rightarrow> supervisor \<Rightarrow> bool" where
  "sup_wf P m sv \<longleftrightarrow>
     watch_wf P m (sv_watch sv) \<and> length (sv_listed sv) \<le> LISTED_POOLS_CAP \<and> length (ps_order (sv_pending sv)) \<le> PENDING_MAX_LEN"

lemma remember_same: "wl_items (snd (remember k wl)) = wl_items wl" "wl_max_len (snd (remember k wl)) = wl_max_len wl"
  by (simp_all add: remember_def split: prod.split)

lemma watch_wf_add: "watch_wf P m wl \<Longrightarrow> watch_wf P m (snd (watch_add p token now wl))"
  using remember_same [of "np_pool_id p" wl]
  by (cases "wl_items wl")
     (auto simp: watch_wf_def mints_ok_def list_all_iff watch_add_def Let_def split: prod.splits bool.splits)

lemma watch_wf_subset:
  "watch_wf P m wl \<Longrightarrow> set (wl_items wl') \<subseteq> set (wl_items wl) \<Longrightarrow> length (wl_items wl') \<le> length (wl_items wl)
     \<Longrightarrow> wl_max_len wl' = wl_max_len wl \<Longrightarrow> watch_wf P m wl'"
  by (auto simp: watch_wf_def mints_ok_def list_all_iff)

lemma watch_wf_mark: "watch_wf P m wl \<Longrightarrow> watch_wf P m (mark_seen k wl)"
  by (rule watch_wf_subset [of P m wl]) (auto simp: mark_seen_def Let_def remember_same)

lemma watch_wf_expire: "watch_wf P m wl \<Longrightarrow> watch_wf P m (snd (expire now wl))"
  by (rule watch_wf_subset [of P m wl]) (auto simp: expire_def)

named_theorems sup_bounds

lemma sup_wf_status [simp]: "sup_wf P m (on_status f sv) = sup_wf P m sv"
  by (simp add: sup_wf_def on_status_def)

lemma sup_wf_other [simp]:
  "sup_wf P m (sv\<lparr>sv_vaults := vs\<rparr>) = sup_wf P m sv" "sup_wf P m (sv\<lparr>sv_running := r\<rparr>) = sup_wf P m sv"
  "sup_wf P m (sv\<lparr>sv_state := st\<rparr>) = sup_wf P m sv" "sup_wf P m (sv\<lparr>sv_blocked_until := b\<rparr>) = sup_wf P m sv"
  "sup_wf P m (sv\<lparr>sv_disk := d\<rparr>) = sup_wf P m sv" "sup_wf P m (sv\<lparr>sv_status := ss\<rparr>) = sup_wf P m sv"
  by (simp_all add: sup_wf_def)

lemma pending_lengths:
  "length (ps_order ps) \<le> PENDING_MAX_LEN \<Longrightarrow> length (ps_order (snd (pending_push sig ps))) \<le> PENDING_MAX_LEN"
  "length (ps_order (snd (pending_retry sig ps))) \<le> Suc (length (ps_order ps))"
  by (cases "ps_order ps"; simp add: pending_push_def pending_retry_def PENDING_MAX_LEN_def Let_def)+

lemma sup_wf_receive [sup_bounds]: "sup_wf P m sv \<Longrightarrow> sup_wf P m (receive_event env x sv)"
proof (cases "snd x")
  case (Signature sig)
  assume "sup_wf P m sv"
  then show ?thesis
    using Signature pending_lengths(1) [of "sv_pending sv" sig]
    by (cases x; cases "pending_push sig (sv_pending sv)") (simp add: receive_event_def sup_wf_def on_status_def Let_def)
next
  case (Pool pk)
  assume "sup_wf P m sv"
  then show ?thesis
    using Pool by (cases x) (simp add: receive_event_def sup_wf_def on_status_def Let_def LISTED_POOLS_CAP_def, arith)
qed

lemma sup_wf_watch_pool [sup_bounds]: "sup_wf P m sv \<Longrightarrow> sup_wf P m (watch_pool lib now p sv)"
proof -
  assume sv: "sup_wf P m sv"
  then have "sup_wf P m (sv\<lparr>sv_watch := snd (watch_add p token now (sv_watch sv))\<rparr>)" for token
    using watch_wf_add by (simp add: sup_wf_def)
  from this sv show ?thesis
    by (cases "token_side p (key_of (sl_sdk lib) WSOL_MINT)"; cases "watch_add p (the (token_side p (key_of (sl_sdk lib) WSOL_MINT))) now (sv_watch sv)")
       (simp_all add: watch_pool_def Let_def, metis snd_conv)
qed

lemma sup_wf_fold: "sup_wf P m sv \<Longrightarrow> (\<And>x sv. sup_wf P m sv \<Longrightarrow> sup_wf P m (f x sv)) \<Longrightarrow> sup_wf P m (fold f xs sv)"
  by (induction xs arbitrary: sv) simp_all

lemma sup_wf_listed_room:
  "sup_wf P m sv \<Longrightarrow> length (sv_listed sv) < LISTED_POOLS_CAP \<Longrightarrow> sup_wf P m (listed_read lib a env i pk f sv)"
proof -
  assume sv: "sup_wf P m sv" and room: "length (sv_listed sv) < LISTED_POOLS_CAP"
  have put: "sup_wf P m (sv\<lparr>sv_vaults := vs, sv_listed := sv_listed sv @ [x]\<rparr>)" for vs x
    using sv room by (simp add: sup_wf_def)
  show ?thesis
    using sv put by (auto simp: listed_read_def Let_def sup_bounds split: sum.split option.split prod.split)
qed

lemma sup_wf_listed_loop [sup_bounds]: "sup_wf P m sv \<Longrightarrow> sup_wf P m (listed_loop lib a env n i reads sv)"
proof (induction n arbitrary: i reads sv)
  case (Suc n)
  show ?case
  proof (cases "sv_listed sv")
    case (Cons x rest)
    obtain pk failures next_ms where x: "x = (pk, failures, next_ms)" by (cases x)
    have "sup_wf P m (sv\<lparr>sv_listed := rest @ [x]\<rparr>)" "sup_wf P m (sv\<lparr>sv_listed := rest\<rparr>)"
      "length (sv_listed (sv\<lparr>sv_listed := rest\<rparr>)) < LISTED_POOLS_CAP"
      using Suc.prems Cons by (simp_all add: sup_wf_def)
    then show ?thesis using Suc sup_wf_listed_room Cons x by simp
  qed (use Suc.prems in simp)
qed simp

lemma sup_wf_signature_loop [sup_bounds]: "sup_wf P m sv \<Longrightarrow> sup_wf P m (signature_loop lib a env n i sv)"
proof (induction n arbitrary: i sv)
  case (Suc n)
  show ?case
  proof (cases "ps_order (sv_pending sv)")
    case Nil
    then have "pending_pop (sv_pending sv) = (None, sv_pending sv)" by (simp add: pending_pop_def)
    then show ?thesis using Suc.prems by simp
  next
    case (Cons sig rest)
    define sv1 where "sv1 = sv\<lparr>sv_pending := (sv_pending sv)\<lparr>ps_order := rest\<rparr>\<rparr>"
    have pop: "pending_pop (sv_pending sv) = (Some sig, (sv_pending sv)\<lparr>ps_order := rest\<rparr>)"
      using Cons by (simp add: pending_pop_def)
    have wf: "sup_wf P m sv1" and room: "Suc (length (ps_order (sv_pending sv1))) \<le> PENDING_MAX_LEN"
      using Suc.prems Cons by (simp_all add: sv1_def sup_wf_def)
    have retry: "sup_wf P m (retry_signature env i sig sv1)"
      using wf room le_trans [OF pending_lengths(2) [of sig "sv_pending sv1"] room]
      by (cases "pending_retry sig (sv_pending sv1)") (simp add: retry_signature_def sup_wf_def on_status_def Let_def)
    have "sup_wf P m (sv1\<lparr>sv_pending := pending_done sig (sv_pending sv1)\<rparr>)"
      using wf by (simp add: sup_wf_def pending_done_def)
    then have "sup_wf P m (fold (watch_pool lib now) pools (sv1\<lparr>sv_pending := pending_done sig (sv_pending sv1)\<rparr>))" for now pools
      by (rule sup_wf_fold) (rule sup_wf_watch_pool)
    then show ?thesis
      using retry unfolding signature_loop.simps pop sv1_def [symmetric] Let_def
      by (auto intro!: Suc.IH simp: sv1_def [symmetric] split: sum.split option.split)
  qed
qed simp

lemma sup_wf_intake: "sup_wf P m sv \<Longrightarrow> sup_wf P m (intake lib a env sv)"
proof -
  assume "sup_wf P m sv"
  then have "sup_wf P m (fold (receive_event env) (enumerate 0 (pv_events env)) sv)" by (rule sup_wf_fold) (rule sup_wf_receive)
  moreover have "sup_wf P m (expire_step env sv')" if "sup_wf P m sv'" for sv'
  proof -
    have "sup_wf P m (sv'\<lparr>sv_watch := snd (expire (pv_now env AfterIntake) (sv_watch sv'))\<rparr>)"
      using that watch_wf_expire by (simp add: sup_wf_def)
    then show ?thesis
      by (cases "expire (pv_now env AfterIntake) (sv_watch sv')") (simp add: expire_step_def sup_wf_fold)
  qed
  ultimately show ?thesis by (simp add: intake_def Let_def sup_bounds)
qed

section \<open>The idle step\<close>

text \<open>The pick of a pool: nothing is started, or a candidate that passed its check is launched.\<close>

lemma launch_wf: "launch lib a env c sv = (sv', acts) \<Longrightarrow> sup_wf P m sv' = sup_wf P m sv"
  by (auto simp: launch_def Let_def split: if_splits prod.splits)

lemma launch_idle: "launch lib a env c sv = (sv', acts) \<Longrightarrow> \<not> pv_spawn env \<Longrightarrow> sv' = sv \<and> acts = []"
  by (simp add: launch_def Let_def)

lemma sup_wf_taken:
  assumes "sup_wf P m sv" "take_due now (sv_watch sv) = (Some c0, wl)"
  shows "sup_wf P m (sv\<lparr>sv_watch := wl, sv_vaults := vs\<rparr>)"
    "(cd_mint_ok c \<Longrightarrow> P (cd_token_mint c)) \<Longrightarrow>
       sup_wf P m (sv\<lparr>sv_vaults := vs, sv_watch := reschedule c t reason wl\<rparr>)"
  using assms(1) take_due_items [OF assms(2)]
  by (auto simp: sup_wf_def watch_wf_def mints_ok_def list_all_iff reschedule_def)

lemma pick_loop_cases:
  assumes "pick_loop lib a env n i sv = (sv', acts)" "sup_wf P m sv" "\<And>m. clean_read lib a env m \<Longrightarrow> P m"
  shows "sup_wf P m sv' \<and>
    (acts = [] \<and> books sv' = books sv
     \<or> (\<exists>c sv1. P (cd_token_mint c) \<and> liquid lib a env c \<and> books sv1 = books sv \<and> pv_spawn env \<and> launch lib a env c sv1 = (sv', acts)))"
  using assms(1,2)
proof (induction n arbitrary: i sv)
  case (Suc n)
  obtain mc wl where take: "take_due (pv_now env (TakeNext i)) (sv_watch sv) = (mc, wl)" by fastforce
  show ?case
  proof (cases mc)
    case None
    then have "wl = sv_watch sv" using take by (auto simp: take_due_def split: option.splits prod.splits)
    then have "sv' = sv" "acts = []" using Suc.prems(1) take None by simp_all
    then show ?thesis using Suc.prems(2) by simp
  next
    case (Some c0)
    obtain outcome c vs where chk: "check_next lib a env i c0 (sv_vaults sv) = (outcome, c, vs)"
      by (cases "check_next lib a env i c0 (sv_vaults sv)")
    have c: "P (cd_token_mint c)" if "cd_mint_ok c"
      using check_next_facts(1,3) [OF chk] that take_due_items(2) [OF take Some] Suc.prems(2) assms(3)
      by (auto simp: sup_wf_def watch_wf_def mints_ok_def list_all_iff)
    note taken = sup_wf_taken [OF Suc.prems(2) take [unfolded Some]]
    let ?sv = "sv\<lparr>sv_watch := wl, sv_vaults := vs\<rparr>"
    show ?thesis
    proof (cases outcome)
      case Ready
      then have l: "launch lib a env c ?sv = (sv', acts)" using Suc.prems(1) take Some chk by simp
      then show ?thesis
        using c check_next_facts(4) [OF chk Ready] taken(1) launch_wf [OF l] launch_idle [OF l] by (metis books_fields(1,4))
    next
      case (Retry reason)
      let ?next = "sv\<lparr>sv_vaults := vs, sv_watch := reschedule c (pv_now env (Checked i)) reason wl\<rparr>"
      have "pick_loop lib a env n (i + 1) ?next = (sv', acts)" using Suc.prems(1) take Some chk Retry by simp
      moreover have "books ?next = books sv" by simp
      ultimately show ?thesis using Suc.IH taken(2) [OF c] by metis
    next
      case (Reject reason)
      have "pick_loop lib a env n (i + 1) (on_status (bump Rejected) ?sv) = (sv', acts)" using Suc.prems(1) take Some chk Reject by simp
      moreover have "sup_wf P m (on_status (bump Rejected) ?sv)" using taken(1) by (simp only: sup_wf_status)
      moreover have "books (on_status (bump Rejected) ?sv) = books sv" by simp
      ultimately show ?thesis using Suc.IH by metis
    qed
  qed
qed (use assms in auto)

text \<open>The records of the supervisor after a launch.\<close>

lemma launch_books:
  assumes "launch lib a env c sv = (sv', acts)" "pv_spawn env"
  shows "acts = [SpawnChild (child_args (sl_show_f64 lib) a (sl_show lib (np_pool_id (cd_pool c))) WSOL_MINT (sl_show lib (cd_token_mint c)))]"
    "sv_state sv' = record_start (sl_show lib (np_pool_id (cd_pool c))) (pv_now env Spawned) (sv_state sv)"
    "sv_disk sv' = (if pv_save env then Record (sv_state sv') else sv_disk sv)"
    "sv_running sv' = Some (new_running env Spawned (sl_show lib (np_pool_id (cd_pool c))))"
    "st_state_persist_failed (sv_status sv') \<longleftrightarrow> st_state_persist_failed (sv_status sv) \<or> \<not> pv_save env"
  using assms by (auto simp: launch_def Let_def save_record_def on_status_def split: if_splits)

definition resuming :: "sup_args \<Rightarrow> pass_env \<Rightarrow> bool" where
  "resuming a env \<longleftrightarrow> sg_mode a = LiveMode \<and> (case open_entry env of Inr (Some _) \<Rightarrow> True | _ \<Rightarrow> False)"

definition blocked :: "pass_env \<Rightarrow> supervisor \<Rightarrow> bool" where
  "blocked env sv \<longleftrightarrow>
     (case sv_blocked_until sv of Some t \<Rightarrow> pv_instant env BlockTest < t | None \<Rightarrow> False) \<or> st_state_persist_failed (sv_status sv)"

text \<open>What justifies the start of a new pool: \<open>P\<close> holds of its mint.\<close>

definition new_start ::
    "(pubkey \<Rightarrow> bool) \<Rightarrow> sup_lib \<Rightarrow> sup_args \<Rightarrow> pass_env \<Rightarrow> supervisor \<Rightarrow> supervisor \<Rightarrow> action list \<Rightarrow> bool" where
  "new_start P lib a env sv sv' acts \<longleftrightarrow>
     (\<exists>c. let pool = sl_show lib (np_pool_id (cd_pool c)); daily = roll (pv_now env AfterIntake) (ds_daily (sv_state sv)) in
        acts = [SpawnChild (child_args (sl_show_f64 lib) a pool WSOL_MINT (sl_show lib (cd_token_mint c)))]
        \<and> P (cd_token_mint c) \<and> liquid lib a env c \<and> \<not> blocked env sv \<and> risk_allows_entry a env = Inr ()
        \<and> \<not> sg_max_pools_per_day a \<le> dc_count daily
        \<and> sv_state sv' = record_start pool (pv_now env Spawned) ((sv_state sv)\<lparr>ds_daily := daily\<rparr>)
        \<and> sv_disk sv' = (if pv_save env then Record (sv_state sv') else sv_disk sv)
        \<and> sv_running sv' = Some (new_running env Spawned pool)
        \<and> (st_state_persist_failed (sv_status sv') \<longleftrightarrow> \<not> pv_save env))"

definition rolled :: "pass_env \<Rightarrow> discovery_state \<Rightarrow> discovery_state \<Rightarrow> bool" where
  "rolled env st st' \<longleftrightarrow> st' = st \<or> st' = st\<lparr>ds_daily := roll (pv_now env AfterIntake) (ds_daily st)\<rparr>"

definition no_start :: "pass_env \<Rightarrow> supervisor \<Rightarrow> supervisor \<Rightarrow> action list \<Rightarrow> bool" where
  "no_start env sv sv' acts \<longleftrightarrow>
     acts = [] \<and> rolled env (sv_state sv) (sv_state sv') \<and> sv_disk sv' = sv_disk sv \<and> sv_running sv' = sv_running sv
     \<and> st_state_persist_failed (sv_status sv') = st_state_persist_failed (sv_status sv)"

lemma start_new_cases:
  assumes "start_new lib a env sv = (sv', acts)" "sup_wf P m sv" "\<And>m. clean_read lib a env m \<Longrightarrow> P m"
  shows "sup_wf P m sv' \<and> (no_start env sv sv' acts \<or> new_start P lib a env sv sv' acts)"
proof (cases "blocked env sv")
  case True
  then have "sv' = sv" "acts = []" using assms(1) by (simp_all add: start_new_def blocked_def Let_def)
  then show ?thesis using assms(2) by (simp add: no_start_def rolled_def)
next
  case False
  define daily where "daily = roll (pv_now env AfterIntake) (ds_daily (sv_state sv))"
  define sv1 where "sv1 = sv\<lparr>sv_state := (sv_state sv)\<lparr>ds_daily := daily\<rparr>\<rparr>"
  have wf: "sup_wf P m sv1" using assms(2) by (simp add: sv1_def)
  have run: "start_new lib a env sv =
      (if sg_max_pools_per_day a \<le> dc_count daily then (sv1, [])
       else case risk_allows_entry a env of
              Inl _ \<Rightarrow> (sv1\<lparr>sv_blocked_until := Some (pv_instant env RiskRefused + 300000)\<rparr>, [])
            | Inr _ \<Rightarrow> pick_loop lib a env 3 0 (sv1\<lparr>sv_blocked_until := None\<rparr>))"
    using False unfolding sv1_def daily_def
    by (simp add: start_new_def blocked_def [symmetric] cap_reached_def cap_count_def Let_def)
  have quiet: "no_start env sv sv1 []" "no_start env sv (sv1\<lparr>sv_blocked_until := b\<rparr>) []" for b
    by (simp_all add: no_start_def rolled_def sv1_def daily_def)
  show ?thesis
  proof (cases "\<not> sg_max_pools_per_day a \<le> dc_count daily \<and> risk_allows_entry a env = Inr ()")
    case False
    then show ?thesis using assms(1) run quiet wf by (auto split: if_splits sum.splits)
  next
    case True
    then have pick: "pick_loop lib a env 3 0 (sv1\<lparr>sv_blocked_until := None\<rparr>) = (sv', acts)" using assms(1) run by simp
    have "sup_wf P m (sv1\<lparr>sv_blocked_until := None\<rparr>)" using wf by simp
    from pick_loop_cases [OF pick this assms(3)]
    have wf': "sup_wf P m sv'" and
      "acts = [] \<and> books sv' = books (sv1\<lparr>sv_blocked_until := None\<rparr>)
       \<or> (\<exists>c sv2. P (cd_token_mint c) \<and> liquid lib a env c \<and> books sv2 = books (sv1\<lparr>sv_blocked_until := None\<rparr>)
            \<and> pv_spawn env \<and> launch lib a env c sv2 = (sv', acts))" by blast+
    then consider "acts = []" "books sv' = books (sv1\<lparr>sv_blocked_until := None\<rparr>)"
      | c sv2 where "P (cd_token_mint c)" "liquid lib a env c" "books sv2 = books (sv1\<lparr>sv_blocked_until := None\<rparr>)"
          "pv_spawn env" "launch lib a env c sv2 = (sv', acts)" by blast
    then show ?thesis
    proof cases
      case 1
      have "no_start env sv sv' acts" using 1(1) books_D [OF 1(2)] by (simp add: no_start_def rolled_def sv1_def daily_def)
      then show ?thesis using wf' by blast
    next
      case 2
      have "\<not> st_state_persist_failed (sv_status sv)" using False by (simp add: blocked_def)
      then have "new_start P lib a env sv sv' acts"
        unfolding new_start_def Let_def
        using 2(1,2) launch_books [OF 2(5,4)] books_D [OF 2(3)] True False by (intro exI [of _ c]) (simp add: sv1_def daily_def)
      then show ?thesis using wf' by blast
    qed
  qed
qed

section \<open>A pass\<close>

text \<open>The state after the child was looked at.\<close>

definition polled_state :: "sup_args \<Rightarrow> pass_env \<Rightarrow> supervisor \<Rightarrow> supervisor" where
  "polled_state a env sv = fst (child_step a env (pass_status env sv))"

definition resume_start :: "sup_lib \<Rightarrow> sup_args \<Rightarrow> pass_env \<Rightarrow> supervisor \<Rightarrow> supervisor \<Rightarrow> action list \<Rightarrow> bool" where
  "resume_start lib a env sv sv' acts \<longleftrightarrow>
     (\<exists>pos. sg_mode a = LiveMode \<and> open_entry env = Inr (Some pos)
        \<and> acts = [SpawnChild (child_args (sl_show_f64 lib) a (lp_pool_id pos) (lp_input_mint pos) (lp_output_mint pos))]
        \<and> sv_state sv' = sv_state sv \<and> sv_disk sv' = sv_disk sv
        \<and> sv_running sv' = Some (new_running env Resumed (lp_pool_id pos))
        \<and> st_state_persist_failed (sv_status sv') = st_state_persist_failed (sv_status sv))"

lemma resume_cases:
  assumes "resume lib a env pos sv = (sv', acts, e)" "sg_mode a = LiveMode" "open_entry env = Inr (Some pos)" "sup_wf P m sv"
  shows "sup_wf P m sv' \<and> (no_start env sv sv' acts \<or> resume_start lib a env sv sv' acts)"
proof -
  define sv1 where "sv1 = (case sl_parse lib (lp_pool_id pos) of
      Some pk \<Rightarrow> sv\<lparr>sv_watch := mark_seen pk (sv_watch sv)\<rparr> | None \<Rightarrow> sv)"
  have "sup_wf P m sv1" using assms(4) watch_wf_mark by (auto simp: sv1_def sup_wf_def split: option.split)
  moreover have "books sv1 = books sv" by (simp add: sv1_def split: option.split)
  ultimately show ?thesis
    using assms(1-3) books_D [of sv1 sv] unfolding resume_def sv1_def [symmetric] Let_def
    by (auto simp: no_start_def rolled_def resume_start_def split: if_splits)
qed

lemma idle_step_cases:
  assumes "idle_step lib a env sv = (sv', acts, e)" "sup_wf P m sv" "\<And>m. clean_read lib a env m \<Longrightarrow> P m"
  shows "sup_wf P m sv' \<and>
    (no_start env sv sv' acts
     \<or> sv_running sv = None \<and> (resume_start lib a env sv sv' acts
        \<or> (sg_mode a = LiveMode \<longrightarrow> open_entry env = Inr None) \<and> new_start P lib a env sv sv' acts))"
proof -
  have quiet: "no_start env sv sv []" by (simp add: no_start_def rolled_def)
  consider "sv_running sv \<noteq> None" | "sv_running sv = None" "sg_mode a = LiveMode" "isl (open_entry env)"
    | pos where "sv_running sv = None" "sg_mode a = LiveMode" "open_entry env = Inr (Some pos)"
    | "sv_running sv = None" "sg_mode a = LiveMode \<longrightarrow> open_entry env = Inr None"
    by (cases "open_entry env"; cases "projr (open_entry env)") auto
  then show ?thesis
  proof cases
    case 3
    then have "resume lib a env pos sv = (sv', acts, e)" using assms(1) by (simp add: idle_step_def)
    from resume_cases [OF this 3(2,3) assms(2)] show ?thesis using 3(1) by blast
  next
    case 4
    then have "start_new lib a env sv = (sv', acts)"
      using assms(1) by (cases "sg_mode a") (auto simp: idle_step_def split: prod.splits)
    from start_new_cases [OF this assms(2,3)] show ?thesis using 4 by blast
  qed (use assms(1,2) quiet in \<open>auto simp: idle_step_def\<close>)
qed

lemma child_step_idle: "sv_running (fst (child_step a env sv)) = None \<Longrightarrow> snd (child_step a env sv) = []"
  by (auto simp: child_step_def Let_def split: option.splits child_poll.splits if_splits)

lemma start_same_books:
  assumes "books sv1 = books sv"
  shows "no_start env sv1 sv' acts \<longleftrightarrow> no_start env sv sv' acts"
    "resume_start lib a env sv1 sv' acts \<longleftrightarrow> resume_start lib a env sv sv' acts"
    "new_start P lib a env sv1 sv' acts \<longleftrightarrow> new_start P lib a env sv sv' acts"
  using books_D [OF assms] by (simp_all add: no_start_def resume_start_def new_start_def blocked_def)

text \<open>A pass starts nothing, resumes the open live position, or starts a new pool, the last two only when no child runs.\<close>

lemma loop_pass_cases:
  assumes "loop_pass lib a env sv = (sv', acts, e)" "sup_wf P m sv" "\<And>m. clean_read lib a env m \<Longrightarrow> P m"
  defines "sv1 \<equiv> polled_state a env sv"
  shows "sup_wf P m sv' \<and>
    ((\<exists>acts'. no_start env sv1 sv' acts') \<and> (\<forall>argv. SpawnChild argv \<notin> set acts)
     \<or> sv_running sv1 = None \<and> \<not> pv_shutdown env ShutdownTest
       \<and> (resume_start lib a env sv1 sv' acts
          \<or> (sg_mode a = LiveMode \<longrightarrow> open_entry env = Inr None) \<and> new_start P lib a env sv1 sv' acts))"
proof -
  obtain acts1 where step: "child_step a env (pass_status env sv) = (sv1, acts1)"
    unfolding sv1_def polled_state_def by (cases "child_step a env (pass_status env sv)") simp
  have no_spawn: "SpawnChild argv \<notin> set acts1" for argv using child_step_books(3) [OF step] .
  have wf1: "sup_wf P m sv1"
    using assms(2) child_step_books(4-6) [OF step] by (simp add: sup_wf_def pass_status_books)
  show ?thesis
  proof (cases "pv_shutdown env ShutdownTest")
    case True
    then have "sv' = sv1" "acts = acts1" using assms(1) step by (auto simp: loop_pass_def)
    then show ?thesis using wf1 no_spawn by (auto simp: no_start_def rolled_def)
  next
    case False
    obtain sv2 where sv2: "sv2 = intake lib a env sv1" by simp
    obtain acts2 where idle: "idle_step lib a env sv2 = (sv', acts2, e)" and acts: "acts = acts1 @ acts2"
      using assms(1) step False by (auto simp: loop_pass_def sv2 split: prod.splits)
    have b: "books sv2 = books sv1" by (simp add: sv2 books_intake)
    have wf2: "sup_wf P m sv2" using wf1 sup_wf_intake by (simp add: sv2)
    have none: "acts1 = []" if "sv_running sv2 = None"
      using child_step_idle [of a env "pass_status env sv"] step that books_D(3) [OF b] by simp
    from idle_step_cases [OF idle wf2 assms(3)] have wf': "sup_wf P m sv'" and
      "no_start env sv1 sv' acts2 \<or> sv_running sv2 = None \<and> (resume_start lib a env sv1 sv' acts2
        \<or> (sg_mode a = LiveMode \<longrightarrow> open_entry env = Inr None) \<and> new_start P lib a env sv1 sv' acts2)"
      using start_same_books [OF b] by blast+
    then show ?thesis
    proof (elim disjE conjE)
      assume n: "no_start env sv1 sv' acts2"
      then have "SpawnChild argv \<notin> set acts" for argv using no_spawn acts by (simp add: no_start_def)
      then show ?thesis using wf' n by blast
    qed (use wf' False none acts books_D(3) [OF b] in auto)
  qed
qed

section \<open>Runs\<close>

text \<open>The states of a supervisor, with what its passes met so far.\<close>

inductive sup_reach :: "sup_lib \<Rightarrow> sup_args \<Rightarrow> pass_env list \<Rightarrow> supervisor \<Rightarrow> bool" for lib a where
  start: "sup_start lib a now disk = Inr sv \<Longrightarrow> sup_reach lib a [] sv"
| pass: "sup_reach lib a envs sv \<Longrightarrow> loop_pass lib a env sv = (sv', acts, e) \<Longrightarrow> sup_reach lib a (envs @ [env]) sv'"

text \<open>The mint of a pool was read with both authorities revoked at some check of the run.\<close>

definition cleared :: "sup_lib \<Rightarrow> sup_args \<Rightarrow> pass_env list \<Rightarrow> pubkey \<Rightarrow> bool" where
  "cleared lib a envs mint \<longleftrightarrow> (\<exists>env \<in> set envs. clean_read lib a env mint)"

lemma mark_traded_items: "wl_items wl = [] \<Longrightarrow> wl_items (mark_traded lib pools wl) = [] \<and> wl_max_len (mark_traded lib pools wl) = wl_max_len wl"
proof -
  have "wl_items wl = [] \<Longrightarrow> wl_items (fold mark_seen ks wl) = [] \<and> wl_max_len (fold mark_seen ks wl) = wl_max_len wl" for ks
    by (induction ks arbitrary: wl) (auto simp: mark_seen_def Let_def remember_same)
  then show "wl_items wl = [] \<Longrightarrow> wl_items (mark_traded lib pools wl) = [] \<and> wl_max_len (mark_traded lib pools wl) = wl_max_len wl"
    by (simp add: mark_traded_def)
qed

lemma sup_wf_mono: "sup_wf P m sv \<Longrightarrow> (\<And>k. P k \<Longrightarrow> Q k) \<Longrightarrow> sup_wf Q m sv"
  by (auto simp: sup_wf_def watch_wf_def mints_ok_def list_all_iff)

lemma reach_wf: "sup_reach lib a envs sv \<Longrightarrow> sup_wf (cleared lib a envs) (max (sg_max_watch a) 1) sv"
proof (induction rule: sup_reach.induct)
  case (start now disk sv)
  have "sup_wf P (max (sg_max_watch a) 1) sv"
    if "sv_watch sv = mark_traded lib pools (watch_new (sg_max_watch a) w r)" "sv_listed sv = []" "ps_order (sv_pending sv) = []" for P pools w r
    using that mark_traded_items [of "watch_new (sg_max_watch a) w r" lib pools]
    by (simp add: sup_wf_def watch_wf_def mints_ok_def) (simp add: watch_new_def)
  then show ?case using start by (auto simp: sup_start_def ok_iff)
next
  case (pass envs sv env sv' acts e)
  have "sup_wf (cleared lib a (envs @ [env])) (max (sg_max_watch a) 1) sv"
    by (rule sup_wf_mono [OF pass.IH]) (auto simp: cleared_def)
  moreover have "cleared lib a (envs @ [env]) k" if "clean_read lib a env k" for k using that by (simp add: cleared_def)
  ultimately show ?case using loop_pass_cases [OF pass.hyps(2)] by blast
qed

lemma reach_pass:
  assumes "sup_reach lib a envs sv" "loop_pass lib a env sv = (sv', acts, e)" "SpawnChild argv \<in> set acts"
  defines "sv1 \<equiv> polled_state a env sv"
  shows "sv_running sv1 = None" "\<not> pv_shutdown env ShutdownTest"
    "resume_start lib a env sv1 sv' acts
     \<or> (sg_mode a = LiveMode \<longrightarrow> open_entry env = Inr None) \<and> new_start (cleared lib a (envs @ [env])) lib a env sv1 sv' acts"
proof -
  have "sup_wf (cleared lib a (envs @ [env])) (max (sg_max_watch a) 1) sv"
    by (rule sup_wf_mono [OF reach_wf [OF assms(1)]]) (auto simp: cleared_def)
  from loop_pass_cases [OF assms(2) this]
  show "sv_running sv1 = None" "\<not> pv_shutdown env ShutdownTest"
    "resume_start lib a env sv1 sv' acts
     \<or> (sg_mode a = LiveMode \<longrightarrow> open_entry env = Inr None) \<and> new_start (cleared lib a (envs @ [env])) lib a env sv1 sv' acts"
    using assms(3) by (auto simp: cleared_def sv1_def)
qed

lemma traded_recorded: "pool \<in> set (ds_traded_pools (record_start pool now st))"
  by (simp add: record_start_def keep_newest_def MAX_TRADED_POOLS_def Let_def)

text \<open>
  C30. What a trading process is started for: in every run of the supervisor a pass starts at most one process, only when none runs and no
  shutdown was requested.  Live, an open position (or an entry that is not reconciled) is resumed before anything else, and while its
  record cannot be read nothing is started.  Otherwise the process trades a pool that holds the required liquidity at that
  moment, whose mint was read with both authorities revoked, with the risk limits open, the daily cap not reached and
  the state never found unwritable, and the pool is recorded as traded.
\<close>

theorem supervisor_starts_justified:
  assumes "sup_reach lib a envs sv" "loop_pass lib a env sv = (sv', acts, e)" "SpawnChild argv \<in> set acts"
  shows "acts = [SpawnChild argv] \<and> sv_running (polled_state a env sv) = None \<and> \<not> pv_shutdown env ShutdownTest
    \<and> sv_running sv' \<noteq> None
    \<and> (if sg_mode a = LiveMode \<and> open_entry env \<noteq> Inr None
       then \<exists>pos. open_entry env = Inr (Some pos)
          \<and> argv = child_args (sl_show_f64 lib) a (lp_pool_id pos) (lp_input_mint pos) (lp_output_mint pos)
       else \<exists>c. argv = child_args (sl_show_f64 lib) a (sl_show lib (np_pool_id (cd_pool c))) WSOL_MINT (sl_show lib (cd_token_mint c))
          \<and> cleared lib a (envs @ [env]) (cd_token_mint c) \<and> liquid lib a env c \<and> risk_allows_entry a env = Inr ()
          \<and> \<not> sg_max_pools_per_day a
                \<le> dc_count (roll (pv_now env AfterIntake) (ds_daily (sv_state (polled_state a env sv))))
          \<and> \<not> st_state_persist_failed (sv_status (polled_state a env sv))
          \<and> sl_show lib (np_pool_id (cd_pool c)) \<in> set (ds_traded_pools (sv_state sv')))"
  using reach_pass [OF assms] assms(3) traded_recorded
  by (auto simp: resume_start_def new_start_def blocked_def Let_def)

text \<open>A live position is resumed at once.\<close>

definition demo_lib :: sup_lib where
  "demo_lib = \<lparr> sl_sdk = demo_clmm, sl_parse = (\<lambda>s. Some (map of_char s)), sl_show = map (\<lambda>b. char_of (unat b)), sl_show_f64 = (\<lambda>_. ''1000''),
     sl_reason = (\<lambda>_. []) \<rparr>"

definition demo_live :: sup_args where
  "demo_live = default_sup_args\<lparr>sg_mode := LiveMode, sg_confirm_live := True\<rparr>"

definition demo_position :: live_position where
  "demo_position = \<lparr> lp_pool_id = ''pool'', lp_input_mint = ''sol'', lp_output_mint = ''token'', lp_entry_sqrt_price = ''1'',
     lp_size = 5, lp_cost = 5, lp_tokens = 7, lp_signature = ''s'', lp_opened_at_ms = 1, lp_entry_liquidity = 9, lp_peak = 0 \<rparr>"

definition demo_pass :: pass_env where
  "demo_pass = \<lparr> pv_now = (\<lambda>_. 1000), pv_instant = (\<lambda>_. 0),
     pv_node = (\<lambda>_. \<lparr> nd_account = (\<lambda>_. None), nd_multiple = (\<lambda>_. None), nd_holder = demo_rpc \<rparr>),
     pv_shutdown = (\<lambda>_. False), pv_poll = ChildRunning, pv_events = [],
     pv_signatures = (\<lambda>_. \<lparr> se_valid_signature = (\<lambda>_. False), se_transaction = (\<lambda>_. Inl []), se_key = (\<lambda>_. None), se_b58 = (\<lambda>_. None) \<rparr>),
     pv_position = Record demo_position, pv_entry = NoRecord, pv_spawn = True, pv_save = True, pv_staleness = EnvUnset,
     pv_risk_file = NoFile, pv_risk_env = \<lparr> env_today = ''d'', env_now = 0, env_persist = Written \<rparr> \<rparr>"

definition demo_sup :: supervisor where
  "demo_sup = projr (sup_start demo_lib demo_live 1000 NoRecord)"

lemma demo_sup_reached: "sup_reach demo_lib demo_live [] demo_sup"
proof (rule sup_reach.start)
  show "sup_start demo_lib demo_live 1000 NoRecord = Inr demo_sup"
    by (simp add: demo_sup_def sup_start_def validate_sup_def demo_live_def default_sup_args_def restored_state_def map_err_def)
qed

lemma demo_resumes:
  "\<exists>sv'. loop_pass demo_lib demo_live demo_pass demo_sup
     = (sv', [SpawnChild (child_args (\<lambda>_. ''1000'') demo_live ''pool'' ''sol'' ''token'')], Again 0)"
  by (simp add: demo_sup_def sup_start_def validate_sup_def demo_live_def default_sup_args_def restored_state_def loop_pass_def
      pass_status_def cap_count_def child_step_def intake_def expire_step_def expire_def idle_step_def open_entry_def
      load_record_def resume_def demo_pass_def demo_position_def demo_lib_def mark_traded_def watch_new_def Let_def on_status_def
      List.map_filter_def map_err_def)

theorem supervisor_starts_justified_witness:
  "\<exists>sv'. fst (loop_pass demo_lib demo_live demo_pass demo_sup) = sv' \<and> sv_running sv' \<noteq> None"
proof -
  obtain sv' where run: "loop_pass demo_lib demo_live demo_pass demo_sup
     = (sv', [SpawnChild (child_args (\<lambda>_. ''1000'') demo_live ''pool'' ''sol'' ''token'')], Again 0)"
    using demo_resumes by blast
  have "sv_running sv' \<noteq> None" using supervisor_starts_justified [OF demo_sup_reached run] by simp
  then show ?thesis using run by simp
qed

text \<open>
  The queues of the supervisor stay bounded in every run: at most \<open>max_watch\<close> watched pools (at least one), 256 listed pools and 500
  signatures; and a watched pool counts as checked only after its mint was read with both authorities revoked.
\<close>

theorem supervisor_queues_bounded:
  assumes "sup_reach lib a envs sv"
  shows "length (wl_items (sv_watch sv)) \<le> max (sg_max_watch a) 1 \<and> length (sv_listed sv) \<le> 256
    \<and> length (ps_order (sv_pending sv)) \<le> 500
    \<and> list_all (\<lambda>c. cd_mint_ok c \<longrightarrow> cleared lib a envs (cd_token_mint c)) (wl_items (sv_watch sv))"
  using reach_wf [OF assms] by (simp add: sup_wf_def watch_wf_def mints_ok_def LISTED_POOLS_CAP_def PENDING_MAX_LEN_def)

theorem supervisor_queues_bounded_witness: "length (sv_listed demo_sup) \<le> 256"
  using supervisor_queues_bounded [OF demo_sup_reached] by blast

section \<open>The daily cap over restarts and failed writes\<close>

definition spawned :: "action list \<Rightarrow> bool" where
  "spawned acts \<longleftrightarrow> list_ex (\<lambda>x. case x of SpawnChild _ \<Rightarrow> True | _ \<Rightarrow> False) acts"

text \<open>
  A history of supervisors over one data directory: before a pass the process may be restarted (it always is when it has ended).  The
  result lists the new pools started, each with its day and whether the state could be written.
\<close>

fun sup_run :: "sup_lib \<Rightarrow> sup_args \<Rightarrow> bool \<Rightarrow> (bool \<times> pass_env) list \<Rightarrow> supervisor \<Rightarrow> (i64 \<times> bool) list" where
  "sup_run lib a alive [] sv = []"
| "sup_run lib a alive ((restart, env) # es) sv =
     (case (if restart \<or> \<not> alive then sup_start lib a (pv_now env LoopStart) (sv_disk sv) else Inr sv) of
        Inl _ \<Rightarrow> sup_run lib a False es sv
      | Inr sv \<Rightarrow>
          (case loop_pass lib a env sv of (sv', acts, e) \<Rightarrow>
             (if spawned acts \<and> \<not> resuming a env then [(day_at (pv_now env Spawned), pv_save env)] else [])
             @ sup_run lib a (case e of Again _ \<Rightarrow> True | _ \<Rightarrow> False) es sv'))"

definition run_times :: "(bool \<times> pass_env) list \<Rightarrow> u64 list" where
  "run_times es = concat (map (\<lambda>(_, env). [pv_now env LoopStart, pv_now env AfterIntake, pv_now env Spawned]) es)"

lemma run_times_simps [simp]:
  "run_times [] = []"
  "run_times ((r, env) # es) = pv_now env LoopStart # pv_now env AfterIntake # pv_now env Spawned # run_times es"
  by (simp_all add: run_times_def)

definition disk_daily :: "discovery_state record_file \<Rightarrow> daily_cap" where
  "disk_daily disk = (case disk of Record st \<Rightarrow> ds_daily st | _ \<Rightarrow> \<lparr> dc_day = 0, dc_count = 0 \<rparr>)"

definition started_days :: "(i64 \<times> bool) list \<Rightarrow> i64 \<Rightarrow> nat" where
  "started_days xs d = count_list (map fst xs) d"

lemma started_days_simps [simp]:
  "started_days [] d = 0" "started_days (x # xs) d = (if fst x = d then 1 else 0) + started_days xs d"
  by (simp_all add: started_days_def)

lemma run_later: "(\<And>t. t \<in> set (run_times es) \<Longrightarrow> d < day_at t) \<Longrightarrow> started_days (sup_run lib a alive es sv) d = 0"
proof (induction es arbitrary: alive sv)
  case (Cons x es)
  obtain restart env where x: "x = (restart, env)" by (cases x)
  then have "d < day_at (pv_now env Spawned)" and IH: "started_days (sup_run lib a alive es sv) d = 0" for alive sv
    using Cons by auto
  then show ?case by (auto simp: x split: sum.split prod.split)
qed simp

lemma started_from_disk:
  assumes "sup_start lib a now disk = Inr sv"
  shows "sv_disk sv = disk" "ds_daily (sv_state sv) = roll now (disk_daily disk)" "sup_wf (\<lambda>_. True) (max (sg_max_watch a) 1) sv"
proof -
  show "sv_disk sv = disk" "ds_daily (sv_state sv) = roll now (disk_daily disk)"
    using assms by (auto simp: sup_start_def ok_iff restored_state_def disk_daily_def cap_count_def split: record_file.splits)
  show "sup_wf (\<lambda>_. True) (max (sg_max_watch a) 1) sv"
    by (rule sup_wf_mono [OF reach_wf [OF sup_reach.start [OF assms]]]) simp
qed

text \<open>What a pass does to the counter in memory and on disk.\<close>

lemma pass_daily:
  assumes "loop_pass lib a env sv = (sv', acts, e)" "sup_wf (\<lambda>_. True) m sv"
  defines "c \<equiv> roll (pv_now env LoopStart) (ds_daily (sv_state sv))"
  shows "sup_wf (\<lambda>_. True) m sv' \<and>
    (if spawned acts \<and> \<not> resuming a env
     then \<not> sg_max_pools_per_day a \<le> dc_count (roll (pv_now env AfterIntake) c)
       \<and> ds_daily (sv_state sv') = record_on (day_at (pv_now env Spawned)) (roll (pv_now env AfterIntake) c)
       \<and> disk_daily (sv_disk sv') = (if pv_save env then ds_daily (sv_state sv') else disk_daily (sv_disk sv))
     else ds_daily (sv_state sv') \<in> {c, roll (pv_now env AfterIntake) c} \<and> sv_disk sv' = sv_disk sv)"
proof -
  obtain acts1 where step: "child_step a env (pass_status env sv) = (polled_state a env sv, acts1)"
    unfolding polled_state_def by (cases "child_step a env (pass_status env sv)") simp
  have before: "ds_daily (sv_state (polled_state a env sv)) = c" "sv_disk (polled_state a env sv) = sv_disk sv"
    using child_step_books(1,2) [OF step] by (simp_all add: pass_status_books c_def)
  have live: "\<not> resuming a env" if "sg_mode a = LiveMode \<longrightarrow> open_entry env = Inr None"
    using that by (simp add: resuming_def)
  have silent: "\<not> spawned acts" if "\<forall>argv. SpawnChild argv \<notin> set acts"
    using that by (auto simp: spawned_def list_ex_iff split: action.splits)
  from loop_pass_cases [OF assms(1,2)] have wf: "sup_wf (\<lambda>_. True) m sv'" and
    "(\<exists>acts'. no_start env (polled_state a env sv) sv' acts') \<and> (\<forall>argv. SpawnChild argv \<notin> set acts)
     \<or> resume_start lib a env (polled_state a env sv) sv' acts
     \<or> (sg_mode a = LiveMode \<longrightarrow> open_entry env = Inr None) \<and> new_start (\<lambda>_. True) lib a env (polled_state a env sv) sv' acts"
    by auto
  then show ?thesis
  proof (elim disjE conjE exE)
    fix acts'
    assume "no_start env (polled_state a env sv) sv' acts'" "\<forall>argv. SpawnChild argv \<notin> set acts"
    then show ?thesis using wf silent before by (auto simp: no_start_def rolled_def)
  next
    assume "resume_start lib a env (polled_state a env sv) sv' acts"
    then show ?thesis using wf before by (auto simp: resume_start_def resuming_def)
  next
    assume "sg_mode a = LiveMode \<longrightarrow> open_entry env = Inr None" "new_start (\<lambda>_. True) lib a env (polled_state a env sv) sv' acts"
    moreover from this have "spawned acts" by (auto simp: new_start_def spawned_def Let_def)
    ultimately show ?thesis
      using wf live before by (auto simp: new_start_def Let_def record_start_daily disk_daily_def)
  qed
qed

text \<open>The counter in memory is not behind the file, as long as the day is not over.\<close>

definition counts_ahead :: "i64 \<Rightarrow> u64 list \<Rightarrow> daily_cap \<Rightarrow> daily_cap \<Rightarrow> bool" where
  "counts_ahead d ts disk mem \<longleftrightarrow>
     list_all (\<lambda>t. dc_day mem \<le> day_at t) ts
     \<and> (starts.today_count d disk \<le> starts.today_count d mem \<or> list_all (\<lambda>t. d < day_at t) ts)"

lemma today_before: "dc_day c < d \<Longrightarrow> starts.today_count d c = 0"
  by (simp add: starts.today_count_def)

lemma roll_day: "dc_day (roll now c) = day_at now"
  by (simp add: roll_def roll_to_def)

lemma counts_ahead_roll:
  assumes "sorted (now # ts)" "counts_ahead d (now # ts) disk mem" "dc_day disk \<le> day_at now"
  shows "counts_ahead d ts disk (roll now mem)"
proof (cases "d < day_at now")
  case True
  then show ?thesis using assms(1) day_at_mono by (fastforce simp: counts_ahead_def list_all_iff roll_day)
next
  case False
  then have "starts.today_count d disk \<le> starts.today_count d (roll now mem)"
    using assms(2,3) today_before [of disk d] by (cases "day_at now = d") (auto simp: counts_ahead_def today_roll)
  then show ?thesis using assms(1) day_at_mono by (auto simp: counts_ahead_def list_all_iff roll_day)
qed

lemma counts_ahead_tl: "counts_ahead d (t # ts) disk mem \<Longrightarrow> counts_ahead d ts disk mem"
  by (auto simp: counts_ahead_def)

lemma counts_ahead_disk: "list_all (\<lambda>t. dc_day disk \<le> day_at t) ts \<Longrightarrow> counts_ahead d ts disk disk"
  by (simp add: counts_ahead_def)

lemma cap_over_restarts:
  assumes "sorted (run_times es)" "list_all (\<lambda>t. dc_day (disk_daily (sv_disk sv)) \<le> day_at t) (run_times es)"
    and "starts.today_count d (disk_daily (sv_disk sv)) \<le> unat (sg_max_pools_per_day a)"
    and "alive \<Longrightarrow> sup_wf (\<lambda>_. True) (max (sg_max_watch a) 1) sv
           \<and> counts_ahead d (run_times es) (disk_daily (sv_disk sv)) (ds_daily (sv_state sv))"
  shows "started_days (sup_run lib a alive es sv) d + starts.today_count d (disk_daily (sv_disk sv))
    \<le> unat (sg_max_pools_per_day a) + count_list (sup_run lib a alive es sv) (d, False)"
  using assms
proof (induction es arbitrary: alive sv)
  case (Cons x es)
  obtain restart env where x: "x = (restart, env)" by (cases x)
  let ?l = "pv_now env LoopStart" and ?i = "pv_now env AfterIntake" and ?s = "pv_now env Spawned"
  let ?start = "if restart \<or> \<not> alive then sup_start lib a ?l (sv_disk sv) else Inr sv"
  note disk = Cons.prems(2) [unfolded x run_times_simps]
  have sorted: "sorted (run_times es)" "sorted (?s # run_times es)" "sorted (?i # ?s # run_times es)"
    "sorted (?l # ?i # ?s # run_times es)" using Cons.prems(1) by (simp_all add: x)
  show ?case
  proof (cases ?start)
    case (Inl err)
    then show ?thesis using Cons.IH [of sv False] Cons.prems sorted(1) by (simp add: x)
  next
    case (Inr sv1)
    have d1: "sv_disk sv1 = sv_disk sv" and wf1: "sup_wf (\<lambda>_. True) (max (sg_max_watch a) 1) sv1"
      using Inr started_from_disk [of lib a ?l "sv_disk sv" sv1] Cons.prems(4) by (auto split: if_splits)
    define c where "c = roll ?l (ds_daily (sv_state sv1))"
    have "counts_ahead d (?i # ?s # run_times es) (disk_daily (sv_disk sv)) c"
    proof (cases "restart \<or> \<not> alive")
      case True
      then have "ds_daily (sv_state sv1) = roll ?l (disk_daily (sv_disk sv))" using Inr started_from_disk(2) by auto
      then have "c = roll ?l (disk_daily (sv_disk sv))" by (simp add: c_def roll_def roll_to_def)
      then show ?thesis using counts_ahead_roll [OF sorted(4) counts_ahead_disk [OF disk]] disk by simp
    next
      case False
      then show ?thesis
        using counts_ahead_roll [OF sorted(4)] Cons.prems(4) Inr disk by (simp add: c_def x)
    qed
    note ahead = this
    obtain sv' acts e where pass: "loop_pass lib a env sv1 = (sv', acts, e)" by (cases "loop_pass lib a env sv1")
    let ?alive = "case e of Again _ \<Rightarrow> True | _ \<Rightarrow> False"
    note eff = pass_daily [OF pass wf1, folded c_def, unfolded d1]
    have run: "sup_run lib a alive (x # es) sv =
        (if spawned acts \<and> \<not> resuming a env then [(day_at ?s, pv_save env)] else []) @ sup_run lib a ?alive es sv'"
      using Inr pass by (simp add: x)
    have rolled: "counts_ahead d (?s # run_times es) (disk_daily (sv_disk sv)) (roll ?i c)"
      using counts_ahead_roll [OF sorted(3) ahead] disk by simp
    show ?thesis
    proof (cases "spawned acts \<and> \<not> resuming a env")
      case False
      then have d': "sv_disk sv' = sv_disk sv" and m': "ds_daily (sv_state sv') \<in> {c, roll ?i c}" using eff by auto
      have "counts_ahead d (run_times es) (disk_daily (sv_disk sv')) (ds_daily (sv_state sv'))"
        using m' d' ahead rolled disk by (auto dest!: counts_ahead_tl)
      moreover have "sup_run lib a alive (x # es) sv = sup_run lib a ?alive es sv'" using run False by simp
      ultimately show ?thesis using Cons.IH [of sv' ?alive] Cons.prems(3) sorted(1) disk eff d' by simp
    next
      case True
      define c2 where "c2 = roll ?i c"
      have room: "unat (dc_count c2) < unat (sg_max_pools_per_day a)" and m': "ds_daily (sv_state sv') = record_on (day_at ?s) c2"
        and d': "disk_daily (sv_disk sv') = (if pv_save env then record_on (day_at ?s) c2 else disk_daily (sv_disk sv))"
        using eff True by (auto simp: c2_def word_le_nat_alt)
      let ?dk = "starts.today_count d (disk_daily (sv_disk sv))" and ?dk' = "starts.today_count d (disk_daily (sv_disk sv'))"
      have later: "day_at ?s \<le> day_at t" if "t \<in> set (run_times es)" for t using sorted(2) that day_at_mono by simp
      have old: "dc_day (disk_daily (sv_disk sv)) \<le> day_at ?s" using disk by simp
      have "unat (dc_count c2) + 1 < 2 ^ 32" using room unsigned_less [of "sg_max_pools_per_day a", where 'a = nat] by simp
      then have today: "starts.today_count d (record_on (day_at ?s) c2) = (if day_at ?s = d then starts.today_count d c2 + 1 else 0)"
        using starts.today_bump starts.bump_other_day by auto
      have c2: "starts.today_count d c2 < unat (sg_max_pools_per_day a)" using room by (simp add: starts.today_count_def)
      have ahead2: "?dk \<le> starts.today_count d c2 \<or> d < day_at ?s"
        using rolled by (auto simp: counts_ahead_def c2_def)
      have below: "?dk = 0" if "day_at ?s < d" using old that today_before [of "disk_daily (sv_disk sv)" d] by simp
      have days: "list_all (\<lambda>t. dc_day (disk_daily (sv_disk sv')) \<le> day_at t) (run_times es)"
        using later disk by (auto simp: d' list_all_iff starts.day_bump)
      have fits: "?dk' \<le> unat (sg_max_pools_per_day a)" using c2 today Cons.prems(3) by (simp add: d')
      have "?dk' \<le> starts.today_count d (ds_daily (sv_state sv')) \<or> list_all (\<lambda>t. d < day_at t) (run_times es)"
        using ahead2 below later today
        by (cases "day_at ?s" d rule: linorder_cases) (auto simp: d' m' list_all_iff intro: less_le_trans)
      then have "counts_ahead d (run_times es) (disk_daily (sv_disk sv')) (ds_daily (sv_state sv'))"
        using later by (auto simp: counts_ahead_def list_all_iff m' starts.day_bump)
      then have IH: "started_days (sup_run lib a ?alive es sv') d + ?dk'
          \<le> unat (sg_max_pools_per_day a) + count_list (sup_run lib a ?alive es sv') (d, False)"
        using Cons.IH [of sv' ?alive] sorted(1) days fits eff by blast
      have none: "started_days (sup_run lib a ?alive es sv') d = 0" if "d < day_at ?s"
        by (rule run_later) (use later that in force)
      have run': "sup_run lib a alive (x # es) sv = (day_at ?s, pv_save env) # sup_run lib a ?alive es sv'" using run True by simp
      show ?thesis
        unfolding run'
        using IH none below ahead2 today c2 Cons.prems(3) by (cases "day_at ?s" d rule: linorder_cases) (auto simp: d' split: if_splits)
    qed
  qed
qed simp

text \<open>
  C31. The daily cap survives crashes: with a clock that does not run backwards, over any history of passes, restarts, ends and failed
  writes of the state file, the supervisors of a data directory start on any day at most the configured number of new pools plus one
  for each start of that day whose state could not be written.
\<close>

theorem starts_capped_over_crashes:
  assumes "sorted (run_times es)" "sv_disk sv = NoRecord"
  shows "started_days (sup_run lib a False es sv) d
    \<le> unat (sg_max_pools_per_day a) + count_list (sup_run lib a False es sv) (d, False)"
proof -
  have "disk_daily (sv_disk sv) = \<lparr> dc_day = 0, dc_count = 0 \<rparr>" using assms(2) by (simp add: disk_daily_def)
  then show ?thesis
    using cap_over_restarts [OF assms(1), of sv d a False lib]
    by (cases "d = 0") (simp_all add: starts.today_count_def list_all_iff day_at_def)
qed

theorem starts_capped_over_crashes_witness:
  "started_days (sup_run demo_lib demo_live False [(False, demo_pass), (True, demo_pass)] demo_sup) 0 \<le> 20 +
     count_list (sup_run demo_lib demo_live False [(False, demo_pass), (True, demo_pass)] demo_sup) (0, False)"
proof -
  have "sv_disk demo_sup = NoRecord"
    by (simp add: demo_sup_def sup_start_def validate_sup_def demo_live_def default_sup_args_def restored_state_def map_err_def)
  then show ?thesis
    using starts_capped_over_crashes [of "[(False, demo_pass), (True, demo_pass)]" demo_sup demo_lib demo_live 0]
    by (simp add: demo_pass_def demo_live_def default_sup_args_def)
qed

section \<open>The pause does not hold back a resume\<close>

text \<open>
  A live position is resumed whatever the pause after a start-up failure, and without a wait: a process that fails at its start is started
  again on the next pass.
\<close>

lemma resume_ignores_pause:
  assumes "sv_running sv = None" "sg_mode a = LiveMode" "open_entry env = Inr (Some pos)" "pv_spawn env"
  shows "fst (snd (idle_step lib a env sv)) \<noteq> [] \<and> snd (snd (idle_step lib a env sv)) = Again 0"
  using assms by (simp add: idle_step_def resume_def Let_def)

text \<open>A pool that qualifies while its process cannot be started is no longer watched.\<close>

lemma failed_spawn_loses_pool:
  assumes "take_due (pv_now env (TakeNext i)) (sv_watch sv) = (Some c0, wl)"
    and "check_next lib a env i c0 (sv_vaults sv) = (Ready, c, vs)" "\<not> pv_spawn env"
  shows "pick_loop lib a env (Suc n) i sv = (sv\<lparr>sv_watch := wl, sv_vaults := vs\<rparr>, [])"
  using assms by (simp add: launch_def Let_def)

text \<open>While a shutdown is requested nothing is started and the records stay as they are.\<close>

lemma shutdown_starts_nothing:
  assumes "loop_pass lib a env sv = (sv', acts, e)" "pv_shutdown env ShutdownTest"
  shows "SpawnChild argv \<notin> set acts \<and> sv_disk sv' = sv_disk sv
    \<and> e = (if sv_running sv' = None then ShutdownComplete else Again 500)"
proof -
  obtain sv1 acts1 where step: "child_step a env (pass_status env sv) = (sv1, acts1)" by fastforce
  then show ?thesis
    using assms child_step_books(2,3) [OF step] by (auto simp: loop_pass_def pass_status_books)
qed

text \<open>A child that does not end is asked to at the first pass of a shutdown and killed at the first one more than two minutes later.\<close>

lemma shutdown_kills:
  assumes "sv_running sv = Some r" "pv_poll env = ChildRunning" "pv_shutdown env ChildPolled" "pv_shutdown env ShutdownTest"
  shows "fst (snd (loop_pass lib a env sv)) =
    (case rn_term_sent r of None \<Rightarrow> [SigTerm] | Some t \<Rightarrow> if 120000 < pv_instant env ChildPolled - t then [KillChild] else [])"
  using assms by (auto simp: loop_pass_def child_step_def pass_status_def Let_def split: option.split prod.split)

text \<open>A trade counter that reached the cap on any earlier day keeps a live supervisor from starting pools.\<close>

lemma spent_cap_stops_discovery:
  assumes "sg_mode a = LiveMode" "production_defaults (pv_staleness env) = Inr cfg"
    and "pv_risk_file env = Saved st" "rc_max_daily_trades cfg \<le> pr_daily_trades st"
  shows "isl (risk_allows_entry a env)"
proof -
  have "spent cfg (risk_new (env_now (pv_risk_env env)) (pv_risk_file env) [])"
    using assms(3,4) by (simp add: spent_def risk_new_def load_state_def)
  then obtain r where "fst (pre_trade_check cfg (pv_risk_env env) (max_position_lamports default_strategy) 50
      (risk_new (env_now (pv_risk_env env)) (pv_risk_file env) [])) = Inl r"
    using spent_rejects by blast
  then show ?thesis using assms(1,2) by (simp add: risk_allows_entry_def map_err_def)
qed

end
