(* ===== verification/Double.thy ===== *)
theory Double
  imports Float64
begin

text \<open>
  Double precision values with their exceptional cases: infinities, NaN, gradual underflow and overflow.  \<open>Float64\<close> has the finite values of
  amounts that stay far inside the normal range; the price series of \<open>signal.rs\<close> takes any \<open>f64\<close> and guards against the others with
  \<open>is_finite\<close>, so its arithmetic is here.  The sign of a zero is not kept: the program divides by no value that can be zero without
  testing it first.
\<close>

datatype double = Fin rat | PInf | NInf | NaN

section \<open>Rounding\<close>

definition d_tiny :: rat where "d_tiny = 2 powi (-1022)"
definition d_huge :: rat where "d_huge = 2 powi 1024"
definition d_grid :: rat where "d_grid = 2 powi (-1074)"

text \<open>Below the smallest normal number the values are the multiples of \<open>d_grid\<close>.\<close>

definition round64 :: "rat \<Rightarrow> rat" where
  "round64 x = (if \<bar>x\<bar> < d_tiny then of_int (half_even (x / d_grid)) * d_grid else f64_round x)"

definition d_round :: "rat \<Rightarrow> double" where
  "d_round x =
     (let y = round64 x in if d_huge \<le> y then PInf else if y \<le> - d_huge then NInf else Fin y)"

lemma d_consts_pos: "0 < d_tiny" "0 < d_huge" "0 < d_grid"
  unfolding d_tiny_def d_huge_def d_grid_def by (rule zero_less_power_int, simp)+

lemma d_tiny_grid: "d_tiny = of_int (2 ^ 52) * d_grid"
  unfolding d_tiny_def d_grid_def using power_int_add [of "2 :: rat" 52 "-1074"] by simp

lemma d_tiny_powi: "d_tiny = of_int 1 * 2 powi (-1022)"
  by (simp only: d_tiny_def of_int_1 mult_1)

lemma small_bound:
  assumes "\<bar>x\<bar> < d_tiny"
  shows "round64 x \<le> d_tiny" "- d_tiny \<le> round64 x"
proof -
  have g: "0 < d_grid" by (rule d_consts_pos)
  have "x / d_grid \<le> of_int (2 ^ 52)" "of_int (- (2 ^ 52)) \<le> x / d_grid"
    using assms g by (simp_all add: d_tiny_grid pos_divide_le_eq pos_le_divide_eq)
  then have "half_even (x / d_grid) \<le> 2 ^ 52" "- (2 ^ 52) \<le> half_even (x / d_grid)"
    using half_even_mono half_even_of_int by metis+
  then have "of_int (half_even (x / d_grid)) \<le> (of_int (2 ^ 52) :: rat)" "(of_int (- (2 ^ 52)) :: rat) \<le> of_int (half_even (x / d_grid))"
    by (simp_all only: of_int_le_iff)
  then have "of_int (half_even (x / d_grid)) * d_grid \<le> of_int (2 ^ 52) * d_grid"
    "of_int (- (2 ^ 52)) * d_grid \<le> of_int (half_even (x / d_grid)) * d_grid"
    using g by (simp_all only: mult_right_mono less_imp_le)
  then show "round64 x \<le> d_tiny" "- d_tiny \<le> round64 x" using assms by (simp_all add: round64_def d_tiny_grid)
qed

lemma normal_bound: "d_tiny \<le> x \<Longrightarrow> d_tiny \<le> round64 x" "x \<le> - d_tiny \<Longrightarrow> round64 x \<le> - d_tiny"
proof -
  have t: "f64_round d_tiny = d_tiny" unfolding d_tiny_powi by (rule f64_round_exact) simp_all
  show "d_tiny \<le> x \<Longrightarrow> d_tiny \<le> round64 x"
    using f64_round_mono [of d_tiny x] d_consts_pos(1) by (simp add: t round64_def)
  show "x \<le> - d_tiny \<Longrightarrow> round64 x \<le> - d_tiny"
    using f64_round_mono [of x "- d_tiny"] d_consts_pos(1) by (simp add: t round64_def f64_round_minus)
qed

lemma round64_mono: "x \<le> y \<Longrightarrow> round64 x \<le> round64 y"
proof -
  assume xy: "x \<le> y"
  consider "\<bar>x\<bar> < d_tiny" "\<bar>y\<bar> < d_tiny" | "\<bar>x\<bar> < d_tiny" "d_tiny \<le> y" | "x \<le> - d_tiny" "\<bar>y\<bar> < d_tiny"
    | "\<not> \<bar>x\<bar> < d_tiny" "\<not> \<bar>y\<bar> < d_tiny"
    using xy by linarith
  then show ?thesis
  proof cases
    case 1
    have "half_even (x / d_grid) \<le> half_even (y / d_grid)"
      using xy d_consts_pos(3) by (intro half_even_mono divide_right_mono) simp_all
    then have "of_int (half_even (x / d_grid)) * d_grid \<le> of_int (half_even (y / d_grid)) * d_grid"
      using d_consts_pos(3) by (intro mult_right_mono) simp_all
    then show ?thesis using 1 by (simp add: round64_def)
  next
    case 2
    then show ?thesis using small_bound(1) [OF 2(1)] normal_bound(1) [OF 2(2)] by linarith
  next
    case 3
    then show ?thesis using small_bound(2) [OF 3(2)] normal_bound(2) [OF 3(1)] by linarith
  next
    case 4
    then show ?thesis using xy f64_round_mono by (simp add: round64_def)
  qed
qed

text \<open>A multiple of a power of two with at most 53 significant bits is exact.\<close>

lemma f64_round_exact_le:
  assumes "\<bar>m\<bar> \<le> 2 ^ 53"
  shows "f64_round (of_int m * 2 powi k) = of_int m * 2 powi k"
proof -
  have pos: "f64_round (of_int n * 2 powi k) = of_int n * 2 powi k" if n: "0 < n" "n \<le> 2 ^ 53" for n :: int
  proof (cases "n = 2 ^ 53")
    case True
    then have "of_int n * (2 :: rat) powi k = of_int 1 * 2 powi (53 + k)" by (simp add: power_int_add)
    then show ?thesis using f64_round_exact [of 1 "53 + k"] by simp
  next
    case False
    then show ?thesis using n by (intro f64_round_exact) simp_all
  qed
  consider "m = 0" | "0 < m" | "0 < - m" by linarith
  then show ?thesis
  proof cases
    case 3
    have "f64_round (of_int (- m) * 2 powi k) = of_int (- m) * 2 powi k" using 3 assms by (intro pos) simp_all
    then show ?thesis by (simp add: f64_round_minus)
  qed (use assms pos in simp_all)
qed

lemma round64_exact:
  assumes "\<bar>m\<bar> \<le> 2 ^ 53" "-1074 \<le> k"
  shows "round64 (of_int m * 2 powi k) = of_int m * 2 powi k"
proof (cases "\<bar>of_int m * 2 powi k :: rat\<bar> < d_tiny")
  case True
  obtain j where j: "k = int j - 1074" using assms(2) zle_iff_zadd [of "-1074" k] by auto
  have "(2 :: rat) powi k = 2 ^ j * d_grid"
    unfolding d_grid_def j using power_int_add [of "2 :: rat" "int j" "-1074"] by simp
  then have x: "of_int m * 2 powi k = of_int (m * 2 ^ j) * d_grid" by simp
  then have "of_int m * 2 powi k / d_grid = of_int (m * 2 ^ j)"
    using d_consts_pos(3) by (simp only: x nonzero_mult_div_cancel_right less_imp_neq [symmetric] not_False_eq_True)
  then have "half_even (of_int m * 2 powi k / d_grid) = m * 2 ^ j" by (simp only: half_even_of_int)
  then show ?thesis using True by (simp only: round64_def if_True x)
next
  case False
  then show ?thesis using assms(1) by (simp add: round64_def f64_round_exact_le)
qed

text \<open>
  The bounds a computation carries: \<open>n\<close> times a power of two.  Whatever is at most such a bound is at most it after rounding.
\<close>

definition d_bound :: "nat \<Rightarrow> int \<Rightarrow> rat" where
  "d_bound n k = of_nat n * 2 powi k"

definition d_bound_ok :: "nat \<Rightarrow> int \<Rightarrow> bool" where
  "d_bound_ok n k \<longleftrightarrow> n \<le> 2 ^ 53 \<and> -1074 \<le> k \<and> k \<le> 970"

lemma round64_bound: "d_bound_ok n k \<Longrightarrow> round64 (d_bound n k) = d_bound n k"
  using round64_exact [of "int n" k] by (simp add: d_bound_def d_bound_ok_def)

lemma d_bound_huge: "d_bound_ok n k \<Longrightarrow> d_bound n k < d_huge"
proof -
  assume ok: "d_bound_ok n k"
  have "of_nat n \<le> (of_nat (2 ^ 53) :: rat)" using ok unfolding of_nat_le_iff by (simp add: d_bound_ok_def)
  moreover have "(2 :: rat) powi k \<le> 2 powi 970" using ok by (intro power_int_increasing) (simp_all add: d_bound_ok_def)
  ultimately have "d_bound n k \<le> of_nat (2 ^ 53) * 2 powi 970" unfolding d_bound_def by (intro mult_mono) simp_all
  also have "\<dots> = 2 powi 1023" using power_int_add [of "2 :: rat" 53 970] by simp
  also have "\<dots> < d_huge" unfolding d_huge_def by (intro power_int_strict_increasing) simp_all
  finally show ?thesis .
qed

lemma d_round_between:
  assumes "d_bound_ok n k" "d_bound_ok m l" "- d_bound m l \<le> x" "x \<le> d_bound n k"
  shows "\<exists>y. d_round x = Fin y \<and> y = round64 x \<and> y \<le> d_bound n k \<and> - d_bound m l \<le> y"
proof -
  have "round64 (- d_bound m l) = - d_bound m l"
    using round64_exact [of "- int m" l] assms(2) by (simp add: d_bound_def d_bound_ok_def)
  then have "- d_bound m l \<le> round64 x" "round64 x \<le> d_bound n k"
    using round64_mono [OF assms(3)] round64_mono [OF assms(4)] round64_bound [OF assms(1)] by simp_all
  then show ?thesis
    using d_bound_huge [OF assms(1)] d_bound_huge [OF assms(2)] by (simp add: d_round_def Let_def)
qed

lemma round64_nonneg: "0 \<le> x \<Longrightarrow> 0 \<le> round64 x" and round64_0 [simp]: "round64 0 = 0"
proof -
  show z: "round64 0 = 0" using d_consts_pos(1) half_even_of_int [of 0] by (simp add: round64_def)
  show "0 \<le> x \<Longrightarrow> 0 \<le> round64 x" using round64_mono [of 0 x] z by simp
qed

lemma d_round_abs:
  assumes "d_bound_ok n k" "\<bar>x\<bar> \<le> d_bound n k"
  obtains y where "d_round x = Fin y" "\<bar>y\<bar> \<le> d_bound n k" "0 \<le> x \<Longrightarrow> 0 \<le> y"
proof -
  obtain y where "d_round x = Fin y" "y = round64 x" "y \<le> d_bound n k" "- d_bound n k \<le> y"
    using d_round_between [OF assms(1,1), of x] assms(2) by auto
  then show ?thesis using that round64_nonneg [of x] by (simp add: abs_le_iff)
qed

lemma d_round_int: "\<bar>i\<bar> \<le> 2 ^ 53 \<Longrightarrow> d_round (of_int i) = Fin (of_int i)"
proof -
  assume i: "\<bar>i\<bar> \<le> 2 ^ 53"
  have "\<bar>of_int i\<bar> \<le> d_bound (nat \<bar>i\<bar>) 0" by (simp add: d_bound_def)
  then have "\<exists>y. d_round (of_int i) = Fin y \<and> y = round64 (of_int i)"
    using d_round_between [of "nat \<bar>i\<bar>" 0 "nat \<bar>i\<bar>" 0 "of_int i"] i by (auto simp: d_bound_ok_def abs_le_iff nat_le_iff)
  then show ?thesis using round64_exact [of i 0] i by simp
qed

lemma d_round_0 [simp]: "d_round 0 = Fin 0" and d_round_1 [simp]: "d_round 1 = Fin 1"
  using d_round_int [of 0] d_round_int [of 1] by simp_all

section \<open>Operations\<close>

definition d_is_finite :: "double \<Rightarrow> bool" where
  "d_is_finite x \<longleftrightarrow> (case x of Fin _ \<Rightarrow> True | _ \<Rightarrow> False)"

fun d_neg :: "double \<Rightarrow> double" where
  "d_neg (Fin x) = Fin (- x)"
| "d_neg PInf = NInf"
| "d_neg NInf = PInf"
| "d_neg NaN = NaN"

fun d_add :: "double \<Rightarrow> double \<Rightarrow> double" where
  "d_add (Fin x) (Fin y) = d_round (x + y)"
| "d_add NaN y = NaN"
| "d_add x NaN = NaN"
| "d_add PInf NInf = NaN"
| "d_add NInf PInf = NaN"
| "d_add PInf y = PInf"
| "d_add x PInf = PInf"
| "d_add NInf y = NInf"
| "d_add x NInf = NInf"

definition d_sub :: "double \<Rightarrow> double \<Rightarrow> double" where
  "d_sub x y = d_add x (d_neg y)"

definition d_sign :: "double \<Rightarrow> int" where
  "d_sign x = (case x of Fin v \<Rightarrow> (if 0 < v then 1 else if v < 0 then -1 else 0) | PInf \<Rightarrow> 1 | NInf \<Rightarrow> -1 | NaN \<Rightarrow> 0)"

definition d_inf :: "int \<Rightarrow> double" where
  "d_inf s = (if 0 < s then PInf else if s < 0 then NInf else NaN)"

fun d_mul :: "double \<Rightarrow> double \<Rightarrow> double" where
  "d_mul (Fin x) (Fin y) = d_round (x * y)"
| "d_mul NaN y = NaN"
| "d_mul x NaN = NaN"
| "d_mul x y = d_inf (d_sign x * d_sign y)"

text \<open>A zero counts as positive when something else is divided by it.\<close>

fun d_div :: "double \<Rightarrow> double \<Rightarrow> double" where
  "d_div (Fin x) (Fin y) = (if y = 0 then d_inf (d_sign (Fin x)) else d_round (x / y))"
| "d_div NaN y = NaN"
| "d_div x NaN = NaN"
| "d_div (Fin x) y = Fin 0"
| "d_div x (Fin y) = d_inf (d_sign x * (if y < 0 then -1 else 1))"
| "d_div x y = NaN"

fun d_lt :: "double \<Rightarrow> double \<Rightarrow> bool" where
  "d_lt (Fin x) (Fin y) = (x < y)"
| "d_lt NaN y = False"
| "d_lt x NaN = False"
| "d_lt x PInf = (x \<noteq> PInf)"
| "d_lt NInf y = (y \<noteq> NInf)"
| "d_lt x y = False"

definition d_eq :: "double \<Rightarrow> double \<Rightarrow> bool" where
  "d_eq x y \<longleftrightarrow> x = y \<and> x \<noteq> NaN"

definition d_le :: "double \<Rightarrow> double \<Rightarrow> bool" where
  "d_le x y \<longleftrightarrow> d_lt x y \<or> d_eq x y"

text \<open>\<open>f64::max\<close> returns the other argument when one is NaN.\<close>

definition d_max :: "double \<Rightarrow> double \<Rightarrow> double" where
  "d_max x y = (if x = NaN then y else if d_lt x y then y else x)"

definition d_of_nat :: "nat \<Rightarrow> double" where
  "d_of_nat n = d_round (of_nat n)"

lemma d_of_nat_exact: "n \<le> 2 ^ 53 \<Longrightarrow> d_of_nat n = Fin (of_nat n)"
  using d_round_int [of "int n"] by (simp add: d_of_nat_def flip: of_nat_le_iff)

lemma d_le_Fin [simp]: "d_le (Fin x) (Fin y) \<longleftrightarrow> x \<le> y"
  by (auto simp: d_le_def d_eq_def)

lemma d_le_NaN [simp]: "\<not> d_le x NaN" "\<not> d_le NaN x"
  by (cases x; simp add: d_le_def d_eq_def)+

lemma d_is_finite_Fin [simp]: "d_is_finite (Fin x)"
  by (simp add: d_is_finite_def)

lemma d_sub_Fin [simp]: "d_sub (Fin x) (Fin y) = d_round (x - y)"
  by (simp add: d_sub_def)

lemma d_max_Fin [simp]: "d_max (Fin x) (Fin y) = Fin (max x y)"
  by (auto simp: d_max_def max_def)

lemma d_finite_pos: "d_is_finite p \<and> d_lt (Fin 0) p \<longleftrightarrow> (\<exists>x. p = Fin x \<and> 0 < x)"
  by (cases p) (simp_all add: d_is_finite_def)

section \<open>Ranges\<close>

text \<open>A finite value between two bounds; \<open>d_in a b k\<close> is between \<open>- a\<close> and \<open>b\<close> times a power of two.\<close>

definition d_btw :: "rat \<Rightarrow> rat \<Rightarrow> double \<Rightarrow> bool" where
  "d_btw lo hi d \<longleftrightarrow> (case d of Fin x \<Rightarrow> lo \<le> x \<and> x \<le> hi | _ \<Rightarrow> False)"

abbreviation d_in :: "nat \<Rightarrow> nat \<Rightarrow> int \<Rightarrow> double \<Rightarrow> bool" where
  "d_in a b k \<equiv> d_btw (- d_bound a k) (d_bound b k)"

lemma d_btwE: "d_btw lo hi d \<Longrightarrow> (\<And>x. d = Fin x \<Longrightarrow> lo \<le> x \<Longrightarrow> x \<le> hi \<Longrightarrow> P) \<Longrightarrow> P"
  by (cases d) (simp_all add: d_btw_def)

lemma d_btw_Fin [simp]: "d_btw lo hi (Fin x) \<longleftrightarrow> lo \<le> x \<and> x \<le> hi"
  by (simp add: d_btw_def)

lemma d_btw_mono: "d_btw lo hi d \<Longrightarrow> lo' \<le> lo \<Longrightarrow> hi \<le> hi' \<Longrightarrow> d_btw lo' hi' d"
  by (cases d) (auto simp: d_btw_def)

definition d_repr :: "rat \<Rightarrow> bool" where
  "d_repr b \<longleftrightarrow> round64 b = b \<and> \<bar>b\<bar> < d_huge"

lemma d_bound_nonneg [simp]: "0 \<le> d_bound n k"
  by (simp add: d_bound_def)

lemma d_bound_0 [simp]: "d_bound 0 k = 0"
  by (simp add: d_bound_def)

lemma d_bound_mono: "n \<le> m \<Longrightarrow> d_bound n k \<le> d_bound m k"
  by (simp add: d_bound_def)

lemma d_bound_add: "d_bound n k + d_bound m k = d_bound (n + m) k"
  by (simp add: d_bound_def distrib_right)

lemma d_repr_bound: "d_bound_ok n k \<Longrightarrow> d_repr (d_bound n k)" "d_bound_ok n k \<Longrightarrow> d_repr (- d_bound n k)"
  using round64_bound d_bound_huge round64_exact [of "- int n" k]
  by (auto simp: d_repr_def d_bound_def d_bound_ok_def abs_mult)

lemma d_btw_round: "d_repr lo \<Longrightarrow> d_repr hi \<Longrightarrow> lo \<le> x \<Longrightarrow> x \<le> hi \<Longrightarrow> d_btw lo hi (d_round x)"
  using round64_mono [of lo x] round64_mono [of x hi] by (auto simp: d_repr_def d_round_def Let_def abs_less_iff)

lemma d_round_repr: "d_repr x \<Longrightarrow> d_round x = Fin x"
  by (auto simp: d_repr_def d_round_def Let_def abs_less_iff)

lemma d_round_ge:
  assumes "d_repr b" "b \<le> x"
  shows "d_round x = PInf \<or> (\<exists>y. d_round x = Fin y \<and> b \<le> y)"
  using round64_mono [OF assms(2)] assms(1) by (auto simp: d_repr_def d_round_def Let_def abs_less_iff)

lemma d_in_round:
  "a \<le> 2 ^ 53 \<Longrightarrow> b \<le> 2 ^ 53 \<Longrightarrow> -1074 \<le> k \<Longrightarrow> k \<le> 970 \<Longrightarrow> - d_bound a k \<le> x \<Longrightarrow> x \<le> d_bound b k \<Longrightarrow> d_in a b k (d_round x)"
  by (intro d_btw_round d_repr_bound) (simp_all add: d_bound_ok_def)

lemma d_in_mono: "d_in a b k d \<Longrightarrow> a \<le> a' \<Longrightarrow> b \<le> b' \<Longrightarrow> d_in a' b' k d"
  by (erule d_btw_mono) (simp_all add: d_bound_mono)

text \<open>Sums, differences, and products with a count keep their ranges.\<close>

lemma d_in_add:
  assumes "d_in a b k x" "d_in a' b' k y" "a + a' \<le> 2 ^ 53" "b + b' \<le> 2 ^ 53" "-1074 \<le> k" "k \<le> 970"
  shows "d_in (a + a') (b + b') k (d_add x y)"
  using assms(1)
proof (rule d_btwE)
  fix v assume v: "x = Fin v" "- d_bound a k \<le> v" "v \<le> d_bound b k"
  from assms(2) obtain w where w: "y = Fin w" "- d_bound a' k \<le> w" "w \<le> d_bound b' k" by (rule d_btwE)
  have "- d_bound (a + a') k \<le> v + w" "v + w \<le> d_bound (b + b') k" using v w by (simp_all flip: d_bound_add)
  then show ?thesis unfolding v(1) w(1) d_add.simps using assms(3-) by (intro d_in_round)
qed

lemma d_in_neg: "d_in a b k x \<Longrightarrow> d_in b a k (d_neg x)"
  by (elim d_btwE) simp

lemma d_in_sub:
  assumes "d_in a b k x" "d_in a' b' k y" "a + b' \<le> 2 ^ 53" "b + a' \<le> 2 ^ 53" "-1074 \<le> k" "k \<le> 970"
  shows "d_in (a + b') (b + a') k (d_sub x y)"
  unfolding d_sub_def by (rule d_in_add [OF assms(1) d_in_neg [OF assms(2)] assms(3-6)])

lemma d_in_div_nat:
  assumes "d_in (a * n) (b * n) k x" "0 < n" "n \<le> 2 ^ 53" "a \<le> 2 ^ 53" "b \<le> 2 ^ 53" "-1074 \<le> k" "k \<le> 970"
  shows "d_in a b k (d_div x (d_of_nat n))"
  using assms(1)
proof (rule d_btwE)
  fix v assume v: "x = Fin v" "- d_bound (a * n) k \<le> v" "v \<le> d_bound (b * n) k"
  have n: "(0 :: rat) < of_nat n" using assms(2) by simp
  have "d_bound (c * n) k = d_bound c k * of_nat n" for c by (simp add: d_bound_def)
  then have "- d_bound a k \<le> v / of_nat n" "v / of_nat n \<le> d_bound b k"
    using v n by (simp_all add: pos_le_divide_eq pos_divide_le_eq)
  then show ?thesis using v n assms(3-) by (simp add: d_of_nat_exact d_in_round)
qed

lemma d_in_mul_nat:
  assumes "d_in a b k x" "a * n \<le> 2 ^ 53" "b * n \<le> 2 ^ 53" "-1074 \<le> k" "k \<le> 970"
  shows "d_in (a * n) (b * n) k (d_mul x (Fin (of_nat n)))"
  using assms(1)
proof (rule d_btwE)
  fix v assume v: "x = Fin v" "- d_bound a k \<le> v" "v \<le> d_bound b k"
  have "d_bound (c * n) k = d_bound c k * of_nat n" for c by (simp add: d_bound_def)
  moreover have "- (d_bound a k * of_nat n) \<le> v * of_nat n" "v * of_nat n \<le> d_bound b k * of_nat n"
    using v mult_right_mono [of "- d_bound a k" v "of_nat n"] mult_right_mono [of v "d_bound b k" "of_nat n"] by simp_all
  ultimately have "- d_bound (a * n) k \<le> v * of_nat n" "v * of_nat n \<le> d_bound (b * n) k" by simp_all
  then show ?thesis unfolding v(1) d_mul.simps using assms(2-) by (intro d_in_round)
qed

lemma d_in_foldl:
  assumes "list_all (d_in a b k) xs" "d_in (a * j) (b * j) k e" "a * (j + length xs) \<le> 2 ^ 53" "b * (j + length xs) \<le> 2 ^ 53"
    "-1074 \<le> k" "k \<le> 970"
  shows "d_in (a * (j + length xs)) (b * (j + length xs)) k (foldl d_add e xs)"
  using assms(1-4)
proof (induction xs arbitrary: e j)
  case (Cons x xs)
  have "d_in (a * j + a) (b * j + b) k (d_add e x)"
    using Cons.prems assms(5,6) by (intro d_in_add) (simp_all add: algebra_simps)
  then show ?case using Cons.IH [of "Suc j" "d_add e x"] Cons.prems by (simp add: algebra_simps)
qed simp

end
