(* ===== verification/Signal.thy ===== *)
theory Signal
  imports Double Prelude "HOL-Library.Signed_Division"
begin

text \<open>
  \<open>solana-sniper/src/signal.rs\<close>: the series of observed prices, the indicators over it, and the gate that turns them into a score.  Prices
  and indicators are doubles with their infinities and NaN.  The natural logarithm and the square root of the standard library are arguments.
\<close>

section \<open>The series\<close>

record observation =
  ob_ts_ms :: u64
  ob_price :: double
  ob_liquidity :: u64

record series =
  se_samples :: "observation list"
  se_cap :: nat
  se_min_interval_ms :: u64
  se_max_gap_ms :: u64
  se_rejected :: u64
  se_resets :: u64

definition DEFAULT_MAX_GAP_MS :: u64 where "DEFAULT_MAX_GAP_MS = 30000"

definition series_new :: "nat \<Rightarrow> u64 \<Rightarrow> series" where
  "series_new cap min_interval =
     \<lparr> se_samples = [], se_cap = max cap 2, se_min_interval_ms = min_interval,
       se_max_gap_ms = max DEFAULT_MAX_GAP_MS (sat_mul min_interval 2), se_rejected = 0, se_resets = 0 \<rparr>"

definition with_max_gap :: "u64 \<Rightarrow> series \<Rightarrow> series" where
  "with_max_gap gap s = s\<lparr>se_max_gap_ms := max gap (sat_mul (se_min_interval_ms s) 2)\<rparr>"

definition series_store :: "observation \<Rightarrow> series \<Rightarrow> series" where
  "series_store obs s =
     s\<lparr>se_samples := (if length (se_samples s) = se_cap s then tl (se_samples s) else se_samples s) @ [obs]\<rparr>"

definition series_push :: "observation \<Rightarrow> series \<Rightarrow> bool \<times> series" where
  "series_push obs s =
     (let reject = s\<lparr>se_rejected := se_rejected s + 1\<rparr> in
      if \<not> (d_is_finite (ob_price obs) \<and> d_lt (Fin 0) (ob_price obs)) then (False, reject)
      else if se_samples s = [] then (True, series_store obs s)
      else
        let newest = last (se_samples s) in
        if ob_ts_ms obs < sat_add (ob_ts_ms newest) (se_min_interval_ms s) then (False, reject)
        else if se_max_gap_ms s < ob_ts_ms obs - ob_ts_ms newest
        then (True, series_store obs (s\<lparr>se_samples := [], se_resets := se_resets s + 1\<rparr>))
        else (True, series_store obs s))"

definition series_prices :: "series \<Rightarrow> double list" where
  "series_prices s = map ob_price (se_samples s)"

definition last_ts_ms :: "series \<Rightarrow> u64 option" where
  "last_ts_ms s = (if se_samples s = [] then None else Some (ob_ts_ms (last (se_samples s))))"

text \<open>The quotient of \<open>i128\<close> values is cast to \<open>i64\<close>, keeping the low 64 bits.\<close>

definition liquidity_change_bps :: "series \<Rightarrow> nat \<Rightarrow> i64 option" where
  "liquidity_change_bps s window =
     (let n = length (se_samples s) in
      if n < 2 then None
      else
        let first = ob_liquidity (se_samples s ! (n - max window 2)); newest = ob_liquidity (se_samples s ! (n - 1))
        in if first = 0 then None
           else Some (sint (word_of_int ((int (unat newest) - int (unat first)) * 10000 sdiv int (unat first)) :: u64)))"

definition held_token_price :: "u128 \<Rightarrow> bool \<Rightarrow> double" where
  "held_token_price sqrt_price input_is_token0 =
     (let s = d_div (d_of_nat (unat sqrt_price)) (d_of_nat (2 ^ 64)); p = d_mul s s
      in if input_is_token0 then (if d_lt (Fin 0) p then d_div (Fin 1) p else Fin 0) else p)"

section \<open>Indicators\<close>

definition d_sum :: "double list \<Rightarrow> double" where
  "d_sum xs = foldl d_add (Fin 0) xs"

text \<open>The average so far, and one more value.\<close>

fun ema_from :: "double \<Rightarrow> double \<Rightarrow> double list \<Rightarrow> double list" where
  "ema_from k e [] = [e]"
| "ema_from k e (v # vs) = e # ema_from k (d_add (d_mul v k) (d_mul e (d_sub (Fin 1) k))) vs"

definition ema_series :: "double list \<Rightarrow> nat \<Rightarrow> double list" where
  "ema_series values period =
     (if period = 0 \<or> length values < period then []
      else ema_from (d_div (Fin 2) (d_add (d_of_nat period) (Fin 1))) (d_div (d_sum (take period values)) (d_of_nat period))
             (drop period values))"

definition last_of :: "'a list \<Rightarrow> 'a option" where
  "last_of xs = (if xs = [] then None else Some (last xs))"

definition ema :: "double list \<Rightarrow> nat \<Rightarrow> double option" where
  "ema values period = last_of (ema_series values period)"

fun diffs :: "double list \<Rightarrow> double list" where
  "diffs (x # y # zs) = d_sub y x # diffs (y # zs)"
| "diffs _ = []"

fun wilder :: "nat \<Rightarrow> double \<times> double \<Rightarrow> double list \<Rightarrow> double \<times> double" where
  "wilder period gl [] = gl"
| "wilder period (gain, loss) (d # ds) =
     (let smooth = \<lambda>old new. d_div (d_add (d_mul old (d_sub (d_of_nat period) (Fin 1))) new) (d_of_nat period)
      in wilder period (smooth gain (d_max d (Fin 0)), smooth loss (d_max (d_neg d) (Fin 0))) ds)"

definition rsi :: "double list \<Rightarrow> nat \<Rightarrow> double option" where
  "rsi values period =
     (if period = 0 \<or> length values < period + 1 then None
      else
        let ds = diffs values;
            gain = d_div (d_sum (filter (d_lt (Fin 0)) (take period ds))) (d_of_nat period);
            loss = d_div (d_neg (d_sum (filter (\<lambda>d. d_lt d (Fin 0)) (take period ds)))) (d_of_nat period);
            (gain, loss) = wilder period (gain, loss) (drop period ds)
        in if d_eq loss (Fin 0) then Some (if d_eq gain (Fin 0) then Fin 50 else Fin 100)
           else Some (d_sub (Fin 100) (d_div (Fin 100) (d_add (Fin 1) (d_div gain loss)))))"

definition macd :: "double list \<Rightarrow> nat \<Rightarrow> nat \<Rightarrow> nat \<Rightarrow> (double \<times> double \<times> double) option" where
  "macd values fast slow signal =
     (if slow \<le> fast \<or> length values < slow + signal - 1 then None
      else
        let f = ema_series values fast; s = ema_series values slow; offset = slow - fast;
            line = map (\<lambda>i. d_sub (f ! (i + offset)) (s ! i)) [0..<length s]
        in Option.bind (ema line signal) (\<lambda>sig. Option.bind (last_of line) (\<lambda>m. Some (m, sig, d_sub m sig))))"

record f64_functions =
  fn_ln :: "double \<Rightarrow> double"
  fn_sqrt :: "double \<Rightarrow> double"

fun log_returns :: "f64_functions \<Rightarrow> double list \<Rightarrow> double list" where
  "log_returns fn (x # y # zs) = fn_ln fn (d_div y x) # log_returns fn (y # zs)"
| "log_returns fn _ = []"

definition mean_of :: "double list \<Rightarrow> double" where
  "mean_of xs = d_div (d_sum xs) (d_of_nat (length xs))"

definition volatility_bps :: "f64_functions \<Rightarrow> double list \<Rightarrow> nat \<Rightarrow> double option" where
  "volatility_bps fn values window =
     (if length values < max window 3 then None
      else
        let rets = log_returns fn (drop (length values - max window 3) values);
            mean = mean_of rets;
            var = mean_of (map (\<lambda>r. d_mul (d_sub r mean) (d_sub r mean)) rets)
        in Some (d_mul (fn_sqrt fn var) (Fin 10000)))"

section \<open>The gate\<close>

record signal_config =
  sc_ema_fast :: nat
  sc_ema_slow :: nat
  sc_rsi_period :: nat
  sc_rsi_max :: double
  sc_max_volatility_bps :: double
  sc_min_liquidity_change_bps :: i64
  sc_min_confidence :: u32
  sc_max_sample_age_ms :: u64

definition default_signal_config :: signal_config where
  "default_signal_config =
     \<lparr> sc_ema_fast = 5, sc_ema_slow = 20, sc_rsi_period = 14, sc_rsi_max = Fin 75, sc_max_volatility_bps = Fin 800,
       sc_min_liquidity_change_bps = -1000, sc_min_confidence = 70, sc_max_sample_age_ms = 30000 \<rparr>"

definition signal_config_valid :: "signal_config \<Rightarrow> bool" where
  "signal_config_valid c \<longleftrightarrow>
     1 \<le> sc_ema_fast c \<and> sc_ema_fast c < sc_ema_slow c \<and> 2 \<le> sc_rsi_period c
     \<and> d_is_finite (sc_rsi_max c) \<and> d_lt (Fin 0) (sc_rsi_max c) \<and> d_le (sc_rsi_max c) (Fin 100)
     \<and> d_is_finite (sc_max_volatility_bps c) \<and> d_lt (Fin 0) (sc_max_volatility_bps c) \<and> sc_min_confidence c \<le> 100 \<and> 0 < sc_max_sample_age_ms c"

definition warmup_samples :: "signal_config \<Rightarrow> nat" where
  "warmup_samples c = max (max (sc_ema_slow c) (26 + 9 - 1)) (sc_rsi_period c + 1)"

datatype no_trade_reason =
    InvalidConfig | WarmingUp | ClockSkew | StaleData | IndicatorUnavailable | LiquidityUnavailable | VetoOverbought
  | VetoVolatility | VetoLiquidityDraining | LowConfidence

datatype signal_decision = Trade u32 | NoTrade no_trade_reason u32

fun reason_text :: "no_trade_reason \<Rightarrow> string" where
  "reason_text InvalidConfig = ''invalid_config''"
| "reason_text WarmingUp = ''warming_up''"
| "reason_text ClockSkew = ''clock_skew''"
| "reason_text StaleData = ''stale_data''"
| "reason_text IndicatorUnavailable = ''indicator_unavailable''"
| "reason_text LiquidityUnavailable = ''liquidity_unavailable''"
| "reason_text VetoOverbought = ''veto_overbought''"
| "reason_text VetoVolatility = ''veto_volatility''"
| "reason_text VetoLiquidityDraining = ''veto_liquidity_draining''"
| "reason_text LowConfidence = ''low_confidence''"

fun decision_code :: "signal_decision \<Rightarrow> string" where
  "decision_code (Trade c) = ''trade''"
| "decision_code (NoTrade r c) = reason_text r"

definition signal_score :: "signal_config \<Rightarrow> double \<Rightarrow> double \<Rightarrow> double \<Rightarrow> double \<Rightarrow> i64 \<Rightarrow> u32" where
  "signal_score cfg fast slow r hist liq =
     (if d_lt slow fast then 40 else 0) + (if d_lt (Fin 0) hist then 30 else 0)
     + (if d_le (Fin 45) r \<and> d_lt r (sc_rsi_max cfg) then 20 else 0) + (if 0 \<le> liq then 10 else 0)"

definition signal_evaluate :: "f64_functions \<Rightarrow> series \<Rightarrow> signal_config \<Rightarrow> signal_decision" where
  "signal_evaluate fn s cfg =
     (if \<not> signal_config_valid cfg then NoTrade InvalidConfig 0
      else if length (se_samples s) < warmup_samples cfg then NoTrade WarmingUp 0
      else
        let prices = series_prices s in
        case (ema prices (sc_ema_fast cfg), ema prices (sc_ema_slow cfg), rsi prices (sc_rsi_period cfg), macd prices 12 26 9,
              volatility_bps fn prices (sc_ema_slow cfg)) of
          (Some fast, Some slow, Some r, Some (_, _, hist), Some vol) \<Rightarrow>
            (case liquidity_change_bps s (sc_ema_slow cfg) of
               None \<Rightarrow> NoTrade LiquidityUnavailable 0
             | Some liq \<Rightarrow>
                 if d_le (sc_rsi_max cfg) r then NoTrade VetoOverbought 0
                 else if d_le (sc_max_volatility_bps cfg) vol then NoTrade VetoVolatility 0
                 else if liq \<le> sc_min_liquidity_change_bps cfg then NoTrade VetoLiquidityDraining 0
                 else let score = signal_score cfg fast slow r hist liq
                      in if sc_min_confidence cfg \<le> score then Trade score else NoTrade LowConfidence score)
        | _ \<Rightarrow> NoTrade IndicatorUnavailable 0)"

definition signal_evaluate_at :: "f64_functions \<Rightarrow> series \<Rightarrow> signal_config \<Rightarrow> u64 \<Rightarrow> signal_decision" where
  "signal_evaluate_at fn s cfg now =
     (if \<not> signal_config_valid cfg then NoTrade InvalidConfig 0
      else case last_ts_ms s of
             None \<Rightarrow> NoTrade WarmingUp 0
           | Some newest \<Rightarrow>
               if sat_add now 5000 < newest then NoTrade ClockSkew 0
               else if sc_max_sample_age_ms cfg < sat_sub now newest then NoTrade StaleData 0
               else signal_evaluate fn s cfg)"

section \<open>The series is contiguous\<close>

definition series_step :: "u64 \<Rightarrow> u64 \<Rightarrow> observation \<Rightarrow> observation \<Rightarrow> bool" where
  "series_step min_interval max_gap a b \<longleftrightarrow>
     ob_ts_ms a \<le> ob_ts_ms b \<and> sat_add (ob_ts_ms a) min_interval \<le> ob_ts_ms b \<and> ob_ts_ms b - ob_ts_ms a \<le> max_gap"

definition price_ok :: "double \<Rightarrow> bool" where
  "price_ok p \<longleftrightarrow> (case p of Fin x \<Rightarrow> 0 < x | _ \<Rightarrow> False)"

definition series_wf :: "series \<Rightarrow> bool" where
  "series_wf s \<longleftrightarrow> 2 \<le> se_cap s \<and> length (se_samples s) \<le> se_cap s \<and> list_all (\<lambda>x. price_ok (ob_price x)) (se_samples s)
     \<and> successively (series_step (se_min_interval_ms s) (se_max_gap_ms s)) (se_samples s)"

definition push_all :: "observation list \<Rightarrow> series \<Rightarrow> series" where
  "push_all obs s = fold (\<lambda>x s. snd (series_push x s)) obs s"

lemma sat_add_ge: "x \<le> sat_add x (y :: 'a::len word)"
proof -
  have "unat x < 2 ^ LENGTH('a)" by (rule unsigned_less)
  then have "unat x \<le> 2 ^ LENGTH('a) - 1" by linarith
  then show ?thesis by (simp add: word_le_nat_alt unat_sat_add)
qed

lemma successively_tl: "successively P xs \<Longrightarrow> successively P (tl xs)"
  by (cases xs rule: list.exhaust) (auto simp: successively_Cons)

lemma price_ok_iff: "price_ok p \<longleftrightarrow> d_is_finite p \<and> d_lt (Fin 0) p"
  by (cases p) (simp_all add: price_ok_def d_is_finite_def)

lemma store_wf:
  assumes "series_wf s" "price_ok (ob_price obs)" "se_samples s = [] \<or> series_step (se_min_interval_ms s) (se_max_gap_ms s) (last (se_samples s)) obs"
  shows "series_wf (series_store obs s)"
proof -
  let ?xs = "if length (se_samples s) = se_cap s then tl (se_samples s) else se_samples s"
  have cap: "2 \<le> se_cap s" "length (se_samples s) \<le> se_cap s" using assms(1) by (simp_all add: series_wf_def)
  have "length ?xs < se_cap s" using cap by auto
  moreover have "list_all (\<lambda>x. price_ok (ob_price x)) ?xs"
    using assms(1) by (cases "se_samples s") (auto simp: series_wf_def)
  moreover have "successively (series_step (se_min_interval_ms s) (se_max_gap_ms s)) ?xs"
    using assms(1) successively_tl by (auto simp: series_wf_def)
  moreover have "?xs = [] \<or> last ?xs = last (se_samples s)"
    using cap by (cases "se_samples s") auto
  moreover have "?xs \<noteq> [] \<Longrightarrow> se_samples s \<noteq> []" by (cases "se_samples s") (auto split: if_splits)
  ultimately show ?thesis
    using assms(2,3) cap(1) by (auto simp: series_wf_def series_store_def successively_append_iff split: if_splits)
qed

lemma push_wf: "series_wf s \<Longrightarrow> series_wf (snd (series_push obs s))"
proof -
  assume s: "series_wf s"
  have reject: "series_wf (s\<lparr>se_rejected := n\<rparr>)" for n using s by (simp add: series_wf_def)
  have reset: "series_wf (s\<lparr>se_samples := [], se_resets := n\<rparr>)" for n using s by (simp add: series_wf_def)
  show ?thesis
  proof (cases "\<not> price_ok (ob_price obs) \<or> se_samples s = []")
    case True
    then show ?thesis using s reject store_wf [OF s] by (auto simp: series_push_def Let_def price_ok_iff)
  next
    case False
    let ?l = "ob_ts_ms (last (se_samples s))"
    consider "ob_ts_ms obs < sat_add ?l (se_min_interval_ms s)"
      | "\<not> ob_ts_ms obs < sat_add ?l (se_min_interval_ms s)" "se_max_gap_ms s < ob_ts_ms obs - ?l"
      | "\<not> ob_ts_ms obs < sat_add ?l (se_min_interval_ms s)" "\<not> se_max_gap_ms s < ob_ts_ms obs - ?l"
      by meson
    then show ?thesis
    proof cases
      case 1
      then show ?thesis using False reject by (simp add: series_push_def Let_def price_ok_iff)
    next
      case 2
      then show ?thesis using False store_wf [OF reset] by (simp add: series_push_def Let_def price_ok_iff)
    next
      case 3
      then have "series_step (se_min_interval_ms s) (se_max_gap_ms s) (last (se_samples s)) obs"
        using sat_add_ge [of ?l "se_min_interval_ms s"] by (auto simp: series_step_def not_less)
      then show ?thesis using 3 False store_wf [OF s] by (simp add: series_push_def Let_def price_ok_iff)
    qed
  qed
qed

lemma new_series_wf: "series_wf (series_new cap interval)" "series_wf (with_max_gap g (series_new cap interval))"
  by (simp_all add: series_wf_def series_new_def with_max_gap_def)

lemma push_all_wf: "series_wf (push_all obs (with_max_gap g (series_new cap interval)))"
proof -
  have "series_wf s \<Longrightarrow> series_wf (push_all obs s)" for s
    unfolding push_all_def by (induction obs arbitrary: s) (simp_all add: push_wf)
  then show ?thesis using new_series_wf(2) by blast
qed

text \<open>
  C34. A series holds what it promises: whatever is pushed, it keeps at most its capacity of samples (at least two), all with finite positive prices, in
  the order of their times, at least the sampling interval apart, and without a gap above the limit.
\<close>

theorem series_well_formed: "series_wf (push_all obs (with_max_gap g (series_new cap interval)))"
  by (rule push_all_wf)

section \<open>A warm series has its indicators\<close>

lemma ema_from_nonempty: "ema_from k e vs \<noteq> []"
  by (cases vs) simp_all

lemma ema_from_length: "length (ema_from k e vs) = Suc (length vs)"
  by (induction k e vs rule: ema_from.induct) simp_all

lemma ema_series_length: "0 < p \<Longrightarrow> p \<le> length xs \<Longrightarrow> length (ema_series xs p) = length xs - p + 1"
  by (simp add: ema_series_def ema_from_length)

lemma ema_Some: "0 < p \<Longrightarrow> p \<le> length xs \<Longrightarrow> \<exists>e. ema xs p = Some e"
  by (simp add: ema_def last_of_def ema_series_def ema_from_nonempty)

lemma rsi_Some: "0 < p \<Longrightarrow> p < length xs \<Longrightarrow> \<exists>r. rsi xs p = Some r"
  by (simp add: rsi_def Let_def split: prod.split)

lemma macd_Some:
  assumes "0 < fast" "fast < slow" "0 < signal" "slow + signal - 1 \<le> length xs"
  shows "\<exists>m s h. macd xs fast slow signal = Some (m, s, h)"
proof -
  let ?line = "map (\<lambda>i. d_sub (ema_series xs fast ! (i + (slow - fast))) (ema_series xs slow ! i)) [0..<length (ema_series xs slow)]"
  have len: "signal \<le> length ?line" using assms ema_series_length [of slow xs] by simp
  then obtain sig where "ema ?line signal = Some sig" using ema_Some [of signal ?line] assms(3) by blast
  moreover have "?line \<noteq> []" using len assms(3) by (metis le_zero_eq list.size(3) not_gr_zero)
  ultimately show ?thesis using assms(2,4) by (simp add: macd_def Let_def last_of_def)
qed

lemma volatility_Some: "max window 3 \<le> length xs \<Longrightarrow> \<exists>v. volatility_bps fn xs window = Some v"
  by (simp add: volatility_bps_def Let_def not_less del: max.bounded_iff)

lemma warm_indicators:
  assumes "signal_config_valid cfg" "warmup_samples cfg \<le> length (se_samples s)"
  obtains fast slow r m sig hist vol where "ema (series_prices s) (sc_ema_fast cfg) = Some fast"
    "ema (series_prices s) (sc_ema_slow cfg) = Some slow" "rsi (series_prices s) (sc_rsi_period cfg) = Some r"
    "macd (series_prices s) 12 26 9 = Some (m, sig, hist)" "volatility_bps fn (series_prices s) (sc_ema_slow cfg) = Some vol"
proof -
  have n: "length (series_prices s) = length (se_samples s)" by (simp add: series_prices_def)
  have w: "sc_ema_slow cfg \<le> length (se_samples s)" "34 \<le> length (se_samples s)" "sc_rsi_period cfg < length (se_samples s)"
    using assms(2) by (simp_all add: warmup_samples_def)
  have v: "1 \<le> sc_ema_fast cfg" "sc_ema_fast cfg < sc_ema_slow cfg" "2 \<le> sc_rsi_period cfg"
    using assms(1) by (simp_all add: signal_config_valid_def)
  show ?thesis
    using ema_Some [of "sc_ema_fast cfg" "series_prices s"] ema_Some [of "sc_ema_slow cfg" "series_prices s"]
      rsi_Some [of "sc_rsi_period cfg" "series_prices s"] macd_Some [of 12 26 9 "series_prices s"]
      volatility_Some [of "sc_ema_slow cfg" "series_prices s" fn] w v that
    by (auto simp: n)
qed

text \<open>The answer of the gate once every indicator is known.\<close>

definition gate_answer :: "signal_config \<Rightarrow> series \<Rightarrow> double \<Rightarrow> double \<Rightarrow> double \<Rightarrow> double \<Rightarrow> double \<Rightarrow> signal_decision" where
  "gate_answer cfg s fast slow r hist vol =
     (case liquidity_change_bps s (sc_ema_slow cfg) of
        None \<Rightarrow> NoTrade LiquidityUnavailable 0
      | Some liq \<Rightarrow>
          if d_le (sc_rsi_max cfg) r then NoTrade VetoOverbought 0
          else if d_le (sc_max_volatility_bps cfg) vol then NoTrade VetoVolatility 0
          else if liq \<le> sc_min_liquidity_change_bps cfg then NoTrade VetoLiquidityDraining 0
          else let score = signal_score cfg fast slow r hist liq
               in if sc_min_confidence cfg \<le> score then Trade score else NoTrade LowConfidence score)"

lemma evaluate_warm:
  assumes "signal_config_valid cfg" "warmup_samples cfg \<le> length (se_samples s)"
    and "ema (series_prices s) (sc_ema_fast cfg) = Some fast" "ema (series_prices s) (sc_ema_slow cfg) = Some slow"
    and "rsi (series_prices s) (sc_rsi_period cfg) = Some r" "macd (series_prices s) 12 26 9 = Some (m, sig, hist)"
    and "volatility_bps fn (series_prices s) (sc_ema_slow cfg) = Some vol"
  shows "signal_evaluate fn s cfg = gate_answer cfg s fast slow r hist vol"
  using assms by (simp add: signal_evaluate_def gate_answer_def Let_def)

text \<open>
  The indicators of a warm series are always available: with a valid configuration the gate never answers that an indicator is
  unavailable, so the number of warm-up samples is enough for every indicator the gate computes.
\<close>

theorem warmup_is_enough: "signal_evaluate_at fn s cfg now \<noteq> NoTrade IndicatorUnavailable c"
proof -
  have "signal_evaluate fn s cfg \<noteq> NoTrade IndicatorUnavailable c"
  proof (cases "signal_config_valid cfg \<and> warmup_samples cfg \<le> length (se_samples s)")
    case True
    then obtain fast slow r m sig hist vol where "ema (series_prices s) (sc_ema_fast cfg) = Some fast"
        "ema (series_prices s) (sc_ema_slow cfg) = Some slow" "rsi (series_prices s) (sc_rsi_period cfg) = Some r"
        "macd (series_prices s) 12 26 9 = Some (m, sig, hist)" "volatility_bps fn (series_prices s) (sc_ema_slow cfg) = Some vol"
      using warm_indicators [of cfg s fn] by blast
    from evaluate_warm [OF _ _ this] show ?thesis using True by (simp add: gate_answer_def Let_def split: option.split)
  qed (auto simp: signal_evaluate_def not_le)
  then show ?thesis by (auto simp: signal_evaluate_at_def split: option.split)
qed

section \<open>Prices of a pool\<close>

text \<open>A price the program reads is zero or between \<open>2 ^ -128\<close> and \<open>2 ^ 128\<close>: the square root is a 128-bit number.\<close>

definition read_price :: "double \<Rightarrow> bool" where
  "read_price p \<longleftrightarrow> (\<exists>sqrt_price input_is_token0. p = held_token_price sqrt_price input_is_token0)"

lemma pow2_bound: "2 powi k = d_bound 1 k"
  by (simp add: d_bound_def)

lemma pow2_repr: "-1074 \<le> k \<Longrightarrow> k \<le> 970 \<Longrightarrow> d_repr (2 powi k)"
  unfolding pow2_bound by (rule d_repr_bound) (simp add: d_bound_ok_def)

lemma d_mul_pow2:
  assumes "d_btw (2 powi (- a)) (2 powi a) x" "d_btw (2 powi (- a)) (2 powi a) y" "a \<le> 400"
  shows "d_btw (2 powi (- (2 * a))) (2 powi (2 * a)) (d_mul x y)"
proof -
  obtain v w where v: "x = Fin v" "2 powi (- a) \<le> v" "v \<le> 2 powi a" and w: "y = Fin w" "2 powi (- a) \<le> w" "w \<le> 2 powi a"
    using assms(1,2) by (auto elim!: d_btwE)
  have pos: "0 \<le> v" "0 \<le> w" "(0 :: rat) \<le> 2 powi a" "(0 :: rat) \<le> 2 powi (- a)"
    using order_trans [OF _ v(2), of 0] order_trans [OF _ w(2), of 0] by simp_all
  have p: "(2 :: rat) powi (2 * b) = 2 powi b * 2 powi b" for b unfolding mult_2 by (rule power_int_add) simp
  have n: "- (2 * a) = 2 * (- a)" by simp
  have "2 powi (- (2 * a)) \<le> v * w"
    unfolding n p by (rule mult_mono [OF v(2) w(2) pos(1,4)])
  moreover have "v * w \<le> 2 powi (2 * a)" unfolding p by (rule mult_mono [OF v(3) w(3) pos(3,2)])
  moreover have "(2 :: rat) powi (- a) \<le> 2 powi a" using v by simp
  then have "- a \<le> a" using power_int_strict_increasing [of a "- a" "2 :: rat"] by fastforce
  ultimately show ?thesis using assms(3) unfolding v(1) w(1) d_mul.simps by (intro d_btw_round pow2_repr) simp_all
qed

lemma d_div_pow2:
  assumes "d_btw (2 powi (- a)) (2 powi a) x" "d_btw (2 powi (- b)) (2 powi b) y" "0 \<le> a + b" "a + b \<le> 900"
  shows "d_btw (2 powi (- (a + b))) (2 powi (a + b)) (d_div x y)"
proof -
  obtain v w where v: "x = Fin v" "2 powi (- a) \<le> v" "v \<le> 2 powi a" and w: "y = Fin w" "2 powi (- b) \<le> w" "w \<le> 2 powi b"
    using assms(1,2) by (auto elim!: d_btwE)
  have wp: "0 < w" using less_le_trans [OF _ w(2), of 0] by simp
  have vp: "0 < v" using less_le_trans [OF _ v(2), of 0] by simp
  have lo: "2 powi (- (a + b)) * w \<le> v"
  proof -
    have "2 powi (- (a + b)) * w \<le> 2 powi (- (a + b)) * 2 powi b" using w by (intro mult_left_mono) simp_all
    also have "\<dots> = 2 powi (- a)" by (simp flip: power_int_add)
    finally show ?thesis using v(2) by linarith
  qed
  have hi: "v \<le> 2 powi (a + b) * w"
  proof -
    have "v \<le> 2 powi (a + b) * 2 powi (- b)" using v(3) by (simp flip: power_int_add)
    also have "\<dots> \<le> 2 powi (a + b) * w" using w by (intro mult_left_mono) simp_all
    finally show ?thesis .
  qed
  have "2 powi (- (a + b)) \<le> v / w" "v / w \<le> 2 powi (a + b)" using lo hi wp by (simp_all add: pos_le_divide_eq pos_divide_le_eq)
  moreover have "d_div x y = d_round (v / w)" using v(1) w(1) wp by simp
  ultimately show ?thesis using assms(3,4) by (simp only:) (intro d_btw_round pow2_repr; simp)
qed

lemma d_of_nat_pow2: "k \<le> 970 \<Longrightarrow> d_of_nat (2 ^ k) = Fin (2 ^ k)"
  using d_round_repr [OF pow2_repr, of "int k"] by (simp add: d_of_nat_def)

lemma read_price_range:
  assumes "read_price p"
  shows "p = Fin 0 \<or> d_btw (2 powi -128) (2 powi 128) p"
proof -
  obtain q b where p: "p = held_token_price q b" using assms by (auto simp: read_price_def)
  define s where "s = d_div (d_of_nat (unat q)) (d_of_nat (2 ^ 64))"
  show ?thesis
  proof (cases "q = 0")
    case True
    have "d_of_nat (2 ^ 64) = Fin (2 ^ 64)" by (rule d_of_nat_pow2) simp
    then have "p = Fin 0" unfolding p held_token_price_def True by (simp only: Let_def) (simp add: d_of_nat_def)
    then show ?thesis by simp
  next
    case False
    have "unat q < 2 ^ LENGTH(128)" by (rule unsigned_less)
    then have "unat q \<le> 2 ^ 128" by (intro less_imp_le) (simp only: len_bit0 len_num1, simp)
    then have q: "1 \<le> unat q" "unat q \<le> 2 ^ 128" using False unat_gt_0 [of q] by (simp_all add: Suc_le_eq)
    have q1: "(1 :: rat) \<le> of_nat (unat q)" "rat_of_nat (unat q) \<le> of_nat (2 ^ 128)" using q unfolding of_nat_le_iff by simp_all
    have "d_btw (2 powi 0) (2 powi 128) (d_of_nat (unat q))"
      unfolding d_of_nat_def using q1 by (intro d_btw_round pow2_repr) simp_all
    then obtain v where v: "d_of_nat (unat q) = Fin v" "1 \<le> v" "v \<le> 2 ^ 128" by (rule d_btwE) simp
    have "d_btw (2 powi -64) (2 powi 64) (d_round (v / 2 ^ 64))"
      using v by (intro d_btw_round pow2_repr) (simp_all add: power_int_minus field_simps)
    moreover have "s = d_round (v / 2 ^ 64)" using v(1) by (simp add: s_def d_of_nat_pow2 [of 64, simplified])
    ultimately have "d_btw (2 powi -64) (2 powi 64) s" by (simp only:)
    from d_mul_pow2 [OF this this] have m: "d_btw (2 powi -128) (2 powi 128) (d_mul s s)" by simp
    have one: "d_btw (2 powi (- 0)) (2 powi 0) (Fin 1)" by simp
    from d_div_pow2 [OF one, of 128 "d_mul s s"] m have d: "d_btw (2 powi -128) (2 powi 128) (d_div (Fin 1) (d_mul s s))" by simp
    have pos: "d_lt (Fin 0) (d_mul s s)"
      using m zero_less_power_int [of "2 :: rat" "-128"] by (auto elim!: d_btwE intro: less_le_trans)
    show ?thesis
    proof (cases b)
      case True
      then have "p = d_div (Fin 1) (d_mul s s)" using pos by (simp add: p held_token_price_def s_def Let_def)
      then show ?thesis using d by simp
    next
      case False
      then have "p = d_mul s s" by (simp add: p held_token_price_def s_def Let_def)
      then show ?thesis using m by simp
    qed
  qed
qed

section \<open>The relative strength index\<close>

lemma diffs_length: "length (diffs xs) = length xs - 1"
  by (induction xs rule: diffs.induct) simp_all

lemma diffs_range:
  assumes "-1074 \<le> k" "k \<le> 970"
  shows "list_all (d_in 0 1 k) xs \<Longrightarrow> list_all (d_in 1 1 k) (diffs xs)"
proof (induction xs rule: diffs.induct)
  case (1 x y zs)
  have "d_in (0 + 1) (1 + 0) k (d_sub y x)" using 1(2) assms by (intro d_in_sub) simp_all
  then show ?case using 1 by simp
qed simp_all

lemma gains_range: "list_all (d_in 1 1 k) ds \<Longrightarrow> list_all (d_in 0 1 k) (filter (d_lt (Fin 0)) ds)"
  and losses_range: "list_all (d_in 1 1 k) ds \<Longrightarrow> list_all (d_in 1 0 k) (filter (\<lambda>d. d_lt d (Fin 0)) ds)"
  by (auto simp: list_all_iff elim!: d_btwE dest!: bspec)

lemma d_pred: "1 \<le> p \<Longrightarrow> p \<le> 2 ^ 53 \<Longrightarrow> d_sub (d_of_nat p) (Fin 1) = Fin (of_nat (p - 1))"
proof -
  assume p: "1 \<le> p" "p \<le> 2 ^ 53"
  then have "p - 1 \<le> 2 ^ 53" by linarith
  then have "d_round (of_nat p - 1) = Fin (of_nat p - 1)"
    using d_of_nat_exact [of "p - 1"] p(1) by (simp add: d_of_nat_def of_nat_diff)
  then show ?thesis using p by (simp add: d_of_nat_exact of_nat_diff)
qed

lemma smooth_range:
  assumes "1 \<le> p" "p \<le> 2 ^ 53" "-1074 \<le> k" "k \<le> 970" "d_in 0 1 k old" "d_in 0 1 k new"
  shows "d_in 0 1 k (d_div (d_add (d_mul old (d_sub (d_of_nat p) (Fin 1))) new) (d_of_nat p))"
proof -
  have "d_in (0 * (p - 1)) (1 * (p - 1)) k (d_mul old (Fin (of_nat (p - 1))))"
    using assms by (intro d_in_mul_nat) simp_all
  then have "d_in (0 + 0) ((p - 1) + 1) k (d_add (d_mul old (Fin (of_nat (p - 1)))) new)"
    using assms by (intro d_in_add) simp_all
  then have "d_in (0 * p) (1 * p) k (d_add (d_mul old (Fin (of_nat (p - 1)))) new)" using assms(1) by simp
  then show ?thesis unfolding d_pred [OF assms(1,2)] using assms(1-4) by (intro d_in_div_nat) simp_all
qed

lemma wilder_range:
  assumes "1 \<le> p" "p \<le> 2 ^ 53" "-1074 \<le> k" "k \<le> 970"
  shows "d_in 0 1 k gain \<Longrightarrow> d_in 0 1 k loss \<Longrightarrow> list_all (d_in 1 1 k) ds \<Longrightarrow> wilder p (gain, loss) ds = (g, l)
    \<Longrightarrow> d_in 0 1 k g \<and> d_in 0 1 k l"
proof (induction ds arbitrary: gain loss)
  case (Cons d ds)
  have "d_in 0 1 k (d_max d (Fin 0))" "d_in 0 1 k (d_max (d_neg d) (Fin 0))"
    using Cons.prems(3) by (auto elim!: d_btwE)
  with Cons.prems smooth_range [OF assms] show ?case by (intro Cons.IH) (auto simp: Let_def)
qed simp

lemma index_range:
  assumes "0 \<le> g" "0 < l"
  shows "d_btw 0 100 (d_sub (Fin 100) (d_div (Fin 100) (d_add (Fin 1) (d_div (Fin g) (Fin l)))))"
proof -
  have repr: "d_repr 0" "d_repr 1" "d_repr 100"
    using d_repr_bound(1) [of 0 0] d_repr_bound(1) [of 1 0] d_repr_bound(1) [of 100 0] by (simp_all add: d_bound_ok_def d_bound_def)
  have "d_div (Fin g) (Fin l) = PInf \<or> (\<exists>y. d_div (Fin g) (Fin l) = Fin y \<and> 0 \<le> y)"
    using d_round_ge [OF repr(1), of "g / l"] assms by simp
  then have "d_add (Fin 1) (d_div (Fin g) (Fin l)) = PInf \<or> (\<exists>z. d_add (Fin 1) (d_div (Fin g) (Fin l)) = Fin z \<and> 1 \<le> z)"
  proof (elim disjE exE conjE)
    fix y assume "d_div (Fin g) (Fin l) = Fin y" "0 \<le> y"
    then show ?thesis using d_round_ge [OF repr(2), of "1 + y"] by (simp only: d_add.simps)
  qed simp
  then have "d_btw 0 100 (d_div (Fin 100) (d_add (Fin 1) (d_div (Fin g) (Fin l))))"
  proof (elim disjE exE conjE)
    fix z assume z: "d_add (Fin 1) (d_div (Fin g) (Fin l)) = Fin z" "1 \<le> z"
    have "d_btw 0 100 (d_round (100 / z))" using z(2) by (intro d_btw_round repr) (simp_all add: pos_divide_le_eq)
    then show ?thesis using z by simp
  qed simp
  then obtain w where "d_div (Fin 100) (d_add (Fin 1) (d_div (Fin g) (Fin l))) = Fin w" "0 \<le> w" "w \<le> 100" by (rule d_btwE)
  then show ?thesis by (simp only: d_sub_Fin) (intro d_btw_round repr, simp_all)
qed

text \<open>
  The relative strength index is what its name says: in double precision with all its roundings, infinities included, it is a number between 0
  and 100 for every list of prices from zero to \<open>2 ^ 128\<close>.
\<close>

lemma rsi_in_range:
  assumes "list_all (d_in 0 1 k) values" "0 \<le> k" "k \<le> 900" "length values \<le> 2 ^ 53" "rsi values period = Some r"
  shows "d_btw 0 100 r"
proof -
  have period: "1 \<le> period" "period + 1 \<le> length values" using assms(5) by (auto simp: rsi_def split: if_splits)
  have p53: "period \<le> 2 ^ 53" using period assms(4) by linarith
  have k: "-1074 \<le> k" "k \<le> 970" using assms(2,3) by simp_all
  let ?ds = "diffs values"
  have ds: "list_all (d_in 1 1 k) ?ds" using assms(1) k by (intro diffs_range)
  then have tds: "list_all (d_in 1 1 k) (take period ?ds)" "list_all (d_in 1 1 k) (drop period ?ds)"
    by (auto simp: list_all_iff dest: in_set_takeD in_set_dropD)
  have len: "length (filter P (take period ?ds)) \<le> period" for P
    using length_filter_le [of P "take period ?ds"] by (rule order_trans) simp
  define gs where "gs = filter (d_lt (Fin 0)) (take period ?ds)"
  define lo where "lo = filter (\<lambda>d. d_lt d (Fin 0)) (take period ?ds)"
  have gl: "length gs \<le> period" "length lo \<le> period" using len by (simp_all add: gs_def lo_def)
  have "d_in (0 * (0 + length gs)) (1 * (0 + length gs)) k (d_sum gs)" unfolding d_sum_def
    using gains_range [OF tds(1)] gl p53 k by (intro d_in_foldl) (simp_all add: gs_def)
  then have "d_in (0 * period) (1 * period) k (d_sum gs)" using gl by (elim d_in_mono) simp_all
  then have gain: "d_in 0 1 k (d_div (d_sum gs) (d_of_nat period))" using period p53 k by (intro d_in_div_nat) simp_all
  have "d_in (1 * (0 + length lo)) (0 * (0 + length lo)) k (d_sum lo)" unfolding d_sum_def
    using losses_range [OF tds(1)] gl p53 k by (intro d_in_foldl) (simp_all add: lo_def)
  then have "d_in (1 * period) (0 * period) k (d_sum lo)" using gl by (elim d_in_mono) simp_all
  then have "d_in (0 * period) (1 * period) k (d_neg (d_sum lo))" by (rule d_in_neg)
  then have loss: "d_in 0 1 k (d_div (d_neg (d_sum lo)) (d_of_nat period))" using period p53 k by (intro d_in_div_nat) simp_all
  obtain g l where w: "wilder period (d_div (d_sum gs) (d_of_nat period), d_div (d_neg (d_sum lo)) (d_of_nat period)) (drop period ?ds) = (g, l)"
    by fastforce
  from wilder_range [OF period(1) p53 k gain loss tds(2) w] obtain gv lv where
    v: "g = Fin gv" "l = Fin lv" "0 \<le> gv" "0 \<le> lv" by (auto elim!: d_btwE)
  have "rsi values period = (if d_eq l (Fin 0) then Some (if d_eq g (Fin 0) then Fin 50 else Fin 100)
      else Some (d_sub (Fin 100) (d_div (Fin 100) (d_add (Fin 1) (d_div g l)))))"
    using period w by (simp add: rsi_def Let_def gs_def lo_def)
  then show ?thesis using assms(5) index_range [of gv lv] v by (auto simp: d_eq_def split: if_splits)
qed

section \<open>The volatility\<close>

text \<open>
  What the standard library documents of its two functions on finite values, as far as the gate needs it: logarithms of ratios of pool prices
  are small, and a square root of a non-negative number lies between zero and the larger of the number and one.
\<close>

definition libm_bounded :: "f64_functions \<Rightarrow> bool" where
  "libm_bounded fn \<longleftrightarrow>
     (\<forall>x. 2 powi -256 \<le> x \<and> x \<le> 2 powi 256 \<longrightarrow> d_btw (- 1024) 1024 (fn_ln fn (Fin x)))
     \<and> (\<forall>x\<ge>0. d_btw 0 (max 1 x) (fn_sqrt fn (Fin x)))"

lemma log_returns_length: "length (log_returns fn xs) = length xs - 1"
  by (induction fn xs rule: log_returns.induct) simp_all

lemma log_returns_range:
  assumes "libm_bounded fn"
  shows "list_all (d_btw (2 powi -128) (2 powi 128)) xs \<Longrightarrow> list_all (d_in 1 1 10) (log_returns fn xs)"
proof (induction xs rule: diffs.induct)
  case (1 x y zs)
  have "d_btw (2 powi -256) (2 powi 256) (d_div y x)" using d_div_pow2 [of 128 y 128 x] 1(2) by simp
  then obtain q where "d_div y x = Fin q" "2 powi -256 \<le> q" "q \<le> 2 powi 256" by (rule d_btwE)
  then have "d_in 1 1 10 (fn_ln fn (d_div y x))" using assms by (simp add: libm_bounded_def d_bound_def)
  then show ?case using 1 by simp
qed simp_all

lemma mean_range:
  assumes "list_all (d_in a b k) xs" "xs \<noteq> []" "a * length xs \<le> 2 ^ 53" "b * length xs \<le> 2 ^ 53" "length xs \<le> 2 ^ 53"
    "a \<le> 2 ^ 53" "b \<le> 2 ^ 53" "-1074 \<le> k" "k \<le> 970"
  shows "d_in a b k (mean_of xs)"
proof -
  have "d_in (a * (0 + length xs)) (b * (0 + length xs)) k (d_sum xs)" unfolding d_sum_def
    using assms by (intro d_in_foldl) simp_all
  then show ?thesis unfolding mean_of_def using assms by (intro d_in_div_nat) simp_all
qed

lemma square_range: "d_in 2 2 10 x \<Longrightarrow> d_in 0 1 22 (d_mul x x)"
proof (erule d_btwE)
  fix v assume v: "x = Fin v" "- d_bound 2 10 \<le> v" "v \<le> d_bound 2 10"
  have "\<bar>v\<bar> \<le> 2048" using v by (simp add: d_bound_def)
  then have "v * v \<le> 2048 * 2048" using mult_mono [of "\<bar>v\<bar>" 2048 "\<bar>v\<bar>" 2048] by simp
  then have "d_in 0 1 22 (d_round (v * v))" by (intro d_in_round) (simp_all add: d_bound_def)
  then show "d_in 0 1 22 (d_mul x x)" using v by simp
qed

lemma volatility_in_range:
  assumes "libm_bounded fn" "list_all (d_btw (2 powi -128) (2 powi 128)) values" "length values \<le> 2 ^ 50"
    "volatility_bps fn values window = Some v"
  shows "d_btw 0 (2 powi 36) v"
proof -
  define tail where "tail = drop (length values - max window 3) values"
  define rets where "rets = log_returns fn tail"
  define sq where "sq = map (\<lambda>r. d_mul (d_sub r (mean_of rets)) (d_sub r (mean_of rets))) rets"
  have w: "max window 3 \<le> length values" using assms(4) by (auto simp: volatility_bps_def split: if_splits)
  have v: "v = d_mul (fn_sqrt fn (mean_of sq)) (Fin 10000)"
    using assms(4) w by (simp add: volatility_bps_def Let_def tail_def rets_def sq_def not_less del: max.bounded_iff)
  have lt: "length tail = max window 3" using w by (simp add: tail_def)
  have len: "length rets \<le> 2 ^ 50" "rets \<noteq> []"
    using lt w assms(3) log_returns_length [of fn tail] by (auto simp: rets_def max_def split: if_splits)
  have "list_all (d_btw (2 powi -128) (2 powi 128)) tail" using assms(2) by (auto simp: tail_def list_all_iff dest: in_set_dropD)
  then have rets: "list_all (d_in 1 1 10) rets" unfolding rets_def by (rule log_returns_range [OF assms(1)])
  have mean: "d_in 1 1 10 (mean_of rets)" using rets len by (intro mean_range) simp_all
  have "list_all (d_in 0 1 22) sq" unfolding sq_def list_all_iff set_map ball_simps
  proof (intro ballI square_range)
    fix r assume "r \<in> set rets"
    then have "d_in 1 1 10 r" using rets by (simp add: list_all_iff)
    then have "d_in (1 + 1) (1 + 1) 10 (d_sub r (mean_of rets))" using mean by (intro d_in_sub) simp_all
    then show "d_in 2 2 10 (d_sub r (mean_of rets))" by (simp add: numeral_2_eq_2)
  qed
  then have "d_in 0 1 22 (mean_of sq)" using len by (intro mean_range) (simp_all add: sq_def)
  then obtain var where var: "mean_of sq = Fin var" "0 \<le> var" "var \<le> 2 ^ 22" by (auto simp: d_bound_def elim!: d_btwE)
  then have "d_btw 0 (max 1 var) (fn_sqrt fn (Fin var))" using assms(1) by (simp add: libm_bounded_def)
  then obtain q where q: "fn_sqrt fn (Fin var) = Fin q" "0 \<le> q" "q \<le> 2 ^ 22" using var by (auto elim!: d_btwE)
  then have "d_btw 0 (2 powi 36) (d_round (q * 10000))"
    using d_repr_bound(1) [of 0 0] by (intro d_btw_round pow2_repr) (simp_all add: d_bound_ok_def)
  then show ?thesis using v var(1) q(1) by simp
qed

section \<open>A trade\<close>

lemma score_bound: "signal_score cfg fast slow r hist liq \<le> 100"
  by (simp add: signal_score_def)

text \<open>
  A volatility that is not a number passes the veto: \<open>vol >= cap\<close> is false of NaN.  Two finite positive prices are enough, when their
  ratio overflows: \<open>is_finite\<close> is tested on the prices and not on the indicators.
\<close>

lemma infinite_return: "d_div (Fin (2 powi 900)) (Fin (2 powi -900)) = PInf"
proof -
  have r: "round64 (of_int 1 * 2 powi 1800) = of_int 1 * 2 powi 1800" by (rule round64_exact) simp_all
  have "d_huge \<le> 2 powi 1800" unfolding d_huge_def by (rule power_int_increasing) simp_all
  then have "d_round (2 powi 1800) = PInf" using r by (simp only: d_round_def Let_def of_int_1 mult_1 if_True)
  moreover have "2 powi 900 / 2 powi -900 = (2 :: rat) powi 1800"
    using power_int_diff [of "2 :: rat" 900 "-900"] by (simp only: diff_minus_eq_add) (simp only: zero_neq_numeral not_False_eq_True disjI1, simp only: numeral_plus_numeral add_num_simps)
  moreover have "(2 :: rat) powi -900 \<noteq> 0" using zero_less_power_int [of "2 :: rat" "-900"] by (metis less_irrefl zero_less_numeral)
  ultimately show ?thesis by (simp only: d_div.simps if_False)
qed

lemma nan_volatility_passes:
  assumes "fn_ln fn PInf = PInf" "fn_sqrt fn NaN = NaN" "fn_ln fn (Fin 1) = Fin 0"
  shows "volatility_bps fn [Fin (2 powi -900), Fin (2 powi -900), Fin (2 powi 900)] 3 = Some NaN"
    and "\<not> d_le (sc_max_volatility_bps cfg) NaN"
proof -
  have one: "d_div (Fin (2 powi -900)) (Fin (2 powi -900)) = Fin 1"
  proof -
    have nz: "(2 :: rat) powi -900 \<noteq> 0" using zero_less_power_int [of "2 :: rat" "-900"] by (metis less_irrefl zero_less_numeral)
    then have "2 powi -900 / (2 :: rat) powi -900 = 1" by (rule divide_self)
    with nz show ?thesis by (simp only: d_div.simps if_False d_round_1)
  qed
  have rets: "log_returns fn [Fin (2 powi -900), Fin (2 powi -900), Fin (2 powi 900)] = [Fin 0, PInf]"
    by (simp only: log_returns.simps infinite_return one assms)
  have two: "d_of_nat (Suc (Suc 0)) = Fin 2" using d_of_nat_exact [of "Suc (Suc 0)"] by simp
  have m: "mean_of [Fin 0, PInf] = PInf" by (simp add: mean_of_def d_sum_def two d_inf_def d_sign_def)
  have var: "mean_of (map (\<lambda>r. d_mul (d_sub r PInf) (d_sub r PInf)) [Fin 0, PInf]) = NaN"
    by (simp add: mean_of_def d_sum_def two d_sub_def d_inf_def d_sign_def)
  have "volatility_bps fn [Fin (2 powi -900), Fin (2 powi -900), Fin (2 powi 900)] 3
      = Some (d_mul (fn_sqrt fn (mean_of (map (\<lambda>r. d_mul (d_sub r (mean_of [Fin 0, PInf])) (d_sub r (mean_of [Fin 0, PInf]))) [Fin 0, PInf]))) (Fin 10000))"
    unfolding volatility_bps_def Let_def using rets by simp
  then show "volatility_bps fn [Fin (2 powi -900), Fin (2 powi -900), Fin (2 powi 900)] 3 = Some NaN"
    unfolding m var by (simp add: assms)
  show "\<not> d_le (sc_max_volatility_bps cfg) NaN" by simp
qed

lemma pushed_from:
  assumes "list_all (\<lambda>x. P (ob_price x)) (se_samples s)" "list_all (\<lambda>x. P (ob_price x)) obs"
  shows "list_all (\<lambda>x. P (ob_price x)) (se_samples (push_all obs s))"
  using assms
proof (induction obs arbitrary: s)
  case (Cons x obs)
  have "list_all (\<lambda>x. P (ob_price x)) (se_samples (snd (series_push x s)))"
    using Cons.prems by (cases "se_samples s") (auto simp: series_push_def series_store_def Let_def)
  then show ?case using Cons by (simp add: push_all_def)
qed (simp add: push_all_def)

lemma push_all_cap: "se_cap (push_all obs s) = se_cap s"
proof (induction obs arbitrary: s)
  case (Cons x obs)
  have "se_cap (snd (series_push x s)) = se_cap s" by (simp add: series_push_def series_store_def Let_def)
  then show ?case using Cons [of "snd (series_push x s)"] by (simp add: push_all_def)
qed (simp add: push_all_def)

text \<open>The indicators over prices of pools are numbers.\<close>

lemma read_prices_in_range:
  assumes "list_all (\<lambda>x. read_price (ob_price x)) obs" "s = push_all obs (with_max_gap g (series_new cap interval))"
  shows "list_all (d_btw (2 powi -128) (2 powi 128)) (series_prices s)" "list_all (d_in 0 1 128) (series_prices s)"
proof -
  have "list_all (\<lambda>x. read_price (ob_price x)) (se_samples s)" unfolding assms(2)
    by (rule pushed_from [OF _ assms(1)]) (simp add: with_max_gap_def series_new_def)
  moreover have "list_all (\<lambda>x. price_ok (ob_price x)) (se_samples s)"
    using push_all_wf [of obs g cap interval] by (simp add: assms(2) series_wf_def)
  ultimately show r: "list_all (d_btw (2 powi -128) (2 powi 128)) (series_prices s)"
    using read_price_range by (fastforce simp: list_all_iff series_prices_def price_ok_def)
  have "(0 :: rat) \<le> 2 powi -128" by simp
  then show "list_all (d_in 0 1 128) (series_prices s)"
    using r unfolding list_all_iff pow2_bound by (auto elim!: d_btw_mono)
qed

text \<open>
  C33. What a trade signal rests on: for a series that was only pushed to, the gate answers to trade only with a valid configuration, a newest
  sample that is fresh and not from the future, at least 34 samples with finite positive prices in order and without gaps, an index
  that is not at or above the overbought limit, a volatility that is not at or above its cap, a liquidity that was known and did not
  drain, and a score from the configured minimum to 100.  "Not at or above" is all the comparisons of the code promise, since they are
  false of NaN (\<open>nan_volatility_passes\<close>); but when the prices are prices of pools, as every price the program pushes is
  (\<open>held_token_price\<close>), and the two functions of the standard library keep their documented bounds, then no indicator overflows:
  the index is a number from 0 to 100 strictly below its limit, and the volatility a number strictly below its cap.
\<close>

theorem trade_rests_on_fresh_data:
  assumes "s = push_all obs (with_max_gap g (series_new cap interval))" "signal_evaluate_at fn s cfg now = Trade c"
  shows "signal_config_valid cfg \<and> 34 \<le> length (se_samples s)
    \<and> (\<exists>newest. last_ts_ms s = Some newest \<and> newest \<le> sat_add now 5000 \<and> sat_sub now newest \<le> sc_max_sample_age_ms cfg)
    \<and> list_all (\<lambda>x. price_ok (ob_price x)) (se_samples s)
    \<and> successively (series_step (se_min_interval_ms s) (se_max_gap_ms s)) (se_samples s)
    \<and> (\<exists>r vol liq. rsi (series_prices s) (sc_rsi_period cfg) = Some r \<and> \<not> d_le (sc_rsi_max cfg) r
         \<and> volatility_bps fn (series_prices s) (sc_ema_slow cfg) = Some vol \<and> \<not> d_le (sc_max_volatility_bps cfg) vol
         \<and> liquidity_change_bps s (sc_ema_slow cfg) = Some liq \<and> sc_min_liquidity_change_bps cfg < liq
         \<and> (list_all (\<lambda>x. read_price (ob_price x)) obs \<and> libm_bounded fn \<and> cap \<le> 2 ^ 50 \<longrightarrow>
              (\<exists>i v. r = Fin i \<and> 0 \<le> i \<and> i \<le> 100 \<and> d_lt r (sc_rsi_max cfg)
                \<and> vol = Fin v \<and> 0 \<le> v \<and> d_lt vol (sc_max_volatility_bps cfg))))
    \<and> sc_min_confidence cfg \<le> c \<and> c \<le> 100"
proof -
  have valid: "signal_config_valid cfg" and run: "signal_evaluate fn s cfg = Trade c"
    and fresh: "\<exists>newest. last_ts_ms s = Some newest \<and> newest \<le> sat_add now 5000 \<and> sat_sub now newest \<le> sc_max_sample_age_ms cfg"
    using assms(2) by (auto simp: signal_evaluate_at_def not_less split: if_splits option.splits)
  have warm: "warmup_samples cfg \<le> length (se_samples s)"
    using run by (auto simp: signal_evaluate_def not_less split: if_splits)
  from warm_indicators [OF valid warm, of fn] obtain fast slow r m sig hist vol
    where ind: "ema (series_prices s) (sc_ema_fast cfg) = Some fast" "ema (series_prices s) (sc_ema_slow cfg) = Some slow"
      "rsi (series_prices s) (sc_rsi_period cfg) = Some r" "macd (series_prices s) 12 26 9 = Some (m, sig, hist)"
      "volatility_bps fn (series_prices s) (sc_ema_slow cfg) = Some vol" .
  have "gate_answer cfg s fast slow r hist vol = Trade c" using evaluate_warm [OF valid warm ind] run by simp
  then obtain liq where liq: "liquidity_change_bps s (sc_ema_slow cfg) = Some liq" "\<not> d_le (sc_rsi_max cfg) r"
      "\<not> d_le (sc_max_volatility_bps cfg) vol" "sc_min_liquidity_change_bps cfg < liq" "sc_min_confidence cfg \<le> c"
      "c = signal_score cfg fast slow r hist liq"
    by (auto simp: gate_answer_def Let_def not_le split: option.splits if_splits)
  have wf: "series_wf s" unfolding assms(1) by (rule push_all_wf)
  have nums: "\<exists>i v. r = Fin i \<and> 0 \<le> i \<and> i \<le> 100 \<and> d_lt r (sc_rsi_max cfg) \<and> vol = Fin v \<and> 0 \<le> v \<and> d_lt vol (sc_max_volatility_bps cfg)"
    if pools: "list_all (\<lambda>x. read_price (ob_price x)) obs" and libm: "libm_bounded fn" and cap: "cap \<le> 2 ^ 50"
  proof -
    note range = read_prices_in_range [OF pools assms(1)]
    have "se_cap s = max cap 2" by (simp add: assms(1) push_all_cap with_max_gap_def series_new_def)
    then have len: "length (series_prices s) \<le> 2 ^ 50" using wf cap by (auto simp: series_wf_def series_prices_def max_def split: if_splits)
    have "d_btw 0 100 r" by (rule rsi_in_range [OF range(2) _ _ _ ind(3)]) (use len in simp_all)
    moreover have "d_btw 0 (2 powi 36) vol" by (rule volatility_in_range [OF libm range(1) len ind(5)])
    ultimately obtain i v where "r = Fin i" "0 \<le> i" "i \<le> 100" "vol = Fin v" "0 \<le> v" by (auto elim!: d_btwE)
    then show ?thesis using liq(2,3) valid
      by (cases "sc_rsi_max cfg"; cases "sc_max_volatility_bps cfg") (auto simp: signal_config_valid_def d_is_finite_def not_le)
  qed
  have "34 \<le> length (se_samples s)" using warm by (simp add: warmup_samples_def)
  with valid fresh ind liq nums wf score_bound show ?thesis unfolding series_wf_def by blast
qed

text \<open>A flat market, on which a configuration without a minimum score trades.\<close>

fun flat :: "nat \<Rightarrow> u64 \<Rightarrow> observation list" where
  "flat 0 t = []"
| "flat (Suc n) t = \<lparr> ob_ts_ms = t, ob_price = Fin 1, ob_liquidity = 1000 \<rparr> # flat n (t + 2000)"

lemma push_flat:
  assumes "unat t + 2000 * n < 2 ^ 63" "length (se_samples s) + n \<le> se_cap s" "se_min_interval_ms s = 2000" "2000 \<le> se_max_gap_ms s"
    and "se_samples s = [] \<or> ob_ts_ms (last (se_samples s)) + 2000 = t \<and> 2000 \<le> t"
  shows "se_samples (push_all (flat n t) s) = se_samples s @ flat n t"
  using assms
proof (induction n arbitrary: t s)
  case (Suc n)
  let ?o = "\<lparr> ob_ts_ms = t, ob_price = Fin 1, ob_liquidity = 1000 \<rparr>"
  have "snd (series_push ?o s) = s\<lparr>se_samples := se_samples s @ [?o]\<rparr>"
  proof (cases "se_samples s = []")
    case False
    then have l: "ob_ts_ms (last (se_samples s)) = t - 2000" "2000 \<le> t" using Suc.prems(5) by (auto simp: algebra_simps)
    then have "unat (t - 2000) + 2000 = unat t" by (simp add: unat_sub word_le_nat_alt)
    then have "sat_add (t - 2000) 2000 = t" using Suc.prems(1) by (simp add: sat_add_def)
    then show ?thesis using False l Suc.prems(2-4) by (simp add: series_push_def series_store_def Let_def not_less [symmetric])
  qed (use Suc.prems(2) in \<open>simp add: series_push_def series_store_def\<close>)
  moreover have "unat (t + 2000) + 2000 * n < 2 ^ 63" "2000 \<le> t + 2000"
    using Suc.prems(1) by (simp_all add: unat_add_small word_le_nat_alt)
  ultimately show ?case
    using Suc.IH [of "t + 2000" "s\<lparr>se_samples := se_samples s @ [?o]\<rparr>"] Suc.prems(2-4) by (simp add: push_all_def)
qed (simp add: push_all_def)

lemma flat_length: "length (flat n t) = n"
  by (induction n arbitrary: t) simp_all

lemma flat_prices: "map ob_price (flat n t) = replicate n (Fin 1)" "map ob_liquidity (flat n t) = replicate n 1000"
  by (induction n arbitrary: t) simp_all

lemma flat_last: "ob_ts_ms (last (flat (Suc n) t)) = t + 2000 * of_nat n"
proof (induction n arbitrary: t)
  case (Suc n)
  have "last (flat (Suc (Suc n)) t) = last (flat (Suc n) (t + 2000))" by simp
  then show ?case using Suc [of "t + 2000"] by (simp only:) (simp add: algebra_simps)
qed simp

definition flat_series :: series where
  "flat_series = push_all (flat 34 1000) (with_max_gap 0 (series_new 64 2000))"

definition flat_functions :: f64_functions where
  "flat_functions = \<lparr> fn_ln = (\<lambda>_. Fin 0), fn_sqrt = (\<lambda>_. Fin 0) \<rparr>"

definition flat_config :: signal_config where
  "flat_config = default_signal_config\<lparr>sc_min_confidence := 0, sc_max_sample_age_ms := 200000\<rparr>"

lemma flat_samples: "se_samples flat_series = flat 34 1000"
  unfolding flat_series_def
  by (subst push_flat) (simp_all add: series_new_def with_max_gap_def DEFAULT_MAX_GAP_MS_def sat_mul_def word_le_nat_alt)

lemma diffs_flat: "diffs (replicate (Suc n) (Fin 1)) = replicate n (Fin 0)"
  by (induction n) simp_all

lemma zero_div: "1 \<le> p \<Longrightarrow> p \<le> 2 ^ 53 \<Longrightarrow> d_div (Fin 0) (d_of_nat p) = Fin 0"
  by (simp add: d_of_nat_exact)

lemma wilder_flat: "1 \<le> p \<Longrightarrow> p \<le> 2 ^ 53 \<Longrightarrow> wilder p (Fin 0, Fin 0) (replicate n (Fin 0)) = (Fin 0, Fin 0)"
  by (induction n) (simp_all add: Let_def d_pred [unfolded One_nat_def] zero_div [unfolded One_nat_def] del: d_sub_Fin)

lemma rsi_flat: "0 < p \<Longrightarrow> p < n \<Longrightarrow> p \<le> 2 ^ 53 \<Longrightarrow> rsi (replicate n (Fin 1)) p = Some (Fin 50)"
proof -
  assume p: "0 < p" "p < n" "p \<le> 2 ^ 53"
  then obtain m where n: "n = Suc m" by (cases n) auto
  show ?thesis
    using p unfolding n rsi_def diffs_flat
    by (simp add: d_sum_def zero_div wilder_flat d_eq_def Let_def)
qed

lemma vol_flat: "max w 3 \<le> length xs \<Longrightarrow> volatility_bps flat_functions xs w = Some (Fin 0)"
  by (simp add: volatility_bps_def flat_functions_def Let_def not_less del: max.bounded_iff)

lemma liquidity_flat: "liquidity_change_bps flat_series 20 = Some 0"
proof -
  have l: "ob_liquidity (flat 34 1000 ! i) = 1000" if "i < 34" for i
    using that flat_prices(2) [of 34 1000] nth_map [of i "flat 34 1000" ob_liquidity] by (simp add: flat_length)
  show ?thesis
    by (simp add: liquidity_change_bps_def flat_samples flat_length l Let_def)
qed

lemma flat_trades: "\<exists>c. signal_evaluate_at flat_functions flat_series flat_config 100000 = Trade c"
proof -
  have valid: "signal_config_valid flat_config" by (simp add: signal_config_valid_def flat_config_def default_signal_config_def d_is_finite_def)
  have warm: "warmup_samples flat_config \<le> length (se_samples flat_series)"
    by (simp add: warmup_samples_def flat_config_def default_signal_config_def flat_samples flat_length)
  have prices: "series_prices flat_series = replicate 34 (Fin 1)" by (simp add: series_prices_def flat_samples flat_prices)
  from warm_indicators [OF valid warm, of flat_functions] obtain fast slow r m sig hist vol
    where ind: "ema (series_prices flat_series) (sc_ema_fast flat_config) = Some fast"
      "ema (series_prices flat_series) (sc_ema_slow flat_config) = Some slow"
      "rsi (series_prices flat_series) (sc_rsi_period flat_config) = Some r" "macd (series_prices flat_series) 12 26 9 = Some (m, sig, hist)"
      "volatility_bps flat_functions (series_prices flat_series) (sc_ema_slow flat_config) = Some vol" .
  have r: "r = Fin 50" using ind(3) rsi_flat [of 14 34] by (simp add: prices flat_config_def default_signal_config_def)
  have v: "vol = Fin 0" using ind(5) vol_flat [of 20 "replicate 34 (Fin 1)"] by (simp add: prices flat_config_def default_signal_config_def)
  have "gate_answer flat_config flat_series fast slow r hist vol = Trade (signal_score flat_config fast slow r hist 0)"
    using liquidity_flat by (simp add: gate_answer_def r v flat_config_def default_signal_config_def)
  then have "signal_evaluate flat_functions flat_series flat_config = Trade (signal_score flat_config fast slow r hist 0)"
    using evaluate_warm [OF valid warm ind] by simp
  moreover have "last_ts_ms flat_series = Some 67000"
    using flat_last [of 33 1000] flat_length [of 34 1000] by (auto simp: last_ts_ms_def flat_samples)
  moreover have "sc_max_sample_age_ms flat_config = 200000" by (simp add: flat_config_def)
  ultimately show ?thesis
    using valid by (simp add: signal_evaluate_at_def sat_add_def sat_sub_def word_less_nat_alt)
qed

lemma flat_read_prices: "list_all (\<lambda>x. read_price (ob_price x)) (flat n t)"
proof -
  have "d_of_nat (2 ^ 64) = Fin (2 ^ 64)" by (rule d_of_nat_pow2) simp
  moreover have "unat (2 ^ 64 :: u128) = 2 ^ 64" by simp
  ultimately have "held_token_price (2 ^ 64) False = Fin 1" unfolding held_token_price_def by (simp only: Let_def) simp
  then have "read_price (Fin 1)" unfolding read_price_def by metis
  then show ?thesis by (induction n arbitrary: t) simp_all
qed

theorem trade_rests_on_fresh_data_witness:
  "34 \<le> length (se_samples flat_series)
   \<and> (\<exists>v. volatility_bps flat_functions (series_prices flat_series) 20 = Some (Fin v) \<and> v < 800)"
proof -
  obtain c where c: "signal_evaluate_at flat_functions flat_series flat_config 100000 = Trade c" using flat_trades by blast
  have libm: "libm_bounded flat_functions" by (simp add: libm_bounded_def flat_functions_def max_def)
  have cfg: "sc_ema_slow flat_config = 20" "sc_max_volatility_bps flat_config = Fin 800"
    by (simp_all add: flat_config_def default_signal_config_def)
  from trade_rests_on_fresh_data [OF flat_series_def c] libm flat_read_prices show ?thesis
    unfolding cfg by fastforce
qed

section \<open>The change of the liquidity wraps\<close>

text \<open>A liquidity that grows from one unit to a million SOL reads as a drop: the cast to 64 bits turns the quotient negative.\<close>

lemma liquidity_growth_wraps:
  "liquidity_change_bps ((series_new 64 2000)\<lparr>se_samples :=
      [\<lparr> ob_ts_ms = 0, ob_price = Fin 1, ob_liquidity = 1 \<rparr>, \<lparr> ob_ts_ms = 2000, ob_price = Fin 1, ob_liquidity = 1000000000000001 \<rparr>]\<rparr>) 20
   = Some (- 8446744073709551616)"
  by (simp add: liquidity_change_bps_def Let_def)

end
