(* ===== verification/Redact.thy ===== *)
theory Redact
  imports Prelude "HOL-Library.Sublist"
begin

text \<open>
  \<open>solana-sniper/src/redact.rs\<close>: the masking of secrets in log lines, on ASCII text.  The writer around it passes every line through
  \<open>redact_secrets\<close>.
\<close>

section \<open>The masking\<close>

definition MASK :: string where "MASK = ''***''"

definition is_space :: "char \<Rightarrow> bool" where
  "is_space c \<longleftrightarrow> (let n = of_char c :: nat in n = 32 \<or> 9 \<le> n \<and> n \<le> 13)"

text \<open>The codes of the quotes, brackets, comma and backslash.\<close>

definition is_delim :: "char \<Rightarrow> bool" where
  "is_delim c \<longleftrightarrow> is_space c \<or> (of_char c :: nat) \<in> {34, 39, 41, 40, 44, 93, 91, 125, 123, 60, 62, 92}"

definition lower :: "char \<Rightarrow> char" where
  "lower c = (let n = of_char c :: nat in if 65 \<le> n \<and> n \<le> 90 then char_of (n + 32) else c)"

definition is_alphanumeric :: "char \<Rightarrow> bool" where
  "is_alphanumeric c \<longleftrightarrow>
     (let n = of_char c :: nat in 48 \<le> n \<and> n \<le> 57 \<or> 65 \<le> n \<and> n \<le> 90 \<or> 97 \<le> n \<and> n \<le> 122)"

text \<open>\<open>split_once\<close> at a character, and at the separator of the scheme.\<close>

fun split_once :: "char \<Rightarrow> string \<Rightarrow> (string \<times> string) option" where
  "split_once c [] = None"
| "split_once c (x # xs) = (if x = c then Some ([], xs) else map_option (\<lambda>(a, b). (x # a, b)) (split_once c xs))"

fun split_scheme :: "string \<Rightarrow> (string \<times> string) option" where
  "split_scheme [] = None"
| "split_scheme (x # xs) =
     (if prefix ''://'' (x # xs) then Some ([], drop 3 (x # xs))
      else map_option (\<lambda>(a, b). (x # a, b)) (split_scheme xs))"

fun join_with :: "char \<Rightarrow> string list \<Rightarrow> string" where
  "join_with c [] = []"
| "join_with c [w] = w"
| "join_with c (w # ws) = w @ c # join_with c ws"

definition mask_segment :: "string \<Rightarrow> string" where
  "mask_segment seg = (if 20 \<le> length seg then MASK else seg)"

definition mask_pair :: "string \<Rightarrow> string" where
  "mask_pair kv = (case split_once (CHR ''='') kv of Some (k, _) \<Rightarrow> k @ ''='' @ MASK | None \<Rightarrow> kv)"

definition redact_url :: "string \<Rightarrow> string" where
  "redact_url url =
     (let (base, query) = (case split_once (CHR ''?'') url of Some (b, q) \<Rightarrow> (b, Some q) | None \<Rightarrow> (url, None));
          (scheme, rest) = (case split_scheme base of Some sr \<Rightarrow> sr | None \<Rightarrow> ([], base));
          parts = split_on (CHR ''/'') rest
      in scheme @ ''://'' @ hd parts @ concat (map (\<lambda>seg. CHR ''/'' # mask_segment seg) (tl parts))
         @ (case query of None \<Rightarrow> [] | Some q \<Rightarrow> CHR ''?'' # join_with (CHR ''&'') (map mask_pair (split_on (CHR ''&'') q))))"

definition URL_SCHEMES :: "string list" where
  "URL_SCHEMES = [''http://'', ''https://'', ''ws://'', ''wss://'']"

definition SECRET_KEYS :: "string list" where
  "SECRET_KEYS = [''api-key='', ''api_key='', ''apikey='', ''token='']"

definition starts_url :: "string \<Rightarrow> bool" where
  "starts_url rest \<longleftrightarrow> list_ex (\<lambda>p. prefix p (map lower (take 8 rest))) URL_SCHEMES"

text \<open>The length of the first key the rest of the line starts with, when the character before it allows a key.\<close>

definition secret_key :: "char option \<Rightarrow> string \<Rightarrow> nat option" where
  "secret_key prev rest =
     (if (case prev of Some c \<Rightarrow> is_alphanumeric c | None \<Rightarrow> False) then None
      else map_option length (find (\<lambda>k. length k \<le> length rest \<and> map lower (take (length k) rest) = k) SECRET_KEYS))"

definition ends_value :: "char \<Rightarrow> bool" where
  "ends_value c \<longleftrightarrow> is_delim c \<or> c = CHR ''&''"

lemma starts_url_hd: "starts_url (c # cs) \<Longrightarrow> \<not> is_delim c"
proof -
  assume "starts_url (c # cs)"
  then have "lower c = CHR ''h'' \<or> lower c = CHR ''w''" by (auto simp: starts_url_def URL_SCHEMES_def prefix_Cons)
  then show ?thesis
    by (cases "65 \<le> (of_char c :: nat) \<and> of_char c \<le> (90 :: nat)") (auto simp: lower_def is_delim_def is_space_def Let_def)
qed

lemma secret_key_bounds: "secret_key prev rest = Some n \<Longrightarrow> 6 \<le> n \<and> n \<le> length rest"
  by (auto simp: secret_key_def SECRET_KEYS_def split: if_splits)

text \<open>\<open>redact_secrets\<close> from a position of the line; the first argument is the character before it.\<close>

function redact_from :: "char option \<Rightarrow> string \<Rightarrow> string" where
  "redact_from prev [] = []"
| "redact_from prev (c # cs) =
     (if starts_url (c # cs)
      then let url = takeWhile (\<lambda>x. \<not> is_delim x) (c # cs)
           in redact_url url @ redact_from (Some (last url)) (dropWhile (\<lambda>x. \<not> is_delim x) (c # cs))
      else case secret_key prev (c # cs) of
             Some n \<Rightarrow>
               let val = drop n (c # cs); consumed = take n (c # cs) @ takeWhile (\<lambda>x. \<not> ends_value x) val
               in take n (c # cs) @ MASK @ redact_from (Some (last consumed)) (dropWhile (\<lambda>x. \<not> ends_value x) val)
           | None \<Rightarrow> c # redact_from (Some c) cs)"
  by pat_completeness auto

termination
proof (relation "measure (\<lambda>(_, s). length s)", goal_cases)
  case (2 prev c cs url)
  then show ?case using starts_url_hd [of c cs] length_dropWhile_le [of "\<lambda>x. \<not> is_delim x" cs] by simp
next
  case (4 prev c cs n val)
  then show ?case
    using secret_key_bounds [of prev "c # cs" n] length_dropWhile_le [of "\<lambda>x. \<not> ends_value x" "drop n (c # cs)"] by simp linarith
qed simp_all

declare redact_from.simps(2) [simp del]

text \<open>The three ways a line goes on.\<close>

lemma redact_from_url:
  "starts_url (c # cs) \<Longrightarrow> redact_from prev (c # cs) =
     redact_url (takeWhile (\<lambda>x. \<not> is_delim x) (c # cs))
     @ redact_from (Some (last (takeWhile (\<lambda>x. \<not> is_delim x) (c # cs)))) (dropWhile (\<lambda>x. \<not> is_delim x) (c # cs))"
  by (simp only: redact_from.simps(2) if_True Let_def)

lemma redact_from_key:
  "\<not> starts_url (c # cs) \<Longrightarrow> secret_key prev (c # cs) = Some n \<Longrightarrow> redact_from prev (c # cs) =
     take n (c # cs) @ MASK
     @ redact_from (Some (last (take n (c # cs) @ takeWhile (\<lambda>x. \<not> ends_value x) (drop n (c # cs)))))
         (dropWhile (\<lambda>x. \<not> ends_value x) (drop n (c # cs)))"
  by (simp only: redact_from.simps(2) if_False option.case Let_def)

lemma redact_from_char:
  "\<not> starts_url (c # cs) \<Longrightarrow> secret_key prev (c # cs) = None \<Longrightarrow> redact_from prev (c # cs) = c # redact_from (Some c) cs"
  by (simp only: redact_from.simps(2) if_False option.case)

definition redact_secrets :: "string \<Rightarrow> string" where
  "redact_secrets s = redact_from None s"

section \<open>A line is masked word by word\<close>

lemma lower_delim: "is_delim d \<Longrightarrow> lower d = d"
  by (auto simp: is_delim_def is_space_def lower_def Let_def)

lemma delim_not_alphanumeric: "is_delim d \<Longrightarrow> \<not> is_alphanumeric d"
  by (auto simp: is_delim_def is_space_def is_alphanumeric_def Let_def)

lemma prefix_before: "d \<notin> set p \<Longrightarrow> prefix p (xs @ d # ys) \<longleftrightarrow> prefix p xs"
  by (auto simp: prefix_append prefix_Cons)

lemma patterns_no_delim: "p \<in> set URL_SCHEMES \<union> set SECRET_KEYS \<Longrightarrow> is_delim d \<Longrightarrow> d \<notin> set p"
  by (auto simp: URL_SCHEMES_def SECRET_KEYS_def is_delim_def is_space_def Let_def)

lemma pattern_before:
  assumes "p \<in> set URL_SCHEMES \<union> set SECRET_KEYS" "is_delim d"
  shows "prefix p (map lower (take k (w @ d # rest))) \<longleftrightarrow> prefix p (map lower (take k w))"
proof (cases "k \<le> length w")
  case False
  then obtain m where m: "k - length w = Suc m" by (cases "k - length w") auto
  have "map lower (take k (w @ d # rest)) = map lower (take k w) @ d # map lower (take m rest)"
    using lower_delim [OF assms(2)] by (simp add: m)
  then show ?thesis using prefix_before [OF patterns_no_delim [OF assms]] by simp
qed simp

lemma starts_url_before: "is_delim d \<Longrightarrow> starts_url (w @ d # rest) \<longleftrightarrow> starts_url w"
proof -
  assume d: "is_delim d"
  have "prefix p (map lower (take 8 (w @ d # rest))) \<longleftrightarrow> prefix p (map lower (take 8 w))" if "p \<in> set URL_SCHEMES" for p
    using pattern_before [of p d] that d by simp
  then show ?thesis unfolding starts_url_def list_ex_iff by blast
qed

lemma key_match: "length k \<le> length xs \<and> map lower (take (length k) xs) = k \<longleftrightarrow> prefix k (map lower xs)"
proof -
  have "prefix k ys \<longleftrightarrow> length k \<le> length ys \<and> take (length k) ys = k" for ys
    by (metis append_eq_conv_conj prefix_def prefix_length_le take_is_prefix)
  then show ?thesis by (simp add: take_map)
qed

lemma secret_key_before: "is_delim d \<Longrightarrow> secret_key prev (w @ d # rest) = secret_key prev w"
proof -
  assume d: "is_delim d"
  have "prefix k (map lower (w @ d # rest)) \<longleftrightarrow> prefix k (map lower w)" if "k \<in> set SECRET_KEYS" for k
    using pattern_before [of k d "length (w @ d # rest)" w rest] that d by simp
  then have "find (\<lambda>k. prefix k (map lower (w @ d # rest))) SECRET_KEYS = find (\<lambda>k. prefix k (map lower w)) SECRET_KEYS"
    by (intro find_cong) auto
  then show ?thesis unfolding secret_key_def key_match by (simp only:)
qed

lemma secret_key_delim: "is_delim d \<Longrightarrow> secret_key prev (d # rest) = None"
  using secret_key_before [of d prev "[]" rest] by (simp add: secret_key_def SECRET_KEYS_def)

lemma redact_step_delim: "is_delim d \<Longrightarrow> redact_from prev (d # rest) = d # redact_from (Some d) rest"
  using starts_url_hd [of d rest] secret_key_delim [of d prev rest] by (blast intro: redact_from_char)

lemma delim_ends_value: "is_delim d \<Longrightarrow> ends_value d"
  by (simp add: ends_value_def)

lemma until_before:
  assumes "P d"
  shows "takeWhile (\<lambda>x. \<not> P x) (xs @ d # ys) = takeWhile (\<lambda>x. \<not> P x) xs"
    and "dropWhile (\<lambda>x. \<not> P x) (xs @ d # ys) = dropWhile (\<lambda>x. \<not> P x) xs @ d # ys"
  using assms by (induction xs) auto

lemma redact_word_delim:
  assumes "is_delim d"
  shows "list_all (\<lambda>c. \<not> is_delim c) w \<Longrightarrow> redact_from prev (w @ d # rest) = redact_from prev w @ d # redact_from (Some d) rest"
proof (induction prev w rule: redact_from.induct)
  case (1 prev)
  then show ?case using redact_step_delim [OF assms] by simp
next
  case (2 prev c cs)
  let ?w = "c # cs"
  have url: "starts_url (?w @ d # rest) \<longleftrightarrow> starts_url ?w" and key: "secret_key prev (?w @ d # rest) = secret_key prev ?w"
    using starts_url_before [OF assms] secret_key_before [OF assms] by blast+
  have all: "\<forall>x \<in> set ?w. \<not> is_delim x" using 2(4) by (simp add: list_all_iff)
  show ?case
  proof (cases "starts_url ?w")
    case True
    have "takeWhile (\<lambda>x. \<not> is_delim x) (?w @ d # rest) = ?w" "dropWhile (\<lambda>x. \<not> is_delim x) (?w @ d # rest) = d # rest"
      "takeWhile (\<lambda>x. \<not> is_delim x) ?w = ?w" "dropWhile (\<lambda>x. \<not> is_delim x) ?w = []"
      using all assms by (simp_all add: takeWhile_append2 dropWhile_append2)
    then show ?thesis
      using True url redact_step_delim [OF assms] redact_from_url [of c "cs @ d # rest" prev] redact_from_url [of c cs prev] by simp
  next
    case False
    show ?thesis
    proof (cases "secret_key prev ?w")
      case None
      then show ?thesis
        using 2(2) [OF False None] 2(4) False url key redact_from_char [of c "cs @ d # rest" prev] redact_from_char [of c cs prev] by simp
    next
      case (Some n)
      have n: "n \<le> length ?w" using secret_key_bounds [OF Some] by simp
      let ?v = "drop n ?w"
      have drop: "drop n (?w @ d # rest) = ?v @ d # rest" and take: "take n (?w @ d # rest) = take n ?w"
        using n unfolding drop_append take_append diff_is_0_eq [THEN iffD2, OF n] by simp_all
      have tw: "takeWhile (\<lambda>x. \<not> ends_value x) (?v @ d # rest) = takeWhile (\<lambda>x. \<not> ends_value x) ?v"
        and dw: "dropWhile (\<lambda>x. \<not> ends_value x) (?v @ d # rest) = dropWhile (\<lambda>x. \<not> ends_value x) ?v @ d # rest"
        using until_before [of ends_value d, OF delim_ends_value [OF assms]] by blast+
      have "list_all (\<lambda>c. \<not> is_delim c) (dropWhile (\<lambda>x. \<not> ends_value x) ?v)"
        using 2(4) set_dropWhileD in_set_dropD unfolding list_all_iff by metis
      note IH = 2(3) [OF False Some refl refl this]
      have "redact_from prev (?w @ d # rest) = take n ?w @ MASK @ redact_from (Some (last (take n ?w @ takeWhile (\<lambda>x. \<not> ends_value x) ?v)))
          (dropWhile (\<lambda>x. \<not> ends_value x) ?v @ d # rest)"
        using redact_from_key [of c "cs @ d # rest" prev n, folded append_Cons, unfolded drop take tw dw] False Some url key by simp
      then show ?thesis using IH redact_from_key [OF False Some] by simp
    qed
  qed
qed

lemma redact_from_prev: "\<not> is_alphanumeric d \<Longrightarrow> redact_from (Some d) s = redact_from None s"
proof -
  assume "\<not> is_alphanumeric d"
  then have "secret_key (Some d) s = secret_key None s" by (simp add: secret_key_def)
  then show ?thesis by (cases s) (simp_all add: redact_from.simps(2))
qed

lemma redact_words:
  "list_all (\<lambda>c. \<not> is_delim c) w \<Longrightarrow> is_delim d \<Longrightarrow> redact_secrets (w @ d # rest) = redact_secrets w @ d # redact_secrets rest"
  by (simp add: redact_secrets_def redact_word_delim redact_from_prev delim_not_alphanumeric)

section \<open>What a log line is\<close>

text \<open>
  The specification is written without the functions of the masking: its own separators, keys, schemes and lengths.  A log line is a list of
  words set apart by separators, each an uninteresting beginning and a field.  A field is a key with its value, or an address with
  path segments and query parameters.
\<close>

datatype field =
  NoField | KeyField string string
  | UrlField string string "string list" "(string \<times> string option) list option"

definition render_pair :: "string \<times> string option \<Rightarrow> string" where
  "render_pair kv = fst kv @ (case snd kv of Some v \<Rightarrow> CHR ''='' # v | None \<Rightarrow> [])"

fun render_field :: "field \<Rightarrow> string" where
  "render_field NoField = []"
| "render_field (KeyField k v) = k @ v"
| "render_field (UrlField sch host segs query) =
     sch @ ''://'' @ host @ concat (map ((#) (CHR ''/'')) segs)
     @ (case query of None \<Rightarrow> [] | Some kvs \<Rightarrow> CHR ''?'' # join_with (CHR ''&'') (map render_pair kvs))"

text \<open>What a reader of the log may see of a field: three stars for every value of a key and of a parameter, and for every long path segment.\<close>

definition shown_segment :: "string \<Rightarrow> string" where
  "shown_segment s = (if length s < 20 then s else ''***'')"

definition shown_pair :: "string \<times> string option \<Rightarrow> string \<times> string option" where
  "shown_pair kv = (case snd kv of Some _ \<Rightarrow> (fst kv, Some ''***'') | None \<Rightarrow> kv)"

fun shown_field :: "field \<Rightarrow> field" where
  "shown_field NoField = NoField"
| "shown_field (KeyField k v) = KeyField k ''***''"
| "shown_field (UrlField sch host segs query) =
     UrlField sch host (map shown_segment segs) (case query of None \<Rightarrow> None | Some kvs \<Rightarrow> Some (map shown_pair kvs))"

definition lacks :: "string \<Rightarrow> string \<Rightarrow> bool" where
  "lacks cs w \<longleftrightarrow> list_all (\<lambda>c. c \<notin> set cs) w"

definition key_names :: "string list" where
  "key_names = [''token='', ''apikey='', ''api_key='', ''api-key='']"

definition separator :: "char \<Rightarrow> bool" where
  "separator c \<longleftrightarrow> c \<in> set '' ()[]{}<>,'' \<or> c \<in> {CHR 0x09, CHR 0x0A, CHR 0x0B, CHR 0x0C, CHR 0x0D, CHR 0x22, CHR 0x27, CHR 0x5C}"

definition word_char :: "char \<Rightarrow> bool" where
  "word_char c \<longleftrightarrow> c \<in> set ''abcdefghijklmnopqrstuvwxyzABCDEFGHIJKLMNOPQRSTUVWXYZ0123456789''"

text \<open>An address begins here; a key begins here, when it does not continue a word.\<close>

definition address_begins :: "string \<Rightarrow> bool" where
  "address_begins rest \<longleftrightarrow> list_ex (\<lambda>sch. prefix (sch @ ''://'') (map lower rest)) [''http'', ''https'', ''ws'', ''wss'']"

definition key_begins :: "char option \<Rightarrow> string \<Rightarrow> bool" where
  "key_begins prev rest \<longleftrightarrow>
     (case prev of Some c \<Rightarrow> \<not> word_char c | None \<Rightarrow> True) \<and> list_ex (\<lambda>k. prefix k (map lower rest)) key_names"

definition names_key :: "string \<Rightarrow> bool" where
  "names_key s \<longleftrightarrow> list_ex (\<lambda>k. sublist k (map lower s)) key_names"

definition pair_ok :: "string \<times> string option \<Rightarrow> bool" where
  "pair_ok kv \<longleftrightarrow> lacks ''&='' (fst kv) \<and> (case snd kv of Some v \<Rightarrow> lacks ''&'' v | None \<Rightarrow> True)"

text \<open>
  The fields the specification is about.  The host and the short path segments of an address name no key: there the masking does not look
  for one (\<open>path_token_kept\<close>).
\<close>

fun field_ok :: "field \<Rightarrow> bool" where
  "field_ok NoField \<longleftrightarrow> True"
| "field_ok (KeyField k v) \<longleftrightarrow> map lower k \<in> set key_names \<and> lacks ''&'' v"
| "field_ok (UrlField sch host segs query) \<longleftrightarrow>
     map lower sch \<in> {''http'', ''https'', ''ws'', ''wss''} \<and> lacks ''/?'' host \<and> \<not> names_key host
     \<and> list_all (\<lambda>s. lacks ''/?'' s \<and> (20 \<le> length s \<or> \<not> names_key s)) segs
     \<and> (case query of Some kvs \<Rightarrow> kvs \<noteq> [] \<and> list_all pair_ok kvs | None \<Rightarrow> True)"

text \<open>No address and no key begins in the beginning of a word, and a key after it does not continue it.\<close>

fun plain :: "char option \<Rightarrow> string \<Rightarrow> string \<Rightarrow> bool" where
  "plain prev [] rest \<longleftrightarrow> (key_begins None rest \<longrightarrow> key_begins prev rest)"
| "plain prev (c # cs) rest \<longleftrightarrow>
     \<not> address_begins (c # cs @ rest) \<and> \<not> key_begins prev (c # cs @ rest) \<and> plain (Some c) cs rest"

type_synonym log_word = "string \<times> field"

definition render_word :: "log_word \<Rightarrow> string" where
  "render_word w = fst w @ render_field (snd w)"

definition shown_word :: "log_word \<Rightarrow> log_word" where
  "shown_word w = (fst w, shown_field (snd w))"

definition word_ok :: "log_word \<Rightarrow> bool" where
  "word_ok w \<longleftrightarrow> field_ok (snd w) \<and> plain None (fst w) (render_field (snd w))
     \<and> list_all (\<lambda>c. \<not> separator c) (render_word w)"

fun render_line :: "(log_word \<times> char) list \<Rightarrow> log_word \<Rightarrow> string" where
  "render_line [] w = render_word w"
| "render_line ((v, d) # vs) w = render_word v @ d # render_line vs w"

section \<open>The masking meets the specification\<close>

text \<open>The separators, letters, keys and schemes of the code are those of the specification.\<close>

lemma all_chars: "list_all P (map char_of [0..<256::nat]) \<Longrightarrow> P c"
proof -
  assume all: "list_all P (map char_of [0..<256::nat])"
  have "(of_char c :: nat) \<in> {0..<256}" by simp
  then have "char_of (of_char c :: nat) \<in> set (map char_of [0..<256::nat])" unfolding set_map set_upt by (rule imageI)
  then have "P (char_of (of_char c :: nat))" using all by (simp only: list_all_iff)
  then show ?thesis by (simp only: char_of_char)
qed

lemma separator_delim: "separator c \<longleftrightarrow> is_delim c"
  by (rule all_chars [of "\<lambda>c. separator c \<longleftrightarrow> is_delim c"]) code_simp

lemma word_char_alphanumeric: "word_char c \<longleftrightarrow> is_alphanumeric c"
  by (rule all_chars [of "\<lambda>c. word_char c \<longleftrightarrow> is_alphanumeric c"]) code_simp

lemma prefix_take_iff: "length q \<le> n \<Longrightarrow> prefix q (take n l) \<longleftrightarrow> prefix q l"
  by (metis prefix_length_prefix prefix_order.trans take_is_prefix take_all_iff nle_le length_take min.absorb_iff2)

lemma address_starts: "address_begins rest \<longleftrightarrow> starts_url rest"
  by (auto simp: address_begins_def starts_url_def URL_SCHEMES_def prefix_take_iff simp flip: take_map)

lemma key_names_set: "set key_names = set SECRET_KEYS"
  by (auto simp: key_names_def SECRET_KEYS_def)

lemma key_begins_found: "key_begins prev rest \<longleftrightarrow> secret_key prev rest \<noteq> None"
proof -
  have "list_ex (\<lambda>k. prefix k (map lower rest)) key_names \<longleftrightarrow> (\<exists>k\<in>set SECRET_KEYS. prefix k (map lower rest))"
    by (simp add: list_ex_iff key_names_set)
  then show ?thesis
    using find_None_iff [of "\<lambda>k. prefix k (map lower rest)" SECRET_KEYS]
    by (auto simp: key_begins_def secret_key_def key_match word_char_alphanumeric split: option.split)
qed

text \<open>No position of the beginning starts an address or a key for the code.\<close>

fun untouched :: "char option \<Rightarrow> string \<Rightarrow> string \<Rightarrow> bool" where
  "untouched prev [] rest \<longleftrightarrow> secret_key prev rest = secret_key None rest"
| "untouched prev (c # cs) rest \<longleftrightarrow>
     \<not> starts_url (c # cs @ rest) \<and> secret_key prev (c # cs @ rest) = None \<and> untouched (Some c) cs rest"

lemma plain_untouched: "plain prev w rest \<Longrightarrow> untouched prev w rest"
proof (induction prev w rest rule: plain.induct)
  case (1 prev rest)
  then show ?case by (auto simp: key_begins_found secret_key_def split: if_splits)
qed (simp add: address_starts key_begins_found)

lemma shown_segment_masked: "shown_segment s = mask_segment s"
  by (simp add: shown_segment_def mask_segment_def MASK_def)

lemma split_once_at: "c \<notin> set xs \<Longrightarrow> split_once c (xs @ c # ys) = Some (xs, ys)"
  by (induction xs) auto

lemma split_once_none: "c \<notin> set xs \<Longrightarrow> split_once c xs = None"
  by (induction xs) auto

lemma split_scheme_at: "CHR '':'' \<notin> set xs \<Longrightarrow> split_scheme (xs @ ''://'' @ ys) = Some (xs, ys)"
  by (induction xs) auto

lemma split_on_one: "c \<notin> set xs \<Longrightarrow> split_on c xs = [xs]"
  by (induction xs) auto

lemma split_on_at: "c \<notin> set xs \<Longrightarrow> split_on c (xs @ c # ys) = xs # split_on c ys"
  by (induction xs) auto

lemma split_on_segments:
  "c \<notin> set w \<Longrightarrow> list_all (\<lambda>s. c \<notin> set s) ss \<Longrightarrow> split_on c (w @ concat (map ((#) c) ss)) = w # ss"
  by (induction ss arbitrary: w) (simp_all add: split_on_one split_on_at)

lemma split_on_join: "list_all (\<lambda>s. c \<notin> set s) ss \<Longrightarrow> ss \<noteq> [] \<Longrightarrow> split_on c (join_with c ss) = ss"
proof (induction ss)
  case (Cons s ss)
  then show ?case by (cases ss) (simp_all add: split_on_one split_on_at)
qed simp

lemma mask_pair_render:
  assumes "pair_ok kv"
  shows "mask_pair (render_pair kv) = render_pair (shown_pair kv)"
proof -
  obtain k v where kv: "kv = (k, v)" by (cases kv)
  have k: "CHR ''='' \<notin> set k" using assms by (auto simp: kv pair_ok_def lacks_def list_all_iff)
  show ?thesis
    by (cases v) (simp_all add: kv mask_pair_def render_pair_def shown_pair_def MASK_def split_once_at [OF k] split_once_none [OF k])
qed

lemma redact_query:
  assumes "list_all pair_ok kvs" "kvs \<noteq> []"
  shows "join_with (CHR ''&'') (map mask_pair (split_on (CHR ''&'') (join_with (CHR ''&'') (map render_pair kvs))))
    = join_with (CHR ''&'') (map render_pair (map shown_pair kvs))"
proof -
  have "list_all (\<lambda>s. CHR ''&'' \<notin> set s) (map render_pair kvs)"
    using assms(1) by (fastforce simp: list_all_iff pair_ok_def lacks_def render_pair_def split: option.splits)
  moreover have "map mask_pair (map render_pair kvs) = map render_pair (map shown_pair kvs)"
    using assms(1) by (simp add: list_all_iff mask_pair_render)
  ultimately show ?thesis using assms(2) by (simp only: split_on_join map_is_Nil_conv not_False_eq_True)
qed

lemma scheme_chars:
  assumes "map lower sch \<in> {''http'', ''https'', ''ws'', ''wss''}"
  shows "CHR ''?'' \<notin> set sch" "CHR '':'' \<notin> set sch"
proof -
  have "lower c \<in> set (map lower sch)" if "c \<in> set sch" for c using that by simp
  moreover have "lower (CHR ''?'') = CHR ''?''" "lower (CHR '':'') = CHR '':''" by (simp_all add: lower_def)
  ultimately show "CHR ''?'' \<notin> set sch" "CHR '':'' \<notin> set sch" using assms by fastforce+
qed

lemma redact_url_field:
  assumes "field_ok (UrlField sch host segs query)"
  shows "redact_url (render_field (UrlField sch host segs query)) = render_field (shown_field (UrlField sch host segs query))"
proof -
  note sch = scheme_chars [of sch]
  let ?base = "sch @ ''://'' @ host @ concat (map ((#) (CHR ''/'')) segs)"
  have host: "CHR ''/'' \<notin> set host" "CHR ''?'' \<notin> set host"
    and segs: "list_all (\<lambda>s. CHR ''/'' \<notin> set s) segs" "list_all (\<lambda>s. CHR ''?'' \<notin> set s) segs"
    using assms by (auto simp: lacks_def list_all_iff)
  have hd: "CHR ''?'' \<notin> set ?base" using assms sch(1) host(2) segs(2) by (simp add: list_all_iff)
  note parts = split_on_segments [OF host(1) segs(1)]
  have scheme: "split_scheme ?base = Some (sch, host @ concat (map ((#) (CHR ''/'')) segs))"
    using sch(2) assms split_scheme_at by auto
  show ?thesis
  proof (cases query)
    case None
    then show ?thesis using split_once_none [OF hd] scheme parts by (simp add: redact_url_def comp_def shown_segment_masked)
  next
    case (Some kvs)
    then have "list_all pair_ok kvs" "kvs \<noteq> []" using assms by simp_all
    then show ?thesis
      using Some split_once_at [OF hd, of "join_with (CHR ''&'') (map render_pair kvs)"] scheme parts redact_query [of kvs]
      by (simp add: redact_url_def comp_def shown_segment_masked)
  qed
qed

lemma url_starts: "map lower sch \<in> {''http'', ''https'', ''ws'', ''wss''} \<Longrightarrow> starts_url (sch @ ''://'' @ xs)"
proof -
  assume s: "map lower sch \<in> {''http'', ''https'', ''ws'', ''wss''}"
  then have "length (map lower sch) \<le> 5" by (elim insertE) simp_all
  then have "map lower (take 8 (sch @ ''://'' @ xs)) = map lower sch @ ''://'' @ map lower (take (5 - length sch) xs)"
    by (simp add: take_Cons' lower_def)
  then show ?thesis using s unfolding starts_url_def URL_SCHEMES_def by (elim insertE) simp_all
qed

lemma key_found: "map lower k \<in> set SECRET_KEYS \<Longrightarrow> secret_key None (k @ v) = Some (length k)"
proof -
  assume k: "map lower k \<in> set SECRET_KEYS"
  have "find (\<lambda>q. prefix q (map lower k @ map lower v)) SECRET_KEYS = Some (map lower k)"
    using k unfolding SECRET_KEYS_def set_simps by (elim insertE) simp_all
  then show ?thesis unfolding secret_key_def key_match by simp
qed

lemma key_no_url: "map lower k \<in> set SECRET_KEYS \<Longrightarrow> \<not> starts_url (k @ v)"
proof -
  assume k: "map lower k \<in> set SECRET_KEYS"
  then obtain c cs where "k = c # cs" "lower c = CHR ''a'' \<or> lower c = CHR ''t''" by (cases k) (auto simp: SECRET_KEYS_def)
  then show ?thesis by (auto simp: starts_url_def URL_SCHEMES_def prefix_Cons)
qed

lemma no_delim_all:
  assumes "list_all (\<lambda>c. \<not> P c) w"
  shows "takeWhile (\<lambda>x. \<not> P x) w = w" "dropWhile (\<lambda>x. \<not> P x) w = []"
  using assms by (simp_all add: list_all_iff)

lemma redact_field:
  assumes "field_ok f" "list_all (\<lambda>c. \<not> is_delim c) (render_field f)"
  shows "redact_from None (render_field f) = render_field (shown_field f)"
proof (cases f)
  case (KeyField k v)
  then have k: "map lower k \<in> set SECRET_KEYS" and v: "list_all (\<lambda>c. \<not> ends_value c) v"
    using assms by (auto simp: lacks_def list_all_iff ends_value_def key_names_set)
  obtain c cs where c: "k @ v = c # cs" using k by (cases k) (auto simp: SECRET_KEYS_def)
  show ?thesis
    using redact_from_key [of c cs None "length k"] key_no_url [OF k, of v] key_found [OF k, of v] no_delim_all [OF v]
    by (simp add: KeyField MASK_def flip: c)
next
  case (UrlField sch host segs query)
  then have s: "starts_url (render_field f)" using assms(1) url_starts by simp
  then obtain c cs where c: "render_field f = c # cs" by (cases "render_field f") (auto simp: starts_url_def URL_SCHEMES_def)
  have "redact_url (render_field f) = render_field (shown_field f)"
    using redact_url_field [of sch host segs query] assms(1) unfolding UrlField .
  then show ?thesis
    using redact_from_url [of c cs None, folded c, OF s] by (simp only: no_delim_all [OF assms(2)] redact_from.simps(1) append_Nil2)
qed simp

lemma redact_untouched: "untouched prev w rest \<Longrightarrow> redact_from prev (w @ rest) = w @ redact_from None rest"
proof (induction prev w rest rule: untouched.induct)
  case (1 prev rest)
  then show ?case by (cases rest) (simp_all add: redact_from.simps(2))
next
  case (2 prev c cs rest)
  then show ?case by (simp add: redact_from_char)
qed

lemma redact_word: "word_ok w \<Longrightarrow> redact_secrets (render_word w) = render_word (shown_word w)"
  by (simp add: word_ok_def redact_secrets_def render_word_def shown_word_def redact_untouched [OF plain_untouched] redact_field separator_delim)

text \<open>
  C35. Masking a log line hides its secret fields and nothing else: after \<open>redact_secrets\<close> the value of every key field (\<open>token=\<close>,
  \<open>apikey=\<close>, \<open>api_key=\<close>, \<open>api-key=\<close> in any case) and of every query parameter of an address reads three stars, so does every path segment of twenty
  characters or more, and all other text, the separators, keys, hosts, shorter segments and parameter names included, is kept.  In particular
  two lines that differ in their secrets only give the same output.  Outside the claim is an address whose host or short path segment names a key: the documentation
  of the module says that such a value is masked anywhere, but inside an address the code masks it in the query only (\<open>path_token_kept\<close>).
\<close>

theorem redaction_masks_fields:
  assumes "list_all (\<lambda>(v, d). word_ok v \<and> separator d) vs" "word_ok w"
  shows "redact_secrets (render_line vs w) = render_line (map (map_prod shown_word id) vs) (shown_word w)"
  using assms
proof (induction vs)
  case Nil
  then show ?case by (simp add: redact_word)
next
  case (Cons x vs)
  obtain v d where x: "x = (v, d)" by (cases x)
  then have v: "word_ok v" "is_delim d" "list_all (\<lambda>c. \<not> is_delim c) (render_word v)"
    using Cons.prems by (simp_all add: word_ok_def separator_delim)
  show ?case using Cons redact_words [OF v(3) v(2)] redact_word [OF v(1)] by (simp add: x)
qed

definition example_line :: "(log_word \<times> char) list" where
  "example_line =
     [((''rpc='', UrlField ''https'' ''h.io'' [''v2'', ''0123456789abcdef0123''] (Some [(''api-key'', Some ''S1''), (''x'', None)])), CHR '' ''),
      (([], KeyField ''Token='' ''S2''), CHR '','')]"

theorem redaction_masks_fields_witness:
  "redact_secrets ''rpc=https://h.io/v2/0123456789abcdef0123?api-key=S1&x Token=S2,done''
     = ''rpc=https://h.io/v2/***?api-key=***&x Token=***,done''"
proof -
  have ok: "list_all (\<lambda>(v, d). word_ok v \<and> separator d) example_line" "word_ok (''done'', NoField)" by code_simp+
  have "render_line example_line (''done'', NoField) = ''rpc=https://h.io/v2/0123456789abcdef0123?api-key=S1&x Token=S2,done''"
    "render_line (map (map_prod shown_word id) example_line) (shown_word (''done'', NoField))
       = ''rpc=https://h.io/v2/***?api-key=***&x Token=***,done''"
    by code_simp+
  with redaction_masks_fields [OF ok] show ?thesis by (simp only:)
qed

text \<open>Inside an address a key is looked for in the query only: a short path segment that names one keeps its value.\<close>

lemma path_token_kept: "redact_secrets ''https://h/token=abc'' = ''https://h/token=abc''"
proof -
  let ?u = "''https://h/token=abc''"
  have s: "starts_url ?u" by (simp add: starts_url_def URL_SCHEMES_def lower_def Let_def)
  have d: "list_all (\<lambda>c. \<not> is_delim c) ?u" by (simp add: is_delim_def is_space_def Let_def)
  show ?thesis
    using redact_from_url [OF s, of None] no_delim_all [OF d]
    by (simp add: redact_secrets_def redact_url_def mask_segment_def)
qed

end
