(* ===== verification/Metrics.thy ===== *)
theory Metrics
  imports Live_Entry
begin

text \<open>
  \<open>solana-sniper/src/metrics.rs\<close>: what the process tells its operator.  The readiness of a snapshot, the health of the heartbeat and the answer to a
  request by its path; what is registered and recorded is in \<open>Metric_Calls\<close>.
\<close>

section \<open>Readiness\<close>

record readiness =
  rs_process_alive :: bool
  rs_state_verified :: bool
  rs_reconcile_required :: bool
  rs_exit_blocked :: bool
  rs_exit_failures :: u32
  rs_breaker_state :: u8
  rs_kill_switch :: bool
  rs_live_armed :: bool
  rs_hsm_ready :: "bool option"
  rs_rpc_ready :: "bool option"
  rs_market_data_ready :: "bool option"
  rs_mode :: string

definition default_readiness :: readiness where
  "default_readiness =
     \<lparr> rs_process_alive = False, rs_state_verified = False, rs_reconcile_required = False, rs_exit_blocked = False,
       rs_exit_failures = 0, rs_breaker_state = 0, rs_kill_switch = False, rs_live_armed = False,
       rs_hsm_ready = None, rs_rpc_ready = None, rs_market_data_ready = None, rs_mode = [] \<rparr>"

definition ready_paper_dry_run :: "readiness \<Rightarrow> bool" where
  "ready_paper_dry_run r \<longleftrightarrow> rs_process_alive r \<and> rs_state_verified r \<and> \<not> rs_reconcile_required r"

definition ready_live :: "readiness \<Rightarrow> bool" where
  "ready_live r \<longleftrightarrow>
     rs_process_alive r \<and> rs_state_verified r \<and> \<not> rs_reconcile_required r \<and> \<not> rs_exit_blocked r
     \<and> rs_breaker_state r \<noteq> 2 \<and> \<not> rs_kill_switch r \<and> rs_live_armed r
     \<and> rs_hsm_ready r = Some True \<and> rs_rpc_ready r = Some True \<and> rs_market_data_ready r = Some True"

definition is_ready :: "readiness \<Rightarrow> bool" where
  "is_ready r = (if rs_mode r = ''live'' then ready_live r else ready_paper_dry_run r)"

section \<open>Health\<close>

record process_status =
  mx_readiness :: readiness
  mx_heartbeat_ms :: u64
  mx_health_max_age_ms :: u64

definition metrics_new :: process_status where
  "metrics_new = \<lparr> mx_readiness = default_readiness, mx_heartbeat_ms = 0, mx_health_max_age_ms = 0 \<rparr>"

definition heartbeat :: "u64 \<Rightarrow> process_status \<Rightarrow> process_status" where
  "heartbeat now m = m\<lparr>mx_heartbeat_ms := now\<rparr>"

definition set_health_max_age :: "u64 \<Rightarrow> u64 \<Rightarrow> process_status \<Rightarrow> process_status" where
  "set_health_max_age now max_age m = (heartbeat now m)\<lparr>mx_health_max_age_ms := max_age\<rparr>"

definition set_readiness :: "readiness \<Rightarrow> process_status \<Rightarrow> process_status" where
  "set_readiness r m = m\<lparr>mx_readiness := r\<rparr>"

definition health_status :: "u64 \<Rightarrow> u64 \<Rightarrow> u64 \<Rightarrow> u64 + unit" where
  "health_status heartbeat_ms max_age now =
     (if max_age = 0 then Inr ()
      else let age = sat_sub now heartbeat_ms in if max_age < age then Inl age else Inr ())"

definition health :: "u64 \<Rightarrow> process_status \<Rightarrow> u64 + unit" where
  "health now m = health_status (mx_heartbeat_ms m) (mx_health_max_age_ms m) now"

section \<open>Requests\<close>

datatype http_status = Ok200 | Unavailable503 | NotFound404

text \<open>The second word of the request is its path.\<close>

fun next_word :: "string \<Rightarrow> string \<times> string" where
  "next_word s = (let t = dropWhile is_ws s in (takeWhile (\<lambda>c. \<not> is_ws c) t, dropWhile (\<lambda>c. \<not> is_ws c) t))"

definition request_path :: "string \<Rightarrow> string" where
  "request_path req = (let p = fst (next_word (snd (next_word req))) in if p = [] then ''/'' else p)"

definition answer_status :: "u64 \<Rightarrow> process_status \<Rightarrow> string \<Rightarrow> http_status" where
  "answer_status now m path =
     (if path = ''/health'' then (case health now m of Inr _ \<Rightarrow> Ok200 | Inl _ \<Rightarrow> Unavailable503)
      else if path = ''/ready'' then (if is_ready (mx_readiness m) then Ok200 else Unavailable503)
      else if path = ''/metrics'' then Ok200
      else NotFound404)"

section \<open>Properties\<close>

lemma healthy_iff:
  "answer_status now m ''/health'' = Ok200 \<longleftrightarrow>
     mx_health_max_age_ms m = 0 \<or> unat now \<le> unat (mx_heartbeat_ms m) + unat (mx_health_max_age_ms m)"
  by (auto simp: answer_status_def health_def health_status_def Let_def word_le_nat_alt word_less_nat_alt unat_sat_sub
      split: sum.splits if_splits)

end
