(* ===== verification/Metric_Calls.thy ===== *)
theory Metric_Calls
  imports Metrics Float64
begin

text \<open>
  \<open>solana-sniper/src/metrics.rs\<close>: the metrics the registry is given, the calls the recording functions make to it, and the text of
  \<open>/metrics\<close> and of an HTTP answer.  The counters and histograms themselves belong to the client library, so a
  recording function is the list of its calls.
\<close>

section \<open>What is registered\<close>

datatype metric_kind = CounterMetric | GaugeMetric | HistogramMetric

record metric_spec =
  ms_name :: string
  ms_kind :: metric_kind
  ms_labels :: "string list"

definition MS_BUCKETS :: "rat list" where
  "MS_BUCKETS = [1, 5 / 2, 5, 10, 25, 50, 100, 250, 500, 1000, 2500, 5000, 10000, 30000, 60000, 180000]"

text \<open>In the order of registration; a second metric of the same name would be dropped without a word.\<close>

definition registered :: "metric_spec list" where
  "registered =
     map (\<lambda>(name, kind, labels). \<lparr> ms_name = name, ms_kind = kind, ms_labels = labels \<rparr>)
       [(''hft_trades_total'', CounterMetric, []), (''hft_trades_success'', CounterMetric, []),
        (''hft_trades_failed'', CounterMetric, []), (''hft_hsm_requests'', CounterMetric, []),
        (''hft_hsm_errors'', CounterMetric, []), (''hft_trade_latency_ms'', HistogramMetric, []),
        (''hft_hsm_latency_ms'', HistogramMetric, []), (''hft_kill_switch_active'', GaugeMetric, []),
        (''hft_last_trade_ts'', GaugeMetric, []), (''trade_attempt_total'', CounterMetric, [''mode'']),
        (''trade_rejected_total'', CounterMetric, [''mode'', ''reason'']), (''trade_executed_total'', CounterMetric, [''mode'']),
        (''circuit_breaker_state'', GaugeMetric, []), (''daily_realized_pnl'', GaugeMetric, []),
        (''open_position_count'', GaugeMetric, []), (''paper_simulated_pnl'', GaugeMetric, []),
        (''sniper_stage_latency_ms'', HistogramMetric, [''stage''])]"

section \<open>Recording\<close>

datatype metric_call =
    Inc string "string list"
  | Observe string "string list" f64
  | SetGauge string f64

datatype latency_stage = MarketDataStage | QuoteSimStage | SignStage | SubmitConfirmStage | ExitStage

fun stage_label :: "latency_stage \<Rightarrow> string" where
  "stage_label MarketDataStage = ''market_data''"
| "stage_label QuoteSimStage = ''quote_sim''"
| "stage_label SignStage = ''sign''"
| "stage_label SubmitConfirmStage = ''submit_confirm''"
| "stage_label ExitStage = ''exit''"

definition observe_stage :: "latency_stage \<Rightarrow> f64 \<Rightarrow> metric_call list" where
  "observe_stage st ms = [Observe ''sniper_stage_latency_ms'' [stage_label st] ms]"

definition record_trade_outcome :: "u64 \<Rightarrow> bool \<Rightarrow> f64 \<Rightarrow> metric_call list" where
  "record_trade_outcome now success latency_ms =
     [Inc ''hft_trades_total'' [], Observe ''hft_trade_latency_ms'' [] latency_ms,
      if success then Inc ''hft_trades_success'' [] else Inc ''hft_trades_failed'' [],
      SetGauge ''hft_last_trade_ts'' (f64_of_nat (unat now))]"

definition record_hsm :: "bool \<Rightarrow> f64 \<Rightarrow> metric_call list" where
  "record_hsm ok latency_ms =
     [Inc ''hft_hsm_requests'' [], Observe ''hft_hsm_latency_ms'' [] latency_ms] @ (if ok then [] else [Inc ''hft_hsm_errors'' []])"

definition set_kill_switch_gauge :: "bool \<Rightarrow> metric_call list" where
  "set_kill_switch_gauge active = [SetGauge ''hft_kill_switch_active'' (if active then 1 else 0)]"

definition record_trade_attempt :: "string \<Rightarrow> metric_call list" where
  "record_trade_attempt mode = [Inc ''trade_attempt_total'' [mode]]"

definition record_trade_rejected :: "string \<Rightarrow> string \<Rightarrow> metric_call list" where
  "record_trade_rejected mode code = [Inc ''trade_rejected_total'' [mode, code]]"

definition record_trade_executed :: "string \<Rightarrow> metric_call list" where
  "record_trade_executed mode = [Inc ''trade_executed_total'' [mode]]"

definition set_risk_gauges :: "bool \<Rightarrow> i64 \<Rightarrow> u64 \<Rightarrow> metric_call list" where
  "set_risk_gauges active pnl positions =
     [SetGauge ''circuit_breaker_state'' (if active then 1 else 0), SetGauge ''daily_realized_pnl'' (f64_round (of_int pnl)),
      SetGauge ''open_position_count'' (f64_of_nat (unat positions))]"

definition set_paper_simulated_pnl :: "i64 \<Rightarrow> metric_call list" where
  "set_paper_simulated_pnl pnl = [SetGauge ''paper_simulated_pnl'' (f64_round (of_int pnl))]"

section \<open>The text of the answers\<close>

definition readiness_gauges :: "readiness \<Rightarrow> (string \<times> nat) list" where
  "readiness_gauges r =
     [(''ready'', of_bool (is_ready r)), (''state_verified'', of_bool (rs_state_verified r)),
      (''exit_blocked'', of_bool (rs_exit_blocked r)), (''reconcile_required'', of_bool (rs_reconcile_required r)),
      (''breaker_state'', unat (rs_breaker_state r)), (''consecutive_exit_failures'', unat (rs_exit_failures r))]"

definition gauge_text :: "string \<times> nat \<Rightarrow> string" where
  "gauge_text = (\<lambda>(name, v). ''# TYPE '' @ name @ '' gauge'' @ [CHR 0x0A] @ name @ '' '' @ decimal v @ [CHR 0x0A])"

text \<open>The encoded registry comes from the library; when it fails the readiness is served alone.\<close>

definition render :: "string option \<Rightarrow> process_status \<Rightarrow> string" where
  "render encoded m = (case encoded of Some out \<Rightarrow> out | None \<Rightarrow> []) @ concat (map gauge_text (readiness_gauges (mx_readiness m)))"

fun status_line :: "http_status \<Rightarrow> string" where
  "status_line Ok200 = ''200 OK''"
| "status_line Unavailable503 = ''503 Service Unavailable''"
| "status_line NotFound404 = ''404 Not Found''"

text \<open>The body of an answer; the snapshot is written as JSON by the library.\<close>

definition answer_body :: "(readiness \<Rightarrow> string) \<Rightarrow> string option \<Rightarrow> u64 \<Rightarrow> process_status \<Rightarrow> string \<Rightarrow> string" where
  "answer_body to_json encoded now m path =
     (if path = ''/health'' then
        (case health now m of
           Inr _ \<Rightarrow> ''ok''
         | Inl age \<Rightarrow> ''trading loop stalled: last heartbeat '' @ decimal (unat age) @ '' ms ago (limit ''
                        @ decimal (unat (mx_health_max_age_ms m)) @ '' ms)'')
      else if path = ''/ready'' then to_json (mx_readiness m)
      else if path = ''/metrics'' then render encoded m
      else ''not found'')"

definition crlf :: string where
  "crlf = [CHR 0x0D, CHR 0x0A]"

definition http_answer :: "http_status \<Rightarrow> string \<Rightarrow> string" where
  "http_answer status body =
     ''HTTP/1.1 '' @ status_line status @ crlf @ ''Content-Type: text/plain'' @ crlf
     @ ''Content-Length: '' @ decimal (length body) @ crlf @ ''Connection: close'' @ crlf @ crlf @ body"

definition serve_request :: "(readiness \<Rightarrow> string) \<Rightarrow> string option \<Rightarrow> u64 \<Rightarrow> process_status \<Rightarrow> string option \<Rightarrow> string option" where
  "serve_request to_json encoded now m req =
     (case req of
        None \<Rightarrow> None
      | Some r \<Rightarrow>
          let path = request_path r
          in Some (http_answer (answer_status now m path) (answer_body to_json encoded now m path)))"

section \<open>Properties\<close>

text \<open>A call names a registered metric of its kind with as many labels as it was declared with; otherwise the library panics.\<close>

fun call_fits :: "metric_call \<Rightarrow> metric_spec \<Rightarrow> bool" where
  "call_fits (Inc name labels) sp \<longleftrightarrow> ms_name sp = name \<and> ms_kind sp = CounterMetric \<and> length (ms_labels sp) = length labels"
| "call_fits (Observe name labels _) sp \<longleftrightarrow> ms_name sp = name \<and> ms_kind sp = HistogramMetric \<and> length (ms_labels sp) = length labels"
| "call_fits (SetGauge name _) sp \<longleftrightarrow> ms_name sp = name \<and> ms_kind sp = GaugeMetric \<and> ms_labels sp = []"

definition declared :: "metric_call list \<Rightarrow> bool" where
  "declared = list_all (\<lambda>c. list_ex (call_fits c) registered)"

lemma registered_distinct: "distinct (map ms_name registered)"
  by code_simp

lemmas recorders = observe_stage_def record_trade_outcome_def record_hsm_def set_kill_switch_gauge_def record_trade_attempt_def
  record_trade_rejected_def record_trade_executed_def set_risk_gauges_def set_paper_simulated_pnl_def

lemma recorders_declared:
  "declared (observe_stage st ms)" "declared (record_trade_outcome now ok ms)" "declared (record_hsm ok ms)"
  "declared (set_kill_switch_gauge b)" "declared (record_trade_attempt mode)" "declared (record_trade_rejected mode code)"
  "declared (record_trade_executed mode)" "declared (set_risk_gauges b pnl n)" "declared (set_paper_simulated_pnl pnl)"
  by (simp_all add: declared_def registered_def recorders)

text \<open>Every trade is counted once, as a success or as a failure, and every failed signing request as an error.\<close>

definition count_of :: "string \<Rightarrow> metric_call list \<Rightarrow> nat" where
  "count_of name calls = count_list calls (Inc name [])"

lemma count_of_append [simp]: "count_of n (xs @ ys) = count_of n xs + count_of n ys"
  by (simp add: count_of_def)

lemma trades_counted:
  "let calls = concat (map (\<lambda>(now, ok, ms). record_trade_outcome now ok ms) trades)
   in count_of ''hft_trades_total'' calls = length trades
      \<and> count_of ''hft_trades_success'' calls + count_of ''hft_trades_failed'' calls = length trades"
  by (induction trades) (auto simp: record_trade_outcome_def count_of_def Let_def)

text \<open>The gauge \<open>ready\<close> of \<open>/metrics\<close> and the answer to \<open>/ready\<close> agree.\<close>

lemma ready_gauge_agrees:
  "map_of (readiness_gauges (mx_readiness m)) ''ready'' = Some 1 \<longleftrightarrow> answer_status now m ''/ready'' = Ok200"
  by (simp add: readiness_gauges_def answer_status_def)

lemma buckets_increase: "sorted_wrt (<) MS_BUCKETS"
  by (simp add: MS_BUCKETS_def)

end
