(* ===== verification/Market_Feed.thy ===== *)
theory Market_Feed
  imports Raydium Retry Rpc_Batch
begin

text \<open>
  The two sources of a pool's price: \<open>solana-sniper/src/marketdata.rs\<close>, the pool account read over RPC, and
  \<open>crates/hft-marketdata/src/solana_ws.rs\<close>, the stream of account notifications.  The answers of the node and the messages of the stream are
  arguments; the clock is milliseconds in 128 bits.
\<close>

section \<open>The polled feed\<close>

record price_feed =
  pf_pool_id :: pubkey
  pf_program_id :: pubkey
  pf_last :: "resolved_pool option"
  pf_refreshed_ms :: "u128 option"

definition feed_new :: "pubkey \<Rightarrow> pubkey \<Rightarrow> price_feed" where
  "feed_new pool_id program_id =
     \<lparr> pf_pool_id = pool_id, pf_program_id = program_id, pf_last = None, pf_refreshed_ms = None \<rparr>"

definition feed_refresh ::
    "'a clmm_sdk_scheme \<Rightarrow> (pubkey \<Rightarrow> raw_account option) \<Rightarrow> u128 \<Rightarrow> price_feed \<Rightarrow> (resolve_error + resolved_pool) \<times> price_feed" where
  "feed_refresh sdk get_account now feed =
     (case fetch_pool_state sdk get_account (pf_pool_id feed) (pf_program_id feed) of
        Inl e \<Rightarrow> (Inl e, feed)
      | Inr pool \<Rightarrow> (Inr pool, feed\<lparr>pf_last := Some pool, pf_refreshed_ms := Some now\<rparr>))"

definition feed_age_ms :: "u128 \<Rightarrow> price_feed \<Rightarrow> u128 option" where
  "feed_age_ms now feed = map_option (\<lambda>ts. sat_sub now ts) (pf_refreshed_ms feed)"

definition feed_is_stale :: "u128 \<Rightarrow> u64 \<Rightarrow> price_feed \<Rightarrow> bool" where
  "feed_is_stale now max_age feed =
     (case feed_age_ms now feed of Some age \<Rightarrow> ucast max_age < age | None \<Rightarrow> True)"

definition latest_sqrt_price :: "price_feed \<Rightarrow> u128 option" where
  "latest_sqrt_price feed = map_option rp_sqrt_price_x64 (pf_last feed)"

definition latest_liquidity :: "price_feed \<Rightarrow> u128 option" where
  "latest_liquidity feed = map_option rp_liquidity (pf_last feed)"

record price_quote =
  qt_symbol :: string
  qt_bid :: f64
  qt_ask :: f64
  qt_timestamp_ms :: u128

text \<open>The text of a key is base58, a parameter.\<close>

definition feed_to_quote :: "(pubkey \<Rightarrow> string) \<Rightarrow> price_feed \<Rightarrow> price_quote option" where
  "feed_to_quote show_key feed =
     map_option (\<lambda>pool.
       \<lparr> qt_symbol = show_key (rp_token_mint_0 pool) @ ''/'' @ show_key (rp_token_mint_1 pool), qt_bid = pool_price pool,
         qt_ask = pool_price pool, qt_timestamp_ms = (case pf_refreshed_ms feed of Some t \<Rightarrow> t | None \<Rightarrow> 0) \<rparr>) (pf_last feed)"

definition feed_latest_price :: "(pubkey \<Rightarrow> string) \<Rightarrow> string \<Rightarrow> price_feed \<Rightarrow> price_quote option" where
  "feed_latest_price show_key symbol feed =
     Option.bind (feed_to_quote show_key feed) (\<lambda>q. if qt_symbol q = symbol then Some q else None)"

section \<open>A notification\<close>

definition clmm_program_id_for :: "string \<Rightarrow> string" where
  "clmm_program_id_for url =
     (if contains ''devnet'' url then RAYDIUM_CLMM_PROGRAM_ID_DEVNET else RAYDIUM_CLMM_PROGRAM_ID)"

definition CLMM_POOL_STATE_SIZE :: nat where "CLMM_POOL_STATE_SIZE = 1544"

record ws_pool_state =
  wp_pool_id :: string
  wp_slot :: u64
  wp_sqrt_price :: u128
  wp_liquidity :: u128
  wp_tick_current :: int
  wp_timestamp_ms :: u128

definition json_array_first :: "json \<Rightarrow> json option" where
  "json_array_first v = (case v of JArray (x # _) \<Rightarrow> Some x | _ \<Rightarrow> None)"

definition json_str :: "json \<Rightarrow> string option" where
  "json_str v = (case v of JString s \<Rightarrow> Some s | _ \<Rightarrow> None)"

definition json_u64 :: "json \<Rightarrow> u64 option" where
  "json_u64 v = (case v of JNum n \<Rightarrow> Some n | _ \<Rightarrow> None)"

definition parse_account_update :: "(string \<Rightarrow> bytes option) \<Rightarrow> u128 \<Rightarrow> json \<Rightarrow> ws_pool_state option" where
  "parse_account_update b64 now msg =
     do { params \<leftarrow> json_get ''params'' msg;
          result \<leftarrow> json_get ''result'' params;
          val \<leftarrow> json_get ''value'' result;
          slot \<leftarrow> Option.bind (json_get ''slot'' val) json_u64;
          account \<leftarrow> json_get ''account'' val;
          key \<leftarrow> Option.bind (json_get ''pubkey'' account) json_str;
          data_arr \<leftarrow> json_get ''data'' account;
          text \<leftarrow> Option.bind (json_array_first data_arr) json_str;
          d \<leftarrow> b64 text;
          if length d < 273 then None
          else Some \<lparr> wp_pool_id = key, wp_slot = slot, wp_sqrt_price = u128_at d 253, wp_liquidity = u128_at d 237,
                      wp_tick_current = sint (u32_at d 269), wp_timestamp_ms = now \<rparr> }"

definition sqrt_price_to_f64 :: "u128 \<Rightarrow> f64" where
  "sqrt_price_to_f64 p = (let s = f64_div (f64_of_nat (unat p)) (f64_of_nat (2 ^ 64)) in f64_mul s s)"

section \<open>The provider\<close>

text \<open>The task of the stream: between connections, reading, or gone after a panic.\<close>

datatype ws_phase = Connecting | Reading | Panicked

record ws_provider =
  ws_prices :: "string \<rightharpoonup> price_quote"
  ws_pools :: "string \<rightharpoonup> ws_pool_state"
  ws_connected :: bool
  ws_phase_of :: ws_phase

datatype ws_event =
    ConnectResult bool                \<comment> \<open>connected; whether the subscription was sent\<close>
  | ConnectError
  | TextMessage "json option" u128    \<comment> \<open>the parsed text and the clock\<close>
  | OtherMessage
  | StreamEnd                         \<comment> \<open>a close frame, an error or the end\<close>

definition ws_new :: ws_provider where
  "ws_new = \<lparr> ws_prices = Map.empty, ws_pools = Map.empty, ws_connected = False, ws_phase_of = Connecting \<rparr>"

definition get_pool_state :: "string \<Rightarrow> ws_provider \<Rightarrow> ws_pool_state option" where
  "get_pool_state pool_id p = ws_pools p pool_id"

definition get_latest_price :: "string \<Rightarrow> ws_provider \<Rightarrow> price_quote option" where
  "get_latest_price symbol p = ws_prices p symbol"

text \<open>The first eight bytes of the key name the quote; slicing a shorter key panics.\<close>

definition store_update :: "ws_pool_state \<Rightarrow> ws_provider \<Rightarrow> ws_provider" where
  "store_update st p =
     (if length (wp_pool_id st) < 8 then p\<lparr>ws_phase_of := Panicked\<rparr>
      else
        let price = sqrt_price_to_f64 (wp_sqrt_price st); symbol = ''pool:'' @ take 8 (wp_pool_id st)
        in p\<lparr>ws_pools := (ws_pools p)(wp_pool_id st \<mapsto> st),
             ws_prices := (ws_prices p)(symbol \<mapsto>
               \<lparr> qt_symbol = symbol, qt_bid = price, qt_ask = f64_mul price (f64_round (1001 / 1000)),
                 qt_timestamp_ms = wp_timestamp_ms st \<rparr>)\<rparr>)"

definition ws_message :: "(string \<Rightarrow> bytes option) \<Rightarrow> u128 \<Rightarrow> json \<Rightarrow> ws_provider \<Rightarrow> ws_provider" where
  "ws_message b64 now msg p =
     (if Option.bind (json_get ''method'' msg) json_str = Some ''programNotification''
      then case parse_account_update b64 now msg of Some st \<Rightarrow> store_update st p | None \<Rightarrow> p
      else p)"

fun ws_step :: "(string \<Rightarrow> bytes option) \<Rightarrow> ws_event \<Rightarrow> ws_provider \<Rightarrow> ws_provider" where
  "ws_step b64 ev p =
     (case ws_phase_of p of
        Panicked \<Rightarrow> p
      | Connecting \<Rightarrow>
          (case ev of
             ConnectResult True \<Rightarrow> p\<lparr>ws_connected := True, ws_phase_of := Reading\<rparr>
           | ConnectResult False \<Rightarrow> p\<lparr>ws_connected := False\<rparr>
           | ConnectError \<Rightarrow> p\<lparr>ws_connected := False\<rparr>
           | _ \<Rightarrow> p)
      | Reading \<Rightarrow>
          (case ev of
             TextMessage (Some msg) now \<Rightarrow> ws_message b64 now msg p
           | StreamEnd \<Rightarrow> p\<lparr>ws_connected := False, ws_phase_of := Connecting\<rparr>
           | _ \<Rightarrow> p))"

text \<open>The second task, every second: a quote made up from the slot number while the stream is down.\<close>

definition fallback_poll :: "(string + u64) \<Rightarrow> u128 \<Rightarrow> ws_provider \<Rightarrow> ws_provider" where
  "fallback_poll slot now p =
     (if ws_connected p then p
      else case slot of
             Inl _ \<Rightarrow> p
           | Inr n \<Rightarrow>
               let price = f64_add 1 (f64_div (f64_of_nat (unat (n mod 100))) 10000)
               in p\<lparr>ws_prices := (ws_prices p)(''RAY/USDC'' \<mapsto>
                      \<lparr> qt_symbol = ''RAY/USDC'', qt_bid = price, qt_ask = f64_add price (f64_round (1 / 1000)),
                        qt_timestamp_ms = now \<rparr>)\<rparr>)"

definition ws_run :: "(string \<Rightarrow> bytes option) \<Rightarrow> ws_event list \<Rightarrow> ws_provider \<Rightarrow> ws_provider" where
  "ws_run b64 evs p = fold (ws_step b64) evs p"

section \<open>The price of an iteration\<close>

text \<open>A connected stream that has the pool wins; otherwise the account is read.  The four clock readings: at the refresh, for its age, for the time
  stamp and at the gate.\<close>

record price_clock =
  pk_refresh :: u128
  pk_age :: u128
  pk_stamp :: u128
  pk_gate :: u128

definition stream_state :: "ws_provider option \<Rightarrow> string \<Rightarrow> ws_pool_state option" where
  "stream_state provider pool_id =
     Option.bind provider (\<lambda>p. if ws_connected p then get_pool_state pool_id p else None)"

definition price_stamp :: "price_clock \<Rightarrow> price_feed \<Rightarrow> u128 option" where
  "price_stamp clk feed = map_option (\<lambda>age. sat_sub (pk_stamp clk) age) (feed_age_ms (pk_age clk) feed)"

datatype price_source = Websocket | RpcPoll

definition select_price ::
    "'a clmm_sdk_scheme \<Rightarrow> (pubkey \<Rightarrow> raw_account option) \<Rightarrow> ws_provider option \<Rightarrow> string \<Rightarrow> pubkey \<Rightarrow> pubkey \<Rightarrow> price_clock
       \<Rightarrow> resolve_error + u128 \<times> u128 option \<times> price_source" where
  "select_price sdk get_account provider pool_text pool_id program_id clk =
     (case stream_state provider pool_text of
        Some st \<Rightarrow> Inr (wp_sqrt_price st, Some (wp_timestamp_ms st), Websocket)
      | None \<Rightarrow>
          (case feed_refresh sdk get_account (pk_refresh clk) (feed_new pool_id program_id) of
             (Inl e, _) \<Rightarrow> Inl e
           | (Inr pool, feed) \<Rightarrow> Inr (rp_sqrt_price_x64 pool, price_stamp clk feed, RpcPoll)))"

section \<open>Properties\<close>

lemma price_fresh_iff:
  "price_freshness ts now max_age = Inr () \<longleftrightarrow> ts \<noteq> 0 \<and> ts \<le> now \<and> unat now - unat ts \<le> unat max_age"
proof -
  have u: "unat (ucast max_age :: u128) = unat max_age"
    using unsigned_less [of max_age, where 'a = nat] by (simp add: unsigned_ucast_eq take_bit_nat_eq_self_iff)
  show ?thesis
  proof (cases "ts \<le> now")
    case True
    then have "now - ts \<le> ucast max_age \<longleftrightarrow> unat now - unat ts \<le> unat max_age"
      unfolding word_le_nat_alt u by (simp add: unat_sub_small word_le_nat_alt)
    then show ?thesis using True by (auto simp: price_freshness_def)
  next
    case False
    then show ?thesis by (auto simp: price_freshness_def not_le)
  qed
qed

lemma fetched_pool:
  "fetch_pool_state sdk get_account pool_id program_id = Inr pool \<Longrightarrow>
     \<exists>data. get_account pool_id = Some (program_id, data) \<and> 273 \<le> length data
       \<and> get_range 0 8 data = Some (anchor_account_discriminator sdk ''PoolState'')
       \<and> rp_sqrt_price_x64 pool = u128_at data 253"
  by (auto simp: fetch_pool_state_def verify_clmm_account_def parse_pool_state_def ok_iff split: if_splits)

text \<open>
  The stream reads an account as the reader of the pool does: whatever a notification decodes to, the same bytes parse as a
  pool state with the same square root price, liquidity and tick.
\<close>

theorem stream_mirrors_pool_state:
  "case parse_account_update b64 now msg of
     None \<Rightarrow> True
   | Some st \<Rightarrow> \<exists>text d. b64 text = Some d \<and>
       (case parse_pool_state key d of
          Inl _ \<Rightarrow> False
        | Inr pool \<Rightarrow> rp_sqrt_price_x64 pool = wp_sqrt_price st \<and> rp_liquidity pool = wp_liquidity st
            \<and> rp_tick_current pool = wp_tick_current st)"
proof (cases "parse_account_update b64 now msg")
  case (Some st)
  then obtain body d where "b64 body = Some d" "\<not> length d < 273" "wp_sqrt_price st = u128_at d 253"
    "wp_liquidity st = u128_at d 237" "wp_tick_current st = sint (u32_at d 269)"
    by (auto simp: parse_account_update_def bind_eq_Some_conv split: if_splits)
  then show ?thesis using Some by (auto simp: parse_pool_state_def intro!: exI [of _ body] exI [of _ d])
qed simp

text \<open>
  A price that passes the freshness gate is recent and real: it is not from the future and at most the configured age old, and it was read either from
  the pool account, owned by the CLMM program and with the discriminator of a pool state, or from the state the
  connected stream holds for this very pool.
\<close>

theorem fresh_price_sound:
  "case select_price sdk get_account provider pool_text pool_id program_id clk of
     Inr (price, Some ts, source) \<Rightarrow>
       (if price_freshness ts (pk_gate clk) max_age = Inr ()
        then ts \<noteq> 0 \<and> ts \<le> pk_gate clk \<and> unat (pk_gate clk) - unat ts \<le> unat max_age
          \<and> (case source of
               Websocket \<Rightarrow> \<exists>p st. provider = Some p \<and> ws_connected p \<and> ws_pools p pool_text = Some st \<and> price = wp_sqrt_price st
                  \<and> ts = wp_timestamp_ms st
             | RpcPoll \<Rightarrow> \<exists>data. get_account pool_id = Some (program_id, data) \<and> 273 \<le> length data
                  \<and> get_range 0 8 data = Some (anchor_account_discriminator sdk ''PoolState'') \<and> price = u128_at data 253)
        else True)
   | _ \<Rightarrow> True"
  by (auto simp: select_price_def stream_state_def get_pool_state_def feed_refresh_def feed_new_def price_fresh_iff bind_eq_Some_conv
      dest: fetched_pool split: option.splits sum.splits if_splits)

section \<open>What the stream never delivers\<close>

text \<open>
  A program notification as the node documents it: the slot in the context, the key beside the account.
\<close>

definition rpc_notification :: "u64 \<Rightarrow> string \<Rightarrow> string \<Rightarrow> string \<Rightarrow> json" where
  "rpc_notification slot key owner text =
     JObject [(''jsonrpc'', JString ''2.0''), (''method'', JString ''programNotification''),
       (''params'', JObject
          [(''result'', JObject
              [(''context'', JObject [(''slot'', JNum slot)]),
               (''value'', JObject
                  [(''pubkey'', JString key),
                   (''account'', JObject
                      [(''data'', JArray [JString text, JString ''base64'']), (''executable'', JOther), (''lamports'', JNum 1),
                       (''owner'', JString owner), (''rentEpoch'', JNum 1), (''space'', JNum 1544)])])]),
           (''subscription'', JNum 1)])]"

definition documented :: "ws_event \<Rightarrow> bool" where
  "documented ev = (case ev of TextMessage (Some msg) _ \<Rightarrow> (\<exists>slot key owner text. msg = rpc_notification slot key owner text) | _ \<Rightarrow> True)"

lemma documented_not_parsed: "parse_account_update b64 now (rpc_notification slot key owner text) = None"
  by (simp add: parse_account_update_def rpc_notification_def)

lemma documented_step: "documented ev \<Longrightarrow> ws_pools (ws_step b64 ev p) = ws_pools p"
  by (auto simp: documented_def ws_message_def documented_not_parsed
      split: ws_event.splits ws_phase.splits option.splits bool.splits)

text \<open>
  The stream stays empty: as long as the node sends notifications in its documented layout, no pool state is ever stored, and every price
  is read over RPC.
\<close>

theorem documented_stream_empty:
  assumes "list_all documented evs"
  shows "ws_pools (ws_run b64 evs ws_new) = Map.empty \<and> stream_state (Some (ws_run b64 evs ws_new)) pool_id = None"
proof -
  have "ws_pools (fold (ws_step b64) evs p) = ws_pools p" for p
    using assms by (induction evs arbitrary: p) (simp_all add: documented_step del: ws_step.simps)
  then show ?thesis by (simp add: ws_run_def ws_new_def stream_state_def get_pool_state_def)
qed

theorem documented_stream_empty_witness:
  "ws_pools (ws_run (\<lambda>_. Some (replicate 1544 0))
     [ConnectResult True, TextMessage (Some (rpc_notification 9 ''Pool1234'' ''CAMM'' ''AAAA'')) 7, StreamEnd] ws_new) = Map.empty"
proof -
  have "list_all documented [ConnectResult True, TextMessage (Some (rpc_notification 9 ''Pool1234'' ''CAMM'' ''AAAA'')) 7, StreamEnd]"
    by (auto simp: documented_def)
  from documented_stream_empty [OF this] show ?thesis by blast
qed

text \<open>A notification with a short key ends the task, and the provider stays connected with the prices it had.\<close>

lemma panicked_stays: "ws_phase_of p = Panicked \<Longrightarrow> ws_run b64 evs p = p"
  unfolding ws_run_def by (induction evs) simp_all

lemma short_key_panics:
  "ws_phase_of p = Reading \<Longrightarrow> length (wp_pool_id st) < 8 \<Longrightarrow> ws_connected p \<Longrightarrow>
     ws_connected (ws_run b64 evs (store_update st p)) \<and> ws_pools (ws_run b64 evs (store_update st p)) = ws_pools p"
  by (simp add: store_update_def panicked_stays)

text \<open>An old state of a connected stream keeps the pool from being read.\<close>

lemma stale_stream_blocks:
  assumes "stream_state provider pool_text = Some st" "unat (wp_timestamp_ms st) + unat max_age < unat (pk_gate clk)"
  shows "\<exists>price ts source. select_price sdk get_account provider pool_text pool_id program_id clk = Inr (price, Some ts, source)
    \<and> price_freshness ts (pk_gate clk) max_age \<noteq> Inr ()"
  using assms by (auto simp: select_price_def price_fresh_iff)

end
