(* ===== verification/Paper_Data.thy ===== *)
theory Paper_Data
  imports Market_Feed Live_Exit Pumpswap_Quote
begin

text \<open>
  \<open>solana-sniper/src/main.rs\<close>: the market data of a paper iteration and the gates on it, for both kinds of pools, and the
  measurement of a PumpSwap pool by simulation.  The answers of the node and the clock are fields of a record, the caches of the process a state.
\<close>

section \<open>The rest of the command line\<close>

record run_args =
  ru_args :: args
  ru_pool_liquidity :: u64
  ru_pool_market_cap :: u64
  ru_pool_holders :: u64
  ru_pool_blocklisted :: bool
  ru_max_top_holder_pct :: f64
  ru_max_spend_sol :: f64
  ru_signal_gate :: bool
  ru_signal_min_confidence :: u32
  ru_signal_sample_ms :: u64
  ru_signal_max_age_ms :: u64
  ru_blockhash :: "string option"
  ru_iterations :: u32
  ru_single_trade :: bool
  ru_entry_window_secs :: u64
  ru_paper_latency_bps :: u64

section \<open>A cache of one entry\<close>

record ('k, 'v) ttl_slot =
  tl_slot :: "('k \<times> u64 \<times> 'v) option"
  tl_ttl_ms :: u64

definition PAPER_ACCOUNTS_TTL_MS :: u64 where "PAPER_ACCOUNTS_TTL_MS = 300000"

definition ttl_new :: "u64 \<Rightarrow> ('k, 'v) ttl_slot" where
  "ttl_new ttl = \<lparr> tl_slot = None, tl_ttl_ms = ttl \<rparr>"

definition ttl_get :: "'k \<Rightarrow> u64 \<Rightarrow> ('k, 'v) ttl_slot \<Rightarrow> 'v option" where
  "ttl_get key now s =
     (case tl_slot s of
        Some (k, stored, v) \<Rightarrow> if k = key \<and> stored \<le> now \<and> now - stored < tl_ttl_ms s then Some v else None
      | None \<Rightarrow> None)"

definition ttl_put :: "'k \<Rightarrow> u64 \<Rightarrow> 'v \<Rightarrow> ('k, 'v) ttl_slot \<Rightarrow> ('k, 'v) ttl_slot" where
  "ttl_put key now v s = s\<lparr>tl_slot := Some (key, now, v)\<rparr>"

type_synonym pool_key = "pubkey \<times> pubkey \<times> pubkey"

record paper_caches =
  pca_revoked :: revoked_mints
  pca_holders :: holder_caches
  pca_vaults :: vault_cache
  pca_accounts :: "(pool_key, swap_accounts \<times> resolved_pool) ttl_slot"

section \<open>Answers\<close>

record paper_node =
  pn_sdk :: swap_sdk
  pn_account :: "pubkey \<Rightarrow> raw_account option"
  pn_batch :: "pubkey list \<Rightarrow> raw_account option list option"
  pn_multi :: "nat \<Rightarrow> pubkey list \<Rightarrow> raw_account option list option"
  pn_rpc :: holder_rpc
  pn_now_ns :: nat
  pn_now_ms :: u64
  pn_clock :: price_clock
  pn_provider :: "ws_provider option"

datatype unavailable =
    BadPoolId | BadInMint | BadOutMint | TokenPolicyError startup_error | MintCheck mint_error | HolderFetch holder_error
  | PumpRead pump_error | PumpMints | NoUsablePrice | PoolRead resolve_error | AccountsRead resolve_error
  | LiquidityRead "string option"

datatype paper_data_error = Unavailable unavailable | Rejected reject_reason

record paper_market_snapshot =
  pm_sqrt_price :: u128
  pm_liquidity :: u64
  pm_market_cap :: u64
  pm_holders :: u64
  pm_blocklisted :: bool
  pm_source :: price_source
  pm_input_is_token0 :: bool
  pm_fee_ppm :: u64

section \<open>The token gates\<close>

fun mint_gate :: "paper_node \<Rightarrow> token_policy \<Rightarrow> pubkey list \<Rightarrow> revoked_mints \<Rightarrow> (paper_data_error + unit) \<times> revoked_mints" where
  "mint_gate nd policy [] s = (Inr (), s)"
| "mint_gate nd policy (mint # mints) s =
     (case fetch_mint_authority_risk_cached (pn_sdk nd) (pn_rpc nd) mint policy s of
        (Inl e, s) \<Rightarrow> (Inl (Unavailable (MintCheck e)), s)
      | (Inr risk, s) \<Rightarrow> if is_risky risk then (Inl (Rejected TokenAuthorityRisk), s) else mint_gate nd policy mints s)"

fun verdict_reason :: "holder_verdict \<Rightarrow> reject_reason option" where
  "verdict_reason HolderOk = None"
| "verdict_reason (IdenticalBalances n) = Some SybilHolders"
| "verdict_reason _ = Some HolderConcentrationExceeded"

definition holder_gate ::
    "paper_node \<Rightarrow> pubkey \<Rightarrow> pubkey list \<Rightarrow> holder_caches \<Rightarrow> (paper_data_error + holder_stats) \<times> holder_caches" where
  "holder_gate nd mint vaults hc =
     (case fetch_holder_stats_cached (pn_rpc nd) (pn_now_ns nd) mint vaults hc of
        (Inl e, hc) \<Rightarrow> (Inl (Unavailable (HolderFetch e)), hc)
      | (Inr st, hc) \<Rightarrow>
          (case verdict_reason (holder_concentration_verdict st) of Some r \<Rightarrow> Inl (Rejected r) | None \<Rightarrow> Inr st, hc))"

text \<open>The number of holders and the share of the largest.\<close>

definition paper_token_gates ::
    "run_args \<Rightarrow> paper_node \<Rightarrow> pubkey \<Rightarrow> pubkey \<Rightarrow> pubkey list \<Rightarrow> paper_caches
       \<Rightarrow> (paper_data_error + u64 \<times> f64) \<times> paper_caches" where
  "paper_token_gates ru nd input_mint output_mint vaults c =
     (let a = ru_args ru in
      case select_token_policy (ar_paper_token_2022 a) (ar_paper a) (ar_live a) (ar_dry_run a) (ar_amm a) of
        Inl e \<Rightarrow> (Inl (Unavailable (TokenPolicyError e)), c)
      | Inr policy \<Rightarrow>
        (case mint_gate nd policy [input_mint, output_mint] (pca_revoked c) of
           (Inl e, s) \<Rightarrow> (Inl e, c\<lparr>pca_revoked := s\<rparr>)
         | (Inr _, s) \<Rightarrow>
             let c = c\<lparr>pca_revoked := s\<rparr> in
             if \<not> ar_live_risk_data a then (Inr (ru_pool_holders ru, 0), c)
             else case holder_gate nd output_mint vaults (pca_holders c) of
                    (r, hc) \<Rightarrow> (map_sum id (\<lambda>st. (hs_sampled st, hs_top_pct st)) r, c\<lparr>pca_holders := hc\<rparr>)))"

definition snapshot_blocked :: "run_args \<Rightarrow> pubkey set \<Rightarrow> pubkey \<Rightarrow> pubkey \<Rightarrow> f64 \<Rightarrow> bool" where
  "snapshot_blocked ru blocklist input_mint output_mint top_pct \<longleftrightarrow>
     ru_pool_blocklisted ru \<or> input_mint \<in> blocklist \<or> output_mint \<in> blocklist
     \<or> ar_live_risk_data (ru_args ru) \<and> ru_max_top_holder_pct ru < top_pct"

section \<open>A PumpSwap pool\<close>

definition snapshot_fee_bps :: "pump_snapshot \<Rightarrow> u64" where
  "snapshot_fee_bps s = lp_bps (ps_fees s) + protocol_bps (ps_fees s) + creator_bps (ps_fees s)"

text \<open>The vaults, which are not holders.\<close>

definition pump_vaults :: "pump_snapshot \<Rightarrow> pubkey list" where
  "pump_vaults s = [pp_base_account (ps_pool s), pp_quote_account (ps_pool s)]"

definition read_pump ::
    "paper_node \<Rightarrow> pubkey \<Rightarrow> pubkey \<Rightarrow> pubkey \<Rightarrow> paper_caches \<Rightarrow> (unavailable + pump_snapshot) \<times> paper_caches" where
  "read_pump nd pool_id input_mint output_mint c =
     (case fetch_snapshot (solana_sdk.truncate (pn_sdk nd)) (pn_account nd) (pn_batch nd) pool_id (pca_vaults c) of
        (r, vc) \<Rightarrow>
          (and_then (map_err PumpRead r) (\<lambda>s.
             if input_mint \<noteq> pp_quote_mint (ps_pool s) \<or> output_mint \<noteq> pp_base_mint (ps_pool s) then Inl PumpMints else Inr s),
           c\<lparr>pca_vaults := vc\<rparr>))"

definition resolve_pumpswap_market_data ::
    "run_args \<Rightarrow> paper_node \<Rightarrow> pubkey set \<Rightarrow> pubkey \<Rightarrow> pubkey \<Rightarrow> pubkey \<Rightarrow> paper_caches
       \<Rightarrow> (paper_data_error + paper_market_snapshot) \<times> paper_caches" where
  "resolve_pumpswap_market_data ru nd blocklist pool_id input_mint output_mint c =
     (case read_pump nd pool_id input_mint output_mint c of
        (Inl e, c) \<Rightarrow> (Inl (Unavailable e), c)
      | (Inr s, c) \<Rightarrow>
        (case sqrt_price_x64 (ps_base_reserve s) (ps_effective_quote s) of
           None \<Rightarrow> (Inl (Unavailable NoUsablePrice), c)
         | Some price \<Rightarrow>
           (case paper_token_gates ru nd input_mint output_mint (pump_vaults s) c of
              (Inl e, c) \<Rightarrow> (Inl e, c)
            | (Inr (n_holders, top_pct), c) \<Rightarrow>
                (Inr \<lparr> pm_sqrt_price = price,
                       pm_liquidity = (if ar_live_risk_data (ru_args ru) then ps_real_quote s else ru_pool_liquidity ru),
                       pm_market_cap = ru_pool_market_cap ru, pm_holders = n_holders,
                       pm_blocklisted = snapshot_blocked ru blocklist input_mint output_mint top_pct,
                       pm_source = RpcPoll, pm_input_is_token0 = False,
                       pm_fee_ppm = sat_mul (snapshot_fee_bps s) 100 \<rparr>, c))))"

section \<open>A CLMM pool\<close>

definition paper_accounts ::
    "paper_node \<Rightarrow> pool_key \<Rightarrow> pubkey \<Rightarrow> paper_caches \<Rightarrow> (unavailable + swap_accounts \<times> resolved_pool) \<times> paper_caches" where
  "paper_accounts nd key program_id c =
     (case ttl_get key (pn_now_ms nd) (pca_accounts c) of
        Some v \<Rightarrow> (Inr v, c)
      | None \<Rightarrow>
        (case key of (pool_id, input_mint, output_mint) \<Rightarrow>
          (case resolve_swap_accounts (pn_sdk nd) (pn_account nd) (pn_multi nd) pool_id default_key input_mint output_mint program_id of
             Inl e \<Rightarrow> (Inl (AccountsRead e), c)
           | Inr v \<Rightarrow> (Inr v, c\<lparr>pca_accounts := ttl_put key (pn_now_ms nd) v (pca_accounts c)\<rparr>))))"

definition paper_liquidity :: "run_args \<Rightarrow> paper_node \<Rightarrow> swap_accounts \<Rightarrow> paper_data_error + u64" where
  "paper_liquidity ru nd acc =
     (if ar_live_risk_data (ru_args ru)
      then map_err (\<lambda>e. Unavailable (LiquidityRead e)) (fetch_vault_liquidity (pn_rpc nd) (sa_input_vault acc))
      else Inr (ru_pool_liquidity ru))"

text \<open>The price and its freshness; a missing time stamp counts as zero.\<close>

definition paper_price ::
    "paper_node \<Rightarrow> u64 \<Rightarrow> string \<Rightarrow> pubkey \<Rightarrow> pubkey \<Rightarrow> paper_data_error + u128 \<times> price_source" where
  "paper_price nd max_age pool_text pool_id program_id =
     (case select_price (pn_sdk nd) (pn_account nd) (pn_provider nd) pool_text pool_id program_id (pn_clock nd) of
        Inl e \<Rightarrow> Inl (Unavailable (PoolRead e))
      | Inr (price, ts, source) \<Rightarrow>
          and_then (map_err Rejected (price_freshness (case ts of Some t \<Rightarrow> t | None \<Rightarrow> 0) (pk_gate (pn_clock nd)) max_age)) (\<lambda>_.
          Inr (price, source)))"

definition resolve_clmm_market_data ::
    "run_args \<Rightarrow> risk_config \<Rightarrow> paper_node \<Rightarrow> pubkey set \<Rightarrow> string \<Rightarrow> pubkey \<Rightarrow> pubkey \<Rightarrow> pubkey \<Rightarrow> paper_caches
       \<Rightarrow> (paper_data_error + paper_market_snapshot) \<times> paper_caches" where
  "resolve_clmm_market_data ru cfg nd blocklist pool_text pool_id input_mint output_mint c =
     (let program_id = clmm_program_id (pn_sdk nd) (ar_rpc (ru_args ru)) in
      case paper_price nd (rc_price_staleness_ms cfg) pool_text pool_id program_id of
        Inl e \<Rightarrow> (Inl e, c)
      | Inr (price, source) \<Rightarrow>
        (case paper_accounts nd (pool_id, input_mint, output_mint) program_id c of
           (Inl e, c) \<Rightarrow> (Inl (Unavailable e), c)
         | (Inr (acc, pool), c) \<Rightarrow>
           (case paper_token_gates ru nd input_mint output_mint [sa_input_vault acc, sa_output_vault acc] c of
              (Inl e, c) \<Rightarrow> (Inl e, c)
            | (Inr (n_holders, top_pct), c) \<Rightarrow>
                (and_then (paper_liquidity ru nd acc) (\<lambda>liquidity.
                   Inr \<lparr> pm_sqrt_price = price, pm_liquidity = liquidity, pm_market_cap = ru_pool_market_cap ru,
                         pm_holders = n_holders, pm_blocklisted = snapshot_blocked ru blocklist input_mint output_mint top_pct,
                         pm_source = source, pm_input_is_token0 = (sa_input_vault acc = rp_token_vault_0 pool),
                         pm_fee_ppm = (case rp_trade_fee_rate pool of Some r \<Rightarrow> ucast r | None \<Rightarrow> 10000) \<rparr>), c))))"

definition parse_target :: "swap_sdk \<Rightarrow> args \<Rightarrow> unavailable + string \<times> pubkey \<times> pubkey \<times> pubkey" where
  "parse_target sdk a =
     and_then (ok_or BadPoolId (Option.bind (ar_pool_id a) (parse_pk sdk))) (\<lambda>pool_id.
     and_then (ok_or BadInMint (Option.bind (ar_input_mint a) (parse_pk sdk))) (\<lambda>input_mint.
     and_then (ok_or BadOutMint (Option.bind (ar_output_mint a) (parse_pk sdk))) (\<lambda>output_mint.
     Inr (the (ar_pool_id a), pool_id, input_mint, output_mint))))"

definition resolve_paper_market_data ::
    "run_args \<Rightarrow> risk_config \<Rightarrow> paper_node \<Rightarrow> pubkey set \<Rightarrow> paper_caches \<Rightarrow> (paper_data_error + paper_market_snapshot) \<times> paper_caches" where
  "resolve_paper_market_data ru cfg nd blocklist c =
     (case parse_target (pn_sdk nd) (ru_args ru) of
        Inl e \<Rightarrow> (Inl (Unavailable e), c)
      | Inr (pool_text, pool_id, input_mint, output_mint) \<Rightarrow>
          if ar_amm (ru_args ru) = PumpswapAmm
          then resolve_pumpswap_market_data ru nd blocklist pool_id input_mint output_mint c
          else resolve_clmm_market_data ru cfg nd blocklist pool_text pool_id input_mint output_mint c)"

section \<open>The measurement of a PumpSwap pool\<close>

record pump_env =
  pu_balance :: "pubkey \<Rightarrow> string + bytes option"
  pu_simulate :: "instr list \<Rightarrow> pubkey \<Rightarrow> pubkey list \<Rightarrow> sim_response option"
  pu_global_config :: "raw_account option"

datatype dry_error =
    DryData unavailable | GlobalConfigRead | GlobalConfigBad pix_error | ModelFailed pump_error | DryBalance balance_error
  | DryBuild pix_error | EntrySimulation sim_error | WsolRose | NoTokensDelivered | LargestRead string | HolderAccounts string

datatype exit_measurement =
    NoWalletHolds | ExitSimulation pubkey sim_error
  | ExitMeasured pubkey u64 u64 "i64 option"   \<comment> \<open>the holder, the modelled and the simulated output, the deviation\<close>

record pump_measurement =
  me_fee_bps :: u64
  me_liquidity :: u64
  me_position :: u64
  me_model_base :: u64
  me_simulated_base :: u64
  me_quote_spent :: u64
  me_deviation :: "i64 option"
  me_exit :: exit_measurement

datatype pump_dry_result = DryRejected string | Measured pump_measurement

definition max_quote_in_of :: "args \<Rightarrow> u64 \<Rightarrow> u64" where
  "max_quote_in_of a position = sat_add position (sat_mul position (ar_max_slippage_bps a) div 10000)"

text \<open>The simulated buy: the quote spent and the tokens delivered.\<close>

definition measure_entry ::
    "paper_node \<Rightarrow> pump_env \<Rightarrow> pump_snapshot \<Rightarrow> global_config \<Rightarrow> pubkey \<Rightarrow> pubkey \<Rightarrow> u64 \<Rightarrow> u64 \<Rightarrow> dry_error + u64 \<times> u64" where
  "measure_entry nd pu s gc payer pool_id model_base max_in =
     (let sdk = solana_sdk.truncate (pn_sdk nd);
          wsol_account = ata sdk payer (pp_quote_mint (ps_pool s)) (key_of sdk SPL_TOKEN_PROGRAM);
          base_account = ata sdk payer (pp_base_mint (ps_pool s)) (ps_base_token_program s)
      in
      and_then (map_err DryBalance (fetch_token_balance (pu_balance pu) wsol_account)) (\<lambda>pre_wsol.
      and_then (map_err DryBalance (fetch_token_balance (pu_balance pu) base_account)) (\<lambda>pre_base.
      and_then (map_err DryBuild (swap_instructions sdk (sys_transfer (pn_sdk nd)) pool_id (ps_pool_data_len s) (ps_pool s) gc payer
                  (ps_base_token_program s) (Buy model_base max_in))) (\<lambda>buy.
      and_then (map_err EntrySimulation (simulate_token_accounts (pu_simulate pu buy payer [wsol_account, base_account]) 2)) (\<lambda>(post, _).
      and_then (ok_or WsolRose
                  (Option.bind (checked_sub (ucast pre_wsol + ucast max_in :: u128) (ucast (case post ! 0 of Some n \<Rightarrow> n | None \<Rightarrow> 0)))
                     (\<lambda>v. if unat v < 2 ^ 64 then Some (ucast v) else None))) (\<lambda>spent.
      and_then (ok_or NoTokensDelivered
                  (Option.bind (checked_sub (case post ! 1 of Some n \<Rightarrow> n | None \<Rightarrow> 0) pre_base)
                     (\<lambda>v. if 0 < v then Some v else None))) (\<lambda>got.
      Inr (spent, got))))))))"

text \<open>The simulated sale of the same amount by a wallet that holds it.\<close>

definition measure_exit ::
    "paper_node \<Rightarrow> pump_env \<Rightarrow> pump_snapshot \<Rightarrow> global_config \<Rightarrow> pubkey \<Rightarrow> u64 \<Rightarrow> dry_error + exit_measurement" where
  "measure_exit nd pu s gc pool_id model_base =
     (let sdk = solana_sdk.truncate (pn_sdk nd); pool = ps_pool s in
      and_then (map_err LargestRead (largest_accounts (pn_rpc nd) (pp_base_mint pool))) (\<lambda>largest.
      let addrs = List.map_filter (\<lambda>(x, _). from_str (pn_rpc nd) x) largest in
      and_then (map_err HolderAccounts (multiple_accounts (pn_rpc nd) addrs)) (\<lambda>accs.
      case pick_holder sdk (curve_point (pn_rpc nd)) (pp_base_mint pool) (ps_base_token_program s) (zip addrs accs) model_base of
        None \<Rightarrow> Inr NoWalletHolds
      | Some holder \<Rightarrow>
          and_then (map_err ModelFailed
                      (sell_exact_base_in model_base (ps_base_reserve s) (ps_quote_vault s) (pp_virtual_quote pool)
                         (sat_add (pp_protocol_fees pool) (pp_creator_fees pool)) (ps_fees s))) (\<lambda>model_out.
          let holder_wsol = ata sdk holder (pp_quote_mint pool) (key_of sdk SPL_TOKEN_PROGRAM) in
          and_then (map_err DryBalance (fetch_token_balance (pu_balance pu) holder_wsol)) (\<lambda>pre.
          and_then (map_err DryBuild (swap_instructions sdk (sys_transfer (pn_sdk nd)) pool_id (ps_pool_data_len s) pool gc holder
                      (ps_base_token_program s) (Sell model_base 1))) (\<lambda>sell.
          case simulate_token_accounts (pu_simulate pu sell holder [holder_wsol]) 1 of
            Inl e \<Rightarrow> Inr (ExitSimulation holder e)
          | Inr (post, _) \<Rightarrow>
              let received = sat_sub (case post ! 0 of Some n \<Rightarrow> n | None \<Rightarrow> 0) pre
              in Inr (ExitMeasured holder model_out received (deviation_bps model_out received))))))))"

definition measure_pool ::
    "paper_node \<Rightarrow> pump_env \<Rightarrow> args \<Rightarrow> pump_snapshot \<Rightarrow> pubkey \<Rightarrow> pubkey \<Rightarrow> u64 \<Rightarrow> dry_error + pump_measurement" where
  "measure_pool nd pu a s payer pool_id position =
     (let sdk = solana_sdk.truncate (pn_sdk nd) in
      and_then (ok_or GlobalConfigRead (pu_global_config pu)) (\<lambda>(owner, data).
      and_then (map_err GlobalConfigBad (parse_global_config sdk owner data)) (\<lambda>gc.
      and_then (map_err ModelFailed (buy_exact_quote_in position (ps_base_reserve s) (ps_effective_quote s) (ps_fees s))) (\<lambda>model_base.
      and_then (measure_entry nd pu s gc payer pool_id model_base (max_quote_in_of a position)) (\<lambda>(spent, got).
      and_then (measure_exit nd pu s gc pool_id model_base) (\<lambda>ex.
      Inr \<lparr> me_fee_bps = snapshot_fee_bps s, me_liquidity = ps_real_quote s, me_position = position, me_model_base = model_base,
            me_simulated_base = got, me_quote_spent = spent, me_deviation = deviation_bps position spent, me_exit = ex \<rparr>))))))"

definition pumpswap_dry_run ::
    "run_args \<Rightarrow> paper_node \<Rightarrow> pump_env \<Rightarrow> pubkey \<Rightarrow> u64 \<Rightarrow> paper_caches \<Rightarrow> (dry_error + pump_dry_result) \<times> paper_caches" where
  "pumpswap_dry_run ru nd pu payer position c =
     (let a = ru_args ru in
      case parse_target (pn_sdk nd) a of
        Inl e \<Rightarrow> (Inl (DryData e), c)
      | Inr (_, pool_id, input_mint, output_mint) \<Rightarrow>
        (case read_pump nd pool_id input_mint output_mint c of
           (Inl e, c) \<Rightarrow> (Inl (DryData e), c)
         | (Inr s, c) \<Rightarrow>
           (case paper_token_gates ru nd input_mint output_mint (pump_vaults s) c of
              (Inl (Rejected r), c) \<Rightarrow> (Inr (DryRejected (reject_code r)), c)
            | (Inl (Unavailable e), c) \<Rightarrow> (Inl (DryData e), c)
            | (Inr _, c) \<Rightarrow>
                if ps_real_quote s < sol_to_lamports (case ar_min_liquidity_sol a of Some x \<Rightarrow> x | None \<Rightarrow> 0)
                then (Inr (DryRejected ''insufficient_liquidity''), c)
                else (map_sum id Measured (measure_pool nd pu a s payer pool_id position), c))))"

section \<open>What a snapshot has passed\<close>

definition read_clean :: "paper_node \<Rightarrow> token_policy \<Rightarrow> revoked_mints \<Rightarrow> pubkey \<Rightarrow> bool" where
  "read_clean nd policy s mint \<longleftrightarrow> (mint, policy) \<in> s
     \<or> (\<exists>risk. fetch_mint_authority_risk (pn_sdk nd) (pn_rpc nd) mint policy = Inr risk \<and> \<not> is_risky risk)"

lemma cached_risk:
  assumes "fetch_mint_authority_risk_cached (pn_sdk nd) (pn_rpc nd) mint policy s = (Inr risk, s')" "\<not> is_risky risk"
  shows "read_clean nd policy s mint \<and> (read_clean nd policy s' m \<longrightarrow> read_clean nd policy s m)"
  using assms by (auto simp: fetch_mint_authority_risk_cached_def revoked_contains_def revoked_record_def read_clean_def
      split: if_splits sum.splits)

lemma mint_gate_clean: "mint_gate nd policy mints s = (Inr (), s') \<Longrightarrow> list_all (read_clean nd policy s) mints"
proof (induction mints arbitrary: s)
  case (Cons mint mints)
  then obtain risk s1 where r: "fetch_mint_authority_risk_cached (pn_sdk nd) (pn_rpc nd) mint policy s = (Inr risk, s1)"
      "\<not> is_risky risk" and g: "mint_gate nd policy mints s1 = (Inr (), s')"
    by (auto split: prod.splits sum.splits if_splits)
  show ?case using Cons.IH [OF g] cached_risk [OF r] by (simp add: list_all_iff)
qed simp

lemma verdict_ok: "verdict_reason v = None \<longleftrightarrow> v = HolderOk"
  by (cases v) simp_all

text \<open>The statistics the holder gate let through: fresh ones of the cache, or just read.\<close>

definition stats_seen :: "paper_node \<Rightarrow> pubkey \<Rightarrow> pubkey list \<Rightarrow> holder_caches \<Rightarrow> holder_stats \<Rightarrow> bool" where
  "stats_seen nd mint vaults hc st \<longleftrightarrow>
     fresh_holder_stats (hc_stats hc) mint (pn_now_ns nd) = Some st \<or> fetch_holder_stats (pn_rpc nd) mint vaults = Inr st"

lemma holder_gate_ok:
  "holder_gate nd mint vaults hc = (Inr st, hc') \<Longrightarrow> stats_seen nd mint vaults hc st \<and> holder_concentration_verdict st = HolderOk"
  by (auto simp: holder_gate_def fetch_holder_stats_cached_def stats_seen_def verdict_ok Let_def
      split: prod.splits sum.splits option.splits if_splits)

lemma map_sum_Inr [simp, ok_iff]: "map_sum id f x = Inr y \<longleftrightarrow> (\<exists>z. x = Inr z \<and> y = f z)"
  by (cases x) auto

definition gates_passed :: "run_args \<Rightarrow> paper_node \<Rightarrow> pubkey \<Rightarrow> pubkey \<Rightarrow> pubkey list \<Rightarrow> paper_caches \<Rightarrow> u64 \<times> f64 \<Rightarrow> bool" where
  "gates_passed ru nd input_mint output_mint vaults c r \<longleftrightarrow>
     (\<exists>policy. select_token_policy (ar_paper_token_2022 (ru_args ru)) (ar_paper (ru_args ru)) (ar_live (ru_args ru))
          (ar_dry_run (ru_args ru)) (ar_amm (ru_args ru)) = Inr policy
        \<and> read_clean nd policy (pca_revoked c) input_mint \<and> read_clean nd policy (pca_revoked c) output_mint)
     \<and> (if ar_live_risk_data (ru_args ru)
        then \<exists>st. stats_seen nd output_mint vaults (pca_holders c) st \<and> holder_concentration_verdict st = HolderOk
               \<and> r = (hs_sampled st, hs_top_pct st)
        else r = (ru_pool_holders ru, 0))"

lemma gates_same:
  "pca_revoked c1 = pca_revoked c \<Longrightarrow> pca_holders c1 = pca_holders c
     \<Longrightarrow> gates_passed ru nd im om vaults c1 r = gates_passed ru nd im om vaults c r"
  unfolding gates_passed_def by (simp only:)

lemma token_gates_passed:
  assumes "paper_token_gates ru nd input_mint output_mint vaults c = (Inr r, c')"
  shows "gates_passed ru nd input_mint output_mint vaults c r"
proof -
  obtain policy s where p: "select_token_policy (ar_paper_token_2022 (ru_args ru)) (ar_paper (ru_args ru)) (ar_live (ru_args ru))
      (ar_dry_run (ru_args ru)) (ar_amm (ru_args ru)) = Inr policy" and m: "mint_gate nd policy [input_mint, output_mint] (pca_revoked c) = (Inr (), s)"
    using assms unfolding paper_token_gates_def Let_def by (auto split: sum.splits prod.splits)
  note clean = mint_gate_clean [OF m]
  show ?thesis
    using assms p m clean holder_gate_ok [of nd output_mint vaults "pca_holders c"]
    unfolding paper_token_gates_def gates_passed_def Let_def by (auto split: sum.splits prod.splits if_splits)
qed

text \<open>
  A paper snapshot has passed every gate: both mints were read without a mint or freeze authority under the token policy of the run,
  the holders of the bought token passed the concentration gate when on-chain risk data is on, the block list and the largest
  holder decide the flag, and the price of a CLMM pool was fresh.
\<close>

theorem paper_snapshot_gated:
  "case resolve_paper_market_data ru cfg nd blocklist c of
     (Inl _, _) \<Rightarrow> True
   | (Inr snap, _) \<Rightarrow>
       \<exists>pool_text pool_id input_mint output_mint vaults top_pct.
         parse_target (pn_sdk nd) (ru_args ru) = Inr (pool_text, pool_id, input_mint, output_mint)
         \<and> gates_passed ru nd input_mint output_mint vaults c (pm_holders snap, top_pct)
         \<and> pm_blocklisted snap = snapshot_blocked ru blocklist input_mint output_mint top_pct
         \<and> (if ar_amm (ru_args ru) = PumpswapAmm then pm_source snap = RpcPoll
            else \<exists>ts. price_freshness ts (pk_gate (pn_clock nd)) (rc_price_staleness_ms cfg) = Inr ())"
proof (cases "resolve_paper_market_data ru cfg nd blocklist c")
  case (Pair r c2)
  show ?thesis
  proof (cases r)
    case (Inr snap)
    obtain pool_text pool_id im om where t: "parse_target (pn_sdk nd) (ru_args ru) = Inr (pool_text, pool_id, im, om)"
      using Pair Inr by (auto simp: resolve_paper_market_data_def split: sum.splits prod.splits)
    show ?thesis
    proof (cases "ar_amm (ru_args ru) = PumpswapAmm")
      case True
      then have "resolve_pumpswap_market_data ru nd blocklist pool_id im om c = (Inr snap, c2)"
        using Pair Inr t by (simp add: resolve_paper_market_data_def)
      then obtain s c1 n pct where s: "read_pump nd pool_id im om c = (Inr s, c1)"
          and g: "paper_token_gates ru nd im om (pump_vaults s) c1 = (Inr (n, pct), c2)"
          and f: "pm_holders snap = n" "pm_blocklisted snap = snapshot_blocked ru blocklist im om pct" "pm_source snap = RpcPoll"
        unfolding resolve_pumpswap_market_data_def by (auto split: sum.splits prod.splits option.splits)
      have "pca_revoked c1 = pca_revoked c" "pca_holders c1 = pca_holders c"
        using s by (auto simp: read_pump_def split: prod.splits)
      then have "gates_passed ru nd im om (pump_vaults s) c (n, pct)"
        using token_gates_passed [OF g] gates_same by metis
      then show ?thesis using Pair Inr t True f by auto
    next
      case False
      then have "resolve_clmm_market_data ru cfg nd blocklist pool_text pool_id im om c = (Inr snap, c2)"
        using Pair Inr t by (simp add: resolve_paper_market_data_def)
      then obtain p acc pool c1 n pct where
          p: "paper_price nd (rc_price_staleness_ms cfg) pool_text pool_id (clmm_program_id (pn_sdk nd) (ar_rpc (ru_args ru))) = Inr p"
          and a: "paper_accounts nd (pool_id, im, om) (clmm_program_id (pn_sdk nd) (ar_rpc (ru_args ru))) c = (Inr (acc, pool), c1)"
          and g: "paper_token_gates ru nd im om [sa_input_vault acc, sa_output_vault acc] c1 = (Inr (n, pct), c2)"
          and f: "pm_holders snap = n" "pm_blocklisted snap = snapshot_blocked ru blocklist im om pct"
        unfolding resolve_clmm_market_data_def Let_def by (auto simp: ok_iff split: sum.splits prod.splits)
      have "pca_revoked c1 = pca_revoked c" "pca_holders c1 = pca_holders c"
        using a by (auto simp: paper_accounts_def split: option.splits sum.splits)
      then have "gates_passed ru nd im om [sa_input_vault acc, sa_output_vault acc] c (n, pct)"
        using token_gates_passed [OF g] gates_same by metis
      moreover have "\<exists>ts. price_freshness ts (pk_gate (pn_clock nd)) (rc_price_staleness_ms cfg) = Inr ()"
        using p by (auto simp: paper_price_def ok_iff split: sum.splits prod.splits)
      ultimately show ?thesis using Pair Inr t False f by auto
    qed
  qed (use Pair in simp)
qed

section \<open>The cached accounts\<close>

lemma ttl_put_get: "ttl_get key now (ttl_put key now v s) = (if tl_ttl_ms s = 0 then None else Some v)"
  by (simp add: ttl_get_def ttl_put_def word_gt_0)

type_synonym accounts_call = "paper_node \<times> pool_key \<times> pubkey"

definition accounts_after :: "accounts_call list \<Rightarrow> paper_caches \<Rightarrow> paper_caches" where
  "accounts_after calls c = fold (\<lambda>(nd, key, program_id) c. snd (paper_accounts nd key program_id c)) calls c"

definition resolved_by :: "accounts_call \<Rightarrow> pool_key \<Rightarrow> swap_accounts \<times> resolved_pool \<Rightarrow> bool" where
  "resolved_by call key v \<longleftrightarrow>
     (case call of (nd, (pool_id, input_mint, output_mint), program_id) \<Rightarrow>
        key = (pool_id, input_mint, output_mint)
        \<and> resolve_swap_accounts (pn_sdk nd) (pn_account nd) (pn_multi nd) pool_id default_key input_mint output_mint program_id = Inr v)"

definition slot_ok :: "accounts_call list \<Rightarrow> paper_caches \<Rightarrow> bool" where
  "slot_ok calls c \<longleftrightarrow> tl_ttl_ms (pca_accounts c) = PAPER_ACCOUNTS_TTL_MS
     \<and> (case tl_slot (pca_accounts c) of
          None \<Rightarrow> True
        | Some (k, stored, v) \<Rightarrow> \<exists>call. call \<in> set calls \<and> pn_now_ms (fst call) = stored \<and> resolved_by call k v)"

lemma slot_step:
  "slot_ok calls c \<Longrightarrow> slot_ok (calls @ [(nd, key, program_id)]) (snd (paper_accounts nd key program_id c))"
  by (auto simp: slot_ok_def paper_accounts_def ttl_put_def resolved_by_def split: option.splits sum.splits prod.splits)

lemma slot_after: "slot_ok before c \<Longrightarrow> slot_ok (before @ calls) (accounts_after calls c)"
proof (induction calls arbitrary: before c)
  case (Cons call calls)
  obtain nd key program_id where call: "call = (nd, key, program_id)" by (cases call) auto
  show ?case using Cons.IH [OF slot_step [OF Cons.prems]] by (simp add: accounts_after_def call)
qed (simp add: accounts_after_def)

definition no_accounts :: "paper_caches \<Rightarrow> paper_caches" where
  "no_accounts c = c\<lparr>pca_accounts := ttl_new PAPER_ACCOUNTS_TTL_MS\<rparr>"

text \<open>
  The accounts a paper iteration goes on with are those of its own pool and mints: after any sequence of iterations they were
  resolved successfully for the very same key, now or less than five minutes ago.
\<close>

theorem cached_accounts_recent:
  "case paper_accounts nd key program_id (accounts_after calls (no_accounts c)) of
     (Inl _, _) \<Rightarrow> True
   | (Inr v, _) \<Rightarrow> \<exists>call. (call = (nd, key, program_id) \<or> call \<in> set calls) \<and> resolved_by call key v
       \<and> pn_now_ms (fst call) \<le> pn_now_ms nd \<and> pn_now_ms nd - pn_now_ms (fst call) < 300000"
proof -
  have "slot_ok [] (no_accounts c)" by (simp add: slot_ok_def no_accounts_def ttl_new_def)
  then have ok: "slot_ok calls (accounts_after calls (no_accounts c))" using slot_after [of "[]"] by fastforce
  let ?c = "accounts_after calls (no_accounts c)"
  show ?thesis
  proof (cases "ttl_get key (pn_now_ms nd) (pca_accounts ?c)")
    case None
    then show ?thesis
      by (auto simp: paper_accounts_def resolved_by_def split: sum.splits prod.splits
          intro!: exI [of _ nd] exI [of _ program_id])
  next
    case (Some v)
    then obtain stored where s: "tl_slot (pca_accounts ?c) = Some (key, stored, v)" "stored \<le> pn_now_ms nd"
        "pn_now_ms nd - stored < tl_ttl_ms (pca_accounts ?c)"
      by (auto simp: ttl_get_def split: option.splits if_splits)
    then obtain call where "call \<in> set calls" "pn_now_ms (fst call) = stored" "resolved_by call key v"
      using ok by (auto simp: slot_ok_def)
    moreover have "tl_ttl_ms (pca_accounts ?c) = 300000" using ok by (simp add: slot_ok_def PAPER_ACCOUNTS_TTL_MS_def)
    moreover have "paper_accounts nd key program_id ?c = (Inr v, ?c)" using Some by (simp add: paper_accounts_def)
    ultimately show ?thesis using s by (simp only: prod.case sum.case) blast
  qed
qed

end
