(* ===== verification/Remote_Hsm.thy ===== *)
theory Remote_Hsm
  imports Market_Feed
begin

text \<open>
  \<open>solana-sniper/src/remote_hsm.rs\<close> and \<open>sign_and_verify\<close> of \<open>main.rs\<close>: the client of the signing server.  The HTTP client, the decoder of
  base64, the parser of keys and the verification of Ed25519 are parameters; an answer is the status and the parsed body, if it parses.
\<close>

record hsm_answer =
  ha_success :: bool
  ha_body :: "json option"

datatype hsm_error =
    RequestFailed_hsm | HttpRejected | InvalidJson | MissingField | InvalidBase64 | NotSixtyFourBytes | InvalidPubkey
  | WrongFeePayer pubkey | NoFeePayer | ZeroSignature | SignatureInvalid | NoSignerAtSigning

definition ends_with :: "string \<Rightarrow> string \<Rightarrow> bool" where
  "ends_with suf s \<longleftrightarrow> length suf \<le> length s \<and> drop (length s - length suf) s = suf"

text \<open>A base address gets the path appended, a full one is used as it is.\<close>

definition hsm_url :: "string \<Rightarrow> string \<Rightarrow> string" where
  "hsm_url path endpoint = (if ends_with path endpoint then endpoint else trim_slashes endpoint @ path)"

definition hsm_pubkey_answer :: "(string \<Rightarrow> pubkey option) \<Rightarrow> hsm_answer option \<Rightarrow> hsm_error + pubkey" where
  "hsm_pubkey_answer parse answer =
     and_then (ok_or RequestFailed_hsm answer) (\<lambda>res.
     and_then (ok_or InvalidJson (ha_body res)) (\<lambda>j.
     and_then (ok_or MissingField (Option.bind (json_get ''pubkey'' j) json_str)) (\<lambda>pk.
     ok_or InvalidPubkey (parse pk))))"

definition hsm_sign_answer :: "(string \<Rightarrow> bytes option) \<Rightarrow> hsm_answer option \<Rightarrow> hsm_error + bytes" where
  "hsm_sign_answer b64 answer =
     and_then (ok_or RequestFailed_hsm answer) (\<lambda>res.
     and_then (ensure (ha_success res) HttpRejected) (\<lambda>_.
     and_then (ok_or InvalidJson (ha_body res)) (\<lambda>j.
     and_then (ok_or MissingField (Option.bind (json_get ''signature'' j) json_str)) (\<lambda>text.
     and_then (ok_or InvalidBase64 (b64 text)) (\<lambda>d.
     and_then (ensure (length d = 64) NotSixtyFourBytes) (\<lambda>_. Inr d))))))"

text \<open>A message to sign: its account keys and its bytes.\<close>

record sign_message =
  sg_account_keys :: "pubkey list"
  sg_bytes :: bytes

definition default_signature :: bytes where "default_signature = replicate 64 0"

definition verify_hsm_signature ::
    "(pubkey \<Rightarrow> bytes \<Rightarrow> bytes \<Rightarrow> bool) \<Rightarrow> sign_message \<Rightarrow> pubkey \<Rightarrow> bytes \<Rightarrow> hsm_error + unit" where
  "verify_hsm_signature verify msg expected sig =
     (case sg_account_keys msg of
        [] \<Rightarrow> Inl NoFeePayer
      | payer # _ \<Rightarrow>
          if payer \<noteq> expected then Inl (WrongFeePayer payer)
          else if sig = default_signature then Inl ZeroSignature
          else ensure (verify expected (sg_bytes msg) sig) SignatureInvalid)"

text \<open>Signing with the remote HSM when all three of its options are set, else with the local key of a dry run.\<close>

definition sign_and_verify ::
    "(string \<Rightarrow> bytes option) \<Rightarrow> (pubkey \<Rightarrow> bytes \<Rightarrow> bytes \<Rightarrow> bool) \<Rightarrow> args \<Rightarrow> hsm_answer option \<Rightarrow> (bytes \<Rightarrow> bytes) option \<Rightarrow> pubkey
       \<Rightarrow> sign_message \<Rightarrow> hsm_error + bytes" where
  "sign_and_verify b64 verify a answer local_signer from msg =
     and_then (if ar_hsm_endpoint a \<noteq> None \<and> ar_hsm_ca a \<noteq> None \<and> ar_hsm_client_identity a \<noteq> None then hsm_sign_answer b64 answer
               else case local_signer of Some sign \<Rightarrow> Inr (sign (sg_bytes msg)) | None \<Rightarrow> Inl NoSignerAtSigning) (\<lambda>sig.
     and_then (verify_hsm_signature verify msg from sig) (\<lambda>_. Inr sig))"

section \<open>Properties\<close>

text \<open>
  C37. No unverified signature is attached: whatever the signing server answers, a transaction is signed only when the wallet pays its
  fee and the signature, never the all-zero one, verifies for the wallet over this very message; in a run with the HSM configured it is
  64 bytes long and came with a success status.
\<close>

theorem attached_signature_valid:
  "case sign_and_verify b64 verify a answer local_signer from msg of
     Inl _ \<Rightarrow> True
   | Inr sig \<Rightarrow> (\<exists>keys. sg_account_keys msg = from # keys) \<and> sig \<noteq> replicate 64 0 \<and> verify from (sg_bytes msg) sig
       \<and> (if ar_hsm_endpoint a \<noteq> None \<and> ar_hsm_ca a \<noteq> None \<and> ar_hsm_client_identity a \<noteq> None
          then length sig = 64 \<and> (\<exists>res. answer = Some res \<and> ha_success res) else local_signer \<noteq> None)"
  by (auto simp: sign_and_verify_def verify_hsm_signature_def hsm_sign_answer_def default_signature_def ok_iff
      split: sum.splits list.splits if_splits option.splits)

end
