(* ===== verification/Entry_Gates.thy ===== *)
theory Entry_Gates
  imports Supervisor_Config Paper_Data Remote_Hsm Signal
begin

text \<open>
  \<open>solana-sniper/src/main.rs\<close>: the path of an entry, which live and dry-run iterations share, from the signer to the signed transaction.
  A stage takes the state of the trader and either ends the iteration with a reason or goes on with a result; a tripped circuit
  breaker and the code of a rejection stay in the state.
\<close>

section \<open>Stages\<close>

record trader =
  tr_world :: live_world
  tr_series :: series
  tr_caches :: paper_caches
  tr_rejects :: "string list"     \<comment> \<open>the rejections counted by the metrics\<close>
  tr_trades :: u64
  tr_successes :: u64
  tr_position :: "live_position option"
  tr_exit_failures :: u32
  tr_trade_done :: bool
  tr_steps :: "entry_step list"   \<comment> \<open>the writes and sends so far, in order\<close>

datatype entry_end =
    BreakerActive | SignerFailed | NoSigner | PoolFailed | PriceRejected reject_reason | NoTimestamp | AccountsFailed
  | AuthorityRisk | AuthorityFailed | LiquidityFailed | HoldersFailed | HolderGate reject_reason | StrategyRejected
  | SignalGate no_trade_reason | SpendCap | RiskGate reject_reason | BlockhashFailed | QuoteFailed exact_quote_error
  | Economics economics_error | RecheckFailed reject_reason | SigningFailed hsm_error | BalanceFailed | InsufficientBalance
  | PendingNotSaved | Fatal     \<comment> \<open>an error that ends the process\<close>

type_synonym 'a stage = "trader \<Rightarrow> (entry_end + 'a) \<times> trader"

definition go :: "'a \<Rightarrow> 'a stage" where
  "go x = (\<lambda>s. (Inr x, s))"

definition stop :: "entry_end \<Rightarrow> 'a stage" where
  "stop e = (\<lambda>s. (Inl e, s))"

definition stage :: "'a stage \<Rightarrow> ('a \<Rightarrow> 'b stage) \<Rightarrow> 'b stage" where
  "stage f g = (\<lambda>s. case f s of (Inl e, s) \<Rightarrow> (Inl e, s) | (Inr x, s) \<Rightarrow> g x s)"

definition on_risk :: "(risk_manager \<Rightarrow> risk_manager) \<Rightarrow> trader \<Rightarrow> trader" where
  "on_risk f s = s\<lparr>tr_world := (tr_world s)\<lparr>lw_risk := f (lw_risk (tr_world s))\<rparr>\<rparr>"

text \<open>End with a tripped circuit breaker; end with a counted rejection.\<close>

definition trip :: "risk_env \<Rightarrow> entry_end \<Rightarrow> 'a stage" where
  "trip env e = (\<lambda>s. (Inl e, on_risk (trip_circuit_breaker env) s))"

definition reject :: "string \<Rightarrow> entry_end \<Rightarrow> 'a stage" where
  "reject code e = (\<lambda>s. (Inl e, s\<lparr>tr_rejects := tr_rejects s @ [code]\<rparr>))"

text \<open>The rejections that also count as a trade attempt, unless the process ends.\<close>

definition counted :: "'a stage \<Rightarrow> 'a stage" where
  "counted f = (\<lambda>s. case f s of (r, s) \<Rightarrow> (r, case r of Inl Fatal \<Rightarrow> s | _ \<Rightarrow> s\<lparr>tr_trades := tr_trades s + 1\<rparr>))"

text \<open>The points at which the decision record is written; a failed write ends the process.\<close>

datatype log_point =
    LogStrategy | LogSignal | LogEntry | LogSpend | LogRisk | LogQuoteFailed | LogEconomics | LogQuoted | LogPaper | LogExit

definition logged :: "bool \<Rightarrow> 'a stage \<Rightarrow> 'a stage" where
  "logged ok f = (\<lambda>s. case f s of (r, s) \<Rightarrow> (if ok then r else Inl Fatal, s))"

lemma stage_Inr [ok_iff]: "stage f g s = (Inr y, s') \<longleftrightarrow> (\<exists>x s1. f s = (Inr x, s1) \<and> g x s1 = (Inr y, s'))"
  by (auto simp: stage_def split: prod.splits sum.splits)

lemma stage_ends [simp]:
  "stop e s \<noteq> (Inr x, s')" "trip env e s \<noteq> (Inr x, s')" "reject code e s \<noteq> (Inr x, s')"
  "counted (logged ok (stop e)) s \<noteq> (Inr x, s')" "counted (logged ok (reject code e)) s \<noteq> (Inr x, s')"
  "logged ok (stop e) s \<noteq> (Inr x, s')" "logged ok (reject code e) s \<noteq> (Inr x, s')"
  by (simp_all add: stop_def trip_def reject_def counted_def logged_def)

lemma logged_go [simp]: "logged ok (go x) s = (Inr y, s') \<longleftrightarrow> ok \<and> y = x \<and> s' = s"
  by (auto simp: logged_def go_def)

lemma go_Inr [simp]: "go x s = (Inr y, s') \<longleftrightarrow> y = x \<and> s' = s"
  by (auto simp: go_def)

section \<open>Answers\<close>

record entry_node =
  ed_node :: paper_node
  ed_risk_env :: risk_env
  ed_recheck_env :: risk_env
  ed_hsm :: "hsm_answer option"               \<comment> \<open>of the key\<close>
  ed_sign :: "hsm_answer option"              \<comment> \<open>of the signature\<close>
  ed_local :: "(pubkey \<times> (bytes \<Rightarrow> bytes)) option"   \<comment> \<open>the local key pair of a dry run\<close>
  ed_b64 :: "string \<Rightarrow> bytes option"
  ed_verify :: "pubkey \<Rightarrow> bytes \<Rightarrow> bytes \<Rightarrow> bool"
  ed_message :: "pubkey \<Rightarrow> bytes \<Rightarrow> instr list \<Rightarrow> sign_message"
  ed_base58 :: "bytes \<Rightarrow> string"
  ed_parse_hash :: "string \<Rightarrow> bytes option"
  ed_latest_hash :: "string + bytes"
  ed_account_data :: "pubkey \<Rightarrow> string + bytes option"
  ed_lamports :: "pubkey \<Rightarrow> string + u64"
  ed_simulate :: "instr list \<Rightarrow> pubkey \<Rightarrow> sim_response option"
  ed_push_ms :: u64
  ed_gate_ms :: u64
  ed_open_ms :: u64
  ed_functions :: f64_functions
  ed_settle :: entry_env
  ed_log :: "log_point \<Rightarrow> bool"

definition uses_hsm :: "args \<Rightarrow> bool" where
  "uses_hsm a \<longleftrightarrow> ar_hsm_endpoint a \<noteq> None \<and> ar_hsm_ca a \<noteq> None \<and> ar_hsm_client_identity a \<noteq> None"

section \<open>The signer\<close>

definition signer_key :: "entry_node \<Rightarrow> pubkey option \<Rightarrow> start_error + pubkey" where
  "signer_key ed expected =
     and_then (map_err (\<lambda>_. SignerUnavailable) (hsm_pubkey_answer (parse_pk (pn_sdk (ed_node ed))) (ed_hsm ed))) (\<lambda>pk.
     and_then (validate_hsm_pubkey pk expected) (\<lambda>_. Inr pk))"

definition resolve_signer :: "entry_node \<Rightarrow> args \<Rightarrow> pubkey option \<Rightarrow> pubkey option \<Rightarrow> pubkey stage" where
  "resolve_signer ed a expected payer =
     (case payer of
        Some p \<Rightarrow> go p
      | None \<Rightarrow>
          if uses_hsm a
          then (case signer_key ed expected of Inl _ \<Rightarrow> trip (ed_risk_env ed) SignerFailed | Inr pk \<Rightarrow> go pk)
          else case ed_local ed of Some (k, _) \<Rightarrow> go k | None \<Rightarrow> trip (ed_risk_env ed) NoSigner)"

definition breaker_stage :: "risk_config \<Rightarrow> entry_node \<Rightarrow> unit stage" where
  "breaker_stage cfg ed = (\<lambda>s.
     case is_circuit_breaker_active cfg (ed_risk_env ed) (lw_risk (tr_world s)) of
       (active, rm) \<Rightarrow> (if active then Inl BreakerActive else Inr (), on_risk (\<lambda>_. rm) s))"

section \<open>The market\<close>

record entry_market =
  mk_adapter :: raydium_adapter
  mk_sqrt :: u128
  mk_liquidity :: "u64 option"
  mk_stats :: "holder_stats option"
  mk_blocklisted :: bool

definition price_stage :: "risk_config \<Rightarrow> entry_node \<Rightarrow> string \<Rightarrow> pubkey \<Rightarrow> pubkey \<Rightarrow> u128 stage" where
  "price_stage cfg ed pool_text pool_id program_id =
     (let nd = ed_node ed in
      case select_price (pn_sdk nd) (pn_account nd) (pn_provider nd) pool_text pool_id program_id (pn_clock nd) of
        Inl e \<Rightarrow> trip (ed_risk_env ed) PoolFailed
      | Inr (price, Some ts, source) \<Rightarrow>
          (case price_freshness ts (pk_gate (pn_clock nd)) (rc_price_staleness_ms cfg) of
             Inl r \<Rightarrow> stop (PriceRejected r)
           | Inr _ \<Rightarrow> go price)
      | Inr (price, None, source) \<Rightarrow> stop NoTimestamp)"

definition accounts_stage ::
    "entry_node \<Rightarrow> pubkey \<Rightarrow> pubkey \<Rightarrow> pubkey \<Rightarrow> pubkey \<Rightarrow> pubkey \<Rightarrow> (swap_accounts \<times> resolved_pool) stage" where
  "accounts_stage ed pool_id from input_mint output_mint program_id =
     (let nd = ed_node ed in
      case resolve_swap_accounts (pn_sdk nd) (pn_account nd) (pn_multi nd) pool_id from input_mint output_mint program_id of
        Inl e \<Rightarrow> trip (ed_risk_env ed) AccountsFailed
      | Inr v \<Rightarrow> go v)"

text \<open>Both mints, classic tokens only.\<close>

definition authority_stage :: "entry_node \<Rightarrow> pubkey \<Rightarrow> pubkey \<Rightarrow> unit stage" where
  "authority_stage ed input_mint output_mint = (\<lambda>s.
     case mint_gate (ed_node ed) ClassicOnly [input_mint, output_mint] (pca_revoked (tr_caches s)) of
       (r, seen) \<Rightarrow>
         let s = s\<lparr>tr_caches := (tr_caches s)\<lparr>pca_revoked := seen\<rparr>\<rparr>
         in case r of
              Inr _ \<Rightarrow> go () s
            | Inl (Rejected _) \<Rightarrow> stop AuthorityRisk s
            | Inl (Unavailable _) \<Rightarrow> trip (ed_risk_env ed) AuthorityFailed s)"

definition holders_stage :: "entry_node \<Rightarrow> pubkey \<Rightarrow> pubkey list \<Rightarrow> holder_stats stage" where
  "holders_stage ed mint vaults = (\<lambda>s.
     case holder_gate (ed_node ed) mint vaults (pca_holders (tr_caches s)) of
       (r, hc) \<Rightarrow>
         let s = s\<lparr>tr_caches := (tr_caches s)\<lparr>pca_holders := hc\<rparr>\<rparr>
         in case r of
              Inr st \<Rightarrow> go st s
            | Inl (Rejected reason) \<Rightarrow> reject (reject_code reason) (HolderGate reason) s
            | Inl (Unavailable _) \<Rightarrow> trip (ed_risk_env ed) HoldersFailed s)"

text \<open>Liquidity and holders, when on-chain risk data is on.\<close>

definition risk_data_stage ::
    "args \<Rightarrow> entry_node \<Rightarrow> swap_accounts \<Rightarrow> pubkey \<Rightarrow> (u64 \<times> holder_stats) option stage" where
  "risk_data_stage a ed acc output_mint =
     (if \<not> ar_live_risk_data a then go None
      else case fetch_vault_liquidity (pn_rpc (ed_node ed)) (sa_input_vault acc) of
             Inl _ \<Rightarrow> trip (ed_risk_env ed) LiquidityFailed
           | Inr liquidity \<Rightarrow>
               stage (holders_stage ed output_mint [sa_input_vault acc, sa_output_vault acc]) (\<lambda>st. go (Some (liquidity, st))))"

definition entry_adapter :: "args \<Rightarrow> string \<Rightarrow> swap_accounts \<Rightarrow> resolved_pool \<Rightarrow> raydium_adapter" where
  "entry_adapter a pool_text acc pool =
     with_resolved_pool pool (with_swap_accounts acc (with_program_id (clmm_program (ar_rpc a)) (adapter_new pool_text)))"

definition push_price :: "entry_node \<Rightarrow> raydium_adapter \<Rightarrow> u128 \<Rightarrow> u64 \<Rightarrow> unit stage" where
  "push_price ed adapter price liquidity = (\<lambda>s.
     (Inr (), s\<lparr>tr_series := snd (series_push
        \<lparr> ob_ts_ms = ed_push_ms ed, ob_price = held_token_price price (input_is_token0 adapter), ob_liquidity = liquidity \<rparr>
        (tr_series s))\<rparr>))"

definition market_stage ::
    "run_args \<Rightarrow> risk_config \<Rightarrow> entry_node \<Rightarrow> pubkey set \<Rightarrow> pubkey \<Rightarrow> entry_market stage" where
  "market_stage ru cfg ed blocklist from =
     (let a = ru_args ru; program_id = clmm_program_id (pn_sdk (ed_node ed)) (ar_rpc a) in
      case parse_target (pn_sdk (ed_node ed)) a of
        Inl _ \<Rightarrow> stop Fatal
      | Inr (pool_text, pool_id, input_mint, output_mint) \<Rightarrow>
          stage (price_stage cfg ed pool_text pool_id program_id) (\<lambda>price.
          stage (accounts_stage ed pool_id from input_mint output_mint program_id) (\<lambda>(acc, pool).
          stage (authority_stage ed input_mint output_mint) (\<lambda>_.
          stage (risk_data_stage a ed acc output_mint) (\<lambda>data.
          let adapter = entry_adapter a pool_text acc pool; liquidity = map_option fst data
          in stage (push_price ed adapter price (case liquidity of Some l \<Rightarrow> l | None \<Rightarrow> 0)) (\<lambda>_.
             go \<lparr> mk_adapter = adapter, mk_sqrt = price, mk_liquidity = liquidity, mk_stats = map_option snd data,
                  mk_blocklisted = (data \<noteq> None \<and> (input_mint \<in> blocklist \<or> output_mint \<in> blocklist)) \<rparr>))))))"

section \<open>The candidate and the gates before the transaction\<close>

text \<open>\<open>u128::to_string\<close>.\<close>

definition show_u128 :: "u128 \<Rightarrow> string" where
  "show_u128 x = decimal (unat x)"

definition no_pool_market :: entry_market where
  "no_pool_market = \<lparr> mk_adapter = adapter_new [], mk_sqrt = push_bit 64 1, mk_liquidity = None, mk_stats = None, mk_blocklisted = False \<rparr>"

definition entry_candidate :: "run_args \<Rightarrow> entry_market \<Rightarrow> token_candidate" where
  "entry_candidate ru m =
     \<lparr> liquidity_lamports = (case mk_liquidity m of Some l \<Rightarrow> l | None \<Rightarrow> ru_pool_liquidity ru),
       market_cap_lamports = ru_pool_market_cap ru,
       holders = (case mk_stats m of Some st \<Rightarrow> hs_sampled st | None \<Rightarrow> ru_pool_holders ru),
       is_blocklisted = (ru_pool_blocklisted ru \<or> mk_blocklisted m
         \<or> (case mk_stats m of Some st \<Rightarrow> ru_max_top_holder_pct ru < hs_top_pct st | None \<Rightarrow> False)) \<rparr>"

text \<open>Without a pool a dry run builds a transfer to itself, so that signing can be tested.\<close>

definition strategy_stage :: "run_args \<Rightarrow> entry_node \<Rightarrow> entry_market \<Rightarrow> entry_signal stage" where
  "strategy_stage ru ed m =
     (let a = ru_args ru; cfg = run_strategy_config a in
      case evaluate cfg (entry_candidate ru m) (mk_sqrt m) of
        Some sig \<Rightarrow> go sig
      | None \<Rightarrow>
          if ar_pool_id a = None \<and> \<not> ar_live a
          then go \<lparr> position_size_lamports = max_position_lamports cfg, slippage_bps = max_slippage_bps cfg,
                    entry_sqrt_price = mk_sqrt m \<rparr>
          else counted (logged (ed_log ed LogStrategy) (stop StrategyRejected)))"

definition signal_cfg_of :: "run_args \<Rightarrow> signal_config" where
  "signal_cfg_of ru =
     default_signal_config\<lparr>sc_min_confidence := min (ru_signal_min_confidence ru) 100,
                           sc_max_sample_age_ms := ru_signal_max_age_ms ru\<rparr>"

definition signal_gate_rejects :: "f64_functions \<Rightarrow> run_args \<Rightarrow> series \<Rightarrow> u64 \<Rightarrow> no_trade_reason option" where
  "signal_gate_rejects fn ru s now =
     (if \<not> ru_signal_gate ru then None
      else case signal_evaluate_at fn s (signal_cfg_of ru) now of Trade _ \<Rightarrow> None | NoTrade r _ \<Rightarrow> Some r)"

definition signal_confidence :: "f64_functions \<Rightarrow> run_args \<Rightarrow> series \<Rightarrow> u64 \<Rightarrow> u32 option" where
  "signal_confidence fn ru s now =
     (case signal_evaluate_at fn s (signal_cfg_of ru) now of Trade c \<Rightarrow> Some c | NoTrade _ _ \<Rightarrow> None)"

definition signal_stage :: "run_args \<Rightarrow> entry_node \<Rightarrow> unit stage" where
  "signal_stage ru ed = (\<lambda>s.
     if ar_pool_id (ru_args ru) = None then go () s
     else case signal_gate_rejects (ed_functions ed) ru (tr_series s) (ed_gate_ms ed) of
            Some r \<Rightarrow> logged (ed_log ed LogSignal) (reject (reason_text r) (SignalGate r)) s
          | None \<Rightarrow> go () s)"

definition spend_stage :: "run_args \<Rightarrow> entry_node \<Rightarrow> entry_signal \<Rightarrow> unit stage" where
  "spend_stage ru ed sig =
     (if sol_to_lamports (ru_max_spend_sol ru) < position_size_lamports sig
      then counted (logged (ed_log ed LogSpend) (reject ''max_spend_exceeded'' SpendCap)) else go ())"

text \<open>The risk manager's check of the entry.\<close>

definition risk_stage :: "risk_config \<Rightarrow> risk_env \<Rightarrow> (reject_reason \<Rightarrow> unit stage) \<Rightarrow> entry_signal \<Rightarrow> unit stage" where
  "risk_stage cfg env fail sig = (\<lambda>s.
     case pre_trade_check cfg env (position_size_lamports sig) (slippage_bps sig) (lw_risk (tr_world s)) of
       (r, rm) \<Rightarrow> (case r of Inr _ \<Rightarrow> go () | Inl reason \<Rightarrow> fail reason) (on_risk (\<lambda>_. rm) s))"

definition gate_fails :: "entry_node \<Rightarrow> reject_reason \<Rightarrow> unit stage" where
  "gate_fails ed r = counted (logged (ed_log ed LogRisk) (reject (reject_code r) (RiskGate r)))"

definition recheck_fails :: "reject_reason \<Rightarrow> unit stage" where
  "recheck_fails r = reject (reject_code r) (RecheckFailed r)"

definition hash_stage :: "run_args \<Rightarrow> entry_node \<Rightarrow> bytes stage" where
  "hash_stage ru ed =
     (case (if ar_live (ru_args ru) then None else ru_blockhash ru) of
        Some text \<Rightarrow> (case ed_parse_hash ed text of Some h \<Rightarrow> go h | None \<Rightarrow> stop BlockhashFailed)
      | None \<Rightarrow> (case ed_latest_hash ed of Inr h \<Rightarrow> go h | Inl _ \<Rightarrow> stop BlockhashFailed))"

section \<open>The transaction\<close>

fun economics_code :: "economics_error \<Rightarrow> string" where
  "economics_code PriceImpactExceeded = ''price_impact_exceeded''"
| "economics_code LiquidityUnverified = ''liquidity_unverified''"
| "economics_code PositionTooLargeForLiquidity = ''position_too_large_for_liquidity''"
| "economics_code NetEdgeTooSmall = ''net_edge_too_small''"

definition entry_opts :: "run_args \<Rightarrow> pubkey \<Rightarrow> pubkey \<Rightarrow> (pubkey \<times> u64) option \<Rightarrow> swap_tx_options" where
  "entry_opts ru input_mint output_mint tip =
     \<lparr> so_input_mint = input_mint, so_output_mint = output_mint,
       so_compute_unit_limit = ar_compute_unit_limit (ru_args ru), so_priority_fee = ar_priority_fee (ru_args ru),
       so_close_input = False, so_jito_tip = tip, so_keep_output_wrapped = False \<rparr>"

text \<open>The swap: the simulated quote, the economics of it, and the transaction that asks for it less the slippage.\<close>

definition swap_stage ::
    "run_args \<Rightarrow> entry_node \<Rightarrow> entry_market \<Rightarrow> entry_signal \<Rightarrow> pubkey \<Rightarrow> (pubkey \<times> u64) option \<Rightarrow> (instr list \<times> u64) stage" where
  "swap_stage ru ed m sig from tip =
     (let a = ru_args ru; sdk = pn_sdk (ed_node ed) in
      case (Option.bind (ar_input_mint a) (parse_pk sdk), Option.bind (ar_output_mint a) (parse_pk sdk)) of
        (Some input_mint, Some output_mint) \<Rightarrow>
          let opts = entry_opts ru input_mint output_mint tip in
          (case exact_quote sdk (ed_account_data ed) (ed_simulate ed) (mk_adapter m) (position_size_lamports sig)
                  (ar_max_slippage_bps a) from opts of
             Inl e \<Rightarrow> logged (ed_log ed LogQuoteFailed) (reject ''quote_simulation_failed'' (QuoteFailed e))
           | Inr (spot, sim) \<Rightarrow>
             (case entry_economics a (q_expected_output spot) (sq_amount_out sim) (trade_fee_ppm (mk_adapter m))
                     (position_size_lamports sig) (case tip of Some (_, l) \<Rightarrow> l | None \<Rightarrow> 0) (mk_liquidity m) of
                Inl code \<Rightarrow> logged (ed_log ed LogEconomics) (reject (economics_code code) (Economics code))
              | Inr edge \<Rightarrow>
                  let intent = build_intent sdk (mk_adapter m) (spot\<lparr>q_expected_output := sq_amount_out sim\<rparr>)
                  in case build_swap_transaction sdk (mk_adapter m) intent from opts of
                       Inl _ \<Rightarrow> stop Fatal
                     | Inr tx \<Rightarrow> logged (ed_log ed LogQuoted) (go (tx, ti_min_output intent))))
      | _ \<Rightarrow> stop Fatal)"

definition transfer_tx :: "entry_node \<Rightarrow> pubkey \<Rightarrow> nat \<Rightarrow> instr list" where
  "transfer_tx ed from i =
     [set_cu_limit (pn_sdk (ed_node ed)) (of_nat (400 + i mod 200)), sys_transfer (pn_sdk (ed_node ed)) from from 1000]"

definition build_stage ::
    "run_args \<Rightarrow> entry_node \<Rightarrow> entry_market \<Rightarrow> entry_signal \<Rightarrow> pubkey \<Rightarrow> (pubkey \<times> u64) option \<Rightarrow> nat \<Rightarrow> (instr list \<times> u64) stage" where
  "build_stage ru ed m sig from tip i =
     (if ar_pool_id (ru_args ru) = None then go (transfer_tx ed from i, 0) else swap_stage ru ed m sig from tip)"

text \<open>A simulated payer signs nothing; the signature stays the default one.\<close>

definition sign_stage :: "run_args \<Rightarrow> entry_node \<Rightarrow> pubkey option \<Rightarrow> pubkey \<Rightarrow> sign_message \<Rightarrow> bytes stage" where
  "sign_stage ru ed payer from msg =
     (if payer \<noteq> None then go default_signature
      else case sign_and_verify (ed_b64 ed) (ed_verify ed) (ru_args ru) (ed_sign ed) (map_option snd (ed_local ed)) from msg of
             Inl e \<Rightarrow> trip (ed_recheck_env ed) (SigningFailed e)
           | Inr sig \<Rightarrow> go sig)"

record signed_entry =
  sy_from :: pubkey
  sy_market :: entry_market
  sy_signal :: entry_signal
  sy_hash :: bytes
  sy_tx :: "instr list"
  sy_min_output :: u64
  sy_signature :: bytes

definition entry_market_stage ::
    "run_args \<Rightarrow> risk_config \<Rightarrow> entry_node \<Rightarrow> pubkey set \<Rightarrow> pubkey \<Rightarrow> entry_market stage" where
  "entry_market_stage ru cfg ed blocklist from =
     (if ar_pool_id (ru_args ru) = None then go no_pool_market else market_stage ru cfg ed blocklist from)"

text \<open>Everything up to the signature, in the order of the code.\<close>

definition prepare_entry ::
    "run_args \<Rightarrow> risk_config \<Rightarrow> entry_node \<Rightarrow> pubkey option \<Rightarrow> pubkey option \<Rightarrow> (pubkey \<times> u64) option \<Rightarrow> pubkey set \<Rightarrow> nat
       \<Rightarrow> signed_entry stage" where
  "prepare_entry ru cfg ed expected payer tip blocklist i =
     stage (breaker_stage cfg ed) (\<lambda>_.
     stage (resolve_signer ed (ru_args ru) expected payer) (\<lambda>from.
     stage (entry_market_stage ru cfg ed blocklist from) (\<lambda>m.
     stage (strategy_stage ru ed m) (\<lambda>sig.
     stage (signal_stage ru ed) (\<lambda>_.
     stage (logged (ed_log ed LogEntry) (go ())) (\<lambda>_.
     stage (spend_stage ru ed sig) (\<lambda>_.
     stage (risk_stage cfg (ed_risk_env ed) (gate_fails ed) sig) (\<lambda>_.
     stage (hash_stage ru ed) (\<lambda>hash.
     stage (build_stage ru ed m sig from tip i) (\<lambda>(tx, min_output).
     stage (risk_stage cfg (ed_recheck_env ed) recheck_fails sig) (\<lambda>_.
     stage (sign_stage ru ed payer from (ed_message ed from hash tx)) (\<lambda>signature.
     go \<lparr> sy_from = from, sy_market = m, sy_signal = sig, sy_hash = hash, sy_tx = tx, sy_min_output = min_output,
          sy_signature = signature \<rparr>))))))))))))"

text \<open>The exit a dry run simulates after its entry.\<close>

definition build_exit_tx ::
    "entry_node \<Rightarrow> args \<Rightarrow> pubkey \<Rightarrow> u64 \<Rightarrow> (pubkey \<times> u64) option \<Rightarrow> instr list option" where
  "build_exit_tx ed a from amount tip =
     (let nd = ed_node ed; sdk = pn_sdk nd in
      case parse_target sdk a of
        Inl _ \<Rightarrow> None
      | Inr (pool_text, pool_id, back_mint, held_mint) \<Rightarrow>
          if amount = 0 then None
          else
            case resolve_swap_accounts sdk (pn_account nd) (pn_multi nd) pool_id from held_mint back_mint (clmm_program_id sdk (ar_rpc a)) of
              Inl _ \<Rightarrow> None
            | Inr (acc, pool) \<Rightarrow>
                let adapter = entry_adapter a pool_text acc pool
                in case adapter_quote adapter amount (ar_max_slippage_bps a) of
                     Inl _ \<Rightarrow> None
                   | Inr q \<Rightarrow>
                       (case build_swap_transaction sdk adapter (build_intent sdk adapter q) from (exit_opts a held_mint back_mint False tip) of
                          Inl _ \<Rightarrow> None
                        | Inr tx \<Rightarrow> Some tx))"

section \<open>Sending\<close>

text \<open>The balances of the wallet before the entry, and the record written before it is sent.\<close>

definition wallet_balance :: "entry_node \<Rightarrow> pubkey \<Rightarrow> pubkey \<Rightarrow> balance_error + u64" where
  "wallet_balance ed owner mint = fetch_mint_balance (pn_sdk (ed_node ed)) (ed_account_data ed) (ed_lamports ed) owner mint"

definition pending_of ::
    "entry_node \<Rightarrow> run_args \<Rightarrow> signed_entry \<Rightarrow> u64 \<Rightarrow> u64 \<Rightarrow> pending_entry" where
  "pending_of ed ru sy before_in before_out =
     (let or_empty = (\<lambda>v. case v of Some x \<Rightarrow> x | None \<Rightarrow> []); a = ru_args ru
      in \<lparr> pe_signature = ed_base58 ed (sy_signature sy), pe_blockhash = ed_base58 ed (sy_hash sy),
           pe_before_in = before_in, pe_before_out = before_out,
           pe_position =
             \<lparr> lp_pool_id = or_empty (ar_pool_id a), lp_input_mint = or_empty (ar_input_mint a),
               lp_output_mint = or_empty (ar_output_mint a), lp_entry_sqrt_price = show_u128 (mk_sqrt (sy_market sy)),
               lp_size = position_size_lamports (sy_signal sy), lp_cost = 0, lp_tokens = 0,
               lp_signature = ed_base58 ed (sy_signature sy), lp_opened_at_ms = ed_open_ms ed,
               lp_entry_liquidity = (case mk_liquidity (sy_market sy) of Some l \<Rightarrow> l | None \<Rightarrow> 0), lp_peak = 0 \<rparr> \<rparr>)"

definition funded_stage :: "entry_node \<Rightarrow> run_args \<Rightarrow> signed_entry \<Rightarrow> pending_entry stage" where
  "funded_stage ed ru sy =
     (let a = ru_args ru; sdk = pn_sdk (ed_node ed) in
      case (Option.bind (ar_input_mint a) (parse_pk sdk), Option.bind (ar_output_mint a) (parse_pk sdk)) of
        (Some in_mint, Some out_mint) \<Rightarrow>
          (case (wallet_balance ed (sy_from sy) in_mint, wallet_balance ed (sy_from sy) out_mint) of
             (Inr before_in, Inr before_out) \<Rightarrow>
               if before_in < entry_required_balance (position_size_lamports (sy_signal sy)) (in_mint = key_of sdk NATIVE_MINT)
               then reject ''insufficient_balance'' InsufficientBalance
               else go (pending_of ed ru sy before_in before_out)
           | _ \<Rightarrow> stop BalanceFailed)
      | _ \<Rightarrow> stop Fatal)"

definition perform :: "risk_config \<Rightarrow> risk_env \<Rightarrow> entry_step list \<Rightarrow> trader \<Rightarrow> trader" where
  "perform cfg env steps s = s\<lparr>tr_world := fold (do_step cfg env) steps (tr_world s), tr_steps := tr_steps s @ steps\<rparr>"

definition send_stage :: "run_args \<Rightarrow> risk_config \<Rightarrow> entry_node \<Rightarrow> signed_entry \<Rightarrow> unit stage" where
  "send_stage ru cfg ed sy =
     stage (funded_stage ed ru sy) (\<lambda>p s.
       if \<not> en_pending_saved (ed_settle ed) then stop PendingNotSaved s
       else case settle_entry (ed_settle ed) p (sy_min_output sy) of
              (steps, pos) \<Rightarrow>
                go () ((perform cfg (ed_recheck_env ed) steps s)
                  \<lparr>tr_position := pos, tr_successes := (if pos = None then tr_successes s else tr_successes s + 1)\<rparr>))"

text \<open>A dry run stops at the signed transaction.\<close>

definition entry_stage ::
    "run_args \<Rightarrow> risk_config \<Rightarrow> entry_node \<Rightarrow> pubkey option \<Rightarrow> pubkey option \<Rightarrow> (pubkey \<times> u64) option \<Rightarrow> pubkey set \<Rightarrow> nat
       \<Rightarrow> unit stage" where
  "entry_stage ru cfg ed expected payer tip blocklist i =
     stage (prepare_entry ru cfg ed expected payer tip blocklist i) (\<lambda>sy s.
       if ar_live (ru_args ru) then send_stage ru cfg ed sy s
       else go () (s\<lparr>tr_successes := tr_successes s + 1, tr_trade_done := True\<rparr>))"

section \<open>What a stage guarantees\<close>

definition market_ok ::
    "run_args \<Rightarrow> risk_config \<Rightarrow> entry_node \<Rightarrow> pubkey set \<Rightarrow> pubkey \<Rightarrow> trader \<Rightarrow> entry_market \<Rightarrow> bool" where
  "market_ok ru cfg ed blocklist from s m \<longleftrightarrow>
     (\<exists>pool_text pool_id input_mint output_mint ts source acc pool.
        parse_target (pn_sdk (ed_node ed)) (ru_args ru) = Inr (pool_text, pool_id, input_mint, output_mint)
        \<and> select_price (pn_sdk (ed_node ed)) (pn_account (ed_node ed)) (pn_provider (ed_node ed)) pool_text pool_id
            (clmm_program_id (pn_sdk (ed_node ed)) (ar_rpc (ru_args ru))) (pn_clock (ed_node ed)) = Inr (mk_sqrt m, Some ts, source)
        \<and> price_freshness ts (pk_gate (pn_clock (ed_node ed))) (rc_price_staleness_ms cfg) = Inr ()
        \<and> resolve_swap_accounts (pn_sdk (ed_node ed)) (pn_account (ed_node ed)) (pn_multi (ed_node ed)) pool_id from input_mint
            output_mint (clmm_program_id (pn_sdk (ed_node ed)) (ar_rpc (ru_args ru))) = Inr (acc, pool)
        \<and> mk_adapter m = entry_adapter (ru_args ru) pool_text acc pool
        \<and> read_clean (ed_node ed) ClassicOnly (pca_revoked (tr_caches s)) input_mint
        \<and> read_clean (ed_node ed) ClassicOnly (pca_revoked (tr_caches s)) output_mint
        \<and> (if ar_live_risk_data (ru_args ru)
           then \<exists>liquidity st. mk_liquidity m = Some liquidity \<and> mk_stats m = Some st
             \<and> fetch_vault_liquidity (pn_rpc (ed_node ed)) (sa_input_vault acc) = Inr liquidity
             \<and> stats_seen (ed_node ed) output_mint [sa_input_vault acc, sa_output_vault acc] (pca_holders (tr_caches s)) st
             \<and> holder_concentration_verdict st = HolderOk
             \<and> (mk_blocklisted m \<longleftrightarrow> input_mint \<in> blocklist \<or> output_mint \<in> blocklist)
           else mk_liquidity m = None \<and> mk_stats m = None \<and> \<not> mk_blocklisted m))"

lemma price_stage_Inr:
  "price_stage cfg ed pool_text pool_id program_id s = (Inr price, s') \<longleftrightarrow> s' = s \<and>
     (\<exists>ts source. select_price (pn_sdk (ed_node ed)) (pn_account (ed_node ed)) (pn_provider (ed_node ed)) pool_text pool_id
         program_id (pn_clock (ed_node ed)) = Inr (price, Some ts, source)
       \<and> price_freshness ts (pk_gate (pn_clock (ed_node ed))) (rc_price_staleness_ms cfg) = Inr ())"
  by (auto simp: price_stage_def Let_def split: sum.splits prod.splits option.splits)

lemma accounts_stage_Inr:
  "accounts_stage ed pool_id from im om program_id s = (Inr v, s') \<longleftrightarrow> s' = s \<and>
     resolve_swap_accounts (pn_sdk (ed_node ed)) (pn_account (ed_node ed)) (pn_multi (ed_node ed)) pool_id from im om program_id = Inr v"
  by (auto simp: accounts_stage_def Let_def split: sum.splits)

lemma authority_stage_Inr:
  assumes "authority_stage ed im om s = (Inr u, s')"
  shows "read_clean (ed_node ed) ClassicOnly (pca_revoked (tr_caches s)) im \<and> read_clean (ed_node ed) ClassicOnly (pca_revoked (tr_caches s)) om
    \<and> pca_holders (tr_caches s') = pca_holders (tr_caches s)"
proof -
  obtain seen where "mint_gate (ed_node ed) ClassicOnly [im, om] (pca_revoked (tr_caches s)) = (Inr (), seen)"
    and "s' = s\<lparr>tr_caches := (tr_caches s)\<lparr>pca_revoked := seen\<rparr>\<rparr>"
    using assms unfolding authority_stage_def Let_def by (auto split: prod.splits sum.splits paper_data_error.splits)
  then show ?thesis using mint_gate_clean [of "ed_node ed" ClassicOnly "[im, om]"] by fastforce
qed

lemma risk_data_Inr:
  assumes "risk_data_stage a ed acc om s = (Inr data, s')"
  shows "if ar_live_risk_data a
     then \<exists>liquidity st. data = Some (liquidity, st) \<and> fetch_vault_liquidity (pn_rpc (ed_node ed)) (sa_input_vault acc) = Inr liquidity
       \<and> stats_seen (ed_node ed) om [sa_input_vault acc, sa_output_vault acc] (pca_holders (tr_caches s)) st
       \<and> holder_concentration_verdict st = HolderOk
     else data = None"
proof (cases "ar_live_risk_data a")
  case True
  then obtain liquidity st where "fetch_vault_liquidity (pn_rpc (ed_node ed)) (sa_input_vault acc) = Inr liquidity"
    and h: "holders_stage ed om [sa_input_vault acc, sa_output_vault acc] s = (Inr st, s')" and d: "data = Some (liquidity, st)"
    using assms by (auto simp: risk_data_stage_def ok_iff split: sum.splits)
  moreover have "fst (holder_gate (ed_node ed) om [sa_input_vault acc, sa_output_vault acc] (pca_holders (tr_caches s))) = Inr st"
    using h unfolding holders_stage_def Let_def by (auto split: prod.splits sum.splits paper_data_error.splits)
  ultimately show ?thesis
    using True holder_gate_ok [of "ed_node ed" om "[sa_input_vault acc, sa_output_vault acc]" "pca_holders (tr_caches s)" st]
    by (cases "holder_gate (ed_node ed) om [sa_input_vault acc, sa_output_vault acc] (pca_holders (tr_caches s))") auto
qed (use assms in \<open>simp add: risk_data_stage_def\<close>)

lemma market_stage_ok:
  assumes "market_stage ru cfg ed blocklist from s = (Inr m, s')"
  shows "market_ok ru cfg ed blocklist from s m"
proof -
  let ?prog = "clmm_program_id (pn_sdk (ed_node ed)) (ar_rpc (ru_args ru))"
  obtain pool_text pool_id im om where t: "parse_target (pn_sdk (ed_node ed)) (ru_args ru) = Inr (pool_text, pool_id, im, om)"
    using assms by (auto simp: market_stage_def Let_def split: sum.splits)
  obtain price acc pool s1 data s2 where
      p: "price_stage cfg ed pool_text pool_id ?prog s = (Inr price, s)"
      and a: "accounts_stage ed pool_id from im om ?prog s = (Inr (acc, pool), s)"
      and au: "authority_stage ed im om s = (Inr (), s1)"
      and d: "risk_data_stage (ru_args ru) ed acc om s1 = (Inr data, s2)"
      and m: "m = \<lparr> mk_adapter = entry_adapter (ru_args ru) pool_text acc pool, mk_sqrt = price, mk_liquidity = map_option fst data,
          mk_stats = map_option snd data, mk_blocklisted = (data \<noteq> None \<and> (im \<in> blocklist \<or> om \<in> blocklist)) \<rparr>"
    using assms t
    by (auto simp: market_stage_def Let_def stage_Inr price_stage_Inr accounts_stage_Inr push_price_def)
  show ?thesis
    using t p a m authority_stage_Inr [OF au] risk_data_Inr [OF d]
    unfolding market_ok_def price_stage_Inr accounts_stage_Inr
    by (cases "ar_live_risk_data (ru_args ru)") auto
qed

text \<open>The sample the market stage pushes, and what else it changes.\<close>

definition sampled :: "entry_node \<Rightarrow> entry_market \<Rightarrow> series \<Rightarrow> series" where
  "sampled ed m ser =
     snd (series_push
       \<lparr> ob_ts_ms = ed_push_ms ed, ob_price = held_token_price (mk_sqrt m) (input_is_token0 (mk_adapter m)),
         ob_liquidity = (case mk_liquidity m of Some l \<Rightarrow> l | None \<Rightarrow> 0) \<rparr> ser)"

lemma authority_keeps: "authority_stage ed im om s = (Inr u, s') \<Longrightarrow> tr_world s' = tr_world s \<and> tr_series s' = tr_series s"
  by (auto simp: authority_stage_def Let_def split: prod.splits sum.splits paper_data_error.splits)

lemma risk_data_keeps: "risk_data_stage a ed acc om s = (Inr v, s') \<Longrightarrow> tr_world s' = tr_world s \<and> tr_series s' = tr_series s"
  by (auto simp: risk_data_stage_def holders_stage_def Let_def stage_Inr
      split: if_splits sum.splits prod.splits paper_data_error.splits)

lemma market_keeps:
  assumes "market_stage ru cfg ed blocklist from s = (Inr m, s')"
  shows "tr_world s' = tr_world s \<and> tr_series s' = sampled ed m (tr_series s)"
  using assms
  by (auto simp: market_stage_def Let_def stage_Inr price_stage_Inr accounts_stage_Inr push_price_def sampled_def
      dest!: authority_keeps risk_data_keeps split: sum.splits)

text \<open>The answer of the stages between the market and the transaction.\<close>

lemma strategy_Inr:
  "ar_pool_id (ru_args ru) \<noteq> None \<or> ar_live (ru_args ru) \<Longrightarrow> strategy_stage ru ed m s = (Inr sig, s') \<Longrightarrow>
     s' = s \<and> evaluate (run_strategy_config (ru_args ru)) (entry_candidate ru m) (mk_sqrt m) = Some sig"
  by (auto simp: strategy_stage_def Let_def split: option.splits if_splits)

lemma signal_Inr:
  "signal_stage ru ed s = (Inr u, s') \<Longrightarrow>
     s' = s \<and> (ar_pool_id (ru_args ru) \<noteq> None \<and> ru_signal_gate ru \<longrightarrow> (\<exists>c. signal_evaluate_at (ed_functions ed) (tr_series s) (signal_cfg_of ru) (ed_gate_ms ed) = Trade c))"
  by (auto simp: signal_stage_def signal_gate_rejects_def split: option.splits if_splits signal_decision.splits)

lemma spend_Inr: "spend_stage ru ed sig s = (Inr u, s') \<Longrightarrow> s' = s \<and> position_size_lamports sig \<le> sol_to_lamports (ru_max_spend_sol ru)"
  by (auto simp: spend_stage_def not_less split: if_splits)

lemma gate_ends [simp]: "gate_fails ed r s \<noteq> (Inr u, s')" "recheck_fails r s \<noteq> (Inr u, s')"
  by (simp_all add: gate_fails_def recheck_fails_def)

lemma risk_Inr:
  assumes "risk_stage cfg env fail sig s = (Inr u, s')" "\<And>r s u s'. fail r s \<noteq> (Inr u, s')"
  shows "s' = on_risk (\<lambda>_. lw_risk (tr_world s')) s
    \<and> pre_trade_check cfg env (position_size_lamports sig) (slippage_bps sig) (lw_risk (tr_world s)) = (Inr (), lw_risk (tr_world s'))"
  using assms by (auto simp: risk_stage_def on_risk_def split: prod.splits sum.splits)

lemma hash_Inr: "hash_stage ru ed s = (Inr h, s') \<Longrightarrow> s' = s \<and> (ar_live (ru_args ru) \<longrightarrow> ed_latest_hash ed = Inr h)"
  by (auto simp: hash_stage_def split: option.splits sum.splits if_splits)

lemma sign_Inr:
  "sign_stage ru ed payer from msg s = (Inr sig, s') \<Longrightarrow> s' = s \<and> (payer = None \<longrightarrow>
     sign_and_verify (ed_b64 ed) (ed_verify ed) (ru_args ru) (ed_sign ed) (map_option snd (ed_local ed)) from msg = Inr sig)"
  by (auto simp: sign_stage_def split: if_splits sum.splits)

text \<open>Nothing before the sending touches the files of the trader or sends anything.\<close>

definition same_books :: "trader \<Rightarrow> trader \<Rightarrow> bool" where
  "same_books s s' \<longleftrightarrow> tr_steps s' = tr_steps s \<and> tr_position s' = tr_position s \<and> tr_trade_done s' = tr_trade_done s
     \<and> tr_successes s' = tr_successes s
     \<and> lw_position (tr_world s') = lw_position (tr_world s) \<and> lw_pending (tr_world s') = lw_pending (tr_world s)"

definition quiet :: "'a stage \<Rightarrow> bool" where
  "quiet f \<longleftrightarrow> (\<forall>s. same_books s (snd (f s)))"

lemma same_books_on_risk [simp]:
  "same_books s (on_risk f s1) = same_books s s1" "same_books s (s1\<lparr>tr_caches := c\<rparr>) = same_books s s1"
  "same_books s (s1\<lparr>tr_rejects := x\<rparr>) = same_books s s1" "same_books s (s1\<lparr>tr_trades := n\<rparr>) = same_books s s1"
  "same_books s (s1\<lparr>tr_series := ser\<rparr>) = same_books s s1" "same_books s s"
  by (simp_all add: same_books_def on_risk_def)

lemma same_books_trans: "same_books a b \<Longrightarrow> same_books b c \<Longrightarrow> same_books a c"
  by (simp add: same_books_def)

lemma quietI: "(\<And>s. same_books s (snd (f s))) \<Longrightarrow> quiet f"
  by (simp add: quiet_def)

lemma quietD [intro]: "quiet f \<Longrightarrow> same_books s s1 \<Longrightarrow> same_books s (snd (f s1))"
  unfolding quiet_def by (blast intro: same_books_trans)

lemma quiet_simple [simp]: "quiet (go x)" "quiet (stop e)" "quiet (trip env e)" "quiet (reject code e)"
  by (simp_all add: quiet_def go_def stop_def trip_def reject_def)

lemma quiet_counted [simp]: "quiet f \<Longrightarrow> quiet (counted f)"
proof (rule quietI)
  fix s assume f: "quiet f"
  obtain r s1 where fs: "f s = (r, s1)" by fastforce
  then have "same_books s s1" using quietD [OF f, of s s] by simp
  moreover have "same_books s (case e of Fatal \<Rightarrow> s1 | _ \<Rightarrow> s1\<lparr>tr_trades := tr_trades s1 + 1\<rparr>) = same_books s s1" for e
    by (cases e) simp_all
  ultimately show "same_books s (snd (counted f s))" by (simp add: counted_def fs split: sum.split)
qed

lemma quiet_logged [simp]: "quiet f \<Longrightarrow> quiet (logged ok f)"
  by (rule quietI) (simp add: logged_def case_prod_beta quietD)

lemma quiet_stage [intro]:
  assumes "quiet f" "\<And>x. quiet (g x)"
  shows "quiet (stage f g)"
proof (rule quietI)
  fix s
  obtain r s1 where fs: "f s = (r, s1)" by fastforce
  then have "same_books s s1" using quietD [OF assms(1), of s s] by simp
  then show "same_books s (snd (stage f g s))"
    by (cases r) (simp_all add: stage_def fs quietD [OF assms(2)])
qed

lemma quiet_case_prod: "(\<And>a b. quiet (g a b)) \<Longrightarrow> quiet (case x of (a, b) \<Rightarrow> g a b)"
  by (cases x) simp

lemma quiet_risk:
  assumes "\<And>r. quiet (fail r)"
  shows "quiet (risk_stage cfg env fail sig)"
  by (rule quietI) (auto simp: risk_stage_def assms quietD split: prod.split sum.split)

lemma quiet_market: "quiet (market_stage ru cfg ed blocklist from)"
proof -
  have "quiet (price_stage cfg ed a b c)" for a b c
    by (simp add: price_stage_def Let_def split: sum.split prod.split option.split)
  moreover have "quiet (accounts_stage ed a b c d e)" for a b c d e
    by (simp add: accounts_stage_def Let_def split: sum.split)
  moreover have "quiet (authority_stage ed a b)" for a b
    by (rule quietI) (simp add: authority_stage_def Let_def quietD split: prod.split sum.split paper_data_error.split)
  moreover have "quiet (holders_stage ed a b)" for a b
    by (rule quietI) (simp add: holders_stage_def Let_def quietD split: prod.split sum.split paper_data_error.split)
  then have "quiet (risk_data_stage a ed b c)" for a b c
    by (auto simp: risk_data_stage_def split: sum.split)
  moreover have "quiet (push_price ed a b c)" for a b c
    by (rule quietI) (simp add: push_price_def)
  ultimately have parts:
    "quiet (price_stage cfg ed a b c)" "quiet (accounts_stage ed d e f g h)" "quiet (authority_stage ed im om)"
    "quiet (risk_data_stage k ed l m)" "quiet (push_price ed n p q)" for a b c d e f g h im om k l m n p q
    by blast+
  show ?thesis
  proof (cases "parse_target (pn_sdk (ed_node ed)) (ru_args ru)")
    case (Inr v)
    obtain a b c d where "v = (a, b, c, d)" by (cases v) auto
    then show ?thesis
      unfolding market_stage_def Let_def Inr by (simp only: sum.case prod.case) (intro quiet_stage quiet_case_prod quiet_simple parts)
  qed (simp add: market_stage_def)
qed

lemma quiet_prepare: "quiet (prepare_entry ru cfg ed expected payer tip blocklist i)"
proof -
  have "quiet (breaker_stage cfg ed)"
    by (rule quietI) (simp add: breaker_stage_def split: prod.split)
  moreover have "quiet (resolve_signer ed a b c)" for a b c
    by (simp add: resolve_signer_def split: option.split sum.split)
  moreover have "quiet (entry_market_stage ru cfg ed blocklist f)" for f
    by (simp add: entry_market_stage_def quiet_market)
  moreover have "quiet (strategy_stage ru ed m)" for m
    by (simp add: strategy_stage_def Let_def split: option.split)
  moreover have "quiet (signal_stage ru ed)"
    by (rule quietI) (simp add: signal_stage_def quietD split: option.split)
  moreover have "quiet (spend_stage ru ed sig)" for sig
    by (simp add: spend_stage_def)
  moreover have "quiet (risk_stage cfg env (gate_fails ed) sig)" "quiet (risk_stage cfg env recheck_fails sig)" for env sig
    by (rule quiet_risk, simp add: gate_fails_def recheck_fails_def)+
  moreover have "quiet (hash_stage ru ed)"
    by (simp add: hash_stage_def split: option.split sum.split)
  moreover have "quiet (build_stage ru ed m sig from tip i)" for m sig "from"
    by (simp add: build_stage_def swap_stage_def Let_def split: option.split sum.split prod.split)
  moreover have "quiet (sign_stage ru ed payer f msg)" for f msg
    by (simp add: sign_stage_def split: sum.split)
  ultimately show ?thesis
    unfolding prepare_entry_def by (intro quiet_stage quiet_case_prod quiet_simple quiet_logged)
qed

section \<open>Properties\<close>

text \<open>What a signed entry of a run with a pool rests on, at the state in which it is about to be sent.\<close>

definition swap_justified :: "run_args \<Rightarrow> entry_node \<Rightarrow> (pubkey \<times> u64) option \<Rightarrow> signed_entry \<Rightarrow> bool" where
  "swap_justified ru ed tip sy \<longleftrightarrow>
     (\<exists>input_mint output_mint spot sim edge acc.
        Option.bind (ar_input_mint (ru_args ru)) (parse_pk (pn_sdk (ed_node ed))) = Some input_mint
        \<and> Option.bind (ar_output_mint (ru_args ru)) (parse_pk (pn_sdk (ed_node ed))) = Some output_mint
        \<and> exact_quote (pn_sdk (ed_node ed)) (ed_account_data ed) (ed_simulate ed) (mk_adapter (sy_market sy))
            (position_size_lamports (sy_signal sy)) (ar_max_slippage_bps (ru_args ru)) (sy_from sy)
            (entry_opts ru input_mint output_mint tip) = Inr (spot, sim)
        \<and> entry_economics (ru_args ru) (q_expected_output spot) (sq_amount_out sim) (trade_fee_ppm (mk_adapter (sy_market sy)))
            (position_size_lamports (sy_signal sy)) (case tip of Some (_, l) \<Rightarrow> l | None \<Rightarrow> 0) (mk_liquidity (sy_market sy)) = Inr edge
        \<and> sy_min_output sy = min_out (sq_amount_out sim) (ar_max_slippage_bps (ru_args ru))
        \<and> ra_accounts (mk_adapter (sy_market sy)) = Some acc
        \<and> swaps_exactly (pn_sdk (ed_node ed)) (sy_from sy) acc
            \<lparr> tm_input_mint = input_mint, tm_output_mint = output_mint, tm_amount = position_size_lamports (sy_signal sy),
              tm_min_output = sy_min_output sy, tm_close_input = False, tm_tip = tip \<rparr> (sy_tx sy))"

text \<open>
  Everything that allows an entry to be sent, told from the state the iteration starts in: the last argument is the risk manager after
  the breaker's poll and the two checks, each on the manager the one before it left.
\<close>

definition entry_justified ::
    "run_args \<Rightarrow> risk_config \<Rightarrow> entry_node \<Rightarrow> pubkey option \<Rightarrow> (pubkey \<times> u64) option \<Rightarrow> pubkey set \<Rightarrow> nat
       \<Rightarrow> trader \<Rightarrow> signed_entry \<Rightarrow> risk_manager \<Rightarrow> bool" where
  "entry_justified ru cfg ed expected tip blocklist i s sy rm \<longleftrightarrow>
     (if uses_hsm (ru_args ru) then signer_key ed expected = Inr (sy_from sy) else (\<exists>key. ed_local ed = Some (sy_from sy, key)))
     \<and> (if ar_pool_id (ru_args ru) = None
        then sy_market sy = no_pool_market \<and> sy_tx sy = transfer_tx ed (sy_from sy) i \<and> sy_min_output sy = 0
        else market_ok ru cfg ed blocklist (sy_from sy) s (sy_market sy) \<and> swap_justified ru ed tip sy
          \<and> (if ru_signal_gate ru
             then \<exists>c. signal_evaluate_at (ed_functions ed) (sampled ed (sy_market sy) (tr_series s)) (signal_cfg_of ru) (ed_gate_ms ed) = Trade c
             else True))
     \<and> evaluate (run_strategy_config (ru_args ru)) (entry_candidate ru (sy_market sy)) (mk_sqrt (sy_market sy)) = Some (sy_signal sy)
     \<and> ed_log ed LogEntry
     \<and> position_size_lamports (sy_signal sy) \<le> sol_to_lamports (ru_max_spend_sol ru)
     \<and> (\<exists>rm1 rm2. is_circuit_breaker_active cfg (ed_risk_env ed) (lw_risk (tr_world s)) = (False, rm1)
          \<and> pre_trade_check cfg (ed_risk_env ed) (position_size_lamports (sy_signal sy)) (slippage_bps (sy_signal sy)) rm1 = (Inr (), rm2)
          \<and> pre_trade_check cfg (ed_recheck_env ed) (position_size_lamports (sy_signal sy)) (slippage_bps (sy_signal sy)) rm2 = (Inr (), rm))
     \<and> ed_latest_hash ed = Inr (sy_hash sy)
     \<and> sign_and_verify (ed_b64 ed) (ed_verify ed) (ru_args ru) (ed_sign ed) (map_option snd (ed_local ed)) (sy_from sy)
         (ed_message ed (sy_from sy) (sy_hash sy) (sy_tx sy)) = Inr (sy_signature sy)"

text \<open>The record of an entry whose size, and the reserve for SOL, the wallet holds.\<close>

definition entry_funded :: "run_args \<Rightarrow> entry_node \<Rightarrow> signed_entry \<Rightarrow> pending_entry \<Rightarrow> bool" where
  "entry_funded ru ed sy p \<longleftrightarrow>
     (\<exists>before_in before_out in_mint out_mint. p = pending_of ed ru sy before_in before_out
        \<and> Option.bind (ar_input_mint (ru_args ru)) (parse_pk (pn_sdk (ed_node ed))) = Some in_mint
        \<and> Option.bind (ar_output_mint (ru_args ru)) (parse_pk (pn_sdk (ed_node ed))) = Some out_mint
        \<and> wallet_balance ed (sy_from sy) in_mint = Inr before_in \<and> wallet_balance ed (sy_from sy) out_mint = Inr before_out
        \<and> entry_required_balance (position_size_lamports (sy_signal sy)) (in_mint = key_of (pn_sdk (ed_node ed)) NATIVE_MINT) \<le> before_in)"

lemma breaker_Inr:
  "breaker_stage cfg ed s = (Inr u, s') \<Longrightarrow> \<exists>rm. is_circuit_breaker_active cfg (ed_risk_env ed) (lw_risk (tr_world s)) = (False, rm)
     \<and> s' = on_risk (\<lambda>_. rm) s"
  by (auto simp: breaker_stage_def split: prod.splits if_splits)

lemma signer_Inr:
  "resolve_signer ed a expected None s = (Inr k, s') \<Longrightarrow> s' = s
     \<and> (if uses_hsm a then signer_key ed expected = Inr k else (\<exists>key. ed_local ed = Some (k, key)))"
  by (auto simp: resolve_signer_def split: option.splits sum.splits if_splits)

lemma entry_market_Inr:
  assumes "entry_market_stage ru cfg ed blocklist from s = (Inr m, s')"
  shows "tr_world s' = tr_world s
    \<and> (if ar_pool_id (ru_args ru) = None then m = no_pool_market
       else market_ok ru cfg ed blocklist from s m \<and> tr_series s' = sampled ed m (tr_series s))"
  using assms market_stage_ok [of ru cfg ed blocklist "from" s m s'] market_keeps [of ru cfg ed blocklist "from" s m s']
  by (auto simp: entry_market_stage_def split: if_splits)

lemma swap_Inr:
  assumes "swap_stage ru ed m sig f tip s = (Inr (tx, mo), s')"
    "sy_market sy = m" "sy_signal sy = sig" "sy_from sy = f" "sy_min_output sy = mo" "sy_tx sy = tx"
  shows "s' = s \<and> swap_justified ru ed tip sy"
proof -
  let ?sdk = "pn_sdk (ed_node ed)"
  obtain im om where mints: "Option.bind (ar_input_mint (ru_args ru)) (parse_pk ?sdk) = Some im"
      "Option.bind (ar_output_mint (ru_args ru)) (parse_pk ?sdk) = Some om"
    using assms(1) by (auto simp: swap_stage_def Let_def split: option.splits)
  let ?opts = "entry_opts ru im om tip"
  obtain spot sim where quote: "exact_quote ?sdk (ed_account_data ed) (ed_simulate ed) (mk_adapter m) (position_size_lamports sig)
      (ar_max_slippage_bps (ru_args ru)) f ?opts = Inr (spot, sim)"
    using assms(1) mints by (auto simp: swap_stage_def Let_def split: sum.splits)
  have spot: "q_slippage_bps spot = ar_max_slippage_bps (ru_args ru)" "q_input_amount spot = position_size_lamports sig"
    using quote by (auto simp: exact_quote_def ok_iff dest: adapter_quote_fields)
  let ?intent = "build_intent ?sdk (mk_adapter m) (spot\<lparr>q_expected_output := sq_amount_out sim\<rparr>)"
  obtain edge where edge: "entry_economics (ru_args ru) (q_expected_output spot) (sq_amount_out sim) (trade_fee_ppm (mk_adapter m))
      (position_size_lamports sig) (case tip of Some (_, l) \<Rightarrow> l | None \<Rightarrow> 0) (mk_liquidity m) = Inr edge"
    using assms(1) mints quote by (auto simp: swap_stage_def Let_def split: sum.splits)
  have build: "build_swap_transaction ?sdk (mk_adapter m) ?intent f ?opts = Inr tx" "mo = ti_min_output ?intent" "s' = s"
    using assms(1) mints quote edge by (auto simp: swap_stage_def Let_def split: sum.splits)
  obtain acc where acc: "ra_accounts (mk_adapter m) = Some acc" using build(1) by (auto simp: build_swap_transaction_def ok_iff)
  note shape = built_swaps_exactly [OF build(1) acc]
  show ?thesis
    unfolding swap_justified_def assms(2-6) using mints quote edge acc shape spot build(2,3)
    by (auto simp: build_intent_def entry_opts_def intro!: exI)
qed

lemma prepare_Inr:
  assumes "prepare_entry ru cfg ed expected None tip blocklist i s = (Inr sy, s')" "ar_live (ru_args ru)"
  shows "\<exists>rm. entry_justified ru cfg ed expected tip blocklist i s sy rm \<and> tr_world s' = (tr_world s)\<lparr>lw_risk := rm\<rparr>"
proof -
  obtain f m sig s1 s1' s2 s3 s4 s5 s6 s7 s8 s9 h tx mo sgn where
      b: "breaker_stage cfg ed s = (Inr (), s1)" and r: "resolve_signer ed (ru_args ru) expected None s1 = (Inr f, s1')"
      and m: "entry_market_stage ru cfg ed blocklist f s1' = (Inr m, s2)"
      and e: "strategy_stage ru ed m s2 = (Inr sig, s3)" and g: "signal_stage ru ed s3 = (Inr (), s4)"
      and lg: "ed_log ed LogEntry"
      and sp: "spend_stage ru ed sig s4 = (Inr (), s5)"
      and k: "risk_stage cfg (ed_risk_env ed) (gate_fails ed) sig s5 = (Inr (), s6)"
      and h: "hash_stage ru ed s6 = (Inr h, s7)"
      and bl: "build_stage ru ed m sig f tip i s7 = (Inr (tx, mo), s8)"
      and k2: "risk_stage cfg (ed_recheck_env ed) recheck_fails sig s8 = (Inr (), s9)"
      and si: "sign_stage ru ed None f (ed_message ed f h tx) s9 = (Inr sgn, s')"
      and sy: "sy = \<lparr> sy_from = f, sy_market = m, sy_signal = sig, sy_hash = h, sy_tx = tx, sy_min_output = mo, sy_signature = sgn \<rparr>"
    using assms(1) by (auto simp: prepare_entry_def stage_Inr)
  obtain rm1 where rm1: "is_circuit_breaker_active cfg (ed_risk_env ed) (lw_risk (tr_world s)) = (False, rm1)" "s1 = on_risk (\<lambda>_. rm1) s"
    using breaker_Inr [OF b] by blast
  note from_key = signer_Inr [OF r]
  note market = entry_market_Inr [OF m]
  have strategy: "s3 = s2" "evaluate (run_strategy_config (ru_args ru)) (entry_candidate ru m) (mk_sqrt m) = Some sig"
    using strategy_Inr [OF _ e] assms(2) by auto
  note signal = signal_Inr [OF g] and spend = spend_Inr [OF sp] and hash = hash_Inr [OF h] and sign = sign_Inr [OF si]
  define rm2 rm3 where "rm2 = lw_risk (tr_world s6)" and "rm3 = lw_risk (tr_world s9)"
  have risk2: "s6 = on_risk (\<lambda>_. rm2) s5"
      "pre_trade_check cfg (ed_risk_env ed) (position_size_lamports sig) (slippage_bps sig) (lw_risk (tr_world s5)) = (Inr (), rm2)"
    using risk_Inr [OF k gate_ends(1)] by (simp_all add: rm2_def)
  have risk3: "s9 = on_risk (\<lambda>_. rm3) s8"
      "pre_trade_check cfg (ed_recheck_env ed) (position_size_lamports sig) (slippage_bps sig) (lw_risk (tr_world s8)) = (Inr (), rm3)"
    using risk_Inr [OF k2 gate_ends(2)] by (simp_all add: rm3_def)
  have build: "s8 = s7 \<and> (if ar_pool_id (ru_args ru) = None then tx = transfer_tx ed f i \<and> mo = 0 else swap_justified ru ed tip sy)"
    using bl swap_Inr [of ru ed m sig f tip s7 tx mo s8 sy] sy by (auto simp: build_stage_def split: if_splits)
  have worlds: "tr_world s5 = tr_world s1" "tr_world s8 = (tr_world s5)\<lparr>lw_risk := rm2\<rparr>" "tr_world s' = (tr_world s8)\<lparr>lw_risk := rm3\<rparr>"
    using from_key market strategy(1) signal spend hash build sign risk2(1) risk3(1) by (simp_all add: on_risk_def)
  have risks: "lw_risk (tr_world s5) = rm1" "lw_risk (tr_world s8) = rm2" using worlds rm1(2) by (simp_all add: on_risk_def)
  have caches: "tr_caches s1' = tr_caches s" "tr_series s1' = tr_series s" using from_key rm1(2) by (simp_all add: on_risk_def)
  then have ok: "market_ok ru cfg ed blocklist f s1' m = market_ok ru cfg ed blocklist f s m" by (simp only: market_ok_def)
  have "entry_justified ru cfg ed expected tip blocklist i s sy rm3"
    unfolding entry_justified_def
    using from_key market ok caches strategy signal spend hash build sign risk2(2) risk3(2) risks rm1(1) assms(2) lg sy
    by (auto split: if_splits)
  moreover have "tr_world s' = (tr_world s)\<lparr>lw_risk := rm3\<rparr>" using worlds rm1(2) by (simp add: on_risk_def)
  ultimately show ?thesis by blast
qed

lemma settle_unsaved: "fst (settle_entry en p mo) = [] \<longleftrightarrow> \<not> en_pending_saved en"
  by (auto simp: settle_entry_def Let_def split: sum.splits entry_failure.splits)

lemma funded_Inr:
  assumes "funded_stage ed ru sy s = (Inr p, s')"
  shows "s' = s \<and> entry_funded ru ed sy p"
  using assms by (auto simp: entry_funded_def funded_stage_def Let_def not_less split: option.splits sum.splits if_splits)

lemma quiet_funded: "quiet (funded_stage ed ru sy)"
  by (simp add: funded_stage_def Let_def split: option.split sum.split)

lemma sent_funded:
  assumes "send_stage ru cfg ed sy s = (r, s')"
  shows "same_books s s' \<or> (\<exists>p. entry_funded ru ed sy p \<and> en_pending_saved (ed_settle ed)
    \<and> fst (settle_entry (ed_settle ed) p (sy_min_output sy)) \<noteq> []
    \<and> tr_steps s' = tr_steps s @ fst (settle_entry (ed_settle ed) p (sy_min_output sy))
    \<and> tr_world s' = fold (do_step cfg (ed_recheck_env ed)) (fst (settle_entry (ed_settle ed) p (sy_min_output sy))) (tr_world s)
    \<and> tr_position s' = snd (settle_entry (ed_settle ed) p (sy_min_output sy)))"
proof -
  obtain r1 s1 where f: "funded_stage ed ru sy s = (r1, s1)" by fastforce
  have q: "same_books s s1" using quietD [OF quiet_funded, of s s] f by (metis same_books_on_risk(6) snd_conv)
  show ?thesis
  proof (cases r1)
    case (Inr p)
    have funded: "s1 = s" "entry_funded ru ed sy p" using funded_Inr [of ed ru sy s p s1] f Inr by simp_all
    show ?thesis
    proof (cases "en_pending_saved (ed_settle ed)")
      case True
      obtain steps pos where st: "settle_entry (ed_settle ed) p (sy_min_output sy) = (steps, pos)" by fastforce
      then have "tr_steps s' = tr_steps s @ steps" "tr_world s' = fold (do_step cfg (ed_recheck_env ed)) steps (tr_world s)"
        "tr_position s' = pos"
        using assms f Inr True funded(1) by (auto simp: send_stage_def stage_def go_def perform_def)
      moreover have "steps \<noteq> []" using settle_unsaved [of "ed_settle ed" p "sy_min_output sy"] True st by simp
      ultimately show ?thesis using True funded(2) st by auto
    qed (use assms f Inr q in \<open>auto simp: send_stage_def stage_def stop_def\<close>)
  qed (use assms f q in \<open>auto simp: send_stage_def stage_def\<close>)
qed

text \<open>
  C2. An entry is sent only when everything allows it: the files of the trader change and something is sent only in a live run, and then, all told from
  the state the iteration started in and the answers it read, the breaker was not active, the wallet is the key the signer reported
  and the run expects, the pool, its price and its accounts were read and fresh, both mints and the holders passed their gates against the
  caches of that state, the strategy, the signal gate on the series with this iteration's sample, and the spend cap let the
  candidate through, the risk manager accepted the entry after the breaker's poll, the transaction is one swap of exactly the position's size
  that asks for at least the simulated output less the slippage and passed the economics, the risk manager accepted the entry again, as
  the first check left it, the signature over this transaction and the node's latest block hash was verified for the wallet, and the wallet
  held the size and, for SOL, the reserve when its balances were recorded.  What follows on the files is then exactly the steps of the settlement, on
  the books as the second check left them.
\<close>

theorem sent_entry_justified:
  "case entry_stage ru cfg ed expected None tip blocklist i s of
     (_, s') \<Rightarrow>
       if tr_steps s' = tr_steps s
       then tr_position s' = tr_position s \<and> lw_position (tr_world s') = lw_position (tr_world s)
         \<and> lw_pending (tr_world s') = lw_pending (tr_world s)
       else ar_live (ru_args ru) \<and> en_pending_saved (ed_settle ed)
         \<and> (\<exists>sy rm p. entry_justified ru cfg ed expected tip blocklist i s sy rm \<and> entry_funded ru ed sy p
            \<and> (case settle_entry (ed_settle ed) p (sy_min_output sy) of (steps, pos) \<Rightarrow>
                 tr_steps s' = tr_steps s @ steps \<and> tr_position s' = pos
                 \<and> tr_world s' = fold (do_step cfg (ed_recheck_env ed)) steps ((tr_world s)\<lparr>lw_risk := rm\<rparr>)))"
proof -
  obtain r s' where e: "entry_stage ru cfg ed expected None tip blocklist i s = (r, s')" by fastforce
  obtain r1 s1 where p: "prepare_entry ru cfg ed expected None tip blocklist i s = (r1, s1)" by fastforce
  have q: "same_books s s1" using quietD [OF quiet_prepare, of s s] p by (metis same_books_on_risk(6) snd_conv)
  show ?thesis
  proof (cases r1)
    case (Inl x)
    then show ?thesis using e p q by (auto simp: entry_stage_def stage_def same_books_def)
  next
    case (Inr sy)
    show ?thesis
    proof (cases "ar_live (ru_args ru)")
      case True
      obtain rm where j: "entry_justified ru cfg ed expected tip blocklist i s sy rm" "tr_world s1 = (tr_world s)\<lparr>lw_risk := rm\<rparr>"
        using prepare_Inr [OF _ True] p Inr by blast
      have "send_stage ru cfg ed sy s1 = (r, s')" using e p Inr True by (simp add: entry_stage_def stage_def)
      from sent_funded [OF this] show ?thesis
      proof (elim disjE exE conjE)
        assume "same_books s1 s'"
        then have "same_books s s'" using q same_books_trans by blast
        then show ?thesis using e by (simp add: same_books_def)
      next
        fix n
        assume sent: "entry_funded ru ed sy n" "en_pending_saved (ed_settle ed)" "fst (settle_entry (ed_settle ed) n (sy_min_output sy)) \<noteq> []"
          "tr_steps s' = tr_steps s1 @ fst (settle_entry (ed_settle ed) n (sy_min_output sy))"
          "tr_world s' = fold (do_step cfg (ed_recheck_env ed)) (fst (settle_entry (ed_settle ed) n (sy_min_output sy))) (tr_world s1)"
          "tr_position s' = snd (settle_entry (ed_settle ed) n (sy_min_output sy))"
        have "tr_steps s1 = tr_steps s" using q by (simp add: same_books_def)
        then have "tr_steps s' \<noteq> tr_steps s" using sent(3,4) by simp
        then show ?thesis
          unfolding e prod.case using True j sent \<open>tr_steps s1 = tr_steps s\<close>
          by (simp only: if_False) (intro conjI exI [of _ sy] exI [of _ rm] exI [of _ n], simp_all add: case_prod_beta)
      qed
    qed (use e p q Inr in \<open>auto simp: entry_stage_def stage_def same_books_def go_def\<close>)
  qed
qed

definition in_mode :: "bool \<Rightarrow> string \<Rightarrow> run_args \<Rightarrow> run_args" where
  "in_mode live pool ru =
     ru\<lparr>ru_args := (ru_args ru)\<lparr>ar_live := live, ar_dry_run := \<not> live, ar_pool_id := Some pool\<rparr>, ru_blockhash := None\<rparr>"

lemma in_mode_same:
  fixes ru :: run_args and pool :: string
  defines "l \<equiv> in_mode True pool ru" and "d \<equiv> in_mode False pool ru"
  shows "ru_pool_liquidity l = ru_pool_liquidity d" "ru_pool_market_cap l = ru_pool_market_cap d" "ru_pool_holders l = ru_pool_holders d"
    "ru_pool_blocklisted l = ru_pool_blocklisted d" "ru_max_top_holder_pct l = ru_max_top_holder_pct d" "ru_max_spend_sol l = ru_max_spend_sol d"
    "ru_signal_gate l = ru_signal_gate d" "ru_signal_min_confidence l = ru_signal_min_confidence d"
    "ru_signal_max_age_ms l = ru_signal_max_age_ms d"
    "run_strategy_config (ru_args l) = run_strategy_config (ru_args d)" "uses_hsm (ru_args l) = uses_hsm (ru_args d)"
    "parse_target sdk (ru_args l) = parse_target sdk (ru_args d)" "entry_adapter (ru_args l) = entry_adapter (ru_args d)"
    "risk_data_stage (ru_args l) = risk_data_stage (ru_args d)" "sign_and_verify b v (ru_args l) = sign_and_verify b v (ru_args d)"
    "entry_economics (ru_args l) = entry_economics (ru_args d)"
    "ar_rpc (ru_args l) = ar_rpc (ru_args d)" "(ar_pool_id (ru_args l) = None) = False" "(ar_pool_id (ru_args d) = None) = False"
    "ar_input_mint (ru_args l) = ar_input_mint (ru_args d)" "ar_output_mint (ru_args l) = ar_output_mint (ru_args d)"
    "ar_compute_unit_limit (ru_args l) = ar_compute_unit_limit (ru_args d)" "ar_priority_fee (ru_args l) = ar_priority_fee (ru_args d)"
    "ar_max_slippage_bps (ru_args l) = ar_max_slippage_bps (ru_args d)"
  by (simp_all add: l_def d_def in_mode_def fun_eq_iff run_strategy_config_def uses_hsm_def parse_target_def entry_adapter_def
      risk_data_stage_def sign_and_verify_def entry_economics_def Let_def cong: if_cong)

text \<open>
  C36. A dry run rehearses a live one: with a pool configured and no block hash given, everything up to the signature - the
  stages, their order, their answers and what they do to the state - is the same in a live and in a dry run.
\<close>

theorem dry_run_rehearses_live:
  "prepare_entry (in_mode True pool ru) cfg ed expected payer tip blocklist i
     = prepare_entry (in_mode False pool ru) cfg ed expected payer tip blocklist i"
proof -
  have hash: "hash_stage (in_mode True pool ru) ed = hash_stage (in_mode False pool ru) ed"
    by (simp add: hash_stage_def in_mode_def)
  show ?thesis
    unfolding prepare_entry_def hash resolve_signer_def entry_market_stage_def market_stage_def strategy_stage_def entry_candidate_def
      signal_stage_def signal_gate_rejects_def signal_cfg_of_def spend_stage_def build_stage_def swap_stage_def entry_opts_def sign_stage_def
      Let_def in_mode_same simp_thms
    by (rule TrueI)
qed

text \<open>
  The entry price survives its record: the price written as a decimal string before the entry is sent is read back exactly by
  the exits, for every price of 128 bits.
\<close>

theorem recorded_price_read_back:
  "entry_sqrt (pe_position (pending_of ed ru sy before_in before_out)) = mk_sqrt (sy_market sy)"
proof -
  have "parse_u128_or_0 (decimal (unat x)) = x" for x :: u128
  proof -
    obtain c cs where d: "decimal (unat x) = c # cs" using decimal_nonempty by (cases "decimal (unat x)") auto
    have "c \<noteq> CHR ''+''" using decimal_head [OF d] by auto
    moreover have "unat x < 2 ^ 128" using unsigned_less [of x] by simp
    ultimately show ?thesis
      using parse_decimal [of "unat x"] unfolding parse_u128_or_0_def d by (simp add: Let_def of_nat_unat_same)
  qed
  then show ?thesis by (simp add: entry_sqrt_def pending_of_def Let_def show_u128_def)
qed

end
