(* ===== verification/Main_Loop.thy ===== *)
theory Main_Loop
  imports Metrics Entry_Gates Paper
begin

text \<open>
  \<open>solana-sniper/src/main.rs\<close>: the main loop around the entry path (\<open>Entry_Gates\<close>), the exits (\<open>Live_Exit\<close>), the paper simulator (\<open>Paper\<close>) and the
  PumpSwap measurement (\<open>Paper_Data\<close>), in the order of the code.  An iteration goes on to the next one, ends the loop, or ends the
  process with an error; the environment holds everything it reads.
\<close>

section \<open>State and environment\<close>

record loop_state =
  ls_trader :: trader
  ls_sim :: paper_sim
  ls_counts :: "string list"        \<comment> \<open>the keys counted in \<open>rejected_by_reason\<close>, in order\<close>
  ls_paper_iterations :: u64
  ls_paper_rejects :: u64
  ls_data_errors :: u64
  ls_status :: process_status

record loop_cfg =
  lc_run :: run_args
  lc_risk :: risk_config
  lc_expected :: "pubkey option"
  lc_payer :: "pubkey option"
  lc_tip :: "(pubkey \<times> u64) option"
  lc_blocklist :: "pubkey set"

record loop_env =
  le_shutdown :: bool
  le_elapsed_secs :: u64
  le_now :: u64
  le_gauges :: "risk_env \<times> risk_env"   \<comment> \<open>at the two readings of the breaker for the gauges\<close>
  le_stream :: bool                     \<comment> \<open>a stream provider exists\<close>
  le_node :: entry_node
  le_check :: risk_env
  le_exit :: exit_env
  le_exit_risk :: risk_env
  le_hsm :: "string + pubkey"
  le_clear_ok :: bool
  le_pump :: pump_env
  le_order :: "string list"             \<comment> \<open>the order in which the hash map yields its keys\<close>

datatype flow = Next | Break | Died

definition on_trader :: "(trader \<Rightarrow> trader) \<Rightarrow> loop_state \<Rightarrow> loop_state" where
  "on_trader f s = s\<lparr>ls_trader := f (ls_trader s)\<rparr>"

text \<open>Writing the decision record; a failed write ends the process.\<close>

definition written :: "bool \<Rightarrow> loop_state \<Rightarrow> flow \<times> loop_state" where
  "written ok s = (if ok then Next else Died, s)"

definition count_reason :: "string \<Rightarrow> loop_state \<Rightarrow> loop_state" where
  "count_reason code s = s\<lparr>ls_counts := ls_counts s @ [code]\<rparr>"

definition metric_reject :: "string \<Rightarrow> trader \<Rightarrow> trader" where
  "metric_reject code t = t\<lparr>tr_rejects := tr_rejects t @ [code]\<rparr>"

text \<open>\<open>max_by_key\<close> over the map: the last of the keys with the highest count.\<close>

fun max_by_count :: "string list \<Rightarrow> string list \<Rightarrow> string option \<Rightarrow> string option" where
  "max_by_count counts [] best = best"
| "max_by_count counts (k # ks) best =
     max_by_count counts ks
       (case best of None \<Rightarrow> Some k | Some b \<Rightarrow> if count_list counts b \<le> count_list counts k then Some k else Some b)"

definition reported_reason :: "string list \<Rightarrow> string list \<Rightarrow> string" where
  "reported_reason counts order = (case max_by_count counts order None of Some k \<Rightarrow> k | None \<Rightarrow> ''unknown'')"

section \<open>Starting\<close>

definition max_iterations :: "u32 \<Rightarrow> u64" where
  "max_iterations n = (if n = 0 then - 1 else ucast n)"

definition loop_interval_ms :: "u64 \<Rightarrow> u64" where
  "loop_interval_ms ms = max ms 50"

definition health_limit_ms :: "u64 \<Rightarrow> u64" where
  "health_limit_ms ms = 240000 + 10 * loop_interval_ms ms"

section \<open>The beginning of an iteration\<close>

definition leaves_loop :: "loop_cfg \<Rightarrow> loop_env \<Rightarrow> loop_state \<Rightarrow> bool" where
  "leaves_loop c e s \<longleftrightarrow>
     le_shutdown e \<or> (ru_single_trade (lc_run c) \<and> tr_trade_done (ls_trader s))
     \<or> entry_window_expired (le_elapsed_secs e) (ru_entry_window_secs (lc_run c))
         (tr_position (ls_trader s) \<noteq> None \<or> sm_position (ls_sim s) \<noteq> None)"

definition mode_label :: "args \<Rightarrow> string" where
  "mode_label a = (if ar_live a then ''live'' else if ar_paper a then ''paper'' else if ar_dry_run a then ''dry_run'' else ''simulation'')"

definition readiness_of :: "loop_cfg \<Rightarrow> loop_env \<Rightarrow> bool \<Rightarrow> trader \<Rightarrow> readiness" where
  "readiness_of c e active t =
     (let a = ru_args (lc_run c); rm = lw_risk (tr_world t); b = (if active then 2 else 0 :: u8)
      in \<lparr> rs_process_alive = True, rs_state_verified = is_state_verified rm, rs_reconcile_required = False,
           rs_exit_blocked = exit_blocked (tr_position t \<noteq> None) (tr_exit_failures t), rs_exit_failures = tr_exit_failures t,
           rs_breaker_state = b, rs_kill_switch = rm_kill_switch rm, rs_live_armed = rm_live_armed rm,
           rs_hsm_ready = (if ar_live a then Some (b \<noteq> 2) else None), rs_rpc_ready = Some (b \<noteq> 2),
           rs_market_data_ready = Some (le_stream e \<or> \<not> ar_live a \<or> b \<noteq> 2), rs_mode = mode_label a \<rparr>)"

text \<open>The gauges read the breaker twice, and a reading resets it once it has cooled down.\<close>

definition publish :: "loop_cfg \<Rightarrow> loop_env \<Rightarrow> loop_state \<Rightarrow> loop_state" where
  "publish c e s =
     (case is_circuit_breaker_active (lc_risk c) (fst (le_gauges e)) (lw_risk (tr_world (ls_trader s))) of
        (_, rm1) \<Rightarrow>
     (case is_circuit_breaker_active (lc_risk c) (snd (le_gauges e)) rm1 of
        (active, rm2) \<Rightarrow>
          let t = on_risk (\<lambda>_. rm2) (ls_trader s)
          in s\<lparr>ls_trader := t, ls_status := set_readiness (readiness_of c e active t) (heartbeat (le_now e) (ls_status s))\<rparr>))"

section \<open>An iteration with an open live position\<close>

definition loop_of :: "trader \<Rightarrow> exit_loop" where
  "loop_of t = \<lparr> xl_position = tr_position t, xl_failures = tr_exit_failures t, xl_trade_done = tr_trade_done t, xl_world = tr_world t \<rparr>"

text \<open>The outcome of the exit, \<open>None\<close> when the signer could not be reached.\<close>

definition exit_answer :: "loop_cfg \<Rightarrow> loop_env \<Rightarrow> trader \<Rightarrow> exit_outcome option" where
  "exit_answer c e t =
     (case (tr_position t, and_then (map_err (\<lambda>_. SignerUnavailable) (le_hsm e)) (\<lambda>pk. and_then (validate_hsm_pubkey pk (lc_expected c)) (\<lambda>_. Inr pk))) of
        (Some pos, Inr from) \<Rightarrow>
          Some (fst (manage_open_position (le_exit e) (ru_args (lc_run c)) (lc_risk c) (le_exit_risk e) from (lc_tip c)
            (tr_exit_failures t) pos (tr_world t)))
      | _ \<Rightarrow> None)"

definition exit_step :: "loop_cfg \<Rightarrow> loop_env \<Rightarrow> loop_state \<Rightarrow> flow \<times> loop_state" where
  "exit_step c e s =
     (let t = ls_trader s;
          x = exit_iteration (le_exit e) (ru_args (lc_run c)) (lc_risk c) (le_exit_risk e) (lc_tip c) (lc_expected c) (le_hsm e) (le_clear_ok e)
                (loop_of t);
          t' = t\<lparr>tr_position := xl_position x, tr_exit_failures := xl_failures x, tr_trade_done := xl_trade_done x, tr_world := xl_world x\<rparr>
      in case exit_answer c e t of
           None \<Rightarrow> (Next, s)
         | Some ExitHold \<Rightarrow> (Next, s\<lparr>ls_trader := t'\<rparr>)
         | Some (ExitClosed _ _) \<Rightarrow> written (ed_log (le_node e) LogExit) (s\<lparr>ls_trader := t'\<lparr>tr_successes := tr_successes t' + 1\<rparr>\<rparr>)
         | Some _ \<Rightarrow> written (ed_log (le_node e) LogExit) (s\<lparr>ls_trader := t'\<rparr>))"

section \<open>The first risk check\<close>

definition check_fails :: "loop_cfg \<Rightarrow> reject_reason \<Rightarrow> loop_state \<Rightarrow> flow \<times> loop_state" where
  "check_fails c r s =
     (let s = on_trader (metric_reject (reject_code r)) (count_reason (reject_code r) s)
      in (if ar_live (ru_args (lc_run c)) then (if r = CircuitBreakerOpen then Next else Break) else Next, s))"

section \<open>The measurement of a PumpSwap dry run\<close>

definition pump_step :: "loop_cfg \<Rightarrow> loop_env \<Rightarrow> loop_state \<Rightarrow> flow \<times> loop_state" where
  "pump_step c e s =
     (case pumpswap_dry_run (lc_run c) (ed_node (le_node e)) (le_pump e) (the (lc_payer c)) (sol_to_lamports (ru_max_spend_sol (lc_run c)))
             (tr_caches (ls_trader s)) of
        (r, caches) \<Rightarrow>
          let s = on_trader (\<lambda>t. t\<lparr>tr_caches := caches\<rparr>) s
          in written (ed_log (le_node e) LogPaper)
               (case r of Inr (DryRejected code) \<Rightarrow> count_reason code s | _ \<Rightarrow> s))"

section \<open>A paper iteration\<close>

definition paper_reject :: "string \<Rightarrow> loop_state \<Rightarrow> loop_state" where
  "paper_reject code s =
     on_trader (metric_reject code) ((count_reason code s)\<lparr>ls_paper_rejects := ls_paper_rejects s + 1\<rparr>)"

text \<open>The gates of a simulated entry; the risk manager may reset its breaker.\<close>

definition paper_gate :: "loop_cfg \<Rightarrow> loop_env \<Rightarrow> series \<Rightarrow> entry_signal \<Rightarrow> risk_manager \<Rightarrow> (string + unit) \<times> risk_manager" where
  "paper_gate c e ser sig rm =
     (case signal_gate_rejects (ed_functions (le_node e)) (lc_run c) ser (ed_gate_ms (le_node e)) of
        Some r \<Rightarrow> (Inl (reason_text r), rm)
      | None \<Rightarrow>
          if sol_to_lamports (ru_max_spend_sol (lc_run c)) < position_size_lamports sig then (Inl ''max_spend_exceeded'', rm)
          else case pre_trade_check (lc_risk c) (ed_risk_env (le_node e)) (position_size_lamports sig) (slippage_bps sig) rm of
                 (Inl r, rm) \<Rightarrow> (Inl (reject_code r), rm)
               | (Inr _, rm) \<Rightarrow> (Inr (), rm))"

definition paper_enter :: "loop_cfg \<Rightarrow> loop_env \<Rightarrow> u128 \<Rightarrow> entry_signal \<Rightarrow> loop_state \<Rightarrow> flow \<times> loop_state" where
  "paper_enter c e price sig s =
     (let t = ls_trader s
      in case paper_gate c e (tr_series t) sig (lw_risk (tr_world t)) of
           (Inl code, rm) \<Rightarrow> written (ed_log (le_node e) LogPaper) (paper_reject code (on_trader (on_risk (\<lambda>_. rm)) s))
         | (Inr _, rm) \<Rightarrow>
             written (ed_log (le_node e) LogPaper)
               (on_trader (\<lambda>t. (on_risk (\<lambda>_. rm) t)\<lparr>tr_trades := tr_trades t + 1, tr_successes := tr_successes t + 1\<rparr>)
                  (s\<lparr>ls_sim := confirm_entry price sig (ls_sim s)\<rparr>)))"

definition snapshot_candidate :: "paper_market_snapshot \<Rightarrow> token_candidate" where
  "snapshot_candidate snap =
     \<lparr> liquidity_lamports = pm_liquidity snap, market_cap_lamports = pm_market_cap snap, holders = pm_holders snap,
       is_blocklisted = pm_blocklisted snap \<rparr>"

definition paper_clocked :: "paper_market_snapshot \<Rightarrow> u64 \<Rightarrow> paper_sim \<Rightarrow> paper_sim" where
  "paper_clocked snap now sim =
     sim\<lparr>sm_input_is_token0 := pm_input_is_token0 snap,
         sm_cost_model := (sm_cost_model sim)\<lparr>pm_fee_rate_ppm := pm_fee_ppm snap\<rparr>, sm_now_ms := now\<rparr>"

definition paper_trade :: "loop_cfg \<Rightarrow> loop_env \<Rightarrow> paper_market_snapshot \<Rightarrow> loop_state \<Rightarrow> flow \<times> loop_state" where
  "paper_trade c e snap s =
     (let now = ed_push_ms (le_node e);
          t = (ls_trader s)\<lparr>tr_series := snd (series_push
                \<lparr> ob_ts_ms = now, ob_price = held_token_price (pm_sqrt_price snap) (pm_input_is_token0 snap), ob_liquidity = pm_liquidity snap \<rparr>
                (tr_series (ls_trader s)))\<rparr>
      in case tick (snapshot_candidate snap) (pm_sqrt_price snap) (paper_clocked snap now (ls_sim s)) of
           (EntryPending sig, sim) \<Rightarrow> paper_enter c e (pm_sqrt_price snap) sig (s\<lparr>ls_trader := t, ls_sim := sim\<rparr>)
         | (HoldTick, sim) \<Rightarrow> written (ed_log (le_node e) LogPaper) (s\<lparr>ls_trader := t, ls_sim := sim\<rparr>)
         | (NoEntrySignal, sim) \<Rightarrow> written (ed_log (le_node e) LogPaper) (s\<lparr>ls_trader := t, ls_sim := sim\<rparr>)
         | (_, sim) \<Rightarrow> written (ed_log (le_node e) LogPaper) (s\<lparr>ls_trader := t\<lparr>tr_trade_done := True\<rparr>, ls_sim := sim\<rparr>))"

definition paper_step :: "loop_cfg \<Rightarrow> loop_env \<Rightarrow> loop_state \<Rightarrow> flow \<times> loop_state" where
  "paper_step c e s0 =
     (let s = s0\<lparr>ls_paper_iterations := ls_paper_iterations s0 + 1\<rparr>
      in case resolve_paper_market_data (lc_run c) (lc_risk c) (ed_node (le_node e)) (lc_blocklist c) (tr_caches (ls_trader s)) of
           (r, caches) \<Rightarrow>
             let s = on_trader (\<lambda>t. t\<lparr>tr_caches := caches\<rparr>) s
             in case r of
                  Inl (Rejected reason) \<Rightarrow> written (ed_log (le_node e) LogPaper) (paper_reject (reject_code reason) s)
                | Inl (Unavailable _) \<Rightarrow> written (ed_log (le_node e) LogPaper) (s\<lparr>ls_data_errors := ls_data_errors s + 1\<rparr>)
                | Inr snap \<Rightarrow> paper_trade c e snap s)"

section \<open>The loop\<close>

text \<open>A live or dry-run iteration that went through all stages counts as a trade; an early return goes on with the next one.\<close>

definition entry_iteration :: "loop_cfg \<Rightarrow> nat \<Rightarrow> loop_env \<Rightarrow> loop_state \<Rightarrow> flow \<times> loop_state" where
  "entry_iteration c i e s =
     (case entry_stage (lc_run c) (lc_risk c) (le_node e) (lc_expected c) (lc_payer c) (lc_tip c) (lc_blocklist c) i (ls_trader s) of
        (Inl Fatal, t) \<Rightarrow> (Died, s\<lparr>ls_trader := t\<rparr>)
      | (Inl _, t) \<Rightarrow> (Next, s\<lparr>ls_trader := t\<rparr>)
      | (Inr _, t) \<Rightarrow> (Next, s\<lparr>ls_trader := t\<lparr>tr_trades := tr_trades t + 1\<rparr>\<rparr>))"

definition mode_step :: "loop_cfg \<Rightarrow> nat \<Rightarrow> loop_env \<Rightarrow> loop_state \<Rightarrow> flow \<times> loop_state" where
  "mode_step c i e s =
     (let a = ru_args (lc_run c)
      in if ar_dry_run a \<and> ar_amm a = PumpswapAmm then pump_step c e s
         else if ar_paper a then paper_step c e s
         else if ar_live a \<or> ar_dry_run a then entry_iteration c i e s
         else (Next, on_trader (\<lambda>t. t\<lparr>tr_trades := tr_trades t + 1\<rparr>) s))"

definition iteration :: "loop_cfg \<Rightarrow> nat \<Rightarrow> loop_env \<Rightarrow> loop_state \<Rightarrow> flow \<times> loop_state" where
  "iteration c i e s0 =
     (if leaves_loop c e (s0\<lparr>ls_status := heartbeat (le_now e) (ls_status s0)\<rparr>)
      then (Break, s0\<lparr>ls_status := heartbeat (le_now e) (ls_status s0)\<rparr>)
      else
        let s = publish c e s0
        in if ar_live (ru_args (lc_run c)) \<and> tr_position (ls_trader s) \<noteq> None then exit_step c e s
           else case pre_trade_check (lc_risk c) (le_check e) (sol_to_lamports (f64_round (1 / 100))) 50 (lw_risk (tr_world (ls_trader s))) of
                  (r, rm) \<Rightarrow>
                    let s = on_trader (on_risk (\<lambda>_. rm)) s
                    in case r of Inl reason \<Rightarrow> check_fails c reason s | Inr _ \<Rightarrow> mode_step c i e s)"

text \<open>A run over the environments of its iterations, at most \<open>max_iterations\<close> of them.\<close>

fun run_loop :: "loop_cfg \<Rightarrow> nat \<Rightarrow> loop_env list \<Rightarrow> loop_state \<Rightarrow> flow \<times> loop_state" where
  "run_loop c i [] s = (Next, s)"
| "run_loop c i (e # es) s =
     (if unat (max_iterations (ru_iterations (lc_run c))) \<le> i then (Break, s)
      else case iteration c i e s of (Next, s') \<Rightarrow> run_loop c (i + 1) es s' | (fl, s') \<Rightarrow> (fl, s'))"

section \<open>One iteration\<close>

abbreviation risk_of :: "loop_state \<Rightarrow> risk_manager" where
  "risk_of s \<equiv> lw_risk (tr_world (ls_trader s))"

lemma on_risk_fields [simp]:
  "tr_steps (on_risk f t) = tr_steps t" "tr_position (on_risk f t) = tr_position t" "tr_trade_done (on_risk f t) = tr_trade_done t"
  "lw_position (tr_world (on_risk f t)) = lw_position (tr_world t)" "lw_pending (tr_world (on_risk f t)) = lw_pending (tr_world t)"
  "lw_risk (tr_world (on_risk f t)) = f (lw_risk (tr_world t))"
  by (simp_all add: on_risk_def)

lemma on_trader_fields [simp]:
  "ls_trader (on_trader f s) = f (ls_trader s)" "ls_sim (on_trader f s) = ls_sim s"
  by (simp_all add: on_trader_def)

lemma metric_reject_fields [simp]:
  "tr_steps (metric_reject r t) = tr_steps t" "tr_position (metric_reject r t) = tr_position t"
  "tr_trade_done (metric_reject r t) = tr_trade_done t" "tr_world (metric_reject r t) = tr_world t"
  by (simp_all add: metric_reject_def)

lemma count_reason_fields [simp]: "ls_trader (count_reason r s) = ls_trader s" "ls_sim (count_reason r s) = ls_sim s"
  by (simp_all add: count_reason_def)

lemma written_state [simp]: "snd (written ok s) = s"
  by (simp add: written_def)

lemma publish_keeps:
  "ls_sim (publish c e s) = ls_sim s \<and> (\<exists>rm. ls_trader (publish c e s) = on_risk (\<lambda>_. rm) (ls_trader s)
    \<and> (if rm_kill_switch (risk_of s) then rm_kill_switch rm else True))"
proof -
  obtain a rm1 where p1: "is_circuit_breaker_active (lc_risk c) (fst (le_gauges e)) (risk_of s) = (a, rm1)" by fastforce
  obtain b rm2 where p2: "is_circuit_breaker_active (lc_risk c) (snd (le_gauges e)) rm1 = (b, rm2)" by fastforce
  have "rm_kill_switch rm2" if "rm_kill_switch (risk_of s)"
    using exec_killed [of rm1 "(snd (le_gauges e), OpPollBreaker)" "lc_risk c"]
      exec_killed [of "risk_of s" "(fst (le_gauges e), OpPollBreaker)" "lc_risk c"] p1 p2 that by simp
  then show ?thesis by (auto simp: publish_def p1 p2 Let_def)
qed

text \<open>The ways an iteration can go, from the state in which the gauges were published.\<close>

lemma iteration_goes:
  fixes e :: loop_env and c :: loop_cfg and s :: loop_state
  defines "s1 \<equiv> publish c e s"
  obtains (leaves) "snd (iteration c i e s) = s\<lparr>ls_status := heartbeat (le_now e) (ls_status s)\<rparr>"
  | (exits) "\<not> leaves_loop c e s" "ar_live (ru_args (lc_run c))" "tr_position (ls_trader s) \<noteq> None" "iteration c i e s = exit_step c e s1"
  | (refused) r rm where "\<not> leaves_loop c e s" "snd (iteration c i e s) = snd (check_fails c r (on_trader (on_risk (\<lambda>_. rm)) s1))"
      "snd (pre_trade_check (lc_risk c) (le_check e) (sol_to_lamports (f64_round (1 / 100))) 50 (risk_of s1)) = rm"
  | (trades) rm where "\<not> leaves_loop c e s" "ar_live (ru_args (lc_run c)) \<Longrightarrow> tr_position (ls_trader s) = None"
      "iteration c i e s = mode_step c i e (on_trader (on_risk (\<lambda>_. rm)) s1)"
      "pre_trade_check (lc_risk c) (le_check e) (sol_to_lamports (f64_round (1 / 100))) 50 (risk_of s1) = (Inr (), rm)"
proof -
  have l: "leaves_loop c e (s\<lparr>ls_status := x\<rparr>) = leaves_loop c e s" for x by (simp add: leaves_loop_def)
  have pos: "tr_position (ls_trader s1) = tr_position (ls_trader s)" using publish_keeps [of c e s] by (auto simp: s1_def)
  obtain r rm where p: "pre_trade_check (lc_risk c) (le_check e) (sol_to_lamports (f64_round (1 / 100))) 50 (risk_of s1) = (r, rm)" by fastforce
  have r: "(\<exists>x. r = Inl x) \<or> r = Inr ()" by (cases r) auto
  consider "leaves_loop c e s" | "\<not> leaves_loop c e s" "ar_live (ru_args (lc_run c))" "tr_position (ls_trader s) \<noteq> None"
    | x where "\<not> leaves_loop c e s" "\<not> (ar_live (ru_args (lc_run c)) \<and> tr_position (ls_trader s) \<noteq> None)" "r = Inl x"
    | "\<not> leaves_loop c e s" "\<not> (ar_live (ru_args (lc_run c)) \<and> tr_position (ls_trader s) \<noteq> None)" "r = Inr ()"
    using r by blast
  then show ?thesis
  proof cases
    case 1 then show ?thesis by (intro leaves) (simp add: iteration_def l)
  next
    case 2 then show ?thesis using pos by (intro exits) (simp_all add: iteration_def l s1_def Let_def)
  next
    case (3 x) then show ?thesis using pos p by (intro refused [of x rm]) (auto simp: iteration_def l s1_def Let_def)
  next
    case 4 then show ?thesis using pos p by (intro trades [of rm]) (auto simp: iteration_def l s1_def Let_def)
  qed
qed

lemma check_fails_keeps [simp]: "ls_trader (snd (check_fails c r s)) = metric_reject (reject_code r) (ls_trader s)" "ls_sim (snd (check_fails c r s)) = ls_sim s"
  by (simp_all add: check_fails_def Let_def)

lemma exit_step_keeps:
  "ls_sim (snd (exit_step c e s)) = ls_sim s \<and> tr_steps (ls_trader (snd (exit_step c e s))) = tr_steps (ls_trader s)"
  by (auto simp: exit_step_def Let_def split: option.split exit_outcome.split)

text \<open>A run keeps what every iteration keeps.\<close>

lemma run_keeps:
  assumes "\<And>i e s. P s \<Longrightarrow> P (snd (iteration c i e s))"
  shows "P s \<Longrightarrow> P (snd (run_loop c i es s))"
proof (induction es arbitrary: i s)
  case (Cons e es)
  obtain fl s' where s': "iteration c i e s = (fl, s')" by fastforce
  then have "P s'" using assms [OF Cons.prems, of i e] by simp
  then show ?case using Cons.IH Cons.prems by (auto simp: s' split: flow.split)
qed simp

section \<open>The kill switch\<close>

lemma managed_killed:
  "rm_kill_switch (lw_risk w) \<Longrightarrow> rm_kill_switch (lw_risk (snd (snd (manage_open_position env a cfg renv from tip f pos w))))"
  using exec_killed [where cfg = cfg and eo = "(renv, OpLoss n)" for n]
  by (auto simp: manage_open_position_def finish_exit_def Let_def split: prod.split sum.split prepared.split)

lemma exit_step_killed: "rm_kill_switch (risk_of s) \<Longrightarrow> rm_kill_switch (risk_of (snd (exit_step c e s)))"
proof -
  assume k: "rm_kill_switch (risk_of s)"
  have "rm_kill_switch (lw_risk (xl_world (exit_iteration env a cfg renv tip expected hsm ok x)))"
    if "rm_kill_switch (lw_risk (xl_world x))" for env a cfg renv tip expected hsm ok x
  proof -
    have "manage_open_position env a cfg renv from tip f pos (xl_world x) = (o1, p, w)
        \<Longrightarrow> rm_kill_switch (lw_risk w) \<and> (\<forall>n. rm_kill_switch (record_position_close renv n (lw_risk w)))" for "from" f pos o1 p w
      using managed_killed [OF that, of env a cfg renv "from" tip f pos] exec_killed [of "lw_risk w" "(renv, OpClose n)" cfg for n] by simp
    then show ?thesis
      using that by (auto simp: exit_iteration_def split: option.split sum.split prod.split exit_outcome.split)
  qed
  from this [of "loop_of (ls_trader s)"] have "rm_kill_switch (lw_risk (xl_world (exit_iteration env a cfg renv tip expected hsm ok (loop_of (ls_trader s)))))"
    for env a cfg renv tip expected hsm ok using k by (simp add: loop_of_def)
  then show ?thesis using k by (auto simp: exit_step_def Let_def split: option.split exit_outcome.split)
qed

definition killed_at :: "entry_step list \<Rightarrow> u64 \<Rightarrow> loop_state \<Rightarrow> bool" where
  "killed_at steps entries s \<longleftrightarrow> rm_kill_switch (risk_of s) \<and> tr_steps (ls_trader s) = steps \<and> sm_entries (ls_sim s) = entries"

lemma iteration_killed: "killed_at steps entries s \<Longrightarrow> killed_at steps entries (snd (iteration c i e s))"
proof -
  assume k: "killed_at steps entries s"
  obtain rm0 where p: "ls_sim (publish c e s) = ls_sim s" "ls_trader (publish c e s) = on_risk (\<lambda>_. rm0) (ls_trader s)" "rm_kill_switch rm0"
    using publish_keeps [of c e s] k by (auto simp: killed_at_def)
  show ?thesis
  proof (cases rule: iteration_goes [of c i e s])
    case leaves then show ?thesis using k by (simp add: killed_at_def)
  next
    case exits then show ?thesis
      using k p exit_step_keeps [of c e "publish c e s"] exit_step_killed [of "publish c e s" c e] by (simp add: killed_at_def)
  next
    case (refused r rm)
    then show ?thesis using k p exec_killed [of rm0 "(le_check e, OpCheck (sol_to_lamports (f64_round (1 / 100))) 50)" "lc_risk c"]
      by (simp add: killed_at_def)
  next
    case (trades rm)
    then show ?thesis using p killed_rejects [of rm0 "lc_risk c" "le_check e" "sol_to_lamports (f64_round (1 / 100))" 50] by simp
  qed
qed

text \<open>
  C11. The kill switch holds over a whole run: once it is on, no iteration sends an entry, books one or simulates one, and it stays on;
  exits of an open position go on.
\<close>

theorem killed_run_sends_nothing:
  "if rm_kill_switch (risk_of s)
   then tr_steps (ls_trader (snd (run_loop c i es s))) = tr_steps (ls_trader s)
     \<and> sm_entries (ls_sim (snd (run_loop c i es s))) = sm_entries (ls_sim s)
     \<and> rm_kill_switch (risk_of (snd (run_loop c i es s)))
   else True"
  using run_keeps [of "killed_at (tr_steps (ls_trader s)) (sm_entries (ls_sim s))" c s i es] iteration_killed
  by (auto simp: killed_at_def)

section \<open>What only a live run does\<close>

definition same_trades :: "trader \<Rightarrow> trader \<Rightarrow> bool" where
  "same_trades t t' \<longleftrightarrow> tr_steps t' = tr_steps t \<and> tr_position t' = tr_position t
     \<and> lw_position (tr_world t') = lw_position (tr_world t) \<and> lw_pending (tr_world t') = lw_pending (tr_world t)"

lemma same_trades_on_risk [simp]:
  "same_trades t t" "same_trades t (on_risk f t') = same_trades t t'" "same_trades t (metric_reject r t') = same_trades t t'"
  "same_trades t (t'\<lparr>tr_caches := ca\<rparr>) = same_trades t t'" "same_trades t (t'\<lparr>tr_series := se\<rparr>) = same_trades t t'"
  "same_trades t (t'\<lparr>tr_trades := n\<rparr>) = same_trades t t'" "same_trades t (t'\<lparr>tr_successes := n\<rparr>) = same_trades t t'"
  "same_trades t (t'\<lparr>tr_trade_done := d\<rparr>) = same_trades t t'"
  by (simp_all add: same_trades_def on_risk_def metric_reject_def)

lemma pump_step_trades: "same_trades (ls_trader s) (ls_trader (snd (pump_step c e s)))"
  by (auto simp: pump_step_def Let_def split: prod.split sum.split pump_dry_result.split)

lemma paper_enter_trades: "same_trades (ls_trader s) (ls_trader (snd (paper_enter c e price sig s)))"
  by (auto simp: paper_enter_def paper_reject_def Let_def split: prod.split sum.split)

lemma paper_trade_trades: "same_trades (ls_trader s) (ls_trader (snd (paper_trade c e snap s)))"
proof -
  have "same_trades (ls_trader s) (ls_trader (snd (paper_enter c e price sig (s\<lparr>ls_trader := (ls_trader s)\<lparr>tr_series := se\<rparr>, ls_sim := sim\<rparr>))))"
    for price sig se sim
    using paper_enter_trades [of "s\<lparr>ls_trader := (ls_trader s)\<lparr>tr_series := se\<rparr>, ls_sim := sim\<rparr>" c e price sig] by (simp add: same_trades_def)
  then show ?thesis by (auto simp: paper_trade_def Let_def split: prod.split paper_tick.split)
qed

lemma paper_step_trades: "same_trades (ls_trader s) (ls_trader (snd (paper_step c e s)))"
proof -
  have "same_trades (ls_trader s) (ls_trader (snd (paper_trade c e snap (on_trader (\<lambda>t. t\<lparr>tr_caches := ca\<rparr>) (s\<lparr>ls_paper_iterations := n\<rparr>)))))" for snap ca n
    using paper_trade_trades [of "on_trader (\<lambda>t. t\<lparr>tr_caches := ca\<rparr>) (s\<lparr>ls_paper_iterations := n\<rparr>)" c e snap] by (simp add: same_trades_def)
  then show ?thesis
    by (auto simp: paper_step_def paper_reject_def Let_def split: prod.split sum.split paper_data_error.split)
qed

lemma dry_entry_trades:
  assumes "\<not> ar_live (ru_args ru)"
  shows "same_trades t (snd (entry_stage ru cfg ed expected payer tip blocklist i t))"
proof -
  obtain r t1 where p: "prepare_entry ru cfg ed expected payer tip blocklist i t = (r, t1)" by fastforce
  have "same_books t t1" using quietD [OF quiet_prepare, of t t] p by (metis same_books_on_risk(6) snd_conv)
  then have "same_trades t t1" by (simp add: same_books_def same_trades_def)
  then show ?thesis using assms p by (cases r) (auto simp: entry_stage_def stage_def go_def)
qed

lemma entry_iteration_trader:
  "\<exists>n. ls_trader (snd (entry_iteration c i e s)) = (snd (entry_stage (lc_run c) (lc_risk c) (le_node e) (lc_expected c) (lc_payer c) (lc_tip c)
     (lc_blocklist c) i (ls_trader s)))\<lparr>tr_trades := n\<rparr> \<and> ls_sim (snd (entry_iteration c i e s)) = ls_sim s"
proof -
  have same: "\<exists>n. t = t\<lparr>tr_trades := n\<rparr>" for t :: trader by (rule exI [of _ "tr_trades t"]) simp
  obtain r t where r: "entry_stage (lc_run c) (lc_risk c) (le_node e) (lc_expected c) (lc_payer c) (lc_tip c) (lc_blocklist c) i (ls_trader s) = (r, t)"
    by fastforce
  then show ?thesis
  proof (cases r)
    case (Inl x)
    have "snd (case x of Fatal \<Rightarrow> (Died, s\<lparr>ls_trader := t\<rparr>) | _ \<Rightarrow> (Next, s\<lparr>ls_trader := t\<rparr>)) = s\<lparr>ls_trader := t\<rparr>" by (cases x) simp_all
    then show ?thesis using Inl r same by (simp add: entry_iteration_def)
  qed (auto simp: entry_iteration_def r)
qed

lemma mode_step_trades:
  assumes "\<not> ar_live (ru_args (lc_run c))"
  shows "same_trades (ls_trader s) (ls_trader (snd (mode_step c i e s)))"
  using pump_step_trades [of s c e] paper_step_trades [of s c e] entry_iteration_trader [of c i e s] dry_entry_trades [OF assms]
  by (auto simp: mode_step_def Let_def)

lemma iteration_trades:
  assumes "\<not> ar_live (ru_args (lc_run c))" "same_trades t (ls_trader s)"
  shows "same_trades t (ls_trader (snd (iteration c i e s)))"
proof -
  obtain rm0 where p: "ls_trader (publish c e s) = on_risk (\<lambda>_. rm0) (ls_trader s)" using publish_keeps [of c e s] by blast
  show ?thesis
  proof (cases rule: iteration_goes [of c i e s])
    case (trades rm)
    then show ?thesis
      using mode_step_trades [OF assms(1), of "on_trader (on_risk (\<lambda>_. rm)) (publish c e s)" i e] assms(2) p by (simp add: same_trades_def)
  qed (use assms p in simp_all)
qed

text \<open>
  C16. Only a live run trades: whatever happens in a paper, dry-run or simulated run of any length, nothing is sent, the position in memory
  stays as it was, and neither the position file nor the record of a pending entry is touched.
\<close>

theorem only_live_trades:
  "if ar_live (ru_args (lc_run c)) then True
   else tr_steps (ls_trader (snd (run_loop c i es s))) = tr_steps (ls_trader s)
     \<and> tr_position (ls_trader (snd (run_loop c i es s))) = tr_position (ls_trader s)
     \<and> lw_position (tr_world (ls_trader (snd (run_loop c i es s)))) = lw_position (tr_world (ls_trader s))
     \<and> lw_pending (tr_world (ls_trader (snd (run_loop c i es s)))) = lw_pending (tr_world (ls_trader s))"
  using run_keeps [of "\<lambda>s'. same_trades (ls_trader s) (ls_trader s')" c s i es] iteration_trades
  by (auto simp: same_trades_def)

section \<open>A single trade\<close>

definition is_open_step :: "entry_step \<Rightarrow> bool" where
  "is_open_step st = (case st of DoOpen _ \<Rightarrow> True | _ \<Rightarrow> False)"

text \<open>The positions opened so far, live and on paper, and whether one may still be opened by a run that stops after one trade.\<close>

definition opened :: "loop_state \<Rightarrow> nat" where
  "opened s = length (filter is_open_step (tr_steps (ls_trader s))) + unat (sm_entries (ls_sim s))"

definition may_open :: "loop_cfg \<Rightarrow> loop_state \<Rightarrow> nat" where
  "may_open c s =
     (if tr_trade_done (ls_trader s) \<or> (ar_live (ru_args (lc_run c)) \<and> tr_position (ls_trader s) \<noteq> None)
         \<or> (ar_paper (ru_args (lc_run c)) \<and> sm_position (ls_sim s) \<noteq> None) then 0 else 1)"

lemma settle_opens:
  "length (filter is_open_step (fst (settle_entry en p mo))) = (if snd (settle_entry en p mo) = None then 0 else 1)"
  by (auto simp: settle_entry_def clear_step_def is_open_step_def Let_def split: sum.split entry_failure.split)

lemma entry_stage_opens:
  assumes "entry_stage ru cfg ed expected payer tip blocklist i t = (r, t')" "tr_position t = None"
  shows "length (filter is_open_step (tr_steps t')) =
    length (filter is_open_step (tr_steps t)) + (if tr_position t' = None then 0 else 1)"
proof -
  obtain r1 t1 where p: "prepare_entry ru cfg ed expected payer tip blocklist i t = (r1, t1)" by fastforce
  have b: "same_books t t1" using quietD [OF quiet_prepare, of t t] p by (metis same_books_on_risk(6) snd_conv)
  show ?thesis
  proof (cases r1)
    case (Inr sy)
    show ?thesis
    proof (cases "ar_live (ru_args ru)")
      case True
      obtain r2 t2 where f: "funded_stage ed ru sy t1 = (r2, t2)" by fastforce
      have "same_books t1 t2" using quietD [OF quiet_funded, of t1 t1] f by (metis same_books_on_risk(6) snd_conv)
      then have b2: "same_books t t2" using b same_books_trans by blast
      show ?thesis
      proof (cases "\<exists>p. r2 = Inr p \<and> en_pending_saved (ed_settle ed)")
        case True
        then obtain p where r2: "r2 = Inr p" "en_pending_saved (ed_settle ed)" by blast
        obtain steps pos where st: "settle_entry (ed_settle ed) p (sy_min_output sy) = (steps, pos)" by fastforce
        have "t' = (perform cfg (ed_recheck_env ed) steps t2)\<lparr>tr_position := pos,
            tr_successes := (if pos = None then tr_successes t2 else tr_successes t2 + 1)\<rparr>"
          using assms(1) p Inr \<open>ar_live (ru_args ru)\<close> f r2 st by (auto simp: entry_stage_def stage_def send_stage_def go_def)
        then show ?thesis using settle_opens [of "ed_settle ed" p "sy_min_output sy"] st b2 by (simp add: perform_def same_books_def)
      qed (use assms p Inr \<open>ar_live (ru_args ru)\<close> f b2 in
          \<open>auto simp: entry_stage_def stage_def send_stage_def stop_def same_books_def split: sum.splits\<close>)
    qed (use assms p Inr b in \<open>auto simp: entry_stage_def stage_def go_def same_books_def\<close>)
  qed (use assms p b in \<open>auto simp: entry_stage_def stage_def same_books_def\<close>)
qed

lemma entry_iteration_opens:
  assumes "ar_live (ru_args (lc_run c)) \<Longrightarrow> tr_position (ls_trader s) = None" "\<not> tr_trade_done (ls_trader s)" "\<not> ar_paper (ru_args (lc_run c))"
  shows "opened (snd (entry_iteration c i e s)) + may_open c (snd (entry_iteration c i e s)) \<le> opened s + may_open c s"
proof -
  obtain r t where st: "entry_stage (lc_run c) (lc_risk c) (le_node e) (lc_expected c) (lc_payer c) (lc_tip c) (lc_blocklist c) i (ls_trader s) = (r, t)"
    by fastforce
  obtain n where t: "ls_trader (snd (entry_iteration c i e s)) = t\<lparr>tr_trades := n\<rparr>" "ls_sim (snd (entry_iteration c i e s)) = ls_sim s"
    using entry_iteration_trader [of c i e s] st by auto
  have one: "may_open c s = 1" "may_open c (snd (entry_iteration c i e s)) \<le> 1" using assms by (simp_all add: may_open_def)
  show ?thesis
  proof (cases "ar_live (ru_args (lc_run c))")
    case True
    have "may_open c (snd (entry_iteration c i e s)) + (if tr_position t = None then 0 else 1) \<le> 1"
      using True t by (simp add: may_open_def)
    then show ?thesis using entry_stage_opens [OF st assms(1) [OF True]] t one by (auto simp: opened_def split: if_splits)
  next
    case False
    have "tr_steps t = tr_steps (ls_trader s)" using dry_entry_trades [OF False, where t = "ls_trader s"] st by (metis same_trades_def snd_conv)
    then show ?thesis using t one by (simp add: opened_def)
  qed
qed

lemma tick_entries:
  assumes "tick cand price sim = (tk, sim')"
  shows "sm_entries sim' = sm_entries sim"
    and "sm_position sim \<noteq> None \<Longrightarrow> tk = HoldTick \<and> sm_position sim' \<noteq> None \<or> (\<exists>x. tk = ClosedStopLoss x) \<or> (\<exists>x. tk = ClosedTakeProfit x)
      \<or> (\<exists>d x. tk = ClosedForced d x)"
    and "sm_position sim = None \<Longrightarrow> sm_position sim' = None \<and> ((\<exists>sig. tk = EntryPending sig) \<or> tk = NoEntrySignal)"
  using assms
  by (auto simp: tick_def close_with_def book_close_def Let_def split: option.splits prod.splits exit_decision.splits)

lemma unat_step: "unat (x + 1 :: u64) \<le> unat x + 1"
  by (simp add: unat_word_ariths)

definition untouched :: "loop_state \<Rightarrow> loop_state \<Rightarrow> bool" where
  "untouched s s' \<longleftrightarrow> tr_steps (ls_trader s') = tr_steps (ls_trader s) \<and> tr_position (ls_trader s') = tr_position (ls_trader s)
     \<and> tr_trade_done (ls_trader s') = tr_trade_done (ls_trader s) \<and> sm_entries (ls_sim s') = sm_entries (ls_sim s)
     \<and> (sm_position (ls_sim s') = None \<longleftrightarrow> sm_position (ls_sim s) = None)"

lemma untouched_opens: "untouched s s' \<Longrightarrow> opened s' + may_open c s' = opened s + may_open c s"
  by (simp add: untouched_def opened_def may_open_def)

lemma paper_enter_opens:
  assumes "ar_paper (ru_args (lc_run c))" "may_open c s = 1"
  shows "opened (snd (paper_enter c e price sig s)) + may_open c (snd (paper_enter c e price sig s)) \<le> opened s + 1"
proof -
  obtain r rm where g: "paper_gate c e (tr_series (ls_trader s)) sig (risk_of s) = (r, rm)" by fastforce
  show ?thesis
  proof (cases r)
    case (Inl code)
    then have "untouched s (snd (paper_enter c e price sig s))"
      using g by (simp add: paper_enter_def paper_reject_def Let_def untouched_def)
    then show ?thesis using untouched_opens [of s _ c] assms(2) by simp
  next
    case (Inr u)
    then show ?thesis using g assms(1) unat_step [of "sm_entries (ls_sim s)"]
      by (simp add: paper_enter_def Let_def opened_def may_open_def confirm_entry_def)
  qed
qed

lemma paper_trade_opens:
  assumes "ar_paper (ru_args (lc_run c))" "\<not> tr_trade_done (ls_trader s)" "ar_live (ru_args (lc_run c)) \<Longrightarrow> tr_position (ls_trader s) = None"
  shows "opened (snd (paper_trade c e snap s)) + may_open c (snd (paper_trade c e snap s)) \<le> opened s + may_open c s"
proof -
  define s1 where "s1 se sim = s\<lparr>ls_trader := (ls_trader s)\<lparr>tr_series := se\<rparr>, ls_sim := sim\<rparr>" for se sim
  obtain tk sim where tk: "tick (snapshot_candidate snap) (pm_sqrt_price snap) (paper_clocked snap (ed_push_ms (le_node e)) (ls_sim s)) = (tk, sim)"
    by fastforce
  have clk: "sm_position (paper_clocked snap n m) = sm_position m" "sm_entries (paper_clocked snap n m) = sm_entries m" for n m
    by (simp_all add: paper_clocked_def)
  note ent = tick_entries [OF tk, unfolded clk]
  show ?thesis
  proof (cases "sm_position (ls_sim s) = None")
    case True
    then have none: "sm_position sim = None" and k: "(\<exists>sig. tk = EntryPending sig) \<or> tk = NoEntrySignal" using ent(3) by auto
    have may: "may_open c s = 1" "may_open c (s1 se sim) = 1" "opened (s1 se sim) = opened s" for se
      using assms True none ent(1) by (auto simp: may_open_def opened_def s1_def)
    from k show ?thesis
    proof
      assume "\<exists>sig. tk = EntryPending sig"
      then obtain sig where "tk = EntryPending sig" by blast
      then show ?thesis
        using paper_enter_opens [OF assms(1) may(2), of e "pm_sqrt_price snap" sig] may tk by (simp add: paper_trade_def Let_def s1_def)
    next
      assume "tk = NoEntrySignal"
      then show ?thesis using may tk by (simp add: paper_trade_def Let_def s1_def)
    qed
  next
    case False
    then have "may_open c s = 0" using assms(1) by (simp add: may_open_def)
    then show ?thesis
      using ent(1) ent(2) [OF False] tk assms(1) by (auto simp: paper_trade_def Let_def opened_def may_open_def)
  qed
qed

lemma paper_step_opens:
  assumes "ar_paper (ru_args (lc_run c))" "\<not> tr_trade_done (ls_trader s)" "ar_live (ru_args (lc_run c)) \<Longrightarrow> tr_position (ls_trader s) = None"
  shows "opened (snd (paper_step c e s)) + may_open c (snd (paper_step c e s)) \<le> opened s + may_open c s"
proof -
  obtain r caches where d: "resolve_paper_market_data (lc_run c) (lc_risk c) (ed_node (le_node e)) (lc_blocklist c) (tr_caches (ls_trader s)) = (r, caches)"
    by fastforce
  define s1 where "s1 = on_trader (\<lambda>t. t\<lparr>tr_caches := caches\<rparr>) (s\<lparr>ls_paper_iterations := ls_paper_iterations s + 1\<rparr>)"
  have u: "untouched s s1" by (simp add: s1_def untouched_def)
  show ?thesis
  proof (cases r)
    case (Inl x)
    have "untouched s (snd (paper_step c e s))"
      by (cases x) (simp_all add: paper_step_def d Inl Let_def untouched_def paper_reject_def)
    then show ?thesis using untouched_opens [of s _ c] by simp
  next
    case (Inr snap)
    have "opened (snd (paper_trade c e snap s1)) + may_open c (snd (paper_trade c e snap s1)) \<le> opened s1 + may_open c s1"
      using assms by (intro paper_trade_opens) (simp_all add: s1_def)
    then show ?thesis using d Inr untouched_opens [OF u, of c] by (simp add: paper_step_def s1_def Let_def)
  qed
qed

lemma exit_step_opens:
  assumes "ar_live (ru_args (lc_run c))" "tr_position (ls_trader s) \<noteq> None"
  shows "opened (snd (exit_step c e s)) + may_open c (snd (exit_step c e s)) \<le> opened s + may_open c s"
proof -
  define x where "x = exit_iteration (le_exit e) (ru_args (lc_run c)) (lc_risk c) (le_exit_risk e) (lc_tip c) (lc_expected c) (le_hsm e) (le_clear_ok e)
      (loop_of (ls_trader s))"
  have "xl_position (loop_of (ls_trader s)) \<noteq> None" using assms by (simp add: loop_of_def)
  then have "xl_position x \<noteq> None \<or> xl_trade_done x"
    unfolding x_def by (auto simp: exit_iteration_def split: option.split sum.split prod.split exit_outcome.split)
  then have "may_open c (snd (exit_step c e s)) = 0"
    using assms by (auto simp: exit_step_def may_open_def Let_def x_def [symmetric] split: option.split exit_outcome.split)
  then show ?thesis using exit_step_keeps [of c e s] by (simp add: opened_def)
qed

lemma mode_step_opens:
  assumes "\<not> tr_trade_done (ls_trader s)" "ar_live (ru_args (lc_run c)) \<Longrightarrow> tr_position (ls_trader s) = None" "untouched s0 s"
  shows "opened (snd (mode_step c i e s)) + may_open c (snd (mode_step c i e s)) \<le> opened s0 + may_open c s0"
proof -
  have "untouched s (snd (pump_step c e s))"
    by (auto simp: pump_step_def untouched_def Let_def split: prod.split sum.split pump_dry_result.split)
  then have pump: "opened (snd (pump_step c e s)) + may_open c (snd (pump_step c e s)) = opened s + may_open c s" by (rule untouched_opens)
  have base: "opened s + may_open c s = opened s0 + may_open c s0" using untouched_opens [OF assms(3)] .
  have bump: "opened (on_trader (\<lambda>t. t\<lparr>tr_trades := tr_trades t + 1\<rparr>) s) + may_open c (on_trader (\<lambda>t. t\<lparr>tr_trades := tr_trades t + 1\<rparr>) s)
      = opened s + may_open c s"
    by (rule untouched_opens) (simp add: untouched_def)
  have paper: "ar_paper (ru_args (lc_run c)) \<Longrightarrow> opened (snd (paper_step c e s)) + may_open c (snd (paper_step c e s)) \<le> opened s0 + may_open c s0"
    using paper_step_opens [where c = c and s = s and e = e] assms(1,2) base by simp
  have entry: "\<not> ar_paper (ru_args (lc_run c)) \<Longrightarrow> opened (snd (entry_iteration c i e s)) + may_open c (snd (entry_iteration c i e s))
      \<le> opened s0 + may_open c s0"
    using entry_iteration_opens [where s = s and c = c and i = i and e = e] base assms(1,2) by simp
  show ?thesis unfolding mode_step_def Let_def by (simp add: pump bump base paper entry)
qed

lemma publish_untouched: "untouched s (publish c e s)"
  using publish_keeps [of c e s] by (auto simp: untouched_def)

lemma untouched_simps [simp]:
  "untouched s0 (on_trader (on_risk f) s) = untouched s0 s" "untouched s0 (snd (check_fails c r s)) = untouched s0 s"
  "untouched s (s\<lparr>ls_status := st\<rparr>)"
  by (simp_all add: untouched_def)

lemma iteration_opens:
  assumes "ru_single_trade (lc_run c)"
  shows "opened (snd (iteration c i e s)) + may_open c (snd (iteration c i e s)) \<le> opened s + may_open c s"
proof (cases rule: iteration_goes [of c i e s])
  case leaves
  then show ?thesis using untouched_opens [of s "s\<lparr>ls_status := heartbeat (le_now e) (ls_status s)\<rparr>" c] by simp
next
  case exits
  then show ?thesis
    using exit_step_opens [of c "publish c e s" e] publish_untouched [of s c e] untouched_opens [OF publish_untouched [of s c e], of c]
    by (simp add: untouched_def)
next
  case (refused r rm)
  then show ?thesis using untouched_opens [of s _ c] publish_untouched [of s c e] by simp
next
  case (trades rm)
  then have "\<not> tr_trade_done (ls_trader s)" using assms by (simp add: leaves_loop_def)
  then show ?thesis
    using trades mode_step_opens [where s = "on_trader (on_risk (\<lambda>_. rm)) (publish c e s)" and c = c and s0 = s and i = i and e = e] publish_untouched [of s c e]
    by (simp add: untouched_def)
qed

text \<open>
  C4. A single-trade run opens at most one position: over any run of any length it opens one, live or on paper, when it starts idle, and none when
  it starts with an open position or after its trade.
\<close>

theorem single_trade_opens_once:
  "if ru_single_trade (lc_run c)
   then opened (snd (run_loop c i es s)) \<le> opened s
     + (if tr_trade_done (ls_trader s) \<or> (ar_live (ru_args (lc_run c)) \<and> tr_position (ls_trader s) \<noteq> None)
           \<or> (ar_paper (ru_args (lc_run c)) \<and> sm_position (ls_sim s) \<noteq> None) then 0 else 1)
   else True"
proof (cases "ru_single_trade (lc_run c)")
  case True
  have "opened (snd (run_loop c i es s)) + may_open c (snd (run_loop c i es s)) \<le> opened s + may_open c s"
    using run_keeps [of "\<lambda>s'. opened s' + may_open c s' \<le> opened s + may_open c s" c s i es] iteration_opens [OF True] le_trans by blast
  then show ?thesis using True by (simp add: may_open_def)
qed simp

section \<open>The loop implements the paper simulator\<close>

definition snapshot_of :: "paper_market_snapshot \<Rightarrow> u64 \<Rightarrow> paper_snapshot" where
  "snapshot_of snap now =
     \<lparr> sn_candidate = snapshot_candidate snap, sn_sqrt = pm_sqrt_price snap, sn_input_is_token0 = pm_input_is_token0 snap,
       sn_fee_ppm = pm_fee_ppm snap, sn_now_ms = now \<rparr>"

text \<open>
  The specification: which snapshot each iteration gives the simulator, and when an entry is allowed there.  An entry needs the signal to
  say \<open>Trade\<close> when its gate is on, a size within \<open>--max-spend-sol\<close>, and the risk check to pass for that size and slippage.
\<close>

definition entry_allowed :: "loop_cfg \<Rightarrow> loop_env \<Rightarrow> series \<Rightarrow> risk_manager \<Rightarrow> entry_signal \<Rightarrow> bool" where
  "entry_allowed c e ser rm sig \<longleftrightarrow>
     (if ru_signal_gate (lc_run c)
      then (case signal_evaluate_at (ed_functions (le_node e)) ser (signal_cfg_of (lc_run c)) (ed_gate_ms (le_node e)) of
              Trade _ \<Rightarrow> True | NoTrade _ _ \<Rightarrow> False)
      else True)
     \<and> position_size_lamports sig \<le> sol_to_lamports (ru_max_spend_sol (lc_run c))
     \<and> fst (pre_trade_check (lc_risk c) (ed_risk_env (le_node e)) (position_size_lamports sig) (slippage_bps sig) rm) = Inr ()"

text \<open>The risk manager after the two readings of the breaker, and the verdict of the first check of the iteration.\<close>

definition polled_risk :: "loop_cfg \<Rightarrow> loop_env \<Rightarrow> risk_manager \<Rightarrow> risk_manager" where
  "polled_risk c e rm =
     snd (is_circuit_breaker_active (lc_risk c) (snd (le_gauges e)) (snd (is_circuit_breaker_active (lc_risk c) (fst (le_gauges e)) rm)))"

definition first_check :: "loop_cfg \<Rightarrow> loop_env \<Rightarrow> risk_manager \<Rightarrow> (reject_reason + unit) \<times> risk_manager" where
  "first_check c e rm = pre_trade_check (lc_risk c) (le_check e) (sol_to_lamports (f64_round (1 / 100))) 50 (polled_risk c e rm)"

text \<open>An iteration that leaves the loop, manages a live exit, is refused by its first check, runs another mode or finds no data is no paper iteration.\<close>

definition paper_input :: "loop_cfg \<Rightarrow> loop_env \<Rightarrow> loop_state \<Rightarrow> ((entry_signal \<Rightarrow> bool) \<times> paper_snapshot) option" where
  "paper_input c e s =
     (let t = ls_trader s; a = ru_args (lc_run c); rm = snd (first_check c e (lw_risk (tr_world t)))
      in if leaves_loop c e s \<or> \<not> ar_paper a \<or> (ar_dry_run a \<and> ar_amm a = PumpswapAmm) \<or> (ar_live a \<and> tr_position t \<noteq> None)
            \<or> fst (first_check c e (lw_risk (tr_world t))) \<noteq> Inr () then None
         else case fst (resolve_paper_market_data (lc_run c) (lc_risk c) (ed_node (le_node e)) (lc_blocklist c) (tr_caches t)) of
                Inl _ \<Rightarrow> None
              | Inr snap \<Rightarrow>
                  let now = ed_push_ms (le_node e);
                      ser = snd (series_push \<lparr> ob_ts_ms = now, ob_price = held_token_price (pm_sqrt_price snap) (pm_input_is_token0 snap),
                                               ob_liquidity = pm_liquidity snap \<rparr> (tr_series t))
                  in Some (entry_allowed c e ser rm, snapshot_of snap now))"

text \<open>The inputs of a run, each read in the state its iteration starts from.\<close>

fun paper_inputs :: "loop_cfg \<Rightarrow> nat \<Rightarrow> loop_env list \<Rightarrow> loop_state \<Rightarrow> ((entry_signal \<Rightarrow> bool) \<times> paper_snapshot) list" where
  "paper_inputs c i [] s = []"
| "paper_inputs c i (e # es) s =
     (if unat (max_iterations (ru_iterations (lc_run c))) \<le> i then []
      else (case paper_input c e s of None \<Rightarrow> [] | Some x \<Rightarrow> [x])
        @ (case iteration c i e s of (Next, s') \<Rightarrow> paper_inputs c (i + 1) es s' | _ \<Rightarrow> []))"

lemma paper_gate_allows: "fst (paper_gate c e ser sig rm) = Inr () \<longleftrightarrow> entry_allowed c e ser rm sig"
  by (auto simp: paper_gate_def entry_allowed_def signal_gate_rejects_def split: prod.splits sum.splits option.splits signal_decision.splits if_splits)

lemma paper_enter_sim:
  "ls_sim (snd (paper_enter c e price sig s)) =
     (if entry_allowed c e (tr_series (ls_trader s)) (risk_of s) sig then confirm_entry price sig (ls_sim s) else ls_sim s)"
  unfolding paper_gate_allows [symmetric]
  by (auto simp: paper_enter_def paper_reject_def Let_def split: prod.split sum.split)

lemma paper_trade_sim:
  "ls_sim (snd (paper_trade c e snap s)) =
     paper_iteration
       (entry_allowed c e (snd (series_push \<lparr> ob_ts_ms = ed_push_ms (le_node e),
            ob_price = held_token_price (pm_sqrt_price snap) (pm_input_is_token0 snap), ob_liquidity = pm_liquidity snap \<rparr> (tr_series (ls_trader s))))
          (risk_of s))
       (snapshot_of snap (ed_push_ms (le_node e))) (ls_sim s)"
proof -
  obtain tk sim where tk: "tick (snapshot_candidate snap) (pm_sqrt_price snap) (paper_clocked snap (ed_push_ms (le_node e)) (ls_sim s)) = (tk, sim)"
    by fastforce
  then show ?thesis
    by (cases tk) (auto simp: paper_trade_def paper_iteration_def snapshot_of_def paper_clocked_def paper_enter_sim Let_def)
qed

lemma paper_step_data:
  "case fst (resolve_paper_market_data (lc_run c) (lc_risk c) (ed_node (le_node e)) (lc_blocklist c) (tr_caches (ls_trader s))) of
     Inl _ \<Rightarrow> ls_sim (snd (paper_step c e s)) = ls_sim s
   | Inr snap \<Rightarrow> (\<exists>s1. ls_sim (snd (paper_step c e s)) = ls_sim (snd (paper_trade c e snap s1)) \<and> ls_sim s1 = ls_sim s
       \<and> tr_series (ls_trader s1) = tr_series (ls_trader s) \<and> risk_of s1 = risk_of s)"
proof -
  obtain r caches where d: "resolve_paper_market_data (lc_run c) (lc_risk c) (ed_node (le_node e)) (lc_blocklist c) (tr_caches (ls_trader s)) = (r, caches)"
    by fastforce
  show ?thesis
  proof (cases r)
    case (Inl x)
    then show ?thesis by (cases x) (simp_all add: paper_step_def d Let_def paper_reject_def)
  next
    case (Inr snap)
    then show ?thesis
      by (auto simp: paper_step_def d Let_def
          intro!: exI [of _ "on_trader (\<lambda>t. t\<lparr>tr_caches := caches\<rparr>) (s\<lparr>ls_paper_iterations := ls_paper_iterations s + 1\<rparr>)"])
  qed
qed

lemma publish_polls: "ls_trader (publish c e s) = on_risk (\<lambda>_. polled_risk c e (risk_of s)) (ls_trader s)"
  by (simp add: publish_def polled_risk_def Let_def split: prod.split)

definition with_input :: "((entry_signal \<Rightarrow> bool) \<times> paper_snapshot) option \<Rightarrow> paper_sim \<Rightarrow> paper_sim" where
  "with_input x sim = (case x of None \<Rightarrow> sim | Some (g, sn) \<Rightarrow> paper_iteration g sn sim)"

lemma on_risk_caches [simp]: "tr_caches (on_risk f t) = tr_caches t" "tr_series (on_risk f t) = tr_series t"
  by (simp_all add: on_risk_def)

lemma mode_step_sim:
  fixes c :: loop_cfg
  defines "a \<equiv> ru_args (lc_run c)"
  shows "ls_sim (snd (mode_step c i e s)) =
    (if \<not> ar_paper a \<or> (ar_dry_run a \<and> ar_amm a = PumpswapAmm) then ls_sim s else ls_sim (snd (paper_step c e s)))"
proof -
  have "ls_sim (snd (pump_step c e s)) = ls_sim s"
    by (auto simp: pump_step_def Let_def split: prod.split sum.split pump_dry_result.split)
  moreover have "ls_sim (snd (entry_iteration c i e s)) = ls_sim s" using entry_iteration_trader [of c i e s] by blast
  ultimately show ?thesis by (simp add: mode_step_def Let_def a_def)
qed

lemma iteration_sim: "ls_sim (snd (iteration c i e s)) = with_input (paper_input c e s) (ls_sim s)"
proof -
  have pub: "ls_sim (publish c e s) = ls_sim s" "risk_of (publish c e s) = polled_risk c e (risk_of s)"
    using publish_keeps [of c e s] by (simp_all add: publish_polls)
  have l: "leaves_loop c e (s\<lparr>ls_status := x\<rparr>) = leaves_loop c e s" for x by (simp add: leaves_loop_def)
  obtain r rm where fc: "first_check c e (risk_of s) = (r, rm)" by fastforce
  define s1 where "s1 = on_trader (on_risk (\<lambda>_. rm)) (publish c e s)"
  have s1: "ls_sim s1 = ls_sim s" "risk_of s1 = rm" "tr_series (ls_trader s1) = tr_series (ls_trader s)"
      "tr_caches (ls_trader s1) = tr_caches (ls_trader s)"
    by (simp_all add: s1_def pub publish_polls)
  show ?thesis
  proof (cases "leaves_loop c e s")
    case True
    then show ?thesis by (simp add: iteration_def l paper_input_def Let_def with_input_def)
  next
    case stays: False
    show ?thesis
    proof (cases "ar_live (ru_args (lc_run c)) \<and> tr_position (ls_trader s) \<noteq> None")
      case True
      then show ?thesis
        using stays pub exit_step_keeps [of c e "publish c e s"]
        by (simp add: iteration_def l publish_polls paper_input_def Let_def with_input_def)
    next
      case idle: False
      have it: "iteration c i e s = (case r of Inl reason \<Rightarrow> check_fails c reason s1 | Inr _ \<Rightarrow> mode_step c i e s1)"
        unfolding s1_def using stays idle fc pub(2)
        by (cases r; cases "ar_live (ru_args (lc_run c))") (simp_all add: iteration_def l publish_polls first_check_def Let_def)
      show ?thesis
      proof (cases r)
        case (Inl x)
        then show ?thesis using it fc s1 by (simp add: paper_input_def Let_def with_input_def)
      next
        case (Inr u)
        then have ok: "r = Inr ()" by simp
        show ?thesis
          using it fc s1 stays idle paper_step_data [of c e s1] mode_step_sim [of c i e s1]
          by (auto simp: ok paper_input_def Let_def with_input_def paper_trade_sim split: sum.splits)
      qed
    qed
  qed
qed

lemma loop_simulates:
  "ls_sim (snd (run_loop c i es s)) = fold (\<lambda>(g, sn). paper_iteration g sn) (paper_inputs c i es s) (ls_sim s)"
proof (induction es arbitrary: i s)
  case (Cons e es)
  obtain fl s1 where s1: "iteration c i e s = (fl, s1)" by fastforce
  then have "ls_sim s1 = with_input (paper_input c e s) (ls_sim s)" using iteration_sim [of c i e s] by simp
  then show ?case
    using Cons.IH [of "i + 1" s1] by (cases fl) (auto simp: s1 with_input_def split: option.splits)
qed simp

lemma inputs_length: "length (paper_inputs c i es s) \<le> length es"
proof (induction es arbitrary: i s)
  case (Cons e es)
  have "length (paper_inputs c (i + 1) es s') \<le> length es" for s' using Cons.IH .
  from this [of "snd (iteration c i e s)"] show ?case
    by (cases "iteration c i e s"; cases "fst (iteration c i e s)"; cases "paper_input c e s") simp_all
qed simp

lemma folded_ledger:
  "ledger_ok m sim \<Longrightarrow> m + length xs < 2 ^ 64 \<Longrightarrow> ledger_ok (m + length xs) (fold (\<lambda>(g, sn). paper_iteration g sn) xs sim)"
proof (induction xs arbitrary: m sim)
  case (Cons x xs)
  obtain g sn where "x = (g, sn)" by fastforce
  then show ?case using Cons.IH [of "m + 1" "paper_iteration g sn sim"] iteration_ledger [of m sim g sn] Cons.prems by simp
qed simp

text \<open>
  C5. The main loop implements the paper simulator: over any run its simulator is the abstract one folded over the inputs of the run, one for each
  iteration that reaches the paper step with its data and none for the others; an entry is allowed exactly when the signal gate, the
  spend cap and the risk check - on the series with this sample and the risk manager as the first check left it - all pass.  From a
  fresh simulator the ledger balances.
\<close>

theorem loop_refines_simulator:
  "ls_sim (snd (run_loop c i es s)) = fold (\<lambda>(g, sn). paper_iteration g sn) (paper_inputs c i es s) (ls_sim s)
   \<and> length (paper_inputs c i es s) \<le> length es
   \<and> (if ls_sim s = with_config cfg \<and> length es < 2 ^ 64
      then ledger_ok (length (paper_inputs c i es s)) (ls_sim (snd (run_loop c i es s))) else True)"
proof -
  have "ledger_ok 0 (with_config cfg)" by (simp add: ledger_ok_def with_config_def closes_def)
  then show ?thesis
    using loop_simulates [of c i es s] inputs_length [of c i es s] folded_ledger [of 0 "with_config cfg" "paper_inputs c i es s"] by auto
qed

section \<open>Flaws\<close>

text \<open>The reason in the record of a rejected paper entry is the most frequent one so far, not this one.\<close>

lemma wrong_reason_reported:
  "reported_reason [''stale_price'', ''stale_price'', ''max_spend_exceeded''] [''stale_price'', ''max_spend_exceeded''] = ''stale_price''"
  by (simp add: reported_reason_def)

text \<open>A failed exit whose record cannot be written ends the process with the position open.\<close>

lemma log_failure_ends_run:
  assumes "exit_answer c e (ls_trader s) = Some (ExitFailed err)" "\<not> ed_log (le_node e) LogExit"
  shows "fst (exit_step c e s) = Died"
  using assms by (simp add: exit_step_def Let_def written_def)

text \<open>A ready live process is armed, with its breaker closed, its kill switch off and its exits going through.\<close>

lemma ready_means_open:
  "ready_live (readiness_of c e active t) \<Longrightarrow> ar_live (ru_args (lc_run c)) \<and> \<not> active \<and> \<not> rm_kill_switch (lw_risk (tr_world t))
     \<and> rm_live_armed (lw_risk (tr_world t)) \<and> is_state_verified (lw_risk (tr_world t)) \<and> \<not> exit_blocked (tr_position t \<noteq> None) (tr_exit_failures t)"
  by (auto simp: ready_live_def readiness_of_def Let_def split: if_splits)

end
