(* ===== verification/Geyser.thy ===== *)
theory Geyser
  imports Dedup
begin

text \<open>
  \<open>crates/hft-marketdata/src/geyser.rs\<close>: the live source.  A worker turns the updates of a stream into events and offers them to a bounded
  channel, throwing the oldest away when it is full, while the pipeline polls.  The two sides interleave: every attempt of the worker and
  every poll is one step of \<open>channel_step\<close>.  The gRPC client is left out; its updates and the end of a session are arguments.
\<close>

section \<open>Configuration\<close>

record geyser_config =
  gc_endpoint :: string
  gc_x_token :: "string option"
  gc_account_filters :: "string list"
  gc_subscribe_slots :: bool
  gc_subscribe_transactions :: bool
  gc_backoff_initial_ms :: u64
  gc_backoff_max_ms :: u64
  gc_channel_capacity :: u64

definition default_geyser_config :: geyser_config where
  "default_geyser_config =
     \<lparr> gc_endpoint = [], gc_x_token = None, gc_account_filters = [], gc_subscribe_slots = True, gc_subscribe_transactions = False,
       gc_backoff_initial_ms = 250, gc_backoff_max_ms = 10000, gc_channel_capacity = 65536 \<rparr>"

definition geyser_config_new :: "string \<Rightarrow> geyser_config" where
  "geyser_config_new endpoint = default_geyser_config\<lparr>gc_endpoint := endpoint\<rparr>"

definition with_x_token :: "string \<Rightarrow> geyser_config \<Rightarrow> geyser_config" where
  "with_x_token token c = c\<lparr>gc_x_token := Some token\<rparr>"

definition with_account_filters :: "string list \<Rightarrow> geyser_config \<Rightarrow> geyser_config" where
  "with_account_filters accounts c = c\<lparr>gc_account_filters := accounts\<rparr>"

datatype geyser_error = GeyserConnect string | GeyserSubscribe string | GeyserStream string | EmptyEndpoint | ZeroCapacity | FeatureDisabled

definition geyser_validate :: "geyser_config \<Rightarrow> geyser_error + unit" where
  "geyser_validate c =
     (if trim (gc_endpoint c) = [] then Inl EmptyEndpoint
      else if gc_channel_capacity c = 0 then Inl ZeroCapacity else Inr ())"

text \<open>The filters a session subscribes with: by name, the accounts and the owners' accounts of transactions.\<close>

record subscribe_request =
  sr_accounts :: "(string \<times> string list) list"
  sr_slots :: "string list"
  sr_transactions :: "(string \<times> string list) list"

definition subscription :: "geyser_config \<Rightarrow> subscribe_request" where
  "subscription c =
     \<lparr> sr_accounts = (if gc_account_filters c = [] then [] else [(''hft-accounts'', gc_account_filters c)]),
       sr_slots = (if gc_subscribe_slots c then [''hft-slots''] else []),
       sr_transactions = (if gc_subscribe_transactions c then [(''hft-tx'', gc_account_filters c)] else []) \<rparr>"

section \<open>Updates\<close>

datatype geyser_update =
    SlotMsg u64
  | AccountMsg u64 "bytes option"     \<comment> \<open>the slot and the key of the account\<close>
  | TransactionMsg u64
  | OtherMsg

definition pubkey_to_market_id :: "bytes \<Rightarrow> u64" where
  "pubkey_to_market_id key = from_le_bytes (take 8 key @ replicate (8 - length key) 0)"

definition slot_event :: "u64 \<Rightarrow> u64 \<Rightarrow> u64 \<Rightarrow> u64 \<Rightarrow> market_event" where
  "slot_event m slot seq now =
     \<lparr> market_id = m, ev_slot = slot, ev_seq = seq, publish_ts_ns = now, ingest_ts_ns = now, ev_kind = SlotProgress slot \<rparr>"

fun map_update :: "geyser_update \<Rightarrow> u64 \<Rightarrow> u64 \<Rightarrow> market_event option \<times> u64" where
  "map_update (SlotMsg slot) seq now = (Some (slot_event 0 slot (seq + 1) now), seq + 1)"
| "map_update (AccountMsg slot key) seq now =
     (Some (slot_event (case key of Some k \<Rightarrow> pubkey_to_market_id k | None \<Rightarrow> 0) slot (seq + 1) now), seq + 1)"
| "map_update (TransactionMsg slot) seq now = (Some (slot_event 0 slot (seq + 1) now), seq + 1)"
| "map_update OtherMsg seq now = (None, seq)"

text \<open>The events of one session; the sequence starts at zero.\<close>

fun session_from :: "u64 \<Rightarrow> (geyser_update \<times> u64) list \<Rightarrow> market_event list" where
  "session_from seq [] = []"
| "session_from seq ((u, now) # us) =
     (case map_update u seq now of
        (Some e, seq') \<Rightarrow> e # session_from seq' us
      | (None, seq') \<Rightarrow> session_from seq' us)"

definition session_events :: "(geyser_update \<times> u64) list \<Rightarrow> market_event list" where
  "session_events us = session_from 0 us"

section \<open>The waits between sessions\<close>

definition next_backoff :: "u64 \<Rightarrow> u64 \<Rightarrow> u64" where
  "next_backoff max_ms ms = min (sat_mul ms 2) max_ms"

definition backoff_delay :: "geyser_config \<Rightarrow> nat \<Rightarrow> u64" where
  "backoff_delay c n = (next_backoff (gc_backoff_max_ms c) ^^ n) (gc_backoff_initial_ms c)"

section \<open>The channel\<close>

type_synonym item = "geyser_error + market_event"

record geyser_stats =
  gs_connections :: u64
  gs_events_received :: u64
  gs_reconnects :: u64
  gs_events_dropped :: u64

text \<open>The worker is between sends, about to offer an item, or about to throw one away; a source whose worker has gone has lost its sender.\<close>

datatype worker = Waiting | Offering item | Full item | Gone

record geyser =
  gy_queue :: "item list"       \<comment> \<open>oldest first\<close>
  gy_capacity :: nat
  gy_stats :: geyser_stats
  gy_worker :: worker
  gy_shutdown :: bool
  gy_closed :: bool

definition no_stats :: geyser_stats where
  "no_stats = \<lparr> gs_connections = 0, gs_events_received = 0, gs_reconnects = 0, gs_events_dropped = 0 \<rparr>"

definition geyser_connect :: "geyser_config \<Rightarrow> geyser_error + geyser" where
  "geyser_connect c =
     and_then (geyser_validate c) (\<lambda>_.
       Inr \<lparr> gy_queue = [], gy_capacity = unat (gc_channel_capacity c), gy_stats = no_stats, gy_worker = Waiting,
             gy_shutdown = False, gy_closed = False \<rparr>)"

definition received :: "geyser \<Rightarrow> geyser" where
  "received g = g\<lparr>gy_stats := (gy_stats g)\<lparr>gs_events_received := gs_events_received (gy_stats g) + 1\<rparr>\<rparr>"

definition dropped :: "geyser \<Rightarrow> geyser" where
  "dropped g = g\<lparr>gy_stats := (gy_stats g)\<lparr>gs_events_dropped := gs_events_dropped (gy_stats g) + 1\<rparr>\<rparr>"

text \<open>One step of \<open>send_with_backpressure\<close>: an attempt to send, or the removal of the oldest item after a refused one.\<close>

definition worker_step :: "geyser \<Rightarrow> geyser" where
  "worker_step g =
     (case gy_worker g of
        Offering x \<Rightarrow>
          if length (gy_queue g) < gy_capacity g then (received g)\<lparr>gy_queue := gy_queue g @ [x], gy_worker := Waiting\<rparr>
          else g\<lparr>gy_worker := Full x\<rparr>
      | Full x \<Rightarrow>
          (case gy_queue g of
             [] \<Rightarrow> g\<lparr>gy_worker := Offering x\<rparr>
           | _ # q \<Rightarrow> (dropped g)\<lparr>gy_queue := q, gy_worker := Offering x\<rparr>)
      | _ \<Rightarrow> g)"

definition start_send :: "item \<Rightarrow> geyser \<Rightarrow> geyser" where
  "start_send x g = (if gy_worker g = Waiting then g\<lparr>gy_worker := Offering x\<rparr> else g)"

text \<open>The consumer's side; an error closes the source for good.\<close>

definition geyser_poll :: "geyser \<Rightarrow> source_poll \<times> geyser" where
  "geyser_poll g =
     (if gy_closed g then (Closed, g)
      else case gy_queue g of
             Inr e # q \<Rightarrow> (Polled e, g\<lparr>gy_queue := q\<rparr>)
           | Inl _ # q \<Rightarrow> (Closed, g\<lparr>gy_queue := q, gy_closed := True\<rparr>)
           | [] \<Rightarrow> if gy_worker g = Gone then (Closed, g\<lparr>gy_closed := True\<rparr>) else (Idle, g))"

text \<open>A worker built without live support sends its one error and ends.\<close>

definition disabled_worker :: "geyser \<Rightarrow> geyser" where
  "disabled_worker g = g\<lparr>gy_queue := gy_queue g @ [Inl FeatureDisabled], gy_worker := Gone\<rparr>"

text \<open>Between sessions the worker ends when the source was shut down, and else counts a reconnection.\<close>

definition session_end :: "geyser \<Rightarrow> geyser" where
  "session_end g =
     (if gy_worker g \<noteq> Waiting then g
      else if gy_shutdown g then g\<lparr>gy_worker := Gone\<rparr>
      else g\<lparr>gy_stats := (gy_stats g)\<lparr>gs_reconnects := gs_reconnects (gy_stats g) + 1\<rparr>\<rparr>)"

definition session_start :: "geyser \<Rightarrow> geyser" where
  "session_start g =
     (if gy_worker g = Waiting then g\<lparr>gy_stats := (gy_stats g)\<lparr>gs_connections := gs_connections (gy_stats g) + 1\<rparr>\<rparr> else g)"

definition geyser_close :: "geyser \<Rightarrow> geyser" where
  "geyser_close g = g\<lparr>gy_shutdown := True\<rparr>"

section \<open>Interleavings\<close>

text \<open>What happened to the channel: the items it accepted, and those that left it, delivered or thrown away, in order.\<close>

record channel_log =
  ch_source :: geyser
  ch_accepted :: "item list"
  ch_removed :: "(bool \<times> item) list"

datatype side = Send item | Work | Poll | SessionStart | SessionEnd | CloseSource

definition accepts :: "geyser \<Rightarrow> item list" where
  "accepts g = (case gy_worker g of Offering x \<Rightarrow> if length (gy_queue g) < gy_capacity g then [x] else [] | _ \<Rightarrow> [])"

definition throws :: "geyser \<Rightarrow> item list" where
  "throws g = (case gy_worker g of Full _ \<Rightarrow> take 1 (gy_queue g) | _ \<Rightarrow> [])"

fun channel_step :: "side \<Rightarrow> channel_log \<Rightarrow> channel_log" where
  "channel_step (Send x) ch = ch\<lparr>ch_source := start_send x (ch_source ch)\<rparr>"
| "channel_step Work ch =
     \<lparr> ch_source = worker_step (ch_source ch), ch_accepted = ch_accepted ch @ accepts (ch_source ch),
       ch_removed = ch_removed ch @ map (Pair False) (throws (ch_source ch)) \<rparr>"
| "channel_step Poll ch =
     ch\<lparr>ch_source := snd (geyser_poll (ch_source ch)),
        ch_removed := ch_removed ch @ (if gy_closed (ch_source ch) then [] else map (Pair True) (take 1 (gy_queue (ch_source ch))))\<rparr>"
| "channel_step SessionStart ch = ch\<lparr>ch_source := session_start (ch_source ch)\<rparr>"
| "channel_step SessionEnd ch = ch\<lparr>ch_source := session_end (ch_source ch)\<rparr>"
| "channel_step CloseSource ch = ch\<lparr>ch_source := geyser_close (ch_source ch)\<rparr>"

definition channel_start :: "geyser \<Rightarrow> channel_log" where
  "channel_start g = \<lparr> ch_source = g, ch_accepted = [], ch_removed = [] \<rparr>"

definition thrown :: "channel_log \<Rightarrow> item list" where
  "thrown ch = map snd (filter (\<lambda>(delivered, _). \<not> delivered) (ch_removed ch))"

definition channel_ok :: "channel_log \<Rightarrow> bool" where
  "channel_ok ch \<longleftrightarrow>
     ch_accepted ch = map snd (ch_removed ch) @ gy_queue (ch_source ch)
     \<and> 0 < gy_capacity (ch_source ch) \<and> length (gy_queue (ch_source ch)) \<le> gy_capacity (ch_source ch)
     \<and> gs_events_received (gy_stats (ch_source ch)) = of_nat (length (ch_accepted ch))
     \<and> gs_events_dropped (gy_stats (ch_source ch)) = of_nat (length (thrown ch))"

lemmas channel_defs = start_send_def worker_step_def accepts_def throws_def received_def dropped_def geyser_poll_def session_start_def
  session_end_def geyser_close_def

lemma channel_step_ok: "channel_ok ch \<Longrightarrow> channel_ok (channel_step sd ch)"
  by (cases sd; cases "gy_queue (ch_source ch)")
     (auto simp: channel_ok_def thrown_def channel_defs split: worker.split if_splits sum.split)

lemma channel_steps_ok: "channel_ok ch \<Longrightarrow> channel_ok (fold channel_step sds ch)"
  by (induction sds arbitrary: ch) (simp_all add: channel_step_ok)

lemma connected_ok: "geyser_connect c = Inr g \<Longrightarrow> channel_ok (channel_start g)"
  by (auto simp: geyser_connect_def geyser_validate_def channel_ok_def channel_start_def thrown_def no_stats_def unat_gt_0 ok_iff split: if_splits)

text \<open>
  C38. The channel of the live source keeps its order under every interleaving: what left it and what it holds are, in order, exactly
  what it accepted, so the pipeline sees the accepted events in order with the thrown-away ones missing; it never holds more than its
  capacity, and the counters of accepted and thrown-away events are right.
\<close>

theorem channel_keeps_order:
  "case geyser_connect c of
     Inl _ \<Rightarrow> trim (gc_endpoint c) = [] \<or> gc_channel_capacity c = 0
   | Inr g \<Rightarrow>
       let ch = fold channel_step sds (channel_start g)
       in ch_accepted ch = map snd (ch_removed ch) @ gy_queue (ch_source ch)
          \<and> length (gy_queue (ch_source ch)) \<le> unat (gc_channel_capacity c)
          \<and> gs_events_received (gy_stats (ch_source ch)) = of_nat (length (ch_accepted ch))
          \<and> gs_events_dropped (gy_stats (ch_source ch)) = of_nat (length (thrown ch))"
proof (cases "geyser_connect c")
  case (Inl e)
  then show ?thesis by (auto simp: geyser_connect_def geyser_validate_def split: if_splits)
next
  case (Inr g)
  have cap: "gy_capacity (ch_source (fold channel_step sds ch)) = gy_capacity (ch_source ch)" for ch
  proof (induction sds arbitrary: ch)
    case (Cons sd sds)
    have "gy_capacity (ch_source (channel_step sd ch)) = gy_capacity (ch_source ch)"
      by (cases sd) (auto simp: channel_defs split: worker.split list.split sum.split)
    then show ?case using Cons by simp
  qed simp
  have "gy_capacity g = unat (gc_channel_capacity c)" using Inr by (auto simp: geyser_connect_def ok_iff)
  then show ?thesis
    using Inr channel_steps_ok [OF connected_ok [OF Inr], of sds] cap [of "channel_start g"]
    by (simp add: channel_ok_def Let_def channel_start_def)
qed

text \<open>
  A send ends and the newest event is accepted: from any state between two sends, three attempts of the worker are enough however
  many polls fall between them, and nothing but this event is added.
\<close>

definition polls :: "nat \<Rightarrow> channel_log \<Rightarrow> channel_log" where
  "polls n ch = fold channel_step (replicate n Poll) ch"

lemma poll_steady:
  "gy_worker (ch_source (polls n ch)) = gy_worker (ch_source ch) \<and> ch_accepted (polls n ch) = ch_accepted ch
   \<and> gy_capacity (ch_source (polls n ch)) = gy_capacity (ch_source ch)
   \<and> length (gy_queue (ch_source (polls n ch))) \<le> length (gy_queue (ch_source ch))"
proof (induction n arbitrary: ch)
  case (Suc n)
  have "gy_worker (ch_source (channel_step Poll ch)) = gy_worker (ch_source ch) \<and> ch_accepted (channel_step Poll ch) = ch_accepted ch
      \<and> gy_capacity (ch_source (channel_step Poll ch)) = gy_capacity (ch_source ch)
      \<and> length (gy_queue (ch_source (channel_step Poll ch))) \<le> length (gy_queue (ch_source ch))"
    by (auto simp: geyser_poll_def split: list.split sum.split)
  then show ?case using Suc.IH [of "channel_step Poll ch"] unfolding polls_def by (simp del: channel_step.simps)
qed (simp add: polls_def)

definition try_send :: "nat \<Rightarrow> channel_log \<Rightarrow> channel_log" where
  "try_send n ch = channel_step Work (polls n ch)"

lemma try_idle:
  "gy_worker (ch_source ch) = Waiting \<Longrightarrow> gy_worker (ch_source (try_send n ch)) = Waiting \<and> ch_accepted (try_send n ch) = ch_accepted ch"
  using poll_steady [of n ch] by (simp add: try_send_def worker_step_def accepts_def)

lemma try_offering:
  assumes "gy_worker (ch_source ch) = Offering x"
  shows "gy_worker (ch_source (try_send n ch)) = Waiting \<and> ch_accepted (try_send n ch) = ch_accepted ch @ [x]
    \<or> gy_worker (ch_source (try_send n ch)) = Full x \<and> ch_accepted (try_send n ch) = ch_accepted ch
      \<and> gy_capacity (ch_source (try_send n ch)) = gy_capacity (ch_source ch)
      \<and> length (gy_queue (ch_source (try_send n ch))) \<le> length (gy_queue (ch_source ch))"
  using assms poll_steady [of n ch] by (auto simp: try_send_def worker_step_def accepts_def received_def)

lemma try_full:
  assumes "gy_worker (ch_source ch) = Full x" "0 < gy_capacity (ch_source ch)" "length (gy_queue (ch_source ch)) \<le> gy_capacity (ch_source ch)"
  shows "gy_worker (ch_source (try_send n ch)) = Offering x \<and> ch_accepted (try_send n ch) = ch_accepted ch
    \<and> gy_capacity (ch_source (try_send n ch)) = gy_capacity (ch_source ch)
    \<and> length (gy_queue (ch_source (try_send n ch))) < gy_capacity (ch_source (try_send n ch))"
  using assms poll_steady [of n ch]
  by (cases "gy_queue (ch_source (polls n ch))") (auto simp: try_send_def worker_step_def accepts_def dropped_def)

lemma try_room:
  assumes "gy_worker (ch_source ch) = Offering x" "length (gy_queue (ch_source ch)) < gy_capacity (ch_source ch)"
  shows "gy_worker (ch_source (try_send n ch)) = Waiting \<and> ch_accepted (try_send n ch) = ch_accepted ch @ [x]"
  using assms poll_steady [of n ch] by (auto simp: try_send_def worker_step_def accepts_def received_def)

theorem send_ends:
  "case geyser_connect c of
     Inl _ \<Rightarrow> True
   | Inr g \<Rightarrow>
       let ch = fold channel_step sds (channel_start g); ch' = try_send k (try_send m (try_send n (channel_step (Send x) ch)))
       in if gy_worker (ch_source ch) = Waiting
          then gy_worker (ch_source ch') = Waiting \<and> ch_accepted ch' = ch_accepted ch @ [x] else True"
proof (cases "geyser_connect c")
  case (Inr g)
  define ch where "ch = fold channel_step sds (channel_start g)"
  let ?s = "channel_step (Send x) ch"
  have ok: "0 < gy_capacity (ch_source ch)" "length (gy_queue (ch_source ch)) \<le> gy_capacity (ch_source ch)"
    using channel_steps_ok [OF connected_ok [OF Inr], of sds] by (simp_all add: ch_def channel_ok_def)
  show ?thesis
  proof (cases "gy_worker (ch_source ch) = Waiting")
    case True
    then have s: "gy_worker (ch_source ?s) = Offering x" "gy_capacity (ch_source ?s) = gy_capacity (ch_source ch)"
      "gy_queue (ch_source ?s) = gy_queue (ch_source ch)" "ch_accepted ?s = ch_accepted ch"
      by (simp_all add: start_send_def)
    from try_offering [OF s(1), of n]
    have "gy_worker (ch_source (try_send k (try_send m (try_send n ?s)))) = Waiting
        \<and> ch_accepted (try_send k (try_send m (try_send n ?s))) = ch_accepted ch @ [x]"
    proof
      assume "gy_worker (ch_source (try_send n ?s)) = Waiting \<and> ch_accepted (try_send n ?s) = ch_accepted ?s @ [x]"
      then show ?thesis using try_idle s(4) by metis
    next
      assume full: "gy_worker (ch_source (try_send n ?s)) = Full x \<and> ch_accepted (try_send n ?s) = ch_accepted ?s
        \<and> gy_capacity (ch_source (try_send n ?s)) = gy_capacity (ch_source ?s)
        \<and> length (gy_queue (ch_source (try_send n ?s))) \<le> length (gy_queue (ch_source ?s))"
      then have "gy_worker (ch_source (try_send m (try_send n ?s))) = Offering x
          \<and> ch_accepted (try_send m (try_send n ?s)) = ch_accepted ch
          \<and> length (gy_queue (ch_source (try_send m (try_send n ?s)))) < gy_capacity (ch_source (try_send m (try_send n ?s)))"
        using try_full [of "try_send n ?s" x m] ok s by (metis le_trans)
      then show ?thesis using try_room by metis
    qed
    then show ?thesis using Inr by (simp add: ch_def Let_def)
  qed (use Inr in \<open>simp add: ch_def Let_def\<close>)
qed simp

section \<open>Waits and sequences\<close>

text \<open>
  The waits between sessions double up to the limit: the first is the configured one, even above the limit, and the n-th after it is
  2 to the n times the first, cut at the limit, with no overflow.
\<close>

theorem backoff_doubles:
  "unat (backoff_delay c n) =
     (if n = 0 then unat (gc_backoff_initial_ms c) else min (unat (gc_backoff_initial_ms c) * 2 ^ n) (unat (gc_backoff_max_ms c)))"
proof (induction n)
  case (Suc n)
  have m: "unat (gc_backoff_max_ms c) \<le> 18446744073709551615" 
    using word_order.extremum [of "gc_backoff_max_ms c"] by (simp add: word_le_nat_alt unat_max_word)
  have "unat (backoff_delay c (Suc n)) = min (unat (sat_mul (backoff_delay c n) 2)) (unat (gc_backoff_max_ms c))"
    by (simp add: backoff_delay_def next_backoff_def min_def word_le_nat_alt)
  also have "\<dots> = min (unat (backoff_delay c n) * 2) (unat (gc_backoff_max_ms c))"
    by (simp add: unat_sat_mul min.assoc min.absorb2 [OF m])
  finally show ?case using Suc by (auto simp: min_def)
qed (simp add: backoff_delay_def)

lemma session_sequences:
  assumes "unat seq + length us < 2 ^ 64"
  shows "\<exists>k. map ev_seq (session_from seq us) = map (\<lambda>i. seq + of_nat (Suc i)) [0..<k] \<and> k \<le> length us"
  using assms
proof (induction us arbitrary: seq)
  case (Cons p us)
  obtain u now where p: "p = (u, now)" by fastforce
  show ?case
  proof (cases "fst (map_update u seq now)")
    case None
    then have "session_from seq (p # us) = session_from seq us" by (cases u) (simp_all add: p)
    then show ?thesis using Cons.IH [of seq] Cons.prems by (auto intro: le_SucI)
  next
    case (Some e)
    then have e: "session_from seq (p # us) = e # session_from (seq + 1) us" "ev_seq e = seq + 1"
      by (cases u; auto simp: p slot_event_def)+
    have "unat (seq + 1) = unat seq + 1" using Cons.prems by (simp add: unat_add_small)
    then obtain k where k: "map ev_seq (session_from (seq + 1) us) = map (\<lambda>i. seq + 1 + of_nat (Suc i)) [0..<k]" "k \<le> length us"
      using Cons.IH [of "seq + 1"] Cons.prems by auto
    have "map (\<lambda>i. seq + of_nat (Suc i)) [0..<Suc k] = (seq + 1) # map (\<lambda>i. seq + 1 + of_nat (Suc i)) [0..<k]"
      by (simp add: upt_conv_Cons map_Suc_upt [symmetric] comp_def algebra_simps del: upt_Suc)
    then show ?thesis using e k by (intro exI [of _ "Suc k"]) simp
  qed
qed simp

text \<open>The sequence starts again with every session, so the deduplicator refuses events of the slot in which a session was lost.\<close>

lemma reconnect_loses_slot:
  "let d = fold (\<lambda>e d. snd (is_new e d)) (session_events [(SlotMsg 10, 1), (TransactionMsg 10, 2)]) dedup_new
   in map (\<lambda>e. fst (is_new e d)) (session_events [(TransactionMsg 10, 3)]) = [False]"
  by (simp add: session_events_def slot_event_def is_new_def dedup_new_def Let_def)

end
