(* ===== verification/Execution.thy ===== *)
theory Execution
  imports Prelude "HOL-Library.Sublist"
begin

text \<open>
  \<open>crates/hft-execution/src/\<close>: orders, the store of signed transactions by order, and the two backends that submit them, the bundle of the
  Block Engine (\<open>jito.rs\<close>) and the plain RPC call (\<open>rpc.rs\<close>).  The HTTP client and the base64 encoder are parameters; whether the crate was
  built with its feature \<open>live\<close> is one too.  Texts are ASCII.  The placeholders of the crate (\<open>jito_bundle.rs\<close>, \<open>raydium_v4.rs\<close>,
  \<open>amm_adapter.rs\<close>) print a line and return a made-up text; they are left out.
\<close>

section \<open>Orders and the transaction store\<close>

datatype order_side = BuyOrder | SellOrder

datatype execution_route = RouteJitoBundle | RouteRpc

record order =
  od_client_order_id :: u64
  od_market_id :: u64
  od_side :: order_side
  od_quantity :: u64
  od_limit_price :: u64
  od_created_at_ns :: u64
  od_route :: execution_route

definition order_new :: "u64 \<Rightarrow> u64 \<Rightarrow> order_side \<Rightarrow> u64 \<Rightarrow> u64 \<Rightarrow> execution_route \<Rightarrow> order" where
  "order_new client_order_id market_id side quantity limit_price route =
     \<lparr> od_client_order_id = client_order_id, od_market_id = market_id, od_side = side, od_quantity = quantity,
       od_limit_price = limit_price, od_created_at_ns = 0, od_route = route \<rparr>"

type_synonym tx_store = "u64 \<rightharpoonup> bytes"

definition store_new :: tx_store where "store_new = Map.empty"

definition store_register :: "u64 \<Rightarrow> bytes \<Rightarrow> tx_store \<Rightarrow> tx_store" where
  "store_register i data s = s(i \<mapsto> data)"

definition store_get :: "tx_store \<Rightarrow> u64 \<Rightarrow> bytes option" where
  "store_get s i = s i"

section \<open>Answers\<close>

datatype submit_detail = NoTransaction u64 | NotCompiled | Unparsed string | HttpStatus nat string | NetworkError | RequestError

datatype submit_result = SubmitOk string | SubmitRetryable submit_detail | SubmitPermanent submit_detail

record post_request =
  pq_url :: string
  pq_body :: string
  pq_authorization :: "string option"

text \<open>The body of an answer may fail to be read.\<close>

datatype post_answer = Answered nat "string option" | TimedOut | ConnectFailed | OtherFailure

record exec_env =
  ec_live :: bool
  ec_b64 :: "bytes \<Rightarrow> string"
  ec_post :: "post_request \<Rightarrow> post_answer"

definition is_success :: "nat \<Rightarrow> bool" where "is_success status \<longleftrightarrow> 200 \<le> status \<and> status < 300"
definition is_server_error :: "nat \<Rightarrow> bool" where "is_server_error status \<longleftrightarrow> 500 \<le> status \<and> status < 600"

text \<open>What follows the first occurrence of a pattern.\<close>

fun find_after :: "string \<Rightarrow> string \<Rightarrow> string option" where
  "find_after p [] = (if p = [] then Some [] else None)"
| "find_after p (c # cs) = (if prefix p (c # cs) then Some (drop (length p) (c # cs)) else find_after p cs)"

definition quote_char :: char where "quote_char = CHR 0x22"

definition quoted :: "string \<Rightarrow> string" where "quoted s = quote_char # s @ [quote_char]"

text \<open>The text of the field \<open>result\<close>, found by searching the body.\<close>

definition parse_rpc_result :: "string \<Rightarrow> string option" where
  "parse_rpc_result body =
     Option.bind (find_after (quoted ''result'') body) (\<lambda>rest.
     Option.bind (find_after '':'' rest) (\<lambda>value.
     case dropWhile is_ws value of
       [] \<Rightarrow> None
     | c # cs \<Rightarrow> if c = quote_char \<and> quote_char \<in> set cs then Some (takeWhile (\<lambda>x. x \<noteq> quote_char) cs) else None))"

definition rpc_call :: "string \<Rightarrow> string \<Rightarrow> string" where
  "rpc_call name params =
     ''{'' @ quoted ''jsonrpc'' @ '':'' @ quoted ''2.0'' @ '','' @ quoted ''id'' @ '':1,'' @ quoted ''method'' @ '':'' @ quoted name
     @ '','' @ quoted ''params'' @ '':'' @ params @ ''}''"

section \<open>The Block Engine\<close>

definition DEFAULT_JITO_ENDPOINT :: string where
  "DEFAULT_JITO_ENDPOINT = ''https://mainnet.block-engine.jito.labs''"

record jito_config =
  jg_endpoint :: string
  jg_auth_token :: "string option"
  jg_timeout_ms :: u64

definition jito_config_default :: jito_config where
  "jito_config_default = \<lparr> jg_endpoint = DEFAULT_JITO_ENDPOINT, jg_auth_token = None, jg_timeout_ms = 5000 \<rparr>"

definition jito_config_new :: "string \<Rightarrow> jito_config" where
  "jito_config_new endpoint = jito_config_default\<lparr>jg_endpoint := endpoint\<rparr>"

definition with_auth_token :: "string \<Rightarrow> jito_config \<Rightarrow> jito_config" where
  "with_auth_token token cfg = cfg\<lparr>jg_auth_token := Some token\<rparr>"

record jito_backend =
  jb_config :: jito_config
  jb_store :: tx_store

definition jito_backend_new :: "jito_config \<Rightarrow> jito_backend" where
  "jito_backend_new cfg = \<lparr> jb_config = cfg, jb_store = store_new \<rparr>"

definition jito_register_tx :: "u64 \<Rightarrow> bytes \<Rightarrow> jito_backend \<Rightarrow> jito_backend" where
  "jito_register_tx i tx b = b\<lparr>jb_store := store_register i tx (jb_store b)\<rparr>"

definition build_bundle_body :: "string \<Rightarrow> string" where
  "build_bundle_body tx_b64 = rpc_call ''sendBundle'' (''[['' @ quoted tx_b64 @ '']]'')"

definition trim_end_slashes :: "string \<Rightarrow> string" where
  "trim_end_slashes s = rev (dropWhile (\<lambda>c. c = CHR ''/'') (rev s))"

definition bundle_request :: "exec_env \<Rightarrow> jito_config \<Rightarrow> bytes \<Rightarrow> post_request" where
  "bundle_request env cfg raw =
     \<lparr> pq_url = trim_end_slashes (jg_endpoint cfg) @ ''/api/v1/bundles'', pq_body = build_bundle_body (ec_b64 env raw),
       pq_authorization = jg_auth_token cfg \<rparr>"

definition bundle_verdict :: "post_answer \<Rightarrow> submit_result" where
  "bundle_verdict answer =
     (case answer of
        Answered status body \<Rightarrow>
          let text_body = (case body of Some t \<Rightarrow> t | None \<Rightarrow> []) in
          if is_success status
          then (case parse_rpc_result text_body of
                  Some bundle_id \<Rightarrow> SubmitOk bundle_id
                | None \<Rightarrow> SubmitRetryable (Unparsed text_body))
          else if is_server_error status \<or> status = 429 then SubmitRetryable (HttpStatus status text_body)
          else SubmitPermanent (HttpStatus status text_body)
      | TimedOut \<Rightarrow> SubmitRetryable NetworkError
      | ConnectFailed \<Rightarrow> SubmitRetryable NetworkError
      | OtherFailure \<Rightarrow> SubmitPermanent RequestError)"

definition submit_bundle :: "exec_env \<Rightarrow> jito_config \<Rightarrow> bytes \<Rightarrow> submit_result \<times> post_request list" where
  "submit_bundle env cfg raw =
     (if \<not> ec_live env then (SubmitPermanent NotCompiled, [])
      else let req = bundle_request env cfg raw in (bundle_verdict (ec_post env req), [req]))"

definition jito_submit :: "exec_env \<Rightarrow> order \<Rightarrow> jito_backend \<Rightarrow> submit_result \<times> post_request list" where
  "jito_submit env ord b =
     (case store_get (jb_store b) (od_client_order_id ord) of
        None \<Rightarrow> (SubmitPermanent (NoTransaction (od_client_order_id ord)), [])
      | Some raw \<Rightarrow> submit_bundle env (jb_config b) raw)"

section \<open>The plain RPC call\<close>

record rpc_config =
  rg_endpoint :: string
  rg_api_key :: "string option"
  rg_timeout_ms :: u64
  rg_skip_preflight :: bool

definition rpc_config_default :: rpc_config where
  "rpc_config_default =
     \<lparr> rg_endpoint = ''https://api.mainnet-beta.solana.com'', rg_api_key = None, rg_timeout_ms = 5000, rg_skip_preflight = True \<rparr>"

definition rpc_config_new :: "string \<Rightarrow> rpc_config" where
  "rpc_config_new endpoint = rpc_config_default\<lparr>rg_endpoint := endpoint\<rparr>"

record rpc_backend =
  rb_config :: rpc_config
  rb_store :: tx_store

definition rpc_backend_new :: "rpc_config \<Rightarrow> rpc_backend" where
  "rpc_backend_new cfg = \<lparr> rb_config = cfg, rb_store = store_new \<rparr>"

definition rpc_register_tx :: "u64 \<Rightarrow> bytes \<Rightarrow> rpc_backend \<Rightarrow> rpc_backend" where
  "rpc_register_tx i tx b = b\<lparr>rb_store := store_register i tx (rb_store b)\<rparr>"

definition build_send_tx_body :: "string \<Rightarrow> bool \<Rightarrow> string" where
  "build_send_tx_body tx_b64 skip_preflight =
     rpc_call ''sendTransaction''
       (''['' @ quoted tx_b64 @ '',{'' @ quoted ''encoding'' @ '':'' @ quoted ''base64'' @ '','' @ quoted ''skipPreflight'' @ '':''
        @ (if skip_preflight then ''true'' else ''false'') @ '','' @ quoted ''maxRetries'' @ '':0}]'')"

definition send_tx_request :: "exec_env \<Rightarrow> rpc_config \<Rightarrow> bytes \<Rightarrow> post_request" where
  "send_tx_request env cfg raw =
     \<lparr> pq_url = rg_endpoint cfg, pq_body = build_send_tx_body (ec_b64 env raw) (rg_skip_preflight cfg),
       pq_authorization = rg_api_key cfg \<rparr>"

definition rpc_verdict :: "post_answer \<Rightarrow> submit_result" where
  "rpc_verdict answer =
     (case answer of
        Answered status body \<Rightarrow>
          let text_body = (case body of Some t \<Rightarrow> t | None \<Rightarrow> []) in
          if is_success status
          then (case parse_rpc_result text_body of
                  Some signature \<Rightarrow> SubmitOk signature
                | None \<Rightarrow> SubmitRetryable (Unparsed text_body))
          else if is_server_error status \<or> status = 429 then SubmitRetryable (HttpStatus status text_body)
          else SubmitPermanent (HttpStatus status text_body)
      | TimedOut \<Rightarrow> SubmitRetryable NetworkError
      | ConnectFailed \<Rightarrow> SubmitRetryable NetworkError
      | OtherFailure \<Rightarrow> SubmitPermanent RequestError)"

definition submit_rpc :: "exec_env \<Rightarrow> rpc_config \<Rightarrow> bytes \<Rightarrow> submit_result \<times> post_request list" where
  "submit_rpc env cfg raw =
     (if \<not> ec_live env then (SubmitPermanent NotCompiled, [])
      else let req = send_tx_request env cfg raw in (rpc_verdict (ec_post env req), [req]))"

definition rpc_submit :: "exec_env \<Rightarrow> order \<Rightarrow> rpc_backend \<Rightarrow> submit_result \<times> post_request list" where
  "rpc_submit env ord b =
     (case store_get (rb_store b) (od_client_order_id ord) of
        None \<Rightarrow> (SubmitPermanent (NoTransaction (od_client_order_id ord)), [])
      | Some raw \<Rightarrow> submit_rpc env (rb_config b) raw)"

lemma ok_verdict:
  "rpc_verdict answer = SubmitOk sig \<longleftrightarrow>
     (\<exists>status body. answer = Answered status body \<and> is_success status
        \<and> parse_rpc_result (case body of Some t \<Rightarrow> t | None \<Rightarrow> []) = Some sig)"
  by (auto simp: rpc_verdict_def Let_def split: post_answer.split option.splits)

section \<open>What a caller relies on\<close>

text \<open>
  The contract of a backend: registering a transaction replaces the one of the same order and no other, an order without one is refused
  for good with nothing sent, and an order with one is sent once at most, as the request its transaction determines.
\<close>

locale order_backend =
  fixes register :: "u64 \<Rightarrow> bytes \<Rightarrow> 's \<Rightarrow> 's"
    and submit :: "order \<Rightarrow> 's \<Rightarrow> submit_result \<times> post_request list"
    and stored :: "'s \<Rightarrow> u64 \<Rightarrow> bytes option"
    and request :: "'s \<Rightarrow> bytes \<Rightarrow> post_request"
    and answer :: "post_request \<Rightarrow> post_answer"
    and enabled :: bool
  assumes stored_register: "stored (register i tx s) j = (if j = i then Some tx else stored s j)"
    and request_register: "request (register i tx s) = request s"
    and submit_missing: "stored s (od_client_order_id ord) = None \<Longrightarrow>
          submit ord s = (SubmitPermanent (NoTransaction (od_client_order_id ord)), [])"
    and submit_disabled: "stored s (od_client_order_id ord) = Some tx \<Longrightarrow> \<not> enabled \<Longrightarrow>
          submit ord s = (SubmitPermanent NotCompiled, [])"
    and submit_stored: "stored s (od_client_order_id ord) = Some tx \<Longrightarrow> enabled \<Longrightarrow>
          submit ord s = (rpc_verdict (answer (request s tx)), [request s tx])"
begin

definition register_all :: "(u64 \<times> bytes) list \<Rightarrow> 's \<Rightarrow> 's" where
  "register_all regs s = fold (\<lambda>(i, tx). register i tx) regs s"

lemma stored_register_all:
  "stored (register_all regs s) i = (case map_of (rev regs) i of None \<Rightarrow> stored s i | Some tx \<Rightarrow> Some tx)"
proof (induction regs arbitrary: s)
  case (Cons r regs)
  then show ?case
    by (cases r) (auto simp: register_all_def stored_register map_add_def split: option.splits)
qed (simp add: register_all_def)

lemma request_register_all: "request (register_all regs s) = request s"
  by (induction regs arbitrary: s) (auto simp: register_all_def request_register)

lemma submit_cases:
  "submit ord s = (case stored s (od_client_order_id ord) of
     None \<Rightarrow> (SubmitPermanent (NoTransaction (od_client_order_id ord)), [])
   | Some tx \<Rightarrow> if enabled then (rpc_verdict (answer (request s tx)), [request s tx]) else (SubmitPermanent NotCompiled, []))"
  using submit_missing submit_disabled submit_stored by (auto split: option.split)

lemma submit_sound:
  assumes "\<And>i. stored s i = None"
  shows "case submit ord (register_all regs s) of
           (SubmitOk sig, reqs) \<Rightarrow> enabled \<and> (\<exists>tx status body. map_of (rev regs) (od_client_order_id ord) = Some tx
              \<and> reqs = [request s tx] \<and> answer (request s tx) = Answered status body \<and> is_success status
              \<and> parse_rpc_result (case body of Some t \<Rightarrow> t | None \<Rightarrow> []) = Some sig)
         | (_, reqs) \<Rightarrow> length reqs \<le> 1"
  unfolding submit_cases [of ord "register_all regs s"]
  by (cases "map_of (rev regs) (od_client_order_id ord)")
    (auto simp: stored_register_all request_register_all assms ok_verdict split: submit_result.split)

end

lemma verdicts_agree: "bundle_verdict = rpc_verdict"
  by (rule ext) (simp add: bundle_verdict_def rpc_verdict_def split: post_answer.split)

lemmas backend_defs = jito_register_tx_def rpc_register_tx_def store_register_def store_get_def jito_submit_def rpc_submit_def
  submit_bundle_def submit_rpc_def verdicts_agree Let_def

interpretation jito: order_backend jito_register_tx "jito_submit env" "\<lambda>b. store_get (jb_store b)"
    "\<lambda>b. bundle_request env (jb_config b)" "ec_post env" "ec_live env" for env
  by unfold_locales (simp_all add: backend_defs)

interpretation rpc: order_backend rpc_register_tx "rpc_submit env" "\<lambda>b. store_get (rb_store b)"
    "\<lambda>b. send_tx_request env (rb_config b)" "ec_post env" "ec_live env" for env
  by unfold_locales (simp_all add: backend_defs)

section \<open>Properties\<close>

text \<open>A well-formed answer with a result is read back.\<close>

lemma result_read_back:
  assumes "quote_char \<notin> set sig"
  shows "parse_rpc_result (''{'' @ quoted ''jsonrpc'' @ '':'' @ quoted ''2.0'' @ '','' @ quoted ''result'' @ '':'' @ quoted sig @ rest)
           = Some sig"
  using assms by (simp add: parse_rpc_result_def quoted_def quote_char_def is_ws_def takeWhile_append)

text \<open>
  The node refuses a transaction for good with status 200 and an error object: the backend calls that worth retrying.  And because the
  field is searched anywhere in the body, an error whose data names a result is taken for a success.
\<close>

lemma refusal_retried:
  "rpc_verdict (Answered 200 (Some (''{'' @ quoted ''error'' @ '':{'' @ quoted ''code'' @ '':-32002}}'')))
     = SubmitRetryable (Unparsed (''{'' @ quoted ''error'' @ '':{'' @ quoted ''code'' @ '':-32002}}''))"
  by (simp add: rpc_verdict_def is_success_def parse_rpc_result_def quoted_def quote_char_def)

lemma error_taken_for_success:
  "rpc_verdict (Answered 200 (Some (''{'' @ quoted ''error'' @ '':{'' @ quoted ''result'' @ '':'' @ quoted ''refused'' @ ''}}'')))
     = SubmitOk ''refused''"
  by (simp add: rpc_verdict_def is_success_def parse_rpc_result_def quoted_def quote_char_def is_ws_def)

text \<open>
  An accepted order was sent, once, with its own transaction: whatever was registered with a new backend before, a submission that
  reports success posted exactly one request, whose body carries the transaction last registered under the order's identifier, and the
  signature it reports was read from a successful answer to that request; a submission that fails sent at most that one request.  Both
  backends keep this contract.
\<close>

theorem accepted_order_was_sent:
  "(case jito_submit env ord (fold (\<lambda>(i, tx). jito_register_tx i tx) regs (jito_backend_new jcfg)) of
      (SubmitOk sig, reqs) \<Rightarrow> ec_live env \<and> (\<exists>tx status body. map_of (rev regs) (od_client_order_id ord) = Some tx
         \<and> reqs = [bundle_request env jcfg tx] \<and> pq_body (bundle_request env jcfg tx) = build_bundle_body (ec_b64 env tx)
         \<and> ec_post env (bundle_request env jcfg tx) = Answered status body \<and> is_success status
         \<and> parse_rpc_result (case body of Some t \<Rightarrow> t | None \<Rightarrow> []) = Some sig)
    | (_, reqs) \<Rightarrow> length reqs \<le> 1)
   \<and> (case rpc_submit env ord (fold (\<lambda>(i, tx). rpc_register_tx i tx) regs (rpc_backend_new rcfg)) of
      (SubmitOk sig, reqs) \<Rightarrow> ec_live env \<and> (\<exists>tx status body. map_of (rev regs) (od_client_order_id ord) = Some tx
         \<and> reqs = [send_tx_request env rcfg tx]
         \<and> pq_body (send_tx_request env rcfg tx) = build_send_tx_body (ec_b64 env tx) (rg_skip_preflight rcfg)
         \<and> ec_post env (send_tx_request env rcfg tx) = Answered status body \<and> is_success status
         \<and> parse_rpc_result (case body of Some t \<Rightarrow> t | None \<Rightarrow> []) = Some sig)
    | (_, reqs) \<Rightarrow> length reqs \<le> 1)"
    (is "?jito \<and> ?rpc")
proof (rule conjI)
  have "store_get (jb_store (jito_backend_new jcfg)) i = None" for i
    by (simp add: jito_backend_new_def store_new_def store_get_def)
  note sound = jito.submit_sound [OF this, of env regs ord, unfolded jito.register_all_def]
  have [simp]: "bundle_request env (jb_config (jito_backend_new jcfg)) = bundle_request env jcfg"
    "pq_body (bundle_request env jcfg tx) = build_bundle_body (ec_b64 env tx)" for tx
    by (simp_all add: jito_backend_new_def bundle_request_def)
  show ?jito using sound by (simp split: prod.splits submit_result.splits)
next
  have "store_get (rb_store (rpc_backend_new rcfg)) i = None" for i
    by (simp add: rpc_backend_new_def store_new_def store_get_def)
  note sound = rpc.submit_sound [OF this, of env regs ord, unfolded rpc.register_all_def]
  have [simp]: "send_tx_request env (rb_config (rpc_backend_new rcfg)) = send_tx_request env rcfg"
    "pq_body (send_tx_request env rcfg tx) = build_send_tx_body (ec_b64 env tx) (rg_skip_preflight rcfg)" for tx
    by (simp_all add: rpc_backend_new_def send_tx_request_def)
  show ?rpc using sound by (simp split: prod.splits submit_result.splits)
qed

end
