(* ===== verification/Advisory.thy ===== *)
theory Advisory
  imports Market_Feed
begin

text \<open>
  The parts beside the trading path: the alpha score (\<open>crates/hft-core/src/scoring.rs\<close>), the risk firewall in SOL (\<open>RiskFirewall\<close> of
  \<open>solana-sniper/src/risk.rs\<close>) and the check that joins them (\<open>integration.rs\<close>), the advisory DexScreener figures (\<open>discovery.rs\<close>), the
  decision records (\<open>decision.rs\<close>), the platform configuration (\<open>config.rs\<close>) and the mock price provider (\<open>mock_provider.rs\<close>).  The
  HTTP client, the parsers of JSON, TOML and floats, and the answers of the file system are arguments.
\<close>

section \<open>The alpha score\<close>

record token_score =
  ts_liquidity_score :: f64
  ts_holder_concentration :: f64
  ts_dev_activity :: f64

definition token_score_new :: "f64 \<Rightarrow> f64 \<Rightarrow> f64 \<Rightarrow> token_score" where
  "token_score_new liquidity_score holder_concentration dev_activity =
     \<lparr> ts_liquidity_score = liquidity_score, ts_holder_concentration = holder_concentration, ts_dev_activity = dev_activity \<rparr>"

text \<open>The literals 0.4 and 0.1 are the doubles nearest to them.\<close>

definition calculate_alpha_score :: "token_score \<Rightarrow> f64" where
  "calculate_alpha_score t =
     f64_add (f64_add (f64_mul (ts_liquidity_score t) (1 / 2))
                      (f64_mul (f64_sub 1 (ts_holder_concentration t)) (f64_round (4 / 10))))
             (f64_mul (ts_dev_activity t) (f64_round (1 / 10)))"

section \<open>The firewall\<close>

record risk_firewall =
  rf_max_trade_sol :: f64
  rf_daily_loss_limit_sol :: f64
  rf_current_loss_sol :: f64

datatype firewall_error = FirewallBreaker | FirewallSize

definition firewall_new :: "f64 \<Rightarrow> f64 \<Rightarrow> risk_firewall" where
  "firewall_new max_trade_sol daily_loss_limit_sol =
     \<lparr> rf_max_trade_sol = max_trade_sol, rf_daily_loss_limit_sol = daily_loss_limit_sol, rf_current_loss_sol = 0 \<rparr>"

definition firewall_check :: "risk_firewall \<Rightarrow> f64 \<Rightarrow> firewall_error + unit" where
  "firewall_check rf amount_sol =
     (if rf_daily_loss_limit_sol rf \<le> rf_current_loss_sol rf then Inl FirewallBreaker
      else if rf_max_trade_sol rf < amount_sol then Inl FirewallSize
      else Inr ())"

definition evaluate_and_check :: "f64 \<Rightarrow> f64 \<Rightarrow> f64 \<Rightarrow> f64 \<Rightarrow> risk_firewall \<Rightarrow> firewall_error + f64" where
  "evaluate_and_check amount_sol liquidity_score holder_concentration dev_activity rf =
     and_then (firewall_check rf amount_sol) (\<lambda>_.
     Inr (calculate_alpha_score (token_score_new liquidity_score holder_concentration dev_activity)))"

section \<open>Advisory figures\<close>

record dex_snapshot =
  ds_liquidity_usd :: "f64 option"
  ds_fdv :: "f64 option"
  ds_volume_24h_usd :: "f64 option"
  ds_price_usd :: "string option"
  ds_pair_created_at :: "u64 option"

text \<open>A pair of the answer; the objects \<open>liquidity\<close> and \<open>volume\<close> have one optional field each.\<close>

record dex_pair =
  dp_chain_id :: "string option"
  dp_pair_address :: "string option"
  dp_price_usd :: "string option"
  dp_liquidity :: "f64 option option"
  dp_fdv :: "f64 option"
  dp_volume :: "f64 option option"
  dp_pair_created_at :: "u64 option"

record dex_response = dr_pairs :: "dex_pair list option"

record dex_answer =
  da_success :: bool
  da_body :: "dex_response option"

datatype dex_error = NoClient | DexRequestFailed | DexStatus | DexParse | NoPair

definition select_pair :: "dex_pair list \<Rightarrow> string \<Rightarrow> dex_error + dex_pair" where
  "select_pair pairs pair_address =
     ok_or NoPair (find (\<lambda>p. dp_chain_id p = Some ''solana'' \<and> dp_pair_address p = Some pair_address) pairs)"

definition parse_pair :: "dex_pair \<Rightarrow> dex_snapshot" where
  "parse_pair p =
     \<lparr> ds_liquidity_usd = Option.bind (dp_liquidity p) (\<lambda>l. l), ds_fdv = dp_fdv p,
       ds_volume_24h_usd = Option.bind (dp_volume p) (\<lambda>v. v), ds_price_usd = dp_price_usd p,
       ds_pair_created_at = dp_pair_created_at p \<rparr>"

definition DEXSCREENER_BASE_URL :: string where
  "DEXSCREENER_BASE_URL = ''https://api.dexscreener.com/latest/dex/pairs/solana''"

definition dex_fetch_snapshot :: "bool \<Rightarrow> (string \<Rightarrow> dex_answer option) \<Rightarrow> string \<Rightarrow> dex_error + dex_snapshot" where
  "dex_fetch_snapshot client_built http_get pair_address =
     and_then (if client_built then Inr () else Inl NoClient) (\<lambda>_.
     and_then (ok_or DexRequestFailed (http_get (DEXSCREENER_BASE_URL @ ''/'' @ pair_address))) (\<lambda>resp.
     and_then (if da_success resp then Inr () else Inl DexStatus) (\<lambda>_.
     and_then (ok_or DexParse (da_body resp)) (\<lambda>body.
     and_then (select_pair (case dr_pairs body of Some ps \<Rightarrow> ps | None \<Rightarrow> []) pair_address) (\<lambda>pair.
     Inr (parse_pair pair))))))"

section \<open>Decision records\<close>

record decision_record =
  dc_decision_time_ms :: u64
  dc_strategy :: string
  dc_protocol :: string
  dc_pool_id :: string
  dc_token_in :: string
  dc_token_out :: string
  dc_amount_in :: u64
  dc_min_amount_out :: u64
  dc_sqrt_price :: string
  dc_liquidity :: string
  dc_blockhash :: string
  dc_signature :: string
  dc_mode :: string

text \<open>The clock is the time since 1970, absent when it is set before.\<close>

definition decision_record_new :: "u128 option \<Rightarrow> string \<Rightarrow> string \<Rightarrow> decision_record" where
  "decision_record_new clock strategy protocol =
     \<lparr> dc_decision_time_ms = (case clock of Some ms \<Rightarrow> ucast ms | None \<Rightarrow> 0), dc_strategy = strategy, dc_protocol = protocol,
       dc_pool_id = [], dc_token_in = [], dc_token_out = [], dc_amount_in = 0, dc_min_amount_out = 0, dc_sqrt_price = [],
       dc_liquidity = [], dc_blockhash = [], dc_signature = [], dc_mode = ''simulation'' \<rparr>"

text \<open>The file system: the directory can be made, the file opened, the line written.\<close>

record save_env =
  se_dir :: bool
  se_open :: bool
  se_write :: bool

datatype save_error = SaveDir | SaveSerialize | SaveOpen | SaveWrite

definition decision_record_save ::
    "(decision_record \<Rightarrow> string option) \<Rightarrow> save_env \<Rightarrow> decision_record \<Rightarrow> string list \<Rightarrow> (save_error + unit) \<times> string list" where
  "decision_record_save to_json env r lines =
     (if \<not> se_dir env then (Inl SaveDir, lines)
      else case to_json r of
             None \<Rightarrow> (Inl SaveSerialize, lines)
           | Some line \<Rightarrow>
               if \<not> se_open env then (Inl SaveOpen, lines)
               else if \<not> se_write env then (Inl SaveWrite, lines)
               else (Inr (), lines @ [line]))"

section \<open>The platform configuration\<close>

record hft_rpc = hr_endpoint :: string  hr_ws_endpoint :: string  hr_commitment :: string

record hft_risk =
  hk_max_trade_size_sol :: f64
  hk_max_slippage_bps :: u64
  hk_daily_loss_limit_sol :: f64
  hk_circuit_breaker_minutes :: u64

record hft_trading =
  ht_strategy :: string
  ht_protocol :: string
  ht_priority_microlamports :: u64
  ht_compute_units :: u32
  ht_jito_tip_lamports :: u64

record hft_config =
  hc_rpc :: hft_rpc
  hc_risk :: hft_risk
  hc_trading :: hft_trading

definition hft_config_default :: hft_config where
  "hft_config_default =
     \<lparr> hc_rpc = \<lparr> hr_endpoint = ''https://api.devnet.solana.com'', hr_ws_endpoint = ''wss://api.devnet.solana.com'',
                  hr_commitment = ''confirmed'' \<rparr>,
       hc_risk = \<lparr> hk_max_trade_size_sol = f64_round (1 / 10), hk_max_slippage_bps = 100, hk_daily_loss_limit_sol = 1,
                   hk_circuit_breaker_minutes = 5 \<rparr>,
       hc_trading = \<lparr> ht_strategy = ''simple_snipe'', ht_protocol = ''raydium_v4'', ht_priority_microlamports = 10000,
                      ht_compute_units = 200000, ht_jito_tip_lamports = 0 \<rparr> \<rparr>"

datatype hft_config_error = ConfigRead | ConfigParse | EnvNotANumber string

text \<open>A file that may be named, may exist, and then reads and parses or fails to.\<close>

datatype config_file = NotNamed | Missing | Unreadable | Unparsable | Parsed hft_config

definition config_base :: "config_file \<Rightarrow> hft_config_error + hft_config" where
  "config_base file =
     (case file of
        NotNamed \<Rightarrow> Inr hft_config_default | Missing \<Rightarrow> Inr hft_config_default
      | Unreadable \<Rightarrow> Inl ConfigRead | Unparsable \<Rightarrow> Inl ConfigParse | Parsed cfg \<Rightarrow> Inr cfg)"

text \<open>A variable that is set replaces the value, or fails the start when it is not a number.\<close>

definition env_number :: "(string \<Rightarrow> string option) \<Rightarrow> (string \<Rightarrow> 'a option) \<Rightarrow> string \<Rightarrow> 'a \<Rightarrow> hft_config_error + 'a" where
  "env_number env parse name old =
     (case env name of None \<Rightarrow> Inr old | Some v \<Rightarrow> ok_or (EnvNotANumber name) (parse v))"

definition env_text :: "(string \<Rightarrow> string option) \<Rightarrow> string \<Rightarrow> string \<Rightarrow> string" where
  "env_text env name old = (case env name of None \<Rightarrow> old | Some v \<Rightarrow> v)"

definition hft_config_load ::
    "(string \<Rightarrow> string option) \<Rightarrow> (string \<Rightarrow> f64 option) \<Rightarrow> (string \<Rightarrow> u64 option) \<Rightarrow> config_file \<Rightarrow> hft_config_error + hft_config" where
  "hft_config_load env parse_float parse_int file =
     and_then (config_base file) (\<lambda>cfg.
     let r = hc_rpc cfg; k = hc_risk cfg;
         r = r\<lparr>hr_endpoint := env_text env ''SOLANA_RPC_ENDPOINT'' (hr_endpoint r)\<rparr>;
         r = r\<lparr>hr_ws_endpoint := env_text env ''SOLANA_WS_ENDPOINT'' (hr_ws_endpoint r)\<rparr>
     in and_then (env_number env parse_float ''MAX_TRADE_SIZE_SOL'' (hk_max_trade_size_sol k)) (\<lambda>size_sol.
        and_then (env_number env parse_int ''MAX_SLIPPAGE_BPS'' (hk_max_slippage_bps k)) (\<lambda>slippage.
        and_then (env_number env parse_float ''DAILY_LOSS_LIMIT_SOL'' (hk_daily_loss_limit_sol k)) (\<lambda>loss.
        Inr (cfg\<lparr>hc_rpc := r,
                 hc_risk := k\<lparr>hk_max_trade_size_sol := size_sol, hk_max_slippage_bps := slippage,
                             hk_daily_loss_limit_sol := loss\<rparr>\<rparr>)))))"

section \<open>The mock price provider\<close>

type_synonym mock_provider = "string \<rightharpoonup> price_quote"

definition mock_new :: mock_provider where "mock_new = Map.empty"

definition mock_update_price :: "u128 \<Rightarrow> string \<Rightarrow> f64 \<Rightarrow> f64 \<Rightarrow> mock_provider \<Rightarrow> mock_provider" where
  "mock_update_price now symbol bid ask m =
     m(symbol \<mapsto> \<lparr> qt_symbol = symbol, qt_bid = bid, qt_ask = ask, qt_timestamp_ms = now \<rparr>)"

definition mock_latest_price :: "mock_provider \<Rightarrow> string \<Rightarrow> price_quote option" where
  "mock_latest_price m symbol = m symbol"

section \<open>Properties\<close>

text \<open>A price is the last one written for its own symbol.\<close>

lemma mock_last_price:
  "mock_latest_price (fold (\<lambda>(now, symbol, bid, ask). mock_update_price now symbol bid ask) updates mock_new) s =
     map_option (\<lambda>(now, bid, ask). \<lparr> qt_symbol = s, qt_bid = bid, qt_ask = ask, qt_timestamp_ms = now \<rparr>)
       (map_of (rev (map (\<lambda>(now, symbol, bid, ask). (symbol, now, bid, ask)) updates)) s)"
proof -
  have "fold (\<lambda>(now, symbol, bid, ask). mock_update_price now symbol bid ask) updates m s =
      (case map_of (rev (map (\<lambda>(now, symbol, bid, ask). (symbol, now, bid, ask)) updates)) s of
         None \<Rightarrow> m s | Some (now, bid, ask) \<Rightarrow> Some \<lparr> qt_symbol = s, qt_bid = bid, qt_ask = ask, qt_timestamp_ms = now \<rparr>)" for m
  proof (induction updates arbitrary: m)
    case (Cons u us)
    then show ?case
      by (cases u) (auto simp: mock_update_price_def map_add_def split: option.splits)
  qed simp
  then show ?thesis by (simp add: mock_latest_price_def mock_new_def split: option.split)
qed

text \<open>What a start needs of its environment, and that a variable wins over the file.\<close>

lemma env_number_Inr:
  "env_number env parse name old = Inr v \<longleftrightarrow>
     (case env name of None \<Rightarrow> v = old | Some text \<Rightarrow> parse text = Some v)"
  by (auto simp: env_number_def ok_or_def split: option.split)

text \<open>Earlier records are kept, whatever fails.\<close>

lemma save_appends:
  "\<exists>tail. snd (decision_record_save to_json env r lines) = lines @ tail
     \<and> (fst (decision_record_save to_json env r lines) = Inr () \<longleftrightarrow> tail \<noteq> [])"
  by (auto simp: decision_record_save_def split: option.split)

text \<open>The figures of another pool are never attributed to this one.\<close>

lemma snapshot_of_this_pair:
  assumes "dex_fetch_snapshot built http_get addr = Inr s"
  shows "\<exists>resp body ps p. http_get (DEXSCREENER_BASE_URL @ ''/'' @ addr) = Some resp \<and> da_success resp \<and> da_body resp = Some body
           \<and> dr_pairs body = Some ps \<and> p \<in> set ps \<and> dp_chain_id p = Some ''solana'' \<and> dp_pair_address p = Some addr \<and> s = parse_pair p"
proof -
  obtain resp body p where r: "http_get (DEXSCREENER_BASE_URL @ ''/'' @ addr) = Some resp" "da_success resp" "da_body resp = Some body"
    and p: "find (\<lambda>p. dp_chain_id p = Some ''solana'' \<and> dp_pair_address p = Some addr)
              (case dr_pairs body of Some ps \<Rightarrow> ps | None \<Rightarrow> []) = Some p" and s: "s = parse_pair p"
    using assms by (auto simp: dex_fetch_snapshot_def select_pair_def ok_iff split: if_splits)
  obtain ps where ps: "dr_pairs body = Some ps" using p by (cases "dr_pairs body") simp_all
  then have "p \<in> set ps \<and> dp_chain_id p = Some ''solana'' \<and> dp_pair_address p = Some addr"
    using p by (auto simp: find_Some_iff in_set_conv_nth)
  then show ?thesis using r s ps by blast
qed

subsection \<open>The range of the score\<close>

lemma f64_mul_mono: "0 \<le> c \<Longrightarrow> x \<le> y \<Longrightarrow> f64_mul x c \<le> f64_mul y c"
  by (simp add: f64_mul_def f64_round_mono mult_right_mono)

lemma f64_add_mono: "a \<le> b \<Longrightarrow> x \<le> y \<Longrightarrow> f64_add a x \<le> f64_add b y"
  by (simp add: f64_add_def f64_round_mono)

lemma score_constants:
  "f64_round (4 / 10) = 3602879701896397 / 9007199254740992"
  "f64_round (1 / 10) = 3602879701896397 / 36028797018963968"
  by code_simp+

lemma alpha_mono:
  assumes "ts_liquidity_score s \<le> ts_liquidity_score t" "ts_holder_concentration t \<le> ts_holder_concentration s"
    "ts_dev_activity s \<le> ts_dev_activity t"
  shows "calculate_alpha_score s \<le> calculate_alpha_score t"
  using assms unfolding calculate_alpha_score_def
  by (intro f64_add_mono f64_mul_mono f64_round_nonneg) (simp_all add: f64_sub_def f64_round_mono)

lemma score_rounds:
  "f64_round (3602879701896397 / 9007199254740992) = 3602879701896397 / 9007199254740992"
  "f64_round (3602879701896397 / 36028797018963968) = 3602879701896397 / 36028797018963968"
  "f64_round (8106479329266893 / 9007199254740992) = 8106479329266893 / 9007199254740992"
  "f64_round (1 / 2) = 1 / 2"
  using f64_round_exact [of 3602879701896397 "- 53"] f64_round_exact [of 3602879701896397 "- 55"]
    f64_round_exact [of 8106479329266893 "- 53"] f64_round_exact [of 1 "- 1"]
  by (simp_all add: power_int_def power_one_over)

lemma best_round: "f64_round (36028797018963969 / 36028797018963968) = 1"
proof -
  let ?x = "36028797018963969 / 36028797018963968 :: rat"
  have e: "2 powi f64_exp ?x \<le> ?x" "?x < 2 powi (f64_exp ?x + 1)" by (rule f64_exp_bounds, simp)+
  have "\<not> 1 \<le> f64_exp ?x"
    using order_trans [OF power_int_increasing [of 1 "f64_exp ?x" "2 :: rat"] e(1)] by auto
  moreover have "\<not> f64_exp ?x + 1 \<le> 0"
    using less_le_trans [OF e(2) power_int_increasing [of "f64_exp ?x + 1" 0 "2 :: rat"]] by auto
  ultimately have exp: "f64_exp ?x = 0" by linarith
  have "\<lfloor>36028797018963969 / 8 :: rat\<rfloor> = 4503599627370496" by (rule floor_unique) simp_all
  then have "half_even (36028797018963969 / 8) = 4503599627370496" by (simp add: half_even_def Let_def)
  moreover have "f64_round ?x = of_int (half_even (?x / 2 powi (0 - 52))) * 2 powi (0 - 52)"
    using f64_round_pos [of ?x] unfolding exp by simp
  moreover have "?x / 2 powi (0 - 52) = 36028797018963969 / 8" by (simp add: power_int_def power_one_over)
  ultimately show ?thesis by (simp add: power_int_def power_one_over)
qed

lemma score_sums:
  "(1 :: rat) / 2 + 3602879701896397 / 9007199254740992 = 8106479329266893 / 9007199254740992"
  "(8106479329266893 :: rat) / 9007199254740992 + 3602879701896397 / 36028797018963968 = 36028797018963969 / 36028797018963968"
  by simp_all

lemma alpha_extremes:
  "calculate_alpha_score (token_score_new 0 1 0) = 0" "calculate_alpha_score (token_score_new 1 0 1) = 1"
  unfolding calculate_alpha_score_def token_score_new_def score_constants f64_add_def f64_mul_def f64_sub_def
    token_score.simps diff_0_right diff_self mult_1_left f64_round_0 f64_round_1
  by (simp_all only: score_rounds best_round score_sums mult_1_left mult_zero_left add_0 f64_round_0)

text \<open>
  The score keeps its scale, in double precision: when the three metrics lie between 0 and 1 so does the score, with every rounding
  of the computation counted, and more liquidity, less concentration or more activity never lowers it; and a score is handed out only
  for a trade within the size limit while the loss of the day is below its limit.
\<close>

theorem alpha_score_in_scale:
  assumes "0 \<le> l" "l \<le> 1" "0 \<le> h" "h \<le> 1" "0 \<le> d" "d \<le> 1"
  shows "case evaluate_and_check amount l h d rf of
           Inl FirewallBreaker \<Rightarrow> rf_daily_loss_limit_sol rf \<le> rf_current_loss_sol rf
         | Inl FirewallSize \<Rightarrow> rf_max_trade_sol rf < amount
         | Inr score \<Rightarrow> 0 \<le> score \<and> score \<le> 1 \<and> amount \<le> rf_max_trade_sol rf \<and> rf_current_loss_sol rf < rf_daily_loss_limit_sol rf"
proof -
  have "calculate_alpha_score (token_score_new 0 1 0) \<le> calculate_alpha_score (token_score_new l h d)"
    "calculate_alpha_score (token_score_new l h d) \<le> calculate_alpha_score (token_score_new 1 0 1)"
    using assms by (auto intro!: alpha_mono simp: token_score_new_def)
  then show ?thesis unfolding alpha_extremes
    by (auto simp: evaluate_and_check_def firewall_check_def not_le not_less and_then_def)
qed

theorem alpha_score_in_scale_witness:
  "\<exists>score. evaluate_and_check (1 / 2) (4 / 5) (1 / 5) (2 / 5) (firewall_new 1 10) = Inr score \<and> 0 \<le> score \<and> score \<le> 1"
  using alpha_score_in_scale [where l = "4 / 5" and h = "1 / 5" and d = "2 / 5" and amount = "1 / 2" and rf = "firewall_new 1 10"]
  by (simp add: evaluate_and_check_def firewall_check_def firewall_new_def and_then_def)

end
