(* ===== verification/Devnet_Tools.thy ===== *)
theory Devnet_Tools
  imports Live_Exit Remote_Hsm
begin

text \<open>
  The programs beside the bot: the signer adapters (\<open>hw_signer.rs\<close>, \<open>ledger_signer.rs\<close>) and the tests of them, the transaction builders
  (\<open>tx.rs\<close>, \<open>executor.rs\<close>), \<open>bin/send_transfer.rs\<close>, and the two devnet harnesses, one swap (\<open>bin/devnet_swap_test.rs\<close>) and a full round
  trip (\<open>bin/devnet_entry_exit_test.rs\<close>), over the account resolution, the adapter, the HSM client and the risk manager of the bot.
  The instructions the SPL crates build are parameters; a transaction is its instructions, its blockhash and its signature.
\<close>

section \<open>Signers\<close>

datatype signer_adapter = LocalKeypair string | HwStub | HwLedger "string option"

datatype signer_error = KeyfileUnreadable | SignRefused | NoHardware | LedgerNotImplemented

text \<open>A key file reads to a signing function, which may fail.\<close>

definition adapter_sign ::
    "(string \<Rightarrow> (bytes \<Rightarrow> bytes option) option) \<Rightarrow> signer_adapter \<Rightarrow> bytes \<Rightarrow> signer_error + bytes" where
  "adapter_sign keyfile s msg =
     (case s of
        LocalKeypair path \<Rightarrow>
          (case keyfile path of None \<Rightarrow> Inl KeyfileUnreadable | Some sign \<Rightarrow> ok_or SignRefused (sign msg))
      | HwStub \<Rightarrow> Inl NoHardware
      | HwLedger _ \<Rightarrow> Inl LedgerNotImplemented)"

text \<open>The fallbacks of the two signing tests.\<close>

fun first_signature ::
    "(string \<Rightarrow> (bytes \<Rightarrow> bytes option) option) \<Rightarrow> signer_adapter list \<Rightarrow> bytes \<Rightarrow> signer_error + bytes" where
  "first_signature keyfile [] msg = Inl NoHardware"
| "first_signature keyfile [s] msg = adapter_sign keyfile s msg"
| "first_signature keyfile (s # ss) msg =
     (case adapter_sign keyfile s msg of Inr sig \<Rightarrow> Inr sig | Inl _ \<Rightarrow> first_signature keyfile ss msg)"

definition sign_test :: "(string \<Rightarrow> (bytes \<Rightarrow> bytes option) option) \<Rightarrow> string \<Rightarrow> bytes \<Rightarrow> signer_error + bytes" where
  "sign_test keyfile path msg = first_signature keyfile [HwStub, LocalKeypair path] msg"

definition ledger_sign_test ::
    "(string \<Rightarrow> (bytes \<Rightarrow> bytes option) option) \<Rightarrow> string \<Rightarrow> string option \<Rightarrow> bytes \<Rightarrow> signer_error + bytes" where
  "ledger_sign_test keyfile path device msg = first_signature keyfile [HwLedger device, HwStub, LocalKeypair path] msg"

lemma tests_sign_locally:
  "sign_test keyfile path msg = adapter_sign keyfile (LocalKeypair path) msg"
  "ledger_sign_test keyfile path device msg = adapter_sign keyfile (LocalKeypair path) msg"
  by (simp_all add: sign_test_def ledger_sign_test_def adapter_sign_def)

section \<open>Transactions\<close>

record signed_tx =
  st_instrs :: "instr list"
  st_blockhash :: bytes
  st_signature :: bytes

text \<open>\<open>build_signed_tx\<close> and the transaction of \<open>execute_instructions\<close>.\<close>

definition build_signed_tx ::
    "swap_sdk \<Rightarrow> (instr list \<Rightarrow> bytes \<Rightarrow> bytes) \<Rightarrow> instr list \<Rightarrow> bytes \<Rightarrow> u64 \<Rightarrow> u32 \<Rightarrow> signed_tx" where
  "build_signed_tx sdk sign ixs blockhash priority compute_units =
     (let all_ixs = [set_cu_price sdk priority, set_cu_limit sdk compute_units] @ ixs
      in \<lparr> st_instrs = all_ixs, st_blockhash = blockhash, st_signature = sign all_ixs blockhash \<rparr>)"

definition build_transfer_tx ::
    "swap_sdk \<Rightarrow> (instr list \<Rightarrow> bytes \<Rightarrow> bytes) \<Rightarrow> pubkey \<Rightarrow> pubkey \<Rightarrow> u64 \<Rightarrow> bytes \<Rightarrow> signed_tx" where
  "build_transfer_tx sdk sign from dest lamports blockhash =
     build_signed_tx sdk sign [sys_transfer sdk from dest lamports] blockhash 10000 200000"

text \<open>Executing: the transaction goes to \<open>send_with_retry\<close>.\<close>

definition execute_instructions ::
    "swap_sdk \<Rightarrow> (instr list \<Rightarrow> bytes \<Rightarrow> bytes) \<Rightarrow> signed_tx net
       \<Rightarrow> instr list \<Rightarrow> bytes \<Rightarrow> u64 \<Rightarrow> u32 \<Rightarrow> (send_error + string) option" where
  "execute_instructions sdk sign net ixs blockhash priority compute_units =
     (let all_ixs = [set_cu_price sdk priority, set_cu_limit sdk compute_units] @ ixs
      in fst (send_with_retry net \<lparr> st_instrs = all_ixs, st_blockhash = blockhash, st_signature = sign all_ixs blockhash \<rparr> blockhash []))"

definition execute_transfer ::
    "swap_sdk \<Rightarrow> (instr list \<Rightarrow> bytes \<Rightarrow> bytes) \<Rightarrow> signed_tx net
       \<Rightarrow> pubkey \<Rightarrow> pubkey \<Rightarrow> u64 \<Rightarrow> bytes \<Rightarrow> (send_error + string) option" where
  "execute_transfer sdk sign net from dest lamports blockhash =
     execute_instructions sdk sign net [sys_transfer sdk from dest lamports] blockhash 10000 200000"

section \<open>Sending a transfer\<close>

definition COMPUTE_BUDGET_ID :: string where "COMPUTE_BUDGET_ID = ''ComputeBudget111111111111111111111111111111''"

text \<open>The program writes the two instructions of the compute budget by hand.\<close>

definition set_compute_unit_limit_ix :: "swap_sdk \<Rightarrow> u32 \<Rightarrow> instr" where
  "set_compute_unit_limit_ix sdk units =
     \<lparr> ix_program = key_of sdk COMPUTE_BUDGET_ID, ix_metas = [], ix_bytes = 2 # to_le_bytes 4 units \<rparr>"

definition set_compute_unit_price_ix :: "swap_sdk \<Rightarrow> u64 \<Rightarrow> instr" where
  "set_compute_unit_price_ix sdk micro_lamports =
     \<lparr> ix_program = key_of sdk COMPUTE_BUDGET_ID, ix_metas = [], ix_bytes = 3 # to_le_bytes 8 micro_lamports \<rparr>"

record transfer_args =
  xa_rpc :: string
  xa_to :: string
  xa_amount :: f64
  xa_priority_fee :: u64
  xa_compute_units :: u32
  xa_dry_run :: bool
  xa_jito_tip :: f64

record transfer_result =
  xr_success :: bool
  xr_signature :: "string option"
  xr_explorer_url :: "string option"
  xr_dry_run :: bool

datatype transfer_end = WalletUnreadable | InvalidDestination | NoBlockhash | Reported transfer_result bool
  \<comment> \<open>the printed result, and whether the process ends with code 0\<close>

definition explorer_cluster :: "string \<Rightarrow> string" where
  "explorer_cluster rpc =
     (if contains ''devnet'' rpc then ''devnet'' else if contains ''testnet'' rpc then ''testnet'' else ''mainnet-beta'')"

text \<open>
  The wallet is its key and its signing function; a simulation answers whether the transaction fails, the node whether it was
  confirmed.  The result is paired with what was sent.
\<close>

definition send_transfer ::
    "swap_sdk \<Rightarrow> transfer_args \<Rightarrow> (pubkey \<times> (instr list \<Rightarrow> bytes \<Rightarrow> bytes)) option \<Rightarrow> bytes option \<Rightarrow> (signed_tx \<Rightarrow> bool option)
       \<Rightarrow> (signed_tx \<Rightarrow> string option) \<Rightarrow> transfer_end \<times> signed_tx list" where
  "send_transfer sdk a wallet latest simulate send =
     (case wallet of None \<Rightarrow> (WalletUnreadable, []) | Some (payer, sign) \<Rightarrow>
      case parse_pk sdk (xa_to a) of None \<Rightarrow> (InvalidDestination, []) | Some dest \<Rightarrow>
      let ixs = [set_compute_unit_price_ix sdk (xa_priority_fee a), set_compute_unit_limit_ix sdk (xa_compute_units a),
                 sys_transfer sdk payer dest (sol_to_lamports (xa_amount a))]
      in case latest of None \<Rightarrow> (NoBlockhash, []) | Some blockhash \<Rightarrow>
      let tx = \<lparr> st_instrs = ixs, st_blockhash = blockhash, st_signature = sign ixs blockhash \<rparr>
      in if xa_dry_run a
         then (case simulate tx of
                 Some fails \<Rightarrow> (Reported \<lparr> xr_success = \<not> fails, xr_signature = None, xr_explorer_url = None, xr_dry_run = True \<rparr> True, [])
               | None \<Rightarrow> (Reported \<lparr> xr_success = False, xr_signature = None, xr_explorer_url = None, xr_dry_run = True \<rparr> False, []))
         else (case send tx of
                 Some sig \<Rightarrow>
                   (Reported \<lparr> xr_success = True, xr_signature = Some sig,
                      xr_explorer_url = Some (''https://explorer.solana.com/tx/'' @ sig @ ''?cluster='' @ explorer_cluster (xa_rpc a)),
                      xr_dry_run = False \<rparr> True, [tx])
               | None \<Rightarrow> (Reported \<lparr> xr_success = False, xr_signature = None, xr_explorer_url = None, xr_dry_run = False \<rparr> False, [tx])))"

section \<open>What the two harnesses share\<close>

text \<open>What the SPL crates build, beside the SDK.\<close>

record spl_sdk =
  sp_ata :: "pubkey \<Rightarrow> pubkey \<Rightarrow> pubkey"                  \<comment> \<open>\<open>get_associated_token_address\<close>, of an owner and a mint\<close>
  sp_create_ata :: "pubkey \<Rightarrow> pubkey \<Rightarrow> pubkey \<Rightarrow> instr"   \<comment> \<open>of the payer, the owner and the mint\<close>
  sp_sync_native :: "pubkey \<Rightarrow> instr option"

text \<open>A status is absent while the transaction is unknown.\<close>

datatype status_poll = PollFailed | Unknown | Succeeded | FailedTx

datatype harness_submit_error = SendFailed | PollError | OnChainFailure | NotInTime

fun await_status :: "nat \<Rightarrow> (nat \<Rightarrow> status_poll) \<Rightarrow> nat \<Rightarrow> harness_submit_error + unit" where
  "await_status 0 polls i = Inl NotInTime"
| "await_status (Suc n) polls i =
     (case polls i of
        PollFailed \<Rightarrow> Inl PollError
      | Succeeded \<Rightarrow> Inr ()
      | FailedTx \<Rightarrow> Inl OnChainFailure
      | Unknown \<Rightarrow> await_status n polls (i + 1))"

text \<open>Thirty polls, half a second apart; the signature is the one the node returned.\<close>

definition submit_and_confirm :: "string option \<Rightarrow> (nat \<Rightarrow> status_poll) \<Rightarrow> harness_submit_error + string" where
  "submit_and_confirm sent polls =
     (case sent of
        None \<Rightarrow> Inl SendFailed
      | Some sig \<Rightarrow> and_then (await_status 30 polls 0) (\<lambda>_. Inr sig))"

text \<open>The amount of a token account, or nothing when there is none.\<close>

definition token_ata_balance_raw ::
    "spl_sdk \<Rightarrow> (pubkey \<Rightarrow> string + bytes option) \<Rightarrow> pubkey \<Rightarrow> pubkey \<Rightarrow> balance_error + u64 option" where
  "token_ata_balance_raw sp account_data owner mint =
     (case account_data (sp_ata sp owner mint) of
        Inl _ \<Rightarrow> Inl BalanceRpc
      | Inr None \<Rightarrow> Inr None
      | Inr (Some data) \<Rightarrow> if length data < 72 then Inl NotATokenAccount else Inr (Some (u64_at data 64)))"

text \<open>What one transaction of a harness asks the node and the HSM.\<close>

record swap_answers =
  wa_account :: "pubkey \<Rightarrow> raw_account option"
  wa_multi :: "nat \<Rightarrow> pubkey list \<Rightarrow> raw_account option list option"
  wa_hash :: "bytes option"
  wa_sign :: "hsm_answer option"
  wa_sent :: "string option"
  wa_polls :: "nat \<Rightarrow> status_poll"

record harness_env =
  he_sdk :: swap_sdk
  he_spl :: spl_sdk
  he_b64 :: "string \<Rightarrow> bytes option"
  he_signer_init :: bool
  he_hsm_key :: "hsm_answer option"

datatype harness_error =
    NotDevnet | SignerInitFailed | SignerKeyFailed | OverSpendCap | BalanceUnread | Underfunded | TargetMissing
  | InvalidPoolKey | InvalidInputKey | InvalidOutputKey | NotNativeInput | RiskConfigFailed risk_config_error
  | RiskRejects reject_reason | AccountsUnresolved resolve_error | HarnessQuote adapter_error | SwapUnbuilt adapter_error
  | TokenUnread balance_error | SyncUnbuilt | HashUnread | SigningRefused hsm_error | SubmitFailed harness_submit_error
  | NothingReceived | NoProceeds | LossRecorded loss_error | PnlMismatch

definition harness_signer :: "harness_env \<Rightarrow> harness_error + pubkey" where
  "harness_signer env =
     (if \<not> he_signer_init env then Inl SignerInitFailed
      else map_err (\<lambda>_. SignerKeyFailed) (hsm_pubkey_answer (parse_pk (he_sdk env)) (he_hsm_key env)))"

text \<open>The swap instruction for an amount of the input mint, from the verified pool.\<close>

definition harness_swap ::
    "harness_env \<Rightarrow> swap_answers \<Rightarrow> string \<Rightarrow> string \<Rightarrow> pubkey \<Rightarrow> pubkey \<Rightarrow> pubkey \<Rightarrow> pubkey \<Rightarrow> u64 \<Rightarrow> u64
       \<Rightarrow> harness_error + instr" where
  "harness_swap env w rpc pool_text pool_id from input_mint output_mint amount slippage =
     (let sdk = he_sdk env in
      and_then (map_err AccountsUnresolved (resolve_swap_accounts sdk (wa_account w) (wa_multi w) pool_id from input_mint output_mint
                  (clmm_program_id sdk rpc))) (\<lambda>(acc, pool).
      let adapter = with_program_id (clmm_program rpc) (with_resolved_pool pool (with_swap_accounts acc (adapter_new pool_text)))
      in and_then (map_err HarnessQuote (adapter_quote adapter amount slippage)) (\<lambda>q.
         map_err SwapUnbuilt (build_swap_instruction sdk adapter (build_intent sdk adapter q) from))))"

text \<open>Both token accounts are made first; SOL is wrapped into its account before it is sold.\<close>

definition wrap_ixs :: "harness_env \<Rightarrow> pubkey \<Rightarrow> pubkey \<Rightarrow> u64 \<Rightarrow> harness_error + instr list" where
  "wrap_ixs env from mint amount =
     (let account = sp_ata (he_spl env) from mint in
      and_then (ok_or SyncUnbuilt (sp_sync_native (he_spl env) account)) (\<lambda>sync.
      Inr [sys_transfer (he_sdk env) from account amount, sync]))"

definition harness_sign :: "harness_env \<Rightarrow> swap_answers \<Rightarrow> instr list \<Rightarrow> bytes \<Rightarrow> harness_error + signed_tx" where
  "harness_sign env w ixs blockhash =
     and_then (map_err SigningRefused (hsm_sign_answer (he_b64 env) (wa_sign w))) (\<lambda>sig.
     Inr \<lparr> st_instrs = ixs, st_blockhash = blockhash, st_signature = sig \<rparr>)"

section \<open>One swap on devnet\<close>

record swap_test_args =
  wt_rpc :: string
  wt_pool_id :: "string option"
  wt_input_mint :: "string option"
  wt_output_mint :: "string option"
  wt_amount :: u64
  wt_slippage :: u64
  wt_max_spend_sol :: f64
  wt_mock :: bool
  wt_dry_run :: bool

definition swap_test_ixs ::
    "harness_env \<Rightarrow> swap_answers \<Rightarrow> swap_test_args \<Rightarrow> pubkey \<Rightarrow> harness_error + instr list" where
  "swap_test_ixs env w a from =
     (if wt_mock a then Inr [sys_transfer (he_sdk env) from from 1000]
      else
        and_then (ok_or TargetMissing (wt_pool_id a)) (\<lambda>pool_text.
        and_then (ok_or TargetMissing (wt_input_mint a)) (\<lambda>input_text.
        and_then (ok_or TargetMissing (wt_output_mint a)) (\<lambda>output_text.
        and_then (ensure (wt_amount a \<le> sol_to_lamports (wt_max_spend_sol a)) OverSpendCap) (\<lambda>_.
        and_then (ok_or InvalidPoolKey (parse_pk (he_sdk env) pool_text)) (\<lambda>pool_id.
        and_then (ok_or InvalidInputKey (parse_pk (he_sdk env) input_text)) (\<lambda>input_mint.
        and_then (ok_or InvalidOutputKey (parse_pk (he_sdk env) output_text)) (\<lambda>output_mint.
        and_then (harness_swap env w (wt_rpc a) pool_text pool_id from input_mint output_mint (wt_amount a) (wt_slippage a)) (\<lambda>swap.
        and_then (if input_mint = key_of (he_sdk env) NATIVE_MINT then wrap_ixs env from input_mint (wt_amount a) else Inr []) (\<lambda>wrap.
        Inr ([sp_create_ata (he_spl env) from from input_mint, sp_create_ata (he_spl env) from from output_mint]
             @ wrap @ [swap])))))))))))"

text \<open>The result is the signature, confirmed unless the run is dry, paired with what was sent.\<close>

datatype swap_test_signature = SignedOnly bytes | ConfirmedTx string

definition devnet_swap_test ::
    "harness_env \<Rightarrow> swap_answers \<Rightarrow> swap_test_args \<Rightarrow> (harness_error + swap_test_signature) \<times> signed_tx list" where
  "devnet_swap_test env w a =
     (let prepared =
            and_then (ensure (contains ''devnet'' (wt_rpc a)) NotDevnet) (\<lambda>_.
            and_then (harness_signer env) (\<lambda>from.
            and_then (ok_or HashUnread (wa_hash w)) (\<lambda>blockhash.
            and_then (swap_test_ixs env w a from) (\<lambda>ixs.
            harness_sign env w ixs blockhash))))
      in case prepared of
           Inl e \<Rightarrow> (Inl e, [])
         | Inr tx \<Rightarrow>
             if wt_dry_run a then (Inr (SignedOnly (st_signature tx)), [])
             else (map_err SubmitFailed (and_then (submit_and_confirm (wa_sent w) (wa_polls w)) (\<lambda>sig. Inr (ConfirmedTx sig))), [tx]))"

section \<open>A round trip on devnet\<close>

record trip_args =
  ta_rpc :: string
  ta_pool_id :: string
  ta_input_mint :: string
  ta_output_mint :: string
  ta_amount :: u64
  ta_slippage :: u64
  ta_max_spend_sol :: f64
  ta_dry_run :: bool

text \<open>
  The answers of the run: the entry and the exit, the token accounts before the entry, after it and after the exit, the balance of the
  wallet, and the file, the clock and the writes of the risk manager.
\<close>

record trip_env = harness_env +
  te_entry :: swap_answers
  te_exit :: swap_answers
  te_before :: "pubkey \<Rightarrow> string + bytes option"
  te_after_entry :: "pubkey \<Rightarrow> string + bytes option"
  te_after_exit :: "pubkey \<Rightarrow> string + bytes option"
  te_balance :: "u64 option"
  te_staleness_env :: env_u64
  te_risk_file :: risk_file
  te_risk_now :: nat
  te_check :: risk_env
  te_trade :: risk_env
  te_open :: risk_env
  te_loss :: risk_env
  te_close :: risk_env

record trip_result =
  rt_mode :: string
  rt_entry_signature :: "bytes + string"    \<comment> \<open>of the signed transaction in a dry run, of the confirmed one else\<close>
  rt_token_received :: "u64 option"
  rt_quote_after_entry :: "u64 option"
  rt_exit_signature :: "string option"
  rt_proceeds :: "u64 option"
  rt_realized_pnl :: "i64 option"

record trip_target =
  tt_from :: pubkey
  tt_pool :: pubkey
  tt_input :: pubkey
  tt_output :: pubkey
  tt_config :: risk_config
  tt_risk :: risk_manager

definition RENT_HEADROOM :: u64 where "RENT_HEADROOM = 20000000"

text \<open>The guards, up to the check of the risk manager, which may poll its circuit breaker.\<close>

definition trip_preflight :: "trip_env \<Rightarrow> trip_args \<Rightarrow> harness_error + trip_target" where
  "trip_preflight env a =
     (let sdk = he_sdk env in
      and_then (ensure (contains ''devnet'' (ta_rpc a)) NotDevnet) (\<lambda>_.
      and_then (harness_signer (harness_env.truncate env)) (\<lambda>from.
      and_then (ensure (ta_amount a \<le> sol_to_lamports (ta_max_spend_sol a)) OverSpendCap) (\<lambda>_.
      and_then (ok_or BalanceUnread (te_balance env)) (\<lambda>balance.
      and_then (ensure (sat_add (ta_amount a) RENT_HEADROOM \<le> balance) Underfunded) (\<lambda>_.
      and_then (ok_or InvalidPoolKey (parse_pk sdk (ta_pool_id a))) (\<lambda>pool_id.
      and_then (ok_or InvalidInputKey (parse_pk sdk (ta_input_mint a))) (\<lambda>input_mint.
      and_then (ok_or InvalidOutputKey (parse_pk sdk (ta_output_mint a))) (\<lambda>output_mint.
      and_then (ensure (input_mint = key_of sdk NATIVE_MINT) NotNativeInput) (\<lambda>_.
      and_then (map_err RiskConfigFailed (production_defaults (te_staleness_env env))) (\<lambda>cfg.
      case pre_trade_check cfg (te_check env) (ta_amount a) (ta_slippage a) (risk_new (te_risk_now env) (te_risk_file env) []) of
        (Inl reason, rm) \<Rightarrow> Inl (RiskRejects reason)
      | (Inr _, rm) \<Rightarrow> Inr \<lparr> tt_from = from, tt_pool = pool_id, tt_input = input_mint, tt_output = output_mint,
                              tt_config = cfg, tt_risk = rm \<rparr>)))))))))))"

text \<open>The signed entry; the balances before it are read and must be readable, but are not used.\<close>

definition trip_entry_tx :: "trip_env \<Rightarrow> trip_args \<Rightarrow> trip_target \<Rightarrow> harness_error + signed_tx" where
  "trip_entry_tx env a t =
     (let he = harness_env.truncate env; sp = he_spl env; w = te_entry env; from = tt_from t in
      and_then (harness_swap he w (ta_rpc a) (ta_pool_id a) (tt_pool t) from (tt_input t) (tt_output t) (ta_amount a) (ta_slippage a)) (\<lambda>swap.
      and_then (map_err TokenUnread (token_ata_balance_raw sp (te_before env) from (tt_output t))) (\<lambda>_.
      and_then (map_err TokenUnread (token_ata_balance_raw sp (te_before env) from (tt_input t))) (\<lambda>_.
      and_then (wrap_ixs he from (tt_input t) (ta_amount a)) (\<lambda>wrap.
      and_then (ok_or HashUnread (wa_hash w)) (\<lambda>blockhash.
      harness_sign he w
        ([sp_create_ata sp from from (tt_input t), sp_create_ata sp from from (tt_output t)] @ wrap @ [swap]) blockhash))))))"

definition trip_exit_tx :: "trip_env \<Rightarrow> trip_args \<Rightarrow> trip_target \<Rightarrow> u64 \<Rightarrow> harness_error + signed_tx" where
  "trip_exit_tx env a t sell_amount =
     (let he = harness_env.truncate env; sp = he_spl env; w = te_exit env; from = tt_from t in
      and_then (harness_swap he w (ta_rpc a) (ta_pool_id a) (tt_pool t) from (tt_output t) (tt_input t) sell_amount (ta_slippage a)) (\<lambda>swap.
      and_then (ok_or HashUnread (wa_hash w)) (\<lambda>blockhash.
      harness_sign he w
        [sp_create_ata sp from from (tt_output t), sp_create_ata sp from from (tt_input t), swap] blockhash)))"

definition or_zero :: "u64 option \<Rightarrow> u64" where
  "or_zero v = (case v of Some x \<Rightarrow> x | None \<Rightarrow> 0)"

text \<open>After the exit: the proceeds, the loss and the books.\<close>

definition trip_settle ::
    "trip_env \<Rightarrow> trip_args \<Rightarrow> trip_target \<Rightarrow> risk_manager \<Rightarrow> string \<Rightarrow> string \<Rightarrow> u64 \<Rightarrow> u64
       \<Rightarrow> (harness_error + trip_result) \<times> risk_manager" where
  "trip_settle env a t rm entry_sig exit_sig token_after quote_after =
     (case token_ata_balance_raw (he_spl env) (te_after_exit env) (tt_from t) (tt_input t) of
        Inl e \<Rightarrow> (Inl (TokenUnread e), rm)
      | Inr v \<Rightarrow>
          let proceeds = sat_sub (or_zero v) quote_after
          in if proceeds = 0 then (Inl NoProceeds, rm)
             else
               let pnl = realized_pnl (ta_amount a) proceeds;
                   (r, rm) = (if pnl < 0 then record_loss (tt_config t) (te_loss env) (of_int \<bar>pnl\<bar>) rm else (Inr (), rm))
               in case r of
                    Inl e \<Rightarrow> (Inl (LossRecorded e), rm)
                  | Inr _ \<Rightarrow>
                      let rm = record_position_close (te_close env) (ta_amount a) rm
                      in if pnl \<noteq> realized_pnl (ta_amount a) proceeds then (Inl PnlMismatch, rm)
                         else (Inr \<lparr> rt_mode = ''entry_exit_round_trip'', rt_entry_signature = Inr entry_sig,
                                     rt_token_received = Some token_after, rt_quote_after_entry = Some quote_after,
                                     rt_exit_signature = Some exit_sig, rt_proceeds = Some proceeds, rt_realized_pnl = Some pnl \<rparr>, rm))"

text \<open>After the entry is confirmed: the tokens, the books, and the exit.\<close>

definition trip_hold ::
    "trip_env \<Rightarrow> trip_args \<Rightarrow> trip_target \<Rightarrow> string \<Rightarrow> (harness_error + trip_result) \<times> risk_manager \<times> signed_tx list" where
  "trip_hold env a t entry_sig =
     (case token_ata_balance_raw (he_spl env) (te_after_entry env) (tt_from t) (tt_output t) of
        Inl e \<Rightarrow> (Inl (TokenUnread e), tt_risk t, [])
      | Inr held \<Rightarrow>
          if or_zero held = 0 then (Inl NothingReceived, tt_risk t, [])
          else case token_ata_balance_raw (he_spl env) (te_after_entry env) (tt_from t) (tt_input t) of
                 Inl e \<Rightarrow> (Inl (TokenUnread e), tt_risk t, [])
               | Inr quote_after \<Rightarrow>
                   let rm = record_position_open (te_open env) (ta_amount a) (record_trade (tt_config t) (te_trade env) (tt_risk t))
                   in case trip_exit_tx env a t (or_zero held) of
                        Inl e \<Rightarrow> (Inl e, rm, [])
                      | Inr tx \<Rightarrow>
                          case submit_and_confirm (wa_sent (te_exit env)) (wa_polls (te_exit env)) of
                            Inl e \<Rightarrow> (Inl (SubmitFailed e), rm, [tx])
                          | Inr exit_sig \<Rightarrow>
                              case trip_settle env a t rm entry_sig exit_sig (or_zero held) (or_zero quote_after) of
                                (r, rm) \<Rightarrow> (r, rm, [tx]))"

text \<open>The run: its result, the risk manager once there is one, and what was sent.\<close>

definition devnet_round_trip ::
    "trip_env \<Rightarrow> trip_args \<Rightarrow> (harness_error + trip_result) \<times> risk_manager option \<times> signed_tx list" where
  "devnet_round_trip env a =
     (case trip_preflight env a of
        Inl e \<Rightarrow> (Inl e, None, [])
      | Inr t \<Rightarrow>
          case trip_entry_tx env a t of
            Inl e \<Rightarrow> (Inl e, Some (tt_risk t), [])
          | Inr tx \<Rightarrow>
              if ta_dry_run a
              then (Inr \<lparr> rt_mode = ''entry_dry_run'', rt_entry_signature = Inl (st_signature tx), rt_token_received = None,
                          rt_quote_after_entry = None, rt_exit_signature = None, rt_proceeds = None, rt_realized_pnl = None \<rparr>,
                    Some (tt_risk t), [])
              else case submit_and_confirm (wa_sent (te_entry env)) (wa_polls (te_entry env)) of
                     Inl e \<Rightarrow> (Inl (SubmitFailed e), Some (tt_risk t), [tx])
                   | Inr entry_sig \<Rightarrow> (case trip_hold env a t entry_sig of (r, rm, sent) \<Rightarrow> (r, Some rm, tx # sent)))"

section \<open>Properties\<close>

text \<open>A swap instruction that sells an amount: the discriminator, then the amount.\<close>

definition sells :: "u64 \<Rightarrow> instr \<Rightarrow> bool" where
  "sells n ix \<longleftrightarrow> take 16 (ix_bytes ix) = SWAP_DISCRIMINATOR @ to_le_bytes 8 n"

lemma trip_map_err: "map_err f r = Inr x \<longleftrightarrow> r = Inr x"
  by (cases r) (simp_all add: map_err_def)

lemma harness_swap_sells:
  assumes "harness_swap env w rpc pool_text pool_id from im om amount slippage = Inr ix"
  shows "sells amount ix"
proof -
  obtain a q where q: "adapter_quote a amount slippage = Inr q"
    and b: "build_swap_instruction (he_sdk env) a (build_intent (he_sdk env) a q) from = Inr ix"
    using assms by (auto simp: harness_swap_def ok_iff trip_map_err Let_def)
  have "q_input_amount q = amount" using q by (auto simp: adapter_quote_def Let_def split: option.splits)
  then show ?thesis
    using b by (auto simp: build_swap_instruction_def ok_iff build_intent_def sells_def SWAP_DISCRIMINATOR_def to_le_bytes_def)
qed

lemma wrap_ixs_Inr:
  "wrap_ixs env from mint amount = Inr ws \<Longrightarrow>
     \<exists>sync. ws = [sys_transfer (he_sdk env) from (sp_ata (he_spl env) from mint) amount, sync]"
  by (auto simp: wrap_ixs_def ok_iff Let_def)

lemma harness_sign_Inr: "harness_sign env w ixs h = Inr tx \<Longrightarrow> st_instrs tx = ixs"
  by (auto simp: harness_sign_def ok_iff)

lemma truncate_env [simp]:
  "he_sdk (harness_env.truncate env) = he_sdk env" "he_spl (harness_env.truncate env) = he_spl env"
  by (simp_all add: harness_env.truncate_def)

lemma trip_entry_Inr:
  assumes "trip_entry_tx env a t = Inr tx"
  shows "\<exists>create_in create_out sync swap.
           st_instrs tx = [create_in, create_out,
             sys_transfer (he_sdk env) (tt_from t) (sp_ata (he_spl env) (tt_from t) (tt_input t)) (ta_amount a), sync, swap]
           \<and> sells (ta_amount a) swap"
proof -
  obtain swap ws h where "sells (ta_amount a) swap" "wrap_ixs (harness_env.truncate env) (tt_from t) (tt_input t) (ta_amount a) = Inr ws"
    and "st_instrs tx = [sp_create_ata (he_spl env) (tt_from t) (tt_from t) (tt_input t),
           sp_create_ata (he_spl env) (tt_from t) (tt_from t) (tt_output t)] @ ws @ [swap]"
    using assms unfolding trip_entry_tx_def Let_def
    by (auto simp: ok_iff dest!: harness_swap_sells harness_sign_Inr)
  then show ?thesis by (auto dest!: wrap_ixs_Inr)
qed

lemma trip_exit_Inr:
  assumes "trip_exit_tx env a t n = Inr tx"
  shows "\<exists>create_in create_out swap. st_instrs tx = [create_in, create_out, swap] \<and> sells n swap"
  using assms unfolding trip_exit_tx_def Let_def
  by (auto simp: ok_iff dest!: harness_swap_sells harness_sign_Inr)

lemma trip_caps:
  "production_defaults e = Inr cfg \<Longrightarrow> rc_max_open_positions cfg = 1 \<and> rc_max_total_exposure cfg = 50000000
     \<and> rc_daily_loss_limit cfg = 200000000"
  by (auto simp: production_defaults_def Let_def split: env_u64.splits sum.splits)

lemma check_case:
  "(case p of (Inl r, rm) \<Rightarrow> Inl (f r) | (Inr u, rm) \<Rightarrow> Inr (g rm)) = Inr t \<longleftrightarrow> (\<exists>rm. p = (Inr (), rm) \<and> t = g rm)"
  by (cases p; cases "fst p") auto

lemma check_keeps_books:
  "pre_trade_check cfg env n slip rm0 = (r, rm) \<Longrightarrow>
     rm_open_positions rm = rm_open_positions rm0 \<and> rm_open_exposure rm = rm_open_exposure rm0
     \<and> rm_loss rm = rm_loss rm0 \<and> rm_loss_date rm = rm_loss_date rm0"
  by (auto simp: pre_trade_check_def is_circuit_breaker_active_def Let_def split: if_splits)

lemma trip_preflight_Inr:
  assumes "trip_preflight env a = Inr t"
  shows "contains ''devnet'' (ta_rpc a)" "ta_amount a \<le> sol_to_lamports (ta_max_spend_sol a)"
    "tt_input t = key_of (he_sdk env) NATIVE_MINT" "rm_open_positions (tt_risk t) = 0"
    "rm_open_exposure (tt_risk t) = rm_open_exposure (risk_new (te_risk_now env) (te_risk_file env) [])"
    "unat (rm_open_exposure (tt_risk t)) + unat (ta_amount a) \<le> 50000000"
    "rm_loss (tt_risk t) = rm_loss (risk_new (te_risk_now env) (te_risk_file env) [])"
    "rm_loss_date (tt_risk t) = rm_loss_date (risk_new (te_risk_now env) (te_risk_file env) [])"
    "rc_daily_loss_limit (tt_config t) = 200000000"
proof -
  let ?rm0 = "risk_new (te_risk_now env) (te_risk_file env) []"
  obtain cfg where guards: "contains ''devnet'' (ta_rpc a)" "ta_amount a \<le> sol_to_lamports (ta_max_spend_sol a)"
      "tt_input t = key_of (he_sdk env) NATIVE_MINT" "tt_config t = cfg"
    and cfg: "production_defaults (te_staleness_env env) = Inr cfg"
    and check: "pre_trade_check cfg (te_check env) (ta_amount a) (ta_slippage a) ?rm0 = (Inr (), tt_risk t)"
    using assms unfolding trip_preflight_def Let_def
    by (auto simp: ok_iff trip_map_err check_case)
  show "contains ''devnet'' (ta_rpc a)" "ta_amount a \<le> sol_to_lamports (ta_max_spend_sol a)"
    "tt_input t = key_of (he_sdk env) NATIVE_MINT" by (fact guards)+
  show "rc_daily_loss_limit (tt_config t) = 200000000" using guards(4) trip_caps [OF cfg] by simp
  have caps: "rm_open_positions ?rm0 < 1"
      "min (unat (rm_open_exposure ?rm0) + unat (ta_amount a)) (2 ^ 64 - 1) \<le> 50000000"
    using pre_trade_ok_iff [of cfg "te_check env" "ta_amount a" "ta_slippage a" ?rm0] check trip_caps [OF cfg] by auto
  have same: "rm_open_positions (tt_risk t) = rm_open_positions ?rm0" "rm_open_exposure (tt_risk t) = rm_open_exposure ?rm0"
    using check_keeps_books [OF check] by blast+
  show "rm_loss (tt_risk t) = rm_loss ?rm0" "rm_loss_date (tt_risk t) = rm_loss_date ?rm0"
    using check_keeps_books [OF check] by blast+
  show "rm_open_positions (tt_risk t) = 0" using caps(1) unfolding same by (simp add: word_less_nat_alt unat_eq_0)
  show "rm_open_exposure (tt_risk t) = rm_open_exposure ?rm0" by (fact same)
  show "unat (rm_open_exposure (tt_risk t)) + unat (ta_amount a) \<le> 50000000" using caps(2) unfolding same by simp
qed

lemma trip_loss_fields:
  "rm_open_positions (snd (record_loss cfg env n rm)) = rm_open_positions rm"
  "rm_open_exposure (snd (record_loss cfg env n rm)) = rm_open_exposure rm"
  by (simp_all add: record_loss_def Let_def)

lemma record_loss_Inr:
  "record_loss cfg env n rm = (Inr (), rm') \<Longrightarrow>
     rm_loss rm' = sat_add (if rm_loss_date rm = env_today env then rm_loss rm else 0) n \<and> rm_loss rm' < rc_daily_loss_limit cfg"
  by (auto simp: record_loss_def Let_def split: if_splits)

lemma trip_settle_Inl:
  "trip_settle env a t rm es xs token quote_after = (Inl e, rm') \<Longrightarrow> rm_open_positions rm' = rm_open_positions rm"
  using trip_loss_fields [of "tt_config t" "te_loss env"]
  by (auto simp: trip_settle_def Let_def split: sum.splits if_splits prod.splits dest: sym) (metis snd_conv)+

lemma trip_settle_Inr:
  assumes "trip_settle env a t rm es xs token quote_after = (Inr res, rm')"
  shows "rm_open_positions rm' = sat_sub (rm_open_positions rm) 1 \<and> rm_open_exposure rm' = sat_sub (rm_open_exposure rm) (ta_amount a)
    \<and> (\<exists>v p. token_ata_balance_raw (he_spl env) (te_after_exit env) (tt_from t) (tt_input t) = Inr v
         \<and> p = sat_sub (or_zero v) quote_after \<and> 0 < p \<and> rt_proceeds res = Some p
         \<and> rt_token_received res = Some token \<and> rt_realized_pnl res = Some (realized_pnl (ta_amount a) p)
         \<and> (if realized_pnl (ta_amount a) p < 0
             then rm_loss rm' = sat_add (if rm_loss_date rm = env_today (te_loss env) then rm_loss rm else 0)
                                  (of_int \<bar>realized_pnl (ta_amount a) p\<bar>)
                  \<and> rm_loss rm' < rc_daily_loss_limit (tt_config t)
             else rm_loss rm' = rm_loss rm))"
proof -
  obtain v where v: "token_ata_balance_raw (he_spl env) (te_after_exit env) (tt_from t) (tt_input t) = Inr v"
    using assms by (auto simp: trip_settle_def split: sum.splits)
  define p where "p = sat_sub (or_zero v) quote_after"
  define pnl where "pnl = realized_pnl (ta_amount a) p"
  let ?loss = "if pnl < 0 then record_loss (tt_config t) (te_loss env) (of_int \<bar>pnl\<bar>) rm else (Inr (), rm)"
  obtain rm1 where rm1: "?loss = (Inr (), rm1)" "p \<noteq> 0" "rm' = record_position_close (te_close env) (ta_amount a) rm1"
    and res: "rt_proceeds res = Some p" "rt_token_received res = Some token" "rt_realized_pnl res = Some pnl"
    using assms unfolding trip_settle_def v sum.case Let_def p_def [symmetric] pnl_def [symmetric]
    by (cases ?loss) (auto split: if_splits sum.splits)
  have books: "rm_open_positions rm1 = rm_open_positions rm" "rm_open_exposure rm1 = rm_open_exposure rm"
    using rm1(1) trip_loss_fields [of "tt_config t" "te_loss env" "of_int \<bar>pnl\<bar>" rm] by (auto split: if_splits)
  have loss: "if pnl < 0
      then rm_loss rm1 = sat_add (if rm_loss_date rm = env_today (te_loss env) then rm_loss rm else 0) (of_int \<bar>pnl\<bar>)
        \<and> rm_loss rm1 < rc_daily_loss_limit (tt_config t)
      else rm_loss rm1 = rm_loss rm"
  proof (cases "pnl < 0")
    case True
    then have L: "record_loss (tt_config t) (te_loss env) (of_int \<bar>pnl\<bar>) rm = (Inr (), rm1)" using rm1(1) by simp
    show ?thesis unfolding if_P [OF True] by (rule record_loss_Inr [OF L])
  next
    case False
    then show ?thesis using rm1(1) by simp
  qed
  have closed: "rm_loss rm' = rm_loss rm1" "rm_open_positions rm' = sat_sub (rm_open_positions rm) 1"
      "rm_open_exposure rm' = sat_sub (rm_open_exposure rm) (ta_amount a)"
    by (simp_all add: rm1(3) record_position_close_def books)
  have "0 < p" using rm1(2) by (simp add: word_neq_0_conv)
  then show ?thesis
    unfolding closed(1) using closed(2,3) v res loss unfolding pnl_def
    by (intro conjI exI [of _ v] exI [of _ p]) (assumption | rule p_def)+
qed

text \<open>What \<open>send_transfer\<close> sends: nothing in a dry run, and else one transfer of the configured amount, with no tip.\<close>

lemma transfer_sent:
  "case send_transfer sdk a wallet latest simulate send of
     (_, []) \<Rightarrow> True
   | (res, [tx]) \<Rightarrow> \<not> xa_dry_run a \<and> (\<exists>payer sign dest. wallet = Some (payer, sign) \<and> parse_pk sdk (xa_to a) = Some dest
       \<and> st_instrs tx = [set_compute_unit_price_ix sdk (xa_priority_fee a), set_compute_unit_limit_ix sdk (xa_compute_units a),
                          sys_transfer sdk payer dest (sol_to_lamports (xa_amount a))]
       \<and> (case res of Reported r ok \<Rightarrow> ok = xr_success r \<and> xr_success r = (send tx \<noteq> None) | _ \<Rightarrow> False))
   | _ \<Rightarrow> False"
  by (auto simp: send_transfer_def Let_def split: option.split)

text \<open>The harnesses attach whatever 64 bytes the HSM returns: the placeholder of a failed request becomes a signature.\<close>

lemma harness_attaches_placeholder:
  assumes "wa_sign w = Some \<lparr> ha_success = True, ha_body = Some (JObject [(''signature'', JString s)]) \<rparr>"
    and "he_b64 env s = Some (replicate 64 0)"
  shows "harness_sign env w ixs h = Inr \<lparr> st_instrs = ixs, st_blockhash = h, st_signature = default_signature \<rparr>"
  using assms by (simp add: harness_sign_def hsm_sign_answer_def default_signature_def map_err_def ok_or_def ensure_def json_str_def)

text \<open>The swap test sends one transaction at most, on devnet; unless it is the mock transfer it sells the capped amount.\<close>

lemma swap_test_guarded:
  "case devnet_swap_test env w a of
     (_, []) \<Rightarrow> True
   | (_, [tx]) \<Rightarrow> contains ''devnet'' (wt_rpc a) \<and> \<not> wt_dry_run a
       \<and> (if wt_mock a then \<exists>from. st_instrs tx = [sys_transfer (he_sdk env) from from 1000]
          else wt_amount a \<le> sol_to_lamports (wt_max_spend_sol a) \<and> sells (wt_amount a) (last (st_instrs tx)))
   | _ \<Rightarrow> False"
proof (cases "snd (devnet_swap_test env w a)")
  case Nil
  then show ?thesis by (auto split: prod.split)
next
  case (Cons tx rest)
  then obtain payer ixs h where one: "rest = []" "\<not> wt_dry_run a" and dev: "contains ''devnet'' (wt_rpc a)"
    and ixs: "swap_test_ixs env w a payer = Inr ixs" and sign: "harness_sign env w ixs h = Inr tx"
    by (auto simp: devnet_swap_test_def Let_def ok_iff split: sum.splits if_splits)
  have "if wt_mock a then \<exists>from. ixs = [sys_transfer (he_sdk env) from from 1000]
        else wt_amount a \<le> sol_to_lamports (wt_max_spend_sol a) \<and> sells (wt_amount a) (last ixs)"
    using ixs by (auto simp: swap_test_ixs_def ok_iff dest!: harness_swap_sells)
  then show ?thesis
    using Cons one dev harness_sign_Inr [OF sign] by (auto split: prod.split)
qed

definition trip_booked :: "trip_env \<Rightarrow> trip_args \<Rightarrow> trip_target \<Rightarrow> risk_manager" where
  "trip_booked env a t = record_position_open (te_open env) (ta_amount a) (record_trade (tt_config t) (te_trade env) (tt_risk t))"

lemma trip_booked_fields:
  "rm_open_positions (trip_booked env a t) = rm_open_positions (tt_risk t) + 1"
  "rm_open_exposure (trip_booked env a t) = rm_open_exposure (tt_risk t) + ta_amount a"
  "rm_loss (trip_booked env a t) = rm_loss (tt_risk t)"
  "rm_loss_date (trip_booked env a t) = rm_loss_date (tt_risk t)"
  by (simp_all add: trip_booked_def record_position_open_def record_trade_def Let_def trigger_kill_switch_def write_audit_def)

text \<open>The cases of a run that sold: the exit was signed for the balance after the entry.\<close>

lemma trip_hold_sent:
  assumes "trip_hold env a t es = (r, rm, sent)"
  shows "sent = [] \<or> (\<exists>held tx. token_ata_balance_raw (he_spl env) (te_after_entry env) (tt_from t) (tt_output t) = Inr (Some held)
           \<and> 0 < held \<and> trip_exit_tx env a t held = Inr tx \<and> sent = [tx]
           \<and> (case r of Inl e \<Rightarrow> rm_open_positions rm = rm_open_positions (trip_booked env a t)
              | Inr res \<Rightarrow> \<exists>xs qa. token_ata_balance_raw (he_spl env) (te_after_entry env) (tt_from t) (tt_input t) = Inr qa
                  \<and> trip_settle env a t (trip_booked env a t) es xs held (or_zero qa) = (Inr res, rm)))"
proof (cases "token_ata_balance_raw (he_spl env) (te_after_entry env) (tt_from t) (tt_output t)")
  case (Inl e)
  then show ?thesis using assms by (simp add: trip_hold_def)
next
  case (Inr h)
  show ?thesis
  proof (cases "or_zero h = 0")
    case True
    then show ?thesis using assms Inr by (simp add: trip_hold_def)
  next
    case False
    then obtain held where held: "h = Some held" "0 < held" by (cases h) (simp_all add: or_zero_def word_neq_0_conv)
    show ?thesis
      using assms held Inr trip_settle_Inl [of env a t "trip_booked env a t" es]
      by (auto simp: trip_hold_def trip_booked_def [symmetric] Let_def or_zero_def split: sum.splits prod.splits if_splits)
  qed
qed

lemma sat_sub_add: "unat x + unat y < 2 ^ 64 \<Longrightarrow> sat_sub (x + y) y = (x :: u64)"
  by (simp add: sat_sub_def word_less_nat_alt unat_add_small)

lemma sat_sub_gain: "0 < sat_sub x (y :: u64) \<Longrightarrow> unat (sat_sub x y) + unat y = unat x"
  by (simp add: sat_sub_def unat_sub word_le_nat_alt word_less_nat_alt split: if_splits)

lemma trip_hold_unsent: "trip_hold env a t es = (r, rm, []) \<Longrightarrow> \<exists>e. r = Inl e"
  by (auto simp: trip_hold_def Let_def split: sum.splits prod.splits if_splits)

lemma trip_sent:
  assumes "devnet_round_trip env a = (r, orm, entry # rest)"
  shows "\<exists>t. trip_preflight env a = Inr t \<and> trip_entry_tx env a t = Inr entry \<and> \<not> ta_dry_run a
           \<and> (rest = [] \<and> (\<exists>e. r = Inl e) \<or> (\<exists>es rm. trip_hold env a t es = (r, rm, rest) \<and> orm = Some rm))"
  using assms by (auto simp: devnet_round_trip_def split: sum.splits if_splits prod.splits)

text \<open>
  The round trip on devnet is guarded: whatever the node, the HSM and the clock answer, nothing is sent to an endpoint that does not
  name devnet, nothing in a dry run and nothing above the spend cap; at most two transactions are sent, first an entry that wraps and sells
  exactly the configured amount of SOL, then an exit that sells exactly the balance of the token read after the entry.
\<close>

theorem round_trip_guarded:
  "case devnet_round_trip env a of
     (_, _, []) \<Rightarrow> True
   | (_, _, entry # rest) \<Rightarrow>
       contains ''devnet'' (ta_rpc a) \<and> \<not> ta_dry_run a \<and> ta_amount a \<le> sol_to_lamports (ta_max_spend_sol a)
       \<and> (\<exists>from mint create_in create_out sync swap.
            st_instrs entry = [create_in, create_out,
              sys_transfer (he_sdk env) from (sp_ata (he_spl env) from (key_of (he_sdk env) NATIVE_MINT)) (ta_amount a), sync, swap]
            \<and> sells (ta_amount a) swap
            \<and> (case rest of
                 [] \<Rightarrow> True
               | exit_tx # more_txs \<Rightarrow> more_txs = []
                   \<and> (\<exists>held create_in create_out swap.
                        token_ata_balance_raw (he_spl env) (te_after_entry env) from mint = Inr (Some held) \<and> 0 < held
                        \<and> st_instrs exit_tx = [create_in, create_out, swap] \<and> sells held swap)))"
proof -
  obtain r orm sent where run: "devnet_round_trip env a = (r, orm, sent)" by (cases "devnet_round_trip env a")
  show ?thesis
  proof (cases sent)
    case Nil
    then show ?thesis by (simp add: run)
  next
    case (Cons entry rest)
    obtain t where t: "trip_preflight env a = Inr t" "trip_entry_tx env a t = Inr entry" "\<not> ta_dry_run a"
      and rest: "rest = [] \<or> (\<exists>es rm. trip_hold env a t es = (r, rm, rest))"
      using trip_sent [OF run [unfolded Cons]] by blast
    note guards = trip_preflight_Inr(1,2,3) [OF t(1)]
    have "rest = [] \<or> (\<exists>held tx. token_ata_balance_raw (he_spl env) (te_after_entry env) (tt_from t) (tt_output t) = Inr (Some held)
        \<and> 0 < held \<and> trip_exit_tx env a t held = Inr tx \<and> rest = [tx])"
      using rest trip_hold_sent by blast
    then have exit: "case rest of [] \<Rightarrow> True | exit_tx # more_txs \<Rightarrow> more_txs = []
        \<and> (\<exists>held create_in create_out swap.
             token_ata_balance_raw (he_spl env) (te_after_entry env) (tt_from t) (tt_output t) = Inr (Some held) \<and> 0 < held
             \<and> st_instrs exit_tx = [create_in, create_out, swap] \<and> sells held swap)"
      using trip_exit_Inr by (auto split: list.split)
    obtain ci co sy sw where "st_instrs entry = [ci, co, sys_transfer (he_sdk env) (tt_from t)
        (sp_ata (he_spl env) (tt_from t) (key_of (he_sdk env) NATIVE_MINT)) (ta_amount a), sy, sw]" "sells (ta_amount a) sw"
      using trip_entry_Inr [OF t(2), unfolded guards(3)] by blast
    then show ?thesis
      unfolding run Cons prod.case list.case using guards(1,2) t(3) exit
      by (intro conjI exI [of _ "tt_from t"] exI [of _ "tt_output t"] exI [of _ ci] exI [of _ co] exI [of _ sy] exI [of _ sw])
  qed
qed

text \<open>
  The round trip keeps its books: a run that ends well has sent both transactions and its risk manager is back at no open position and
  the exposure it was loaded with, the reported result is the measured gain of the wallet less the amount, and a loss has been added to
  the loss of the day and left it below the limit; a run whose exit was signed but not settled still counts the position as open.
\<close>

theorem round_trip_keeps_books:
  "case devnet_round_trip env a of
     (Inr res, Some rm, [entry, exit_tx]) \<Rightarrow>
       rm_open_positions rm = 0
       \<and> rm_open_exposure rm = rm_open_exposure (risk_new (te_risk_now env) (te_risk_file env) [])
       \<and> (\<exists>owner after before p.
            token_ata_balance_raw (he_spl env) (te_after_entry env) owner (key_of (he_sdk env) NATIVE_MINT) = Inr before
            \<and> token_ata_balance_raw (he_spl env) (te_after_exit env) owner (key_of (he_sdk env) NATIVE_MINT) = Inr after
            \<and> unat p + unat (or_zero before) = unat (or_zero after) \<and> 0 < p
            \<and> rt_proceeds res = Some p \<and> rt_realized_pnl res = Some (realized_pnl (ta_amount a) p)
            \<and> (let rm0 = risk_new (te_risk_now env) (te_risk_file env) [] in
               if realized_pnl (ta_amount a) p < 0
               then rm_loss rm = sat_add (if rm_loss_date rm0 = env_today (te_loss env) then rm_loss rm0 else 0)
                                   (of_int \<bar>realized_pnl (ta_amount a) p\<bar>)
                    \<and> rm_loss rm < 200000000
               else rm_loss rm = rm_loss rm0))
   | (Inr res, _, sent) \<Rightarrow> ta_dry_run a \<and> sent = []
   | (Inl e, Some rm, [entry, exit_tx]) \<Rightarrow> rm_open_positions rm = 1
   | (Inl e, _, sent) \<Rightarrow> length sent \<le> 1"
proof -
  obtain r orm sent where run: "devnet_round_trip env a = (r, orm, sent)" by (cases "devnet_round_trip env a")
  show ?thesis
  proof (cases sent)
    case Nil
    have "r = Inr res \<Longrightarrow> ta_dry_run a" for res
      using run Nil by (auto simp: devnet_round_trip_def split: sum.splits if_splits prod.splits)
    then show ?thesis unfolding run Nil by (auto split: sum.split option.split)
  next
    case (Cons entry rest)
    obtain t where t: "trip_preflight env a = Inr t"
      and rest: "rest = [] \<and> (\<exists>e. r = Inl e) \<or> (\<exists>es rm. trip_hold env a t es = (r, rm, rest) \<and> orm = Some rm)"
      using trip_sent [OF run [unfolded Cons]] by blast
    show ?thesis
    proof (cases rest)
      case Nil
      have "\<exists>e. r = Inl e" using rest unfolding Nil by (auto dest: trip_hold_unsent)
      then show ?thesis unfolding run Cons Nil by (auto split: option.split)
    next
      case (Cons exit_tx more_txs)
      then obtain es rm where hold: "trip_hold env a t es = (r, rm, rest)" "orm = Some rm" using rest by auto
      have one: "rest = [exit_tx]" using trip_hold_sent [OF hold(1)] Cons by auto
      note books = trip_booked_fields [of env a t] trip_preflight_Inr(4-8) [OF t]
      show ?thesis
      proof (cases r)
        case (Inl e)
        have "rm_open_positions rm = 1" using trip_hold_sent [OF hold(1)] books Inl one by auto
        then show ?thesis unfolding run \<open>sent = entry # rest\<close> one hold(2) Inl by simp
      next
        case (Inr res)
        obtain held xs qa where qa: "token_ata_balance_raw (he_spl env) (te_after_entry env) (tt_from t) (tt_input t) = Inr qa"
          and settle: "trip_settle env a t (trip_booked env a t) es xs held (or_zero qa) = (Inr res, rm)"
          using trip_hold_sent [OF hold(1)] one Inr by auto
        define rm0 where "rm0 = risk_new (te_risk_now env) (te_risk_file env) []"
        obtain v p where v: "token_ata_balance_raw (he_spl env) (te_after_exit env) (tt_from t) (key_of (he_sdk env) NATIVE_MINT) = Inr v"
          and p: "p = sat_sub (or_zero v) (or_zero qa)" "0 < p" "rt_proceeds res = Some p"
            "rt_realized_pnl res = Some (realized_pnl (ta_amount a) p)"
          and rm: "rm_open_positions rm = sat_sub (rm_open_positions (trip_booked env a t)) 1"
            "rm_open_exposure rm = sat_sub (rm_open_exposure (trip_booked env a t)) (ta_amount a)"
          and loss: "if realized_pnl (ta_amount a) p < 0
              then rm_loss rm = sat_add (if rm_loss_date rm0 = env_today (te_loss env) then rm_loss rm0 else 0)
                                  (of_int \<bar>realized_pnl (ta_amount a) p\<bar>)
                   \<and> rm_loss rm < 200000000
              else rm_loss rm = rm_loss rm0"
          using trip_settle_Inr [OF settle] trip_preflight_Inr(3,9) [OF t] books unfolding rm0_def by (auto simp only:)
        have "rm_open_positions rm = 0" unfolding rm(1) using books(1,5) by (simp add: sat_sub_def)
        moreover have "rm_open_exposure rm = rm_open_exposure rm0"
          unfolding rm(2) rm0_def using books sat_sub_add by simp
        moreover have "unat p + unat (or_zero qa) = unat (or_zero v)" using p(1,2) sat_sub_gain by blast
        ultimately show ?thesis
          unfolding run \<open>sent = entry # rest\<close> one hold(2) Inr prod.case sum.case option.case list.case Let_def rm0_def [symmetric]
          using v p(2-4) loss qa [unfolded trip_preflight_Inr(3) [OF t]]
          by (intro conjI exI [of _ "tt_from t"] exI [of _ v] exI [of _ qa] exI [of _ p])
      qed
    qed
  qed
qed

end
