(* ===== verification/Discovery_Feed.thy ===== *)
theory Discovery_Feed
  imports Supervisor_Config
begin

text \<open>
  \<open>solana-sniper/src/bin/pool_sniper.rs\<close>: the two background sources of the supervisor, the log stream of the CLMM program and the
  GeckoTerminal poller, with the bounded channel they feed, and the text of the metrics.  A source runs beside the supervisor, which
  may take events at any time: every attempt to send carries the number of events taken since the one before, the clock, and whether the
  receiver is gone.  The subscription, the HTTP client and the parser of a page are arguments.  The status here is the feed's share of the
  program's: its \<open>st_signatures_evicted\<close> counts the events dropped at the channel, while the supervisor adds to the same counter what falls out
  of its own queues after it received it (\<open>receive_event\<close> in \<open>Supervisor\<close>).
\<close>

section \<open>The channel\<close>

definition SIGNATURE_CHANNEL_CAP :: nat where "SIGNATURE_CHANNEL_CAP = 1024"

record feed =
  fd_status :: status
  fd_queue :: "discovery_event list"
  fd_taken :: "discovery_event list"    \<comment> \<open>what the supervisor has received, in order\<close>

definition discovery_feed_new :: feed where
  "discovery_feed_new = \<lparr> fd_status = fresh_status, fd_queue = [], fd_taken = [] \<rparr>"

record send_moment =
  mo_taken :: nat
  mo_now :: u64
  mo_gone :: bool

definition on_feed_status :: "(status \<Rightarrow> status) \<Rightarrow> feed \<Rightarrow> feed" where
  "on_feed_status f s = s\<lparr>fd_status := f (fd_status s)\<rparr>"

definition receive :: "nat \<Rightarrow> feed \<Rightarrow> feed" where
  "receive n s = s\<lparr>fd_queue := drop n (fd_queue s), fd_taken := fd_taken s @ take n (fd_queue s)\<rparr>"

text \<open>Announce a pool and try to send it: a full channel is a gap, and without a receiver the source ends.\<close>

definition announce :: "send_moment \<Rightarrow> discovery_event \<Rightarrow> feed \<Rightarrow> bool \<times> feed" where
  "announce m ev s =
     (let s = on_feed_status (bump CreatePoolSeen) (receive (mo_taken m) s) in
      if mo_gone m then (False, s)
      else if SIGNATURE_CHANNEL_CAP \<le> length (fd_queue s) then (True, on_feed_status (gap (mo_now m) Evicted) s)
      else (True, s\<lparr>fd_queue := fd_queue s @ [ev]\<rparr>))"

section \<open>The log stream\<close>

datatype log_event = LogMessage send_moment bool "string list" string | StreamEnded u64 | ShutdownNoted

datatype listen_end = StillRunning | SessionOver | ReceiverGone

definition heard :: "u64 \<Rightarrow> feed \<Rightarrow> feed" where
  "heard now s = on_feed_status (\<lambda>st. st\<lparr>st_ws_ms := now\<rparr>) s"

text \<open>A message carries whether its transaction succeeded, its log lines and its signature.\<close>

fun log_session :: "log_event list \<Rightarrow> feed \<Rightarrow> listen_end \<times> feed" where
  "log_session [] s = (StillRunning, s)"
| "log_session (ShutdownNoted # evs) s = (SessionOver, s)"
| "log_session (StreamEnded now # evs) s = (SessionOver, on_feed_status (gap now Reconnects) s)"
| "log_session (LogMessage m succeeded logs sig # evs) s =
     (let s = heard (mo_now m) s in
      if succeeded \<and> logs_contain_create_pool logs
      then (case announce m (Signature sig) s of (True, s) \<Rightarrow> log_session evs s | (False, s) \<Rightarrow> (ReceiverGone, s))
      else log_session evs s)"

record log_listener =
  ll_backoff :: u64
  ll_last_alarm :: u64
  ll_pauses :: "u64 list"     \<comment> \<open>seconds slept so far\<close>

definition listener_new :: log_listener where
  "listener_new = \<lparr> ll_backoff = 1, ll_last_alarm = 0, ll_pauses = [] \<rparr>"

text \<open>One turn of the outer loop: the two readings of the clock for the alarm, then a failed subscription or a session.\<close>

record log_round =
  lr_check :: u64
  lr_alarm :: u64
  lr_session :: "u64 + log_event list"

definition alarm_at :: "u64 \<Rightarrow> u64 \<Rightarrow> u64 \<Rightarrow> u64 \<Rightarrow> feed \<Rightarrow> u64" where
  "alarm_at started last_alarm check now s =
     (case silence_alarm_due (st_ws_ms (fd_status s)) started last_alarm check of Some _ \<Rightarrow> now | None \<Rightarrow> last_alarm)"

definition listener_round :: "u64 \<Rightarrow> log_round \<Rightarrow> log_listener \<times> feed \<Rightarrow> bool \<times> log_listener \<times> feed" where
  "listener_round started r ls =
     (let (l, s) = ls; l = l\<lparr>ll_last_alarm := alarm_at started (ll_last_alarm l) (lr_check r) (lr_alarm r) s\<rparr> in
      case lr_session r of
        Inl now \<Rightarrow> (True, l\<lparr>ll_backoff := min (ll_backoff l * 2) 60, ll_pauses := ll_pauses l @ [ll_backoff l]\<rparr>,
                    on_feed_status (gap now Reconnects) s)
      | Inr evs \<Rightarrow> (case log_session evs s of (e, s) \<Rightarrow> (e \<noteq> ReceiverGone, l\<lparr>ll_backoff := 1\<rparr>, s)))"

fun run_listener :: "u64 \<Rightarrow> log_round list \<Rightarrow> log_listener \<times> feed \<Rightarrow> bool \<times> log_listener \<times> feed" where
  "run_listener started [] ls = (True, ls)"
| "run_listener started (r # rs) ls =
     (case listener_round started r ls of (True, ls) \<Rightarrow> run_listener started rs ls | (False, ls) \<Rightarrow> (False, ls))"

section \<open>The poller\<close>

definition GECKO_RETRY_AFTER_429_SECS :: u64 where "GECKO_RETRY_AFTER_429_SECS = 5"

text \<open>One retry of a page the server was too busy for.\<close>

definition page_answer :: "bool \<Rightarrow> (string + gecko_page) \<Rightarrow> (string + gecko_page) \<Rightarrow> string + gecko_page" where
  "page_answer shutdown first again =
     (case first of Inl e \<Rightarrow> if contains ''429'' e \<and> \<not> shutdown then again else Inl e | Inr p \<Rightarrow> Inr p)"

fun emit_pools :: "(nat \<Rightarrow> send_moment) \<Rightarrow> nat \<Rightarrow> pubkey list \<Rightarrow> bounded_set \<times> feed \<Rightarrow> bool \<times> bounded_set \<times> feed" where
  "emit_pools mo i [] bs = (True, bs)"
| "emit_pools mo i (pool # pools) (b, s) =
     (case bounded_insert pool b of
        (False, b) \<Rightarrow> emit_pools mo (i + 1) pools (b, s)
      | (True, b) \<Rightarrow>
          (case announce (mo i) (Pool pool) s of
             (True, s) \<Rightarrow> emit_pools mo (i + 1) pools (b, s)
           | (False, s) \<Rightarrow> (False, b, s)))"

record gecko_round =
  gr_check :: u64
  gr_alarm :: u64
  gr_start :: u64
  gr_page :: "nat \<Rightarrow> string + gecko_page"
  gr_again :: "nat \<Rightarrow> string + gecko_page"
  gr_shutdown :: "nat \<Rightarrow> bool"
  gr_moment :: "nat \<Rightarrow> nat \<Rightarrow> send_moment"
  gr_failed :: u64
  gr_heard :: u64
  gr_gap :: u64

datatype pages_end = PagesRead "u64 option" | PageFailed | PagesGone

definition older :: "u64 option \<Rightarrow> u64 option \<Rightarrow> u64 option" where
  "older x y = (case (x, y) of (Some a, Some b) \<Rightarrow> Some (min a b) | (None, _) \<Rightarrow> y | _ \<Rightarrow> x)"

fun gecko_pages :: "gecko_round \<Rightarrow> nat list \<Rightarrow> u64 option \<Rightarrow> bounded_set \<times> feed \<Rightarrow> pages_end \<times> bounded_set \<times> feed" where
  "gecko_pages r [] oldest bs = (PagesRead oldest, bs)"
| "gecko_pages r (p # ps) oldest (b, s) =
     (case page_answer (gr_shutdown r p) (gr_page r p) (gr_again r p) of
        Inl _ \<Rightarrow> (PageFailed, b, on_feed_status (gap (gr_failed r) Reconnects) s)
      | Inr page \<Rightarrow>
          (case emit_pools (gr_moment r p) 0 (gp_pools page) (b, s) of
             (False, bs) \<Rightarrow> (PagesGone, bs)
           | (True, bs) \<Rightarrow> gecko_pages r ps (older oldest (gp_oldest_created_ms page)) bs))"

record gecko_poller =
  gk_last_alarm :: u64
  gk_last_poll :: "u64 option"
  gk_emitted :: bounded_set

definition poller_new :: gecko_poller where
  "poller_new = \<lparr> gk_last_alarm = 0, gk_last_poll = None, gk_emitted = bounded_new 20000 \<rparr>"

definition gecko_poll :: "u64 \<Rightarrow> u32 \<Rightarrow> gecko_round \<Rightarrow> gecko_poller \<times> feed \<Rightarrow> bool \<times> gecko_poller \<times> feed" where
  "gecko_poll started pages r ks =
     (let (k, s) = ks; k = k\<lparr>gk_last_alarm := alarm_at started (gk_last_alarm k) (gr_check r) (gr_alarm r) s\<rparr> in
      case gecko_pages r [1 ..< unat pages + 1] None (gk_emitted k, s) of
        (PagesGone, b, s) \<Rightarrow> (False, k\<lparr>gk_emitted := b\<rparr>, s)
      | (PageFailed, b, s) \<Rightarrow> (True, k\<lparr>gk_emitted := b\<rparr>, s)
      | (PagesRead oldest, b, s) \<Rightarrow>
          let s = heard (gr_heard r) s
          in (True, k\<lparr>gk_emitted := b, gk_last_poll := Some (gr_start r)\<rparr>,
              if gecko_gap (gk_last_poll k) oldest then on_feed_status (gap (gr_gap r) Unresolved) s else s))"

fun run_poller :: "u64 \<Rightarrow> u32 \<Rightarrow> gecko_round list \<Rightarrow> gecko_poller \<times> feed \<Rightarrow> bool \<times> gecko_poller \<times> feed" where
  "run_poller started pages [] ks = (True, ks)"
| "run_poller started pages (r # rs) ks =
     (case gecko_poll started pages r ks of (True, ks) \<Rightarrow> run_poller started pages rs ks | (False, ks) \<Rightarrow> (False, ks))"

section \<open>The metrics\<close>

text \<open>The text of an age: \<open>-1\<close> while there is none, else the difference as a signed number.\<close>

definition show_i64 :: "i64 \<Rightarrow> string" where
  "show_i64 i = (if i < 0 then CHR ''-'' # decimal (nat (- i)) else decimal (nat i))"

definition show_age :: "u64 \<Rightarrow> u64 \<Rightarrow> string" where
  "show_age now t = show_i64 (if t = 0 then - 1 else sint (sat_sub now t))"

definition metric_line :: "string \<Rightarrow> string \<Rightarrow> string" where
  "metric_line name value = ''pool_sniper_'' @ name @ '' '' @ value @ [CHR 0x0A]"

definition render_status :: "status \<Rightarrow> u64 \<Rightarrow> string" where
  "render_status st now =
     concat (map (\<lambda>(name, value). metric_line name value)
       ([(''ws_last_message_age_ms'', show_age now (st_ws_ms st)), (''last_gap_age_ms'', show_age now (st_last_gap_ms st)),
         (''ready'', if isl (ready_verdict st now) then ''0'' else ''1''), (''watch_list'', decimal (unat (st_watched st))),
         (''pools_started_today'', decimal (unat (st_started_today st))), (''child_running'', if st_child_running st then ''1'' else ''0'')]
        @ map (\<lambda>(name, c). (name, decimal (unat c)))
            [(''create_pool_seen_total'', st_create_pool_seen st), (''stream_reconnects_total'', st_stream_reconnects st),
             (''signatures_evicted_total'', st_signatures_evicted st), (''signatures_unresolved_total'', st_signatures_unresolved st),
             (''pools_watched_total'', st_pools_watched st), (''pools_not_wsol_total'', st_pools_not_wsol st),
             (''pools_rejected_total'', st_pools_rejected st), (''pools_expired_total'', st_pools_expired st),
             (''children_started_total'', st_children_started st), (''child_startup_failures_total'', st_child_startup_failures st)]))"

section \<open>Properties\<close>

text \<open>Every announced pool is received, waiting, or counted as evicted; the channel stays bounded.\<close>

definition accounted :: "nat \<Rightarrow> feed \<Rightarrow> bool" where
  "accounted lost s \<longleftrightarrow>
     st_create_pool_seen (fd_status s) =
       of_nat (length (fd_taken s) + length (fd_queue s) + lost) + st_signatures_evicted (fd_status s)
     \<and> length (fd_queue s) \<le> SIGNATURE_CHANNEL_CAP"

lemma accounted_new: "accounted 0 discovery_feed_new"
  by (simp add: accounted_def discovery_feed_new_def fresh_status_def)

lemma accounted_other [simp]:
  "accounted n (on_feed_status (gap now Reconnects) s) = accounted n s" "accounted n (on_feed_status (gap now Unresolved) s) = accounted n s"
  "accounted n (heard now s) = accounted n s"
  by (simp_all add: accounted_def on_feed_status_def gap_def heard_def)

lemma receive_accounted: "accounted n s \<Longrightarrow> accounted n (receive k s)"
proof -
  have "length (fd_taken (receive k s)) + length (fd_queue (receive k s)) = length (fd_taken s) + length (fd_queue s)"
    by (auto simp: receive_def min_def)
  moreover have "length (fd_queue (receive k s)) \<le> length (fd_queue s)" "fd_status (receive k s) = fd_status s"
    by (simp_all add: receive_def)
  ultimately show "accounted n s \<Longrightarrow> accounted n (receive k s)" unfolding accounted_def by simp
qed

lemma announce_accounted:
  assumes "accounted 0 s" "announce m ev s = (go_on, s')"
  shows "accounted (if go_on then 0 else 1) s'"
  using receive_accounted [OF assms(1), of "mo_taken m"] assms(2)
  by (auto simp: accounted_def announce_def on_feed_status_def gap_def Let_def split: if_splits)

lemma session_accounted:
  "accounted 0 s \<Longrightarrow> log_session evs s = (e, s') \<Longrightarrow> accounted (if e = ReceiverGone then 1 else 0) s'"
proof (induction evs s rule: log_session.induct)
  case (4 m succeeded logs sig evs s)
  then show ?case
    by (auto simp: Let_def split: if_splits prod.splits bool.splits dest!: announce_accounted [rotated])
qed auto

lemma listener_accounted:
  "accounted 0 (snd ls) \<Longrightarrow> run_listener started rs ls = (go_on, l, s') \<Longrightarrow> accounted (if go_on then 0 else 1) s'"
proof (induction rs arbitrary: ls)
  case (Cons r rs)
  obtain go1 l1 s1 where r: "listener_round started r ls = (go1, l1, s1)" by (cases "listener_round started r ls")
  then have "accounted (if go1 then 0 else 1) s1"
    using Cons.prems(1)
    by (cases ls) (auto simp: listener_round_def Let_def split: sum.splits prod.splits if_splits dest!: session_accounted [rotated])
  then show ?case using Cons.IH [of "(l1, s1)"] Cons.prems(2) r by (cases go1) auto
qed auto

lemma emit_accounted:
  "accounted 0 s \<Longrightarrow> emit_pools mo i pools (b, s) = (go_on, b', s') \<Longrightarrow> accounted (if go_on then 0 else 1) s'"
proof (induction pools arbitrary: i b s)
  case (Cons pool pools)
  then show ?case
    by (auto split: prod.splits bool.splits dest!: announce_accounted [rotated])
qed auto

lemma pages_accounted:
  "accounted 0 s \<Longrightarrow> gecko_pages r ps oldest (b, s) = (e, b', s') \<Longrightarrow> accounted (if e = PagesGone then 1 else 0) s'"
proof (induction ps arbitrary: oldest b s)
  case (Cons p ps)
  then show ?case
    by (auto split: sum.splits prod.splits bool.splits dest!: emit_accounted [rotated])
qed auto

lemma poller_accounted:
  "accounted 0 (snd ks) \<Longrightarrow> run_poller started pages rs ks = (go_on, k, s') \<Longrightarrow> accounted (if go_on then 0 else 1) s'"
proof (induction rs arbitrary: ks)
  case (Cons r rs)
  obtain go1 k1 s1 where r: "gecko_poll started pages r ks = (go1, k1, s1)" by (cases "gecko_poll started pages r ks")
  then have "accounted (if go1 then 0 else 1) s1"
    using Cons.prems(1)
    by (cases ks) (auto simp: gecko_poll_def Let_def simp del: upt.simps split: pages_end.splits prod.splits if_splits
        dest!: pages_accounted [rotated])
  then show ?case using Cons.IH [of "(k1, s1)"] Cons.prems(2) r by (cases go1) auto
qed auto

text \<open>The waits before a new subscription lie between one second and a minute.\<close>

lemma listener_pauses:
  assumes "run_listener started rs (listener_new, discovery_feed_new) = (go_on, l, s)"
  shows "\<forall>p \<in> set (ll_pauses l). 1 \<le> p \<and> p \<le> 60"
proof -
  have round_ok: "1 \<le> ll_backoff l \<Longrightarrow> ll_backoff l \<le> 60 \<Longrightarrow> listener_round started r (l, s) = (g, l', s') \<Longrightarrow>
      1 \<le> ll_backoff l' \<and> ll_backoff l' \<le> 60 \<and> (\<exists>ps. ll_pauses l' = ll_pauses l @ ps \<and> set ps \<subseteq> {ll_backoff l})" for r l s g l' s'
    by (auto simp: listener_round_def Let_def word_le_nat_alt min_def unat_word_ariths split: sum.splits prod.splits if_splits)
  have "1 \<le> ll_backoff (fst ls) \<Longrightarrow> ll_backoff (fst ls) \<le> 60 \<Longrightarrow> \<forall>p \<in> set (ll_pauses (fst ls)). 1 \<le> p \<and> p \<le> 60 \<Longrightarrow>
      run_listener started rs ls = (go_on, l, s) \<Longrightarrow> \<forall>p \<in> set (ll_pauses l). 1 \<le> p \<and> p \<le> 60" for ls
  proof (induction rs arbitrary: ls)
    case (Cons r rs)
    obtain g l1 s1 where r: "listener_round started r ls = (g, l1, s1)" by (cases "listener_round started r ls")
    have "1 \<le> ll_backoff l1 \<and> ll_backoff l1 \<le> 60 \<and> (\<forall>p \<in> set (ll_pauses l1). 1 \<le> p \<and> p \<le> 60)"
      using round_ok [of "fst ls" r "snd ls" g l1 s1] r Cons.prems(1-3) by auto
    then show ?case using Cons.IH [of "(l1, s1)"] Cons.prems(4) r by (cases g) auto
  qed auto
  from this [of "(listener_new, discovery_feed_new)"] show ?thesis using assms by (simp add: listener_new_def)
qed

text \<open>
  C39. Discovery loses nothing silently: whatever the stream, the listing, the failures, the clock and the speed of the supervisor, every pool a
  source announced has been received by the supervisor, waits in the channel, or is counted as evicted, except the one a source was
  sending when the supervisor went away; and the channel never holds more than 1024 events.
\<close>

theorem discovery_accounts_for_pools:
  "(case run_listener started rounds (listener_new, discovery_feed_new) of
      (running, _, s) \<Rightarrow>
        st_create_pool_seen (fd_status s) =
          of_nat (length (fd_taken s) + length (fd_queue s) + (if running then 0 else 1)) + st_signatures_evicted (fd_status s)
        \<and> length (fd_queue s) \<le> 1024)
   \<and> (case run_poller started pages polls (poller_new, discovery_feed_new) of
      (running, _, s) \<Rightarrow>
        st_create_pool_seen (fd_status s) =
          of_nat (length (fd_taken s) + length (fd_queue s) + (if running then 0 else 1)) + st_signatures_evicted (fd_status s)
        \<and> length (fd_queue s) \<le> 1024)"
  using listener_accounted [of "(listener_new, discovery_feed_new)" started rounds] poller_accounted [of "(poller_new, discovery_feed_new)" started pages polls]
    accounted_new
  unfolding accounted_def SIGNATURE_CHANNEL_CAP_def by (auto split: prod.split)

end
