(* ===== verification/Spec2Isabelle.thy ===== *)
theory Spec2Isabelle
  imports Strategy Risk Hsm_Server Md_Pipeline Order_Book Sim_Quote Pumpswap_Quote Pumpswap_Ix Rpc_Batch Swap_Policy Onchain_Risk
    Pool_Discovery Paper Live_Args Position Record_Files Live_Entry Retry Live_Exit Supervisor Signal Redact Metric_Calls Main_Loop Geyser Execution Advisory Devnet_Tools
    Discovery_Feed
begin

text \<open>
  \<^bold>\<open>A Solana trading bot.\<close>  The program watches new pools, decides on entries and exits of one position at a time, trades it on paper or live on
  a Raydium CLMM pool (PumpSwap pools are quoted and simulated only), and signs live transactions on a remote HSM that
  checks them against a policy of its own.  Paths below are relative to \<open>src/\<close>.

  \<^bold>\<open>Parts and theories.\<close>
  \<^item> Integers and bytes: \<open>Prelude\<close> (Rust's saturating, checked and wrapping operations on words, sums as errors, little-endian
    bytes), \<open>Float64\<close> (double precision on rationals, for the arithmetic whose range is bounded), \<open>Double\<close> (binary64 with subnormals, overflow, infinities
    and NaN, for \<open>signal.rs\<close>), \<open>Mul_Div\<close> (\<open>mul_div\<close> of \<open>solana-sniper/src/strategy.rs\<close>),
    \<open>Solana\<close> (keys, instructions, derived addresses), \<open>Interfaces\<close> (the locales: daily counters, bounded first-in first-out
    memories, gates before an exposure, ordered buffers and the others, each interpreted on the model in the theory of its provider).
  \<^item> Deciding: \<open>Strategy\<close> (\<open>strategy.rs\<close>), \<open>Risk\<close> (\<open>risk.rs\<close>: the risk manager, its file, its audit trail), \<open>Sim_Quote\<close>
    (\<open>sim_quote.rs\<close>, the economics of a trade and the paper costs), \<open>Onchain_Risk\<close> (\<open>onchain_risk.rs\<close>: holders, mint authorities, blocklist),
    \<open>Paper\<close> (the \<open>PaperSimulator\<close> of \<open>main.rs\<close>), \<open>Signal\<close> (\<open>signal.rs\<close>: the price series, its indicators and the entry score, in the binary64 of \<open>Double\<close>).
  \<^item> Pools: \<open>Tick_Arrays\<close> and \<open>Account_Resolver\<close> (\<open>amm/account_resolver.rs\<close>), \<open>Raydium\<close> (\<open>amm/raydium_v4.rs\<close>), \<open>Pumpswap\<close>,
    \<open>Pumpswap_Quote\<close> and \<open>Pumpswap_Ix\<close> (\<open>amm/pumpswap.rs\<close>, \<open>amm/pumpswap_ix.rs\<close>), \<open>Rpc_Batch\<close> (\<open>rpc_util.rs\<close>), \<open>Pool_Discovery\<close> (\<open>pool_discovery.rs\<close>).
  \<^item> Trading live, all in \<open>main.rs\<close> unless named: \<open>Live_Args\<close> (what a start checks and the limits of entries and exits), \<open>Position\<close> (\<open>position.rs\<close>)
    and \<open>Record_Files\<close> (its files as bytes on a disk that may lose its power, and the lock on a data directory),
    \<open>Live_Entry\<close> (booking an entry, reconciling one that was cut short, resuming a position), \<open>Live_Exit\<close>
    (\<open>manage_open_position\<close> and the iteration around it), \<open>Entry_Gates\<close> (the stages from the signer to the signed entry, shared by live and
    dry-run iterations), \<open>Paper_Data\<close> (the market data of a paper iteration and the PumpSwap measurement), \<open>Main_Loop\<close> (the loop that calls them
    all), \<open>Metrics\<close> and \<open>Metric_Calls\<close> (\<open>metrics.rs\<close>: readiness and health; what is registered and recorded), \<open>Redact\<close> (\<open>redact.rs\<close>: masked log lines), \<open>Retry\<close> (\<open>retry.rs\<close>,
    \<open>jito.rs\<close> and \<open>submit_live_tx\<close>; each call returns the events it put on the network).
  \<^item> Supervising: \<open>Supervisor_Config\<close>, \<open>Discovery_Feed\<close> and \<open>Supervisor\<close> (\<open>bin/pool_sniper.rs\<close>: the two sources of new pools and the channel they
    feed, watching the pools and running one trading process at a time).
  \<^item> Signing: \<open>Hsm_Policy\<close> and \<open>Hsm_Server\<close> (\<open>tools/hsm_server/\<close>), \<open>Remote_Hsm\<close> (\<open>remote_hsm.rs\<close>, the client), \<open>Swap_Policy\<close> (what the bot
    builds against what the server accepts).
  \<^item> Market data: \<open>Market_Feed\<close> (\<open>marketdata.rs\<close> and \<open>solana_ws.rs\<close>: a polled pool and the account stream), \<open>Geyser\<close> (\<open>geyser.rs\<close>), \<open>Md_Event\<close>,
    \<open>Dedup\<close>, \<open>Slot_Ring\<close>, \<open>Latency\<close>, \<open>Md_Pipeline\<close> (\<open>crates/hft-marketdata\<close>) and \<open>Order_Book\<close> (\<open>crates/hft-core\<close>).
  \<^item> Beside the bot: \<open>Execution\<close> (\<open>crates/hft-execution\<close>: orders and the two backends that submit them), \<open>Advisory\<close> (the alpha score,
    the risk firewall, DexScreener figures, decision records, \<open>config.rs\<close>, mock prices), \<open>Devnet_Tools\<close> (signer adapters, \<open>tx.rs\<close>,
    \<open>executor.rs\<close>, \<open>send_transfer\<close>, and the two devnet harnesses, which run the bot's resolution, adapter, HSM client and risk manager).

  \<^bold>\<open>State and operations.\<close>  A struct is a record with its fields in order, an enum a datatype with its variants, a method a function from the old state to
  the new one.  Machine integers are words, or integers with an explicit saturation for \<open>i64\<close>.  An error is the left side of a sum; its text is reduced to a constructor.  A time
  is a number of milliseconds (nanoseconds where the code uses the monotone clock with finer steps).  What the node, the HSM, the Block Engine, the parsers of JSON and base58 and the hash functions
  answer are arguments or fields of an environment record, one field per question, so a theorem holds for every answer.  Writes to files
  return whether the file system accepted them; a crash (\<open>Live_Entry.crash\<close>) keeps the files and loses the memory.  The stages of an entry
  (\<open>Entry_Gates.stage\<close>) pass the state of the trader on and end with the reason of an early return; an iteration (\<open>Main_Loop.iteration\<close>) says
  whether the loop goes on, ends, or the process dies, and a run is its fold over the environments of the iterations.

  \<^bold>\<open>What the lemmas show.\<close>  The trading part: a live start is guarded; entries pass limits that bound what they can lose; the kill switch, the daily caps and the exposure
  hold over every run; a crash at any point between two writes of an exit is repaired by the next start, a submitted entry stays on record over crashes and
  restarts but for the three ways in which the code removes its record (two of which can lose an entry that landed, as the findings say), a
  single write is never torn, and one live process at most runs on a data directory; exits sign and send one swap of the position only and are never blocked by the limits on
  entries; paper and live take the same exits; an entry is sent only when every gate accepted it over the state and answers of its iteration, a dry run rehearses exactly those stages, and over whole
  runs of the loop a single-trade run opens one position at most, the kill switch holds, only live runs trade and the paper loop is the paper simulator on the inputs of its iterations; the wait for a
  confirmation ends, each verdict says exactly what was seen, and a submission puts only the signed transaction on the network.  A trade signal rests on fresh
  samples and on comparisons that NaN passes, which the prices of pools exclude.
  The pool part: resolved accounts are verified, the tick array search finds exactly the first arrays, quotes lose on a round trip,
  written layouts are read back.  The HSM part: an accepted message bounds what leaves the wallet, every reply is a signature over an accepted
  message or a placeholder, and the swaps the bot builds are accepted.  The market data part: the ring releases in order, the
  pipeline conserves events and ends, duplicates and stale events are dropped, and the channel of the live source keeps its order under every
  interleaving of its two sides.  The supervisor part: a process started runs as the supervisor was told whatever it inherits, but for a \<open>.env\<close> file that sets a removed variable again; processes start only for checked pools, one at a time, within the daily cap over crashes, and every announced pool
  is received, waiting or counted as lost.  Beside the bot: an accepted order
  was sent once with its own transaction, the alpha score keeps its scale with every rounding, and the devnet round trip stays within its cap
  and keeps the books of the risk manager.

  \<^bold>\<open>Bounds and fuel.\<close>  No function runs on fuel that could run out silently.  Loops over data recurse on it; \<open>send_loop\<close> ends after three
  sends, \<open>fetch_in_batches\<close> by the keys left.  The wait for a confirmation is a function of the polls it
  made, \<open>None\<close> when it needs more; \<open>Retry.confirm_verdict\<close> proves that the polls fitting in the hard deadline, and two more, always decide.

  \<^bold>\<open>Not modelled.\<close>  Sockets, TLS, HTTP serving, threads, sleeps, logging and the Prometheus client; the command line parser;
  serde and the Solana SDK.  Of \<open>main.rs\<close> the call of the advisory DexScreener request, the simulations a dry run prints after its
  signed transaction and the printed summary: none of them decides anything.  The placeholders of \<open>hft-execution\<close> (\<open>jito_bundle.rs\<close>,
  \<open>raydium_v4.rs\<close>, \<open>amm_adapter.rs\<close>) return made-up texts that nothing reads.
\<close>

end
